(* ===== verification/Prelude.thy ===== *)
theory Prelude
  imports Main "HOL-Library.AList" "HOL-Library.Multiset" "HOL-Library.Char_ord"
    "HOL-Library.List_Lexorder"
begin

text \<open>
  The parts of Go and of its standard library that the modelled packages use, and the
  generic lemmas the component theories share: signed 64-bit arithmetic, strings as byte
  lists (\<^verbatim>\<open>strings.TrimSpace\<close>, \<^verbatim>\<open>ToLower\<close>, \<^verbatim>\<open>Contains\<close>, \<^verbatim>\<open>Join\<close>,
  \<^verbatim>\<open>strconv.Itoa\<close>), Go maps as association lists without duplicate keys, instants of
  \<^verbatim>\<open>time.Time\<close> as integers, and \<^verbatim>\<open>sort.SliceStable\<close>.
\<close>

named_theorems go_map_simps "lookup and domain after an update or a deletion of a Go map"
named_theorems go_def "definitions of the Go library layer"

section \<open>Signed 64-bit arithmetic\<close>

text \<open>
  Go's \<^verbatim>\<open>int\<close>, \<^verbatim>\<open>int64\<close> and \<^verbatim>\<open>time.Duration\<close> are 64-bit two's complement values and wrap
  silently. \<open>i64\<close> is the value the machine keeps for the integer \<open>x\<close>. Counters that
  only ever move by one per live object are plain \<^typ>\<open>int\<close>; every sum or product of
  values taken from a configuration, a request or a database row goes through \<open>i64\<close>.
\<close>

definition i64 :: "int \<Rightarrow> int" where
  "i64 x = (x + 2 ^ 63) mod 2 ^ 64 - 2 ^ 63"

definition in_i64 :: "int \<Rightarrow> bool" where
  "in_i64 x \<longleftrightarrow> - (2 ^ 63) \<le> x \<and> x < 2 ^ 63"

lemma i64_id: "in_i64 x \<Longrightarrow> i64 x = x"
  by (simp add: i64_def in_i64_def)

lemma i64_range: "in_i64 (i64 x)"
  by (simp add: i64_def in_i64_def)

lemma i64_lower: "- (2 ^ 63) \<le> i64 x"
  using i64_range [of x] by (simp add: in_i64_def)

lemma i64_upper: "i64 x < 2 ^ 63"
  using i64_range [of x] by (simp add: in_i64_def)

section \<open>Strings\<close>

text \<open>
  A Go string is a byte sequence: \<^typ>\<open>string\<close>, whose characters are bytes. The encodings
  of the code points that \<^verbatim>\<open>unicode.IsSpace\<close> accepts.
\<close>

definition go_spaces :: "string list" where
  "go_spaces =
    [[CHR 0x20], [CHR 0x09], [CHR 0x0A], [CHR 0x0B], [CHR 0x0C], [CHR 0x0D],
     [CHR 0xC2, CHR 0x85], [CHR 0xC2, CHR 0xA0], [CHR 0xE1, CHR 0x9A, CHR 0x80],
     [CHR 0xE2, CHR 0x80, CHR 0x80], [CHR 0xE2, CHR 0x80, CHR 0x81],
     [CHR 0xE2, CHR 0x80, CHR 0x82], [CHR 0xE2, CHR 0x80, CHR 0x83],
     [CHR 0xE2, CHR 0x80, CHR 0x84], [CHR 0xE2, CHR 0x80, CHR 0x85],
     [CHR 0xE2, CHR 0x80, CHR 0x86], [CHR 0xE2, CHR 0x80, CHR 0x87],
     [CHR 0xE2, CHR 0x80, CHR 0x88], [CHR 0xE2, CHR 0x80, CHR 0x89],
     [CHR 0xE2, CHR 0x80, CHR 0x8A], [CHR 0xE2, CHR 0x80, CHR 0xA8],
     [CHR 0xE2, CHR 0x80, CHR 0xA9], [CHR 0xE2, CHR 0x80, CHR 0xAF],
     [CHR 0xE2, CHR 0x81, CHR 0x9F], [CHR 0xE3, CHR 0x80, CHR 0x80]]"

definition starts_with :: "'a list \<Rightarrow> 'a list \<Rightarrow> bool" where
  "starts_with s w \<longleftrightarrow> take (length w) s = w"

definition space_prefix :: "'a list list \<Rightarrow> 'a list \<Rightarrow> 'a list option" where
  "space_prefix ws s = find (\<lambda>w. w \<noteq> [] \<and> starts_with s w) ws"

lemma space_prefix_SomeD:
  "space_prefix ws s = Some w \<Longrightarrow> w \<in> set ws \<and> w \<noteq> [] \<and> starts_with s w"
  unfolding space_prefix_def by (metis (mono_tags, lifting) find_Some_iff nth_mem)

lemma space_prefix_None:
  "space_prefix ws s = None \<longleftrightarrow> (\<forall>w \<in> set ws. w \<noteq> [] \<longrightarrow> \<not> starts_with s w)"
  unfolding space_prefix_def by (auto simp: find_None_iff)

function strip_prefixes :: "'a list list \<Rightarrow> 'a list \<Rightarrow> 'a list" where
  "strip_prefixes ws s =
     (case space_prefix ws s of None \<Rightarrow> s | Some w \<Rightarrow> strip_prefixes ws (drop (length w) s))"
  by pat_completeness auto
termination
proof (relation "measure (\<lambda>(ws, s). length s)", goal_cases)
  case (2 ws s w)
  then have "w \<noteq> []" and "starts_with s w"
    using space_prefix_SomeD by metis+
  then have "s \<noteq> []" by (auto simp: starts_with_def)
  with \<open>w \<noteq> []\<close> show ?case by simp
qed simp

declare strip_prefixes.simps [simp del]

definition TrimSpace :: "string \<Rightarrow> string" where
  "TrimSpace s = rev (strip_prefixes (map rev go_spaces) (rev (strip_prefixes go_spaces s)))"

text \<open>
  \<^verbatim>\<open>strings.ToLower\<close>: the ASCII letters, and the two code points outside ASCII whose lower
  case is an ASCII letter (U+0130 and U+212A). Other code points keep their encoding: their
  lower case lies outside ASCII, and every literal the program compares with is lower-case
  ASCII or an unaccented CJK word without case.
\<close>

definition lower_byte :: "char \<Rightarrow> char" where
  "lower_byte c =
     (if 65 \<le> (of_char c :: nat) \<and> (of_char c :: nat) \<le> 90 then char_of ((of_char c :: nat) + 32)
      else c)"

fun ToLower :: "string \<Rightarrow> string" where
  "ToLower [] = []"
| "ToLower (c # cs) =
     (if c = CHR 0xC4 \<and> take 1 cs = [CHR 0xB0] then CHR ''i'' # ToLower (drop 1 cs)
      else if c = CHR 0xE2 \<and> take 2 cs = [CHR 0x84, CHR 0xAA] then CHR ''k'' # ToLower (drop 2 cs)
      else lower_byte c # ToLower cs)"

fun Contains :: "string \<Rightarrow> string \<Rightarrow> bool" where
  "Contains [] n = (n = [])"
| "Contains (c # cs) n = (starts_with (c # cs) n \<or> Contains cs n)"

fun Join :: "string list \<Rightarrow> string \<Rightarrow> string" where
  "Join [] sep = []"
| "Join [p] sep = p"
| "Join (p # q # ps) sep = p @ sep @ Join (q # ps) sep"

fun digits_of :: "nat \<Rightarrow> string" where
  "digits_of n = (if n < 10 then [char_of (48 + n)] else digits_of (n div 10) @ [char_of (48 + n mod 10)])"

declare digits_of.simps [simp del]

definition Itoa :: "int \<Rightarrow> string" where
  "Itoa n = (if n < 0 then CHR ''-'' # digits_of (nat (- n)) else digits_of (nat n))"

text \<open>The operator \<^verbatim>\<open><\<close> on strings compares bytes.\<close>

fun go_less :: "string \<Rightarrow> string \<Rightarrow> bool" where
  "go_less xs [] = False"
| "go_less [] (y # ys) = True"
| "go_less (x # xs) (y # ys) =
     ((of_char x :: nat) < of_char y \<or> (of_char x :: nat) = of_char y \<and> go_less xs ys)"

lemma go_less_asym: "go_less xs ys \<Longrightarrow> \<not> go_less ys xs"
  by (induction xs ys rule: go_less.induct) auto

lemma go_less_total: "go_less xs ys \<or> go_less ys xs \<or> xs = ys"
  by (induction xs ys rule: go_less.induct) (auto simp: neq_Nil_conv)

lemma go_less_trans: "go_less xs ys \<Longrightarrow> go_less ys zs \<Longrightarrow> go_less xs zs"
proof (induction xs ys arbitrary: zs rule: go_less.induct)
  case (3 x xs y ys)
  then show ?case by (cases zs) auto
next
  case (2 y ys)
  then show ?case by (cases zs) auto
qed simp

lemma go_less_neg_trans: "\<not> go_less xs ys \<Longrightarrow> \<not> go_less ys zs \<Longrightarrow> \<not> go_less xs zs"
  using go_less_total go_less_trans go_less_asym by metis

subsection \<open>Trimming\<close>

lemma strip_prefixes_fix: "space_prefix ws s = None \<Longrightarrow> strip_prefixes ws s = s"
  by (subst strip_prefixes.simps) simp

lemma strip_prefixes_done: "space_prefix ws (strip_prefixes ws s) = None"
proof (induction ws s rule: strip_prefixes.induct)
  case (1 ws s)
  then show ?case
    by (cases "space_prefix ws s") (auto simp: strip_prefixes.simps [of ws s])
qed

lemma strip_prefixes_suffix: "\<exists>p. s = p @ strip_prefixes ws s"
proof (induction ws s rule: strip_prefixes.induct)
  case (1 ws s)
  show ?case
  proof (cases "space_prefix ws s")
    case None
    then show ?thesis by (simp add: strip_prefixes_fix)
  next
    case (Some w)
    with 1 obtain p where "drop (length w) s = p @ strip_prefixes ws (drop (length w) s)"
      by blast
    then have "s = (take (length w) s @ p) @ strip_prefixes ws s"
      using Some by (metis append.assoc append_take_drop_id option.simps(5) strip_prefixes.simps)
    then show ?thesis by blast
  qed
qed

lemma starts_with_iff: "starts_with s n \<longleftrightarrow> (\<exists>q. s = n @ q)"
  by (metis append_eq_conv_conj append_take_drop_id starts_with_def)

lemma starts_with_append: "starts_with s w \<Longrightarrow> starts_with (s @ t) w"
  by (auto simp: starts_with_iff)

lemma TrimSpace_fix:
  assumes "space_prefix go_spaces s = None" and "space_prefix (map rev go_spaces) (rev s) = None"
  shows "TrimSpace s = s"
  using assms by (simp add: TrimSpace_def strip_prefixes_fix)

lemma go_spaces_outside:
  "list_all (\<lambda>w. w \<noteq> [] \<and> ((of_char (hd w) :: nat) \<le> 32 \<or> 128 \<le> (of_char (hd w) :: nat))
     \<and> ((of_char (last w) :: nat) \<le> 32 \<or> 128 \<le> (of_char (last w) :: nat))) go_spaces"
  by code_simp

text \<open>A string that begins and ends with a visible ASCII character is left alone.\<close>

lemma TrimSpace_visible:
  assumes "s \<noteq> []" and "32 < (of_char (hd s) :: nat)" "(of_char (hd s) :: nat) < 128"
    and "32 < (of_char (last s) :: nat)" "(of_char (last s) :: nat) < 128"
  shows "TrimSpace s = s"
proof (rule TrimSpace_fix)
  have "\<not> starts_with s w" if "w \<in> set go_spaces" for w
    using that go_spaces_outside assms(2,3) by (fastforce simp: starts_with_iff list_all_iff)
  then show "space_prefix go_spaces s = None" by (simp add: space_prefix_None)
  have "\<not> starts_with (rev s) (rev w)" if "w \<in> set go_spaces" for w
  proof
    assume "starts_with (rev s) (rev w)"
    then obtain q where "s = rev q @ w" by (auto simp: starts_with_iff) (metis rev_append rev_rev_ident)
    with that go_spaces_outside assms(4,5) show False by (fastforce simp: list_all_iff)
  qed
  then show "space_prefix (map rev go_spaces) (rev s) = None" by (auto simp: space_prefix_None)
qed

lemma TrimSpace_idem [simp]: "TrimSpace (TrimSpace s) = TrimSpace s"
proof (rule TrimSpace_fix)
  define l where "l = strip_prefixes go_spaces s"
  define r where "r = strip_prefixes (map rev go_spaces) (rev l)"
  have t: "TrimSpace s = rev r" by (simp add: TrimSpace_def l_def r_def)
  show "space_prefix (map rev go_spaces) (rev (TrimSpace s)) = None"
    by (simp add: t r_def strip_prefixes_done)
  obtain p where "rev l = p @ r"
    using strip_prefixes_suffix [of "rev l"] by (auto simp: r_def)
  then have l: "l = rev r @ rev p" by (metis rev_append rev_rev_ident)
  have "space_prefix go_spaces l = None" by (simp add: l_def strip_prefixes_done)
  then show "space_prefix go_spaces (TrimSpace s) = None"
    by (auto simp: t l space_prefix_None dest: starts_with_append)
qed

lemma TrimSpace_Nil [simp]: "TrimSpace [] = []"
  by (rule TrimSpace_fix) (simp_all add: space_prefix_None starts_with_def)

lemma strip_prefixes_subset: "set (strip_prefixes ws s) \<subseteq> set s"
  using strip_prefixes_suffix [of s ws] by (metis Un_upper2 set_append)

lemma TrimSpace_subset: "set (TrimSpace s) \<subseteq> set s"
  using strip_prefixes_subset [of "map rev go_spaces" "rev (strip_prefixes go_spaces s)"]
    strip_prefixes_subset [of go_spaces s]
  by (auto simp: TrimSpace_def)

subsection \<open>Substrings\<close>

lemma Contains_iff: "Contains s n \<longleftrightarrow> (\<exists>p q. s = p @ n @ q)"
proof (induction s)
  case (Cons c cs)
  have "(\<exists>p q. c # cs = p @ n @ q) \<longleftrightarrow> starts_with (c # cs) n \<or> (\<exists>p q. cs = p @ n @ q)"
    by (auto simp: starts_with_iff Cons_eq_append_conv)
  with Cons.IH show ?case by simp
qed auto

subsection \<open>Joining\<close>

lemma split_at_separator:
  assumes "c \<notin> set p" and "c \<notin> set p'" and "p @ c # r = p' @ c # r'"
  shows "p = p' \<and> r = r'"
proof -
  have "takeWhile (\<lambda>x. x \<noteq> c) (p @ c # r) = p" "takeWhile (\<lambda>x. x \<noteq> c) (p' @ c # r') = p'"
    using assms(1,2) by (subst takeWhile_append2; auto)+
  with assms(3) have "p = p'" by simp
  with assms(3) show ?thesis by simp
qed

lemma Join_Cons: "ps \<noteq> [] \<Longrightarrow> Join (p # ps) sep = p @ sep @ Join ps sep"
  by (cases ps) auto

lemma Join_separator: "c \<in> set (Join (p # q # ps) [c])"
  by simp

lemma Join_inj:
  assumes "\<forall>p \<in> set ps. c \<notin> set p" and "\<forall>q \<in> set qs. c \<notin> set q"
    and "ps \<noteq> []" and "qs \<noteq> []" and "Join ps [c] = Join qs [c]"
  shows "ps = qs"
  using assms
proof (induction ps arbitrary: qs)
  case (Cons p ps)
  obtain q qs' where qs: "qs = q # qs'" using Cons.prems(4) by (cases qs) auto
  consider "ps = []" "qs' = []" | "ps = []" "qs' \<noteq> []" | "ps \<noteq> []" "qs' = []" | "ps \<noteq> []" "qs' \<noteq> []"
    by blast
  then show ?case
  proof cases
    case 4
    then have "p @ c # Join ps [c] = q @ c # Join qs' [c]"
      using Cons.prems(5) qs by (simp add: Join_Cons)
    then have "p = q \<and> Join ps [c] = Join qs' [c]"
      using Cons.prems(1,2) qs by (intro split_at_separator) auto
    with Cons.IH [of qs'] Cons.prems 4 qs show ?thesis by auto
  qed (use Cons.prems qs in \<open>auto simp: Join_Cons\<close>)
qed simp

subsection \<open>Decimal numerals\<close>

lemma digits_of_nonempty [simp]: "digits_of n \<noteq> []"
  by (subst digits_of.simps) simp

lemma of_digit_char: "d < 10 \<Longrightarrow> (of_char (char_of (48 + d) :: char) :: nat) = 48 + d"
  by simp

lemma digits_of_bytes:
  "c \<in> set (digits_of n) \<Longrightarrow> 48 \<le> (of_char c :: nat) \<and> (of_char c :: nat) < 58"
proof (induction n rule: digits_of.induct)
  case (1 n)
  have "n mod 10 < 10" by simp
  with 1 show ?case
    by (cases "n < 10") (auto simp: digits_of.simps [of n] of_digit_char simp del: of_char_of)
qed


definition value_of :: "string \<Rightarrow> nat" where
  "value_of s = foldl (\<lambda>a c. 10 * a + (of_char c - 48)) 0 s"

lemma value_of_digits [simp]: "value_of (digits_of n) = n"
proof (induction n rule: digits_of.induct)
  case (1 n)
  have "n mod 10 < 10" by simp
  with 1 show ?case
    by (cases "n < 10")
      (auto simp: digits_of.simps [of n] value_of_def of_digit_char simp del: of_char_of)
qed

lemma digits_of_inj: "digits_of m = digits_of n \<longleftrightarrow> m = n"
  by (metis value_of_digits)

lemma digits_of_not_minus: "CHR ''-'' \<notin> set (digits_of n)"
  using digits_of_bytes by fastforce

lemma Itoa_inj: "Itoa a = Itoa b \<longleftrightarrow> a = b"
proof
  assume eq: "Itoa a = Itoa b"
  have "(a < 0) = (b < 0)"
    using eq digits_of_not_minus [of "nat a"] digits_of_not_minus [of "nat b"]
    by (auto simp: Itoa_def split: if_splits) (metis list.set_intros(1))+
  with eq show "a = b"
    by (auto simp: Itoa_def digits_of_inj split: if_splits)
qed simp

lemma Itoa_bytes: "c \<in> set (Itoa n) \<Longrightarrow> c = CHR ''-'' \<or> 48 \<le> (of_char c :: nat) \<and> (of_char c :: nat) < 58"
  using digits_of_bytes by (auto simp: Itoa_def split: if_splits)

section \<open>Go maps\<close>

text \<open>
  A Go map is an association list with distinct keys (\<open>gwf\<close>). A lookup is \<^const>\<open>map_of\<close>;
  a missing key of a \<^verbatim>\<open>map[K]int\<close> reads as 0 (\<open>gcount\<close>). Iteration visits the pairs in
  list order; where the source's result could depend on Go's unspecified iteration order the
  definitions sort afterwards or take the choice as an argument, as the source does.
\<close>

type_synonym ('k, 'v) gomap = "('k \<times> 'v) list"

abbreviation gput :: "'k \<Rightarrow> 'v \<Rightarrow> ('k, 'v) gomap \<Rightarrow> ('k, 'v) gomap" where
  "gput k v m \<equiv> AList.update k v m"

abbreviation gdel :: "'k \<Rightarrow> ('k, 'v) gomap \<Rightarrow> ('k, 'v) gomap" where
  "gdel k m \<equiv> AList.delete k m"

definition gwf :: "('k, 'v) gomap \<Rightarrow> bool" where
  "gwf m \<longleftrightarrow> distinct (map fst m)"

definition gcount :: "('k, int) gomap \<Rightarrow> 'k \<Rightarrow> int" where
  "gcount m k = (case map_of m k of None \<Rightarrow> 0 | Some n \<Rightarrow> n)"

definition ginc :: "'k \<Rightarrow> ('k, int) gomap \<Rightarrow> ('k, int) gomap" where
  "ginc k m = gput k (gcount m k + 1) m"

lemma map_of_gput [go_map_simps]: "map_of (gput k v m) = (map_of m)(k \<mapsto> v)"
  by (rule update_conv')

lemma map_of_gdel [go_map_simps]: "map_of (gdel k m) = (map_of m)(k := None)"
  by (rule delete_conv')

lemma gwf_Nil [simp]: "gwf []"
  by (simp add: gwf_def)

lemma gwf_gput [simp]: "gwf m \<Longrightarrow> gwf (gput k v m)"
  by (simp add: gwf_def distinct_update)

lemma gwf_gdel [simp]: "gwf m \<Longrightarrow> gwf (gdel k m)"
  by (simp add: gwf_def distinct_delete)

lemma gwf_filter [simp]: "gwf m \<Longrightarrow> gwf (filter P m)"
  by (auto simp: gwf_def distinct_map inj_on_def)

lemma gcount_gput [go_map_simps]: "gcount (gput k v m) j = (if j = k then v else gcount m j)"
  by (simp add: gcount_def go_map_simps)

lemma gcount_gdel [go_map_simps]: "gcount (gdel k m) j = (if j = k then 0 else gcount m j)"
  by (simp add: gcount_def go_map_simps)

lemma gcount_ginc [go_map_simps]: "gcount (ginc k m) j = gcount m j + (if j = k then 1 else 0)"
  by (simp add: ginc_def go_map_simps)

lemma gwf_ginc [simp]: "gwf m \<Longrightarrow> gwf (ginc k m)"
  by (simp add: ginc_def)

lemma gcount_Nil [simp]: "gcount [] k = 0"
  by (simp add: gcount_def)

lemma map_of_filter_keys: "gwf m \<Longrightarrow> map_of (filter (\<lambda>(k, v). P k) m) k = (if P k then map_of m k else None)"
  by (induction m) (auto simp: gwf_def map_of_eq_None_iff)

lemma map_of_filter_pairs:
  "gwf m \<Longrightarrow> map_of (filter P m) k =
     (case map_of m k of None \<Rightarrow> None | Some v \<Rightarrow> if P (k, v) then Some v else None)"
proof (induction m)
  case (Cons p m)
  have none: "map_of (filter P m) (fst p) = None"
    using Cons.prems by (force simp: gwf_def map_of_eq_None_iff)
  have "map_of m (fst p) = None"
    using Cons.prems by (auto simp: gwf_def map_of_eq_None_iff)
  with Cons none show ?case
    by (cases p) (auto simp: gwf_def)
qed simp

lemma gwf_mem_iff: "gwf m \<Longrightarrow> (k, v) \<in> set m \<longleftrightarrow> map_of m k = Some v"
  by (auto simp: gwf_def dest: map_of_SomeD)

section \<open>Time\<close>

text \<open>
  An instant is its distance to the Unix epoch in nanoseconds; \<open>zero_time\<close> is the zero value
  \<^verbatim>\<open>time.Time{}\<close> (1 January of year 1, UTC), which \<^verbatim>\<open>IsZero\<close> recognises.
\<close>

type_synonym time = int

definition zero_time :: time where
  "zero_time = - 62135596800000000000"

definition IsZero :: "time \<Rightarrow> bool" where
  "IsZero t \<longleftrightarrow> t = zero_time"

definition Second :: int where
  "Second = 1000000000"

definition Millisecond :: int where
  "Millisecond = 1000000"

section \<open>Stable sorting\<close>

text \<open>
  \<^verbatim>\<open>sort.SliceStable\<close> with the predicate \<open>lt\<close>: each element is inserted before the first
  later element that is not less than it, so equal elements keep their order.
\<close>

fun insert_stable :: "('a \<Rightarrow> 'a \<Rightarrow> bool) \<Rightarrow> 'a \<Rightarrow> 'a list \<Rightarrow> 'a list" where
  "insert_stable lt x [] = [x]"
| "insert_stable lt x (y # ys) = (if lt y x then y # insert_stable lt x ys else x # y # ys)"

definition SliceStable :: "('a \<Rightarrow> 'a \<Rightarrow> bool) \<Rightarrow> 'a list \<Rightarrow> 'a list" where
  "SliceStable lt xs = foldr (insert_stable lt) xs []"

lemma mset_insert_stable [simp]: "mset (insert_stable lt x xs) = add_mset x (mset xs)"
  by (induction xs) auto

lemma mset_SliceStable [simp]: "mset (SliceStable lt xs) = mset xs"
  by (induction xs) (simp_all add: SliceStable_def)

lemma set_SliceStable [simp]: "set (SliceStable lt xs) = set xs"
  by (metis mset_SliceStable set_mset_mset)

lemma length_SliceStable [simp]: "length (SliceStable lt xs) = length xs"
  by (metis mset_SliceStable size_mset)

lemma set_insert_stable [simp]: "set (insert_stable lt x xs) = insert x (set xs)"
  by (metis mset_insert_stable set_mset_add_mset_insert set_mset_mset)

text \<open>A strict weak order, the contract that \<^verbatim>\<open>sort.SliceStable\<close> has with its argument.\<close>

locale strict_weak_order =
  fixes lt :: "'a \<Rightarrow> 'a \<Rightarrow> bool"
  assumes asym: "lt x y \<Longrightarrow> \<not> lt y x"
    and neg_trans: "\<not> lt x y \<Longrightarrow> \<not> lt y z \<Longrightarrow> \<not> lt x z"
begin

lemma insert_sorted:
  "sorted_wrt (\<lambda>x y. \<not> lt y x) xs \<Longrightarrow> sorted_wrt (\<lambda>x y. \<not> lt y x) (insert_stable lt a xs)"
  by (induction xs) (auto dest: asym neg_trans)

lemma sorted: "sorted_wrt (\<lambda>x y. \<not> lt y x) (SliceStable lt xs)"
  by (induction xs) (simp_all add: SliceStable_def insert_sorted)

end

section \<open>Sums over lists\<close>

lemma le_incr: "(a :: int) \<le> b \<Longrightarrow> a \<le> b + 1"
  by simp

lemma gwf_map_values: "gwf (map (\<lambda>(k, v). (k, f k v)) m) = gwf m"
  by (simp add: gwf_def case_prod_unfold comp_def)

lemma map_of_map_values: "map_of (map (\<lambda>(k, v). (k, f k v)) m) k = map_option (f k) (map_of m k)"
  by (induction m) auto

lemma sum_list_remove1:
  fixes f :: "'a \<Rightarrow> int"
  shows "x \<in> set xs \<Longrightarrow> sum_list (map f (remove1 x xs)) = sum_list (map f xs) - f x"
  by (induction xs) auto

lemma gput_sum:
  fixes f :: "'v \<Rightarrow> int"
  assumes "gwf m"
  shows "(\<Sum>(k, v) \<leftarrow> gput a b m. f v) =
    (\<Sum>(k, v) \<leftarrow> m. f v) + f b - (case map_of m a of None \<Rightarrow> 0 | Some v \<Rightarrow> f v)"
  using assms by (induction m) (auto simp: gwf_def map_of_eq_None_iff split: option.splits)

lemma gdel_not_key: "a \<notin> fst ` set m \<Longrightarrow> gdel a m = m"
  by (induction m) (auto simp: AList.delete_eq)

lemma gdel_sum:
  fixes f :: "'v \<Rightarrow> int"
  assumes "gwf m"
  shows "(\<Sum>(k, v) \<leftarrow> gdel a m. f v) =
    (\<Sum>(k, v) \<leftarrow> m. f v) - (case map_of m a of None \<Rightarrow> 0 | Some v \<Rightarrow> f v)"
  using assms
proof (induction m)
  case (Cons p m)
  then have "fst p \<notin> fst ` set m" and "gwf m" by (auto simp: gwf_def)
  with Cons.IH show ?case
    by (cases p) (auto simp: AList.delete_eq map_of_eq_None_iff gdel_not_key [unfolded AList.delete_eq]
        split: option.splits)
qed simp

end
