(* ===== verification/Float64.thy ===== *)
theory Float64
  imports Complex_Main "HOL-Library.Log_Nat"
begin

text \<open>
  Go's \<^verbatim>\<open>float64\<close> values as rational numbers, with the rounding of IEEE 754 binary64 written
  out: a result is the nearest rational with a 53-bit significand, ties to even. The model
  covers the finite numbers of the normal range; the program divides counters and compares
  configured ratios, whose magnitudes stay between \<open>2 ^ - 64\<close> and \<open>2 ^ 64\<close>.
\<close>

type_synonym f64 = rat

section \<open>Powers of two with an integer exponent\<close>

definition pow2 :: "int \<Rightarrow> rat" where
  "pow2 e = (if 0 \<le> e then 2 ^ nat e else 1 / 2 ^ nat (- e))"

lemma pow2_powi: "pow2 e = 2 powi e"
  by (simp add: pow2_def power_int_def inverse_eq_divide power_one_over)

lemma pow2_pos [simp]: "0 < pow2 e"
  by (simp add: pow2_powi)

lemma pow2_add: "pow2 (a + b) = pow2 a * pow2 b"
  by (simp add: pow2_powi power_int_add)

lemma pow2_0 [simp]: "pow2 0 = 1"
  by (simp add: pow2_def)

lemma pow2_mono: "a \<le> b \<Longrightarrow> pow2 a \<le> pow2 b"
  by (simp add: pow2_powi power_int_increasing)

lemma pow2_cancel: "pow2 a * pow2 (- a) = 1"
  by (metis add.right_inverse pow2_0 pow2_add)

section \<open>Binary exponent and significand\<close>

definition exponent :: "rat \<Rightarrow> int" where
  "exponent x =
     (case quotient_of x of (p, q) \<Rightarrow>
        let d = bitlen p - bitlen q in if pow2 d \<le> x then d else d - 1)"

definition round_half_even :: "rat \<Rightarrow> int" where
  "round_half_even r =
     (let f = \<lfloor>r\<rfloor>; d = r - of_int f in
      if d < 1 / 2 then f else if 1 / 2 < d then f + 1 else if even f then f else f + 1)"

definition round_pos :: "rat \<Rightarrow> rat" where
  "round_pos x =
     (let e = exponent x in of_int (round_half_even (x * pow2 (52 - e))) * pow2 (e - 52))"

definition f64_round :: "rat \<Rightarrow> f64" where
  "f64_round x = (if x = 0 then 0 else if 0 < x then round_pos x else - round_pos (- x))"

definition f64_of_int :: "int \<Rightarrow> f64" where
  "f64_of_int n = f64_round (of_int n)"

definition f64_mul :: "f64 \<Rightarrow> f64 \<Rightarrow> f64" where
  "f64_mul a b = f64_round (a * b)"

text \<open>The conversion to an integer cuts off the fraction; the program converts values in range only.\<close>

definition f64_trunc :: "f64 \<Rightarrow> int" where
  "f64_trunc x = (if 0 \<le> x then \<lfloor>x\<rfloor> else \<lceil>x\<rceil>)"

definition f64_div :: "f64 \<Rightarrow> f64 \<Rightarrow> f64" where
  "f64_div a b = f64_round (a / b)"

definition f64_add :: "f64 \<Rightarrow> f64 \<Rightarrow> f64" where
  "f64_add a b = f64_round (a + b)"

definition f64_sub :: "f64 \<Rightarrow> f64 \<Rightarrow> f64" where
  "f64_sub a b = f64_round (a - b)"

section \<open>Bounds and monotonicity of rounding\<close>

lemma bitlen_bounds_rat:
  assumes "0 < p"
  shows "pow2 (bitlen p - 1) \<le> of_int p" and "of_int p < pow2 (bitlen p)"
proof -
  have b: "2 ^ nat (bitlen p - 1) \<le> p" "p < 2 ^ nat (bitlen p)"
    using bitlen_bounds [OF assms] by auto
  have n: "0 \<le> bitlen p - 1" "0 \<le> bitlen p"
    using assms bitlen_eq_zero_iff [of p] bitlen_nonneg [of p] by auto
  have "(of_int (2 ^ nat (bitlen p - 1)) :: rat) \<le> of_int p" using b(1) by (simp only: of_int_le_iff)
  then show "pow2 (bitlen p - 1) \<le> of_int p" using n by (simp add: pow2_def)
  have "(of_int p :: rat) < of_int (2 ^ nat (bitlen p))" using b(2) by (simp only: of_int_less_iff)
  then show "of_int p < pow2 (bitlen p)" using n by (simp add: pow2_def)
qed

lemma exponent_bounds:
  assumes "0 < x"
  shows "pow2 (exponent x) \<le> x" and "x < pow2 (exponent x + 1)"
proof -
  obtain p q where pq: "quotient_of x = (p, q)" by fastforce
  have q: "0 < q" and x: "x = of_int p / of_int q"
    using quotient_of_denom_pos [OF pq] quotient_of_div [OF pq] by auto
  with assms have p: "0 < p" by (simp add: zero_less_divide_iff)
  define d where "d = bitlen p - bitlen q"
  note bp = bitlen_bounds_rat [OF p] and bq = bitlen_bounds_rat [OF q]
  have q0: "(0 :: rat) < of_int q" using q by simp
  have "pow2 (d - 1) * of_int q \<le> pow2 (d - 1) * pow2 (bitlen q)"
    using bq(2) by (intro mult_left_mono) (auto simp: less_imp_le)
  also have "\<dots> = pow2 (bitlen p - 1)" by (simp add: d_def flip: pow2_add)
  also have "\<dots> \<le> of_int p" by (rule bp(1))
  finally have lo: "pow2 (d - 1) \<le> x" using q0 by (simp add: x field_simps)
  have "of_int p < pow2 (bitlen p)" by (rule bp(2))
  also have "\<dots> = pow2 (d + 1) * pow2 (bitlen q - 1)" by (simp add: d_def flip: pow2_add)
  also have "\<dots> \<le> pow2 (d + 1) * of_int q"
    using bq(1) by (intro mult_left_mono) (auto simp: less_imp_le)
  finally have hi: "x < pow2 (d + 1)" using q0 by (simp add: x field_simps)
  have e: "exponent x = (if pow2 d \<le> x then d else d - 1)"
    by (simp add: exponent_def pq d_def Let_def)
  show "pow2 (exponent x) \<le> x" using lo by (simp add: e)
  show "x < pow2 (exponent x + 1)" using hi by (simp add: e)
qed

lemma exponent_mono:
  assumes "0 < x" and "x \<le> y"
  shows "exponent x \<le> exponent y"
proof (rule ccontr)
  assume "\<not> exponent x \<le> exponent y"
  then have "pow2 (exponent y + 1) \<le> pow2 (exponent x)" by (intro pow2_mono) simp
  also have "\<dots> \<le> x" using assms(1) by (rule exponent_bounds(1))
  finally show False using exponent_bounds(2) [of y] assms by simp
qed

lemma round_half_even_mono: "r \<le> s \<Longrightarrow> round_half_even r \<le> round_half_even s"
proof -
  assume rs: "r \<le> s"
  then have f: "\<lfloor>r\<rfloor> \<le> \<lfloor>s\<rfloor>" by (rule floor_mono)
  have up: "round_half_even r \<le> \<lfloor>r\<rfloor> + 1" and lo: "\<lfloor>s\<rfloor> \<le> round_half_even s"
    by (simp_all add: round_half_even_def Let_def)
  show ?thesis
  proof (cases "\<lfloor>r\<rfloor> = \<lfloor>s\<rfloor>")
    case True
    with rs show ?thesis by (auto simp: round_half_even_def Let_def)
  next
    case False
    with f up lo show ?thesis by linarith
  qed
qed

lemma round_half_even_int [simp]: "round_half_even (of_int n) = n"
  by (simp add: round_half_even_def Let_def)

lemma round_half_even_between:
  "of_int a \<le> r \<Longrightarrow> r \<le> of_int b \<Longrightarrow> a \<le> round_half_even r \<and> round_half_even r \<le> b"
  using round_half_even_mono [of "of_int a" r] round_half_even_mono [of r "of_int b"] by simp

lemma round_pos_bounds:
  assumes "0 < x"
  shows "pow2 (exponent x) \<le> round_pos x" and "round_pos x \<le> pow2 (exponent x + 1)"
proof -
  define e where "e = exponent x"
  define m where "m = x * pow2 (52 - e)"
  note b = exponent_bounds [OF assms, folded e_def]
  have p: "pow2 52 = of_int (2 ^ 52)" "pow2 53 = of_int (2 ^ 53)" by (simp_all add: pow2_def)
  have "pow2 e * pow2 (52 - e) \<le> m" using b(1) by (simp add: m_def)
  then have lo: "of_int (2 ^ 52) \<le> m" using p by (simp flip: pow2_add)
  have "m \<le> pow2 (e + 1) * pow2 (52 - e)" using b(2) by (simp add: m_def)
  then have hi: "m \<le> of_int (2 ^ 53)" using p by (simp flip: pow2_add)
  have r: "2 ^ 52 \<le> round_half_even m" "round_half_even m \<le> 2 ^ 53"
    using round_half_even_between [OF lo hi] by auto
  have def: "round_pos x = of_int (round_half_even m) * pow2 (e - 52)"
    by (simp add: round_pos_def e_def m_def Let_def)
  have s: "pow2 52 * pow2 (e - 52) = pow2 e" "pow2 53 * pow2 (e - 52) = pow2 (e + 1)"
    by (simp_all add: add.commute flip: pow2_add)
  have "pow2 e = of_int (2 ^ 52) * pow2 (e - 52)" by (simp only: s p [symmetric])
  also have "\<dots> \<le> round_pos x"
    unfolding def using r(1) by (intro mult_right_mono) (auto simp del: of_int_power simp: of_int_le_iff less_imp_le)
  finally show "pow2 (exponent x) \<le> round_pos x" by (simp add: e_def)
  have "round_pos x \<le> of_int (2 ^ 53) * pow2 (e - 52)"
    unfolding def using r(2) by (intro mult_right_mono) (auto simp del: of_int_power simp: of_int_le_iff less_imp_le)
  also have "\<dots> = pow2 (e + 1)" by (simp only: s p [symmetric])
  finally show "round_pos x \<le> pow2 (exponent x + 1)" by (simp add: e_def)
qed

lemma round_pos_mono:
  assumes "0 < x" and "x \<le> y"
  shows "round_pos x \<le> round_pos y"
proof (cases "exponent x = exponent y")
  case True
  with assms(2) have "round_half_even (x * pow2 (52 - exponent x)) \<le> round_half_even (y * pow2 (52 - exponent y))"
    by (intro round_half_even_mono) simp
  with True show ?thesis
    by (simp add: round_pos_def Let_def)
next
  case False
  with exponent_mono [OF assms] have "pow2 (exponent x + 1) \<le> pow2 (exponent y)"
    by (intro pow2_mono) simp
  moreover have "round_pos x \<le> pow2 (exponent x + 1)"
    using assms(1) by (rule round_pos_bounds)
  moreover have "pow2 (exponent y) \<le> round_pos y"
    using assms by (intro round_pos_bounds) simp
  ultimately show ?thesis by linarith
qed

lemma round_pos_gt0: "0 < x \<Longrightarrow> 0 < round_pos x"
  using round_pos_bounds(1) [of x] pow2_pos [of "exponent x"] by linarith

lemma f64_round_mono: "x \<le> y \<Longrightarrow> f64_round x \<le> f64_round y"
  using round_pos_mono [of x y] round_pos_mono [of "- y" "- x"]
    round_pos_gt0 [of y] round_pos_gt0 [of "- x"]
  by (auto simp: f64_round_def not_less)

lemma f64_round_0 [simp]: "f64_round 0 = 0"
  by (simp add: f64_round_def)

lemma f64_round_1 [simp]: "f64_round 1 = 1"
  by code_simp

lemma f64_of_int_0 [simp]: "f64_of_int 0 = 0"
  by (simp add: f64_of_int_def)

lemma f64_of_int_1 [simp]: "f64_of_int 1 = 1"
  by (simp add: f64_of_int_def)

lemma f64_of_int_mono: "a \<le> b \<Longrightarrow> f64_of_int a \<le> f64_of_int b"
  by (simp add: f64_of_int_def f64_round_mono)

lemma f64_of_int_nonneg: "0 \<le> n \<Longrightarrow> 0 \<le> f64_of_int n"
  using f64_of_int_mono [of 0 n] by simp

lemma f64_of_int_pos: "0 < n \<Longrightarrow> 0 < f64_of_int n"
  using f64_of_int_mono [of 1 n] by simp

text \<open>Rounding a rounded value changes nothing: results are values of the type.\<close>

lemma exponent_unique: "pow2 e \<le> x \<Longrightarrow> x < pow2 (e + 1) \<Longrightarrow> exponent x = e"
proof -
  assume a: "pow2 e \<le> x" "x < pow2 (e + 1)"
  then have x: "0 < x" using pow2_pos [of e] by linarith
  note b = exponent_bounds [OF x]
  have "\<not> exponent x + 1 \<le> e" using pow2_mono [of "exponent x + 1" e] a b by linarith
  moreover have "\<not> e + 1 \<le> exponent x" using pow2_mono [of "e + 1" "exponent x"] a b by linarith
  ultimately show ?thesis by linarith
qed

lemma round_pos_exact:
  assumes "2 ^ 52 \<le> k" and "k < 2 ^ 53"
  shows "round_pos (of_int k * pow2 (e - 52)) = of_int k * pow2 (e - 52)"
proof -
  have p: "pow2 52 = of_int (2 ^ 52)" "pow2 53 = of_int (2 ^ 53)" by (simp_all add: pow2_def)
  have s: "pow2 e = pow2 52 * pow2 (e - 52)" "pow2 (e + 1) = pow2 53 * pow2 (e - 52)" "pow2 (e - 52) * pow2 (52 - e) = 1"
    by (simp_all add: add.commute flip: pow2_add)
  have "pow2 e \<le> of_int k * pow2 (e - 52)"
    unfolding s p using assms(1) by (intro mult_right_mono) (auto simp del: of_int_power simp: of_int_le_iff less_imp_le)
  moreover have "of_int k * pow2 (e - 52) < pow2 (e + 1)"
    unfolding s p using assms(2) by (intro mult_strict_right_mono) (auto simp del: of_int_power simp: of_int_less_iff)
  ultimately have "exponent (of_int k * pow2 (e - 52)) = e" by (rule exponent_unique)
  then show ?thesis by (simp add: round_pos_def Let_def mult.assoc s(3))
qed

lemma round_pos_form:
  assumes "0 < x"
  obtains k e where "2 ^ 52 \<le> k" "k < 2 ^ 53" "round_pos x = of_int k * pow2 (e - 52)"
proof -
  define e where "e = exponent x"
  define k where "k = round_half_even (x * pow2 (52 - e))"
  have def: "round_pos x = of_int k * pow2 (e - 52)" by (simp add: round_pos_def e_def k_def Let_def)
  have p: "pow2 52 = of_int (2 ^ 52)" "pow2 53 = of_int (2 ^ 53)" by (simp_all add: pow2_def)
  have s: "pow2 e = pow2 52 * pow2 (e - 52)" "pow2 (e + 1) = pow2 53 * pow2 (e - 52)"
    by (simp_all add: add.commute flip: pow2_add)
  note b = round_pos_bounds [OF assms, folded e_def, unfolded def s p]
  have k: "2 ^ 52 \<le> k" "k \<le> 2 ^ 53"
    using b by (auto simp del: of_int_power simp: of_int_le_iff mult_le_cancel_right)
  show thesis
  proof (cases "k = 2 ^ 53")
    case True
    have "pow2 (1 + (e - 52)) = 2 * pow2 (e - 52)" by (simp only: pow2_add) (simp add: pow2_def)
    then have "round_pos x = of_int (2 ^ 52) * pow2 ((e + 1) - 52)"
      using def True by (simp add: add.commute diff_add_eq)
    then show thesis using that [of "2 ^ 52" "e + 1"] by simp
  next
    case False
    with k that [of k e] def show thesis by simp
  qed
qed

lemma round_pos_idem: "0 < x \<Longrightarrow> round_pos (round_pos x) = round_pos x"
  by (metis round_pos_form round_pos_exact)

lemma f64_round_idem [simp]: "f64_round (f64_round x) = f64_round x"
  using round_pos_gt0 [of x] round_pos_gt0 [of "- x"] round_pos_idem [of x] round_pos_idem [of "- x"]
  by (auto simp: f64_round_def not_less)

lemma f64_round_op [simp]:
  "f64_round (f64_add a b) = f64_add a b" "f64_round (f64_sub a b) = f64_sub a b"
  "f64_round (f64_mul a b) = f64_mul a b" "f64_round (f64_div a b) = f64_div a b"
  by (simp_all add: f64_add_def f64_sub_def f64_mul_def f64_div_def)

lemma f64_add_ge: "f64_round a = a \<Longrightarrow> 0 \<le> b \<Longrightarrow> a \<le> f64_add a b"
  using f64_round_mono [of a "a + b"] by (simp add: f64_add_def)

lemma f64_sub_le: "f64_round a = a \<Longrightarrow> 0 \<le> b \<Longrightarrow> f64_sub a b \<le> a"
  using f64_round_mono [of "a - b" a] by (simp add: f64_sub_def)

lemma f64_round_nonneg: "0 \<le> x \<Longrightarrow> 0 \<le> f64_round x"
  using f64_round_mono [of 0 x] by simp

lemma f64_add_mono: "a \<le> b \<Longrightarrow> c \<le> d \<Longrightarrow> f64_add a c \<le> f64_add b d"
  by (simp add: f64_add_def f64_round_mono add_mono)

lemma f64_sub_mono: "a \<le> b \<Longrightarrow> d \<le> c \<Longrightarrow> f64_sub a c \<le> f64_sub b d"
  by (simp add: f64_sub_def f64_round_mono diff_mono)

lemma f64_mul_mono: "0 \<le> a \<Longrightarrow> a \<le> b \<Longrightarrow> 0 \<le> c \<Longrightarrow> c \<le> d \<Longrightarrow> f64_mul a c \<le> f64_mul b d"
  by (simp add: f64_mul_def f64_round_mono mult_mono')

lemma f64_div_mono: "a \<le> b \<Longrightarrow> 0 < c \<Longrightarrow> f64_div a c \<le> f64_div b c"
  by (simp add: f64_div_def f64_round_mono divide_right_mono)

text \<open>A ratio of two counters, the first at most the second, stays in the unit interval.\<close>

lemma f64_ratio_unit:
  assumes "0 \<le> a" and "a \<le> b" and "0 < b"
  shows "0 \<le> f64_div (f64_of_int a) (f64_of_int b)" and "f64_div (f64_of_int a) (f64_of_int b) \<le> 1"
proof -
  have b: "0 < f64_of_int b" using assms(3) by (rule f64_of_int_pos)
  have a: "0 \<le> f64_of_int a" using assms(1) by (rule f64_of_int_nonneg)
  have "f64_round 0 \<le> f64_div (f64_of_int a) (f64_of_int b)"
    unfolding f64_div_def using a b by (intro f64_round_mono) simp
  then show "0 \<le> f64_div (f64_of_int a) (f64_of_int b)" by simp
  have "f64_div (f64_of_int a) (f64_of_int b) \<le> f64_round 1"
    unfolding f64_div_def using f64_of_int_mono [OF assms(2)] b by (intro f64_round_mono) simp
  then show "f64_div (f64_of_int a) (f64_of_int b) \<le> 1" by simp
qed

end
