(* ===== verification/Gateway_Core.thy ===== *)
theory Gateway_Core
  imports Prelude Float64
begin

text \<open>
  The vocabulary of \<^verbatim>\<open>pkg/modelgateway/core\<close> that the scheduler components exchange: runtime
  keys, dispatch plans, attempt results and circuit snapshots, with the operations that derive
  and normalise the runtime key an attempt is accounted under
  (\<^verbatim>\<open>core/types.go\<close>, \<^verbatim>\<open>scheduler/runtime_key.go\<close>). The records of plans, requests and
  attempt results carry the fields the modelled operations read; the remaining fields of the
  Go structs are observability data that none of them touches.
\<close>

definition EndpointTypeOpenAI :: string where
  "EndpointTypeOpenAI = ''openai''"

section \<open>Runtime keys\<close>

record runtime_key =
  rk_RequestedModel :: string
  rk_UpstreamModel :: string
  rk_ChannelID :: int
  rk_ResourceID :: string
  rk_ResourceType :: string
  rk_AccountID :: string
  rk_AccountType :: string
  rk_Brand :: string
  rk_Provider :: string
  rk_CredentialIndex :: int
  rk_CredentialSubjectFP :: string
  rk_CredentialFP :: string
  rk_Group :: string
  rk_EndpointType :: string
  rk_CapabilityFingerprint :: string

definition zero_runtime_key :: runtime_key where
  "zero_runtime_key =
     \<lparr>rk_RequestedModel = [], rk_UpstreamModel = [], rk_ChannelID = 0, rk_ResourceID = [],
      rk_ResourceType = [], rk_AccountID = [], rk_AccountType = [], rk_Brand = [],
      rk_Provider = [], rk_CredentialIndex = 0, rk_CredentialSubjectFP = [], rk_CredentialFP = [],
      rk_Group = [], rk_EndpointType = [], rk_CapabilityFingerprint = []\<rparr>"

definition normalizeRuntimeKey :: "runtime_key \<Rightarrow> runtime_key" where
  "normalizeRuntimeKey key =
     (let endpointType = TrimSpace (rk_EndpointType key) in
      \<lparr>rk_RequestedModel = TrimSpace (rk_RequestedModel key),
       rk_UpstreamModel = TrimSpace (rk_UpstreamModel key),
       rk_ChannelID = rk_ChannelID key,
       rk_ResourceID = TrimSpace (rk_ResourceID key),
       rk_ResourceType = TrimSpace (rk_ResourceType key),
       rk_AccountID = TrimSpace (rk_AccountID key),
       rk_AccountType = TrimSpace (rk_AccountType key),
       rk_Brand = TrimSpace (rk_Brand key),
       rk_Provider = TrimSpace (rk_Provider key),
       rk_CredentialIndex = rk_CredentialIndex key,
       rk_CredentialSubjectFP = TrimSpace (rk_CredentialSubjectFP key),
       rk_CredentialFP = TrimSpace (rk_CredentialFP key),
       rk_Group = TrimSpace (rk_Group key),
       rk_EndpointType = (if endpointType = [] then EndpointTypeOpenAI else endpointType),
       rk_CapabilityFingerprint = TrimSpace (rk_CapabilityFingerprint key)\<rparr>)"

definition orElse :: "'a list \<Rightarrow> 'a list \<Rightarrow> 'a list" where
  "orElse a b = (if a = [] then b else a)"

definition mergeRuntimeKeyFallback :: "runtime_key \<Rightarrow> runtime_key \<Rightarrow> runtime_key" where
  "mergeRuntimeKeyFallback key fallback =
     \<lparr>rk_RequestedModel = orElse (rk_RequestedModel key) (rk_RequestedModel fallback),
      rk_UpstreamModel = orElse (rk_UpstreamModel key) (rk_UpstreamModel fallback),
      rk_ChannelID = (if rk_ChannelID key = 0 then rk_ChannelID fallback else rk_ChannelID key),
      rk_ResourceID = orElse (rk_ResourceID key) (rk_ResourceID fallback),
      rk_ResourceType = orElse (rk_ResourceType key) (rk_ResourceType fallback),
      rk_AccountID = orElse (rk_AccountID key) (rk_AccountID fallback),
      rk_AccountType = orElse (rk_AccountType key) (rk_AccountType fallback),
      rk_Brand = orElse (rk_Brand key) (rk_Brand fallback),
      rk_Provider = orElse (rk_Provider key) (rk_Provider fallback),
      rk_CredentialIndex =
        (if rk_CredentialIndex key = 0 then rk_CredentialIndex fallback else rk_CredentialIndex key),
      rk_CredentialSubjectFP = orElse (rk_CredentialSubjectFP key) (rk_CredentialSubjectFP fallback),
      rk_CredentialFP = orElse (rk_CredentialFP key) (rk_CredentialFP fallback),
      rk_Group = orElse (rk_Group key) (rk_Group fallback),
      rk_EndpointType = orElse (rk_EndpointType key) (rk_EndpointType fallback),
      rk_CapabilityFingerprint =
        orElse (rk_CapabilityFingerprint key) (rk_CapabilityFingerprint fallback)\<rparr>"

section \<open>Plans, requests and attempt results\<close>

record retry_routing_intent =
  rri_Reason :: string
  rri_Strategy :: string
  rri_PreferLowTTFT :: bool
  rri_PreferHighSuccess :: bool
  rri_QueuePriorityBoost :: bool
  rri_QueuePriority :: int
  rri_FailedChannelID :: int

definition Active :: "retry_routing_intent option \<Rightarrow> bool" where
  "Active i = (case i of None \<Rightarrow> False | Some r \<Rightarrow> rri_Reason r \<noteq> [] \<or> rri_Strategy r \<noteq> [])"

record dispatch_request =
  dr_RequestedGroup :: string
  dr_UserGroup :: string
  dr_ModelName :: string
  dr_EndpointType :: string
  dr_Retry :: int
  dr_CurrentAutoGroup :: string
  dr_RetryRoutingIntent :: "retry_routing_intent option"

record dispatch_plan =
  dp_Channel :: "int option"
  dp_SelectedGroup :: string
  dp_RuntimeKey :: runtime_key
  dp_QueueWaitMs :: int
  dp_QueueEnabled :: bool
  dp_StickySource :: string
  dp_CacheAffinity :: bool
  dp_RetryRoutingIntent :: "retry_routing_intent option"
  dp_RetryIntentApplied :: bool

record attempt_result =
  ar_Key :: runtime_key
  ar_Plan :: "dispatch_plan option"
  ar_AttemptIndex :: int
  ar_ChannelID :: int
  ar_RequestedGroup :: string
  ar_SelectedGroup :: string
  ar_ModelName :: string
  ar_EndpointType :: string
  ar_Success :: bool
  ar_StatusCode :: int
  ar_ErrorCode :: string
  ar_ErrorType :: string
  ar_ErrorMessage :: string
  ar_ErrorCategory :: string
  ar_StreamInterrupted :: bool
  ar_ClientAborted :: bool
  ar_ConcurrencyLimited :: bool
  ar_BalanceInsufficient :: bool
  ar_UsedChannels :: "string list"

text \<open>\<^verbatim>\<open>AttemptResult.RuntimeKey\<close>: the key an attempt is accounted under.\<close>

definition RuntimeKey :: "attempt_result \<Rightarrow> runtime_key" where
  "RuntimeKey r =
     (let key = (case ar_Plan r of None \<Rightarrow> ar_Key r
                 | Some p \<Rightarrow> mergeRuntimeKeyFallback (ar_Key r) (dp_RuntimeKey p));
          key = (if rk_ChannelID key = 0 then key\<lparr>rk_ChannelID := ar_ChannelID r\<rparr> else key);
          key = (if rk_RequestedModel key = [] then key\<lparr>rk_RequestedModel := ar_ModelName r\<rparr> else key);
          key = (if rk_Group key = [] then key\<lparr>rk_Group := ar_SelectedGroup r\<rparr> else key);
          key = (if rk_Group key = [] then key\<lparr>rk_Group := ar_RequestedGroup r\<rparr> else key);
          key = (if rk_EndpointType key = [] then key\<lparr>rk_EndpointType := ar_EndpointType r\<rparr> else key)
      in if rk_EndpointType key = [] then key\<lparr>rk_EndpointType := EndpointTypeOpenAI\<rparr> else key)"

section \<open>Circuit states\<close>

datatype circuit_mode = CircuitStateClosed | CircuitStateOpen | CircuitStateHalfOpen

record circuit_snapshot =
  cs_Key :: runtime_key
  cs_State :: circuit_mode
  cs_FailureCount :: int
  cs_SuccessCount :: int
  cs_SampleCount :: int
  cs_FailureRate :: f64
  cs_OpenReason :: string
  cs_ErrorCounts :: "(string, int) gomap"
  cs_OpenUntil :: time
  cs_HalfOpenProbeUsed :: int
  cs_HalfOpenProbeMax :: int

definition normalizeCircuitSnapshot :: "circuit_snapshot \<Rightarrow> circuit_snapshot" where
  "normalizeCircuitSnapshot s = s\<lparr>cs_Key := normalizeRuntimeKey (cs_Key s)\<rparr>"

section \<open>Properties of key normalisation\<close>

lemma EndpointTypeOpenAI_trim [simp]: "TrimSpace EndpointTypeOpenAI = EndpointTypeOpenAI"
  by code_simp

lemma EndpointTypeOpenAI_nonempty [simp]: "EndpointTypeOpenAI \<noteq> []"
  by (simp add: EndpointTypeOpenAI_def)

lemma normalizeRuntimeKey_idem [simp]:
  "normalizeRuntimeKey (normalizeRuntimeKey key) = normalizeRuntimeKey key"
  by (simp add: normalizeRuntimeKey_def Let_def)

lemma normalizeRuntimeKey_ChannelID [simp]:
  "rk_ChannelID (normalizeRuntimeKey key) = rk_ChannelID key"
  by (simp add: normalizeRuntimeKey_def Let_def)

lemma normalizeRuntimeKey_EndpointType: "rk_EndpointType (normalizeRuntimeKey key) \<noteq> []"
  by (simp add: normalizeRuntimeKey_def Let_def)

lemma RuntimeKey_EndpointType: "rk_EndpointType (RuntimeKey r) \<noteq> []"
  by (simp add: RuntimeKey_def Let_def)

lemma RuntimeKey_ChannelID:
  "ar_ChannelID r \<noteq> 0 \<Longrightarrow> rk_ChannelID (RuntimeKey r) \<noteq> 0"
  by (simp add: RuntimeKey_def Let_def)

lemma normalizeCircuitSnapshot_simps [simp]:
  "cs_Key (normalizeCircuitSnapshot s) = normalizeRuntimeKey (cs_Key s)"
  "cs_State (normalizeCircuitSnapshot s) = cs_State s"
  "cs_FailureCount (normalizeCircuitSnapshot s) = cs_FailureCount s"
  "cs_SuccessCount (normalizeCircuitSnapshot s) = cs_SuccessCount s"
  "cs_SampleCount (normalizeCircuitSnapshot s) = cs_SampleCount s"
  "cs_OpenReason (normalizeCircuitSnapshot s) = cs_OpenReason s"
  "cs_ErrorCounts (normalizeCircuitSnapshot s) = cs_ErrorCounts s"
  "cs_OpenUntil (normalizeCircuitSnapshot s) = cs_OpenUntil s"
  "cs_HalfOpenProbeUsed (normalizeCircuitSnapshot s) = cs_HalfOpenProbeUsed s"
  "cs_HalfOpenProbeMax (normalizeCircuitSnapshot s) = cs_HalfOpenProbeMax s"
  by (simp_all add: normalizeCircuitSnapshot_def)

end
