(* ===== verification/Circuit_Errors.thy ===== *)
theory Circuit_Errors
  imports Gateway_Core
begin

text \<open>
  How the circuit breaker labels a failed attempt (\<^verbatim>\<open>scheduler/circuit_breaker.go\<close>, with
  \<^verbatim>\<open>IsClientContextLimitMessage\<close> of \<^verbatim>\<open>service/error.go\<close>): the predicates on attempt results,
  the label itself and the default set of counted failures.
\<close>

section \<open>Labels and categories\<close>

definition CircuitErrorStreamInterrupted :: string where
  "CircuitErrorStreamInterrupted = ''stream_interrupted''"
definition CircuitErrorRateLimit :: string where
  "CircuitErrorRateLimit = ''rate_limit''"
definition CircuitErrorAuth :: string where
  "CircuitErrorAuth = ''auth''"
definition CircuitErrorQuota :: string where
  "CircuitErrorQuota = ''quota''"
definition CircuitErrorServer :: string where
  "CircuitErrorServer = ''server_error''"
definition CircuitErrorUpstream :: string where
  "CircuitErrorUpstream = ''upstream_error''"
definition CircuitErrorConcurrencyLimit :: string where
  "CircuitErrorConcurrencyLimit = ''concurrency_limit''"

lemmas circuit_error_defs =
  CircuitErrorStreamInterrupted_def CircuitErrorRateLimit_def CircuitErrorAuth_def
  CircuitErrorQuota_def CircuitErrorServer_def CircuitErrorUpstream_def
  CircuitErrorConcurrencyLimit_def

definition ErrorCategoryOverloadSkip :: string where
  "ErrorCategoryOverloadSkip = ''overload_skip''"
definition ErrorCategoryUserQuotaExhausted :: string where
  "ErrorCategoryUserQuotaExhausted = ''user_quota_exhausted''"
definition ErrorCategoryClientRequestError :: string where
  "ErrorCategoryClientRequestError = ''client_request_error''"
definition ErrorCategorySchedulerExhausted :: string where
  "ErrorCategorySchedulerExhausted = ''scheduler_exhausted''"
definition ErrorCodeChannelConcurrencyLimit :: string where
  "ErrorCodeChannelConcurrencyLimit = ''channel:concurrency_limit''"

definition StatusUnauthorized :: int where "StatusUnauthorized = 401"
definition StatusForbidden :: int where "StatusForbidden = 403"
definition StatusTooManyRequests :: int where "StatusTooManyRequests = 429"
definition StatusInternalServerError :: int where "StatusInternalServerError = 500"

section \<open>Message predicates\<close>

definition context_limit_keywords :: "string list" where
  "context_limit_keywords =
    [''context_too_large'', ''context_length_exceeded'', ''context_length_error'',
     ''context length exceeded'', ''maximum context length'', ''max context length'',
     ''exceeds context length'', ''exceeded context length'', ''exceeds the context window'',
     ''exceeded the context window'', ''context window exceeded'', ''prompt is too long'',
     ''prompt too long'', ''input is too long'', ''input too long'']"

text \<open>The Chinese words of the message predicates, in UTF-8.\<close>

definition zh_context :: string where
  "zh_context = [CHR 0xE4, CHR 0xB8, CHR 0x8A, CHR 0xE4, CHR 0xB8, CHR 0x8B, CHR 0xE6, CHR 0x96, CHR 0x87]"
definition zh_context_excess :: "string list" where
  "zh_context_excess =
    [[CHR 0xE8, CHR 0xB6, CHR 0x85, CHR 0xE8, CHR 0xBF, CHR 0x87],
     [CHR 0xE8, CHR 0xB6, CHR 0x85, CHR 0xE5, CHR 0x87, CHR 0xBA],
     [CHR 0xE8, CHR 0xB6, CHR 0x85, CHR 0xE9, CHR 0x99, CHR 0x90],
     [CHR 0xE8, CHR 0xBF, CHR 0x87, CHR 0xE9, CHR 0x95, CHR 0xBF],
     [CHR 0xE5, CHR 0xA4, CHR 0xAA, CHR 0xE9, CHR 0x95, CHR 0xBF]]"
definition zh_balance_insufficient :: string where
  "zh_balance_insufficient = [CHR 0xE4, CHR 0xBD, CHR 0x99, CHR 0xE9, CHR 0xA2, CHR 0x9D, CHR 0xE4, CHR 0xB8, CHR 0x8D, CHR 0xE8, CHR 0xB6, CHR 0xB3]"

definition IsClientContextLimitMessage :: "string \<Rightarrow> bool" where
  "IsClientContextLimitMessage message =
     (let label = ToLower (TrimSpace message) in
      if label = [] then False
      else if list_ex (Contains label) context_limit_keywords then True
      else if Contains label ''context''
              \<and> (Contains label ''length'' \<or> Contains label ''window'')
              \<and> (Contains label ''exceed'' \<or> Contains label ''too large''
                 \<or> Contains label ''too long'' \<or> Contains label ''over limit''
                 \<or> Contains label ''limit exceeded'') then True
      else Contains label zh_context \<and> list_ex (Contains label) zh_context_excess)"

definition containsAnyCircuitLabel :: "string \<Rightarrow> string list \<Rightarrow> bool" where
  "containsAnyCircuitLabel label needles = list_ex (Contains label) needles"

definition error_label :: "attempt_result \<Rightarrow> string" where
  "error_label result =
     ToLower (TrimSpace (ar_ErrorCode result @ '' '' @ ar_ErrorType result @ '' '' @ ar_ErrorMessage result))"

definition concurrency_needles :: "string list" where
  "concurrency_needles = [''concurrency limit exceeded for user'', ''too many pending requests'']"

definition isCircuitClientRequestResult :: "attempt_result \<Rightarrow> bool" where
  "isCircuitClientRequestResult result =
     (if TrimSpace (ar_ErrorCategory result) = ErrorCategoryClientRequestError then True
      else IsClientContextLimitMessage
             (Join [ar_ErrorCode result, ar_ErrorType result, ar_ErrorMessage result] '' ''))"

definition isCircuitOverloadSkipResult :: "attempt_result \<Rightarrow> bool" where
  "isCircuitOverloadSkipResult result =
     (if TrimSpace (ar_ErrorCategory result) = ErrorCategoryOverloadSkip then True
      else if ar_StatusCode result \<noteq> StatusTooManyRequests then False
      else if ar_ErrorCode result = ErrorCodeChannelConcurrencyLimit then False
      else True)"

definition isCircuitSchedulerExhaustedResult :: "attempt_result \<Rightarrow> bool" where
  "isCircuitSchedulerExhaustedResult result =
     (TrimSpace (ar_ErrorCategory result) = ErrorCategorySchedulerExhausted)"

definition isCircuitConcurrencyLimitResult :: "attempt_result \<Rightarrow> bool" where
  "isCircuitConcurrencyLimitResult result =
     (if ar_StatusCode result \<noteq> StatusTooManyRequests then False
      else if ar_ErrorCode result = ErrorCodeChannelConcurrencyLimit then True
      else containsAnyCircuitLabel (error_label result) concurrency_needles)"

definition balance_needles :: "string list" where
  "balance_needles =
    [''balance_insufficient'', ''insufficient_user_quota'', ''insufficient account balance'',
     ''insufficient balance'', ''insufficient credit'', ''insufficient credits'',
     ''balance_not_enough'', ''quota_not_enough'', ''quota not enough'', zh_balance_insufficient]"

definition isCircuitBalanceInsufficientResult :: "attempt_result \<Rightarrow> bool" where
  "isCircuitBalanceInsufficientResult result =
     (if TrimSpace (ar_ErrorCategory result) = ErrorCategoryUserQuotaExhausted then False
      else if TrimSpace (ar_ErrorCategory result) = ''balance_or_quota'' then True
      else containsAnyCircuitLabel (error_label result) balance_needles)"

section \<open>The label of a failure\<close>

definition ClassifyCircuitError :: "attempt_result \<Rightarrow> string" where
  "ClassifyCircuitError result =
     (if ar_ClientAborted result \<or> isCircuitClientRequestResult result
         \<or> TrimSpace (ar_ErrorCategory result) = ErrorCategoryUserQuotaExhausted
         \<or> ar_BalanceInsufficient result \<or> isCircuitBalanceInsufficientResult result
         \<or> isCircuitSchedulerExhaustedResult result then []
      else if ar_StreamInterrupted result then CircuitErrorStreamInterrupted
      else if isCircuitOverloadSkipResult result then CircuitErrorRateLimit
      else if ar_ConcurrencyLimited result \<or> isCircuitConcurrencyLimitResult result
        then CircuitErrorConcurrencyLimit
      else let label = error_label result in
        if containsAnyCircuitLabel label concurrency_needles then CircuitErrorConcurrencyLimit
        else if containsAnyCircuitLabel label
                  [''rate_limit'', ''rate-limited'', ''rate_limited'', ''too_many_requests'', ''throttle'']
          then CircuitErrorRateLimit
        else if containsAnyCircuitLabel label
                  [''insufficient_user_quota'', ''pre_consume_token_quota_failed'', ''quota'',
                   ''balance_not_enough'', ''quota_not_enough'']
          then CircuitErrorQuota
        else if ar_StatusCode result = StatusUnauthorized \<or> ar_StatusCode result = StatusForbidden
          then CircuitErrorAuth
        else if containsAnyCircuitLabel label
                  [''invalid_key'', ''invalid api key'', ''unauthorized'', ''forbidden'',
                   ''access_denied'', ''permission_denied'']
          then CircuitErrorAuth
        else if ar_StatusCode result \<ge> StatusInternalServerError then CircuitErrorServer
        else if ar_StatusCode result \<le> 0 \<and> (ar_ErrorCode result \<noteq> [] \<or> ar_ErrorType result \<noteq> [])
          then CircuitErrorUpstream
        else [])"

definition isDefaultCircuitFailure :: "attempt_result \<Rightarrow> bool" where
  "isDefaultCircuitFailure result =
     (if ar_ClientAborted result \<or> isCircuitClientRequestResult result
         \<or> TrimSpace (ar_ErrorCategory result) = ErrorCategoryUserQuotaExhausted
         \<or> ar_BalanceInsufficient result \<or> isCircuitBalanceInsufficientResult result
         \<or> isCircuitSchedulerExhaustedResult result then False
      else if ar_StreamInterrupted result then True
      else if isCircuitOverloadSkipResult result then True
      else if ar_ConcurrencyLimited result \<or> isCircuitConcurrencyLimitResult result then False
      else if ar_StatusCode result \<ge> StatusInternalServerError then True
      else if ar_StatusCode result \<le> 0 \<and> (ar_ErrorCode result \<noteq> [] \<or> ar_ErrorType result \<noteq> []) then True
      else False)"

definition normalizeCircuitErrorKind :: "string \<Rightarrow> string" where
  "normalizeCircuitErrorKind k =
     (let kind = ToLower (TrimSpace k) in
      if kind \<in> set [CircuitErrorStreamInterrupted, CircuitErrorRateLimit, CircuitErrorAuth,
                      CircuitErrorQuota, CircuitErrorServer, CircuitErrorUpstream,
                      CircuitErrorConcurrencyLimit]
      then kind else [])"

section \<open>Every label is a known kind\<close>

definition circuit_kinds :: "string set" where
  "circuit_kinds =
    {CircuitErrorStreamInterrupted, CircuitErrorRateLimit, CircuitErrorAuth, CircuitErrorQuota,
     CircuitErrorServer, CircuitErrorUpstream, CircuitErrorConcurrencyLimit}"

lemma circuit_kinds_nonempty: "k \<in> circuit_kinds \<Longrightarrow> k \<noteq> []"
  by (auto simp: circuit_kinds_def circuit_error_defs)

lemma ClassifyCircuitError_kinds: "ClassifyCircuitError r \<noteq> [] \<Longrightarrow> ClassifyCircuitError r \<in> circuit_kinds"
  by (auto simp add: ClassifyCircuitError_def circuit_kinds_def Let_def split: if_split_asm)

lemma normalizeCircuitErrorKind_kinds:
  "normalizeCircuitErrorKind k \<noteq> [] \<Longrightarrow> normalizeCircuitErrorKind k \<in> circuit_kinds"
  by (auto simp: normalizeCircuitErrorKind_def circuit_kinds_def Let_def split: if_splits)

text \<open>A failure that counts by default always carries a label that can be counted.\<close>

lemma default_failure_labelled:
  assumes "isDefaultCircuitFailure r"
  shows "ClassifyCircuitError r \<noteq> []"
proof -
  have "isDefaultCircuitFailure r \<longrightarrow> ClassifyCircuitError r \<noteq> []"
    by (simp add: isDefaultCircuitFailure_def ClassifyCircuitError_def Let_def circuit_error_defs)
  with assms show ?thesis by blast
qed

end
