(* ===== verification/Circuit_Breaker.thy ===== *)
theory Circuit_Breaker
  imports Circuit_Errors
begin

text \<open>
  The per-key circuit breaker of the scheduler (\<^verbatim>\<open>scheduler/circuit_breaker.go\<close>). A breaker
  keeps one state per normalised runtime key; every method runs under the breaker's mutex and
  is one function from the breaker to the breaker and its result. The clock \<^verbatim>\<open>b.now\<close> is an
  argument: \<^verbatim>\<open>Report\<close> reads it twice (to advance the state and to compute \<^verbatim>\<open>openUntil\<close>), so it
  takes two instants. A nil receiver, for which every method is a constant, is no state of the
  model.
\<close>

section \<open>Data\<close>

record circuit_error_policy =
  ep_FailureThreshold :: f64
  ep_MinSamples :: int
  ep_OpenDuration :: int
  ep_HalfOpenProbeCount :: int

record circuit_breaker_options =
  co_FailureThreshold :: f64
  co_MinSamples :: int
  co_OpenDuration :: int
  co_HalfOpenProbeCount :: int
  co_ErrorPolicies :: "(string, circuit_error_policy) gomap"

record circuit_state =
  st_state :: circuit_mode
  st_failureCount :: int
  st_successCount :: int
  st_sampleCount :: int
  st_openReason :: string
  st_errorCounts :: "(string, int) gomap"
  st_openUntil :: time
  st_halfOpenProbeMax :: int
  st_halfOpenProbeIn :: int

record circuit_breaker =
  cb_options :: circuit_breaker_options
  cb_states :: "(runtime_key, circuit_state) gomap"

definition defaultCircuitFailureThreshold :: f64 where "defaultCircuitFailureThreshold = 1 / 2"
definition defaultCircuitMinSamples :: int where "defaultCircuitMinSamples = 10"
definition defaultCircuitOpenDuration :: int where "defaultCircuitOpenDuration = 30 * Second"
definition defaultCircuitProbeCount :: int where "defaultCircuitProbeCount = 3"

section \<open>Construction\<close>

definition normalize_policy ::
  "circuit_breaker_options \<Rightarrow> circuit_error_policy \<Rightarrow> circuit_error_policy" where
  "normalize_policy defaults p =
     \<lparr>ep_FailureThreshold =
        (if ep_FailureThreshold p \<le> 0 \<or> 1 < ep_FailureThreshold p then co_FailureThreshold defaults
         else ep_FailureThreshold p),
      ep_MinSamples = (if ep_MinSamples p \<le> 0 then co_MinSamples defaults else ep_MinSamples p),
      ep_OpenDuration = (if ep_OpenDuration p \<le> 0 then co_OpenDuration defaults else ep_OpenDuration p),
      ep_HalfOpenProbeCount =
        (if ep_HalfOpenProbeCount p \<le> 0 then co_HalfOpenProbeCount defaults else ep_HalfOpenProbeCount p)\<rparr>"

fun normalizeCircuitErrorPolicies ::
  "(string, circuit_error_policy) gomap \<Rightarrow> circuit_breaker_options \<Rightarrow> (string, circuit_error_policy) gomap" where
  "normalizeCircuitErrorPolicies [] defaults = []"
| "normalizeCircuitErrorPolicies ((kind, policy) # src) defaults =
     (let out = normalizeCircuitErrorPolicies src defaults;
          kind = normalizeCircuitErrorKind kind
      in if kind = [] then out else gput kind (normalize_policy defaults policy) out)"

definition newCircuitBreaker :: "circuit_breaker_options \<Rightarrow> circuit_breaker" where
  "newCircuitBreaker options =
     (let options = (if co_FailureThreshold options \<le> 0 \<or> 1 < co_FailureThreshold options
                     then options\<lparr>co_FailureThreshold := defaultCircuitFailureThreshold\<rparr> else options);
          options = (if co_MinSamples options \<le> 0
                     then options\<lparr>co_MinSamples := defaultCircuitMinSamples\<rparr> else options);
          options = (if co_OpenDuration options \<le> 0
                     then options\<lparr>co_OpenDuration := defaultCircuitOpenDuration\<rparr> else options);
          options = (if co_HalfOpenProbeCount options \<le> 0
                     then options\<lparr>co_HalfOpenProbeCount := defaultCircuitProbeCount\<rparr> else options);
          options = options\<lparr>co_ErrorPolicies :=
                      normalizeCircuitErrorPolicies (co_ErrorPolicies options) options\<rparr>
      in \<lparr>cb_options = options, cb_states = []\<rparr>)"

section \<open>Operations on one state\<close>

definition fresh_state :: "circuit_breaker_options \<Rightarrow> circuit_state" where
  "fresh_state opts =
     \<lparr>st_state = CircuitStateClosed, st_failureCount = 0, st_successCount = 0, st_sampleCount = 0,
      st_openReason = [], st_errorCounts = [], st_openUntil = zero_time,
      st_halfOpenProbeMax = co_HalfOpenProbeCount opts, st_halfOpenProbeIn = 0\<rparr>"

definition resetCircuitState :: "circuit_state \<Rightarrow> circuit_state" where
  "resetCircuitState s =
     s\<lparr>st_state := CircuitStateClosed, st_failureCount := 0, st_successCount := 0,
       st_sampleCount := 0, st_openReason := [], st_errorCounts := [], st_openUntil := zero_time,
       st_halfOpenProbeIn := 0, st_halfOpenProbeMax := 0\<rparr>"

definition circuitStateNeedsReset :: "circuit_state \<Rightarrow> bool" where
  "circuitStateNeedsReset s \<longleftrightarrow>
     st_state s \<noteq> CircuitStateClosed \<or> st_failureCount s > 0 \<or> st_successCount s > 0
     \<or> st_sampleCount s > 0 \<or> st_openReason s \<noteq> [] \<or> length (st_errorCounts s) > 0
     \<or> \<not> IsZero (st_openUntil s) \<or> st_halfOpenProbeIn s > 0"

definition failureRate :: "circuit_state \<Rightarrow> f64" where
  "failureRate s =
     (if st_sampleCount s \<le> 0 then 0
      else f64_div (f64_of_int (st_failureCount s)) (f64_of_int (st_sampleCount s)))"

definition advanceLocked :: "circuit_breaker_options \<Rightarrow> circuit_state \<Rightarrow> time \<Rightarrow> circuit_state" where
  "advanceLocked opts s now =
     (let s = (if st_halfOpenProbeMax s \<le> 0
               then s\<lparr>st_halfOpenProbeMax := co_HalfOpenProbeCount opts\<rparr> else s)
      in if st_state s = CircuitStateOpen \<and> \<not> IsZero (st_openUntil s) \<and> \<not> st_openUntil s > now
         then s\<lparr>st_state := CircuitStateHalfOpen, st_halfOpenProbeIn := 0\<rparr> else s)"

definition reportSuccessLocked :: "circuit_state \<Rightarrow> circuit_state" where
  "reportSuccessLocked s =
     (case st_state s of
        CircuitStateHalfOpen \<Rightarrow>
          (let s = s\<lparr>st_successCount := st_successCount s + 1\<rparr>
           in if st_successCount s \<ge> st_halfOpenProbeMax s then resetCircuitState s else s)
      | CircuitStateClosed \<Rightarrow>
          (let s = (if st_failureCount s > 0 then s\<lparr>st_failureCount := st_failureCount s - 1\<rparr> else s)
           in s\<lparr>st_successCount := st_successCount s + 1, st_sampleCount := st_sampleCount s + 1\<rparr>)
      | CircuitStateOpen \<Rightarrow> resetCircuitState s)"

definition openLockedWithPolicy ::
  "circuit_state \<Rightarrow> time \<Rightarrow> string \<Rightarrow> circuit_error_policy \<Rightarrow> circuit_state" where
  "openLockedWithPolicy s now reason policy =
     s\<lparr>st_state := CircuitStateOpen, st_openReason := reason,
       st_openUntil := now + ep_OpenDuration policy,
       st_halfOpenProbeMax := ep_HalfOpenProbeCount policy, st_halfOpenProbeIn := 0,
       st_successCount := 0\<rparr>"

definition open_policy :: "circuit_breaker_options \<Rightarrow> string \<Rightarrow> circuit_error_policy" where
  "open_policy opts reason =
     (case map_of (co_ErrorPolicies opts) reason of
        Some override \<Rightarrow> override
      | None \<Rightarrow> \<lparr>ep_FailureThreshold = 0, ep_MinSamples = 0, ep_OpenDuration = co_OpenDuration opts,
                 ep_HalfOpenProbeCount = co_HalfOpenProbeCount opts\<rparr>)"

definition openLocked ::
  "circuit_breaker_options \<Rightarrow> circuit_state \<Rightarrow> time \<Rightarrow> string \<Rightarrow> circuit_state" where
  "openLocked opts s now reason = openLockedWithPolicy s now reason (open_policy opts reason)"

definition incrementCircuitErrorCount :: "circuit_state \<Rightarrow> string \<Rightarrow> circuit_state" where
  "incrementCircuitErrorCount s kind =
     (if kind = [] then s else s\<lparr>st_errorCounts := ginc kind (st_errorCounts s)\<rparr>)"

definition circuitErrorPolicyOpen :: "circuit_state \<Rightarrow> string \<Rightarrow> circuit_error_policy \<Rightarrow> bool" where
  "circuitErrorPolicyOpen s kind policy =
     (if st_sampleCount s \<le> 0 \<or> kind = [] then False
      else let failures = gcount (st_errorCounts s) kind in
        if failures < ep_MinSamples policy then False
        else f64_div (f64_of_int failures) (f64_of_int (st_sampleCount s)) \<ge> ep_FailureThreshold policy)"

definition count_failure :: "circuit_state \<Rightarrow> string \<Rightarrow> circuit_state" where
  "count_failure s kind =
     incrementCircuitErrorCount
       (s\<lparr>st_failureCount := st_failureCount s + 1, st_sampleCount := st_sampleCount s + 1\<rparr>) kind"

definition reportFailureLocked ::
  "circuit_breaker_options \<Rightarrow> circuit_state \<Rightarrow> time \<Rightarrow> string \<Rightarrow> circuit_state" where
  "reportFailureLocked opts s now kind =
     (let kind = (if kind = [] then CircuitErrorUpstream else kind) in
      case st_state s of
        CircuitStateHalfOpen \<Rightarrow> openLocked opts s now kind
      | CircuitStateOpen \<Rightarrow> count_failure s kind
      | CircuitStateClosed \<Rightarrow>
          (let s = count_failure s kind in
           case map_of (co_ErrorPolicies opts) kind of
             Some policy \<Rightarrow>
               if circuitErrorPolicyOpen s kind policy then openLockedWithPolicy s now kind policy else s
           | None \<Rightarrow>
               if st_sampleCount s \<ge> co_MinSamples opts \<and> failureRate s \<ge> co_FailureThreshold opts
               then openLocked opts s now kind else s))"

section \<open>Methods of the breaker\<close>

definition stateForLocked :: "circuit_breaker \<Rightarrow> runtime_key \<Rightarrow> circuit_state" where
  "stateForLocked b key =
     (case map_of (cb_states b) key of Some s \<Rightarrow> s | None \<Rightarrow> fresh_state (cb_options b))"

definition store :: "circuit_breaker \<Rightarrow> runtime_key \<Rightarrow> circuit_state \<Rightarrow> circuit_breaker" where
  "store b key s = b\<lparr>cb_states := gput key s (cb_states b)\<rparr>"

definition copyCircuitErrorCounts :: "(string, int) gomap \<Rightarrow> (string, int) gomap" where
  "copyCircuitErrorCounts src = (if length src = 0 then [] else foldr (\<lambda>(k, v) dst. gput k v dst) src [])"

definition snapshotLocked :: "runtime_key \<Rightarrow> circuit_state \<Rightarrow> circuit_snapshot" where
  "snapshotLocked key s =
     \<lparr>cs_Key = key, cs_State = st_state s, cs_FailureCount = st_failureCount s,
      cs_SuccessCount = st_successCount s, cs_SampleCount = st_sampleCount s,
      cs_FailureRate = failureRate s, cs_OpenReason = st_openReason s,
      cs_ErrorCounts = copyCircuitErrorCounts (st_errorCounts s), cs_OpenUntil = st_openUntil s,
      cs_HalfOpenProbeUsed = st_halfOpenProbeIn s, cs_HalfOpenProbeMax = st_halfOpenProbeMax s\<rparr>"

definition Snapshot :: "circuit_breaker \<Rightarrow> time \<Rightarrow> runtime_key \<Rightarrow> circuit_snapshot \<times> circuit_breaker" where
  "Snapshot b now k =
     (let key = normalizeRuntimeKey k;
          s = advanceLocked (cb_options b) (stateForLocked b key) now
      in (snapshotLocked key s, store b key s))"

definition ListSnapshots :: "circuit_breaker \<Rightarrow> time \<Rightarrow> circuit_snapshot list \<times> circuit_breaker" where
  "ListSnapshots b now =
     (let states = map (\<lambda>(key, s). (key, advanceLocked (cb_options b) s now)) (cb_states b)
      in (map (\<lambda>(key, s). snapshotLocked key s) states, b\<lparr>cb_states := states\<rparr>))"

definition AllowProbe :: "circuit_breaker \<Rightarrow> time \<Rightarrow> runtime_key \<Rightarrow> bool \<times> circuit_breaker" where
  "AllowProbe b now k =
     (let key = normalizeRuntimeKey k;
          s = advanceLocked (cb_options b) (stateForLocked b key) now
      in case st_state s of
           CircuitStateClosed \<Rightarrow> (True, store b key s)
         | CircuitStateHalfOpen \<Rightarrow>
             (if st_halfOpenProbeIn s \<ge> st_halfOpenProbeMax s then (False, store b key s)
              else (True, store b key (s\<lparr>st_halfOpenProbeIn := st_halfOpenProbeIn s + 1\<rparr>)))
         | CircuitStateOpen \<Rightarrow> (False, store b key s))"

definition classifyFailure :: "circuit_breaker_options \<Rightarrow> attempt_result \<Rightarrow> string \<times> bool" where
  "classifyFailure opts result =
     (let kind = ClassifyCircuitError result in
      if kind = [] then ([], False)
      else if kind = CircuitErrorConcurrencyLimit then (kind, False)
      else if isDefaultCircuitFailure result then (kind, True)
      else (kind, map_of (co_ErrorPolicies opts) kind \<noteq> None))"

definition ignored_result :: "attempt_result \<Rightarrow> bool" where
  "ignored_result result \<longleftrightarrow>
     ar_ChannelID result \<le> 0 \<or> ar_ClientAborted result \<or> isCircuitClientRequestResult result
     \<or> ar_BalanceInsufficient result \<or> isCircuitBalanceInsufficientResult result
     \<or> isCircuitSchedulerExhaustedResult result"

definition Report :: "circuit_breaker \<Rightarrow> time \<Rightarrow> time \<Rightarrow> attempt_result \<Rightarrow> circuit_breaker" where
  "Report b now now' result =
     (if ignored_result result then b
      else let key = normalizeRuntimeKey (RuntimeKey result);
               s = advanceLocked (cb_options b) (stateForLocked b key) now
           in if ar_Success result then store b key (reportSuccessLocked s)
              else case classifyFailure (cb_options b) result of (kind, ok) \<Rightarrow>
                if \<not> ok then store b key s
                else store b key (reportFailureLocked (cb_options b) s now' kind))"

definition Reset :: "circuit_breaker \<Rightarrow> runtime_key \<Rightarrow> bool \<times> circuit_breaker" where
  "Reset b k =
     (let key = normalizeRuntimeKey k in
      if rk_ChannelID key \<le> 0 then (False, b)
      else case map_of (cb_states b) key of
             None \<Rightarrow> (False, b)
           | Some s \<Rightarrow> (circuitStateNeedsReset s, b\<lparr>cb_states := gdel key (cb_states b)\<rparr>))"

definition ResetChannel :: "circuit_breaker \<Rightarrow> int \<Rightarrow> int \<times> circuit_breaker" where
  "ResetChannel b channelID =
     (if channelID \<le> 0 then (0, b)
      else (int (length (filter (\<lambda>(key, s). rk_ChannelID key = channelID \<and> circuitStateNeedsReset s)
                   (cb_states b))),
            b\<lparr>cb_states := filter (\<lambda>(key, s). rk_ChannelID key \<noteq> channelID) (cb_states b)\<rparr>))"

definition circuitSeverity :: "circuit_mode \<Rightarrow> int" where
  "circuitSeverity m =
     (case m of CircuitStateOpen \<Rightarrow> 3 | CircuitStateHalfOpen \<Rightarrow> 2 | CircuitStateClosed \<Rightarrow> 1)"

definition snapshot_state :: "circuit_breaker_options \<Rightarrow> circuit_snapshot \<Rightarrow> circuit_state" where
  "snapshot_state opts snapshot =
     \<lparr>st_state = cs_State snapshot, st_failureCount = cs_FailureCount snapshot,
      st_successCount = cs_SuccessCount snapshot, st_sampleCount = cs_SampleCount snapshot,
      st_openReason = cs_OpenReason snapshot,
      st_errorCounts = copyCircuitErrorCounts (cs_ErrorCounts snapshot),
      st_openUntil = cs_OpenUntil snapshot,
      st_halfOpenProbeMax = (if cs_HalfOpenProbeMax snapshot \<le> 0 then co_HalfOpenProbeCount opts
                             else cs_HalfOpenProbeMax snapshot),
      st_halfOpenProbeIn = cs_HalfOpenProbeUsed snapshot\<rparr>"

definition applySnapshot :: "circuit_breaker \<Rightarrow> time \<Rightarrow> circuit_snapshot \<Rightarrow> bool \<times> circuit_breaker" where
  "applySnapshot b now snap =
     (let snapshot = normalizeCircuitSnapshot snap in
      if rk_ChannelID (cs_Key snapshot) \<le> 0 \<or> cs_State snapshot = CircuitStateClosed then (False, b)
      else let key = cs_Key snapshot;
               s = advanceLocked (cb_options b) (stateForLocked b key) now
           in if st_state s = CircuitStateOpen \<and> cs_State snapshot \<noteq> CircuitStateOpen
                then (False, store b key s)
              else if circuitSeverity (cs_State snapshot) < circuitSeverity (st_state s)
                then (False, store b key s)
              else (True, store b key (snapshot_state (cb_options b) snapshot)))"


section \<open>Access to the states\<close>

named_theorems circuit_simps "reading a breaker after an operation"

lemma store_options [circuit_simps, simp]: "cb_options (store b key s) = cb_options b"
  by (simp add: store_def)

lemma store_states [circuit_simps]: "cb_states (store b key s) = gput key s (cb_states b)"
  by (simp add: store_def)

lemma stateFor_store [circuit_simps, simp]:
  "stateForLocked (store b key s) k = (if k = key then s else stateForLocked b k)"
  by (simp add: stateForLocked_def circuit_simps go_map_simps split: option.split)

lemma options_unchanged [circuit_simps, simp]:
  "cb_options (snd (Snapshot b now k)) = cb_options b"
  "cb_options (snd (ListSnapshots b now)) = cb_options b"
  "cb_options (snd (AllowProbe b now k)) = cb_options b"
  "cb_options (Report b now now' r) = cb_options b"
  "cb_options (snd (Reset b k)) = cb_options b"
  "cb_options (snd (ResetChannel b c)) = cb_options b"
  "cb_options (snd (applySnapshot b now snap)) = cb_options b"
  by (simp_all add: Snapshot_def ListSnapshots_def AllowProbe_def Report_def Reset_def
      ResetChannel_def applySnapshot_def Let_def split: circuit_mode.split prod.split option.split)

lemma copy_fold: "copyCircuitErrorCounts src = foldr (\<lambda>(k, v) dst. gput k v dst) src []"
  by (simp add: copyCircuitErrorCounts_def)

lemma map_of_copy: "map_of (copyCircuitErrorCounts src) k = map_of src k"
  by (induction src) (auto simp: copy_fold go_map_simps)

lemma gwf_copy [simp]: "gwf (copyCircuitErrorCounts src)"
  by (induction src) (auto simp: copy_fold)

lemma gcount_copy [simp]: "gcount (copyCircuitErrorCounts src) k = gcount src k"
  by (simp add: gcount_def map_of_copy)

section \<open>Well-formed options and states\<close>

definition policy_wf :: "circuit_error_policy \<Rightarrow> bool" where
  "policy_wf p \<longleftrightarrow>
     0 < ep_FailureThreshold p \<and> ep_FailureThreshold p \<le> 1 \<and> 0 < ep_MinSamples p
     \<and> 0 < ep_OpenDuration p \<and> 0 < ep_HalfOpenProbeCount p"

definition options_wf :: "circuit_breaker_options \<Rightarrow> bool" where
  "options_wf opts \<longleftrightarrow>
     0 < co_FailureThreshold opts \<and> co_FailureThreshold opts \<le> 1 \<and> 0 < co_MinSamples opts
     \<and> 0 < co_OpenDuration opts \<and> 0 < co_HalfOpenProbeCount opts
     \<and> gwf (co_ErrorPolicies opts)
     \<and> (\<forall>k p. map_of (co_ErrorPolicies opts) k = Some p \<longrightarrow> k \<in> circuit_kinds \<and> policy_wf p)"

definition circuit_wf :: "circuit_state \<Rightarrow> bool" where
  "circuit_wf s \<longleftrightarrow>
     0 \<le> st_failureCount s \<and> st_failureCount s \<le> st_sampleCount s \<and> 0 \<le> st_successCount s
     \<and> gwf (st_errorCounts s)
     \<and> (\<forall>k. 0 \<le> gcount (st_errorCounts s) k \<and> gcount (st_errorCounts s) k \<le> st_sampleCount s)
     \<and> (case st_state s of
          CircuitStateClosed \<Rightarrow> st_halfOpenProbeIn s = 0
        | CircuitStateOpen \<Rightarrow> st_halfOpenProbeIn s = 0 \<and> 0 < st_halfOpenProbeMax s
            \<and> st_successCount s = 0 \<and> \<not> IsZero (st_openUntil s)
        | CircuitStateHalfOpen \<Rightarrow> 0 \<le> st_halfOpenProbeIn s
            \<and> st_halfOpenProbeIn s \<le> st_halfOpenProbeMax s \<and> st_successCount s < st_halfOpenProbeMax s)"

definition breaker_wf :: "circuit_breaker \<Rightarrow> bool" where
  "breaker_wf b \<longleftrightarrow>
     options_wf (cb_options b) \<and> gwf (cb_states b)
     \<and> (\<forall>k s. map_of (cb_states b) k = Some s \<longrightarrow> circuit_wf s \<and> normalizeRuntimeKey k = k)"

lemma normalize_policy_wf:
  "0 < co_FailureThreshold d \<Longrightarrow> co_FailureThreshold d \<le> 1 \<Longrightarrow> 0 < co_MinSamples d \<Longrightarrow>
   0 < co_OpenDuration d \<Longrightarrow> 0 < co_HalfOpenProbeCount d \<Longrightarrow> policy_wf (normalize_policy d p)"
  by (simp add: policy_wf_def normalize_policy_def)

lemma normalizeCircuitErrorPolicies_wf:
  assumes "0 < co_FailureThreshold d" "co_FailureThreshold d \<le> 1" "0 < co_MinSamples d"
    "0 < co_OpenDuration d" "0 < co_HalfOpenProbeCount d"
  shows "gwf (normalizeCircuitErrorPolicies src d)
    \<and> (\<forall>k p. map_of (normalizeCircuitErrorPolicies src d) k = Some p \<longrightarrow> k \<in> circuit_kinds \<and> policy_wf p)"
  using assms
proof (induction src d rule: normalizeCircuitErrorPolicies.induct)
  case (2 kind policy src d)
  then show ?case
    using normalize_policy_wf [of d policy] normalizeCircuitErrorKind_kinds [of kind]
    by (auto simp: Let_def go_map_simps)
qed simp

lemma newCircuitBreaker_wf: "breaker_wf (newCircuitBreaker options)"
proof -
  define o' where "o' = cb_options (newCircuitBreaker options)"
  define d where "d = o'\<lparr>co_ErrorPolicies := co_ErrorPolicies options\<rparr>"
  have d: "0 < co_FailureThreshold d" "co_FailureThreshold d \<le> 1" "0 < co_MinSamples d"
    "0 < co_OpenDuration d" "0 < co_HalfOpenProbeCount d"
    by (simp_all add: d_def o'_def newCircuitBreaker_def Let_def defaultCircuitFailureThreshold_def
        defaultCircuitMinSamples_def defaultCircuitOpenDuration_def defaultCircuitProbeCount_def Second_def)
  have "co_ErrorPolicies o' = normalizeCircuitErrorPolicies (co_ErrorPolicies options) d"
    by (simp add: d_def o'_def newCircuitBreaker_def Let_def)
  with normalizeCircuitErrorPolicies_wf [OF d, of "co_ErrorPolicies options"] d
  have "options_wf o'" by (simp add: options_wf_def d_def)
  then show ?thesis
    by (simp add: breaker_wf_def o'_def) (simp add: newCircuitBreaker_def Let_def)
qed

section \<open>Every operation keeps the invariant\<close>

lemma fresh_wf: "circuit_wf (fresh_state opts)"
  by (simp add: circuit_wf_def fresh_state_def)

lemma reset_wf: "circuit_wf (resetCircuitState s)"
  by (simp add: circuit_wf_def resetCircuitState_def)

lemma advance_wf: "options_wf opts \<Longrightarrow> circuit_wf s \<Longrightarrow> circuit_wf (advanceLocked opts s now)"
  by (auto simp: circuit_wf_def options_wf_def advanceLocked_def Let_def split: circuit_mode.splits)

lemma advance_max: "options_wf opts \<Longrightarrow> 0 < st_halfOpenProbeMax (advanceLocked opts s now)"
  by (auto simp: options_wf_def advanceLocked_def Let_def)

lemma success_wf: "circuit_wf s \<Longrightarrow> circuit_wf (reportSuccessLocked s)"
  by (auto simp: circuit_wf_def reportSuccessLocked_def Let_def resetCircuitState_def
      intro: le_incr split: circuit_mode.splits)

lemma open_policy_wf:
  "options_wf opts \<Longrightarrow> 0 < ep_OpenDuration (open_policy opts k) \<and> 0 < ep_HalfOpenProbeCount (open_policy opts k)"
  by (auto simp: options_wf_def open_policy_def policy_wf_def split: option.splits)

lemma openWithPolicy_wf:
  assumes "circuit_wf s" and "0 < ep_OpenDuration p" and "0 < ep_HalfOpenProbeCount p" and "zero_time \<le> now"
  shows "circuit_wf (openLockedWithPolicy s now k p)"
  using assms by (simp add: circuit_wf_def openLockedWithPolicy_def IsZero_def)

lemma count_failure_wf: "circuit_wf s \<Longrightarrow> circuit_wf (count_failure s k)"
proof -
  assume wf: "circuit_wf s"
  then have "0 \<le> st_sampleCount s" by (simp add: circuit_wf_def)
  with wf show ?thesis
    by (auto simp: circuit_wf_def count_failure_def incrementCircuitErrorCount_def go_map_simps
        intro: le_incr split: circuit_mode.splits)
qed

lemma count_failure_state [simp]: "st_state (count_failure s k) = st_state s"
  by (simp add: count_failure_def incrementCircuitErrorCount_def)

lemma failure_wf:
  assumes "options_wf opts" and "circuit_wf s" and "zero_time \<le> now"
  shows "circuit_wf (reportFailureLocked opts s now k)"
proof -
  have pol: "0 < ep_OpenDuration p \<and> 0 < ep_HalfOpenProbeCount p"
    if "map_of (co_ErrorPolicies opts) k' = Some p" for k' p
    using that assms(1) by (simp add: options_wf_def policy_wf_def)
  show ?thesis
    using assms open_policy_wf [OF assms(1)] pol
    by (auto simp: reportFailureLocked_def Let_def openLocked_def
        intro!: openWithPolicy_wf count_failure_wf split: circuit_mode.split option.split)
qed

lemma store_wf:
  "breaker_wf b \<Longrightarrow> circuit_wf s \<Longrightarrow> normalizeRuntimeKey key = key \<Longrightarrow> breaker_wf (store b key s)"
  by (auto simp: breaker_wf_def store_def go_map_simps)

lemma stateFor_wf: "breaker_wf b \<Longrightarrow> circuit_wf (stateForLocked b key)"
  by (auto simp: breaker_wf_def stateForLocked_def fresh_wf split: option.split)

lemma advanced_wf:
  "breaker_wf b \<Longrightarrow> circuit_wf (advanceLocked (cb_options b) (stateForLocked b key) now)"
  by (simp add: advance_wf stateFor_wf breaker_wf_def [of b])

lemma probe_wf:
  "circuit_wf s \<Longrightarrow> st_state s = CircuitStateHalfOpen \<Longrightarrow> \<not> st_halfOpenProbeIn s \<ge> st_halfOpenProbeMax s \<Longrightarrow>
   circuit_wf (s\<lparr>st_halfOpenProbeIn := st_halfOpenProbeIn s + 1\<rparr>)"
  by (simp add: circuit_wf_def)

lemma Snapshot_wf: "breaker_wf b \<Longrightarrow> breaker_wf (snd (Snapshot b now k))"
  by (simp add: Snapshot_def Let_def store_wf advanced_wf)

lemma AllowProbe_wf: "breaker_wf b \<Longrightarrow> breaker_wf (snd (AllowProbe b now k))"
  by (auto simp: AllowProbe_def Let_def intro!: store_wf probe_wf advanced_wf split: circuit_mode.split)

lemma Report_wf: "breaker_wf b \<Longrightarrow> zero_time \<le> now' \<Longrightarrow> breaker_wf (Report b now now' r)"
  by (auto simp: Report_def Let_def breaker_wf_def [of b]
      intro!: store_wf success_wf failure_wf advanced_wf split: prod.split)

lemma ListSnapshots_wf:
  assumes "breaker_wf b"
  shows "breaker_wf (snd (ListSnapshots b now))"
proof -
  let ?adv = "\<lambda>key s. advanceLocked (cb_options b) s now"
  have "cb_states (snd (ListSnapshots b now)) = map (\<lambda>(key, s). (key, ?adv key s)) (cb_states b)"
    by (simp add: ListSnapshots_def)
  with assms show ?thesis
    unfolding breaker_wf_def
    by (auto simp: gwf_map_values [of ?adv] map_of_map_values [of ?adv] intro: advance_wf)
qed

lemma Reset_wf: "breaker_wf b \<Longrightarrow> breaker_wf (snd (Reset b k))"
  by (auto simp: Reset_def breaker_wf_def Let_def go_map_simps split: option.split if_splits)

lemma ResetChannel_wf: "breaker_wf b \<Longrightarrow> breaker_wf (snd (ResetChannel b c))"
  by (auto simp: ResetChannel_def breaker_wf_def map_of_filter_keys split: if_splits)

lemma applySnapshot_wf:
  "breaker_wf b \<Longrightarrow> circuit_wf (snapshot_state (cb_options b) snap) \<Longrightarrow>
   breaker_wf (snd (applySnapshot b now snap))"
  by (auto simp: applySnapshot_def Let_def snapshot_state_def intro!: store_wf advanced_wf)

text \<open>A snapshot taken from a well-formed state describes a well-formed state again.\<close>

lemma snapshotLocked_wf:
  "circuit_wf s \<Longrightarrow> 0 < st_halfOpenProbeMax s \<Longrightarrow> circuit_wf (snapshot_state opts (snapshotLocked key s))"
  by (simp add: circuit_wf_def snapshot_state_def snapshotLocked_def cong: circuit_mode.case_cong)

end
