(* ===== verification/Circuit_Properties.thy ===== *)
theory Circuit_Properties
  imports Circuit_Breaker
begin

text \<open>
  What the circuit breaker guarantees: its invariant over every sequence of calls, the budget
  of probes of an open circuit over time, recovery and re-opening, the exact condition under
  which a closed circuit trips, independence of the keys, and the merge of remote snapshots.
\<close>

section \<open>Reachable breakers\<close>

inductive cb_step :: "circuit_breaker \<Rightarrow> circuit_breaker \<Rightarrow> bool" where
  snapshot: "cb_step b (snd (Snapshot b now k))"
| list_snapshots: "cb_step b (snd (ListSnapshots b now))"
| allow_probe: "cb_step b (snd (AllowProbe b now k))"
| report: "zero_time \<le> now' \<Longrightarrow> cb_step b (Report b now now' r)"
| reset: "cb_step b (snd (Reset b k))"
| reset_channel: "cb_step b (snd (ResetChannel b c))"
| apply_snapshot: "circuit_wf (snapshot_state (cb_options b) snap) \<Longrightarrow>
    cb_step b (snd (applySnapshot b now snap))"

inductive cb_reachable :: "circuit_breaker_options \<Rightarrow> circuit_breaker \<Rightarrow> bool" where
  init: "cb_reachable opts (newCircuitBreaker opts)"
| step: "cb_reachable opts b \<Longrightarrow> cb_step b b' \<Longrightarrow> cb_reachable opts b'"

lemmas breaker_ops_wf =
  Snapshot_wf ListSnapshots_wf AllowProbe_wf Report_wf Reset_wf ResetChannel_wf applySnapshot_wf

lemma cb_step_wf: "cb_step b b' \<Longrightarrow> breaker_wf b \<Longrightarrow> breaker_wf b'"
  by (induction rule: cb_step.induct) (auto intro: breaker_ops_wf)

lemma cb_reachable_breaker_wf: "cb_reachable opts b \<Longrightarrow> breaker_wf b"
  by (induction rule: cb_reachable.induct) (auto intro: newCircuitBreaker_wf cb_step_wf)

lemma failureRate_unit: "circuit_wf s \<Longrightarrow> 0 \<le> failureRate s \<and> failureRate s \<le> 1"
  using f64_ratio_unit [of "st_failureCount s" "st_sampleCount s"]
  by (auto simp: failureRate_def circuit_wf_def)

section \<open>The probe gate\<close>

text \<open>
  The contract between the breaker and the callers of \<^verbatim>\<open>AllowProbe\<close>: while a gate is ready, a
  call is admitted exactly as long as a slot is left and takes that slot.
\<close>

fun gate_run :: "('b \<Rightarrow> time \<Rightarrow> bool \<times> 'b) \<Rightarrow> 'b \<Rightarrow> time list \<Rightarrow> bool list \<times> 'b" where
  "gate_run allow b [] = ([], b)"
| "gate_run allow b (t # ts) =
     (fst (allow b t) # fst (gate_run allow (snd (allow b t)) ts), snd (gate_run allow (snd (allow b t)) ts))"

lemma gate_run_append:
  "fst (gate_run allow b (ts @ us)) = fst (gate_run allow b ts) @ fst (gate_run allow (snd (gate_run allow b ts)) us)"
  "snd (gate_run allow b (ts @ us)) = snd (gate_run allow (snd (gate_run allow b ts)) us)"
  by (induction ts arbitrary: b) auto

locale probe_gate =
  fixes allow :: "'b \<Rightarrow> time \<Rightarrow> bool \<times> 'b"
    and ready :: "'b \<Rightarrow> bool"
    and slots :: "'b \<Rightarrow> nat"
  assumes allow_ready: "ready b \<Longrightarrow> ready (snd (allow b t))"
    and allow_iff: "ready b \<Longrightarrow> fst (allow b t) \<longleftrightarrow> 0 < slots b"
    and allow_takes: "ready b \<Longrightarrow> slots (snd (allow b t)) = slots b - 1"
begin

lemma run_keeps:
  "ready b \<Longrightarrow> ready (snd (gate_run allow b ts)) \<and> slots (snd (gate_run allow b ts)) = slots b - length ts"
  by (induction ts arbitrary: b) (auto simp: allow_ready allow_takes)

lemma run_admits:
  "ready b \<Longrightarrow> fst (gate_run allow b ts) =
     replicate (min (length ts) (slots b)) True @ replicate (length ts - slots b) False"
proof (induction ts arbitrary: b)
  case (Cons t ts)
  then show ?case
    using allow_ready [of b t] allow_iff [of b t] allow_takes [of b t]
    by (cases "slots b") auto
qed simp

end

section \<open>Reading the state a probe sees\<close>

abbreviation key_state :: "circuit_breaker \<Rightarrow> runtime_key \<Rightarrow> circuit_state" where
  "key_state b k \<equiv> stateForLocked b (normalizeRuntimeKey k)"

definition half_open :: "runtime_key \<Rightarrow> circuit_breaker \<Rightarrow> bool" where
  "half_open k b \<longleftrightarrow> breaker_wf b \<and> st_state (key_state b k) = CircuitStateHalfOpen"

definition free_slots :: "runtime_key \<Rightarrow> circuit_breaker \<Rightarrow> nat" where
  "free_slots k b = nat (st_halfOpenProbeMax (key_state b k) - st_halfOpenProbeIn (key_state b k))"

lemma advance_half_open:
  assumes "circuit_wf s" and "st_state s = CircuitStateHalfOpen"
  shows "advanceLocked opts s t = s"
  using assms by (auto simp: advanceLocked_def circuit_wf_def Let_def)

lemma AllowProbe_half_open:
  assumes "half_open k b"
  shows "AllowProbe b t k =
    (let s = key_state b k in
     if st_halfOpenProbeIn s \<ge> st_halfOpenProbeMax s then (False, store b (normalizeRuntimeKey k) s)
     else (True, store b (normalizeRuntimeKey k) (s\<lparr>st_halfOpenProbeIn := st_halfOpenProbeIn s + 1\<rparr>)))"
  using assms advance_half_open [OF stateFor_wf [of b]]
  by (auto simp: AllowProbe_def half_open_def Let_def)

interpretation half_open_gate: probe_gate "\<lambda>b t. AllowProbe b t k" "half_open k" "free_slots k"
  for k
proof
  fix b t assume h: "half_open k b"
  show "half_open k (snd (AllowProbe b t k))"
    using h AllowProbe_half_open [OF h, of t] AllowProbe_wf [of b t k]
    by (auto simp: half_open_def Let_def split: if_splits)
  show "fst (AllowProbe b t k) = (0 < free_slots k b)"
    using AllowProbe_half_open [OF h, of t] by (auto simp: free_slots_def Let_def)
  show "free_slots k (snd (AllowProbe b t k)) = free_slots k b - 1"
    using AllowProbe_half_open [OF h, of t] by (auto simp: free_slots_def Let_def)
qed

lemma AllowProbe_open_early:
  assumes "breaker_wf b" and "st_state (key_state b k) = CircuitStateOpen" and "t < st_openUntil (key_state b k)"
  shows "AllowProbe b t k = (False, store b (normalizeRuntimeKey k) (key_state b k))"
proof -
  have "0 < st_halfOpenProbeMax (key_state b k)"
    using stateFor_wf [OF assms(1), of "normalizeRuntimeKey k"] assms(2) by (simp add: circuit_wf_def)
  then have "advanceLocked (cb_options b) (key_state b k) t = key_state b k"
    using assms(2,3) by (simp add: advanceLocked_def Let_def)
  with assms(2) show ?thesis by (simp add: AllowProbe_def Let_def)
qed

lemma advance_open_late:
  assumes "circuit_wf s" and "st_state s = CircuitStateOpen" and "st_openUntil s \<le> t"
  shows "advanceLocked opts s t = s\<lparr>st_state := CircuitStateHalfOpen, st_halfOpenProbeIn := 0\<rparr>"
  using assms by (simp add: advanceLocked_def circuit_wf_def Let_def)

text \<open>The first call after \<^verbatim>\<open>openUntil\<close> behaves as if the circuit had been half open already.\<close>

definition half_opened :: "circuit_breaker \<Rightarrow> runtime_key \<Rightarrow> circuit_breaker" where
  "half_opened b k = store b (normalizeRuntimeKey k)
     ((key_state b k)\<lparr>st_state := CircuitStateHalfOpen, st_halfOpenProbeIn := 0\<rparr>)"

lemma store_store [simp]: "store (store b key s) key s' = store b key s'"
  by (simp add: store_def)

lemma half_opened_ready:
  assumes "breaker_wf b" and "st_state (key_state b k) = CircuitStateOpen"
  shows "half_open k (half_opened b k)"
  using stateFor_wf [OF assms(1), of "normalizeRuntimeKey k"] assms
  by (auto simp: half_open_def half_opened_def circuit_wf_def intro!: store_wf)

lemma AllowProbe_open_late:
  assumes "breaker_wf b" and "st_state (key_state b k) = CircuitStateOpen" and "st_openUntil (key_state b k) \<le> t"
  shows "AllowProbe b t k = AllowProbe (half_opened b k) t k"
  using AllowProbe_half_open [OF half_opened_ready [OF assms(1,2)], of t]
    advance_open_late [OF stateFor_wf [OF assms(1)] assms(2,3)]
  by (simp add: AllowProbe_def half_opened_def Let_def)

lemma late_run:
  assumes "breaker_wf b" and "st_state (key_state b k) = CircuitStateOpen"
    and "\<forall>t \<in> set ts. st_openUntil (key_state b k) \<le> t"
  shows "fst (gate_run (\<lambda>b t. AllowProbe b t k) b ts) = fst (gate_run (\<lambda>b t. AllowProbe b t k) (half_opened b k) ts)"
  using assms AllowProbe_open_late [OF assms(1,2)] by (cases ts) simp_all

lemma early_run:
  assumes "breaker_wf b" and "st_state (key_state b k) = CircuitStateOpen"
    and "\<forall>t \<in> set ts. t < st_openUntil (key_state b k)"
  shows "fst (gate_run (\<lambda>b t. AllowProbe b t k) b ts) = replicate (length ts) False
    \<and> breaker_wf (snd (gate_run (\<lambda>b t. AllowProbe b t k) b ts))
    \<and> key_state (snd (gate_run (\<lambda>b t. AllowProbe b t k) b ts)) k = key_state b k"
  using assms
proof (induction ts arbitrary: b)
  case (Cons t ts)
  define b1 where "b1 = store b (normalizeRuntimeKey k) (key_state b k)"
  have "AllowProbe b t k = (False, b1)"
    using Cons.prems AllowProbe_open_early by (simp add: b1_def)
  moreover have "breaker_wf b1" and "key_state b1 k = key_state b k"
    using Cons.prems(1) by (simp_all add: b1_def store_wf stateFor_wf)
  moreover note Cons.IH [of b1]
  ultimately show ?case using Cons.prems(2,3) by auto
qed simp


section \<open>Series of reports\<close>

fun report_all :: "circuit_breaker \<Rightarrow> (time \<times> time \<times> attempt_result) list \<Rightarrow> circuit_breaker" where
  "report_all b [] = b"
| "report_all b ((t, t', r) # rs) = report_all (Report b t t' r) rs"

definition counted_success :: "runtime_key \<Rightarrow> attempt_result \<Rightarrow> bool" where
  "counted_success k r \<longleftrightarrow>
     \<not> ignored_result r \<and> ar_Success r \<and> normalizeRuntimeKey (RuntimeKey r) = normalizeRuntimeKey k"

definition counted_failure :: "circuit_breaker_options \<Rightarrow> runtime_key \<Rightarrow> string \<Rightarrow> attempt_result \<Rightarrow> bool" where
  "counted_failure opts k kind r \<longleftrightarrow>
     \<not> ignored_result r \<and> \<not> ar_Success r \<and> classifyFailure opts r = (kind, True)
     \<and> normalizeRuntimeKey (RuntimeKey r) = normalizeRuntimeKey k"

lemma Report_success:
  "counted_success k r \<Longrightarrow>
   Report b t t' r = store b (normalizeRuntimeKey k)
     (reportSuccessLocked (advanceLocked (cb_options b) (key_state b k) t))"
  by (simp add: Report_def counted_success_def Let_def)

lemma Report_failure:
  "counted_failure (cb_options b) k kind r \<Longrightarrow>
   Report b t t' r = store b (normalizeRuntimeKey k)
     (reportFailureLocked (cb_options b) (advanceLocked (cb_options b) (key_state b k) t) t' kind)"
  by (simp add: Report_def counted_failure_def Let_def)

lemma counted_kind: "counted_failure opts k kind r \<Longrightarrow> kind \<noteq> []"
  by (auto simp: counted_failure_def classifyFailure_def Let_def split: if_splits)

lemma advance_closed:
  assumes "st_state s = CircuitStateClosed"
  shows "st_state (advanceLocked opts s t) = CircuitStateClosed"
    and "st_failureCount (advanceLocked opts s t) = st_failureCount s"
    and "st_sampleCount (advanceLocked opts s t) = st_sampleCount s"
    and "st_errorCounts (advanceLocked opts s t) = st_errorCounts s"
  using assms by (simp_all add: advanceLocked_def Let_def)

lemma advance_mode:
  "st_state (advanceLocked opts s t) = st_state s
   \<or> st_state s = CircuitStateOpen \<and> st_state (advanceLocked opts s t) = CircuitStateHalfOpen"
  by (simp add: advanceLocked_def Let_def)

lemma success_half_open_step:
  assumes "half_open k b" and "counted_success k r"
    and more: "st_successCount (key_state b k) + 1 < st_halfOpenProbeMax (key_state b k)"
  shows "half_open k (Report b t t' r)
    \<and> st_successCount (key_state (Report b t t' r) k) = st_successCount (key_state b k) + 1
    \<and> st_halfOpenProbeMax (key_state (Report b t t' r) k) = st_halfOpenProbeMax (key_state b k)"
proof -
  have wf: "circuit_wf (key_state b k)" and st: "st_state (key_state b k) = CircuitStateHalfOpen"
    using assms(1) by (auto simp: half_open_def stateFor_wf)
  have r: "Report b t t' r = store b (normalizeRuntimeKey k) (reportSuccessLocked (key_state b k))"
    by (simp add: Report_success [OF assms(2)] advance_half_open [OF wf st])
  have "breaker_wf (Report b t t' r)"
    unfolding r using assms(1) wf by (intro store_wf success_wf) (auto simp: half_open_def)
  moreover have "reportSuccessLocked (key_state b k) =
      (key_state b k)\<lparr>st_successCount := st_successCount (key_state b k) + 1\<rparr>"
    using st more by (simp add: reportSuccessLocked_def Let_def)
  ultimately show ?thesis using st by (simp add: r half_open_def)
qed

lemma half_open_progress:
  assumes "half_open k b" and "\<forall>(t, t', r) \<in> set rs. counted_success k r"
    and "int (length rs) < st_halfOpenProbeMax (key_state b k) - st_successCount (key_state b k)"
  shows "half_open k (report_all b rs)
    \<and> st_successCount (key_state (report_all b rs) k) = st_successCount (key_state b k) + int (length rs)
    \<and> st_halfOpenProbeMax (key_state (report_all b rs) k) = st_halfOpenProbeMax (key_state b k)"
  using assms
proof (induction rs arbitrary: b)
  case (Cons x rs)
  obtain t t' r where x: "x = (t, t', r)" by (cases x) auto
  have "half_open k (Report b t t' r)
    \<and> st_successCount (key_state (Report b t t' r) k) = st_successCount (key_state b k) + 1
    \<and> st_halfOpenProbeMax (key_state (Report b t t' r) k) = st_halfOpenProbeMax (key_state b k)"
    using Cons.prems x by (intro success_half_open_step) auto
  then show ?case
    using Cons.IH [of "Report b t t' r"] Cons.prems x by auto
qed simp

lemma report_all_append: "report_all b (rs @ [(t, t', r)]) = Report (report_all b rs) t t' r"
  by (induction b rs rule: report_all.induct) auto

lemma ignored_reports: "\<forall>(t, t', r) \<in> set rs. ignored_result r \<Longrightarrow> report_all b rs = b"
  by (induction b rs rule: report_all.induct) (auto simp: Report_def)

section \<open>A concrete breaker\<close>

text \<open>
  A breaker that trips on its first failure and asks for two probes, an attempt on channel 7 that
  failed with status 500 and one that succeeded, and the breaker after the failure, before and
  after its deadline.
\<close>

definition example_options :: circuit_breaker_options where
  "example_options = \<lparr>co_FailureThreshold = 1 / 2, co_MinSamples = 1, co_OpenDuration = 0,
     co_HalfOpenProbeCount = 2, co_ErrorPolicies = []\<rparr>"

definition example_result :: "bool \<Rightarrow> int \<Rightarrow> bool \<Rightarrow> attempt_result" where
  "example_result ok status aborted =
     \<lparr>ar_Key = zero_runtime_key, ar_Plan = None, ar_AttemptIndex = 0, ar_ChannelID = 7,
      ar_RequestedGroup = ''vip'', ar_SelectedGroup = [], ar_ModelName = ''gpt'', ar_EndpointType = [],
      ar_Success = ok, ar_StatusCode = status, ar_ErrorCode = [], ar_ErrorType = [],
      ar_ErrorMessage = [], ar_ErrorCategory = [], ar_StreamInterrupted = False,
      ar_ClientAborted = aborted, ar_ConcurrencyLimited = False, ar_BalanceInsufficient = False,
      ar_UsedChannels = []\<rparr>"

definition example_key :: runtime_key where
  "example_key = RuntimeKey (example_result True 200 False)"

definition example_closed :: circuit_breaker where
  "example_closed = newCircuitBreaker example_options"

definition example_open :: circuit_breaker where
  "example_open = Report example_closed 0 0 (example_result False 500 False)"

definition example_half_open :: circuit_breaker where
  "example_half_open = snd (Snapshot example_open (40 * Second) example_key)"

lemma example_wf: "breaker_wf example_closed" "breaker_wf example_open" "breaker_wf example_half_open"
proof -
  show c: "breaker_wf example_closed" by (simp add: example_closed_def newCircuitBreaker_wf)
  show o': "breaker_wf example_open"
    unfolding example_open_def using c by (rule Report_wf) (simp add: zero_time_def)
  show "breaker_wf example_half_open"
    unfolding example_half_open_def using o' by (rule Snapshot_wf)
qed

lemma example_states:
  "st_state (key_state example_open example_key) = CircuitStateOpen"
  "st_openUntil (key_state example_open example_key) = 30 * Second"
  "st_state (key_state example_half_open example_key) = CircuitStateHalfOpen"
  "st_state (key_state example_closed example_key) = CircuitStateClosed"
  "st_sampleCount (key_state example_closed example_key) = 0"
  "st_halfOpenProbeMax (key_state example_open example_key) = 2"
  "st_halfOpenProbeMax (key_state example_half_open example_key) = 2"
  "st_successCount (key_state example_half_open example_key) = 0"
  "free_slots example_key example_half_open = 2"
  by code_simp+

lemma st_state_reset: "st_state (resetCircuitState s) = CircuitStateClosed"
  by (simp add: resetCircuitState_def)

lemma example_outcomes:
  "counted_success example_key (example_result True 200 False)"
  "counted_failure (cb_options example_half_open) example_key CircuitErrorServer (example_result False 500 False)"
  "counted_failure (cb_options example_closed) example_key CircuitErrorServer (example_result False 500 False)"
  "ignored_result (example_result False 0 True)"
  by code_simp+

section \<open>Properties\<close>



text \<open>C5: An open circuit admits no probe before its deadline, and over any series of calls
  after the deadline it admits exactly the first \<^verbatim>\<open>halfOpenProbeMax\<close> ones and no more, however
  many callers race for them.\<close>

theorem open_circuit_probe_budget:
  assumes "breaker_wf b" and "st_state (key_state b k) = CircuitStateOpen"
    and "\<forall>t \<in> set early. t < st_openUntil (key_state b k)"
    and "\<forall>t \<in> set late. st_openUntil (key_state b k) \<le> t"
  shows "fst (gate_run (\<lambda>b t. AllowProbe b t k) b (early @ late)) =
    replicate (length early) False
    @ replicate (min (length late) (nat (st_halfOpenProbeMax (key_state b k)))) True
    @ replicate (length late - nat (st_halfOpenProbeMax (key_state b k))) False"
proof -
  define b1 where "b1 = snd (gate_run (\<lambda>b t. AllowProbe b t k) b early)"
  note e = early_run [OF assms(1-3), folded b1_def]
  have open1: "st_state (key_state b1 k) = CircuitStateOpen" using e assms(2) by simp
  have "fst (gate_run (\<lambda>b t. AllowProbe b t k) b1 late)
      = fst (gate_run (\<lambda>b t. AllowProbe b t k) (half_opened b1 k) late)"
    using e assms(4) by (intro late_run open1) auto
  also have "\<dots> = replicate (min (length late) (free_slots k (half_opened b1 k))) True
      @ replicate (length late - free_slots k (half_opened b1 k)) False"
    using e by (intro half_open_gate.run_admits half_opened_ready open1) simp
  finally show ?thesis
    using e by (simp add: gate_run_append b1_def free_slots_def half_opened_def)
qed


theorem open_circuit_probe_budget_witness:
  "fst (gate_run (\<lambda>b t. AllowProbe b t example_key) example_open
     ([0, 29 * Second] @ [30 * Second, 31 * Second, 32 * Second])) = [False, False, True, True, False]"
  using open_circuit_probe_budget [OF example_wf(2) example_states(1),
      of "[0, 29 * Second]" "[30 * Second, 31 * Second, 32 * Second]"]
  by (simp add: example_states Second_def eval_nat_numeral)

text \<open>A half-open circuit closes exactly when it has collected \<^verbatim>\<open>halfOpenProbeMax\<close> successes:
  with fewer it stays half open, with the last one it closes and all its counters restart
  from zero.\<close>

lemma half_open_recovery:
  assumes "half_open k b" and "\<forall>(t, t', r) \<in> set rs. counted_success k r"
  shows "(int (length rs) < st_halfOpenProbeMax (key_state b k) - st_successCount (key_state b k) \<longrightarrow>
            st_state (key_state (report_all b rs) k) = CircuitStateHalfOpen)
       \<and> (int (length rs) = st_halfOpenProbeMax (key_state b k) - st_successCount (key_state b k) \<longrightarrow>
            key_state (report_all b rs) k = resetCircuitState (key_state (report_all b rs) k))"
proof (intro conjI impI)
  assume "int (length rs) < st_halfOpenProbeMax (key_state b k) - st_successCount (key_state b k)"
  then show "st_state (key_state (report_all b rs) k) = CircuitStateHalfOpen"
    using half_open_progress [OF assms(1,2)] by (simp add: half_open_def)
next
  assume len: "int (length rs) = st_halfOpenProbeMax (key_state b k) - st_successCount (key_state b k)"
  have "st_successCount (key_state b k) < st_halfOpenProbeMax (key_state b k)"
    using assms(1) stateFor_wf [of b "normalizeRuntimeKey k"] by (simp add: half_open_def circuit_wf_def)
  with len have "rs \<noteq> []" by auto
  then obtain us t t' r where rs: "rs = us @ [(t, t', r)]" by (metis prod_cases3 rev_exhaust)
  define b1 where "b1 = report_all b us"
  have p: "half_open k b1" "st_successCount (key_state b1 k) + 1 = st_halfOpenProbeMax (key_state b1 k)"
    using half_open_progress [OF assms(1), of us] assms(2) len rs by (auto simp: b1_def)
  have "circuit_wf (key_state b1 k)" "st_state (key_state b1 k) = CircuitStateHalfOpen"
    using p(1) by (auto simp: half_open_def stateFor_wf)
  moreover have "counted_success k r" using assms(2) rs by auto
  ultimately show "key_state (report_all b rs) k = resetCircuitState (key_state (report_all b rs) k)"
    using p(2) by (simp add: rs report_all_append b1_def [symmetric] Report_success advance_half_open
        reportSuccessLocked_def Let_def) (simp add: resetCircuitState_def)
qed

lemma half_open_recovery_witness:
  "st_state (key_state (report_all example_half_open [(0, 0, example_result True 200 False)]) example_key)
     = CircuitStateHalfOpen
   \<and> st_state (key_state (report_all example_half_open
         [(0, 0, example_result True 200 False), (0, 0, example_result True 200 False)]) example_key)
     = CircuitStateClosed"
proof
  have ho: "half_open example_key example_half_open"
    by (simp add: half_open_def example_wf example_states)
  show "st_state (key_state (report_all example_half_open [(0, 0, example_result True 200 False)]) example_key)
     = CircuitStateHalfOpen"
    using half_open_recovery [OF ho, of "[(0, 0, example_result True 200 False)]"]
    by (simp add: example_outcomes example_states)
  show "st_state (key_state (report_all example_half_open
         [(0, 0, example_result True 200 False), (0, 0, example_result True 200 False)]) example_key)
     = CircuitStateClosed"
    using arg_cong [where f = st_state, OF mp [OF conjunct2 [OF half_open_recovery [OF ho,
        of "[(0, 0, example_result True 200 False), (0, 0, example_result True 200 False)]"]]]]
    by (simp only: st_state_reset) (simp add: example_outcomes example_states)
qed

text \<open>One counted failure of a half-open circuit opens it again, with the deadline and the
  probe budget of the policy that applies to the failure's kind, and until that deadline every
  probe is refused.\<close>

lemma half_open_failure_reopens:
  assumes "half_open k b" and "counted_failure (cb_options b) k kind r" and "zero_time \<le> now'"
    and "\<forall>t \<in> set ts. t < now' + ep_OpenDuration (open_policy (cb_options b) kind)"
  shows "st_state (key_state (Report b now now' r) k) = CircuitStateOpen
    \<and> st_openUntil (key_state (Report b now now' r) k) = now' + ep_OpenDuration (open_policy (cb_options b) kind)
    \<and> st_halfOpenProbeMax (key_state (Report b now now' r) k) = ep_HalfOpenProbeCount (open_policy (cb_options b) kind)
    \<and> fst (gate_run (\<lambda>b t. AllowProbe b t k) (Report b now now' r) ts) = replicate (length ts) False"
proof -
  have wf: "breaker_wf b" and st: "st_state (key_state b k) = CircuitStateHalfOpen"
    using assms(1) by (auto simp: half_open_def)
  have s: "key_state (Report b now now' r) k =
      openLockedWithPolicy (key_state b k) now' kind (open_policy (cb_options b) kind)"
    using st counted_kind [OF assms(2)] advance_half_open [OF stateFor_wf [OF wf] st]
    by (simp add: Report_failure [OF assms(2)] reportFailureLocked_def openLocked_def Let_def)
  have "breaker_wf (Report b now now' r)" using wf assms(3) by (rule Report_wf)
  then have "fst (gate_run (\<lambda>b t. AllowProbe b t k) (Report b now now' r) ts) = replicate (length ts) False"
    using assms(4) by (intro conjunct1 [OF early_run]) (auto simp: s openLockedWithPolicy_def)
  then show ?thesis by (simp add: s openLockedWithPolicy_def)
qed

lemma half_open_failure_reopens_witness:
  "st_openUntil (key_state (Report example_half_open (40 * Second) (41 * Second)
     (example_result False 500 False)) example_key) = 71 * Second"
proof -
  have ho: "half_open example_key example_half_open"
    by (simp add: half_open_def example_wf example_states)
  have "ep_OpenDuration (open_policy (cb_options example_half_open) CircuitErrorServer) = 30 * Second"
    by code_simp
  with half_open_failure_reopens [OF ho example_outcomes(2), of "41 * Second" "[]" "40 * Second"]
  show ?thesis by (simp add: zero_time_def Second_def)
qed

text \<open>A closed circuit trips on a counted failure exactly when, counting this failure, the
  policy of its kind has enough failures of that kind and reaches its ratio, or, for a kind
  without a policy, the circuit has enough samples and its failure rate reaches the threshold.\<close>

lemma closed_circuit_trips_iff:
  assumes "st_state (key_state b k) = CircuitStateClosed" and "0 \<le> st_sampleCount (key_state b k)"
    and "counted_failure (cb_options b) k kind r"
  shows "st_state (key_state (Report b now now' r) k) = CircuitStateOpen \<longleftrightarrow>
    (let samples = st_sampleCount (key_state b k) + 1 in
     case map_of (co_ErrorPolicies (cb_options b)) kind of
       Some p \<Rightarrow> let failures = gcount (st_errorCounts (key_state b k)) kind + 1 in
         ep_MinSamples p \<le> failures \<and> ep_FailureThreshold p \<le> f64_div (f64_of_int failures) (f64_of_int samples)
     | None \<Rightarrow> co_MinSamples (cb_options b) \<le> samples \<and> co_FailureThreshold (cb_options b)
         \<le> f64_div (f64_of_int (st_failureCount (key_state b k) + 1)) (f64_of_int samples))"
proof -
  define s where "s = advanceLocked (cb_options b) (key_state b k) now"
  note adv = advance_closed [OF assms(1), of "cb_options b" now, folded s_def]
  have kind: "kind \<noteq> []" using assms(3) by (rule counted_kind)
  have "key_state (Report b now now' r) k = reportFailureLocked (cb_options b) s now' kind"
    by (simp add: Report_failure [OF assms(3)] s_def)
  then show ?thesis
    using kind adv assms(2)
    by (auto simp: reportFailureLocked_def Let_def count_failure_def incrementCircuitErrorCount_def
        circuitErrorPolicyOpen_def failureRate_def openLocked_def openLockedWithPolicy_def go_map_simps
        split: option.split)
qed

lemma closed_circuit_trips_iff_witness:
  "st_state (key_state (Report example_closed 0 0 (example_result False 500 False)) example_key) = CircuitStateOpen"
proof -
  have "co_ErrorPolicies (cb_options example_closed) = []" "co_MinSamples (cb_options example_closed) = 1"
    "co_FailureThreshold (cb_options example_closed) \<le> f64_div (f64_of_int 1) (f64_of_int 1)"
    "st_failureCount (key_state example_closed example_key) = 0"
    by code_simp+
  then show ?thesis
    using closed_circuit_trips_iff [OF example_states(4) _ example_outcomes(3), of 0 0]
    by (simp add: example_states)
qed

text \<open>A report changes the mode of a circuit only in the ways a circuit breaker may: a
  circuit becomes open only through a counted failure, it leaves the open and half-open modes for
  closed only through a success, it never jumps from closed to half open, and the circuits of all
  other keys are untouched.\<close>

lemma report_mode_discipline:
  "(st_state (key_state b k) \<noteq> CircuitStateOpen \<and> st_state (key_state (Report b now now' r) k) = CircuitStateOpen \<longrightarrow>
            \<not> ar_Success r \<and> snd (classifyFailure (cb_options b) r))
       \<and> (st_state (key_state b k) \<noteq> CircuitStateClosed \<and> st_state (key_state (Report b now now' r) k) = CircuitStateClosed \<longrightarrow>
            ar_Success r)
       \<and> (st_state (key_state b k) = CircuitStateClosed \<longrightarrow> st_state (key_state (Report b now now' r) k) \<noteq> CircuitStateHalfOpen)
       \<and> (normalizeRuntimeKey k \<noteq> normalizeRuntimeKey (RuntimeKey r) \<longrightarrow> key_state (Report b now now' r) k = key_state b k)"
proof (cases "ignored_result r \<or> normalizeRuntimeKey k \<noteq> normalizeRuntimeKey (RuntimeKey r)")
  case True
  then have "key_state (Report b now now' r) k = key_state b k"
    by (auto simp: Report_def Let_def split: prod.split)
  then show ?thesis by auto
next
  case False
  then have ni: "\<not> ignored_result r" and key: "normalizeRuntimeKey k = normalizeRuntimeKey (RuntimeKey r)"
    by auto
  define s where "s = advanceLocked (cb_options b) (key_state b k) now"
  obtain kind ok where c: "classifyFailure (cb_options b) r = (kind, ok)" by fastforce
  have s': "key_state (Report b now now' r) k = (if ar_Success r then reportSuccessLocked s
      else if \<not> ok then s else reportFailureLocked (cb_options b) s now' kind)"
    using ni key c by (simp add: Report_def s_def Let_def)
  have succ: "st_state (reportSuccessLocked s) \<in> {CircuitStateClosed, st_state s} - {CircuitStateOpen}"
    by (simp add: reportSuccessLocked_def resetCircuitState_def Let_def split: circuit_mode.split)
  have fail: "st_state (reportFailureLocked (cb_options b) s now' kind) \<in> {CircuitStateOpen, st_state s}
      \<and> st_state (reportFailureLocked (cb_options b) s now' kind) \<noteq> CircuitStateHalfOpen"
    by (simp add: reportFailureLocked_def openLocked_def openLockedWithPolicy_def Let_def
        split: circuit_mode.split option.split)
  have "(normalizeRuntimeKey k \<noteq> normalizeRuntimeKey (RuntimeKey r)) = False" using key by simp
  then show ?thesis
    using advance_mode [of "cb_options b" "key_state b k" now, folded s_def] succ fail
    unfolding s' c by (auto simp: c split: if_splits)
qed

lemma report_mode_discipline_witness:
  "st_state (key_state (Report example_closed 0 0 (example_result True 200 False)) example_key) \<noteq> CircuitStateHalfOpen"
  using report_mode_discipline [of example_closed example_key 0 0 "example_result True 200 False"]
  by (simp add: example_states)

text \<open>Merging a snapshot from another node never makes a circuit more permissive: the local
  mode (advanced to now) is kept unless the snapshot is at least as severe, a closed snapshot is
  never applied, and an applied snapshot determines the new state.\<close>

lemma apply_snapshot_monotone:
  "let b' = snd (applySnapshot b now snap);
       local = st_state (advanceLocked (cb_options b) (key_state b (cs_Key snap)) now)
   in circuitSeverity local \<le> circuitSeverity (st_state (key_state b' (cs_Key snap)))
    \<and> (fst (applySnapshot b now snap) =
         (0 < rk_ChannelID (cs_Key snap) \<and> cs_State snap \<noteq> CircuitStateClosed
          \<and> circuitSeverity local \<le> circuitSeverity (cs_State snap)))
    \<and> (if fst (applySnapshot b now snap)
       then key_state b' (cs_Key snap) = snapshot_state (cb_options b) (normalizeCircuitSnapshot snap)
       else st_state (key_state b' (cs_Key snap)) \<in> {local, st_state (key_state b (cs_Key snap))})"
proof -
  define s where "s = advanceLocked (cb_options b) (key_state b (cs_Key snap)) now"
  define key where "key = normalizeRuntimeKey (cs_Key snap)"
  define skip where "skip = (rk_ChannelID (cs_Key snap) \<le> 0 \<or> cs_State snap = CircuitStateClosed)"
  define low where "low = (circuitSeverity (cs_State snap) < circuitSeverity (st_state s))"
  have "(st_state s = CircuitStateOpen \<and> cs_State snap \<noteq> CircuitStateOpen \<or> low) = low"
    by (auto simp: low_def circuitSeverity_def split: circuit_mode.split)
  then have r: "applySnapshot b now snap =
      (if skip then (False, b) else if low then (False, store b key s)
       else (True, store b key (snapshot_state (cb_options b) (normalizeCircuitSnapshot snap))))"
    by (auto simp: applySnapshot_def skip_def low_def s_def key_def Let_def)
  have adv: "circuitSeverity (st_state s) \<le> circuitSeverity (st_state (key_state b (cs_Key snap)))"
    using advance_mode [of "cb_options b" "key_state b (cs_Key snap)" now] by (auto simp: s_def circuitSeverity_def)
  show ?thesis
    using adv
    by (auto simp: Let_def s_def [symmetric] r skip_def low_def key_def snapshot_state_def)
qed

text \<open>C36: A half-open circuit can lock itself: once its probe slots are taken and the probes end
  in results the breaker ignores (a client abort, an invalid request, an exhausted balance), no
  slot is ever given back and every later probe is refused, at any time.\<close>

theorem half_open_slots_leak:
  assumes "half_open k b" and "free_slots k b \<le> length taken"
    and "\<forall>(t, t', r) \<in> set outcomes. ignored_result r"
  shows "fst (gate_run (\<lambda>b t. AllowProbe b t k)
      (report_all (snd (gate_run (\<lambda>b t. AllowProbe b t k) b taken)) outcomes) later)
    = replicate (length later) False"
proof -
  define b1 where "b1 = snd (gate_run (\<lambda>b t. AllowProbe b t k) b taken)"
  have "half_open k b1" and "free_slots k b1 = 0"
    using half_open_gate.run_keeps [OF assms(1), of taken] assms(2) by (auto simp: b1_def)
  then have "fst (gate_run (\<lambda>b t. AllowProbe b t k) b1 later) = replicate (length later) False"
    by (simp add: half_open_gate.run_admits)
  then show ?thesis
    using assms(3) by (simp add: ignored_reports b1_def)
qed

theorem half_open_slots_leak_witness:
  "fst (gate_run (\<lambda>b t. AllowProbe b t example_key)
      (report_all (snd (gate_run (\<lambda>b t. AllowProbe b t example_key) example_half_open [0, 0]))
        [(0, 0, example_result False 0 True), (0, 0, example_result False 0 True)])
      [1000 * Second, 1000000 * Second]) = [False, False]"
  using half_open_slots_leak [of example_key example_half_open "[0, 0]"
      "[(0, 0, example_result False 0 True), (0, 0, example_result False 0 True)]"
      "[1000 * Second, 1000000 * Second]"]
  by (simp add: half_open_def example_wf example_states example_outcomes eval_nat_numeral
      del: gate_run.simps report_all.simps)

end
