(* ===== verification/Runtime_Identity.thy ===== *)
theory Runtime_Identity
  imports Gateway_Core
begin

text \<open>
  The identity of a channel candidate at account granularity
  (\<^verbatim>\<open>service/channel_runtime_identity.go\<close>), the request-scoped marks that keep a candidate from
  being chosen again (\<^verbatim>\<open>service/channel_concurrency.go\<close>, lines 240 to 396), and the key under
  which an account's concurrency is counted. The request context is a record with the values
  the code keeps in \<^verbatim>\<open>gin.Context\<close>; an absent list reads as the empty list, as every reader
  of the source treats it. A nil context, for which every operation returns at once, is no value
  of the model.
\<close>

section \<open>Identities\<close>

record runtime_identity =
  ri_ChannelID :: int
  ri_RequestedModel :: string
  ri_SelectedGroup :: string
  ri_EndpointType :: string
  ri_AccountID :: string
  ri_AccountType :: string
  ri_Brand :: string
  ri_Provider :: string
  ri_CredentialIndex :: int
  ri_CredentialIndexSet :: bool
  ri_CredentialSubjectFP :: string
  ri_CredentialFP :: string

definition ChannelOnlyRuntimeIdentity :: "int \<Rightarrow> runtime_identity" where
  "ChannelOnlyRuntimeIdentity channelID =
     \<lparr>ri_ChannelID = channelID, ri_RequestedModel = [], ri_SelectedGroup = [], ri_EndpointType = [],
      ri_AccountID = [], ri_AccountType = [], ri_Brand = [], ri_Provider = [], ri_CredentialIndex = 0,
      ri_CredentialIndexSet = False, ri_CredentialSubjectFP = [], ri_CredentialFP = []\<rparr>"

definition NormalizeChannelRuntimeIdentity :: "runtime_identity \<Rightarrow> runtime_identity" where
  "NormalizeChannelRuntimeIdentity i =
     (let endpointType = TrimSpace (ri_EndpointType i) in
      \<lparr>ri_ChannelID = ri_ChannelID i,
       ri_RequestedModel = TrimSpace (ri_RequestedModel i),
       ri_SelectedGroup = TrimSpace (ri_SelectedGroup i),
       ri_EndpointType = (if endpointType = [] then EndpointTypeOpenAI else endpointType),
       ri_AccountID = TrimSpace (ri_AccountID i),
       ri_AccountType = TrimSpace (ri_AccountType i),
       ri_Brand = TrimSpace (ri_Brand i),
       ri_Provider = TrimSpace (ri_Provider i),
       ri_CredentialIndex = (if ri_CredentialIndex i < 0 then 0 else ri_CredentialIndex i),
       ri_CredentialIndexSet = (if ri_CredentialIndex i < 0 then False else ri_CredentialIndexSet i),
       ri_CredentialSubjectFP = TrimSpace (ri_CredentialSubjectFP i),
       ri_CredentialFP = TrimSpace (ri_CredentialFP i)\<rparr>)"

abbreviation Normalize :: "runtime_identity \<Rightarrow> runtime_identity" where
  "Normalize \<equiv> NormalizeChannelRuntimeIdentity"

definition Valid :: "runtime_identity \<Rightarrow> bool" where
  "Valid i \<longleftrightarrow> ri_ChannelID (Normalize i) > 0"

definition HasAccountScope :: "runtime_identity \<Rightarrow> bool" where
  "HasAccountScope i =
     (let i = Normalize i in
      ri_AccountID i \<noteq> [] \<or> ri_CredentialSubjectFP i \<noteq> [] \<or> ri_CredentialFP i \<noteq> []
      \<or> ri_CredentialIndexSet i)"

definition ChannelScope :: "runtime_identity \<Rightarrow> runtime_identity" where
  "ChannelScope i = ChannelOnlyRuntimeIdentity (ri_ChannelID i)"

definition AccountScope :: "runtime_identity \<Rightarrow> runtime_identity" where
  "AccountScope i =
     (let i = Normalize i in
      if \<not> HasAccountScope i then ChannelScope i
      else i\<lparr>ri_RequestedModel := [], ri_SelectedGroup := [], ri_EndpointType := [],
             ri_AccountType := [], ri_Brand := [], ri_Provider := []\<rparr>)"

section \<open>The request context\<close>

record gin_context =
  gc_ChannelId :: int
  gc_original_model :: string
  gc_UsingGroup :: string
  gc_TokenGroup :: string
  gc_IsMultiKey :: bool
  gc_MultiKeyIndex :: int
  gc_SelectionReserved :: "int list"
  gc_SelectionSkipped :: "int list"
  gc_RuntimeSelectionSkipped :: "runtime_identity list"
  gc_RuntimeAttempted :: "runtime_identity list"
  gc_ConcurrencyLease :: "nat option"

definition ChannelRuntimeIdentityFromContext :: "gin_context \<Rightarrow> int \<Rightarrow> runtime_identity" where
  "ChannelRuntimeIdentityFromContext c channelID =
     (let i = ChannelOnlyRuntimeIdentity channelID;
          i = (if ri_ChannelID i \<le> 0 then i\<lparr>ri_ChannelID := gc_ChannelId c\<rparr> else i);
          i = i\<lparr>ri_RequestedModel := TrimSpace (gc_original_model c)\<rparr>;
          i = i\<lparr>ri_SelectedGroup := TrimSpace (gc_UsingGroup c)\<rparr>;
          i = (if ri_SelectedGroup i = [] then i\<lparr>ri_SelectedGroup := TrimSpace (gc_TokenGroup c)\<rparr> else i);
          i = (if gc_IsMultiKey c
               then i\<lparr>ri_CredentialIndex := gc_MultiKeyIndex c, ri_CredentialIndexSet := True\<rparr> else i)
      in Normalize i)"

section \<open>Skip and attempt marks\<close>

definition runtimeSelectionSkipMatches :: "runtime_identity \<Rightarrow> runtime_identity \<Rightarrow> bool" where
  "runtimeSelectionSkipMatches e i =
     (let existing = Normalize e; identity = Normalize i in
      if ri_ChannelID existing \<le> 0 \<or> ri_ChannelID identity \<le> 0
         \<or> ri_ChannelID existing \<noteq> ri_ChannelID identity then False
      else if \<not> HasAccountScope existing \<or> \<not> HasAccountScope identity then False
      else if ri_CredentialIndexSet existing \<and> ri_CredentialIndexSet identity
              \<and> ri_CredentialIndex existing = ri_CredentialIndex identity then True
      else if ri_AccountID existing \<noteq> [] \<and> ri_AccountID identity \<noteq> []
              \<and> ri_AccountID existing = ri_AccountID identity then True
      else if ri_CredentialSubjectFP existing \<noteq> [] \<and> ri_CredentialSubjectFP identity \<noteq> []
              \<and> ri_CredentialSubjectFP existing = ri_CredentialSubjectFP identity then True
      else if ri_CredentialFP existing \<noteq> [] \<and> ri_CredentialFP identity \<noteq> []
              \<and> ri_CredentialFP existing = ri_CredentialFP identity then True
      else AccountScope existing = AccountScope identity)"

definition runtimeAttemptMatches :: "runtime_identity \<Rightarrow> runtime_identity \<Rightarrow> bool" where
  "runtimeAttemptMatches e i =
     (let existing = Normalize e; identity = Normalize i in
      if ri_ChannelID existing \<le> 0 \<or> ri_ChannelID identity \<le> 0
         \<or> ri_ChannelID existing \<noteq> ri_ChannelID identity then False
      else if \<not> HasAccountScope existing \<or> \<not> HasAccountScope identity then True
      else runtimeSelectionSkipMatches existing identity)"

definition MarkChannelSelectionSkipped :: "gin_context \<Rightarrow> int \<Rightarrow> gin_context" where
  "MarkChannelSelectionSkipped c channelID =
     (if channelID \<le> 0 then c
      else if channelID \<in> set (gc_SelectionSkipped c) then c
      else c\<lparr>gc_SelectionSkipped := gc_SelectionSkipped c @ [channelID]\<rparr>)"

definition MarkChannelRuntimeSelectionSkipped :: "gin_context \<Rightarrow> runtime_identity \<Rightarrow> gin_context" where
  "MarkChannelRuntimeSelectionSkipped c i =
     (let identity = Normalize i in
      if \<not> Valid identity then c
      else if \<not> HasAccountScope identity then MarkChannelSelectionSkipped c (ri_ChannelID identity)
      else let identity = AccountScope identity in
        if list_ex (\<lambda>existing. runtimeSelectionSkipMatches existing identity) (gc_RuntimeSelectionSkipped c)
        then c
        else c\<lparr>gc_RuntimeSelectionSkipped := gc_RuntimeSelectionSkipped c @ [identity]\<rparr>)"

definition MarkChannelRuntimeAttempted :: "gin_context \<Rightarrow> runtime_identity \<Rightarrow> gin_context" where
  "MarkChannelRuntimeAttempted c i =
     (let identity = Normalize i in
      if \<not> Valid identity then c
      else let identity = (if HasAccountScope identity then AccountScope identity else ChannelScope identity) in
        if list_ex (\<lambda>existing. runtimeAttemptMatches existing identity) (gc_RuntimeAttempted c) then c
        else c\<lparr>gc_RuntimeAttempted := gc_RuntimeAttempted c @ [identity]\<rparr>)"

definition IsChannelSelectionSkipped :: "gin_context \<Rightarrow> int \<Rightarrow> bool" where
  "IsChannelSelectionSkipped c channelID =
     (if channelID \<le> 0 then False else channelID \<in> set (gc_SelectionSkipped c))"

definition IsChannelRuntimeAttempted :: "gin_context \<Rightarrow> runtime_identity \<Rightarrow> bool" where
  "IsChannelRuntimeAttempted c i =
     (let identity = Normalize i in
      if \<not> Valid identity then False
      else list_ex (\<lambda>existing. runtimeAttemptMatches existing identity) (gc_RuntimeAttempted c))"

definition IsChannelRuntimeSelectionSkipped :: "gin_context \<Rightarrow> runtime_identity \<Rightarrow> bool" where
  "IsChannelRuntimeSelectionSkipped c i =
     (let identity = Normalize i in
      if \<not> Valid identity then False
      else if IsChannelSelectionSkipped c (ri_ChannelID identity) then True
      else if \<not> HasAccountScope identity then False
      else list_ex (\<lambda>existing. runtimeSelectionSkipMatches existing identity) (gc_RuntimeSelectionSkipped c))"

section \<open>The concurrency scope of an account\<close>

definition ChannelRuntimeConcurrencyScopeKey :: "runtime_identity \<Rightarrow> string" where
  "ChannelRuntimeConcurrencyScopeKey i =
     (let identity = Normalize (AccountScope i) in
      if ri_ChannelID identity \<le> 0 \<or> \<not> HasAccountScope identity then []
      else Join
        ([''channel:'' @ Itoa (ri_ChannelID identity)]
         @ (if ri_AccountID identity \<noteq> [] then [''account:'' @ ri_AccountID identity] else [])
         @ (if ri_CredentialSubjectFP identity \<noteq> [] then [''subject:'' @ ri_CredentialSubjectFP identity] else [])
         @ (if ri_CredentialFP identity \<noteq> [] then [''credential:'' @ ri_CredentialFP identity] else [])
         @ (if ri_CredentialIndexSet identity then [''index:'' @ Itoa (ri_CredentialIndex identity)] else []))
        ''|'')"

section \<open>Normalisation\<close>

named_theorems identity_simps "fields of normalised and scoped identities"

lemma Normalize_fields [identity_simps, simp]:
  "ri_ChannelID (Normalize i) = ri_ChannelID i"
  "ri_AccountID (Normalize i) = TrimSpace (ri_AccountID i)"
  "ri_CredentialSubjectFP (Normalize i) = TrimSpace (ri_CredentialSubjectFP i)"
  "ri_CredentialFP (Normalize i) = TrimSpace (ri_CredentialFP i)"
  by (simp_all add: NormalizeChannelRuntimeIdentity_def Let_def)

lemma Normalize_idem [simp]: "Normalize (Normalize i) = Normalize i"
  by (simp add: NormalizeChannelRuntimeIdentity_def Let_def)

lemma Valid_iff [simp]: "Valid i \<longleftrightarrow> 0 < ri_ChannelID i"
  by (simp add: Valid_def)

lemma HasAccountScope_Normalize [simp]: "HasAccountScope (Normalize i) = HasAccountScope i"
  by (simp add: HasAccountScope_def)

lemma AccountScope_Normalize [simp]: "AccountScope (Normalize i) = AccountScope i"
  by (simp add: AccountScope_def Let_def)

lemma ChannelOnly_no_scope [simp]: "\<not> HasAccountScope (ChannelOnlyRuntimeIdentity c)"
  by (simp add: HasAccountScope_def NormalizeChannelRuntimeIdentity_def ChannelOnlyRuntimeIdentity_def Let_def)

lemma ChannelOnly_id [simp]: "ri_ChannelID (ChannelOnlyRuntimeIdentity c) = c"
  by (simp add: ChannelOnlyRuntimeIdentity_def)

text \<open>The account scope keeps exactly the fields that tell accounts of a channel apart.\<close>

lemma AccountScope_fields [identity_simps]:
  "ri_ChannelID (AccountScope i) = ri_ChannelID i"
  "HasAccountScope i \<Longrightarrow> ri_AccountID (AccountScope i) = TrimSpace (ri_AccountID i)"
  "HasAccountScope i \<Longrightarrow> ri_CredentialSubjectFP (AccountScope i) = TrimSpace (ri_CredentialSubjectFP i)"
  "HasAccountScope i \<Longrightarrow> ri_CredentialFP (AccountScope i) = TrimSpace (ri_CredentialFP i)"
  "HasAccountScope i \<Longrightarrow> ri_CredentialIndexSet (AccountScope i) = ri_CredentialIndexSet (Normalize i)"
  "HasAccountScope i \<Longrightarrow> ri_CredentialIndex (AccountScope i) = ri_CredentialIndex (Normalize i)"
  by (simp_all add: AccountScope_def ChannelScope_def ChannelOnlyRuntimeIdentity_def Let_def)

lemma Normalize_AccountScope_index:
  assumes "HasAccountScope i"
  shows "ri_CredentialIndexSet (Normalize (AccountScope i)) = ri_CredentialIndexSet (Normalize i)"
    and "ri_CredentialIndex (Normalize (AccountScope i)) = ri_CredentialIndex (Normalize i)"
proof -
  have "0 \<le> ri_CredentialIndex (Normalize i)"
    by (simp add: NormalizeChannelRuntimeIdentity_def Let_def)
  then show "ri_CredentialIndexSet (Normalize (AccountScope i)) = ri_CredentialIndexSet (Normalize i)"
    and "ri_CredentialIndex (Normalize (AccountScope i)) = ri_CredentialIndex (Normalize i)"
    using AccountScope_fields(5,6) [OF assms]
    by (simp_all add: NormalizeChannelRuntimeIdentity_def [of "AccountScope i"] Let_def)
qed

lemma HasAccountScope_AccountScope [simp]: "HasAccountScope (AccountScope i) = HasAccountScope i"
proof (cases "HasAccountScope i")
  case True
  then show ?thesis
    by (simp add: HasAccountScope_def [of "AccountScope i"] HasAccountScope_def [of i]
        AccountScope_fields Normalize_AccountScope_index Let_def)
next
  case False
  then show ?thesis by (simp add: AccountScope_def ChannelScope_def Let_def)
qed

lemma AccountScope_scoped:
  "HasAccountScope i \<Longrightarrow> AccountScope i =
     (Normalize i)\<lparr>ri_RequestedModel := [], ri_SelectedGroup := [], ri_EndpointType := [],
       ri_AccountType := [], ri_Brand := [], ri_Provider := []\<rparr>"
  by (simp add: AccountScope_def)

lemma AccountScope_unscoped: "\<not> HasAccountScope i \<Longrightarrow> AccountScope i = ChannelOnlyRuntimeIdentity (ri_ChannelID i)"
  by (simp add: AccountScope_def ChannelScope_def)

lemma AccountScope_idem [simp]: "AccountScope (AccountScope i) = AccountScope i"
proof (cases "HasAccountScope i")
  case True
  then have "AccountScope (AccountScope i) = (Normalize (AccountScope i))\<lparr>ri_RequestedModel := [],
      ri_SelectedGroup := [], ri_EndpointType := [], ri_AccountType := [], ri_Brand := [], ri_Provider := []\<rparr>"
    by (simp add: AccountScope_scoped [of "AccountScope i"])
  then show ?thesis
    by (simp add: AccountScope_scoped [OF True] NormalizeChannelRuntimeIdentity_def Let_def)
next
  case False
  then show ?thesis
    by (simp add: AccountScope_unscoped)
qed

section \<open>Marks\<close>

text \<open>
  The contract of a list of marks under a matching relation: a mark is recorded in its scoped
  form unless an existing mark matches it already.
\<close>

definition add_mark :: "('i \<Rightarrow> 'i \<Rightarrow> bool) \<Rightarrow> 'i \<Rightarrow> 'i list \<Rightarrow> 'i list" where
  "add_mark matches x xs = (if list_ex (\<lambda>e. matches e x) xs then xs else xs @ [x])"

locale mark_store =
  fixes matches :: "'i \<Rightarrow> 'i \<Rightarrow> bool" and scope :: "'i \<Rightarrow> 'i" and markable :: "'i \<Rightarrow> bool"
  assumes scope_right: "matches e (scope i) = matches e i"
    and scope_left: "matches (scope i) e = matches i e"
    and refl: "markable i \<Longrightarrow> matches i i"
begin

lemma marked: "markable i \<Longrightarrow> list_ex (\<lambda>e. matches e i) (add_mark matches (scope i) xs)"
  by (auto simp: add_mark_def scope_right scope_left refl)

lemma marks_kept: "list_ex (\<lambda>e. matches e j) xs \<Longrightarrow> list_ex (\<lambda>e. matches e j) (add_mark matches (scope i) xs)"
  by (auto simp: add_mark_def)

lemma marks_sound:
  "list_ex (\<lambda>e. matches e j) (add_mark matches (scope i) xs) \<Longrightarrow> list_ex (\<lambda>e. matches e j) xs \<or> matches i j"
  by (auto simp: add_mark_def scope_left split: if_splits)

lemma marks_idem: "markable i \<Longrightarrow> add_mark matches (scope i) (add_mark matches (scope i) xs) = add_mark matches (scope i) xs"
  using marked [of i xs] by (simp add: add_mark_def scope_right split: if_splits)

end

lemma skip_matches_iff:
  "runtimeSelectionSkipMatches e i \<longleftrightarrow>
     0 < ri_ChannelID e \<and> ri_ChannelID e = ri_ChannelID i \<and> HasAccountScope e \<and> HasAccountScope i
     \<and> (ri_CredentialIndexSet (Normalize e) \<and> ri_CredentialIndexSet (Normalize i)
           \<and> ri_CredentialIndex (Normalize e) = ri_CredentialIndex (Normalize i)
        \<or> TrimSpace (ri_AccountID e) \<noteq> [] \<and> TrimSpace (ri_AccountID e) = TrimSpace (ri_AccountID i)
        \<or> TrimSpace (ri_CredentialSubjectFP e) \<noteq> []
           \<and> TrimSpace (ri_CredentialSubjectFP e) = TrimSpace (ri_CredentialSubjectFP i)
        \<or> TrimSpace (ri_CredentialFP e) \<noteq> [] \<and> TrimSpace (ri_CredentialFP e) = TrimSpace (ri_CredentialFP i)
        \<or> AccountScope e = AccountScope i)"
  by (auto simp: runtimeSelectionSkipMatches_def Let_def)

lemma attempt_matches_iff:
  "runtimeAttemptMatches e i \<longleftrightarrow>
     0 < ri_ChannelID e \<and> ri_ChannelID e = ri_ChannelID i
     \<and> (HasAccountScope e \<and> HasAccountScope i \<longrightarrow> runtimeSelectionSkipMatches e i)"
  by (auto simp: runtimeAttemptMatches_def skip_matches_iff Let_def)

lemma skip_matches_scope:
  "runtimeSelectionSkipMatches (AccountScope e) i = runtimeSelectionSkipMatches e i"
  "runtimeSelectionSkipMatches e (AccountScope i) = runtimeSelectionSkipMatches e i"
  by (auto simp: skip_matches_iff AccountScope_fields Normalize_AccountScope_index)

lemma skip_matches_refl: "0 < ri_ChannelID i \<Longrightarrow> HasAccountScope i \<Longrightarrow> runtimeSelectionSkipMatches i i"
  by (simp add: skip_matches_iff)

lemma skip_matches_channel: "runtimeSelectionSkipMatches i j \<Longrightarrow> ri_ChannelID j = ri_ChannelID i"
  by (simp add: skip_matches_iff)

interpretation skip_marks: mark_store runtimeSelectionSkipMatches AccountScope
  "\<lambda>i. Valid i \<and> HasAccountScope i"
  by unfold_locales (simp_all add: skip_matches_scope skip_matches_refl)

interpretation attempt_marks: mark_store runtimeAttemptMatches AccountScope Valid
  by unfold_locales (simp_all add: attempt_matches_iff skip_matches_scope AccountScope_fields skip_matches_refl)

lemma list_ex_Normalize:
  "list_ex (\<lambda>e. runtimeSelectionSkipMatches e (Normalize i)) xs = list_ex (\<lambda>e. runtimeSelectionSkipMatches e i) xs"
  "list_ex (\<lambda>e. runtimeAttemptMatches e (Normalize i)) xs = list_ex (\<lambda>e. runtimeAttemptMatches e i) xs"
  by (simp_all add: skip_matches_iff attempt_matches_iff)

lemma MarkSkipped_scoped:
  "Valid i \<Longrightarrow> HasAccountScope i \<Longrightarrow> MarkChannelRuntimeSelectionSkipped c i =
     c\<lparr>gc_RuntimeSelectionSkipped :=
         add_mark runtimeSelectionSkipMatches (AccountScope i) (gc_RuntimeSelectionSkipped c)\<rparr>"
  by (simp add: MarkChannelRuntimeSelectionSkipped_def add_mark_def Let_def)

lemma MarkSkipped_unscoped:
  "Valid i \<Longrightarrow> \<not> HasAccountScope i \<Longrightarrow>
   MarkChannelRuntimeSelectionSkipped c i = MarkChannelSelectionSkipped c (ri_ChannelID i)"
  by (simp add: MarkChannelRuntimeSelectionSkipped_def Let_def)

lemma MarkSkipped_invalid: "\<not> Valid i \<Longrightarrow> MarkChannelRuntimeSelectionSkipped c i = c"
  by (simp add: MarkChannelRuntimeSelectionSkipped_def Let_def)

lemma MarkAttempted_eq:
  "Valid i \<Longrightarrow> MarkChannelRuntimeAttempted c i =
     c\<lparr>gc_RuntimeAttempted := add_mark runtimeAttemptMatches (AccountScope i) (gc_RuntimeAttempted c)\<rparr>"
  by (simp add: MarkChannelRuntimeAttempted_def add_mark_def ChannelScope_def AccountScope_unscoped
      del: AccountScope_Normalize) (auto simp: Let_def add_mark_def ChannelScope_def AccountScope_unscoped)

lemma IsSkipped_iff:
  "IsChannelRuntimeSelectionSkipped c i \<longleftrightarrow> Valid i \<and>
     (ri_ChannelID i \<in> set (gc_SelectionSkipped c)
      \<or> HasAccountScope i \<and> list_ex (\<lambda>e. runtimeSelectionSkipMatches e i) (gc_RuntimeSelectionSkipped c))"
  by (auto simp: IsChannelRuntimeSelectionSkipped_def IsChannelSelectionSkipped_def list_ex_Normalize Let_def)

lemma IsAttempted_iff:
  "IsChannelRuntimeAttempted c i \<longleftrightarrow>
     Valid i \<and> list_ex (\<lambda>e. runtimeAttemptMatches e i) (gc_RuntimeAttempted c)"
  by (auto simp: IsChannelRuntimeAttempted_def list_ex_Normalize Let_def)

section \<open>Scope keys\<close>

definition scope_parts :: "runtime_identity \<Rightarrow> string list" where
  "scope_parts i =
     [''channel:'' @ Itoa (ri_ChannelID i)]
     @ (if TrimSpace (ri_AccountID i) \<noteq> [] then [''account:'' @ TrimSpace (ri_AccountID i)] else [])
     @ (if TrimSpace (ri_CredentialSubjectFP i) \<noteq> [] then [''subject:'' @ TrimSpace (ri_CredentialSubjectFP i)] else [])
     @ (if TrimSpace (ri_CredentialFP i) \<noteq> [] then [''credential:'' @ TrimSpace (ri_CredentialFP i)] else [])
     @ (if ri_CredentialIndexSet (Normalize i) then [''index:'' @ Itoa (ri_CredentialIndex (Normalize i))] else [])"

lemma scope_key_eq:
  "ChannelRuntimeConcurrencyScopeKey i =
     (if 0 < ri_ChannelID i \<and> HasAccountScope i then Join (scope_parts i) ''|'' else [])"
proof (cases "HasAccountScope i")
  case True
  then show ?thesis
    by (simp add: ChannelRuntimeConcurrencyScopeKey_def Let_def AccountScope_fields
        Normalize_AccountScope_index scope_parts_def)
next
  case False
  then show ?thesis by (simp add: ChannelRuntimeConcurrencyScopeKey_def Let_def)
qed

lemma scope_key_nonempty:
  "ChannelRuntimeConcurrencyScopeKey i \<noteq> [] \<longleftrightarrow> 0 < ri_ChannelID i \<and> HasAccountScope i"
proof -
  have "Join (scope_parts i) ''|'' \<noteq> []"
  proof (cases "tl (scope_parts i) = []")
    case False
    then show ?thesis by (simp add: scope_parts_def Join_Cons)
  qed (simp add: scope_parts_def)
  then show ?thesis by (simp add: scope_key_eq)
qed

definition no_separator :: "runtime_identity \<Rightarrow> bool" where
  "no_separator i \<longleftrightarrow> CHR ''|'' \<notin> set (ri_AccountID i) \<union> set (ri_CredentialSubjectFP i) \<union> set (ri_CredentialFP i)"

lemma Itoa_no_separator: "CHR ''|'' \<notin> set (Itoa n)"
  using Itoa_bytes [of "CHR ''|''" n] by auto

lemma scope_parts_no_separator: "no_separator i \<Longrightarrow> \<forall>p \<in> set (scope_parts i). CHR ''|'' \<notin> set p"
  using TrimSpace_subset [of "ri_AccountID i"] TrimSpace_subset [of "ri_CredentialSubjectFP i"]
    TrimSpace_subset [of "ri_CredentialFP i"]
  by (auto simp: scope_parts_def no_separator_def Itoa_no_separator)

definition same_account :: "runtime_identity \<Rightarrow> runtime_identity \<Rightarrow> bool" where
  "same_account i j \<longleftrightarrow>
     ri_ChannelID i = ri_ChannelID j
     \<and> TrimSpace (ri_AccountID i) = TrimSpace (ri_AccountID j)
     \<and> TrimSpace (ri_CredentialSubjectFP i) = TrimSpace (ri_CredentialSubjectFP j)
     \<and> TrimSpace (ri_CredentialFP i) = TrimSpace (ri_CredentialFP j)
     \<and> ri_CredentialIndexSet (Normalize i) = ri_CredentialIndexSet (Normalize j)
     \<and> (ri_CredentialIndexSet (Normalize i) \<longrightarrow>
          ri_CredentialIndex (Normalize i) = ri_CredentialIndex (Normalize j))"

lemma tagged_part_inj:
  assumes "scope_parts i = scope_parts j"
  shows "same_account i j"
proof -
  define tag where "tag = (\<lambda>t parts. find (\<lambda>p. starts_with p t) (parts :: string list))"
  have t: "tag t (scope_parts i) = tag t (scope_parts j)" for t by (simp add: assms)
  show ?thesis
    using t [of "''channel:''"] t [of "''account:''"] t [of "''subject:''"] t [of "''credential:''"]
      t [of "''index:''"]
    by (simp add: tag_def scope_parts_def starts_with_def same_account_def Itoa_inj split: if_splits)
qed

section \<open>Properties\<close>

definition example_identity :: "int \<Rightarrow> string \<Rightarrow> runtime_identity" where
  "example_identity channel account = (ChannelOnlyRuntimeIdentity channel)\<lparr>ri_AccountID := account\<rparr>"

definition empty_context :: gin_context where
  "empty_context = \<lparr>gc_ChannelId = 0, gc_original_model = [], gc_UsingGroup = [], gc_TokenGroup = [],
     gc_IsMultiKey = False, gc_MultiKeyIndex = 0, gc_SelectionReserved = [], gc_SelectionSkipped = [],
     gc_RuntimeSelectionSkipped = [], gc_RuntimeAttempted = [],
     gc_ConcurrencyLease = None\<rparr>"

text \<open>Marking a candidate as skipped keeps it out of every later selection of the request and
  nothing else is un-skipped; the only candidates newly skipped are those of the same channel
  that match the mark (all of the channel when the mark names no account); and marking again
  changes nothing.\<close>

lemma skip_marks_exact:
  "(Valid i \<longrightarrow> IsChannelRuntimeSelectionSkipped (MarkChannelRuntimeSelectionSkipped c i) i)
   \<and> (IsChannelRuntimeSelectionSkipped c j \<longrightarrow>
        IsChannelRuntimeSelectionSkipped (MarkChannelRuntimeSelectionSkipped c i) j)
   \<and> (IsChannelRuntimeSelectionSkipped (MarkChannelRuntimeSelectionSkipped c i) j \<longrightarrow>
        IsChannelRuntimeSelectionSkipped c j
        \<or> ri_ChannelID j = ri_ChannelID i \<and> (HasAccountScope i \<longrightarrow> runtimeSelectionSkipMatches i j))
   \<and> MarkChannelRuntimeSelectionSkipped (MarkChannelRuntimeSelectionSkipped c i) i
      = MarkChannelRuntimeSelectionSkipped c i"
proof (cases "Valid i \<and> HasAccountScope i")
  case True
  then have v: "Valid i" "HasAccountScope i" by auto
  show ?thesis
    using skip_marks.marked [OF True] skip_marks.marks_idem [OF True]
      skip_marks.marks_kept [of j "gc_RuntimeSelectionSkipped c" i]
      skip_marks.marks_sound [of j i "gc_RuntimeSelectionSkipped c"] skip_matches_channel [of i j] v
    by (simp add: IsSkipped_iff MarkSkipped_scoped [OF v]) blast
next
  case False
  then show ?thesis
    by (cases "Valid i") (auto simp: IsSkipped_iff MarkSkipped_unscoped MarkSkipped_invalid
        MarkChannelSelectionSkipped_def)
qed

lemma skip_marks_exact_witness:
  "IsChannelRuntimeSelectionSkipped
     (MarkChannelRuntimeSelectionSkipped empty_context (example_identity 7 ''a'')) (example_identity 7 ''a'')
   \<and> \<not> IsChannelRuntimeSelectionSkipped
     (MarkChannelRuntimeSelectionSkipped empty_context (example_identity 7 ''a'')) (example_identity 7 ''b'')"
proof
  show "IsChannelRuntimeSelectionSkipped
     (MarkChannelRuntimeSelectionSkipped empty_context (example_identity 7 ''a'')) (example_identity 7 ''a'')"
    using skip_marks_exact [of "example_identity 7 ''a''" empty_context] by (simp add: example_identity_def)
  have "\<not> IsChannelRuntimeSelectionSkipped empty_context (example_identity 7 ''b'')"
    "HasAccountScope (example_identity 7 ''a'')"
    "\<not> runtimeSelectionSkipMatches (example_identity 7 ''a'') (example_identity 7 ''b'')"
    by code_simp+
  then show "\<not> IsChannelRuntimeSelectionSkipped
     (MarkChannelRuntimeSelectionSkipped empty_context (example_identity 7 ''a'')) (example_identity 7 ''b'')"
    using skip_marks_exact [of "example_identity 7 ''a''" empty_context "example_identity 7 ''b''"] by blast
qed

text \<open>The same holds for the marks of attempted candidates, where a mark without an account
  covers every account of its channel and every account covers a query for the whole channel.\<close>

lemma attempt_marks_exact:
  "(Valid i \<longrightarrow> IsChannelRuntimeAttempted (MarkChannelRuntimeAttempted c i) i)
   \<and> (IsChannelRuntimeAttempted c j \<longrightarrow> IsChannelRuntimeAttempted (MarkChannelRuntimeAttempted c i) j)
   \<and> (IsChannelRuntimeAttempted (MarkChannelRuntimeAttempted c i) j \<longrightarrow>
        IsChannelRuntimeAttempted c j \<or> Valid i \<and> runtimeAttemptMatches i j)
   \<and> MarkChannelRuntimeAttempted (MarkChannelRuntimeAttempted c i) i = MarkChannelRuntimeAttempted c i"
proof (cases "Valid i")
  case True
  then show ?thesis
    using attempt_marks.marked [OF True] attempt_marks.marks_idem [OF True]
      attempt_marks.marks_kept [of j "gc_RuntimeAttempted c" i]
      attempt_marks.marks_sound [of j i "gc_RuntimeAttempted c"]
    by (auto simp: IsAttempted_iff MarkAttempted_eq [OF True])
qed (simp add: MarkChannelRuntimeAttempted_def Let_def)

lemma attempt_marks_exact_witness:
  "IsChannelRuntimeAttempted (MarkChannelRuntimeAttempted empty_context (example_identity 7 ''a''))
     (example_identity 7 ''a'')"
  using attempt_marks_exact [of "example_identity 7 ''a''" empty_context] by (simp add: example_identity_def)

text \<open>The concurrency scope key separates accounts: two identities whose names and
  fingerprints do not contain the separator share a key exactly when they agree on the channel,
  the account, both fingerprints and the credential index; and a key exists exactly for the
  identities of a real channel that name an account.\<close>

lemma scope_key_separates_accounts:
  assumes "no_separator i" and "no_separator j"
  shows "(ChannelRuntimeConcurrencyScopeKey i \<noteq> [] \<longleftrightarrow> 0 < ri_ChannelID i \<and> HasAccountScope i)
    \<and> (ChannelRuntimeConcurrencyScopeKey i \<noteq> [] \<longrightarrow> ChannelRuntimeConcurrencyScopeKey j \<noteq> [] \<longrightarrow>
         (ChannelRuntimeConcurrencyScopeKey i = ChannelRuntimeConcurrencyScopeKey j \<longleftrightarrow> same_account i j))"
proof (intro conjI impI scope_key_nonempty)
  assume "ChannelRuntimeConcurrencyScopeKey i \<noteq> []" "ChannelRuntimeConcurrencyScopeKey j \<noteq> []"
  then have k: "ChannelRuntimeConcurrencyScopeKey i = Join (scope_parts i) ''|''"
    "ChannelRuntimeConcurrencyScopeKey j = Join (scope_parts j) ''|''"
    by (simp_all add: scope_key_eq split: if_splits)
  have "Join (scope_parts i) ''|'' = Join (scope_parts j) ''|'' \<Longrightarrow> scope_parts i = scope_parts j"
    using assms by (intro Join_inj [where c = "CHR ''|''"] scope_parts_no_separator) (simp_all add: scope_parts_def)
  moreover have "same_account i j \<Longrightarrow> scope_parts i = scope_parts j"
    by (auto simp: same_account_def scope_parts_def)
  ultimately show "ChannelRuntimeConcurrencyScopeKey i = ChannelRuntimeConcurrencyScopeKey j \<longleftrightarrow> same_account i j"
    using tagged_part_inj k by metis
qed

lemma scope_key_separates_accounts_witness:
  "ChannelRuntimeConcurrencyScopeKey (example_identity 7 ''a'') \<noteq> ChannelRuntimeConcurrencyScopeKey (example_identity 7 ''b'')"
proof -
  have "no_separator (example_identity 7 ''a'')" "no_separator (example_identity 7 ''b'')"
    "HasAccountScope (example_identity 7 ''a'')" "HasAccountScope (example_identity 7 ''b'')"
    "\<not> same_account (example_identity 7 ''a'') (example_identity 7 ''b'')"
    by code_simp+
  then show ?thesis
    using scope_key_separates_accounts [of "example_identity 7 ''a''" "example_identity 7 ''b''"]
      scope_key_nonempty [of "example_identity 7 ''b''"]
    by (simp add: example_identity_def)
qed

end
