(* ===== verification/Channel_Concurrency.thy ===== *)
theory Channel_Concurrency
  imports Runtime_Identity
begin

text \<open>
  The concurrency limits of channels and accounts (\<^verbatim>\<open>service/channel_concurrency.go\<close>): counters
  of running requests per channel and per account, leases that hold one or two of them, and the
  reservations a request takes on a channel between its selection and its acquisition.

  The three \<^verbatim>\<open>sync.Map\<close>s of the source are the three maps of \<open>concurrency_state\<close>. Their entries
  are created once and never removed while the program runs, so the pointer to a counter that a
  lease holds is the name of the entry (\<open>counter_ref\<close>). The body of \<^verbatim>\<open>TryAcquireChannelConcurrency\<close>,
  \<^verbatim>\<open>TrackChannelConcurrency\<close> and \<^verbatim>\<open>reserveChannelSelection\<close> runs under the locks of all the
  counters it touches and is atomic; \<^verbatim>\<open>Release\<close> takes the locks one after the other, which the
  step relation below makes visible.
\<close>

section \<open>Data\<close>

datatype counter_ref = ChannelCounter int | AccountCounter string

record concurrency_state =
  cc_channel :: "(int, int) gomap"
  cc_account :: "(string, int) gomap"
  cc_reservation :: "(int, int) gomap"

record channel_settings =
  se_MaxConcurrency :: int
  se_AccountMaxConcurrency :: int
  se_AccountConcurrencyKey :: string

record concurrency_lease =
  ls_ChannelID :: int
  ls_Limit :: int
  ls_ScopeKey :: string
  ls_activeAtHit :: int
  ls_counter :: "counter_ref option"
  ls_accountHeld :: "counter_ref option"
  ls_channelHeld :: "counter_ref option"
  ls_released :: bool

definition empty_lease :: "int \<Rightarrow> int \<Rightarrow> concurrency_lease" where
  "empty_lease channelID limit =
     \<lparr>ls_ChannelID = channelID, ls_Limit = limit, ls_ScopeKey = [], ls_activeAtHit = 0,
      ls_counter = None, ls_accountHeld = None, ls_channelHeld = None, ls_released = False\<rparr>"

section \<open>Counters\<close>

definition load_or_store :: "'k \<Rightarrow> ('k, int) gomap \<Rightarrow> ('k, int) gomap" where
  "load_or_store k m = (case map_of m k of Some _ \<Rightarrow> m | None \<Rightarrow> gput k 0 m)"

definition getChannelConcurrencyCounter :: "concurrency_state \<Rightarrow> int \<Rightarrow> concurrency_state" where
  "getChannelConcurrencyCounter st channelID = st\<lparr>cc_channel := load_or_store channelID (cc_channel st)\<rparr>"

definition getAccountConcurrencyCounter :: "concurrency_state \<Rightarrow> string \<Rightarrow> concurrency_state" where
  "getAccountConcurrencyCounter st scopeKey = st\<lparr>cc_account := load_or_store scopeKey (cc_account st)\<rparr>"

definition getChannelSelectionReservationCounter :: "concurrency_state \<Rightarrow> int \<Rightarrow> concurrency_state" where
  "getChannelSelectionReservationCounter st channelID =
     st\<lparr>cc_reservation := load_or_store channelID (cc_reservation st)\<rparr>"

fun active :: "concurrency_state \<Rightarrow> counter_ref \<Rightarrow> int" where
  "active st (ChannelCounter c) = gcount (cc_channel st) c"
| "active st (AccountCounter a) = gcount (cc_account st) a"

fun set_active :: "concurrency_state \<Rightarrow> counter_ref \<Rightarrow> int \<Rightarrow> concurrency_state" where
  "set_active st (ChannelCounter c) n = st\<lparr>cc_channel := gput c n (cc_channel st)\<rparr>"
| "set_active st (AccountCounter a) n = st\<lparr>cc_account := gput a n (cc_account st)\<rparr>"

definition inc :: "concurrency_state \<Rightarrow> counter_ref \<Rightarrow> concurrency_state" where
  "inc st r = set_active st r (active st r + 1)"

definition dec :: "concurrency_state \<Rightarrow> counter_ref \<Rightarrow> concurrency_state" where
  "dec st r = (if active st r > 0 then set_active st r (active st r - 1) else st)"

definition GetChannelActiveConcurrency :: "concurrency_state \<Rightarrow> int \<Rightarrow> int" where
  "GetChannelActiveConcurrency st channelID =
     (if channelID \<le> 0 then 0
      else case map_of (cc_channel st) channelID of None \<Rightarrow> 0 | Some n \<Rightarrow> n)"

definition GetChannelSelectionReservations :: "concurrency_state \<Rightarrow> int \<Rightarrow> int" where
  "GetChannelSelectionReservations st channelID =
     (if channelID \<le> 0 then 0
      else case map_of (cc_reservation st) channelID of None \<Rightarrow> 0 | Some n \<Rightarrow> n)"

definition GetChannelEffectiveActiveConcurrency :: "concurrency_state \<Rightarrow> int \<Rightarrow> int" where
  "GetChannelEffectiveActiveConcurrency st channelID =
     GetChannelActiveConcurrency st channelID + GetChannelSelectionReservations st channelID"

definition GetChannelRuntimeActiveConcurrency :: "concurrency_state \<Rightarrow> runtime_identity \<Rightarrow> int" where
  "GetChannelRuntimeActiveConcurrency st i =
     (let scopeKey = ChannelRuntimeConcurrencyScopeKey i in
      if scopeKey = [] then GetChannelActiveConcurrency st (ri_ChannelID i)
      else case map_of (cc_account st) scopeKey of None \<Rightarrow> 0 | Some n \<Rightarrow> n)"

definition GetChannelRuntimeEffectiveActiveConcurrency :: "concurrency_state \<Rightarrow> runtime_identity \<Rightarrow> int" where
  "GetChannelRuntimeEffectiveActiveConcurrency st i =
     (let scopeKey = ChannelRuntimeConcurrencyScopeKey i in
      if scopeKey = [] then GetChannelEffectiveActiveConcurrency st (ri_ChannelID i)
      else GetChannelRuntimeActiveConcurrency st i)"

definition IsChannelConcurrencyFull :: "concurrency_state \<Rightarrow> int \<Rightarrow> channel_settings \<Rightarrow> bool" where
  "IsChannelConcurrencyFull st channelID setting =
     (if se_AccountMaxConcurrency setting > 0 \<and> TrimSpace (se_AccountConcurrencyKey setting) \<noteq> []
         \<and> (case map_of (cc_account st) (TrimSpace (se_AccountConcurrencyKey setting)) of
              None \<Rightarrow> False | Some n \<Rightarrow> n \<ge> se_AccountMaxConcurrency setting) then True
      else let limit = se_MaxConcurrency setting in
        if channelID \<le> 0 \<or> limit \<le> 0 then False
        else GetChannelEffectiveActiveConcurrency st channelID \<ge> limit)"

section \<open>Leases\<close>

definition TryAcquireChannelConcurrency ::
  "concurrency_state \<Rightarrow> int \<Rightarrow> channel_settings \<Rightarrow> concurrency_lease \<times> bool \<times> concurrency_state" where
  "TryAcquireChannelConcurrency st channelID setting =
     (let channelLimit = se_MaxConcurrency setting;
          accountLimit = se_AccountMaxConcurrency setting;
          accountScopeKey = TrimSpace (se_AccountConcurrencyKey setting)
      in if channelID \<le> 0 then (empty_lease channelID channelLimit, True, st)
      else let st = getChannelConcurrencyCounter st channelID;
               channelCounter = ChannelCounter channelID
      in if channelLimit > 0 \<and> active st channelCounter \<ge> channelLimit then
           ((empty_lease channelID channelLimit)\<lparr>ls_activeAtHit := active st channelCounter,
              ls_counter := Some channelCounter\<rparr>, False, st)
      else if accountLimit > 0 \<and> accountScopeKey \<noteq> [] then
        (let st = getAccountConcurrencyCounter st accountScopeKey;
             accountCounter = AccountCounter accountScopeKey
         in if active st accountCounter \<ge> accountLimit then
              ((empty_lease channelID accountLimit)\<lparr>ls_ScopeKey := accountScopeKey,
                 ls_activeAtHit := active st accountCounter, ls_counter := Some accountCounter\<rparr>, False, st)
            else let st = inc st accountCounter;
                     accountActive = active st accountCounter;
                     st = inc st channelCounter
                 in ((empty_lease channelID accountLimit)\<lparr>ls_ScopeKey := accountScopeKey,
                       ls_activeAtHit := accountActive, ls_counter := Some accountCounter,
                       ls_accountHeld := Some accountCounter, ls_channelHeld := Some channelCounter\<rparr>,
                     True, st))
      else let st = inc st channelCounter
           in ((empty_lease channelID channelLimit)\<lparr>ls_activeAtHit := active st channelCounter,
                 ls_counter := Some channelCounter, ls_channelHeld := Some channelCounter\<rparr>, True, st))"

definition TrackChannelConcurrency ::
  "concurrency_state \<Rightarrow> int \<Rightarrow> channel_settings \<Rightarrow> concurrency_lease \<times> concurrency_state" where
  "TrackChannelConcurrency st channelID setting =
     (let limit = se_MaxConcurrency setting in
      if channelID \<le> 0 then (empty_lease channelID limit, st)
      else let accountLimit = se_AccountMaxConcurrency setting;
               accountScopeKey = TrimSpace (se_AccountConcurrencyKey setting);
               st = getChannelConcurrencyCounter st channelID;
               counter = ChannelCounter channelID
      in if accountLimit > 0 \<and> accountScopeKey \<noteq> [] then
           (let st = getAccountConcurrencyCounter st accountScopeKey;
                accountCounter = AccountCounter accountScopeKey;
                st = inc st accountCounter;
                accountActive = active st accountCounter;
                st = inc st counter
            in ((empty_lease channelID accountLimit)\<lparr>ls_ScopeKey := accountScopeKey,
                  ls_activeAtHit := accountActive, ls_counter := Some accountCounter,
                  ls_accountHeld := Some accountCounter, ls_channelHeld := Some counter\<rparr>, st))
         else let st = inc st counter
              in ((empty_lease channelID limit)\<lparr>ls_activeAtHit := active st counter,
                    ls_counter := Some counter, ls_channelHeld := Some counter\<rparr>, st))"

text \<open>The counters that the body of \<^verbatim>\<open>releaseOnce.Do\<close> visits, in order.\<close>

definition release_counters :: "concurrency_lease \<Rightarrow> counter_ref list" where
  "release_counters lease =
     (case ls_channelHeld lease of None \<Rightarrow> [] | Some r \<Rightarrow> [r])
     @ (case ls_accountHeld lease of None \<Rightarrow> [] | Some r \<Rightarrow> [r])
     @ (if ls_accountHeld lease = None \<and> ls_channelHeld lease = None
        then case ls_counter lease of None \<Rightarrow> [] | Some r \<Rightarrow> [r] else [])"

definition Release :: "concurrency_state \<Rightarrow> concurrency_lease \<Rightarrow> concurrency_lease \<times> concurrency_state" where
  "Release st lease =
     (if ls_released lease then (lease, st)
      else (lease\<lparr>ls_released := True\<rparr>, foldl dec st (release_counters lease)))"

text \<open>The lease bound to a request context: the argument is the context's entry.\<close>

definition BindChannelConcurrencyLease ::
  "concurrency_lease option \<Rightarrow> concurrency_lease option \<Rightarrow> concurrency_lease option" where
  "BindChannelConcurrencyLease bound lease = (case lease of None \<Rightarrow> bound | Some l \<Rightarrow> Some l)"

definition ReleaseChannelConcurrencyLease ::
  "concurrency_state \<Rightarrow> concurrency_lease option \<Rightarrow> concurrency_lease option \<times> concurrency_state" where
  "ReleaseChannelConcurrencyLease st bound =
     (case bound of
        None \<Rightarrow> (None, st)
      | Some lease \<Rightarrow> (case Release st lease of (lease, st) \<Rightarrow> (Some lease, st)))"

definition ActiveAtHit :: "concurrency_lease \<Rightarrow> int" where
  "ActiveAtHit lease = ls_activeAtHit lease"

definition CurrentActive :: "concurrency_state \<Rightarrow> concurrency_lease \<Rightarrow> int" where
  "CurrentActive st lease =
     (case ls_counter lease of None \<Rightarrow> ls_activeAtHit lease | Some r \<Rightarrow> active st r)"

section \<open>Reservations\<close>

definition reserveChannelSelection ::
  "concurrency_state \<Rightarrow> gin_context \<Rightarrow> int \<Rightarrow> int \<Rightarrow> bool \<times> concurrency_state \<times> gin_context" where
  "reserveChannelSelection st ctx channelID effectiveLimit =
     (if channelID \<le> 0 then (False, st, ctx)
      else let st = getChannelConcurrencyCounter st channelID;
               st = getChannelSelectionReservationCounter st channelID
      in if effectiveLimit > 0
            \<and> gcount (cc_channel st) channelID + gcount (cc_reservation st) channelID \<ge> effectiveLimit
         then (False, st, ctx)
         else (True, st\<lparr>cc_reservation := ginc channelID (cc_reservation st)\<rparr>,
               ctx\<lparr>gc_SelectionReserved := gc_SelectionReserved ctx @ [channelID]\<rparr>))"

definition ReserveChannelSelectionWithLimit ::
  "concurrency_state \<Rightarrow> gin_context \<Rightarrow> int \<Rightarrow> channel_settings \<Rightarrow> int
   \<Rightarrow> bool \<times> concurrency_state \<times> gin_context" where
  "ReserveChannelSelectionWithLimit st ctx channelID setting reservationLimit =
     (if channelID \<le> 0 then (False, st, ctx)
      else let limit = se_MaxConcurrency setting;
               effectiveLimit = (if reservationLimit > 0 \<and> (limit \<le> 0 \<or> reservationLimit < limit)
                                 then reservationLimit else limit)
           in reserveChannelSelection st ctx channelID effectiveLimit)"

definition ReserveChannelSelection ::
  "concurrency_state \<Rightarrow> gin_context \<Rightarrow> int \<Rightarrow> channel_settings \<Rightarrow> bool \<times> concurrency_state \<times> gin_context" where
  "ReserveChannelSelection st ctx channelID setting =
     ReserveChannelSelectionWithLimit st ctx channelID setting 0"

definition ReserveChannelSelectionRouting ::
  "concurrency_state \<Rightarrow> gin_context \<Rightarrow> int \<Rightarrow> bool \<times> concurrency_state \<times> gin_context" where
  "ReserveChannelSelectionRouting st ctx channelID = reserveChannelSelection st ctx channelID 0"

definition ReleaseChannelSelectionReservation ::
  "concurrency_state \<Rightarrow> gin_context \<Rightarrow> int \<Rightarrow> concurrency_state \<times> gin_context" where
  "ReleaseChannelSelectionReservation st ctx channelID =
     (if channelID \<le> 0 then (st, ctx)
      else ((case map_of (cc_reservation st) channelID of
               None \<Rightarrow> st
             | Some n \<Rightarrow> if n > 0 then st\<lparr>cc_reservation := gput channelID (n - 1) (cc_reservation st)\<rparr> else st),
            ctx\<lparr>gc_SelectionReserved := remove1 channelID (gc_SelectionReserved ctx)\<rparr>))"

text \<open>The loop of \<^verbatim>\<open>ReleaseChannelSelectionReservations\<close>; it need not end, so its result is an option.\<close>

partial_function (option) ReleaseChannelSelectionReservations ::
  "concurrency_state \<Rightarrow> gin_context \<Rightarrow> (concurrency_state \<times> gin_context) option" where
  "ReleaseChannelSelectionReservations st ctx =
     (if gc_SelectionReserved ctx = [] then Some (st, ctx)
      else ReleaseChannelSelectionReservations
        (fst (ReleaseChannelSelectionReservation st ctx (last (gc_SelectionReserved ctx))))
        (snd (ReleaseChannelSelectionReservation st ctx (last (gc_SelectionReserved ctx)))))"

declare ReleaseChannelSelectionReservations.simps [code]

declare active.simps [simp del] set_active.simps [simp del]

end
