(* ===== verification/Concurrency_Properties.thy ===== *)
theory Concurrency_Properties
  imports Channel_Concurrency
begin

text \<open>
  What the concurrency accounting guarantees: the exact condition and effect of an acquisition,
  that over every interleaving of acquisitions and releases a counter equals the number of leases
  that hold it, that it never passes its limit, that releasing is exact and happens once, and
  that the reservations of a request are all returned when the request ends.
\<close>

section \<open>Reading counters\<close>

named_theorems counter_simps "counters after an elementary update"

lemma gcount_load [counter_simps, simp]: "gcount (load_or_store k m) j = gcount m j"
  by (auto simp: load_or_store_def gcount_def go_map_simps split: option.split)

lemma active_get [counter_simps, simp]:
  "active (getChannelConcurrencyCounter st c) r = active st r"
  "active (getAccountConcurrencyCounter st a) r = active st r"
  "active (getChannelSelectionReservationCounter st c) r = active st r"
  by (cases r; simp add: getChannelConcurrencyCounter_def getAccountConcurrencyCounter_def
      getChannelSelectionReservationCounter_def active.simps)+

lemma active_set [counter_simps, simp]:
  "active (set_active st r n) q = (if q = r then n else active st q)"
  by (cases r; cases q) (auto simp: active.simps set_active.simps go_map_simps)

lemma active_inc [counter_simps]: "active (inc st r) q = active st q + (if q = r then 1 else 0)"
  by (simp add: inc_def)

lemma active_dec [counter_simps]:
  "active (dec st r) q = active st q - (if q = r \<and> 0 < active st r then 1 else 0)"
  by (simp add: dec_def)

lemma reservation_unchanged [counter_simps, simp]:
  "cc_reservation (set_active st r n) = cc_reservation st"
  "cc_reservation (inc st r) = cc_reservation st"
  "cc_reservation (dec st r) = cc_reservation st"
  "cc_reservation (getChannelConcurrencyCounter st c) = cc_reservation st"
  "cc_reservation (getAccountConcurrencyCounter st a) = cc_reservation st"
  by (cases r; simp add: inc_def dec_def set_active.simps getChannelConcurrencyCounter_def getAccountConcurrencyCounter_def)+

lemma GetChannelActive_eq:
  "0 < c \<Longrightarrow> GetChannelActiveConcurrency st c = active st (ChannelCounter c)"
  "0 < c \<Longrightarrow> GetChannelSelectionReservations st c = gcount (cc_reservation st) c"
  by (simp_all add: GetChannelActiveConcurrency_def GetChannelSelectionReservations_def gcount_def active.simps)

section \<open>The effect of an acquisition\<close>

definition scoped_account :: "channel_settings \<Rightarrow> bool" where
  "scoped_account setting \<longleftrightarrow>
     0 < se_AccountMaxConcurrency setting \<and> TrimSpace (se_AccountConcurrencyKey setting) \<noteq> []"

definition account_of :: "channel_settings \<Rightarrow> counter_ref" where
  "account_of setting = AccountCounter (TrimSpace (se_AccountConcurrencyKey setting))"

definition held_counters :: "int \<Rightarrow> channel_settings \<Rightarrow> counter_ref list" where
  "held_counters channelID setting =
     (if channelID \<le> 0 then []
      else ChannelCounter channelID # (if scoped_account setting then [account_of setting] else []))"

definition has_room :: "concurrency_state \<Rightarrow> int \<Rightarrow> channel_settings \<Rightarrow> bool" where
  "has_room st channelID setting \<longleftrightarrow>
     channelID \<le> 0
     \<or> (0 < se_MaxConcurrency setting \<longrightarrow> active st (ChannelCounter channelID) < se_MaxConcurrency setting)
       \<and> (scoped_account setting \<longrightarrow> active st (account_of setting) < se_AccountMaxConcurrency setting)"

lemma held_distinct: "distinct (held_counters c s)"
  by (simp add: held_counters_def account_of_def)

lemmas acquire_defs =
  TryAcquireChannelConcurrency_def TrackChannelConcurrency_def Let_def empty_lease_def
  release_counters_def held_counters_def has_room_def scoped_account_def account_of_def

lemma TryAcquire_granted:
  "fst (snd (TryAcquireChannelConcurrency st c s)) = has_room st c s"
  by (auto simp: acquire_defs)

lemma TryAcquire_lease:
  "has_room st c s \<Longrightarrow> release_counters (fst (TryAcquireChannelConcurrency st c s)) = held_counters c s"
  "ls_released (fst (TryAcquireChannelConcurrency st c s)) = False"
  by (auto simp: acquire_defs)

lemma TryAcquire_active:
  "active (snd (snd (TryAcquireChannelConcurrency st c s))) r =
     active st r + (if has_room st c s \<and> r \<in> set (held_counters c s) then 1 else 0)"
  by (auto simp: acquire_defs active_inc)

lemma TryAcquire_reservation:
  "cc_reservation (snd (snd (TryAcquireChannelConcurrency st c s))) = cc_reservation st"
  by (auto simp: acquire_defs)

lemma Track_lease:
  "release_counters (fst (TrackChannelConcurrency st c s)) = held_counters c s"
  "ls_released (fst (TrackChannelConcurrency st c s)) = False"
  by (auto simp: acquire_defs)

lemma Track_active:
  "active (snd (TrackChannelConcurrency st c s)) r =
     active st r + (if r \<in> set (held_counters c s) then 1 else 0)"
  by (auto simp: acquire_defs active_inc)

lemma release_distinct: "distinct (held_counters c s) \<Longrightarrow> 
    (\<forall>r \<in> set (held_counters c s). 0 < active st r) \<Longrightarrow>
    active (foldl dec st (held_counters c s)) q = active st q - (if q \<in> set (held_counters c s) then 1 else 0)"
  by (auto simp: held_counters_def active_dec account_of_def)

section \<open>Interleaved requests\<close>

text \<open>
  Requests acquire leases, and release them in two kinds of steps: \<^verbatim>\<open>releaseOnce\<close> admits the
  release once (\<open>begin_release\<close>), and the counters it visits are then decremented one at a time
  under their own locks (\<open>finish_release\<close>), in any order and between any steps of other requests.
  A refused lease is dropped by every caller (\<^verbatim>\<open>controller/relay.go\<close>, \<^verbatim>\<open>queue_manager.go\<close>)
  without being released. \<open>allowed\<close> says which settings a channel may be acquired with, and
  \<open>tracking\<close> whether \<^verbatim>\<open>TrackChannelConcurrency\<close>, which ignores the limits, is in use.
\<close>

record lease_system =
  ly_state :: concurrency_state
  ly_leases :: "concurrency_lease list"
  ly_pending :: "counter_ref multiset"

definition empty_state :: concurrency_state where
  "empty_state = \<lparr>cc_channel = [], cc_account = [], cc_reservation = []\<rparr>"

inductive lease_step ::
  "(int \<Rightarrow> channel_settings \<Rightarrow> bool) \<Rightarrow> bool \<Rightarrow> lease_system \<Rightarrow> lease_system \<Rightarrow> bool"
  for allowed tracking where
  acquire: "allowed c s \<Longrightarrow> TryAcquireChannelConcurrency (ly_state y) c s = (l, ok, st) \<Longrightarrow>
    lease_step allowed tracking y (y\<lparr>ly_state := st, ly_leases := (if ok then ly_leases y @ [l] else ly_leases y)\<rparr>)"
| track: "tracking \<Longrightarrow> TrackChannelConcurrency (ly_state y) c s = (l, st) \<Longrightarrow>
    lease_step allowed tracking y (y\<lparr>ly_state := st, ly_leases := ly_leases y @ [l]\<rparr>)"
| begin_release: "i < length (ly_leases y) \<Longrightarrow> \<not> ls_released (ly_leases y ! i) \<Longrightarrow>
    lease_step allowed tracking y
      (y\<lparr>ly_leases := (ly_leases y)[i := (ly_leases y ! i)\<lparr>ls_released := True\<rparr>],
         ly_pending := ly_pending y + mset (release_counters (ly_leases y ! i))\<rparr>)"
| finish_release: "r \<in># ly_pending y \<Longrightarrow>
    lease_step allowed tracking y (y\<lparr>ly_state := dec (ly_state y) r, ly_pending := ly_pending y - {#r#}\<rparr>)"

inductive lease_reachable ::
  "(int \<Rightarrow> channel_settings \<Rightarrow> bool) \<Rightarrow> bool \<Rightarrow> lease_system \<Rightarrow> bool" for allowed tracking where
  start: "lease_reachable allowed tracking \<lparr>ly_state = empty_state, ly_leases = [], ly_pending = {#}\<rparr>"
| step: "lease_reachable allowed tracking y \<Longrightarrow> lease_step allowed tracking y y' \<Longrightarrow>
    lease_reachable allowed tracking y'"

definition holds :: "counter_ref \<Rightarrow> concurrency_lease \<Rightarrow> int" where
  "holds r l = (if ls_released l then 0 else int (count_list (release_counters l) r))"

definition held_by :: "lease_system \<Rightarrow> counter_ref \<Rightarrow> int" where
  "held_by y r = (\<Sum>l \<leftarrow> ly_leases y. holds r l) + int (count (ly_pending y) r)"

lemma count_list_distinct: "distinct xs \<Longrightarrow> int (count_list xs r) = (if r \<in> set xs then 1 else 0)"
  by (induction xs) auto

lemma sum_list_nonneg_map: "(\<And>x. 0 \<le> (f x :: int)) \<Longrightarrow> 0 \<le> (\<Sum>x \<leftarrow> xs. f x)"
  by (induction xs) (auto intro: add_nonneg_nonneg)

lemma sum_list_map_update:
  "i < length xs \<Longrightarrow> (\<Sum>x \<leftarrow> xs[i := y]. f x) = (\<Sum>x \<leftarrow> xs. f x) - f (xs ! i) + (f y :: int)"
proof (induction xs arbitrary: i)
  case (Cons a xs)
  then show ?case by (cases i) auto
qed simp

lemma step_accounting:
  assumes "lease_step allowed tracking y y'" and "\<forall>r. active (ly_state y) r = held_by y r"
  shows "\<forall>r. active (ly_state y') r = held_by y' r"
  using assms
proof (induction rule: lease_step.induct)
  case (acquire c s y l ok st)
  define t where "t = TryAcquireChannelConcurrency (ly_state y) c s"
  have t: "l = fst t" "ok = fst (snd t)" "st = snd (snd t)" using acquire.hyps(2) by (simp_all add: t_def)
  show ?case
    using acquire.prems TryAcquire_granted [of "ly_state y" c s] TryAcquire_lease [of "ly_state y" c s]
      TryAcquire_active [of "ly_state y" c s] count_list_distinct [OF held_distinct, of c s]
    by (simp add: t t_def held_by_def holds_def)
next
  case (track y c s l st)
  then show ?case
    using Track_lease [of "ly_state y" c s] Track_active [of "ly_state y" c s]
      count_list_distinct [OF held_distinct, of c s]
    by (simp add: held_by_def holds_def)
next
  case (begin_release i y)
  have "holds r ((ly_leases y ! i)\<lparr>ls_released := True\<rparr>) = 0" for r by (simp add: holds_def)
  with begin_release show ?case
    by (simp add: held_by_def sum_list_map_update) (simp add: holds_def count_mset)
next
  case (finish_release r y)
  have "0 < held_by y r"
    using finish_release.hyps sum_list_nonneg_map [of "holds r" "ly_leases y"]
    by (simp add: held_by_def holds_def add_nonneg_pos)
  with finish_release show ?case
    by (auto simp: held_by_def active_dec)
qed

lemma reachable_accounting:
  "lease_reachable allowed tracking y \<Longrightarrow> \<forall>r. active (ly_state y) r = held_by y r"
proof (induction rule: lease_reachable.induct)
  case start
  have "active empty_state r = 0" for r by (cases r) (simp_all add: empty_state_def active.simps)
  then show ?case by (simp add: held_by_def)
qed (rule step_accounting)

lemma held_by_nonneg: "0 \<le> held_by y r"
  using sum_list_nonneg_map [of "holds r" "ly_leases y"] by (simp add: held_by_def holds_def)

section \<open>Limits\<close>

lemma step_within_limit:
  assumes "lease_step allowed False y y'" and "active (ly_state y) r \<le> m"
    and "\<And>c s. allowed c s \<Longrightarrow> r \<in> set (held_counters c s) \<Longrightarrow> has_room (ly_state y) c s \<Longrightarrow>
           active (ly_state y) r < m"
  shows "active (ly_state y') r \<le> m"
  using assms
proof (induction rule: lease_step.induct)
  case (acquire c s y l ok st)
  have "st = snd (snd (TryAcquireChannelConcurrency (ly_state y) c s))" using acquire.hyps(2) by simp
  then show ?case
    using acquire.hyps(1) acquire.prems(1) acquire.prems(2) [of c s] TryAcquire_active [of "ly_state y" c s r]
    by (cases "has_room (ly_state y) c s \<and> r \<in> set (held_counters c s)") auto
qed (auto simp: active_dec)

lemma reachable_within_limit:
  assumes "lease_reachable allowed False y" and "0 \<le> m"
    and "\<And>c s st. allowed c s \<Longrightarrow> r \<in> set (held_counters c s) \<Longrightarrow> has_room st c s \<Longrightarrow> active st r < m"
  shows "active (ly_state y) r \<le> m"
  using assms(1)
proof (induction rule: lease_reachable.induct)
  case start
  have "active empty_state r = 0" by (cases r) (simp_all add: empty_state_def active.simps)
  with assms(2) show ?case by simp
next
  case (step y y')
  show ?case by (rule step_within_limit [OF step.hyps(2) step.IH]) (rule assms(3))
qed

section \<open>Reservations of interleaved requests\<close>

record reservation_system =
  rv_state :: concurrency_state
  rv_contexts :: "gin_context list"

definition reserved_total :: "gin_context list \<Rightarrow> int \<Rightarrow> int" where
  "reserved_total ctxs c = (\<Sum>x \<leftarrow> ctxs. int (count_list (gc_SelectionReserved x) c))"

definition reservations_ok :: "reservation_system \<Rightarrow> bool" where
  "reservations_ok y \<longleftrightarrow>
     (\<forall>c. gcount (cc_reservation (rv_state y)) c = reserved_total (rv_contexts y) c)
     \<and> (\<forall>x \<in> set (rv_contexts y). \<forall>c \<in> set (gc_SelectionReserved x). 0 < c)"

inductive reservation_step :: "reservation_system \<Rightarrow> reservation_system \<Rightarrow> bool" where
  arrive: "gc_SelectionReserved x = [] \<Longrightarrow>
    reservation_step y (y\<lparr>rv_contexts := rv_contexts y @ [x]\<rparr>)"
| reserve: "i < length (rv_contexts y) \<Longrightarrow>
    reserveChannelSelection (rv_state y) (rv_contexts y ! i) c limit = (ok, st, x) \<Longrightarrow>
    reservation_step y \<lparr>rv_state = st, rv_contexts = (rv_contexts y)[i := x]\<rparr>"
| release_own: "i < length (rv_contexts y) \<Longrightarrow> c \<in> set (gc_SelectionReserved (rv_contexts y ! i)) \<Longrightarrow>
    ReleaseChannelSelectionReservation (rv_state y) (rv_contexts y ! i) c = (st, x) \<Longrightarrow>
    reservation_step y \<lparr>rv_state = st, rv_contexts = (rv_contexts y)[i := x]\<rparr>"
| finish: "i < length (rv_contexts y) \<Longrightarrow>
    ReleaseChannelSelectionReservations (rv_state y) (rv_contexts y ! i) = Some (st, x) \<Longrightarrow>
    reservation_step y \<lparr>rv_state = st, rv_contexts = (rv_contexts y)[i := x]\<rparr>"

inductive reservation_reachable :: "reservation_system \<Rightarrow> bool" where
  start: "reservation_reachable \<lparr>rv_state = empty_state, rv_contexts = []\<rparr>"
| step: "reservation_reachable y \<Longrightarrow> reservation_step y y' \<Longrightarrow> reservation_reachable y'"

lemma count_list_pos: "c \<in> set xs \<Longrightarrow> 0 < count_list xs c"
  by (simp add: count_list_0_iff zero_less_iff_neq_zero)

lemma count_remove1:
  assumes "c \<in> set xs"
  shows "int (count_list (remove1 c xs) d) = int (count_list xs d) - (if d = c then 1 else 0)"
  using count_list_pos [OF assms] by auto

declare count_list_remove1 [simp del]

lemma reserved_total_update:
  "i < length ctxs \<Longrightarrow> reserved_total (ctxs[i := x]) c =
     reserved_total ctxs c - int (count_list (gc_SelectionReserved (ctxs ! i)) c)
     + int (count_list (gc_SelectionReserved x) c)"
  unfolding reserved_total_def by (rule sum_list_map_update)

lemma reserved_total_ge:
  "i < length ctxs \<Longrightarrow> int (count_list (gc_SelectionReserved (ctxs ! i)) c) \<le> reserved_total ctxs c"
  unfolding reserved_total_def by (rule member_le_sum_list) auto

lemma reserve_effect:
  assumes "reserveChannelSelection st ctx c limit = (ok, st', ctx')"
  shows "gcount (cc_reservation st') d = gcount (cc_reservation st) d + (if ok \<and> d = c then 1 else 0)"
    and "gc_SelectionReserved ctx' = gc_SelectionReserved ctx @ (if ok then [c] else [])"
    and "ok \<Longrightarrow> 0 < c"
    and "ok \<longleftrightarrow> 0 < c \<and> (0 < limit \<longrightarrow> active st (ChannelCounter c) + gcount (cc_reservation st) c < limit)"
  using assms
  by (auto simp: reserveChannelSelection_def getChannelConcurrencyCounter_def active.simps
      getChannelSelectionReservationCounter_def go_map_simps Let_def split: if_splits)

lemma release_reservation_effect:
  assumes "ReleaseChannelSelectionReservation st ctx c = (st', ctx')" and "0 < c"
  shows "gcount (cc_reservation st') d =
      gcount (cc_reservation st) d - (if d = c \<and> 0 < gcount (cc_reservation st) c then 1 else 0)"
    and "gc_SelectionReserved ctx' = remove1 c (gc_SelectionReserved ctx)"
    and "cc_channel st' = cc_channel st" "cc_account st' = cc_account st"
  using assms
  by (auto simp: ReleaseChannelSelectionReservation_def gcount_def go_map_simps split: option.splits if_splits)

lemma release_all_effect:
  assumes "\<forall>c \<in> set (gc_SelectionReserved ctx). 0 < c"
    and "\<forall>c. int (count_list (gc_SelectionReserved ctx) c) \<le> gcount (cc_reservation st) c"
  shows "\<exists>st' ctx'. ReleaseChannelSelectionReservations st ctx = Some (st', ctx')
    \<and> gc_SelectionReserved ctx' = [] \<and> cc_channel st' = cc_channel st \<and> cc_account st' = cc_account st
    \<and> (\<forall>c. gcount (cc_reservation st') c = gcount (cc_reservation st) c - int (count_list (gc_SelectionReserved ctx) c))"
  using assms
proof (induction "length (gc_SelectionReserved ctx)" arbitrary: st ctx)
  case 0
  then show ?case by (subst ReleaseChannelSelectionReservations.simps) auto
next
  case (Suc n)
  define c where "c = last (gc_SelectionReserved ctx)"
  obtain st1 ctx1 where r: "ReleaseChannelSelectionReservation st ctx c = (st1, ctx1)" by fastforce
  have mem: "c \<in> set (gc_SelectionReserved ctx)" using Suc.hyps(2) by (simp add: c_def) (metis last_in_set list.size(3) nat.distinct(1))
  then have pos: "0 < c" using Suc.prems(1) by auto
  have "0 < count_list (gc_SelectionReserved ctx) c" using mem by (rule count_list_pos)
  then have res: "0 < gcount (cc_reservation st) c" using Suc.prems(2) [rule_format, of c] by linarith
  note e = release_reservation_effect [OF r pos] count_remove1 [OF mem]
  have step: "ReleaseChannelSelectionReservations st ctx = ReleaseChannelSelectionReservations st1 ctx1"
    using Suc.hyps(2) r by (subst ReleaseChannelSelectionReservations.simps) (auto simp: c_def)
  have "\<exists>st' ctx'. ReleaseChannelSelectionReservations st1 ctx1 = Some (st', ctx')
    \<and> gc_SelectionReserved ctx' = [] \<and> cc_channel st' = cc_channel st1 \<and> cc_account st' = cc_account st1
    \<and> (\<forall>c. gcount (cc_reservation st') c = gcount (cc_reservation st1) c - int (count_list (gc_SelectionReserved ctx1) c))"
  proof (rule Suc.hyps(1))
    show "n = length (gc_SelectionReserved ctx1)" using Suc.hyps(2) mem e by (simp add: length_remove1)
    show "\<forall>c \<in> set (gc_SelectionReserved ctx1). 0 < c"
      using Suc.prems(1) e(2) by (metis notin_set_remove1)
    show "\<forall>c. int (count_list (gc_SelectionReserved ctx1) c) \<le> gcount (cc_reservation st1) c"
      using Suc.prems(2) res by (simp add: e)
  qed
  then show ?case using res by (auto simp: step e)
qed

lemma update_mem: "i < length xs \<Longrightarrow> x \<in> set (xs[i := v]) \<Longrightarrow> x = v \<or> x \<in> set xs"
  using set_update_subset_insert by fastforce

lemma reservation_step_ok:
  assumes "reservation_step y y'" and "reservations_ok y"
  shows "reservations_ok y'"
  using assms
proof (induction rule: reservation_step.induct)
  case (arrive x y)
  then show ?case by (auto simp: reservations_ok_def reserved_total_def)
next
  case (reserve i y c limit ok st x)
  note e = reserve_effect [OF reserve.hyps(2)]
  have "\<forall>d \<in> set (gc_SelectionReserved x). 0 < d"
    using reserve e by (auto simp: reservations_ok_def)
  then show ?case
    using reserve e(1,2)
    by (auto simp: reservations_ok_def reserved_total_update dest!: update_mem)
next
  case (release_own i y c st x)
  have pos: "0 < c" using release_own by (auto simp: reservations_ok_def)
  note e = release_reservation_effect [OF release_own.hyps(3) pos] count_remove1 [OF release_own.hyps(2)]
  have "0 < count_list (gc_SelectionReserved (rv_contexts y ! i)) c"
    using release_own.hyps(2) by (rule count_list_pos)
  then have "0 < gcount (cc_reservation (rv_state y)) c"
    using reserved_total_ge [OF release_own.hyps(1), of c] release_own.prems by (simp add: reservations_ok_def)
  moreover have "\<forall>d \<in> set (gc_SelectionReserved x). 0 < d"
    using release_own.prems nth_mem [OF release_own.hyps(1)]
      set_remove1_subset [of c "gc_SelectionReserved (rv_contexts y ! i)"]
    by (auto simp: e(2) reservations_ok_def)
  ultimately show ?case
    using release_own.prems release_own.hyps(1) e(1,2,5)
    by (auto simp: reservations_ok_def reserved_total_update dest!: update_mem)
next
  case (finish i y st x)
  have "\<forall>c \<in> set (gc_SelectionReserved (rv_contexts y ! i)). 0 < c"
    "\<forall>c. int (count_list (gc_SelectionReserved (rv_contexts y ! i)) c) \<le> gcount (cc_reservation (rv_state y)) c"
    using finish reserved_total_ge [OF finish.hyps(1)] by (auto simp: reservations_ok_def)
  from release_all_effect [OF this] finish.hyps(2)
  have "gc_SelectionReserved x = []" "\<forall>c. gcount (cc_reservation st) c = gcount (cc_reservation (rv_state y)) c
      - int (count_list (gc_SelectionReserved (rv_contexts y ! i)) c)"
    by auto
  then show ?case
    using finish.prems finish.hyps(1)
    by (auto simp: reservations_ok_def reserved_total_update dest!: update_mem)
qed

lemma reservation_reachable_ok: "reservation_reachable y \<Longrightarrow> reservations_ok y"
proof (induction rule: reservation_reachable.induct)
  case start
  then show ?case by (simp add: reservations_ok_def reserved_total_def empty_state_def)
qed (rule reservation_step_ok)

section \<open>Properties\<close>

definition example_setting :: "int \<Rightarrow> int \<Rightarrow> channel_settings" where
  "example_setting channel_limit account_limit =
     \<lparr>se_MaxConcurrency = channel_limit, se_AccountMaxConcurrency = account_limit,
      se_AccountConcurrencyKey = ''acct''\<rparr>"

text \<open>An acquisition is granted exactly when the channel and, if the setting names one, the
  account are below their limits; granted, it raises exactly those counters by one and reports a
  count within the limit, refused, it changes no counter and reports a count that has reached the
  limit; the reservations are untouched.\<close>

lemma try_acquire_exact:
  "case TryAcquireChannelConcurrency st c s of (lease, ok, st') \<Rightarrow>
     ok = has_room st c s
     \<and> (\<forall>r. active st' r = active st r + (if ok \<and> r \<in> set (held_counters c s) then 1 else 0))
     \<and> cc_reservation st' = cc_reservation st
     \<and> (if \<not> ok then ActiveAtHit lease = CurrentActive st' lease \<and> 0 < ls_Limit lease
                        \<and> ls_Limit lease \<le> CurrentActive st' lease
        else c \<le> 0 \<or> ActiveAtHit lease = CurrentActive st' lease
                        \<and> (ls_Limit lease \<le> 0 \<or> CurrentActive st' lease \<le> ls_Limit lease))"
proof -
  define t where "t = TryAcquireChannelConcurrency st c s"
  have "fst (snd t) = has_room st c s"
    "active (snd (snd t)) r = active st r + (if has_room st c s \<and> r \<in> set (held_counters c s) then 1 else 0)"
    "cc_reservation (snd (snd t)) = cc_reservation st" for r
    by (simp_all add: t_def TryAcquire_granted TryAcquire_active TryAcquire_reservation)
  moreover have "\<not> has_room st c s \<Longrightarrow> ActiveAtHit (fst t) = CurrentActive (snd (snd t)) (fst t)
      \<and> 0 < ls_Limit (fst t) \<and> ls_Limit (fst t) \<le> CurrentActive (snd (snd t)) (fst t)"
    by (auto simp: t_def acquire_defs ActiveAtHit_def CurrentActive_def)
  moreover have "has_room st c s \<Longrightarrow> 0 < c \<Longrightarrow> ActiveAtHit (fst t) = CurrentActive (snd (snd t)) (fst t)
      \<and> (ls_Limit (fst t) \<le> 0 \<or> CurrentActive (snd (snd t)) (fst t) \<le> ls_Limit (fst t))"
    by (auto simp: t_def acquire_defs ActiveAtHit_def CurrentActive_def active_inc)
  ultimately show ?thesis by (auto simp: t_def [symmetric] case_prod_unfold)
qed

text \<open>Acquiring and releasing is a round trip: after the lease of a granted acquisition is
  released every counter has its old value, and releasing the lease again changes nothing.\<close>

lemma acquire_release_roundtrip:
  assumes "TryAcquireChannelConcurrency st c s = (lease, True, st')" and "\<forall>r. 0 \<le> active st r"
    and "Release st' lease = (lease', st'')"
  shows "(\<forall>r. active st'' r = active st r) \<and> cc_reservation st'' = cc_reservation st
    \<and> (\<forall>st. Release st lease' = (lease', st))"
proof -
  define t where "t = TryAcquireChannelConcurrency st c s"
  have t: "lease = fst t" "st' = snd (snd t)" "fst (snd t)" using assms(1) by (simp_all add: t_def)
  have room: "has_room st c s" using t(3) by (simp add: t_def TryAcquire_granted)
  have held: "release_counters lease = held_counters c s" "\<not> ls_released lease"
    using TryAcquire_lease [of st c s] room by (simp_all add: t t_def)
  have act: "active st' r = active st r + (if r \<in> set (held_counters c s) then 1 else 0)" for r
    using TryAcquire_active [of st c s r] room by (simp add: t t_def)
  have "lease' = lease\<lparr>ls_released := True\<rparr>" and st'': "st'' = foldl dec st' (held_counters c s)"
    using assms(3) held by (auto simp: Release_def)
  moreover have "\<forall>r \<in> set (held_counters c s). 0 < active st' r"
    using assms(2) act by (auto simp: add_nonneg_pos)
  from release_distinct [OF held_distinct this] have "active st'' r = active st r" for r
    by (simp add: st'' act)
  moreover have "cc_reservation (foldl dec st' rs) = cc_reservation st'" for rs
    by (induction rs arbitrary: st') auto
  moreover have "cc_reservation st' = cc_reservation st" by (simp add: t t_def TryAcquire_reservation)
  ultimately show ?thesis by (simp add: Release_def)
qed

lemma acquire_release_roundtrip_witness:
  "active (snd (Release (snd (snd (TryAcquireChannelConcurrency empty_state 7 (example_setting 2 1))))
      (fst (TryAcquireChannelConcurrency empty_state 7 (example_setting 2 1))))) (ChannelCounter 7) = 0"
proof -
  define t where "t = TryAcquireChannelConcurrency empty_state 7 (example_setting 2 1)"
  have zero: "active empty_state r = 0" for r by (cases r) (simp_all add: empty_state_def active.simps)
  have "fst (snd t)" unfolding t_def by code_simp
  then have "TryAcquireChannelConcurrency empty_state 7 (example_setting 2 1) = (fst t, True, snd (snd t))"
    by (metis prod.collapse t_def)
  from acquire_release_roundtrip [OF this, of "fst (Release (snd (snd t)) (fst t))" "snd (Release (snd (snd t)) (fst t))"]
  show ?thesis by (simp add: zero t_def)
qed

text \<open>Whatever the interleaving of acquisitions and of the two halves of releases, a counter
  equals the number of leases that still hold it plus the releases under way; so no release is
  lost at zero, no counter is negative, and once every lease is released all counters are 0.\<close>

lemma lease_accounting:
  assumes "lease_reachable allowed tracking y"
  shows "active (ly_state y) r = (\<Sum>l \<leftarrow> ly_leases y. holds r l) + int (count (ly_pending y) r)
    \<and> 0 \<le> active (ly_state y) r
    \<and> (ly_pending y = {#} \<and> list_all ls_released (ly_leases y) \<longrightarrow> active (ly_state y) r = 0)"
proof -
  have eq: "active (ly_state y) r = held_by y r" using reachable_accounting [OF assms] by simp
  have "list_all ls_released ls \<Longrightarrow> (\<Sum>l \<leftarrow> ls. holds r l) = 0" for ls
    by (induction ls) (simp_all add: holds_def)
  with eq held_by_nonneg [of y r] show ?thesis by (auto simp: held_by_def)
qed

lemma lease_accounting_witness:
  "active (snd (snd (TryAcquireChannelConcurrency empty_state 7 (example_setting 2 1)))) (ChannelCounter 7) = 1"
proof -
  define t where "t = TryAcquireChannelConcurrency empty_state 7 (example_setting 2 1)"
  have t: "TryAcquireChannelConcurrency empty_state 7 (example_setting 2 1) = (fst t, fst (snd t), snd (snd t))"
    by (simp add: t_def)
  have ok: "fst (snd t) \<and> holds (ChannelCounter 7) (fst t) = 1" unfolding t_def by code_simp
  define y where "y = \<lparr>ly_state = empty_state, ly_leases = [], ly_pending = ({#} :: counter_ref multiset)\<rparr>"
  have "lease_reachable (\<lambda>_ _. True) False (y\<lparr>ly_state := snd (snd t),
      ly_leases := (if fst (snd t) then ly_leases y @ [fst t] else ly_leases y)\<rparr>)"
    using t by (intro lease_reachable.step [OF lease_reachable.start, folded y_def] lease_step.acquire)
      (simp_all add: y_def)
  from lease_accounting [OF this, of "ChannelCounter 7"] ok show ?thesis
    by (simp add: y_def t_def)
qed



text \<open>When every request releases only reservations of its own, the reservation counter of a
  channel equals the reservations the live requests hold, a reservation is granted exactly when
  the running and reserved requests are below the limit, and the final release of a request
  terminates and gives back exactly what the request still holds.\<close>

lemma reservations_balanced:
  assumes "reservation_reachable y" and "i < length (rv_contexts y)"
  shows "gcount (cc_reservation (rv_state y)) c = reserved_total (rv_contexts y) c
    \<and> (fst (reserveChannelSelection (rv_state y) (rv_contexts y ! i) c limit) \<longleftrightarrow>
         0 < c \<and> (0 < limit \<longrightarrow> active (rv_state y) (ChannelCounter c) + reserved_total (rv_contexts y) c < limit))
    \<and> (\<exists>st x. ReleaseChannelSelectionReservations (rv_state y) (rv_contexts y ! i) = Some (st, x)
         \<and> gc_SelectionReserved x = []
         \<and> gcount (cc_reservation st) c = reserved_total ((rv_contexts y)[i := x]) c)"
proof -
  have ok: "reservations_ok y" using assms(1) by (rule reservation_reachable_ok)
  have cnt: "gcount (cc_reservation (rv_state y)) c = reserved_total (rv_contexts y) c" for c
    using ok by (simp add: reservations_ok_def)
  obtain b st x where r: "reserveChannelSelection (rv_state y) (rv_contexts y ! i) c limit = (b, st, x)"
    by (metis prod_cases3)
  have "\<forall>c \<in> set (gc_SelectionReserved (rv_contexts y ! i)). 0 < c"
    "\<forall>c. int (count_list (gc_SelectionReserved (rv_contexts y ! i)) c) \<le> gcount (cc_reservation (rv_state y)) c"
    using ok assms(2) reserved_total_ge [OF assms(2)] by (auto simp: reservations_ok_def)
  from release_all_effect [OF this] show ?thesis
    using reserve_effect(4) [OF r] assms(2) by (auto simp: r cnt reserved_total_update)
qed

lemma reservations_balanced_witness:
  "\<exists>st x. ReleaseChannelSelectionReservations empty_state empty_context = Some (st, x)
     \<and> gc_SelectionReserved x = []"
proof -
  have "reservation_reachable (\<lparr>rv_state = empty_state, rv_contexts = []\<rparr>\<lparr>rv_contexts := [] @ [empty_context]\<rparr>)"
    using reservation_reachable.step [OF reservation_reachable.start reservation_step.arrive, of empty_context]
    by (simp add: empty_context_def)
  from reservations_balanced [OF this, of 0 1 1] show ?thesis by auto
qed

text \<open>Releasing a reservation that the request does not hold takes it from another request:
  the counter then stays below the number of reservations that are held. The relay does this for
  every channel it did not select through a plan.\<close>

lemma stray_release_steals:
  assumes "reservation_reachable y" and "i < length (rv_contexts y)"
    and "c \<notin> set (gc_SelectionReserved (rv_contexts y ! i))"
    and "x \<in> set (rv_contexts y)" and "c \<in> set (gc_SelectionReserved x)"
    and "ReleaseChannelSelectionReservation (rv_state y) (rv_contexts y ! i) c = (st, x')"
  shows "gcount (cc_reservation st) c = reserved_total ((rv_contexts y)[i := x']) c - 1"
proof -
  have ok: "reservations_ok y" using assms(1) by (rule reservation_reachable_ok)
  then have pos: "0 < c" using assms(4,5) by (auto simp: reservations_ok_def)
  note e = release_reservation_effect [OF assms(6) pos]
  obtain j where "j < length (rv_contexts y)" "rv_contexts y ! j = x"
    using assms(4) by (auto simp: in_set_conv_nth)
  then have "0 < reserved_total (rv_contexts y) c"
    using reserved_total_ge [of j "rv_contexts y" c] count_list_pos [OF assms(5)] by simp
  then show ?thesis
    using ok assms(2,3) by (simp add: e reservations_ok_def reserved_total_update remove1_idem)
qed

lemma stray_release_steals_witness:
  "gcount (cc_reservation (fst (ReleaseChannelSelectionReservation
     (fst (snd (reserveChannelSelection empty_state empty_context 7 0))) empty_context 7))) 7 = 0
   \<and> reserved_total [snd (snd (reserveChannelSelection empty_state empty_context 7 0)), empty_context] 7 = 1"
proof -
  define r where "r = reserveChannelSelection empty_state empty_context 7 0"
  define q where "q = ReleaseChannelSelectionReservation (fst (snd r)) empty_context 7"
  have r: "reserveChannelSelection empty_state empty_context 7 0 = (fst r, fst (snd r), snd (snd r))"
    by (simp add: r_def)
  have one: "7 \<in> set (gc_SelectionReserved (snd (snd r)))" "reserved_total [snd (snd r), empty_context] 7 = 1"
    "snd q = empty_context" unfolding q_def r_def by code_simp+
  have "reservation_reachable (\<lparr>rv_state = empty_state, rv_contexts = []\<rparr>\<lparr>rv_contexts := [] @ [empty_context]\<rparr>)"
    using reservation_reachable.step [OF reservation_reachable.start reservation_step.arrive, of empty_context]
    by (simp add: empty_context_def)
  from reservation_reachable.step [OF this reservation_step.arrive, of empty_context]
  have "reservation_reachable \<lparr>rv_state = empty_state, rv_contexts = [empty_context, empty_context]\<rparr>"
    by (simp add: empty_context_def)
  from reservation_reachable.step [OF this reservation_step.reserve, of 0 7 0 "fst r" "fst (snd r)" "snd (snd r)"] r
  have y: "reservation_reachable \<lparr>rv_state = fst (snd r), rv_contexts = [snd (snd r), empty_context]\<rparr>"
    by simp
  have "gcount (cc_reservation (fst q)) 7 = reserved_total ([snd (snd r), empty_context][1 := snd q]) 7 - 1"
    using stray_release_steals [OF y, of 1 7 "snd (snd r)" "fst q" "snd q"] one(1)
    by (simp add: q_def empty_context_def)
  with one show ?thesis by (simp add: q_def r_def)
qed

end
