(* ===== verification/Queue_Manager.thy ===== *)
theory Queue_Manager
  imports Channel_Concurrency
begin

text \<open>
  The waiting queues of the scheduler (\<^verbatim>\<open>scheduler/queue_manager.go\<close>): admission policies, the
  queues per channel and per resource pool, whose turn it is, and the two acquisition procedures.

  The channel half and the pool half of the manager keep the same three maps and run the same
  code over different keys; \<open>queue_side\<close> is that half for a type of keys, and the methods of the
  source are defined from its operations. Every method that touches the maps runs under the
  manager's mutex and is one function. The waiting loops of \<^verbatim>\<open>AcquireWithOptions\<close> and
  \<^verbatim>\<open>AcquirePoolWithOptions\<close> are given by their entry and by the handling of one event of the
  \<^verbatim>\<open>select\<close> (the context is done, the timer fires, the ticker fires), so that other requests can
  act between two events. Nil receivers are no states of the model.
\<close>

section \<open>Data\<close>

datatype acquire_status = StatusNone | QueueAcquireAcquired | QueueAcquireQueued | QueueAcquireRejected

record acquire_result =
  qr_Lease :: "concurrency_lease option"
  qr_Status :: acquire_status
  qr_WaitTime :: int
  qr_Plan :: "dispatch_plan option"
  qr_StopWaiting :: bool

definition acquire_result_of :: "concurrency_lease option \<Rightarrow> acquire_status \<Rightarrow> int \<Rightarrow> acquire_result" where
  "acquire_result_of lease status wait =
     \<lparr>qr_Lease = lease, qr_Status = status, qr_WaitTime = wait, qr_Plan = None, qr_StopWaiting = False\<rparr>"

record acquire_options =
  qo_Group :: string
  qo_Priority :: int
  qo_RuntimeKey :: runtime_key
  qo_MaxDepth :: int

record admission_context =
  qc_ChannelID :: int
  qc_Group :: string
  qc_Priority :: int
  qc_CurrentDepth :: int
  qc_CurrentGroupDepth :: int
  qc_GroupDepths :: "(string, int) gomap"
  qc_MaxDepth :: int

record queue_waiter =
  qw_Group :: string
  qw_Priority :: int
  qw_HighPriority :: bool
  qw_RuntimeKey :: runtime_key
  qw_Sequence :: int

record fairness_options =
  fo_HighPriorityGroups :: "string list"
  fo_HighPriorityThreshold :: int
  fo_HighPriorityExtraDepth :: int
  fo_HighPriorityReservedDepth :: int
  fo_AbsoluteMaxDepth :: int

record priority_policy =
  pp_options :: fairness_options
  pp_highPriorityGroups :: "string list"

datatype admission_policy =
    NoPolicy
  | PriorityPolicy "priority_policy option"
  | PolicyFunc "(admission_context \<Rightarrow> bool) option"

section \<open>The priority policy\<close>

definition NewPriorityQueueAdmissionPolicy :: "fairness_options \<Rightarrow> priority_policy" where
  "NewPriorityQueueAdmissionPolicy options =
     \<lparr>pp_options = options, pp_highPriorityGroups = filter (\<lambda>g. g \<noteq> []) (fo_HighPriorityGroups options)\<rparr>"

definition isHighPriorityGroup :: "priority_policy \<Rightarrow> string \<Rightarrow> bool" where
  "isHighPriorityGroup p grp = (if grp = [] then False else grp \<in> set (pp_highPriorityGroups p))"

definition isHighPriority :: "priority_policy \<Rightarrow> string \<Rightarrow> int \<Rightarrow> bool" where
  "isHighPriority p grp priority =
     (if isHighPriorityGroup p grp then True
      else fo_HighPriorityThreshold (pp_options p) > 0 \<and> priority \<ge> fo_HighPriorityThreshold (pp_options p))"

definition capQueueLimit :: "int \<Rightarrow> int \<Rightarrow> int" where
  "capQueueLimit limit absoluteMaxDepth =
     (if absoluteMaxDepth > 0 \<and> limit > absoluteMaxDepth then absoluteMaxDepth
      else if limit < 0 then 0 else limit)"

definition highPriorityExtraDepth :: "priority_policy \<Rightarrow> int" where
  "highPriorityExtraDepth p =
     (if fo_HighPriorityExtraDepth (pp_options p) \<le> 0 then 0 else fo_HighPriorityExtraDepth (pp_options p))"

definition highPriorityReservedDepth :: "priority_policy \<Rightarrow> int \<Rightarrow> int" where
  "highPriorityReservedDepth p maxDepth =
     (if fo_HighPriorityReservedDepth (pp_options p) \<le> 0 then 0
      else if fo_HighPriorityReservedDepth (pp_options p) > maxDepth then maxDepth
      else fo_HighPriorityReservedDepth (pp_options p))"

definition highPriorityLimit :: "priority_policy \<Rightarrow> int \<Rightarrow> int" where
  "highPriorityLimit p maxDepth =
     capQueueLimit (i64 (maxDepth + highPriorityExtraDepth p)) (fo_AbsoluteMaxDepth (pp_options p))"

definition currentHighPriorityDepth :: "priority_policy \<Rightarrow> (string, int) gomap \<Rightarrow> int" where
  "currentHighPriorityDepth p groupDepths =
     (\<Sum>(grp, depth) \<leftarrow> groupDepths. if isHighPriorityGroup p grp then depth else 0)"

definition allowNormalPriorityQueue :: "priority_policy \<Rightarrow> admission_context \<Rightarrow> bool" where
  "allowNormalPriorityQueue p ctx =
     (if qc_CurrentDepth ctx \<ge> capQueueLimit (qc_MaxDepth ctx) (fo_AbsoluteMaxDepth (pp_options p)) then False
      else let reservedDepth = highPriorityReservedDepth p (qc_MaxDepth ctx) in
        if reservedDepth \<le> 0 then True
        else let normalLimit = qc_MaxDepth ctx - reservedDepth in
          if normalLimit \<le> 0 then False
          else let normalDepth = qc_CurrentDepth ctx - currentHighPriorityDepth p (qc_GroupDepths ctx);
                   normalDepth = (if normalDepth < 0 then 0 else normalDepth)
               in normalDepth < normalLimit)"

definition priority_AllowQueue :: "priority_policy option \<Rightarrow> admission_context \<Rightarrow> bool" where
  "priority_AllowQueue po ctx =
     (case po of
        None \<Rightarrow> qc_CurrentDepth ctx < qc_MaxDepth ctx
      | Some p \<Rightarrow>
          if isHighPriority p (qc_Group ctx) (qc_Priority ctx)
          then qc_CurrentDepth ctx < highPriorityLimit p (qc_MaxDepth ctx)
          else allowNormalPriorityQueue p ctx)"

definition func_AllowQueue :: "(admission_context \<Rightarrow> bool) option \<Rightarrow> admission_context \<Rightarrow> bool" where
  "func_AllowQueue f ctx = (case f of None \<Rightarrow> True | Some g \<Rightarrow> g ctx)"

definition highPriorityCapacityForPolicy :: "admission_policy \<Rightarrow> int \<Rightarrow> int" where
  "highPriorityCapacityForPolicy policy maxDepth =
     (case policy of PriorityPolicy (Some p) \<Rightarrow> highPriorityLimit p maxDepth | _ \<Rightarrow> 0)"

definition normalCapacityForPolicy :: "admission_policy \<Rightarrow> int \<Rightarrow> int" where
  "normalCapacityForPolicy policy maxDepth =
     (case policy of
        PriorityPolicy (Some p) \<Rightarrow>
          (let reserved = highPriorityReservedDepth p maxDepth in
           if maxDepth - reserved < 0 then 0 else maxDepth - reserved)
      | _ \<Rightarrow> maxDepth)"

section \<open>One half of the queues\<close>

record 'k queue_side =
  qs_depths :: "('k, int) gomap"
  qs_groupDepths :: "('k, (string, int) gomap) gomap"
  qs_waiters :: "('k, queue_waiter list) gomap"

definition empty_side :: "'k queue_side" where
  "empty_side = \<lparr>qs_depths = [], qs_groupDepths = [], qs_waiters = []\<rparr>"

definition groups_of :: "'k queue_side \<Rightarrow> 'k \<Rightarrow> (string, int) gomap" where
  "groups_of s k = (case map_of (qs_groupDepths s) k of None \<Rightarrow> [] | Some g \<Rightarrow> g)"

definition waiters_of :: "'k queue_side \<Rightarrow> 'k \<Rightarrow> queue_waiter list" where
  "waiters_of s k = (case map_of (qs_waiters s) k of None \<Rightarrow> [] | Some ws \<Rightarrow> ws)"

definition groupDepthLocked :: "'k queue_side \<Rightarrow> 'k \<Rightarrow> string \<Rightarrow> int" where
  "groupDepthLocked s k grp = gcount (groups_of s k) grp"

definition cloneGroupDepthsLocked :: "'k queue_side \<Rightarrow> 'k \<Rightarrow> (string, int) gomap" where
  "cloneGroupDepthsLocked s k =
     (if length (groups_of s k) = 0 then []
      else foldr (\<lambda>(grp, depth) m. gput grp depth m) (groups_of s k) [])"

definition side_enter :: "'k queue_side \<Rightarrow> 'k \<Rightarrow> queue_waiter \<Rightarrow> 'k queue_side" where
  "side_enter s k waiter =
     s\<lparr>qs_depths := ginc k (qs_depths s),
       qs_groupDepths := gput k (ginc (qw_Group waiter) (groups_of s k)) (qs_groupDepths s),
       qs_waiters := gput k (waiters_of s k @ [waiter]) (qs_waiters s)\<rparr>"

definition queueWaiterSameIdentity :: "queue_waiter \<Rightarrow> queue_waiter \<Rightarrow> bool" where
  "queueWaiterSameIdentity left right \<longleftrightarrow>
     qw_Group left = qw_Group right \<and> qw_Priority left = qw_Priority right
     \<and> qw_HighPriority left = qw_HighPriority right \<and> qw_RuntimeKey left = qw_RuntimeKey right
     \<and> qw_Sequence left = qw_Sequence right"

fun remove_waiter :: "queue_waiter list \<Rightarrow> queue_waiter \<Rightarrow> queue_waiter list option" where
  "remove_waiter [] target = None"
| "remove_waiter (w # ws) target =
     (if queueWaiterSameIdentity w target then Some ws else map_option ((#) w) (remove_waiter ws target))"

definition put_waiters :: "'k queue_side \<Rightarrow> 'k \<Rightarrow> queue_waiter list \<Rightarrow> 'k queue_side" where
  "put_waiters s k ws =
     s\<lparr>qs_waiters := (if length ws = 0 then gdel k (qs_waiters s) else gput k ws (qs_waiters s))\<rparr>"

definition removeQueueWaiterLocked :: "'k queue_side \<Rightarrow> 'k \<Rightarrow> queue_waiter \<Rightarrow> 'k queue_side" where
  "removeQueueWaiterLocked s k target =
     (let waiters = waiters_of s k in
      if length waiters = 0 then s
      else case remove_waiter waiters target of
             Some ws \<Rightarrow> put_waiters s k ws
           | None \<Rightarrow> put_waiters s k (tl waiters))"

definition leave_groups :: "'k queue_side \<Rightarrow> 'k \<Rightarrow> string \<Rightarrow> 'k queue_side" where
  "leave_groups s k grp =
     (case map_of (qs_groupDepths s) k of
        None \<Rightarrow> s
      | Some groups \<Rightarrow>
          (let groups = (if gcount groups grp \<le> 1 then gdel grp groups
                         else gput grp (gcount groups grp - 1) groups)
           in s\<lparr>qs_groupDepths := (if length groups = 0 then gdel k (qs_groupDepths s)
                                   else gput k groups (qs_groupDepths s))\<rparr>))"

definition side_leave :: "'k queue_side \<Rightarrow> 'k \<Rightarrow> queue_waiter \<Rightarrow> 'k queue_side" where
  "side_leave s k waiter =
     (let s = leave_groups s k (qw_Group waiter) in
      if gcount (qs_depths s) k \<le> 1
      then removeQueueWaiterLocked (s\<lparr>qs_depths := gdel k (qs_depths s)\<rparr>) k waiter
      else removeQueueWaiterLocked (s\<lparr>qs_depths := gput k (gcount (qs_depths s) k - 1) (qs_depths s)\<rparr>) k waiter)"

definition queueWaiterPrecedes :: "queue_waiter \<Rightarrow> queue_waiter \<Rightarrow> bool" where
  "queueWaiterPrecedes left right =
     (if qw_Priority left \<noteq> qw_Priority right then qw_Priority left > qw_Priority right
      else if qw_HighPriority left \<noteq> qw_HighPriority right then qw_HighPriority left
      else qw_Sequence left < qw_Sequence right)"

fun best_waiter :: "queue_waiter \<Rightarrow> queue_waiter list \<Rightarrow> queue_waiter" where
  "best_waiter best [] = best"
| "best_waiter best (w # ws) = best_waiter (if queueWaiterPrecedes w best then w else best) ws"

definition side_turn :: "'k queue_side \<Rightarrow> 'k \<Rightarrow> queue_waiter \<Rightarrow> bool" where
  "side_turn s k target =
     (case waiters_of s k of
        [] \<Rightarrow> True
      | [w] \<Rightarrow> True
      | w # w' # ws \<Rightarrow> queueWaiterSameIdentity (best_waiter w (w' # ws)) target)"

section \<open>The manager\<close>

record queue_manager =
  qm_channels :: "int queue_side"
  qm_pools :: "string queue_side"
  qm_rejectReasons :: "(string, int) gomap"
  qm_nextWaiterSeq :: int
  qm_timeout :: int
  qm_tick :: int
  qm_maxDepth :: int
  qm_admissionPolicy :: admission_policy

definition defaultQueueTimeoutMs :: int where "defaultQueueTimeoutMs = 2000"
definition defaultQueueMaxDepth :: int where "defaultQueueMaxDepth = 64"

definition NewQueueManagerWithAdmissionPolicy :: "int \<Rightarrow> int \<Rightarrow> admission_policy \<Rightarrow> queue_manager" where
  "NewQueueManagerWithAdmissionPolicy timeout maxDepth policy =
     \<lparr>qm_channels = empty_side, qm_pools = empty_side, qm_rejectReasons = [], qm_nextWaiterSeq = 0,
      qm_timeout = (if timeout \<le> 0 then defaultQueueTimeoutMs * Millisecond else timeout),
      qm_tick = 25 * Millisecond,
      qm_maxDepth = (if maxDepth \<le> 0 then defaultQueueMaxDepth else maxDepth),
      qm_admissionPolicy = policy\<rparr>"

definition NewQueueManager :: "int \<Rightarrow> int \<Rightarrow> queue_manager" where
  "NewQueueManager timeout maxDepth = NewQueueManagerWithAdmissionPolicy timeout maxDepth NoPolicy"

definition isHighPriorityLocked :: "queue_manager \<Rightarrow> string \<Rightarrow> int \<Rightarrow> bool" where
  "isHighPriorityLocked m grp priority =
     (case qm_admissionPolicy m of
        PriorityPolicy (Some p) \<Rightarrow> isHighPriority p grp priority
      | _ \<Rightarrow> priority > 0)"

definition queueRejectReason :: "int \<Rightarrow> int \<Rightarrow> int \<Rightarrow> string" where
  "queueRejectReason priority currentDepth maxDepth =
     (if currentDepth \<ge> maxDepth
      then if priority > 0 then ''priority_queue_limit_reached'' else ''max_depth_reached''
      else ''admission_policy_rejected'')"

definition normalizedQueueRuntimeKey :: "int \<Rightarrow> acquire_options \<Rightarrow> runtime_key" where
  "normalizedQueueRuntimeKey channelID options =
     (let key = qo_RuntimeKey options;
          key = (if rk_ChannelID key \<le> 0 then key\<lparr>rk_ChannelID := channelID\<rparr> else key)
      in if rk_Group key = [] then key\<lparr>rk_Group := qo_Group options\<rparr> else key)"

definition normalizedPoolQueueRuntimeKey :: "acquire_options \<Rightarrow> runtime_key" where
  "normalizedPoolQueueRuntimeKey options =
     (let key = (qo_RuntimeKey options)\<lparr>rk_ChannelID := 0\<rparr>
      in if rk_Group key = [] then key\<lparr>rk_Group := qo_Group options\<rparr> else key)"

text \<open>
  The admission test that \<^verbatim>\<open>tryEnterQueue\<close> and \<^verbatim>\<open>tryEnterPoolQueue\<close> share: the result is the reason
  of a refusal, or \<open>None\<close>.
\<close>

definition admission :: "queue_manager \<Rightarrow> 'k queue_side \<Rightarrow> 'k \<Rightarrow> int \<Rightarrow> acquire_options \<Rightarrow> string option" where
  "admission m s k channelID options =
     (let currentDepth = gcount (qs_depths s) k;
          currentGroupDepth = groupDepthLocked s k (qo_Group options);
          maxDepth = (if qo_MaxDepth options > 0 then qo_MaxDepth options else qm_maxDepth m);
          ctx = \<lparr>qc_ChannelID = channelID, qc_Group = qo_Group options, qc_Priority = qo_Priority options,
                 qc_CurrentDepth = currentDepth, qc_CurrentGroupDepth = currentGroupDepth,
                 qc_GroupDepths = cloneGroupDepthsLocked s k, qc_MaxDepth = maxDepth\<rparr>;
          refused = Some (queueRejectReason (qo_Priority options) currentDepth maxDepth)
      in case qm_admissionPolicy m of
           NoPolicy \<Rightarrow> if currentDepth \<ge> maxDepth then Some ''max_depth_reached'' else None
         | PriorityPolicy p \<Rightarrow> if priority_AllowQueue p ctx then None else refused
         | PolicyFunc f \<Rightarrow> if func_AllowQueue f ctx then None else refused)"

definition new_waiter :: "queue_manager \<Rightarrow> acquire_options \<Rightarrow> runtime_key \<Rightarrow> queue_waiter" where
  "new_waiter m options key =
     \<lparr>qw_Group = qo_Group options, qw_Priority = qo_Priority options,
      qw_HighPriority = isHighPriorityLocked m (qo_Group options) (qo_Priority options),
      qw_RuntimeKey = key, qw_Sequence = qm_nextWaiterSeq m + 1\<rparr>"

definition tryEnterQueue :: "queue_manager \<Rightarrow> int \<Rightarrow> acquire_options \<Rightarrow> queue_waiter option \<times> queue_manager" where
  "tryEnterQueue m channelID options =
     (case admission m (qm_channels m) channelID channelID options of
        Some reason \<Rightarrow> (None, m\<lparr>qm_rejectReasons := ginc reason (qm_rejectReasons m)\<rparr>)
      | None \<Rightarrow>
          (let waiter = new_waiter m options (normalizedQueueRuntimeKey channelID options)
           in (Some waiter, m\<lparr>qm_channels := side_enter (qm_channels m) channelID waiter,
                              qm_nextWaiterSeq := qm_nextWaiterSeq m + 1\<rparr>)))"

definition tryEnterPoolQueue :: "queue_manager \<Rightarrow> string \<Rightarrow> acquire_options \<Rightarrow> queue_waiter option \<times> queue_manager" where
  "tryEnterPoolQueue m poolKey options =
     (if poolKey = [] then (None, m)
      else case admission m (qm_pools m) poolKey 0 options of
        Some reason \<Rightarrow> (None, m\<lparr>qm_rejectReasons := ginc reason (qm_rejectReasons m)\<rparr>)
      | None \<Rightarrow>
          (let waiter = new_waiter m options (normalizedPoolQueueRuntimeKey options)
           in (Some waiter, m\<lparr>qm_pools := side_enter (qm_pools m) poolKey waiter,
                              qm_nextWaiterSeq := qm_nextWaiterSeq m + 1\<rparr>)))"

definition leaveQueue :: "queue_manager \<Rightarrow> int \<Rightarrow> queue_waiter \<Rightarrow> queue_manager" where
  "leaveQueue m channelID waiter = m\<lparr>qm_channels := side_leave (qm_channels m) channelID waiter\<rparr>"

definition leavePoolQueue :: "queue_manager \<Rightarrow> string \<Rightarrow> queue_waiter \<Rightarrow> queue_manager" where
  "leavePoolQueue m poolKey waiter =
     (if poolKey = [] then m else m\<lparr>qm_pools := side_leave (qm_pools m) poolKey waiter\<rparr>)"

definition isQueueTurn :: "queue_manager \<Rightarrow> int \<Rightarrow> queue_waiter \<Rightarrow> bool" where
  "isQueueTurn m channelID target = side_turn (qm_channels m) channelID target"

definition isPoolQueueTurn :: "queue_manager \<Rightarrow> string \<Rightarrow> queue_waiter \<Rightarrow> bool" where
  "isPoolQueueTurn m poolKey target =
     (if poolKey = [] then True else side_turn (qm_pools m) poolKey target)"

definition Depth :: "queue_manager \<Rightarrow> int \<Rightarrow> int" where
  "Depth m channelID = gcount (qs_depths (qm_channels m)) channelID"

definition PoolDepth :: "queue_manager \<Rightarrow> string \<Rightarrow> int" where
  "PoolDepth m poolKey = (if poolKey = [] then 0 else gcount (qs_depths (qm_pools m)) poolKey)"

section \<open>Acquisition\<close>

text \<open>
  The duration a request may wait: \<^verbatim>\<open>time.Duration(plan.QueueWaitMs) * time.Millisecond\<close> wraps at
  64 bits; a value that is not positive, or above the manager's timeout, is replaced by it.
\<close>

definition wait_timeout :: "queue_manager \<Rightarrow> dispatch_plan \<Rightarrow> int" where
  "wait_timeout m plan =
     (let timeout = i64 (dp_QueueWaitMs plan * Millisecond);
          timeout = (if timeout \<le> 0 then qm_timeout m else timeout)
      in if timeout > qm_timeout m then qm_timeout m else timeout)"

definition may_wait :: "dispatch_plan option \<Rightarrow> bool" where
  "may_wait plan = (case plan of None \<Rightarrow> False | Some p \<Rightarrow> dp_QueueEnabled p \<and> dp_QueueWaitMs p > 0)"

datatype wait_event = CtxDone | TimerFired | TickerFired

text \<open>
  A request that calls \<^verbatim>\<open>AcquireWithOptions\<close> is either done with a result or waits with the
  lease of its last attempt.
\<close>

datatype acquisition =
    AcquireDone acquire_result
  | AcquireWaiting queue_waiter concurrency_lease int

definition AcquireWithOptions ::
  "queue_manager \<Rightarrow> concurrency_state \<Rightarrow> dispatch_plan option \<Rightarrow> int \<Rightarrow> channel_settings \<Rightarrow> acquire_options
   \<Rightarrow> acquisition \<times> queue_manager \<times> concurrency_state" where
  "AcquireWithOptions m st plan channelID setting options =
     (case TryAcquireChannelConcurrency st channelID setting of (lease, ok, st) \<Rightarrow>
        if ok then (AcquireDone (acquire_result_of (Some lease) QueueAcquireAcquired 0), m, st)
        else if \<not> may_wait plan
          then (AcquireDone (acquire_result_of (Some lease) QueueAcquireRejected 0), m, st)
        else case tryEnterQueue m channelID options of
               (None, m) \<Rightarrow> (AcquireDone (acquire_result_of (Some lease) QueueAcquireRejected 0), m, st)
             | (Some waiter, m) \<Rightarrow> (AcquireWaiting waiter lease (wait_timeout m (the plan)), m, st))"

definition empty_acquire_options :: acquire_options where
  "empty_acquire_options = \<lparr>qo_Group = [], qo_Priority = 0, qo_RuntimeKey = zero_runtime_key, qo_MaxDepth = 0\<rparr>"

definition Acquire ::
  "queue_manager \<Rightarrow> concurrency_state \<Rightarrow> dispatch_plan option \<Rightarrow> int \<Rightarrow> channel_settings
   \<Rightarrow> acquisition \<times> queue_manager \<times> concurrency_state" where
  "Acquire m st plan channelID setting = AcquireWithOptions m st plan channelID setting empty_acquire_options"

definition acquire_event ::
  "queue_manager \<Rightarrow> concurrency_state \<Rightarrow> int \<Rightarrow> channel_settings \<Rightarrow> queue_waiter \<Rightarrow> concurrency_lease \<Rightarrow> int
   \<Rightarrow> wait_event \<Rightarrow> int \<Rightarrow> acquisition \<times> queue_manager \<times> concurrency_state" where
  "acquire_event m st channelID setting waiter lease timeout event elapsed =
     (case event of
        CtxDone \<Rightarrow> (AcquireDone (acquire_result_of (Some lease) QueueAcquireRejected elapsed),
                    leaveQueue m channelID waiter, st)
      | TimerFired \<Rightarrow> (AcquireDone (acquire_result_of (Some lease) QueueAcquireRejected elapsed),
                       leaveQueue m channelID waiter, st)
      | TickerFired \<Rightarrow>
          (if \<not> isQueueTurn m channelID waiter then (AcquireWaiting waiter lease timeout, m, st)
           else case TryAcquireChannelConcurrency st channelID setting of (nextLease, acquired, st) \<Rightarrow>
             if acquired then (AcquireDone (acquire_result_of (Some nextLease) QueueAcquireQueued elapsed),
                               leaveQueue m channelID waiter, st)
             else (AcquireWaiting waiter nextLease timeout, m, st)))"

text \<open>
  The pool variant. The callback \<^verbatim>\<open>TryAcquire\<close> of the options re-runs the caller's selection and
  acts on the caller's state \<open>'s\<close>.
\<close>

definition rejected_if_none :: "acquire_result \<Rightarrow> acquire_result" where
  "rejected_if_none r = (if qr_Status r = StatusNone then r\<lparr>qr_Status := QueueAcquireRejected\<rparr> else r)"

datatype pool_acquisition =
    PoolDone acquire_result
  | PoolWaiting queue_waiter acquire_result int

definition AcquirePoolWithOptions ::
  "('s \<Rightarrow> acquire_result \<times> 's) option \<Rightarrow> queue_manager \<Rightarrow> 's \<Rightarrow> dispatch_plan option \<Rightarrow> string
   \<Rightarrow> acquire_options \<Rightarrow> pool_acquisition \<times> queue_manager \<times> 's" where
  "AcquirePoolWithOptions TryAcquire m st plan poolKey options =
     (case TryAcquire of
        None \<Rightarrow> (PoolDone (acquire_result_of None QueueAcquireRejected 0), m, st)
      | Some try_acquire \<Rightarrow>
         (case try_acquire st of (result, st) \<Rightarrow>
            if qr_Status result = QueueAcquireAcquired \<or> qr_Status result = QueueAcquireQueued
               \<or> qr_StopWaiting result then (PoolDone result, m, st)
            else if \<not> may_wait plan then (PoolDone (rejected_if_none result), m, st)
            else case tryEnterPoolQueue m poolKey options of
                   (None, m) \<Rightarrow> (PoolDone (rejected_if_none result), m, st)
                 | (Some waiter, m) \<Rightarrow> (PoolWaiting waiter result (wait_timeout m (the plan)), m, st)))"

definition pool_event ::
  "('s \<Rightarrow> acquire_result \<times> 's) \<Rightarrow> queue_manager \<Rightarrow> 's \<Rightarrow> string \<Rightarrow> queue_waiter \<Rightarrow> acquire_result \<Rightarrow> int
   \<Rightarrow> wait_event \<Rightarrow> int \<Rightarrow> pool_acquisition \<times> queue_manager \<times> 's" where
  "pool_event try_acquire m st poolKey waiter result timeout event elapsed =
     (case event of
        CtxDone \<Rightarrow> (PoolDone (rejected_if_none (result\<lparr>qr_WaitTime := elapsed\<rparr>)), leavePoolQueue m poolKey waiter, st)
      | TimerFired \<Rightarrow> (PoolDone (rejected_if_none (result\<lparr>qr_WaitTime := elapsed\<rparr>)), leavePoolQueue m poolKey waiter, st)
      | TickerFired \<Rightarrow>
          (if \<not> isPoolQueueTurn m poolKey waiter then (PoolWaiting waiter result timeout, m, st)
           else case try_acquire st of (next, st) \<Rightarrow>
             if qr_Status next = QueueAcquireAcquired \<or> qr_Status next = QueueAcquireQueued
               then (PoolDone (next\<lparr>qr_Status := QueueAcquireQueued, qr_WaitTime := elapsed\<rparr>),
                     leavePoolQueue m poolKey waiter, st)
             else if qr_StopWaiting next
               then (PoolDone (rejected_if_none (next\<lparr>qr_WaitTime := elapsed\<rparr>)), leavePoolQueue m poolKey waiter, st)
             else (PoolWaiting waiter
                     (if qr_Status next \<noteq> StatusNone \<or> qr_Lease next \<noteq> None \<or> qr_Plan next \<noteq> None
                      then next else result) timeout, m, st)))"

end
