(* ===== verification/Queue_Properties.thy ===== *)
theory Queue_Properties
  imports Queue_Manager
begin

text \<open>
  What the waiting queues guarantee: the maps of a half agree with one list of waiters per key
  (the abstract queue), entering and leaving implement append and removal on it, the scan for the
  best waiter finds the head of the sorted list, the depth stays below the bound of the admission
  policy, and the wait is bounded by the manager's timeout.
\<close>

section \<open>The order of waiters\<close>

lemma same_identity_eq [simp]: "queueWaiterSameIdentity w v \<longleftrightarrow> w = v"
  by (auto simp: queueWaiterSameIdentity_def)

interpretation precedes: strict_weak_order queueWaiterPrecedes
  by unfold_locales (auto simp: queueWaiterPrecedes_def split: if_splits)

lemma precedes_total:
  "qw_Sequence w \<noteq> qw_Sequence v \<Longrightarrow> queueWaiterPrecedes w v \<or> queueWaiterPrecedes v w"
  by (auto simp: queueWaiterPrecedes_def)

text \<open>The order of service, by the data of two waiters: priority, then promotion, then arrival.\<close>

definition served_before :: "queue_waiter \<Rightarrow> queue_waiter \<Rightarrow> bool" where
  "served_before w v \<longleftrightarrow> qw_Priority w > qw_Priority v
     \<or> qw_Priority w = qw_Priority v \<and>
       (qw_HighPriority w \<and> \<not> qw_HighPriority v
        \<or> qw_HighPriority w = qw_HighPriority v \<and> qw_Sequence w < qw_Sequence v)"

lemma precedes_served: "queueWaiterPrecedes w v \<longleftrightarrow> served_before w v"
  by (auto simp: queueWaiterPrecedes_def served_before_def)

lemma precedes_irrefl [simp]: "\<not> queueWaiterPrecedes w w"
  by (simp add: queueWaiterPrecedes_def)

lemma best_waiter_mem: "best_waiter b ws \<in> insert b (set ws)"
  by (induction b ws rule: best_waiter.induct) auto

lemma best_waiter_least: "v \<in> insert b (set ws) \<Longrightarrow> \<not> queueWaiterPrecedes v (best_waiter b ws)"
proof (induction b ws arbitrary: v rule: best_waiter.induct)
  case (2 b w ws)
  define b' where "b' = (if queueWaiterPrecedes w b then w else b)"
  have "\<not> queueWaiterPrecedes b' (best_waiter b' ws)" using "2.IH" by (simp add: b'_def)
  moreover have "\<not> queueWaiterPrecedes b b'" "\<not> queueWaiterPrecedes w b'"
    by (auto simp: b'_def dest: precedes.asym)
  ultimately show ?case
    using "2.IH" [of v] "2.prems" precedes.neg_trans by (auto simp: b'_def [symmetric])
qed simp

lemma least_unique:
  assumes "distinct (map qw_Sequence ws)" and "v \<in> set ws" and "w \<in> set ws"
    and "\<forall>u \<in> set ws. \<not> queueWaiterPrecedes u v" and "\<forall>u \<in> set ws. \<not> queueWaiterPrecedes u w"
  shows "v = w"
  using assms precedes_total [of v w] by (auto simp: distinct_map inj_on_def)

lemma SliceStable_hd_least:
  assumes "ws \<noteq> []"
  shows "hd (SliceStable queueWaiterPrecedes ws) \<in> set ws"
    and "\<forall>u \<in> set ws. \<not> queueWaiterPrecedes u (hd (SliceStable queueWaiterPrecedes ws))"
proof -
  obtain x xs where e: "SliceStable queueWaiterPrecedes ws = x # xs"
    using assms by (metis length_0_conv length_SliceStable list.exhaust)
  have s: "set ws = insert x (set xs)" using set_SliceStable [of queueWaiterPrecedes ws] by (simp add: e)
  then show "hd (SliceStable queueWaiterPrecedes ws) \<in> set ws" by (simp add: e)
  have "sorted_wrt (\<lambda>x y. \<not> queueWaiterPrecedes y x) (x # xs)"
    using precedes.sorted [of ws] by (simp add: e)
  then show "\<forall>u \<in> set ws. \<not> queueWaiterPrecedes u (hd (SliceStable queueWaiterPrecedes ws))"
    by (auto simp: e s)
qed

lemma best_waiter_sorted:
  assumes "distinct (map qw_Sequence (w # ws))"
  shows "best_waiter w ws = hd (SliceStable queueWaiterPrecedes (w # ws))"
  using SliceStable_hd_least [of "w # ws"] best_waiter_mem [of w ws] best_waiter_least [of _ w ws]
  by (intro least_unique [OF assms]) auto

section \<open>The abstract queue\<close>

text \<open>
  A half of the manager implements one list of waiters per key: entering appends to the list of
  the key, leaving removes the waiter from it, and the other keys are untouched.
\<close>

locale waiting_line =
  fixes enter :: "'s \<Rightarrow> 'k \<Rightarrow> 'w \<Rightarrow> 's" and leave :: "'s \<Rightarrow> 'k \<Rightarrow> 'w \<Rightarrow> 's"
    and line :: "'s \<Rightarrow> 'k \<Rightarrow> 'w list" and ok :: "'s \<Rightarrow> bool"
  assumes enter_line: "ok s \<Longrightarrow> line (enter s k w) = (line s)(k := line s k @ [w])"
    and leave_line: "ok s \<Longrightarrow> w \<in> set (line s k) \<Longrightarrow> line (leave s k w) = (line s)(k := remove1 w (line s k))"
    and enter_ok: "ok s \<Longrightarrow> ok (enter s k w)"
    and leave_ok: "ok s \<Longrightarrow> w \<in> set (line s k) \<Longrightarrow> ok (leave s k w)"
begin

lemma enter_leave:
  assumes "ok s" and "w \<notin> set (line s k)"
  shows "line (leave (enter s k w) k w) = line s" and "ok (leave (enter s k w) k w)"
proof -
  have "w \<in> set (line (enter s k w) k)" using assms(1) by (simp add: enter_line)
  then show "line (leave (enter s k w) k w) = line s" "ok (leave (enter s k w) k w)"
    using assms by (auto simp: leave_line leave_ok enter_ok enter_line remove1_append)
qed

lemma leave_commute:
  assumes "ok s" and "v \<in> set (line s k)" and "w \<in> set (line s k)" and "v \<noteq> w"
  shows "line (leave (leave s k v) k w) = line (leave (leave s k w) k v)"
proof -
  have "w \<in> set (line (leave s k v) k)" "v \<in> set (line (leave s k w) k)"
    using assms by (auto simp: leave_line)
  then show ?thesis
    using assms by (simp add: leave_line leave_ok remove1_commute)
qed

end

definition entry :: "int \<Rightarrow> int option" where
  "entry n = (if n = 0 then None else Some n)"

definition group_count :: "queue_waiter list \<Rightarrow> string \<Rightarrow> int" where
  "group_count ws g = int (length (filter (\<lambda>w. qw_Group w = g) ws))"

definition side_wf :: "'k queue_side \<Rightarrow> bool" where
  "side_wf s \<longleftrightarrow>
     gwf (qs_depths s) \<and> gwf (qs_groupDepths s) \<and> gwf (qs_waiters s)
     \<and> (\<forall>k. map_of (qs_waiters s) k \<noteq> Some [] \<and> map_of (qs_groupDepths s) k \<noteq> Some [] \<and> gwf (groups_of s k)
          \<and> map_of (qs_depths s) k = entry (int (length (waiters_of s k)))
          \<and> (\<forall>g. map_of (groups_of s k) g = entry (group_count (waiters_of s k) g)))"

lemma gcount_entry: "map_of m k = entry n \<Longrightarrow> gcount m k = n"
  by (auto simp: gcount_def entry_def split: if_splits)

lemma side_depth: "side_wf s \<Longrightarrow> gcount (qs_depths s) k = int (length (waiters_of s k))"
  by (rule gcount_entry) (simp add: side_wf_def)

lemma side_group: "side_wf s \<Longrightarrow> gcount (groups_of s k) g = group_count (waiters_of s k) g"
  by (rule gcount_entry) (simp add: side_wf_def)

lemma side_empty: "side_wf empty_side"
  by (simp add: side_wf_def empty_side_def groups_of_def waiters_of_def entry_def group_count_def)

lemma side_wfI:
  assumes "gwf (qs_depths s)" "gwf (qs_groupDepths s)" "gwf (qs_waiters s)"
    and "\<And>k. map_of (qs_waiters s) k \<noteq> Some []" "\<And>k. map_of (qs_groupDepths s) k \<noteq> Some []"
    and "\<And>k. gwf (groups_of s k)"
    and "\<And>k. map_of (qs_depths s) k = entry (int (length (waiters_of s k)))"
    and "\<And>k g. map_of (groups_of s k) g = entry (group_count (waiters_of s k) g)"
  shows "side_wf s"
  using assms by (simp add: side_wf_def)

lemma side_updates [simp]:
  "waiters_of (s\<lparr>qs_depths := d\<rparr>) = waiters_of s" "waiters_of (s\<lparr>qs_groupDepths := g\<rparr>) = waiters_of s"
  "groups_of (s\<lparr>qs_depths := d\<rparr>) = groups_of s" "groups_of (s\<lparr>qs_waiters := v\<rparr>) = groups_of s"
  by (simp_all add: waiters_of_def groups_of_def fun_eq_iff)

lemma side_enter_fields:
  "qs_depths (side_enter s k w) = ginc k (qs_depths s)"
  "qs_groupDepths (side_enter s k w) = gput k (ginc (qw_Group w) (groups_of s k)) (qs_groupDepths s)"
  "qs_waiters (side_enter s k w) = gput k (waiters_of s k @ [w]) (qs_waiters s)"
  by (simp_all add: side_enter_def)

lemma waiters_enter: "waiters_of (side_enter s k w) = (waiters_of s)(k := waiters_of s k @ [w])"
  by (rule ext) (simp add: side_enter_def waiters_of_def go_map_simps)

lemma groups_enter: "groups_of (side_enter s k w) = (groups_of s)(k := ginc (qw_Group w) (groups_of s k))"
  by (rule ext) (simp add: side_enter_def groups_of_def go_map_simps)

lemma group_count_append: "group_count (ws @ [w]) g = group_count ws g + (if qw_Group w = g then 1 else 0)"
  by (simp add: group_count_def)

lemma group_count_nonneg [simp]: "0 \<le> group_count ws g"
  by (simp add: group_count_def)

lemma ginc_entry:
  assumes "map_of m g = entry n" and "0 \<le> n"
  shows "map_of (ginc g m) g = entry (n + 1)"
  using assms gcount_entry [OF assms(1)] by (simp add: ginc_def go_map_simps entry_def)

lemma side_enter_wf:
  assumes "side_wf s"
  shows "side_wf (side_enter s k w)"
proof (rule side_wfI)
  show "gwf (qs_depths (side_enter s k w))" "gwf (qs_groupDepths (side_enter s k w))"
    "gwf (qs_waiters (side_enter s k w))"
    using assms by (simp_all add: side_wf_def side_enter_fields)
  show "map_of (qs_waiters (side_enter s k w)) j \<noteq> Some []" for j
    using assms by (simp add: side_wf_def side_enter_fields go_map_simps)
  have "ginc (qw_Group w) (groups_of s k) \<noteq> []" by (simp add: ginc_def AList.update_nonempty)
  then show "map_of (qs_groupDepths (side_enter s k w)) j \<noteq> Some []" for j
    using assms by (simp add: side_wf_def side_enter_fields go_map_simps)
  show "gwf (groups_of (side_enter s k w) j)" for j
    using assms by (simp add: side_wf_def groups_enter)
  have d: "map_of (qs_depths s) k = entry (int (length (waiters_of s k)))"
    using assms by (simp add: side_wf_def)
  show "map_of (qs_depths (side_enter s k w)) j = entry (int (length (waiters_of (side_enter s k w) j)))" for j
    using assms ginc_entry [OF d] by (simp add: side_wf_def waiters_enter side_enter_fields ginc_def go_map_simps add.commute)
  have g: "map_of (groups_of s k) g = entry (group_count (waiters_of s k) g)" for g
    using assms by (simp add: side_wf_def)
  show "map_of (groups_of (side_enter s k w) j) g = entry (group_count (waiters_of (side_enter s k w) j) g)" for j g
    using assms ginc_entry [OF g [of g]] g
    by (auto simp: side_wf_def groups_enter waiters_enter group_count_append ginc_def go_map_simps)
qed

lemma remove_waiter_eq: "remove_waiter ws w = (if w \<in> set ws then Some (remove1 w ws) else None)"
  by (induction ws) auto

lemma waiters_put: "waiters_of (put_waiters s k ws) = (waiters_of s)(k := ws)"
  by (rule ext) (simp add: put_waiters_def waiters_of_def go_map_simps)

lemma put_waiters_fields [simp]:
  "qs_depths (put_waiters s k ws) = qs_depths s" "qs_groupDepths (put_waiters s k ws) = qs_groupDepths s"
  by (simp_all add: put_waiters_def)

lemma removeQueueWaiter_mem:
  "w \<in> set (waiters_of s k) \<Longrightarrow> removeQueueWaiterLocked s k w = put_waiters s k (remove1 w (waiters_of s k))"
  by (auto simp: removeQueueWaiterLocked_def remove_waiter_eq Let_def)

definition left_groups :: "(string, int) gomap \<Rightarrow> string \<Rightarrow> (string, int) gomap" where
  "left_groups m g = (if gcount m g \<le> 1 then gdel g m else gput g (gcount m g - 1) m)"

lemma leave_groups_fields [simp]:
  "qs_depths (leave_groups s k g) = qs_depths s" "qs_waiters (leave_groups s k g) = qs_waiters s"
  "waiters_of (leave_groups s k g) = waiters_of s"
  by (simp_all add: leave_groups_def Let_def split: option.split)

lemma groups_leave:
  assumes "map_of (qs_groupDepths s) k \<noteq> None"
  shows "groups_of (leave_groups s k g) = (groups_of s)(k := left_groups (groups_of s k) g)"
  using assms by (intro ext) (auto simp: leave_groups_def groups_of_def left_groups_def go_map_simps Let_def)

lemma group_count_remove1:
  "w \<in> set ws \<Longrightarrow> group_count (remove1 w ws) g = group_count ws g - (if qw_Group w = g then 1 else 0)"
  by (induction ws) (auto simp: group_count_def)

lemma group_count_pos: "w \<in> set ws \<Longrightarrow> 0 < group_count ws (qw_Group w)"
  by (auto simp: group_count_def filter_empty_conv)

lemma left_groups_entry:
  assumes "\<forall>g. map_of m g = entry (f g)" and "0 < f g"
  shows "map_of (left_groups m g) h = entry (f h - (if g = h then 1 else 0))"
  using assms gcount_entry [of m g "f g"] by (auto simp: left_groups_def go_map_simps entry_def)

lemma leave_eq:
  assumes "w \<in> set (waiters_of s k)"
  shows "side_leave s k w =
    put_waiters ((leave_groups s k (qw_Group w))\<lparr>qs_depths := (if gcount (qs_depths s) k \<le> 1
        then gdel k (qs_depths s) else gput k (gcount (qs_depths s) k - 1) (qs_depths s))\<rparr>) k
      (remove1 w (waiters_of s k))"
  using assms by (simp add: side_leave_def removeQueueWaiter_mem Let_def)

lemma waiters_leave:
  "w \<in> set (waiters_of s k) \<Longrightarrow> waiters_of (side_leave s k w) = (waiters_of s)(k := remove1 w (waiters_of s k))"
  by (simp add: leave_eq waiters_put)

lemma side_leave_wf:
  assumes wf: "side_wf s" and mem: "w \<in> set (waiters_of s k)"
  shows "side_wf (side_leave s k w)"
proof -
  define g where "g = qw_Group w"
  have m: "\<forall>h. map_of (groups_of s k) h = entry (group_count (waiters_of s k) h)"
    using wf by (simp add: side_wf_def)
  have pos: "0 < group_count (waiters_of s k) g" using group_count_pos [OF mem] by (simp add: g_def)
  then have some: "map_of (qs_groupDepths s) k \<noteq> None"
    using m [rule_format, of g] by (cases "map_of (qs_groupDepths s) k") (auto simp: groups_of_def entry_def)
  note gr = groups_leave [OF some, of g]
  have groups: "groups_of (side_leave s k w) = groups_of (leave_groups s k g)"
    by (simp add: leave_eq [OF mem] groups_of_def g_def fun_eq_iff)
  show ?thesis
  proof (rule side_wfI)
    show "gwf (qs_depths (side_leave s k w))" "gwf (qs_waiters (side_leave s k w))"
      using wf by (simp_all add: leave_eq [OF mem] side_wf_def) (simp add: put_waiters_def)
    show "gwf (qs_groupDepths (side_leave s k w))"
      using wf some by (auto simp: leave_eq [OF mem] side_wf_def leave_groups_def Let_def split: option.split)
    show "map_of (qs_waiters (side_leave s k w)) j \<noteq> Some []" for j
      using wf by (simp add: leave_eq [OF mem] side_wf_def) (simp add: put_waiters_def go_map_simps)
    show "map_of (qs_groupDepths (side_leave s k w)) j \<noteq> Some []" for j
      using wf some by (auto simp: leave_eq [OF mem] side_wf_def leave_groups_def Let_def go_map_simps
          split: if_split_asm)
    show "gwf (groups_of (side_leave s k w) j)" for j
      using wf by (simp add: groups gr side_wf_def left_groups_def)
    show "map_of (qs_depths (side_leave s k w)) j = entry (int (length (waiters_of (side_leave s k w) j)))" for j
    proof (cases "j = k")
      case True
      have ge: "1 \<le> length (waiters_of s k)" using length_pos_if_in_set [OF mem] by linarith
      have len: "int (length (remove1 w (waiters_of s k))) = int (length (waiters_of s k)) - 1"
        using mem ge by (simp add: length_remove1 of_nat_diff)
      show ?thesis
        using True side_depth [OF wf, of k]
        by (simp add: waiters_leave [OF mem] len)
          (use ge in \<open>auto simp: leave_eq [OF mem] go_map_simps entry_def\<close>)
    next
      case False
      have "map_of (qs_depths s) j = entry (int (length (waiters_of s j)))" using wf by (simp add: side_wf_def)
      with False show ?thesis
        by (simp add: waiters_leave [OF mem]) (simp add: leave_eq [OF mem] go_map_simps)
    qed
    show "map_of (groups_of (side_leave s k w) j) h = entry (group_count (waiters_of (side_leave s k w) j) h)" for j h
      using wf left_groups_entry [OF m pos, of h] group_count_remove1 [OF mem, of h]
      by (cases "j = k") (simp_all add: groups gr waiters_leave [OF mem] side_wf_def g_def [symmetric])
  qed
qed

interpretation side_line: waiting_line side_enter side_leave waiters_of side_wf
  by unfold_locales (simp_all add: waiters_enter waiters_leave side_enter_wf side_leave_wf)

section \<open>The manager's invariant\<close>

definition line_ok :: "int \<Rightarrow> queue_waiter list \<Rightarrow> bool" where
  "line_ok seq ws \<longleftrightarrow> distinct (map qw_Sequence ws) \<and> (\<forall>w \<in> set ws. qw_Sequence w \<le> seq)"

definition manager_wf :: "queue_manager \<Rightarrow> bool" where
  "manager_wf m \<longleftrightarrow>
     side_wf (qm_channels m) \<and> side_wf (qm_pools m) \<and> 0 < qm_timeout m \<and> 0 < qm_maxDepth m
     \<and> (\<forall>k. line_ok (qm_nextWaiterSeq m) (waiters_of (qm_channels m) k))
     \<and> (\<forall>k. line_ok (qm_nextWaiterSeq m) (waiters_of (qm_pools m) k))"

lemma line_ok_Nil [simp]: "line_ok n []"
  by (simp add: line_ok_def)

lemma line_ok_mono: "line_ok n ws \<Longrightarrow> line_ok (n + 1) ws"
  by (auto simp: line_ok_def)

lemma line_ok_append: "line_ok n ws \<Longrightarrow> qw_Sequence w = n + 1 \<Longrightarrow> line_ok (n + 1) (ws @ [w])"
  by (fastforce simp: line_ok_def)

lemma line_ok_remove: "line_ok n ws \<Longrightarrow> line_ok n (remove1 w ws)"
proof (induction ws)
  case (Cons v ws)
  then show ?case
    using set_remove1_subset [of w ws] by (auto simp: line_ok_def)
qed simp

lemma new_waiter_seq [simp]: "qw_Sequence (new_waiter m options key) = qm_nextWaiterSeq m + 1"
  by (simp add: new_waiter_def)

lemma NewQueueManager_wf: "manager_wf (NewQueueManagerWithAdmissionPolicy timeout maxDepth policy)"
  by (simp add: manager_wf_def NewQueueManagerWithAdmissionPolicy_def side_empty waiters_of_def empty_side_def
      [symmetric] defaultQueueTimeoutMs_def defaultQueueMaxDepth_def Millisecond_def) (simp add: empty_side_def)

lemma tryEnterQueue_wf: "manager_wf m \<Longrightarrow> manager_wf (snd (tryEnterQueue m c options))"
  by (auto simp: tryEnterQueue_def manager_wf_def side_enter_wf waiters_enter line_ok_mono line_ok_append Let_def
      split: option.split)

lemma tryEnterPoolQueue_wf: "manager_wf m \<Longrightarrow> manager_wf (snd (tryEnterPoolQueue m p options))"
  by (auto simp: tryEnterPoolQueue_def manager_wf_def side_enter_wf waiters_enter line_ok_mono line_ok_append Let_def
      split: option.split)

lemma leaveQueue_wf:
  "manager_wf m \<Longrightarrow> w \<in> set (waiters_of (qm_channels m) c) \<Longrightarrow> manager_wf (leaveQueue m c w)"
  by (auto simp: leaveQueue_def manager_wf_def side_leave_wf waiters_leave line_ok_remove)

lemma leavePoolQueue_wf:
  "manager_wf m \<Longrightarrow> w \<in> set (waiters_of (qm_pools m) p) \<Longrightarrow> manager_wf (leavePoolQueue m p w)"
  by (auto simp: leavePoolQueue_def manager_wf_def side_leave_wf waiters_leave line_ok_remove)

lemmas manager_ops_wf = NewQueueManager_wf tryEnterQueue_wf tryEnterPoolQueue_wf leaveQueue_wf leavePoolQueue_wf

section \<open>Whose turn it is\<close>

lemma side_turn_sorted:
  assumes "line_ok n (waiters_of s k)" and "w \<in> set (waiters_of s k)"
  shows "side_turn s k w \<longleftrightarrow> w = hd (SliceStable queueWaiterPrecedes (waiters_of s k))"
proof (cases "waiters_of s k")
  case (Cons v vs)
  show ?thesis
  proof (cases vs)
    case Nil
    then show ?thesis using assms(2) Cons by (simp add: side_turn_def SliceStable_def)
  next
    case (Cons u us)
    have ws: "waiters_of s k = v # u # us" using \<open>waiters_of s k = v # vs\<close> Cons by simp
    have "distinct (map qw_Sequence (v # u # us))" using assms(1) ws by (simp add: line_ok_def)
    from best_waiter_sorted [OF this] show ?thesis by (auto simp: side_turn_def ws simp del: best_waiter.simps)
  qed
qed (use assms(2) in simp)

lemma turn_iff_least:
  assumes "line_ok n (waiters_of s k)" and "w \<in> set (waiters_of s k)"
  shows "side_turn s k w \<longleftrightarrow> (\<forall>v \<in> set (waiters_of s k). v \<noteq> w \<longrightarrow> queueWaiterPrecedes w v)"
proof -
  have ne: "waiters_of s k \<noteq> []" using assms(2) by auto
  have d: "distinct (map qw_Sequence (waiters_of s k))" using assms(1) by (simp add: line_ok_def)
  have "w = hd (SliceStable queueWaiterPrecedes (waiters_of s k)) \<longleftrightarrow>
      (\<forall>v \<in> set (waiters_of s k). \<not> queueWaiterPrecedes v w)"
    using SliceStable_hd_least [OF ne] least_unique [OF d] assms(2) by metis
  moreover have "v \<in> set (waiters_of s k) \<Longrightarrow> v \<noteq> w \<Longrightarrow> queueWaiterPrecedes w v \<longleftrightarrow> \<not> queueWaiterPrecedes v w" for v
    using d assms(2) precedes_total [of v w] precedes.asym [of v w] by (auto simp: distinct_map inj_on_def)
  ultimately show ?thesis
    using side_turn_sorted [OF assms] precedes_irrefl by metis
qed

section \<open>Admission\<close>

text \<open>
  The contract of the Go interface \<^verbatim>\<open>QueueAdmissionPolicy\<close> with a bound: a policy that only
  admits below its bound keeps every queue it guards within that bound.
\<close>

locale bounded_admission =
  fixes allow :: "admission_context \<Rightarrow> bool" and bound :: "int \<Rightarrow> int"
  assumes allow_below: "allow ctx \<Longrightarrow> qc_CurrentDepth ctx < bound (qc_MaxDepth ctx)"
begin

lemma admitted_within: "allow ctx \<Longrightarrow> qc_CurrentDepth ctx + 1 \<le> bound (qc_MaxDepth ctx)"
  using allow_below [of ctx] by simp

end

definition priority_bound :: "priority_policy option \<Rightarrow> int \<Rightarrow> int" where
  "priority_bound po maxDepth =
     (case po of
        None \<Rightarrow> maxDepth
      | Some p \<Rightarrow> max (highPriorityLimit p maxDepth) (capQueueLimit maxDepth (fo_AbsoluteMaxDepth (pp_options p))))"

interpretation priority_admission: bounded_admission "priority_AllowQueue po" "priority_bound po" for po
  by unfold_locales (auto simp: priority_AllowQueue_def priority_bound_def allowNormalPriorityQueue_def Let_def
      split: option.splits if_splits)

interpretation depth_admission: bounded_admission "\<lambda>ctx. \<not> qc_CurrentDepth ctx \<ge> qc_MaxDepth ctx" "\<lambda>maxDepth. maxDepth"
  by unfold_locales simp

definition policy_bound :: "admission_policy \<Rightarrow> int \<Rightarrow> int" where
  "policy_bound policy maxDepth =
     (case policy of PriorityPolicy po \<Rightarrow> priority_bound po maxDepth | _ \<Rightarrow> maxDepth)"

definition queue_max :: "queue_manager \<Rightarrow> acquire_options \<Rightarrow> int" where
  "queue_max m options = (if qo_MaxDepth options > 0 then qo_MaxDepth options else qm_maxDepth m)"

lemma admission_bound:
  assumes "admission m s k c options = None" and "\<And>f. qm_admissionPolicy m \<noteq> PolicyFunc f"
  shows "gcount (qs_depths s) k + 1 \<le> policy_bound (qm_admissionPolicy m) (queue_max m options)"
proof (cases "qm_admissionPolicy m")
  case NoPolicy
  then show ?thesis
    using assms(1) by (simp add: admission_def policy_bound_def queue_max_def Let_def split: if_splits)
next
  case (PriorityPolicy po)
  then have "priority_AllowQueue po \<lparr>qc_ChannelID = c, qc_Group = qo_Group options,
      qc_Priority = qo_Priority options, qc_CurrentDepth = gcount (qs_depths s) k,
      qc_CurrentGroupDepth = groupDepthLocked s k (qo_Group options),
      qc_GroupDepths = cloneGroupDepthsLocked s k, qc_MaxDepth = queue_max m options\<rparr>"
    using assms(1) by (simp add: admission_def queue_max_def Let_def split: if_splits)
  from priority_admission.admitted_within [OF this] PriorityPolicy show ?thesis
    by (simp add: policy_bound_def)
qed (use assms(2) in blast)

lemma high_depth_filter:
  assumes "finite A" and "\<forall>w \<in> set ws. P (qw_Group w) \<longrightarrow> qw_Group w \<in> A"
  shows "(\<Sum>g \<in> A. if P g then group_count ws g else 0) = int (length (filter (\<lambda>w. P (qw_Group w)) ws))"
  using assms(2)
proof (induction ws)
  case (Cons w ws)
  have "group_count (w # ws) g = group_count ws g + (if qw_Group w = g then 1 else 0)" for g
    by (simp add: group_count_def)
  then have "(\<Sum>g \<in> A. if P g then group_count (w # ws) g else 0) =
      (\<Sum>g \<in> A. (if P g then group_count ws g else 0) + (if qw_Group w = g then if P g then 1 else 0 else 0))"
    by (intro sum.cong) auto
  also have "\<dots> = (\<Sum>g \<in> A. if P g then group_count ws g else 0)
      + (if qw_Group w \<in> A then if P (qw_Group w) then 1 else 0 else 0)"
    using assms(1) by (simp add: sum.distrib sum.delta')
  finally show ?case using Cons by auto
qed (simp add: group_count_def cong: if_cong)

lemma map_of_clone: "map_of (foldr (\<lambda>(g, d) m. gput g d m) xs []) = map_of xs"
  by (induction xs) (auto simp: go_map_simps)

lemma gwf_clone: "gwf (foldr (\<lambda>(g, d) m. gput g d m) xs [])"
  by (induction xs) auto

lemma gwf_sum:
  assumes "gwf m" and "\<forall>g. map_of m g = entry (f g)"
  shows "(\<Sum>(g, d) \<leftarrow> m. if P g then d else 0) = (\<Sum>g \<in> fst ` set m. if P g then f g else 0)"
proof -
  have "(g, d) \<in> set m \<Longrightarrow> d = f g" for g d
    using assms by (auto simp: gwf_mem_iff entry_def split: if_splits)
  then have "(\<Sum>(g, d) \<leftarrow> m. if P g then d else 0) = (\<Sum>p \<leftarrow> m. if P (fst p) then f (fst p) else 0)"
    by (intro arg_cong [where f = sum_list] map_cong) auto
  also have "\<dots> = (\<Sum>g \<leftarrow> map fst m. if P g then f g else 0)" by (simp add: comp_def)
  also have "\<dots> = (\<Sum>g \<in> fst ` set m. if P g then f g else 0)"
    using assms(1) sum_list_distinct_conv_sum_set [of "map fst m" "\<lambda>g. if P g then f g else 0"]
    by (simp add: gwf_def)
  finally show ?thesis .
qed

lemma high_depth_waiters:
  assumes "side_wf s"
  shows "currentHighPriorityDepth p (cloneGroupDepthsLocked s k) =
    int (length (filter (\<lambda>w. isHighPriorityGroup p (qw_Group w)) (waiters_of s k)))"
proof -
  define m where "m = foldr (\<lambda>(g, d) m. gput g d m) (groups_of s k) []"
  have clone: "cloneGroupDepthsLocked s k = m" by (simp add: cloneGroupDepthsLocked_def m_def)
  have e: "\<forall>g. map_of m g = entry (group_count (waiters_of s k) g)"
    using assms by (simp add: m_def map_of_clone side_wf_def)
  have "w \<in> set (waiters_of s k) \<Longrightarrow> qw_Group w \<in> fst ` set m" for w
    using e [rule_format, of "qw_Group w"] group_count_pos [of w "waiters_of s k"]
    by (auto simp: entry_def dest: map_of_SomeD intro: rev_image_eqI)
  then show ?thesis
    using gwf_sum [OF _ e, of "isHighPriorityGroup p"] high_depth_filter [of "fst ` set m" "waiters_of s k"]
    by (simp add: clone currentHighPriorityDepth_def m_def gwf_clone)
qed

section \<open>Properties\<close>

definition example_queue_options :: "string \<Rightarrow> int \<Rightarrow> acquire_options" where
  "example_queue_options g priority =
     \<lparr>qo_Group = g, qo_Priority = priority, qo_RuntimeKey = zero_runtime_key, qo_MaxDepth = 0\<rparr>"

definition example_waiter :: "int \<Rightarrow> int \<Rightarrow> queue_waiter" where
  "example_waiter priority seq =
     \<lparr>qw_Group = [], qw_Priority = priority, qw_HighPriority = 0 < priority,
      qw_RuntimeKey = zero_runtime_key\<lparr>rk_ChannelID := 7\<rparr>, qw_Sequence = seq\<rparr>"

definition example_manager :: queue_manager where
  "example_manager =
     snd (tryEnterQueue (snd (tryEnterQueue (NewQueueManager 0 2) 7 (example_queue_options [] 0)))
       7 (example_queue_options [] 5))"

lemma example_manager_wf: "manager_wf example_manager"
  by (simp add: example_manager_def NewQueueManager_def manager_ops_wf)

lemma example_manager_line:
  "waiters_of (qm_channels example_manager) 7 = [example_waiter 0 1, example_waiter 5 2]"
  by code_simp

text \<open>C24: In a well-formed manager the waiter whose turn it is is the head of the queue sorted by
  priority, promotion and arrival: it is unique, no waiter of a higher priority waits, and among
  equals it is the one that came first. This holds for the queues of channels and of pools.\<close>

theorem queue_turn_reference:
  assumes "manager_wf m"
  shows "(\<forall>w \<in> set (waiters_of (qm_channels m) c).
      (isQueueTurn m c w \<longleftrightarrow> w = hd (SliceStable queueWaiterPrecedes (waiters_of (qm_channels m) c)))
      \<and> (isQueueTurn m c w \<longleftrightarrow> (\<forall>v \<in> set (waiters_of (qm_channels m) c). v \<noteq> w \<longrightarrow> served_before w v)))
    \<and> (\<forall>w \<in> set (waiters_of (qm_pools m) p). p \<noteq> [] \<longrightarrow>
      (isPoolQueueTurn m p w \<longleftrightarrow> w = hd (SliceStable queueWaiterPrecedes (waiters_of (qm_pools m) p)))
      \<and> (isPoolQueueTurn m p w \<longleftrightarrow> (\<forall>v \<in> set (waiters_of (qm_pools m) p). v \<noteq> w \<longrightarrow> served_before w v)))"
proof -
  have l: "line_ok (qm_nextWaiterSeq m) (waiters_of (qm_channels m) c)"
    "line_ok (qm_nextWaiterSeq m) (waiters_of (qm_pools m) p)"
    using assms by (auto simp: manager_wf_def)
  show ?thesis
    by (simp add: isQueueTurn_def precedes_served [symmetric] isPoolQueueTurn_def side_turn_sorted [OF l(1)] side_turn_sorted [OF l(2)]
        turn_iff_least [OF l(1), symmetric] turn_iff_least [OF l(2), symmetric] flip: side_turn_sorted)
qed

theorem queue_turn_reference_witness:
  "isQueueTurn example_manager 7 (example_waiter 5 2) \<and> \<not> isQueueTurn example_manager 7 (example_waiter 0 1)"
proof -
  have "queueWaiterPrecedes (example_waiter 5 2) (example_waiter 0 1)"
    "\<not> queueWaiterPrecedes (example_waiter 0 1) (example_waiter 5 2)"
    "example_waiter 5 2 \<noteq> example_waiter 0 1"
    by code_simp+
  then show ?thesis
    using queue_turn_reference [OF example_manager_wf, of 7 "[]"] by (auto simp: example_manager_line precedes_served)
qed



text \<open>Entering a queue and leaving it again, whatever other waiters do there, is a round trip:
  the lists, the depths and the group depths are as before.\<close>

lemma queue_enter_leave_roundtrip:
  assumes "manager_wf m" and "tryEnterQueue m c options = (Some w, m')"
  shows "manager_wf (leaveQueue m' c w)
    \<and> waiters_of (qm_channels (leaveQueue m' c w)) = waiters_of (qm_channels m)
    \<and> Depth (leaveQueue m' c w) k = Depth m k
    \<and> groupDepthLocked (qm_channels (leaveQueue m' c w)) k g = groupDepthLocked (qm_channels m) k g"
proof -
  have m': "qm_channels m' = side_enter (qm_channels m) c w" "qw_Sequence w = qm_nextWaiterSeq m + 1"
    using assms(2) by (auto simp: tryEnterQueue_def Let_def split: option.splits)
  have side: "side_wf (qm_channels m)" and "line_ok (qm_nextWaiterSeq m) (waiters_of (qm_channels m) c)"
    using assms(1) by (auto simp: manager_wf_def)
  then have new: "w \<notin> set (waiters_of (qm_channels m) c)" using m'(2) by (auto simp: line_ok_def)
  have lines: "waiters_of (qm_channels (leaveQueue m' c w)) = waiters_of (qm_channels m)"
    and side': "side_wf (qm_channels (leaveQueue m' c w))"
    using side_line.enter_leave [OF side new] by (simp_all add: leaveQueue_def m')
  have "w \<in> set (waiters_of (qm_channels m') c)" by (simp add: m' waiters_enter)
  then have "manager_wf (leaveQueue m' c w)"
    using tryEnterQueue_wf [OF assms(1), of c options] assms(2) by (intro leaveQueue_wf) simp_all
  with lines show ?thesis
    by (simp add: Depth_def groupDepthLocked_def side_depth [OF side] side_depth [OF side']
        side_group [OF side] side_group [OF side'])
qed

lemma queue_enter_leave_roundtrip_witness:
  "Depth (leaveQueue (snd (tryEnterQueue example_manager 8 (example_queue_options [] 5))) 8
     (the (fst (tryEnterQueue example_manager 8 (example_queue_options [] 5))))) 7 = 2"
proof -
  define r where "r = tryEnterQueue example_manager 8 (example_queue_options [] 5)"
  have "fst r \<noteq> None" "Depth example_manager 7 = 2" unfolding r_def by code_simp+
  then show ?thesis
    using queue_enter_leave_roundtrip [OF example_manager_wf, of 8 "example_queue_options [] 5" "the (fst r)" "snd r" 7]
    by (simp add: r_def)
qed

text \<open>A queue guarded by the depth limit or by the priority policy never grows past the bound of
  that policy: every admission leaves the depth within the configured maximum plus the extra depth
  of high-priority requests, and within the absolute maximum if one is set.\<close>

lemma queue_depth_bound:
  assumes "manager_wf m" and "tryEnterQueue m c options = (Some w, m')"
    and "\<forall>f. qm_admissionPolicy m \<noteq> PolicyFunc f"
  shows "Depth m' c \<le> policy_bound (qm_admissionPolicy m) (queue_max m options)
    \<and> (\<forall>p. qm_admissionPolicy m = PriorityPolicy (Some p) \<and> 0 < fo_AbsoluteMaxDepth (pp_options p) \<longrightarrow>
         Depth m' c \<le> fo_AbsoluteMaxDepth (pp_options p))"
proof -
  have m': "qm_channels m' = side_enter (qm_channels m) c w"
    and adm: "admission m (qm_channels m) c c options = None"
    using assms(2) by (auto simp: tryEnterQueue_def Let_def split: option.splits)
  have "Depth m' c = gcount (qs_depths (qm_channels m)) c + 1"
    by (simp add: Depth_def m' side_enter_fields go_map_simps)
  then have b: "Depth m' c \<le> policy_bound (qm_admissionPolicy m) (queue_max m options)"
    using admission_bound [OF adm] assms(3) by simp
  moreover have "capQueueLimit l a \<le> a" if "0 < a" for l a
    using that by (simp add: capQueueLimit_def)
  ultimately show ?thesis
    by (auto simp: policy_bound_def priority_bound_def highPriorityLimit_def intro: order_trans)
qed

lemma queue_depth_bound_witness:
  "Depth (snd (tryEnterQueue (NewQueueManager 0 2) 7 (example_queue_options [] 5))) 7 \<le> 2"
proof -
  define m where "m = NewQueueManager 0 2"
  define r where "r = tryEnterQueue m 7 (example_queue_options [] 5)"
  have wf: "manager_wf m" by (simp add: m_def NewQueueManager_def NewQueueManager_wf)
  have p: "qm_admissionPolicy m = NoPolicy" "queue_max m (example_queue_options [] 5) = 2"
    by (simp_all add: m_def NewQueueManager_def NewQueueManagerWithAdmissionPolicy_def queue_max_def
        example_queue_options_def)
  have "fst r \<noteq> None" unfolding r_def m_def by code_simp
  then have "tryEnterQueue m 7 (example_queue_options [] 5) = (Some (the (fst r)), snd r)"
    by (simp add: r_def)
  from queue_depth_bound [OF wf this] p show ?thesis by (simp add: policy_bound_def r_def m_def)
qed

text \<open>The priority policy admits a high-priority request exactly below its own limit, and a
  normal request exactly when the queue is below the limit and, if slots are reserved, fewer
  requests of normal groups wait than the reservation leaves to them.\<close>

lemma priority_admission_exact:
  assumes "manager_wf m" and "qm_admissionPolicy m = PriorityPolicy (Some p)"
  shows "fst (tryEnterQueue m c options) \<noteq> None \<longleftrightarrow>
    (let depth = int (length (waiters_of (qm_channels m) c));
         normal = int (length (filter (\<lambda>w. \<not> isHighPriorityGroup p (qw_Group w)) (waiters_of (qm_channels m) c)));
         M = queue_max m options; R = highPriorityReservedDepth p M
     in if isHighPriority p (qo_Group options) (qo_Priority options) then depth < highPriorityLimit p M
        else depth < capQueueLimit M (fo_AbsoluteMaxDepth (pp_options p)) \<and> (R \<le> 0 \<or> normal < M - R))"
proof -
  have side: "side_wf (qm_channels m)" using assms(1) by (simp add: manager_wf_def)
  define ws where "ws = waiters_of (qm_channels m) c"
  have "length (filter (\<lambda>w. isHighPriorityGroup p (qw_Group w)) ws)
      + length (filter (\<lambda>w. \<not> isHighPriorityGroup p (qw_Group w)) ws) = length ws"
    by (rule sum_length_filter_compl)
  then have split: "int (length ws) - int (length (filter (\<lambda>w. isHighPriorityGroup p (qw_Group w)) ws))
      = int (length (filter (\<lambda>w. \<not> isHighPriorityGroup p (qw_Group w)) ws))"
    by linarith
  have "fst (tryEnterQueue m c options) \<noteq> None \<longleftrightarrow> admission m (qm_channels m) c c options = None"
    by (simp add: tryEnterQueue_def Let_def split: option.split)
  then show ?thesis
    using side_depth [OF side, of c] high_depth_waiters [OF side, of p c] split assms(2)
    by (auto simp: admission_def priority_AllowQueue_def allowNormalPriorityQueue_def queue_max_def
        ws_def [symmetric] Let_def)
qed

definition example_policy :: priority_policy where
  "example_policy = NewPriorityQueueAdmissionPolicy
     \<lparr>fo_HighPriorityGroups = [''vip''], fo_HighPriorityThreshold = 0, fo_HighPriorityExtraDepth = 0,
      fo_HighPriorityReservedDepth = 1, fo_AbsoluteMaxDepth = 0\<rparr>"

lemma priority_admission_exact_witness:
  "fst (tryEnterQueue (NewQueueManagerWithAdmissionPolicy 0 1 (PriorityPolicy (Some example_policy))) 7
      (example_queue_options ''vip'' 0)) \<noteq> None
   \<and> fst (tryEnterQueue (NewQueueManagerWithAdmissionPolicy 0 1 (PriorityPolicy (Some example_policy))) 7
      (example_queue_options ''free'' 0)) = None"
proof -
  define m where "m = NewQueueManagerWithAdmissionPolicy 0 1 (PriorityPolicy (Some example_policy))"
  have wf: "manager_wf m" and pol: "qm_admissionPolicy m = PriorityPolicy (Some example_policy)"
    by (simp_all add: m_def NewQueueManager_wf) (simp add: NewQueueManagerWithAdmissionPolicy_def)
  have facts: "waiters_of (qm_channels m) 7 = []" "queue_max m (example_queue_options g 0) = 1"
    "isHighPriority example_policy ''vip'' 0" "\<not> isHighPriority example_policy ''free'' 0"
    "highPriorityLimit example_policy 1 = 1" "highPriorityReservedDepth example_policy 1 = 1" for g
    unfolding m_def by code_simp+
  have "fst (tryEnterQueue m 7 (example_queue_options ''vip'' 0)) \<noteq> None"
    using priority_admission_exact [OF wf pol, of 7 "example_queue_options ''vip'' 0"] facts
    by (simp add: Let_def) (simp add: example_queue_options_def)
  moreover have "fst (tryEnterQueue m 7 (example_queue_options ''free'' 0)) = None"
    using priority_admission_exact [OF wf pol, of 7 "example_queue_options ''free'' 0"] facts
    by (simp add: Let_def) (simp add: example_queue_options_def)
  ultimately show ?thesis by (simp add: m_def)
qed

text \<open>A wait is bounded: the time a request may wait is positive and at most the manager's
  timeout, even when the planned milliseconds overflow 64 bits; and when the timer fires or the
  client goes away the request is rejected and has left the queue.\<close>

lemma acquire_wait_bounded:
  assumes "manager_wf m" and "w \<in> set (waiters_of (qm_channels m) c)" and "event \<noteq> TickerFired"
    and "acquire_event m st c setting w lease timeout event elapsed = (a, m', st')"
  shows "0 < wait_timeout m plan \<and> wait_timeout m plan \<le> qm_timeout m
    \<and> a = AcquireDone (acquire_result_of (Some lease) QueueAcquireRejected elapsed)
    \<and> waiters_of (qm_channels m') = (waiters_of (qm_channels m))(c := remove1 w (waiters_of (qm_channels m) c))
    \<and> st' = st \<and> manager_wf m'"
proof -
  have "0 < qm_timeout m" using assms(1) by (simp add: manager_wf_def)
  moreover have "(a, m', st') =
      (AcquireDone (acquire_result_of (Some lease) QueueAcquireRejected elapsed), leaveQueue m c w, st)"
    using assms(3,4) by (cases event) (simp_all add: acquire_event_def)
  ultimately show ?thesis
    using leaveQueue_wf [OF assms(1,2)] waiters_leave [OF assms(2)]
    by (auto simp: wait_timeout_def Let_def leaveQueue_def)
qed

definition example_counters :: concurrency_state where
  "example_counters = \<lparr>cc_channel = [(7, 1)], cc_account = [], cc_reservation = []\<rparr>"

definition example_limit :: channel_settings where
  "example_limit = \<lparr>se_MaxConcurrency = 1, se_AccountMaxConcurrency = 0, se_AccountConcurrencyKey = []\<rparr>"

lemma acquire_wait_bounded_witness:
  "waiters_of (qm_channels (fst (snd (acquire_event example_manager example_counters 7 example_limit
     (example_waiter 0 1) (empty_lease 7 1) Second TimerFired Second)))) 7 = [example_waiter 5 2]"
proof -
  have mem: "example_waiter 0 1 \<in> set (waiters_of (qm_channels example_manager) 7)"
    by (simp add: example_manager_line)
  show ?thesis
    using acquire_wait_bounded [OF example_manager_wf mem, of TimerFired example_counters example_limit
        "empty_lease 7 1" Second Second]
    by (simp add: example_manager_line acquire_event_def)
qed

end
