(* ===== verification/Gateway_System.thy ===== *)
theory Gateway_System
  imports Concurrency_Properties Queue_Properties
begin

text \<open>
  Requests, queues and counters together: any number of requests run \<^verbatim>\<open>AcquireWithOptions\<close>
  concurrently against one queue manager and one set of counters, wait, are granted or rejected,
  and release their leases, as \<^verbatim>\<open>controller/relay.go\<close> drives them. A step is one atomic action of
  one request; between two steps of a request the others may take any number of steps.
\<close>

section \<open>The system\<close>

datatype request =
    Waits int channel_settings queue_waiter concurrency_lease int
  | Holds concurrency_lease
  | Ended acquire_status

record gateway =
  gw_manager :: queue_manager
  gw_counters :: concurrency_state
  gw_requests :: "request list"

fun request_of :: "int \<Rightarrow> channel_settings \<Rightarrow> acquisition \<Rightarrow> request" where
  "request_of c s (AcquireWaiting w l t) = Waits c s w l t"
| "request_of c s (AcquireDone r) =
     (if qr_Status r = QueueAcquireRejected then Ended QueueAcquireRejected
      else case qr_Lease r of Some l \<Rightarrow> Holds l | None \<Rightarrow> Ended (qr_Status r))"

inductive gateway_step :: "gateway \<Rightarrow> gateway \<Rightarrow> bool" where
  arrive: "AcquireWithOptions (gw_manager g) (gw_counters g) plan c s options = (a, m, st) \<Longrightarrow>
    gateway_step g \<lparr>gw_manager = m, gw_counters = st, gw_requests = gw_requests g @ [request_of c s a]\<rparr>"
| event: "i < length (gw_requests g) \<Longrightarrow> gw_requests g ! i = Waits c s w l t \<Longrightarrow>
    acquire_event (gw_manager g) (gw_counters g) c s w l t e elapsed = (a, m, st) \<Longrightarrow>
    gateway_step g \<lparr>gw_manager = m, gw_counters = st, gw_requests = (gw_requests g)[i := request_of c s a]\<rparr>"
| release: "i < length (gw_requests g) \<Longrightarrow> gw_requests g ! i = Holds l \<Longrightarrow>
    gateway_step g \<lparr>gw_manager = gw_manager g, gw_counters = snd (Release (gw_counters g) l),
                    gw_requests = (gw_requests g)[i := Ended QueueAcquireAcquired]\<rparr>"

inductive gateway_reachable :: "gateway \<Rightarrow> bool" where
  start: "gateway_reachable \<lparr>gw_manager = NewQueueManagerWithAdmissionPolicy timeout depth policy,
            gw_counters = empty_state, gw_requests = []\<rparr>"
| step: "gateway_reachable g \<Longrightarrow> gateway_step g g' \<Longrightarrow> gateway_reachable g'"

section \<open>The invariant\<close>

fun waits_on :: "int \<Rightarrow> request \<Rightarrow> queue_waiter list" where
  "waits_on c (Waits d s w l t) = (if d = c then [w] else [])"
| "waits_on c (Holds l) = []"
| "waits_on c (Ended r) = []"

fun holding :: "counter_ref \<Rightarrow> request \<Rightarrow> int" where
  "holding r (Holds l) = int (count_list (release_counters l) r)"
| "holding r (Waits d s w l t) = 0"
| "holding r (Ended x) = 0"

fun lease_ok :: "request \<Rightarrow> bool" where
  "lease_ok (Holds l) \<longleftrightarrow> \<not> ls_released l \<and> distinct (release_counters l)"
| "lease_ok (Waits d s w l t) \<longleftrightarrow> True"
| "lease_ok (Ended x) \<longleftrightarrow> True"

definition gateway_ok :: "gateway \<Rightarrow> bool" where
  "gateway_ok g \<longleftrightarrow>
     manager_wf (gw_manager g)
     \<and> (\<forall>c. mset (waiters_of (qm_channels (gw_manager g)) c) = mset (concat (map (waits_on c) (gw_requests g))))
     \<and> (\<forall>r. active (gw_counters g) r = (\<Sum>x \<leftarrow> gw_requests g. holding r x))
     \<and> list_all lease_ok (gw_requests g)"

lemma concat_update:
  "i < length xs \<Longrightarrow> mset (concat (map f (xs[i := y]))) + mset (f (xs ! i)) = mset (concat (map f xs)) + mset (f y)"
proof (induction xs arbitrary: i)
  case (Cons x xs)
  then show ?case by (cases i) (auto simp: ac_simps)
qed simp

lemma mset_concat_remove:
  assumes "i < length xs" and "f (xs ! i) = [w]" and "f y = []"
  shows "mset (concat (map f (xs[i := y]))) = mset (concat (map f xs)) - {#w#}"
  using concat_update [OF assms(1), of f y] assms(2,3) by (metis add_diff_cancel_right' mset.simps union_commute add_mset_add_single empty_neutral(2) mset_zero_iff)

lemma waiting_mem:
  assumes "gateway_ok g" and "i < length (gw_requests g)" and "gw_requests g ! i = Waits c s w l t"
  shows "w \<in> set (waiters_of (qm_channels (gw_manager g)) c)"
proof -
  have "w \<in> set (concat (map (waits_on c) (gw_requests g)))"
    using nth_mem [OF assms(2)] assms(3) by (force simp: image_iff)
  then have "w \<in># mset (waiters_of (qm_channels (gw_manager g)) c)"
    using assms(1) by (simp add: gateway_ok_def)
  then show ?thesis by simp
qed

lemma holding_nonneg: "0 \<le> holding r x"
  by (cases x) simp_all

lemma holding_le_active:
  "gateway_ok g \<Longrightarrow> i < length (gw_requests g) \<Longrightarrow> holding r (gw_requests g ! i) \<le> active (gw_counters g) r"
  by (simp add: gateway_ok_def) (rule member_le_sum_list; auto intro: holding_nonneg)

lemma list_all_update: "list_all P xs \<Longrightarrow> P y \<Longrightarrow> list_all P (xs[i := y])"
  by (auto simp: list_all_iff dest: set_update_subset_insert [THEN subsetD])

text \<open>The three outcomes of a call and of an event, with everything the invariant needs.\<close>

lemma AcquireWithOptions_cases:
  assumes "AcquireWithOptions m st plan c s options = (a, m', st')"
  obtains (granted) l where "has_room st c s"
      "a = AcquireDone (acquire_result_of (Some l) QueueAcquireAcquired 0)" "m' = m"
      "release_counters l = held_counters c s" "\<not> ls_released l"
      "\<forall>r. active st' r = active st r + (if r \<in> set (held_counters c s) then 1 else 0)"
  | (refused) l where "\<not> has_room st c s"
      "a = AcquireDone (acquire_result_of (Some l) QueueAcquireRejected 0)"
      "waiters_of (qm_channels m') = waiters_of (qm_channels m)" "manager_wf m \<Longrightarrow> manager_wf m'"
      "\<forall>r. active st' r = active st r"
  | (waiting) w l t where "\<not> has_room st c s" "a = AcquireWaiting w l t" "tryEnterQueue m c options = (Some w, m')"
      "\<forall>r. active st' r = active st r"
proof -
  define t where "t = TryAcquireChannelConcurrency st c s"
  note f = TryAcquire_granted [of st c s, folded t_def] TryAcquire_lease [of st c s, folded t_def]
    TryAcquire_active [of st c s, folded t_def]
  have eq: "(a, m', st') = (if fst (snd t) then (AcquireDone (acquire_result_of (Some (fst t)) QueueAcquireAcquired 0), m, snd (snd t))
      else if \<not> may_wait plan then (AcquireDone (acquire_result_of (Some (fst t)) QueueAcquireRejected 0), m, snd (snd t))
      else case tryEnterQueue m c options of
          (None, m) \<Rightarrow> (AcquireDone (acquire_result_of (Some (fst t)) QueueAcquireRejected 0), m, snd (snd t))
        | (Some w, m) \<Rightarrow> (AcquireWaiting w (fst t) (wait_timeout m (the plan)), m, snd (snd t)))"
    using assms by (simp add: AcquireWithOptions_def t_def [symmetric] case_prod_unfold)
  obtain r m1 where e: "tryEnterQueue m c options = (r, m1)" by fastforce
  consider "fst (snd t)" | "\<not> fst (snd t)" "\<not> may_wait plan" | "\<not> fst (snd t)" "may_wait plan" "r = None"
    | w where "\<not> fst (snd t)" "may_wait plan" "r = Some w"
    by (cases r) auto
  then show thesis
  proof cases
    case 1
    then show ?thesis using granted [of "fst t"] eq f by simp
  next
    case 2
    then show ?thesis using refused [of "fst t"] eq f by simp
  next
    case 3
    have a: "a = AcquireDone (acquire_result_of (Some (fst t)) QueueAcquireRejected 0)"
      and m': "m' = m1" and st': "st' = snd (snd t)"
      using eq e 3 by auto
    have w: "waiters_of (qm_channels m') = waiters_of (qm_channels m)"
      using e 3 m' by (auto simp: tryEnterQueue_def Let_def split: option.splits)
    have wf: "manager_wf m \<Longrightarrow> manager_wf m'" using tryEnterQueue_wf [of m c options] e m' by auto
    have room: "\<not> has_room st c s" using 3 f(1) by simp
    then have act: "\<forall>r. active st' r = active st r" using f(4) st' by simp
    show ?thesis by (rule refused [OF room a w _ act]) (erule wf)
  next
    case 4
    have a: "a = AcquireWaiting w (fst t) (wait_timeout m1 (the plan))"
      and m': "m' = m1" and st': "st' = snd (snd t)"
      using eq e 4 by auto
    have room: "\<not> has_room st c s" using 4 f(1) by simp
    then have act: "\<forall>r. active st' r = active st r" using f(4) st' by simp
    show ?thesis by (rule waiting [OF room a _ act]) (simp add: e 4 m')
  qed
qed

lemma acquire_event_cases:
  assumes "acquire_event m st c s w l t e elapsed = (a, m', st')"
  obtains (granted) l' where "e = TickerFired" "isQueueTurn m c w" "has_room st c s"
      "a = AcquireDone (acquire_result_of (Some l') QueueAcquireQueued elapsed)" "m' = leaveQueue m c w"
      "release_counters l' = held_counters c s" "\<not> ls_released l'"
      "\<forall>r. active st' r = active st r + (if r \<in> set (held_counters c s) then 1 else 0)"
  | (rejected) l' where "e \<noteq> TickerFired"
      "a = AcquireDone (acquire_result_of (Some l') QueueAcquireRejected elapsed)" "m' = leaveQueue m c w" "st' = st"
  | (waiting) l' where "e = TickerFired" "a = AcquireWaiting w l' t" "m' = m" "\<forall>r. active st' r = active st r"
proof -
  define x where "x = TryAcquireChannelConcurrency st c s"
  note f = TryAcquire_granted [of st c s, folded x_def] TryAcquire_lease [of st c s, folded x_def]
    TryAcquire_active [of st c s, folded x_def]
  show thesis
  proof (cases "e = TickerFired")
    case False
    then show ?thesis using assms rejected by (cases e) (auto simp: acquire_event_def)
  next
    case e: True
    consider "\<not> isQueueTurn m c w" | "isQueueTurn m c w" "fst (snd x)" | "isQueueTurn m c w" "\<not> fst (snd x)"
      by blast
    then show ?thesis
    proof cases
      case 1
      then show ?thesis using assms e waiting [of l] by (simp add: acquire_event_def)
    next
      case 2
      then have "a = AcquireDone (acquire_result_of (Some (fst x)) QueueAcquireQueued elapsed)"
        "m' = leaveQueue m c w" "st' = snd (snd x)"
        using assms e by (auto simp: acquire_event_def x_def [symmetric] case_prod_unfold)
      then show ?thesis using granted [of "fst x"] 2 e f by simp
    next
      case 3
      then have "a = AcquireWaiting w (fst x) t" "m' = m" "st' = snd (snd x)"
        using assms e by (auto simp: acquire_event_def x_def [symmetric] case_prod_unfold)
      then show ?thesis using waiting [of "fst x"] 3 e f by simp
    qed
  qed
qed

lemma arrive_ok:
  assumes "gateway_ok g" and "AcquireWithOptions (gw_manager g) (gw_counters g) plan c s options = (a, m, st)"
  shows "gateway_ok \<lparr>gw_manager = m, gw_counters = st, gw_requests = gw_requests g @ [request_of c s a]\<rparr>"
  using assms(2)
proof (cases rule: AcquireWithOptions_cases)
  case (granted l)
  then show ?thesis
    using assms(1) count_list_distinct [OF held_distinct, of c s]
    by (simp add: gateway_ok_def acquire_result_of_def held_distinct)
next
  case (refused l)
  then show ?thesis using assms(1) by (simp add: gateway_ok_def acquire_result_of_def)
next
  case (waiting w l t)
  have "manager_wf m" using tryEnterQueue_wf [of "gw_manager g" c options] assms(1) waiting(3)
    by (simp add: gateway_ok_def)
  moreover have "waiters_of (qm_channels m) =
      (waiters_of (qm_channels (gw_manager g)))(c := waiters_of (qm_channels (gw_manager g)) c @ [w])"
    using waiting(3) by (auto simp: tryEnterQueue_def waiters_enter Let_def split: option.splits)
  ultimately show ?thesis using assms(1) waiting by (simp add: gateway_ok_def)
qed

lemma leave_waits:
  assumes "gateway_ok g" and "i < length (gw_requests g)" and "gw_requests g ! i = Waits c s w l t"
    and "\<And>d. waits_on d x = []"
  shows "manager_wf (leaveQueue (gw_manager g) c w)
    \<and> mset (waiters_of (qm_channels (leaveQueue (gw_manager g) c w)) d)
      = mset (concat (map (waits_on d) ((gw_requests g)[i := x])))"
proof -
  note mem = waiting_mem [OF assms(1-3)]
  have "mset (waiters_of (qm_channels (leaveQueue (gw_manager g) c w)) d) =
      mset (waiters_of (qm_channels (gw_manager g)) d) - (if d = c then {#w#} else {#})"
    using waiters_leave [OF mem] by (simp add: leaveQueue_def)
  also have "\<dots> = mset (concat (map (waits_on d) ((gw_requests g)[i := x])))"
    using concat_update [OF assms(2), of "waits_on d" x] assms by (auto simp: gateway_ok_def)
      (metis add_mset_add_single add_mset_diff_bothsides diff_empty)
  finally show ?thesis using leaveQueue_wf [OF _ mem] assms(1) by (simp add: gateway_ok_def)
qed

lemma event_ok:
  assumes "gateway_ok g" and "i < length (gw_requests g)" and "gw_requests g ! i = Waits c s w l t"
    and "acquire_event (gw_manager g) (gw_counters g) c s w l t e elapsed = (a, m, st)"
  shows "gateway_ok \<lparr>gw_manager = m, gw_counters = st, gw_requests = (gw_requests g)[i := request_of c s a]\<rparr>"
  using assms(4)
proof (cases rule: acquire_event_cases)
  case (granted l')
  then show ?thesis
    using assms(1-3) leave_waits [OF assms(1-3), of "Holds l'"] count_list_distinct [OF held_distinct, of c s]
    by (simp add: gateway_ok_def acquire_result_of_def sum_list_map_update list_all_update held_distinct)
next
  case (rejected l')
  then show ?thesis
    using assms(1-3) leave_waits [OF assms(1-3), of "Ended QueueAcquireRejected"]
    by (simp add: gateway_ok_def acquire_result_of_def sum_list_map_update list_all_update)
next
  case (waiting l')
  have "mset (concat (map (waits_on d) ((gw_requests g)[i := Waits c s w l' t])))
      = mset (concat (map (waits_on d) (gw_requests g)))" for d
    using concat_update [OF assms(2), of "waits_on d" "Waits c s w l' t"] assms(3) by simp
  with waiting show ?thesis
    using assms(1-3) by (simp add: gateway_ok_def sum_list_map_update list_all_update)
qed

lemma foldl_dec_distinct:
  "distinct rs \<Longrightarrow> active (foldl dec st rs) q = active st q - (if q \<in> set rs \<and> 0 < active st q then 1 else 0)"
  by (induction rs arbitrary: st) (auto simp: active_dec)

lemma release_ok:
  assumes "gateway_ok g" and "i < length (gw_requests g)" and "gw_requests g ! i = Holds l"
  shows "gateway_ok \<lparr>gw_manager = gw_manager g, gw_counters = snd (Release (gw_counters g) l),
                     gw_requests = (gw_requests g)[i := Ended x]\<rparr>"
proof -
  have ok: "\<not> ls_released l" "distinct (release_counters l)"
    using assms by (auto simp: gateway_ok_def list_all_length)
  have w: "mset (concat (map (waits_on d) ((gw_requests g)[i := Ended x]))) = mset (concat (map (waits_on d) (gw_requests g)))" for d
    using concat_update [OF assms(2), of "waits_on d" "Ended x"] assms(3) by simp
  have le: "int (count_list (release_counters l) r) \<le> active (gw_counters g) r" for r
    using holding_le_active [OF assms(1,2), of r] assms(3) by simp
  have "active (snd (Release (gw_counters g) l)) r = active (gw_counters g) r - int (count_list (release_counters l) r)" for r
    using ok count_list_distinct [OF ok(2), of r] le [of r]
    by (simp add: Release_def foldl_dec_distinct split: if_splits)
  then show ?thesis
    using assms w by (simp add: gateway_ok_def sum_list_map_update list_all_update)
qed

lemma gateway_step_ok: "gateway_step g g' \<Longrightarrow> gateway_ok g \<Longrightarrow> gateway_ok g'"
  by (induction rule: gateway_step.induct) (auto intro: arrive_ok event_ok release_ok)

lemma empty_active [simp]: "active empty_state r = 0"
  by (cases r) (simp_all add: empty_state_def active.simps)

lemma gateway_reachable_ok: "gateway_reachable g \<Longrightarrow> gateway_ok g"
proof (induction rule: gateway_reachable.induct)
  case (start timeout depth policy)
  have "waiters_of (qm_channels (NewQueueManagerWithAdmissionPolicy timeout depth policy)) c = []" for c
    by (simp add: NewQueueManagerWithAdmissionPolicy_def waiters_of_def empty_side_def)
  then show ?case by (simp add: gateway_ok_def NewQueueManager_wf)
qed (rule gateway_step_ok)

section \<open>Draining the system\<close>

fun ended :: "request \<Rightarrow> bool" where
  "ended (Ended x) \<longleftrightarrow> True"
| "ended (Waits c s w l t) \<longleftrightarrow> False"
| "ended (Holds l) \<longleftrightarrow> False"

lemma side_empty_iff:
  assumes "side_wf s" and "\<And>k. waiters_of s k = []"
  shows "s = empty_side"
proof -
  have "map_of (qs_depths s) k = None" for k
    using assms by (simp add: side_wf_def entry_def)
  moreover have "map_of (qs_waiters s) k = None" for k
    using assms(1) assms(2) [of k] by (auto simp: side_wf_def waiters_of_def split: option.splits)
  moreover have "map_of (qs_groupDepths s) k = None" for k
  proof -
    have "map_of (groups_of s k) g = None" for g
      using assms by (simp add: side_wf_def entry_def group_count_def)
    then have "groups_of s k = []" by (metis map_of_eq_empty_iff ext)
    moreover have "map_of (qs_groupDepths s) k \<noteq> Some []" using assms(1) by (simp add: side_wf_def)
    ultimately show ?thesis by (cases "map_of (qs_groupDepths s) k") (auto simp: groups_of_def)
  qed
  ultimately have "qs_depths s = []" "qs_waiters s = []" "qs_groupDepths s = []"
    by (metis map_of_eq_empty_iff ext)+
  then show ?thesis by (simp add: empty_side_def)
qed

lemma all_ended_empty:
  assumes "gateway_ok g" and "list_all ended (gw_requests g)"
  shows "qm_channels (gw_manager g) = empty_side" and "active (gw_counters g) r = 0"
proof -
  have w: "list_all ended xs \<Longrightarrow> concat (map (waits_on c) xs) = []" for xs c
    by (induction xs) (auto elim: ended.elims)
  have "list_all ended xs \<Longrightarrow> (\<Sum>x \<leftarrow> xs. holding r x) = 0" for xs
    by (induction xs) (auto elim: ended.elims)
  then show "active (gw_counters g) r = 0" using assms by (simp add: gateway_ok_def)
  have "waiters_of (qm_channels (gw_manager g)) c = []" for c
    using assms w [of "gw_requests g" c] by (metis gateway_ok_def mset_zero_iff)
  then show "qm_channels (gw_manager g) = empty_side"
    using assms(1) by (intro side_empty_iff) (simp_all add: gateway_ok_def manager_wf_def)
qed

lemma request_can_end:
  assumes "i < length (gw_requests g)" and "\<not> ended (gw_requests g ! i)"
  shows "\<exists>g' x. gateway_step g g' \<and> gw_requests g' = (gw_requests g)[i := Ended x]"
proof (cases "gw_requests g ! i")
  case (Waits c s w l t)
  have "acquire_event (gw_manager g) (gw_counters g) c s w l t TimerFired 0 =
      (AcquireDone (acquire_result_of (Some l) QueueAcquireRejected 0), leaveQueue (gw_manager g) c w, gw_counters g)"
    by (simp add: acquire_event_def)
  from gateway_step.event [OF assms(1) Waits this] show ?thesis
    by (fastforce simp: acquire_result_of_def)
next
  case (Holds l)
  from gateway_step.release [OF assms(1) Holds] show ?thesis by fastforce
qed (use assms(2) in simp)

lemma filter_ended_update:
  "i < length xs \<Longrightarrow> \<not> ended (xs ! i) \<Longrightarrow>
   length (filter (\<lambda>x. \<not> ended x) (xs[i := Ended x])) + 1 = length (filter (\<lambda>x. \<not> ended x) xs)"
proof (induction xs arbitrary: i)
  case (Cons a xs)
  then show ?case by (cases i) auto
qed simp

lemma drain:
  "\<exists>g'. gateway_step\<^sup>*\<^sup>* g g' \<and> length (gw_requests g') = length (gw_requests g) \<and> list_all ended (gw_requests g')"
proof (induction "length (filter (\<lambda>x. \<not> ended x) (gw_requests g))" arbitrary: g)
  case 0
  then show ?case by (auto simp: filter_empty_conv list_all_iff intro!: exI [of _ g])
next
  case (Suc n)
  then obtain i where i: "i < length (gw_requests g)" "\<not> ended (gw_requests g ! i)"
    by (metis filter_False in_set_conv_nth length_0_conv nat.distinct(1))
  then obtain g1 x where g1: "gateway_step g g1" "gw_requests g1 = (gw_requests g)[i := Ended x]"
    using request_can_end by blast
  have "length (filter (\<lambda>x. \<not> ended x) ((gw_requests g)[i := Ended x])) + 1 =
      length (filter (\<lambda>x. \<not> ended x) (gw_requests g))"
    by (rule filter_ended_update [OF i])
  with Suc.hyps obtain g' where "gateway_step\<^sup>*\<^sup>* g1 g'" "length (gw_requests g') = length (gw_requests g1)"
    "list_all ended (gw_requests g')" using g1(2) by (metis Suc_eq_plus1 add_right_cancel)
  then show ?case using g1 by (metis converse_rtranclp_into_rtranclp length_list_update)
qed

lemma reachable_rtranclp: "gateway_step\<^sup>*\<^sup>* g g' \<Longrightarrow> gateway_reachable g \<Longrightarrow> gateway_reachable g'"
  by (induction rule: rtranclp_induct) (auto intro: gateway_reachable.step)

section \<open>Running the system\<close>

definition do_arrive ::
  "dispatch_plan option \<Rightarrow> int \<Rightarrow> channel_settings \<Rightarrow> acquire_options \<Rightarrow> gateway \<Rightarrow> gateway" where
  "do_arrive plan c s options g =
     (case AcquireWithOptions (gw_manager g) (gw_counters g) plan c s options of (a, m, st) \<Rightarrow>
        \<lparr>gw_manager = m, gw_counters = st, gw_requests = gw_requests g @ [request_of c s a]\<rparr>)"

definition do_event :: "nat \<Rightarrow> wait_event \<Rightarrow> int \<Rightarrow> gateway \<Rightarrow> gateway" where
  "do_event i e elapsed g =
     (if i < length (gw_requests g) then
        case gw_requests g ! i of
          Waits c s w l t \<Rightarrow>
            (case acquire_event (gw_manager g) (gw_counters g) c s w l t e elapsed of (a, m, st) \<Rightarrow>
               \<lparr>gw_manager = m, gw_counters = st, gw_requests = (gw_requests g)[i := request_of c s a]\<rparr>)
        | Holds l \<Rightarrow> g
        | Ended x \<Rightarrow> g
      else g)"

definition do_release :: "nat \<Rightarrow> gateway \<Rightarrow> gateway" where
  "do_release i g =
     (if i < length (gw_requests g) then
        case gw_requests g ! i of
          Holds l \<Rightarrow> \<lparr>gw_manager = gw_manager g, gw_counters = snd (Release (gw_counters g) l),
                      gw_requests = (gw_requests g)[i := Ended QueueAcquireAcquired]\<rparr>
        | Waits c s w l t \<Rightarrow> g
        | Ended x \<Rightarrow> g
      else g)"

lemma do_arrive_step: "gateway_step g (do_arrive plan c s options g)"
proof -
  obtain a m st where "AcquireWithOptions (gw_manager g) (gw_counters g) plan c s options = (a, m, st)"
    by (metis prod_cases3)
  then show ?thesis using gateway_step.arrive by (simp add: do_arrive_def)
qed

lemma do_event_step:
  assumes "i < length (gw_requests g)" and "gw_requests g ! i = Waits c s w l t"
  shows "gateway_step g (do_event i e elapsed g)"
proof -
  obtain a m st where "acquire_event (gw_manager g) (gw_counters g) c s w l t e elapsed = (a, m, st)"
    by (metis prod_cases3)
  then show ?thesis using gateway_step.event [OF assms] assms by (simp add: do_event_def)
qed

lemma do_release_step:
  assumes "i < length (gw_requests g)" and "gw_requests g ! i = Holds l"
  shows "gateway_step g (do_release i g)"
  using gateway_step.release [OF assms] assms by (simp add: do_release_def)

text \<open>
  A run with a limit of one: the first request is granted, the second one waits, the first one
  ends, and the ticker of the second one fires.
\<close>

definition example_plan :: dispatch_plan where
  "example_plan = \<lparr>dp_Channel = Some 7, dp_SelectedGroup = [], dp_RuntimeKey = zero_runtime_key,
     dp_QueueWaitMs = 100, dp_QueueEnabled = True, dp_StickySource = [], dp_CacheAffinity = False,
     dp_RetryRoutingIntent = None, dp_RetryIntentApplied = False\<rparr>"

definition example_start :: gateway where
  "example_start = \<lparr>gw_manager = NewQueueManagerWithAdmissionPolicy 0 2 NoPolicy,
     gw_counters = empty_state, gw_requests = []\<rparr>"

definition example_waiting :: gateway where
  "example_waiting = do_arrive (Some example_plan) 7 example_limit (example_queue_options [] 0)
     (do_arrive (Some example_plan) 7 example_limit (example_queue_options [] 0) example_start)"

definition example_freed :: gateway where
  "example_freed = do_release 0 example_waiting"

definition example_done :: gateway where
  "example_done = do_release 1 (do_event 1 TickerFired Millisecond example_freed)"

lemma example_waiting_reachable: "gateway_reachable example_waiting"
  unfolding example_waiting_def example_start_def
  by (rule gateway_reachable.step [OF gateway_reachable.step [OF gateway_reachable.start do_arrive_step] do_arrive_step])

definition is_waits :: "request \<Rightarrow> bool" where
  "is_waits x = (case x of Waits c s w l t \<Rightarrow> True | _ \<Rightarrow> False)"

definition is_holds :: "request \<Rightarrow> bool" where
  "is_holds x = (case x of Holds l \<Rightarrow> True | _ \<Rightarrow> False)"

lemma is_waits_D: "is_waits x \<Longrightarrow> \<exists>c s w l t. x = Waits c s w l t"
  by (cases x) (simp_all add: is_waits_def)

lemma is_holds_D: "is_holds x \<Longrightarrow> \<exists>l. x = Holds l"
  by (cases x) (simp_all add: is_holds_def)

lemma example_shapes:
  "1 < length (gw_requests example_waiting)" "is_holds (gw_requests example_waiting ! 0)"
  "1 < length (gw_requests example_freed)" "is_waits (gw_requests example_freed ! 1)"
  "is_holds (gw_requests (do_event 1 TickerFired Millisecond example_freed) ! 1)"
  "1 < length (gw_requests (do_event 1 TickerFired Millisecond example_freed))"
  "list_all ended (gw_requests example_done)"
  by code_simp+

lemma example_freed_reachable: "gateway_reachable example_freed"
proof -
  have "0 < length (gw_requests example_waiting)" using example_shapes(1) by linarith
  then have "gateway_step example_waiting example_freed"
    using do_release_step is_holds_D [OF example_shapes(2)] by (auto simp: example_freed_def)
  with example_waiting_reachable show ?thesis by (rule gateway_reachable.step)
qed

lemma example_grant_step: "gateway_step example_freed (do_event 1 TickerFired Millisecond example_freed)"
  using do_event_step [OF example_shapes(3)] is_waits_D [OF example_shapes(4)] by blast

lemma example_done_reachable: "gateway_reachable example_done"
proof -
  have "gateway_step (do_event 1 TickerFired Millisecond example_freed) example_done"
    using do_release_step [OF example_shapes(6)] is_holds_D [OF example_shapes(5)] by (auto simp: example_done_def)
  then show ?thesis
    by (rule gateway_reachable.step [OF gateway_reachable.step [OF example_freed_reachable example_grant_step]])
qed

end
