(* ===== verification/Concurrency_Learning.thy ===== *)
theory Concurrency_Learning
  imports Channel_Concurrency Float64
begin

text \<open>
  How the concurrency limit of a channel adapts (second half of \<^verbatim>\<open>service/channel_concurrency.go\<close>):
  an upstream refusal lowers the limit stored in the channel's setting and remembers a ceiling, a
  cooldown keeps a throttled channel out of the selection, and successes after a cooldown raise the
  limit towards the ceiling again.

  The setting column is JSON text. A value of type \<open>json_text\<close> is such a text as \<^verbatim>\<open>encoding/json\<close>
  sees it: an object keeps its doc, numbers are integer literals or \<^verbatim>\<open>float64\<close> values, and what
  lies inside arrays and nested objects is opaque. Field names are compared exactly. Reading into a
  \<^verbatim>\<open>map[string]any\<close> turns every number into a \<^verbatim>\<open>float64\<close>, and writing the map prints integral
  values as integers again (\<open>reencode\<close>). Converting a \<^verbatim>\<open>float64\<close> outside the \<^verbatim>\<open>int64\<close> range
  gives the least \<^verbatim>\<open>int64\<close>, as on amd64. \<open>lw_faults\<close> lists which of the next queries fail.
\<close>

section \<open>JSON texts and numbers\<close>

datatype json = JNull | JBool bool | JInt int | JFloat f64 | JString string | JOther

datatype json_text = EmptyText | SpaceText | InvalidText | NullText | Document "(string, json) gomap"

definition trunc :: "rat \<Rightarrow> int" where
  "trunc r = (if r < 0 then - \<lfloor>- r\<rfloor> else \<lfloor>r\<rfloor>)"

definition f64_to_i64 :: "f64 \<Rightarrow> int" where
  "f64_to_i64 r = (let n = trunc r in if - (2 ^ 63) \<le> n \<and> n < 2 ^ 63 then n else - (2 ^ 63))"

fun reencode :: "json \<Rightarrow> json" where
  "reencode (JInt n) = JInt (\<lfloor>f64_of_int n\<rfloor>)"
| "reencode (JFloat r) = (if of_int \<lfloor>r\<rfloor> = r \<and> \<bar>r\<bar> < 10 ^ 21 then JInt \<lfloor>r\<rfloor> else JFloat r)"
| "reencode v = v"

fun digits_value :: "string \<Rightarrow> int \<Rightarrow> int option" where
  "digits_value [] acc = Some acc"
| "digits_value (c # cs) acc =
     (if 48 \<le> (of_char c :: int) \<and> (of_char c :: int) < 58 then digits_value cs (acc * 10 + (of_char c - 48)) else None)"

definition unsigned_value :: "string \<Rightarrow> int option" where
  "unsigned_value s = (if s = [] then None else digits_value s 0)"

definition ParseInt :: "string \<Rightarrow> int option" where
  "ParseInt s =
     (case (case s of
              [] \<Rightarrow> None
            | c # cs \<Rightarrow> if c = CHR ''-'' then map_option uminus (unsigned_value cs)
                        else if c = CHR ''+'' then unsigned_value cs else unsigned_value s) of
        None \<Rightarrow> None
      | Some n \<Rightarrow> if - (2 ^ 63) \<le> n \<and> n < 2 ^ 63 then Some n else None)"

section \<open>Data\<close>

record api_failure =
  ae_StatusCode :: int
  ae_Error :: string
  ae_ErrorCode :: string
  ae_Metadata :: json_text

record control_state =
  ct_cooldownUntil :: time
  ct_reason :: string
  ct_failureCount :: int
  ct_successStreak :: int

record control_status =
  cs_Active :: bool
  cs_Reason :: string
  cs_Until :: int
  cs_RemainingSec :: int
  cs_FailureCount :: int
  cs_SuccessStreak :: int

record learn_result =
  lr_LearnedLimit :: int
  lr_CeilingLimit :: int
  lr_PreviousLimit :: int
  lr_Changed :: bool

definition no_result :: learn_result where
  "no_result = \<lparr>lr_LearnedLimit = 0, lr_CeilingLimit = 0, lr_PreviousLimit = 0, lr_Changed = False\<rparr>"

record learn_world =
  lw_channels :: "(int, json_text option) gomap"
  lw_cache :: "(int, json_text option) gomap"
  lw_cacheEnabled :: bool
  lw_control :: "(int, control_state) gomap"
  lw_faults :: "bool list"

definition channelConcurrencyCeilingSettingKey :: string where
  "channelConcurrencyCeilingSettingKey = ''max_concurrency_ceiling''"
definition channelConcurrencyRecoveryThreshold :: int where
  "channelConcurrencyRecoveryThreshold = 3"
definition channelConcurrencyMinLearnSample :: int where
  "channelConcurrencyMinLearnSample = 3"
definition Second :: int where
  "Second = 10 ^ 9"
definition channelConcurrencyDefaultCooldown :: int where
  "channelConcurrencyDefaultCooldown = 45 * Second"
definition channelConcurrencyMaxCooldown :: int where
  "channelConcurrencyMaxCooldown = 10 * 60 * Second"
definition StatusTooManyRequests :: int where
  "StatusTooManyRequests = 429"
definition ErrorCodeChannelConcurrencyLimit :: string where
  "ErrorCodeChannelConcurrencyLimit = ''channel:concurrency_limit''"

section \<open>Throttling errors\<close>

definition IsUpstreamConcurrencyLimitError :: "api_failure option \<Rightarrow> bool" where
  "IsUpstreamConcurrencyLimitError err =
     (case err of
        None \<Rightarrow> False
      | Some e \<Rightarrow>
          if ae_StatusCode e \<noteq> StatusTooManyRequests then False
          else let message = ToLower (ae_Error e)
               in Contains message ''concurrency limit exceeded for user''
                  \<or> Contains message ''too many pending requests'')"

text \<open>\<^verbatim>\<open>int64(time.Until(t).Seconds())\<close>: the difference saturates, and the seconds are a \<^verbatim>\<open>float64\<close>.\<close>

definition until_seconds :: "time \<Rightarrow> time \<Rightarrow> int" where
  "until_seconds now t =
     (let d = max (- (2 ^ 63)) (min (2 ^ 63 - 1) (t - now));
          sec = trunc (of_int d / of_int Second);
          nsec = d - sec * Second
      in f64_to_i64 (f64_round (f64_of_int sec + f64_div (f64_of_int nsec) (of_int Second))))"

text \<open>\<open>ParseTime\<close> is \<^verbatim>\<open>net/http.ParseTime\<close>.\<close>

definition parseRetryAfterHeader :: "(string \<Rightarrow> time option) \<Rightarrow> time \<Rightarrow> string \<Rightarrow> int \<times> bool" where
  "parseRetryAfterHeader ParseTime now v =
     (let v = TrimSpace v in
      if v = [] then (0, False)
      else case ParseInt v of
        Some seconds \<Rightarrow> if seconds < 0 then (0, False) else (seconds, True)
      | None \<Rightarrow>
          (case ParseTime v of
             Some t \<Rightarrow> (let seconds = until_seconds now t in if seconds < 0 then (0, True) else (seconds, True))
           | None \<Rightarrow> (0, False)))"

fun parseMetadataInt64 :: "json \<Rightarrow> int \<times> bool" where
  "parseMetadataInt64 (JInt n) = (f64_to_i64 (f64_of_int n), True)"
| "parseMetadataInt64 (JFloat r) = (f64_to_i64 r, True)"
| "parseMetadataInt64 (JString s) = (case ParseInt (TrimSpace s) of None \<Rightarrow> (0, False) | Some n \<Rightarrow> (n, True))"
| "parseMetadataInt64 _ = (0, False)"

definition json_lookup :: "(string, json) gomap \<Rightarrow> string \<Rightarrow> json" where
  "json_lookup doc key = (case map_of doc key of None \<Rightarrow> JNull | Some v \<Rightarrow> v)"

definition metadata_cooldown :: "(string \<Rightarrow> time option) \<Rightarrow> time \<Rightarrow> (string, json) gomap \<Rightarrow> int" where
  "metadata_cooldown ParseTime now parsed =
     (case parseMetadataInt64 (json_lookup parsed ''retry_after_seconds'') of (sec, ok) \<Rightarrow>
      if ok \<and> sec > 0 then i64 (sec * Second)
      else case json_lookup parsed ''retry_after'' of
        JString retryAfter \<Rightarrow>
          (case parseRetryAfterHeader ParseTime now retryAfter of (sec, ok) \<Rightarrow>
             if ok \<and> sec > 0 then i64 (sec * Second) else channelConcurrencyDefaultCooldown)
      | _ \<Rightarrow> channelConcurrencyDefaultCooldown)"

definition resolveChannelThrottleCooldown ::
  "(string \<Rightarrow> time option) \<Rightarrow> time \<Rightarrow> api_failure option \<Rightarrow> int" where
  "resolveChannelThrottleCooldown ParseTime now err =
     (case err of
        None \<Rightarrow> channelConcurrencyDefaultCooldown
      | Some e \<Rightarrow>
          (case ae_Metadata e of
             Document parsed \<Rightarrow> metadata_cooldown ParseTime now parsed
           | NullText \<Rightarrow> metadata_cooldown ParseTime now []
           | _ \<Rightarrow> channelConcurrencyDefaultCooldown))"

section \<open>Cooldowns\<close>

definition getChannelConcurrencyControlState :: "learn_world \<Rightarrow> int \<Rightarrow> control_state" where
  "getChannelConcurrencyControlState w channelID =
     (case map_of (lw_control w) channelID of
        Some s \<Rightarrow> s
      | None \<Rightarrow> \<lparr>ct_cooldownUntil = zero_time, ct_reason = [], ct_failureCount = 0, ct_successStreak = 0\<rparr>)"

definition GetChannelConcurrencyCooldownStatus :: "time \<Rightarrow> learn_world \<Rightarrow> int \<Rightarrow> control_status option" where
  "GetChannelConcurrencyCooldownStatus now w channelID =
     (if channelID \<le> 0 then None
      else case map_of (lw_control w) channelID of
        None \<Rightarrow> None
      | Some s \<Rightarrow>
          if \<not> ct_cooldownUntil s > now then None
          else Some \<lparr>cs_Active = True, cs_Reason = ct_reason s, cs_Until = ct_cooldownUntil s div Second,
                     cs_RemainingSec = until_seconds now (ct_cooldownUntil s), cs_FailureCount = ct_failureCount s,
                     cs_SuccessStreak = ct_successStreak s\<rparr>)"

definition ClearChannelConcurrencyCooldown :: "learn_world \<Rightarrow> int \<Rightarrow> bool \<times> learn_world" where
  "ClearChannelConcurrencyCooldown w channelID =
     (if channelID \<le> 0 then (False, w)
      else case map_of (lw_control w) channelID of
        None \<Rightarrow> (False, w)
      | Some _ \<Rightarrow> (True, w\<lparr>lw_control := gdel channelID (lw_control w)\<rparr>))"

definition start_cooldown :: "time \<Rightarrow> int \<Rightarrow> string \<Rightarrow> control_state \<Rightarrow> control_state" where
  "start_cooldown now cooldown reason s =
     (let failures = (if ct_cooldownUntil s > now then ct_failureCount s + 1 else 1);
          cooldown = (if failures > 1 then i64 (cooldown + i64 ((failures - 1) * trunc (of_int cooldown / 2))) else cooldown);
          cooldown = (if cooldown > channelConcurrencyMaxCooldown then channelConcurrencyMaxCooldown else cooldown)
      in \<lparr>ct_cooldownUntil = now + cooldown, ct_reason = reason, ct_failureCount = failures, ct_successStreak = 0\<rparr>)"

definition RecordChannelConcurrencyCooldown ::
  "(string \<Rightarrow> time option) \<Rightarrow> time \<Rightarrow> learn_world \<Rightarrow> int \<Rightarrow> api_failure option \<Rightarrow> learn_world" where
  "RecordChannelConcurrencyCooldown ParseTime now w channelID err =
     (case err of
        None \<Rightarrow> w
      | Some e \<Rightarrow>
          if channelID \<le> 0 then w
          else if ae_ErrorCode e = ErrorCodeChannelConcurrencyLimit \<or> IsUpstreamConcurrencyLimitError err then w
          else if ae_StatusCode e \<noteq> StatusTooManyRequests \<and> ae_ErrorCode e \<noteq> ErrorCodeChannelConcurrencyLimit then w
          else if ae_StatusCode e = StatusTooManyRequests \<and> \<not> IsUpstreamConcurrencyLimitError err
                  \<and> ae_ErrorCode e \<noteq> ErrorCodeChannelConcurrencyLimit then w
          else let cooldown = resolveChannelThrottleCooldown ParseTime now err;
                   cooldown = (if cooldown \<le> 0 then channelConcurrencyDefaultCooldown else cooldown)
               in w\<lparr>lw_control := gput channelID
                     (start_cooldown now cooldown (ae_Error e) (getChannelConcurrencyControlState w channelID)) (lw_control w)\<rparr>)"

definition getChannelConcurrencyCooldownSet :: "time \<Rightarrow> learn_world \<Rightarrow> int list \<times> learn_world" where
  "getChannelConcurrencyCooldownSet now w =
     (let cooling = filter (\<lambda>(_, s). ct_cooldownUntil s > now) (lw_control w)
      in (map fst cooling, w\<lparr>lw_control := cooling\<rparr>))"

section \<open>The limit in the setting\<close>

definition setting_bool_keys :: "string list" where
  "setting_bool_keys = [''force_format'', ''force_stream_response'', ''thinking_to_content'',
     ''pass_through_body_enabled'', ''system_prompt_override'']"
definition setting_string_keys :: "string list" where
  "setting_string_keys = [''proxy'', ''system_prompt'']"
definition setting_int_keys :: "string list" where
  "setting_int_keys = [''max_concurrency'', channelConcurrencyCeilingSettingKey]"

fun is_bool_json :: "json \<Rightarrow> bool" where
  "is_bool_json JNull = True" | "is_bool_json (JBool _) = True" | "is_bool_json _ = False"

fun is_string_json :: "json \<Rightarrow> bool" where
  "is_string_json JNull = True" | "is_string_json (JString _) = True" | "is_string_json _ = False"

fun is_int_json :: "json \<Rightarrow> bool" where
  "is_int_json JNull = True"
| "is_int_json (JInt n) = (- (2 ^ 63) \<le> n \<and> n < 2 ^ 63)"
| "is_int_json _ = False"

text \<open>
  Decoding into \<^verbatim>\<open>dto.ChannelSettings\<close>: a field of the wrong type is skipped and reported as an error
  at the end, so the other fields are still filled in; a syntax error is found before any field is.
\<close>

definition decodes :: "(string, json) gomap \<Rightarrow> bool" where
  "decodes doc \<longleftrightarrow> list_all (\<lambda>k. is_bool_json (json_lookup doc k)) setting_bool_keys
     \<and> list_all (\<lambda>k. is_string_json (json_lookup doc k)) setting_string_keys
     \<and> list_all (\<lambda>k. is_int_json (json_lookup doc k)) setting_int_keys"

definition int_field :: "(string, json) gomap \<Rightarrow> string \<Rightarrow> int" where
  "int_field doc key =
     (case json_lookup doc key of JInt n \<Rightarrow> if is_int_json (JInt n) then n else 0 | _ \<Rightarrow> 0)"

fun unmarshal_setting :: "json_text option \<Rightarrow> bool \<times> int" where
  "unmarshal_setting (Some (Document doc)) = (decodes doc, int_field doc ''max_concurrency'')"
| "unmarshal_setting (Some SpaceText) = (False, 0)"
| "unmarshal_setting (Some InvalidText) = (False, 0)"
| "unmarshal_setting _ = (True, 0)"

definition db_ask :: "learn_world \<Rightarrow> bool \<times> learn_world" where
  "db_ask w = (case lw_faults w of [] \<Rightarrow> (True, w) | f # fs \<Rightarrow> (\<not> f, w\<lparr>lw_faults := fs\<rparr>))"

definition update_setting :: "learn_world \<Rightarrow> int \<Rightarrow> json_text option \<Rightarrow> bool \<times> learn_world" where
  "update_setting w channelID t =
     (case db_ask w of
        (False, w) \<Rightarrow> (False, w)
      | (True, w) \<Rightarrow> (True, case map_of (lw_channels w) channelID of
                              None \<Rightarrow> w | Some _ \<Rightarrow> w\<lparr>lw_channels := gput channelID t (lw_channels w)\<rparr>))"

definition GetChannelById :: "learn_world \<Rightarrow> int \<Rightarrow> json_text option option \<times> learn_world" where
  "GetChannelById w channelID =
     (case db_ask w of (False, w) \<Rightarrow> (None, w) | (True, w) \<Rightarrow> (map_of (lw_channels w) channelID, w))"

text \<open>The limit that \<^verbatim>\<open>channel.GetSetting()\<close> returns, and the setting of the channel object after it.\<close>

definition GetSetting :: "learn_world \<Rightarrow> int \<Rightarrow> json_text option \<Rightarrow> int \<times> json_text option \<times> learn_world" where
  "GetSetting w channelID t =
     (case unmarshal_setting t of
        (True, limit) \<Rightarrow> (limit, t, w)
      | (False, limit) \<Rightarrow> (limit, None, snd (update_setting w channelID None)))"

fun parseSettingInt :: "json \<Rightarrow> int \<times> bool" where
  "parseSettingInt (JInt n) = (f64_to_i64 (f64_of_int n), True)"
| "parseSettingInt (JFloat r) = (f64_to_i64 r, True)"
| "parseSettingInt (JString s) = (case ParseInt (TrimSpace s) of None \<Rightarrow> (0, False) | Some n \<Rightarrow> (n, True))"
| "parseSettingInt _ = (0, False)"

fun getChannelConcurrencyCeilingFromSetting :: "json_text option \<Rightarrow> int" where
  "getChannelConcurrencyCeilingFromSetting (Some (Document doc)) =
     fst (parseSettingInt (json_lookup doc channelConcurrencyCeilingSettingKey))"
| "getChannelConcurrencyCeilingFromSetting _ = 0"

datatype build_result = BuildPanics | BuildError | Built json_text

text \<open>
  The text \<^verbatim>\<open>null\<close> decodes to a nil map, and writing to a nil map panics.
\<close>

definition with_limits :: "(string, json) gomap \<Rightarrow> int \<Rightarrow> int \<Rightarrow> json_text" where
  "with_limits doc learnedLimit ceilingLimit =
     Document (let doc = gput ''max_concurrency'' (JInt learnedLimit) doc
               in if ceilingLimit > 0 then gput channelConcurrencyCeilingSettingKey (JInt ceilingLimit) doc else doc)"

fun buildLearnedChannelSetting :: "json_text option \<Rightarrow> int \<Rightarrow> int \<Rightarrow> build_result" where
  "buildLearnedChannelSetting (Some (Document doc)) learnedLimit ceilingLimit =
     Built (with_limits (map (\<lambda>(k, v). (k, reencode v)) doc) learnedLimit ceilingLimit)"
| "buildLearnedChannelSetting (Some InvalidText) _ _ = BuildError"
| "buildLearnedChannelSetting (Some NullText) _ _ = BuildPanics"
| "buildLearnedChannelSetting _ learnedLimit ceilingLimit = Built (with_limits [] learnedLimit ceilingLimit)"

definition CacheUpdateChannel :: "learn_world \<Rightarrow> int \<Rightarrow> json_text option \<Rightarrow> learn_world" where
  "CacheUpdateChannel w channelID t =
     (if \<not> lw_cacheEnabled w then w else w\<lparr>lw_cache := gput channelID t (lw_cache w)\<rparr>)"

datatype 'a outcome_of = Returns 'a | Panics

text \<open>The block that builds, saves and caches a new setting: \<open>True\<close> when it was saved.\<close>

definition store_limits ::
  "learn_world \<Rightarrow> int \<Rightarrow> json_text option \<Rightarrow> int \<Rightarrow> int \<Rightarrow> bool outcome_of \<times> learn_world" where
  "store_limits w channelID t learnedLimit ceilingLimit =
     (case buildLearnedChannelSetting t learnedLimit ceilingLimit of
        BuildPanics \<Rightarrow> (Panics, w)
      | BuildError \<Rightarrow> (Returns False, w)
      | Built settingStr \<Rightarrow>
          (case update_setting w channelID (Some settingStr) of
             (False, w) \<Rightarrow> (Returns False, w)
           | (True, w) \<Rightarrow> (Returns True, CacheUpdateChannel w channelID (Some settingStr))))"

section \<open>Learning and recovery\<close>

definition learn_ceiling :: "json_text option \<Rightarrow> int \<Rightarrow> int \<Rightarrow> int" where
  "learn_ceiling t currentLimit learnedLimit =
     (let c = getChannelConcurrencyCeilingFromSetting t;
          c = (if c \<le> 0 then currentLimit else c);
          c = (if c \<le> 0 then learnedLimit else c);
          c = (if c < currentLimit then currentLimit else c)
      in if c < learnedLimit then learnedLimit else c)"

definition reported :: "learn_result \<Rightarrow> bool outcome_of \<times> learn_world \<Rightarrow> learn_result outcome_of \<times> learn_world" where
  "reported r x =
     (case x of (Panics, w) \<Rightarrow> (Panics, w) | (Returns saved, w) \<Rightarrow> (Returns (if saved then r else no_result), w))"

definition LearnChannelConcurrencyLimitWithResult ::
  "learn_world \<Rightarrow> int \<Rightarrow> int \<Rightarrow> api_failure option \<Rightarrow> learn_result outcome_of \<times> learn_world" where
  "LearnChannelConcurrencyLimitWithResult w channelID activeAtLimit err =
     (if channelID \<le> 0 \<or> activeAtLimit < channelConcurrencyMinLearnSample \<or> \<not> IsUpstreamConcurrencyLimitError err
      then (Returns no_result, w)
      else let learnedLimit = (if activeAtLimit - 1 < 1 then 1 else activeAtLimit - 1) in
      case GetChannelById w channelID of
        (None, w) \<Rightarrow> (Returns no_result, w)
      | (Some t, w) \<Rightarrow>
          (case GetSetting w channelID t of (currentLimit, t, w) \<Rightarrow>
           let currentCeiling = learn_ceiling t currentLimit learnedLimit;
               result = \<lparr>lr_LearnedLimit = learnedLimit, lr_CeilingLimit = currentCeiling,
                         lr_PreviousLimit = currentLimit, lr_Changed = False\<rparr>
           in if currentLimit > 0 \<and> currentLimit \<le> learnedLimit then
                (if getChannelConcurrencyCeilingFromSetting t \<le> 0 \<and> currentCeiling > 0
                 then reported result (store_limits w channelID t currentLimit currentCeiling)
                 else (Returns result, w))
              else reported (result\<lparr>lr_Changed := True\<rparr>) (store_limits w channelID t learnedLimit currentCeiling)))"

definition LearnChannelConcurrencyLimit :: "learn_world \<Rightarrow> int \<Rightarrow> int \<Rightarrow> api_failure option \<Rightarrow> unit outcome_of \<times> learn_world" where
  "LearnChannelConcurrencyLimit w channelID activeAtLimit err =
     (case LearnChannelConcurrencyLimitWithResult w channelID activeAtLimit err of
        (Panics, w) \<Rightarrow> (Panics, w) | (Returns _, w) \<Rightarrow> (Returns (), w))"

definition recovered_limit :: "int \<Rightarrow> int \<Rightarrow> int" where
  "recovered_limit currentLimit ceilingLimit =
     (let n = (if currentLimit < channelConcurrencyMinLearnSample then ceilingLimit else currentLimit + 1)
      in if n > ceilingLimit then ceilingLimit else n)"

definition recover_limit :: "learn_world \<Rightarrow> int \<Rightarrow> learn_world" where
  "recover_limit w channelID =
     (case GetChannelById w channelID of
        (None, w) \<Rightarrow> w
      | (Some t, w) \<Rightarrow>
          (case GetSetting w channelID t of (currentLimit, t, w) \<Rightarrow>
           if currentLimit \<le> 0 then w
           else let c = getChannelConcurrencyCeilingFromSetting t;
                    ceilingLimit = (if c \<le> 0 then currentLimit else c);
                    nextLimit = recovered_limit currentLimit ceilingLimit
           in if ceilingLimit \<le> currentLimit \<or> nextLimit \<le> currentLimit then w
              else snd (store_limits w channelID t nextLimit ceilingLimit)))"

definition RecordChannelConcurrencySuccess :: "time \<Rightarrow> learn_world \<Rightarrow> int \<Rightarrow> learn_world" where
  "RecordChannelConcurrencySuccess now w channelID =
     (if channelID \<le> 0 then w
      else case map_of (lw_control w) channelID of
        None \<Rightarrow> w
      | Some s \<Rightarrow>
          if ct_cooldownUntil s > now then w
          else if ct_successStreak s + 1 < channelConcurrencyRecoveryThreshold
          then w\<lparr>lw_control := gput channelID (s\<lparr>ct_successStreak := ct_successStreak s + 1\<rparr>) (lw_control w)\<rparr>
          else recover_limit (w\<lparr>lw_control := gput channelID (s\<lparr>ct_successStreak := 0\<rparr>) (lw_control w)\<rparr>) channelID)"

end
