(* ===== verification/Learning_Properties.thy ===== *)
theory Learning_Properties
  imports Concurrency_Learning
begin

text \<open>
  What learning does to the limit of a channel: the exact limit and ceiling after an upstream
  refusal, and the fate of a lowered limit. No call records a cooldown, so over every sequence of
  calls the control states stay empty, no channel ever cools down and no limit is ever raised again.
\<close>

section \<open>Numbers and documents\<close>

lemma f64_of_int_exact:
  assumes "0 \<le> n" and "n < 2 ^ 53"
  shows "f64_of_int n = of_int n"
proof (cases "n = 0")
  case False
  define e where "e = exponent (of_int n)"
  have n: "0 < (of_int n :: rat)" using assms(1) False by simp
  have "(of_int n :: rat) < of_int (2 ^ 53)" using assms(2) by (simp only: of_int_less_iff)
  then have "pow2 e < pow2 53"
    using exponent_bounds(1) [OF n] by (simp add: e_def pow2_def)
  then have e: "e \<le> 52" using pow2_mono [of 53 e] by linarith
  then have "pow2 (52 - e) = of_int (2 ^ nat (52 - e))" by (simp add: pow2_def)
  then have "of_int n * pow2 (52 - e) = of_int (n * 2 ^ nat (52 - e))" by simp
  then have "round_pos (of_int n) = of_int n * pow2 (52 - e) * pow2 (e - 52)"
    unfolding round_pos_def Let_def e_def [symmetric] by (simp only: round_half_even_int)
  also have "\<dots> = of_int n" using pow2_cancel [of "52 - e"] by (simp add: mult.assoc)
  finally show ?thesis using n by (simp add: f64_of_int_def f64_round_def)
qed simp

lemma f64_int_roundtrip:
  assumes "0 \<le> n" and "n < 2 ^ 53"
  shows "f64_to_i64 (f64_of_int n) = n"
  using assms by (simp add: f64_of_int_exact f64_to_i64_def trunc_def Let_def)

lemma json_lookup_gput [simp]:
  "json_lookup (gput k v doc) k' = (if k' = k then v else json_lookup doc k')"
  by (simp add: json_lookup_def map_of_gput)

lemma json_lookup_reencode:
  "json_lookup (map (\<lambda>(k, v). (k, reencode v)) doc) k = reencode (json_lookup doc k)"
proof -
  have "map_of (map (\<lambda>(k, v). (k, reencode v)) doc) k = map_option reencode (map_of doc k)"
    using map_of_map_values [of "\<lambda>_. reencode" doc k] by simp
  then show ?thesis by (simp add: json_lookup_def split: option.split)
qed

lemma reencode_typed:
  "is_bool_json v \<Longrightarrow> is_bool_json (reencode v)" "is_string_json v \<Longrightarrow> is_string_json (reencode v)"
  by (cases v; simp)+

lemma setting_keys_distinct:
  "''max_concurrency'' \<noteq> channelConcurrencyCeilingSettingKey"
  "k \<in> set setting_bool_keys \<union> set setting_string_keys \<Longrightarrow>
   k \<noteq> ''max_concurrency'' \<and> k \<noteq> channelConcurrencyCeilingSettingKey"
  by (auto simp: channelConcurrencyCeilingSettingKey_def setting_bool_keys_def setting_string_keys_def)

text \<open>A text that decodes without an error, so that reading it leaves it alone.\<close>

definition readable :: "json_text option \<Rightarrow> bool" where
  "readable t = fst (unmarshal_setting t)"

definition text_limit :: "json_text option \<Rightarrow> int" where
  "text_limit t = snd (unmarshal_setting t)"

lemma readable_with_limits:
  assumes "decodes doc \<or> doc = []" and "0 < l" "l < 2 ^ 63" and "0 < c" "c < 2 ^ 63"
  shows "readable (Some (with_limits (map (\<lambda>(k, v). (k, reencode v)) doc) l c))"
proof -
  have d: "decodes doc" using assms(1) by (auto simp: decodes_def json_lookup_def list_all_iff)
  show ?thesis
    using d assms(2-) setting_keys_distinct(2)
    by (auto simp: readable_def with_limits_def decodes_def list_all_iff json_lookup_reencode setting_int_keys_def
        intro: reencode_typed)
qed

lemma limits_with_limits:
  assumes "0 < l" "l < 2 ^ 63" and "0 < c" "c < 2 ^ 53"
  shows "text_limit (Some (with_limits doc l c)) = l"
    and "getChannelConcurrencyCeilingFromSetting (Some (with_limits doc l c)) = c"
  using assms setting_keys_distinct(1)
  by (simp_all add: text_limit_def with_limits_def int_field_def f64_int_roundtrip)

lemma text_limit_bound: "text_limit t < 2 ^ 63"
  by (cases t rule: unmarshal_setting.cases) (auto simp: text_limit_def int_field_def split: json.split)

section \<open>Reading and storing\<close>

lemma f64_to_i64_bound: "f64_to_i64 r < 2 ^ 63"
  by (simp add: f64_to_i64_def Let_def)

lemma ceiling_bound: "readable t \<Longrightarrow> getChannelConcurrencyCeilingFromSetting t < 2 ^ 63"
  by (cases t rule: getChannelConcurrencyCeilingFromSetting.cases)
    (auto simp: readable_def decodes_def setting_int_keys_def f64_to_i64_bound [simplified] split: json.split
      elim!: is_int_json.elims)

lemma db_ask_frame:
  "db_ask w = (ok, w') \<Longrightarrow> lw_channels w' = lw_channels w \<and> lw_control w' = lw_control w \<and> lw_cache w' = lw_cache w"
  by (auto simp: db_ask_def split: list.splits)

lemma GetChannelById_frame:
  "GetChannelById w c = (r, w') \<Longrightarrow> lw_channels w' = lw_channels w \<and> lw_control w' = lw_control w
     \<and> (\<forall>t. r = Some t \<longrightarrow> map_of (lw_channels w) c = Some t)"
  by (auto simp: GetChannelById_def split: prod.splits bool.splits dest: db_ask_frame)

lemma update_setting_frame:
  "update_setting w c t = (ok, w') \<Longrightarrow> lw_control w' = lw_control w
     \<and> (\<forall>k. k \<noteq> c \<longrightarrow> map_of (lw_channels w') k = map_of (lw_channels w) k)
     \<and> (\<not> ok \<longrightarrow> lw_channels w' = lw_channels w)
     \<and> (ok \<and> map_of (lw_channels w) c \<noteq> None \<longrightarrow> map_of (lw_channels w') c = Some t)"
  by (auto simp: update_setting_def map_of_gput split: prod.splits bool.splits option.splits dest: db_ask_frame)

lemma GetSetting_readable: "readable t \<Longrightarrow> GetSetting w c t = (text_limit t, t, w)"
  by (cases "unmarshal_setting t") (simp add: GetSetting_def readable_def text_limit_def)

lemma GetSetting_frame:
  "GetSetting w c t = (l, t', w') \<Longrightarrow> lw_control w' = lw_control w
     \<and> (\<forall>k. k \<noteq> c \<longrightarrow> map_of (lw_channels w') k = map_of (lw_channels w) k)"
  using update_setting_frame [of w c None "fst (update_setting w c None)" "snd (update_setting w c None)"]
  by (auto simp: GetSetting_def split: prod.splits bool.splits)

lemma store_limits_frame:
  "store_limits w c t l m = (r, w') \<Longrightarrow> lw_control w' = lw_control w
     \<and> (\<forall>k. k \<noteq> c \<longrightarrow> map_of (lw_channels w') k = map_of (lw_channels w) k)
     \<and> (r \<noteq> Returns True \<longrightarrow> lw_channels w' = lw_channels w)
     \<and> (r = Returns True \<and> map_of (lw_channels w) c \<noteq> None \<longrightarrow>
          (\<exists>s. buildLearnedChannelSetting t l m = Built s \<and> map_of (lw_channels w') c = Some (Some s)))"
  by (auto simp: store_limits_def CacheUpdateChannel_def split: build_result.splits prod.splits bool.splits if_splits
      dest!: update_setting_frame)

lemma built_text:
  assumes "readable t" and "buildLearnedChannelSetting t l m = Built s" and "0 < l" "l < 2 ^ 63" and "0 < m" "m < 2 ^ 63"
  shows "readable (Some s)" and "text_limit (Some s) = l"
    and "m < 2 ^ 53 \<Longrightarrow> getChannelConcurrencyCeilingFromSetting (Some s) = m"
proof -
  have "\<exists>doc. s = with_limits (map (\<lambda>(k, v). (k, reencode v)) doc) l m \<and> (decodes doc \<or> doc = [])"
    using assms(1,2) by (cases t rule: unmarshal_setting.cases) (auto simp: readable_def intro: exI [of _ "[]"])
  then obtain doc where doc: "s = with_limits (map (\<lambda>(k, v). (k, reencode v)) doc) l m" "decodes doc \<or> doc = []"
    by blast
  show "readable (Some s)" unfolding doc(1) by (rule readable_with_limits [OF doc(2) assms(3-)])
  show "text_limit (Some s) = l"
    using assms(3,4,5) setting_keys_distinct(1) by (simp add: doc(1) text_limit_def with_limits_def int_field_def)
  show "getChannelConcurrencyCeilingFromSetting (Some s) = m" if "m < 2 ^ 53"
    unfolding doc(1) by (rule limits_with_limits [OF assms(3,4,5) that])
qed

lemma learn_ceiling_bounds:
  assumes "0 < n"
  shows "n \<le> learn_ceiling t l n" and "l \<le> learn_ceiling t l n"
    and "getChannelConcurrencyCeilingFromSetting t \<le> learn_ceiling t l n"
    and "l < b \<Longrightarrow> n < b \<Longrightarrow> getChannelConcurrencyCeilingFromSetting t < b \<Longrightarrow> learn_ceiling t l n < b"
  using assms by (auto simp: learn_ceiling_def Let_def)

section \<open>One call\<close>

text \<open>Learning on a channel whose setting can be read, by the limit \<open>n\<close> that the refusal teaches.\<close>

lemma learn_cases:
  assumes "LearnChannelConcurrencyLimitWithResult w c sample err = (r, w')"
    and "map_of (lw_channels w) c = Some t" and "readable t"
  obtains (kept) "lw_channels w' = lw_channels w" "lw_control w' = lw_control w"
    | (stored) l s where "0 < c" "3 \<le> sample"
      "l = (if 0 < text_limit t \<and> text_limit t \<le> sample - 1 then text_limit t else sample - 1)"
      "buildLearnedChannelSetting t l (learn_ceiling t (text_limit t) (sample - 1)) = Built s"
      "map_of (lw_channels w') c = Some (Some s)" "lw_control w' = lw_control w"
proof -
  obtain g w1 where g: "GetChannelById w c = (g, w1)" by fastforce
  note f = GetChannelById_frame [OF g]
  show thesis
  proof (cases "c \<le> 0 \<or> sample < 3 \<or> \<not> IsUpstreamConcurrencyLimitError err \<or> g = None")
    case True
    then show thesis
      using assms(1) f g by (intro kept) (auto simp: LearnChannelConcurrencyLimitWithResult_def
          channelConcurrencyMinLearnSample_def split: if_splits)
  next
    case False
    let ?n = "sample - 1" let ?l = "text_limit t" let ?m = "learn_ceiling t ?l ?n"
    have gt: "g = Some t" using False f assms(2) by auto
    have n: "(if ?n < 1 then 1 else ?n) = ?n" using False by simp
    define x where "x = (if 0 < ?l \<and> ?l \<le> ?n then ?l else ?n)"
    have run: "w' = w1 \<or> (\<exists>r'. store_limits w1 c t x ?m = (r', w'))"
      using assms(1) False g gt n
      by (auto simp: LearnChannelConcurrencyLimitWithResult_def channelConcurrencyMinLearnSample_def Let_def
          GetSetting_readable [OF assms(3)] reported_def x_def split: if_splits prod.splits outcome_of.splits)
    then consider "w' = w1" | r' where "store_limits w1 c t x ?m = (r', w')" "r' \<noteq> Returns True"
      | "store_limits w1 c t x ?m = (Returns True, w')" by metis
    then show thesis
    proof cases
      case 3
      from store_limits_frame [OF this] f assms(2) obtain s
        where "buildLearnedChannelSetting t x ?m = Built s" "map_of (lw_channels w') c = Some (Some s)"
          "lw_control w' = lw_control w" by auto
      with False show thesis by (intro stored [of x s]) (auto simp: x_def)
    qed (use f store_limits_frame in \<open>auto intro!: kept\<close>)
  qed
qed

lemma learn_other:
  assumes "LearnChannelConcurrencyLimitWithResult w c sample err = (r, w')"
  shows "lw_control w' = lw_control w \<and> (\<forall>k. k \<noteq> c \<longrightarrow> map_of (lw_channels w') k = map_of (lw_channels w) k)"
  using assms
  by (auto simp: LearnChannelConcurrencyLimitWithResult_def Let_def reported_def
      split: if_splits prod.splits option.splits outcome_of.splits
      dest!: GetChannelById_frame GetSetting_frame store_limits_frame)

lemma cooldown_recorded_never [simp]: "RecordChannelConcurrencyCooldown ParseTime now w c err = w"
  by (auto simp: RecordChannelConcurrencyCooldown_def split: option.split)

lemma cooldown_set_empty: "lw_control w = [] \<Longrightarrow> getChannelConcurrencyCooldownSet now w = ([], w)"
  by (simp add: getChannelConcurrencyCooldownSet_def)

lemma success_idle: "lw_control w = [] \<Longrightarrow> RecordChannelConcurrencySuccess now w c = w"
  by (simp add: RecordChannelConcurrencySuccess_def)

lemma clear_idle: "lw_control w = [] \<Longrightarrow> ClearChannelConcurrencyCooldown w c = (False, w)"
  by (simp add: ClearChannelConcurrencyCooldown_def)

lemma store_limits_run:
  assumes "lw_faults w = []" and "map_of (lw_channels w) c \<noteq> None" and "buildLearnedChannelSetting t l m = Built s"
  shows "\<exists>w'. store_limits w c t l m = (Returns True, w') \<and> map_of (lw_channels w') c = Some (Some s)
    \<and> lw_control w' = lw_control w \<and> (\<forall>k. k \<noteq> c \<longrightarrow> map_of (lw_channels w') k = map_of (lw_channels w) k)"
  using assms by (auto simp: store_limits_def update_setting_def db_ask_def CacheUpdateChannel_def map_of_gput)

text \<open>The setting \<^verbatim>\<open>null\<close> decodes to a nil map; learning on such a channel panics.\<close>

lemma null_setting_panics:
  assumes "0 < c" and "3 \<le> n" and "IsUpstreamConcurrencyLimitError err" and "lw_faults w = []"
    and "map_of (lw_channels w) c = Some (Some NullText)"
  shows "LearnChannelConcurrencyLimitWithResult w c n err = (Panics, w)"
  using assms by (simp add: LearnChannelConcurrencyLimitWithResult_def channelConcurrencyMinLearnSample_def
      GetChannelById_def db_ask_def GetSetting_def store_limits_def reported_def)

section \<open>Sequences of calls\<close>

text \<open>Any call of the interface, with any arguments of the types \<^verbatim>\<open>int\<close>.\<close>

inductive learn_step :: "learn_world \<Rightarrow> learn_world \<Rightarrow> bool" where
  learn: "sample < 2 ^ 63 \<Longrightarrow> learn_step w (snd (LearnChannelConcurrencyLimitWithResult w c sample err))"
| success: "learn_step w (RecordChannelConcurrencySuccess now w c)"
| throttled: "learn_step w (RecordChannelConcurrencyCooldown ParseTime now w c err)"
| clear: "learn_step w (snd (ClearChannelConcurrencyCooldown w c))"
| select: "learn_step w (snd (getChannelConcurrencyCooldownSet now w))"

definition limited :: "int \<Rightarrow> int \<Rightarrow> learn_world \<Rightarrow> bool" where
  "limited c b w \<longleftrightarrow> lw_control w = []
     \<and> (\<exists>t. map_of (lw_channels w) c = Some t \<and> readable t \<and> 0 < text_limit t \<and> text_limit t \<le> b)"

lemma learn_limited:
  assumes "limited c b w" and "sample < 2 ^ 63"
    and "LearnChannelConcurrencyLimitWithResult w k sample err = (r, w')"
  shows "limited c b w'"
proof (cases "k = c")
  case True
  obtain t where t: "map_of (lw_channels w) c = Some t" "readable t" "0 < text_limit t" "text_limit t \<le> b"
    and e: "lw_control w = []" using assms(1) by (auto simp: limited_def)
  from assms(3) [unfolded True] t(1,2) show ?thesis
  proof (cases rule: learn_cases)
    case (stored l s)
    let ?m = "learn_ceiling t (text_limit t) (sample - 1)"
    have n: "0 < sample - 1" "sample - 1 < 2 ^ 63" using stored(2) assms(2) by auto
    have l: "0 < l" "l \<le> text_limit t" "l < 2 ^ 63"
      using stored(3) t(3) n text_limit_bound [of t] by (auto split: if_splits)
    have m: "0 < ?m" "?m < 2 ^ 63"
      using n learn_ceiling_bounds(1) [OF n(1), where t = t and l = "text_limit t"]
        learn_ceiling_bounds(4) [OF n(1) text_limit_bound n(2) ceiling_bound [OF t(2)]] by auto
    from built_text(1,2) [OF t(2) stored(4) l(1,3) m] stored l t(4) e show ?thesis by (simp add: limited_def)
  qed (use t e in \<open>auto simp: limited_def\<close>)
next
  case False
  then show ?thesis using assms(1) learn_other [OF assms(3)] by (simp add: limited_def)
qed

lemma limited_idle: "limited c b w \<Longrightarrow> lw_control w = []"
  by (simp add: limited_def)

lemma step_limited: "learn_step w w' \<Longrightarrow> limited c b w \<Longrightarrow> limited c b w'"
  by (induction rule: learn_step.induct)
    (auto simp: cooldown_set_empty success_idle clear_idle limited_idle
      intro: learn_limited [OF _ _ prod.collapse [symmetric]])

lemma steps_limited: "learn_step\<^sup>*\<^sup>* w w' \<Longrightarrow> limited c b w \<Longrightarrow> limited c b w'"
  by (induction rule: rtranclp_induct) (auto intro: step_limited)

section \<open>Examples\<close>

definition example_refusal :: "api_failure option" where
  "example_refusal = Some \<lparr>ae_StatusCode = 429, ae_Error = ''Too many pending requests, please retry later'',
     ae_ErrorCode = ''bad_response_status_code'', ae_Metadata = EmptyText\<rparr>"

definition example_text :: json_text where
  "example_text = Document [(''proxy'', JString []), (''max_concurrency'', JInt 10)]"

definition example_channels :: learn_world where
  "example_channels = \<lparr>lw_channels = [(7, Some example_text), (8, None)], lw_cache = [], lw_cacheEnabled = False,
     lw_control = [], lw_faults = []\<rparr>"

text \<open>The example after a refusal with five running requests, and the same with an expired cooldown.\<close>

definition example_learned :: learn_world where
  "example_learned = snd (LearnChannelConcurrencyLimitWithResult example_channels 7 5 example_refusal)"

definition example_seeded :: learn_world where
  "example_seeded = example_learned\<lparr>lw_control := [(7, \<lparr>ct_cooldownUntil = 0, ct_reason = [], ct_failureCount = 1,
     ct_successStreak = 0\<rparr>)]\<rparr>"

definition three_successes :: "learn_world \<Rightarrow> learn_world" where
  "three_successes w = RecordChannelConcurrencySuccess 3 (RecordChannelConcurrencySuccess 2
     (RecordChannelConcurrencySuccess 1 w 7) 7) 7"

definition stored_limit :: "learn_world \<Rightarrow> int \<Rightarrow> int" where
  "stored_limit w c = (case map_of (lw_channels w) c of None \<Rightarrow> 0 | Some t \<Rightarrow> text_limit t)"

lemma example_learning:
  "stored_limit example_channels 7 = 10" "stored_limit example_learned 7 = 4"
  "stored_limit (three_successes example_seeded) 7 = 5"
  by code_simp+

lemma example_rows:
  "map_of (lw_channels example_channels) 7 = Some (Some example_text)" "readable (Some example_text)"
  "text_limit (Some example_text) = 10" "getChannelConcurrencyCeilingFromSetting (Some example_text) = 0"
  "IsUpstreamConcurrencyLimitError example_refusal" "lw_faults example_channels = []" "lw_control example_channels = []"
  "example_text \<noteq> NullText"
  by code_simp+

definition example_learned_text :: json_text where
  "example_learned_text = Document [(''proxy'', JString []), (''max_concurrency'', JInt 4),
     (channelConcurrencyCeilingSettingKey, JInt 10)]"

lemma example_learned_rows:
  "map_of (lw_channels example_learned) 7 = Some (Some example_learned_text)" "readable (Some example_learned_text)"
  "0 < text_limit (Some example_learned_text)" "lw_control example_learned = []"
  by code_simp+

section \<open>The properties\<close>

text \<open>An upstream refusal at \<open>n\<close> running requests teaches the limit \<open>n - 1\<close>: a channel without a limit
  or with a higher one gets exactly that limit, a lower limit is kept; the ceiling remembers the highest of
  the old ceiling, the old limit and the learned one whenever the limit changes, it never sinks, and the limit stays
  below it; other channels and the cooldowns are untouched.\<close>

lemma learned_limit_exact:
  assumes "0 < c" and "3 \<le> n" "n < 2 ^ 53" and "IsUpstreamConcurrencyLimitError err" and "lw_faults w = []"
    and "map_of (lw_channels w) c = Some t" and "readable t" and "t \<noteq> Some NullText"
    and "text_limit t < 2 ^ 53" and "getChannelConcurrencyCeilingFromSetting t < 2 ^ 53"
  shows "\<exists>r w' t'. LearnChannelConcurrencyLimitWithResult w c n err = (Returns r, w')
    \<and> map_of (lw_channels w') c = Some t' \<and> readable t'
    \<and> text_limit t' = (if 0 < text_limit t \<and> text_limit t \<le> n - 1 then text_limit t else n - 1)
    \<and> r = \<lparr>lr_LearnedLimit = n - 1,
          lr_CeilingLimit = max (max (getChannelConcurrencyCeilingFromSetting t) (text_limit t)) (n - 1),
          lr_PreviousLimit = text_limit t, lr_Changed = (text_limit t' \<noteq> text_limit t)\<rparr>
    \<and> (lr_Changed r \<longrightarrow> getChannelConcurrencyCeilingFromSetting t' = lr_CeilingLimit r)
    \<and> getChannelConcurrencyCeilingFromSetting t \<le> getChannelConcurrencyCeilingFromSetting t'
    \<and> (getChannelConcurrencyCeilingFromSetting t \<le> 0 \<or> text_limit t \<le> getChannelConcurrencyCeilingFromSetting t \<longrightarrow>
         text_limit t' \<le> getChannelConcurrencyCeilingFromSetting t')
    \<and> lw_control w' = lw_control w \<and> (\<forall>k. k \<noteq> c \<longrightarrow> map_of (lw_channels w') k = map_of (lw_channels w) k)"
proof -
  define m where "m = max (max (getChannelConcurrencyCeilingFromSetting t) (text_limit t)) (n - 1)"
  define l where "l = (if 0 < text_limit t \<and> text_limit t \<le> n - 1 then text_limit t else n - 1)"
  have lm: "learn_ceiling t (text_limit t) (n - 1) = m" using assms(2) by (auto simp: learn_ceiling_def m_def Let_def)
  have b: "0 < l" "l < 2 ^ 63" "0 < m" "m < 2 ^ 53" "l \<le> m" "m < 2 ^ 63"
    using assms(2,3,9,10) by (auto simp: l_def m_def)
  obtain s where s: "buildLearnedChannelSetting t l m = Built s"
    using assms(7,8) by (cases t rule: unmarshal_setting.cases) (auto simp: readable_def)
  note new = built_text [OF assms(7) s b(1,2,3,6)]
  obtain w' where w': "store_limits w c t l m = (Returns True, w')" "map_of (lw_channels w') c = Some (Some s)"
    "lw_control w' = lw_control w" "\<forall>k. k \<noteq> c \<longrightarrow> map_of (lw_channels w') k = map_of (lw_channels w) k"
    using store_limits_run [OF assms(5) _ s] assms(6) by auto
  have get: "GetChannelById w c = (Some t, w)" using assms(5,6) by (simp add: GetChannelById_def db_ask_def)
  note run = LearnChannelConcurrencyLimitWithResult_def channelConcurrencyMinLearnSample_def Let_def reported_def
    GetSetting_readable [OF assms(7)] get lm w'(1)
  show ?thesis
  proof (cases "0 < text_limit t \<and> text_limit t \<le> n - 1 \<and> 0 < getChannelConcurrencyCeilingFromSetting t")
    case True
    then have "LearnChannelConcurrencyLimitWithResult w c n err =
        (Returns \<lparr>lr_LearnedLimit = n - 1, lr_CeilingLimit = m, lr_PreviousLimit = text_limit t, lr_Changed = False\<rparr>, w)"
      using assms(1,2,4) by (simp add: run)
    with True assms(6,7) show ?thesis by (auto simp: m_def [symmetric])
  next
    case False
    let ?r = "\<lparr>lr_LearnedLimit = n - 1, lr_CeilingLimit = m, lr_PreviousLimit = text_limit t,
        lr_Changed = (l \<noteq> text_limit t)\<rparr>"
    have "LearnChannelConcurrencyLimitWithResult w c n err = (Returns ?r, w')"
      using False assms(1,2,4) b(3) w'(1) by (auto simp: run l_def split: if_splits)
    moreover have "getChannelConcurrencyCeilingFromSetting t \<le> m" by (simp add: m_def)
    ultimately show ?thesis
      using w'(2-) new(1,2) new(3) [OF b(4)] b(5) unfolding m_def [symmetric] l_def [symmetric]
      by (intro exI [of _ ?r] exI [of _ w'] exI [of _ "Some s"] conjI) simp_all
  qed
qed

lemma learned_limit_exact_witness:
  "stored_limit example_learned 7 = 4 \<and> (\<exists>t'. map_of (lw_channels example_learned) 7 = Some t'
     \<and> text_limit t' = 4 \<and> getChannelConcurrencyCeilingFromSetting t' = 10)"
  using learned_limit_exact [of 7 5 example_refusal example_channels "Some example_text"] example_rows example_learning(2)
  by (auto simp: example_learned_def)

text \<open>C23: A lowered limit is never raised again: whatever calls follow, none of them records a cooldown,
  no channel is ever reported or selected around as cooling down, and the limit of a channel can only sink.
  A success raises a limit only where a control state has been put in place by other means, as in the
  second example of the witness.\<close>

theorem learned_limits_never_recover:
  assumes "learn_step\<^sup>*\<^sup>* w w'" and "lw_control w = []"
    and "map_of (lw_channels w) c = Some t" and "readable t" and "0 < text_limit t"
  shows "lw_control w' = [] \<and> GetChannelConcurrencyCooldownStatus now w' k = None
    \<and> fst (getChannelConcurrencyCooldownSet now w') = []
    \<and> RecordChannelConcurrencyCooldown ParseTime now w' k err = w'
    \<and> (\<exists>t'. map_of (lw_channels w') c = Some t' \<and> 0 < text_limit t' \<and> text_limit t' \<le> text_limit t)"
proof -
  have "limited c (text_limit t) w" using assms(2-) by (auto simp: limited_def)
  from steps_limited [OF assms(1) this] show ?thesis
    by (auto simp: limited_def GetChannelConcurrencyCooldownStatus_def getChannelConcurrencyCooldownSet_def)
qed

theorem learned_limits_never_recover_witness:
  "stored_limit (three_successes example_learned) 7 \<le> stored_limit example_learned 7
   \<and> stored_limit example_learned 7 < stored_limit (three_successes example_seeded) 7"
proof -
  have steps: "learn_step\<^sup>*\<^sup>* example_learned (three_successes example_learned)"
    unfolding three_successes_def by (meson learn_step.success rtranclp.rtrancl_into_rtrancl rtranclp.rtrancl_refl)
  obtain t' where "map_of (lw_channels (three_successes example_learned)) 7 = Some t'"
    "text_limit t' \<le> text_limit (Some example_learned_text)"
    using learned_limits_never_recover [OF steps example_learned_rows(4,1,2,3)] by blast
  then show ?thesis
    using example_learning example_learned_rows(1) by (simp add: stored_limit_def)
qed

end
