(* ===== verification/Queue_Snapshot.thy ===== *)
theory Queue_Snapshot
  imports Queue_Properties
begin

text \<open>
  The snapshots of the waiting queues for the dashboard (\<^verbatim>\<open>DetailedSnapshot\<close> and the functions below it
  in \<^verbatim>\<open>scheduler/queue_manager.go\<close>), and that they account for every waiter: the totals, the depths by
  priority, by group and by runtime key all count exactly the requests that wait.

  The accumulators of the loops over the maps are sums over their entries. Go leaves the order of
  iteration open; the model takes that of the association lists.
\<close>

section \<open>Data\<close>

record group_snapshot =
  gs_ChannelID :: int
  gs_Group :: string
  gs_QueueDepth :: int
  gs_QueuedRequests :: int
  gs_WaitingRequests :: int
  gs_HighPriorityDepth :: int
  gs_NormalDepth :: int

record key_snapshot =
  ks_RuntimeKey :: runtime_key
  ks_RequestedModel :: string
  ks_UpstreamModel :: string
  ks_ChannelID :: int
  ks_Group :: string
  ks_EndpointType :: string
  ks_CapabilityFingerprint :: string
  ks_QueueDepth :: int
  ks_QueuedRequests :: int
  ks_WaitingRequests :: int
  ks_HighPriorityDepth :: int
  ks_NormalDepth :: int

record channel_snapshot =
  cn_ChannelID :: int
  cn_QueueDepth :: int
  cn_QueuedRequests :: int
  cn_WaitingRequests :: int
  cn_QueueCapacity :: int
  cn_MaxQueueDepth :: int
  cn_HighPriorityDepth :: int
  cn_NormalDepth :: int
  cn_HighPriorityCapacity :: int
  cn_NormalCapacity :: int
  cn_Groups :: "group_snapshot list"

record queue_summary =
  sm_UpdatedAt :: int
  sm_TotalQueued :: int
  sm_TotalDepth :: int
  sm_TotalCapacity :: int
  sm_Waiting :: int
  sm_QueuedRequests :: int
  sm_WaitingRequests :: int
  sm_QueueChannels :: int
  sm_QueueGroups :: int
  sm_QueueCapacity :: int
  sm_MaxQueueDepth :: int
  sm_HighPriorityDepth :: int
  sm_NormalDepth :: int
  sm_HighPriorityCapacity :: int
  sm_NormalCapacity :: int

record reason_count =
  rc_Reason :: string
  rc_Count :: int

record queue_snapshot =
  sn_UpdatedAt :: int
  sn_Summary :: queue_summary
  sn_Channels :: "channel_snapshot list"
  sn_RuntimeKeys :: "key_snapshot list"
  sn_Groups :: "group_snapshot list"
  sn_RejectReasons :: "reason_count list"

section \<open>Sorting\<close>

definition group_before :: "group_snapshot \<Rightarrow> group_snapshot \<Rightarrow> bool" where
  "group_before a b =
     (if gs_QueueDepth a \<noteq> gs_QueueDepth b then gs_QueueDepth a > gs_QueueDepth b else go_less (gs_Group a) (gs_Group b))"

definition sortRuntimeQueueGroupSnapshots :: "group_snapshot list \<Rightarrow> group_snapshot list" where
  "sortRuntimeQueueGroupSnapshots groups = SliceStable group_before groups"

definition channel_before :: "channel_snapshot \<Rightarrow> channel_snapshot \<Rightarrow> bool" where
  "channel_before a b =
     (if cn_QueueDepth a \<noteq> cn_QueueDepth b then cn_QueueDepth a > cn_QueueDepth b else cn_ChannelID a < cn_ChannelID b)"

definition sortRuntimeQueueChannelSnapshots :: "channel_snapshot list \<Rightarrow> channel_snapshot list" where
  "sortRuntimeQueueChannelSnapshots channels = SliceStable channel_before channels"

definition key_before :: "key_snapshot \<Rightarrow> key_snapshot \<Rightarrow> bool" where
  "key_before a b =
     (if ks_QueueDepth a \<noteq> ks_QueueDepth b then ks_QueueDepth a > ks_QueueDepth b
      else if ks_ChannelID a \<noteq> ks_ChannelID b then ks_ChannelID a < ks_ChannelID b
      else if ks_RequestedModel a \<noteq> ks_RequestedModel b then go_less (ks_RequestedModel a) (ks_RequestedModel b)
      else go_less (ks_Group a) (ks_Group b))"

definition sortRuntimeQueueKeySnapshots :: "key_snapshot list \<Rightarrow> key_snapshot list" where
  "sortRuntimeQueueKeySnapshots ks = SliceStable key_before ks"

definition reason_before :: "reason_count \<Rightarrow> reason_count \<Rightarrow> bool" where
  "reason_before a b =
     (if rc_Count a \<noteq> rc_Count b then rc_Count a > rc_Count b else go_less (rc_Reason a) (rc_Reason b))"

definition runtimeQueueRejectReasons :: "(string, int) gomap \<Rightarrow> reason_count list" where
  "runtimeQueueRejectReasons counts =
     SliceStable reason_before
       (map (\<lambda>(reason, n). \<lparr>rc_Reason = reason, rc_Count = n\<rparr>) (filter (\<lambda>(_, n). \<not> n \<le> 0) counts))"

section \<open>Accumulating by key\<close>

text \<open>The loops that collect entries in a map of pointers, created on first use.\<close>

definition accumulate ::
  "('a \<Rightarrow> 'k) \<Rightarrow> ('a \<Rightarrow> 'b) \<Rightarrow> ('b \<Rightarrow> 'a \<Rightarrow> 'b) \<Rightarrow> ('k, 'b) gomap \<Rightarrow> 'a \<Rightarrow> ('k, 'b) gomap" where
  "accumulate key new add m x =
     gput (key x) (add (case map_of m (key x) of None \<Rightarrow> new x | Some target \<Rightarrow> target) x) m"

definition group_key :: "string \<Rightarrow> string" where
  "group_key g = (if g = [] then ''_default'' else g)"

definition new_group :: "group_snapshot \<Rightarrow> group_snapshot" where
  "new_group g =
     \<lparr>gs_ChannelID = 0, gs_Group = gs_Group g, gs_QueueDepth = 0, gs_QueuedRequests = 0, gs_WaitingRequests = 0,
      gs_HighPriorityDepth = 0, gs_NormalDepth = 0\<rparr>"

definition add_group :: "group_snapshot \<Rightarrow> group_snapshot \<Rightarrow> group_snapshot" where
  "add_group target g = target\<lparr>
     gs_QueueDepth := gs_QueueDepth target + gs_QueueDepth g,
     gs_QueuedRequests := gs_QueuedRequests target + gs_QueuedRequests g,
     gs_WaitingRequests := gs_WaitingRequests target + gs_WaitingRequests g,
     gs_HighPriorityDepth := gs_HighPriorityDepth target + gs_HighPriorityDepth g,
     gs_NormalDepth := gs_NormalDepth target + gs_NormalDepth g\<rparr>"

definition aggregateRuntimeQueueGroups :: "group_snapshot list \<Rightarrow> group_snapshot list" where
  "aggregateRuntimeQueueGroups groups =
     sortRuntimeQueueGroupSnapshots
       (map snd (foldl (accumulate (\<lambda>g. group_key (gs_Group g)) new_group add_group) [] groups))"

definition aggregateQueueGroups :: "channel_snapshot list \<Rightarrow> group_snapshot list" where
  "aggregateQueueGroups channels =
     sortRuntimeQueueGroupSnapshots
       (map snd (foldl (accumulate (\<lambda>g. group_key (gs_Group g)) new_group add_group) [] (concat (map cn_Groups channels))))"

definition new_key :: "runtime_key \<Rightarrow> key_snapshot" where
  "new_key key =
     \<lparr>ks_RuntimeKey = key, ks_RequestedModel = rk_RequestedModel key, ks_UpstreamModel = rk_UpstreamModel key,
      ks_ChannelID = rk_ChannelID key, ks_Group = rk_Group key, ks_EndpointType = rk_EndpointType key,
      ks_CapabilityFingerprint = rk_CapabilityFingerprint key, ks_QueueDepth = 0, ks_QueuedRequests = 0,
      ks_WaitingRequests = 0, ks_HighPriorityDepth = 0, ks_NormalDepth = 0\<rparr>"

definition count_key :: "key_snapshot \<Rightarrow> queue_waiter \<Rightarrow> key_snapshot" where
  "count_key target w = target\<lparr>
     ks_QueueDepth := ks_QueueDepth target + 1,
     ks_QueuedRequests := ks_QueuedRequests target + 1,
     ks_WaitingRequests := ks_WaitingRequests target + 1,
     ks_HighPriorityDepth := (if qw_HighPriority w then ks_HighPriorityDepth target + 1 else ks_HighPriorityDepth target),
     ks_NormalDepth := (if qw_HighPriority w then ks_NormalDepth target else ks_NormalDepth target + 1)\<rparr>"

definition channel_waiter_key :: "int \<Rightarrow> queue_waiter \<Rightarrow> runtime_key" where
  "channel_waiter_key channelID w =
     (let key = qw_RuntimeKey w in if rk_ChannelID key \<le> 0 then key\<lparr>rk_ChannelID := channelID\<rparr> else key)"

definition runtimeQueueKeySnapshots :: "int \<Rightarrow> queue_waiter list \<Rightarrow> key_snapshot list" where
  "runtimeQueueKeySnapshots channelID waiters =
     sortRuntimeQueueKeySnapshots
       (map snd (foldl (accumulate (channel_waiter_key channelID) (\<lambda>w. new_key (channel_waiter_key channelID w)) count_key) [] waiters))"

definition pool_waiter_key :: "queue_waiter \<Rightarrow> runtime_key" where
  "pool_waiter_key w = (qw_RuntimeKey w)\<lparr>rk_ChannelID := 0\<rparr>"

definition runtimeQueuePoolKeySnapshots :: "queue_waiter list \<Rightarrow> key_snapshot list" where
  "runtimeQueuePoolKeySnapshots waiters =
     sortRuntimeQueueKeySnapshots
       (map snd (foldl (accumulate pool_waiter_key (\<lambda>w. new_key (pool_waiter_key w)) count_key) [] waiters))"

section \<open>The snapshot\<close>

definition Snapshot_depths :: "queue_manager \<Rightarrow> (int, int) gomap" where
  "Snapshot_depths m = foldr (\<lambda>(channelID, depth) s. gput channelID depth s) (qs_depths (qm_channels m)) []"

definition high_count :: "queue_waiter list \<Rightarrow> int" where
  "high_count ws = int (length (filter qw_HighPriority ws))"

definition normal_count :: "queue_waiter list \<Rightarrow> int" where
  "normal_count ws = int (length (filter (\<lambda>w. \<not> qw_HighPriority w) ws))"

definition applyQueuePriorityDepths :: "group_snapshot \<Rightarrow> queue_waiter list \<Rightarrow> group_snapshot" where
  "applyQueuePriorityDepths g waiters =
     (let ws = filter (\<lambda>w. qw_Group w = gs_Group g) waiters;
          high = gs_HighPriorityDepth g + high_count ws;
          normal = gs_NormalDepth g + normal_count ws
      in g\<lparr>gs_HighPriorityDepth := high,
           gs_NormalDepth := (if high = 0 \<and> normal = 0 then gs_QueueDepth g else normal)\<rparr>)"

definition group_snapshot_of :: "int \<Rightarrow> queue_waiter list \<Rightarrow> string \<Rightarrow> int \<Rightarrow> group_snapshot" where
  "group_snapshot_of channelID waiters g d =
     applyQueuePriorityDepths
       \<lparr>gs_ChannelID = channelID, gs_Group = g, gs_QueueDepth = d, gs_QueuedRequests = d, gs_WaitingRequests = d,
        gs_HighPriorityDepth = 0, gs_NormalDepth = 0\<rparr> waiters"

definition group_snapshots :: "int \<Rightarrow> (string, int) gomap \<Rightarrow> queue_waiter list \<Rightarrow> group_snapshot list" where
  "group_snapshots channelID groups waiters =
     map (\<lambda>(g, d). group_snapshot_of channelID waiters g d) (filter (\<lambda>(_, d). \<not> d \<le> 0) groups)"

definition channel_snapshot_of :: "queue_manager \<Rightarrow> int \<times> int \<Rightarrow> channel_snapshot" where
  "channel_snapshot_of m p =
     (case p of (channelID, depth) \<Rightarrow>
      let waiters = waiters_of (qm_channels m) channelID in
      \<lparr>cn_ChannelID = channelID, cn_QueueDepth = depth, cn_QueuedRequests = depth, cn_WaitingRequests = depth,
       cn_QueueCapacity = qm_maxDepth m, cn_MaxQueueDepth = qm_maxDepth m, cn_HighPriorityDepth = high_count waiters,
       cn_NormalDepth = (if waiters = [] then depth else normal_count waiters),
       cn_HighPriorityCapacity = highPriorityCapacityForPolicy (qm_admissionPolicy m) (qm_maxDepth m),
       cn_NormalCapacity = normalCapacityForPolicy (qm_admissionPolicy m) (qm_maxDepth m),
       cn_Groups = sortRuntimeQueueGroupSnapshots (group_snapshots channelID (groups_of (qm_channels m) channelID) waiters)\<rparr>)"

definition channel_entries :: "queue_manager \<Rightarrow> (int \<times> int) list" where
  "channel_entries m = filter (\<lambda>(channelID, depth). \<not> (channelID \<le> 0 \<or> depth \<le> 0)) (qs_depths (qm_channels m))"

definition pool_entries :: "queue_manager \<Rightarrow> (string \<times> int) list" where
  "pool_entries m = filter (\<lambda>(poolKey, depth). \<not> (poolKey = [] \<or> depth \<le> 0)) (qs_depths (qm_pools m))"

definition DetailedSnapshot :: "int \<Rightarrow> queue_manager \<Rightarrow> queue_snapshot" where
  "DetailedSnapshot now m =
     (let channels = map (channel_snapshot_of m) (channel_entries m);
          depths = map snd (channel_entries m) @ map snd (pool_entries m);
          pool_waiters = map (\<lambda>(k, _). waiters_of (qm_pools m) k) (pool_entries m);
          pool_groups = concat (map (\<lambda>(k, _). group_snapshots 0 (groups_of (qm_pools m) k) (waiters_of (qm_pools m) k)) (pool_entries m));
          groups = aggregateRuntimeQueueGroups (aggregateQueueGroups channels @ pool_groups)
      in \<lparr>sn_UpdatedAt = now,
          sn_Summary = \<lparr>sm_UpdatedAt = now, sm_TotalQueued = sum_list depths, sm_TotalDepth = sum_list depths,
            sm_TotalCapacity = qm_maxDepth m, sm_Waiting = sum_list depths, sm_QueuedRequests = sum_list depths,
            sm_WaitingRequests = sum_list depths, sm_QueueChannels = int (length channels),
            sm_QueueGroups = int (length groups), sm_QueueCapacity = qm_maxDepth m,
            sm_MaxQueueDepth = foldl (\<lambda>a d. if d > a then d else a) 0 depths,
            sm_HighPriorityDepth = (\<Sum>ch \<leftarrow> channels. cn_HighPriorityDepth ch) + (\<Sum>ws \<leftarrow> pool_waiters. high_count ws),
            sm_NormalDepth = (\<Sum>ch \<leftarrow> channels. cn_NormalDepth ch) + (\<Sum>ws \<leftarrow> pool_waiters. normal_count ws),
            sm_HighPriorityCapacity = highPriorityCapacityForPolicy (qm_admissionPolicy m) (qm_maxDepth m),
            sm_NormalCapacity = normalCapacityForPolicy (qm_admissionPolicy m) (qm_maxDepth m)\<rparr>,
          sn_Channels = sortRuntimeQueueChannelSnapshots channels,
          sn_RuntimeKeys = sortRuntimeQueueKeySnapshots
            (concat (map (\<lambda>(c, _). runtimeQueueKeySnapshots c (waiters_of (qm_channels m) c)) (channel_entries m))
             @ concat (map runtimeQueuePoolKeySnapshots pool_waiters)),
          sn_Groups = groups,
          sn_RejectReasons = runtimeQueueRejectReasons (qm_rejectReasons m)\<rparr>)"

section \<open>What accumulating keeps\<close>

text \<open>
  The contract of an accumulation: \<open>key_of\<close> tells the key a target belongs to, and the measure \<open>f\<close> of a
  target starts at zero and grows by the measure \<open>g\<close> of each entry.
\<close>

locale accumulation =
  fixes key :: "'a \<Rightarrow> 'k" and new :: "'a \<Rightarrow> 'b" and add :: "'b \<Rightarrow> 'a \<Rightarrow> 'b"
    and key_of :: "'b \<Rightarrow> 'k" and f :: "'b \<Rightarrow> int" and g :: "'a \<Rightarrow> int"
  assumes key_new: "key_of (new x) = key x"
    and key_add: "key_of (add t x) = key_of t"
    and f_new: "f (new x) = 0"
    and f_add: "f (add t x) = f t + g x"
begin

definition collected :: "'a list \<Rightarrow> ('k, 'b) gomap" where
  "collected xs = foldl (accumulate key new add) [] xs"

definition value_at :: "('k, 'b) gomap \<Rightarrow> 'k \<Rightarrow> int" where
  "value_at m k = (case map_of m k of None \<Rightarrow> 0 | Some t \<Rightarrow> f t)"

lemma collected_snoc: "collected (xs @ [x]) = accumulate key new add (collected xs) x"
  by (simp add: collected_def)

lemma collected_wf: "gwf (collected xs)"
  by (induction xs rule: rev_induct) (simp_all add: collected_snoc accumulate_def, simp add: collected_def)

lemma collected_keys: "fst ` set (collected xs) = key ` set xs"
proof (induction xs rule: rev_induct)
  case (snoc x xs)
  have "fst ` set (gput k v m) = insert k (fst ` set m)" for k v and m :: "('k, 'b) gomap"
    by (simp add: dom_map_of_conv_image_fst [symmetric] go_map_simps)
  with snoc show ?case by (simp add: collected_snoc accumulate_def)
qed (simp add: collected_def)

lemma collected_key_of: "map_of (collected xs) k = Some t \<Longrightarrow> key_of t = k"
proof (induction xs arbitrary: k t rule: rev_induct)
  case (snoc x xs)
  then show ?case
    by (auto simp: collected_snoc accumulate_def go_map_simps key_new key_add split: if_splits option.splits)
qed (simp add: collected_def)

lemma collected_keyed: "\<forall>(k, t) \<in> set (collected xs). key_of t = k"
  using collected_wf [of xs] collected_key_of [of xs] by (auto simp: gwf_mem_iff)

lemma collected_value: "value_at (collected xs) k = (\<Sum>x \<leftarrow> xs. if key x = k then g x else 0)"
  by (induction xs rule: rev_induct)
    (auto simp: collected_snoc accumulate_def value_at_def go_map_simps f_new f_add split: option.splits,
     simp add: collected_def)

lemma collected_mem: "t \<in> set (map snd (collected xs)) \<Longrightarrow> map_of (collected xs) (key_of t) = Some t"
  using collected_wf [of xs] collected_key_of by (auto simp: gwf_mem_iff)

lemma collected_distinct: "distinct (map key_of (map snd (collected xs)))"
proof -
  have eq: "map key_of (map snd (collected xs)) = map fst (collected xs)"
    using collected_keyed [of xs] by auto
  show ?thesis unfolding eq using collected_wf [of xs] by (simp add: gwf_def)
qed

text \<open>The sum over the collected targets of one key, and over all of them.\<close>

lemma collected_sum_at:
  "(\<Sum>t \<leftarrow> map snd (collected xs). if key_of t = k then f t else 0) = (\<Sum>x \<leftarrow> xs. if key x = k then g x else 0)"
proof -
  have "(\<Sum>t \<leftarrow> map snd m. if key_of t = k then f t else 0) = value_at m k"
    if "gwf m" "\<forall>(k, t) \<in> set m. key_of t = k" for m
    using that
  proof (induction m)
    case (Cons p m)
    have "value_at m k = 0" if "fst p = k"
      using Cons.prems(1) that by (auto simp: gwf_def value_at_def map_of_eq_None_iff [symmetric] split: option.splits)
    with Cons show ?case by (auto simp: gwf_def value_at_def)
  qed (simp add: value_at_def)
  from this [OF collected_wf collected_keyed] show ?thesis by (simp only: collected_value)
qed

lemma collected_sum: "(\<Sum>t \<leftarrow> map snd (collected xs). f t) = (\<Sum>x \<leftarrow> xs. g x)"
proof (induction xs rule: rev_induct)
  case (snoc x xs)
  have "(\<Sum>(k, t) \<leftarrow> collected (xs @ [x]). f t) = (\<Sum>(k, t) \<leftarrow> collected xs. f t) + g x"
    using gput_sum [OF collected_wf [of xs], of f "key x"]
    by (auto simp: collected_snoc accumulate_def f_new f_add split: option.splits)
  with snoc show ?case by (simp add: case_prod_unfold comp_def)
qed (simp add: collected_def)

end

interpretation depth_sum: accumulation "\<lambda>g. group_key (gs_Group g)" new_group add_group
  "\<lambda>g. group_key (gs_Group g)" gs_QueueDepth gs_QueueDepth
  by unfold_locales (simp_all add: new_group_def add_group_def)

interpretation high_sum: accumulation "\<lambda>g. group_key (gs_Group g)" new_group add_group
  "\<lambda>g. group_key (gs_Group g)" gs_HighPriorityDepth gs_HighPriorityDepth
  by unfold_locales (simp_all add: new_group_def add_group_def)

interpretation normal_sum: accumulation "\<lambda>g. group_key (gs_Group g)" new_group add_group
  "\<lambda>g. group_key (gs_Group g)" gs_NormalDepth gs_NormalDepth
  by unfold_locales (simp_all add: new_group_def add_group_def)

interpretation channel_keys: accumulation "channel_waiter_key c" "\<lambda>w. new_key (channel_waiter_key c w)" count_key
  ks_RuntimeKey ks_QueueDepth "\<lambda>_. 1" for c
  by unfold_locales (simp_all add: new_key_def count_key_def)

interpretation pool_keys: accumulation pool_waiter_key "\<lambda>w. new_key (pool_waiter_key w)" count_key
  ks_RuntimeKey ks_QueueDepth "\<lambda>_. 1"
  by unfold_locales (simp_all add: new_key_def count_key_def)

section \<open>The groups of one queue\<close>

lemma groups_entry:
  assumes "side_wf s" and "(g, d) \<in> set (groups_of s k)"
  shows "d = group_count (waiters_of s k) g" and "0 < d"
proof -
  have "gwf (groups_of s k)" using assms(1) by (simp add: side_wf_def)
  then have "map_of (groups_of s k) g = Some d" using assms(2) by (simp add: gwf_mem_iff)
  then show "d = group_count (waiters_of s k) g" "0 < d"
    using assms(1) by (auto simp: side_wf_def entry_def group_count_def split: if_splits)
qed

lemma groups_cover:
  assumes "side_wf s" and "w \<in> set (waiters_of s k)"
  shows "qw_Group w \<in> fst ` set (groups_of s k)"
proof -
  have "group_count (waiters_of s k) (qw_Group w) \<noteq> 0" using assms(2) by (auto simp: group_count_def filter_empty_conv)
  then have "map_of (groups_of s k) (qw_Group w) \<noteq> None" using assms(1) by (auto simp: side_wf_def entry_def)
  then show ?thesis by (simp add: map_of_eq_None_iff)
qed

lemma group_sum:
  assumes "side_wf s"
  shows "(\<Sum>(g, d) \<leftarrow> groups_of s k. if P g then group_count (filter Q (waiters_of s k)) g else 0) =
    int (length (filter (\<lambda>w. P (qw_Group w) \<and> Q w) (waiters_of s k)))"
proof -
  let ?h = "\<lambda>g. if P g then group_count (filter Q (waiters_of s k)) g else 0"
  have "(\<Sum>(g, d) \<leftarrow> groups_of s k. ?h g) = (\<Sum>g \<leftarrow> map fst (groups_of s k). ?h g)" by (simp add: case_prod_unfold comp_def)
  also have "\<dots> = (\<Sum>g \<in> fst ` set (groups_of s k). ?h g)"
    using assms sum_list_distinct_conv_sum_set [of "map fst (groups_of s k)" ?h] by (simp add: side_wf_def gwf_def)
  also have "\<dots> = int (length (filter (\<lambda>w. P (qw_Group w)) (filter Q (waiters_of s k))))"
    by (rule high_depth_filter) (use groups_cover [OF assms] in auto)
  finally show ?thesis by (simp add: conj_commute)
qed

lemma priority_split: "group_count (filter qw_HighPriority ws) g + group_count (filter (\<lambda>w. \<not> qw_HighPriority w) ws) g = group_count ws g"
  by (induction ws) (auto simp: group_count_def)

lemma snapshot_fields:
  fixes c :: int
  assumes "side_wf s" and "(g, d) \<in> set (groups_of s k)"
  defines "x \<equiv> group_snapshot_of c (waiters_of s k) g d"
  shows "gs_Group x = g" and "gs_QueueDepth x = group_count (filter (\<lambda>_. True) (waiters_of s k)) g"
    and "gs_HighPriorityDepth x = group_count (filter qw_HighPriority (waiters_of s k)) g"
    and "gs_NormalDepth x = group_count (filter (\<lambda>w. \<not> qw_HighPriority w) (waiters_of s k)) g"
proof -
  note d = groups_entry [OF assms(1,2)]
  have h: "high_count (filter (\<lambda>w. qw_Group w = g) (waiters_of s k)) = group_count (filter qw_HighPriority (waiters_of s k)) g"
    and n: "normal_count (filter (\<lambda>w. qw_Group w = g) (waiters_of s k)) = group_count (filter (\<lambda>w. \<not> qw_HighPriority w) (waiters_of s k)) g"
    by (simp_all add: high_count_def normal_count_def group_count_def conj_commute)
  show "gs_Group x = g" "gs_QueueDepth x = group_count (filter (\<lambda>_. True) (waiters_of s k)) g"
    "gs_HighPriorityDepth x = group_count (filter qw_HighPriority (waiters_of s k)) g"
    using d(1) by (simp_all add: x_def group_snapshot_of_def applyQueuePriorityDepths_def Let_def h)
  show "gs_NormalDepth x = group_count (filter (\<lambda>w. \<not> qw_HighPriority w) (waiters_of s k)) g"
    using d priority_split [of "waiters_of s k" g] by (simp add: x_def group_snapshot_of_def applyQueuePriorityDepths_def Let_def h n)
qed

lemma group_snapshots_all:
  assumes "side_wf s"
  shows "group_snapshots c (groups_of s k) (waiters_of s k) =
    map (\<lambda>(g, d). group_snapshot_of c (waiters_of s k) g d) (groups_of s k)"
proof -
  have "filter (\<lambda>(_, d). \<not> d \<le> 0) (groups_of s k) = groups_of s k"
    using groups_entry(2) [OF assms] by (force simp: filter_id_conv)
  then show ?thesis by (simp add: group_snapshots_def)
qed

text \<open>A measure of the snapshots that counts, per group, the waiters with a property.\<close>

definition counts :: "(group_snapshot \<Rightarrow> int) \<Rightarrow> (queue_waiter \<Rightarrow> bool) \<Rightarrow> bool" where
  "counts f Q \<longleftrightarrow> (f, Q) = (gs_QueueDepth, \<lambda>_. True) \<or> (f, Q) = (gs_HighPriorityDepth, qw_HighPriority)
     \<or> (f, Q) = (gs_NormalDepth, \<lambda>w. \<not> qw_HighPriority w)"

lemma group_snapshots_sum:
  assumes "side_wf s" and "counts f Q"
  shows "(\<Sum>x \<leftarrow> group_snapshots c (groups_of s k) (waiters_of s k). if group_key (gs_Group x) = j then f x else 0) =
    int (length (filter (\<lambda>w. group_key (qw_Group w) = j \<and> Q w) (waiters_of s k)))"
proof -
  have "(\<Sum>x \<leftarrow> group_snapshots c (groups_of s k) (waiters_of s k). if group_key (gs_Group x) = j then f x else 0) =
      (\<Sum>(g, d) \<leftarrow> groups_of s k. if group_key g = j then group_count (filter Q (waiters_of s k)) g else 0)"
    unfolding group_snapshots_all [OF assms(1)] map_map comp_def
    using assms(2) snapshot_fields [OF assms(1)]
    by (intro arg_cong [where f = sum_list] map_cong) (auto simp: counts_def)
  then show ?thesis by (simp only: group_sum [OF assms(1)])
qed

lemma group_snapshots_groups:
  assumes "side_wf s" and "w \<in> set (waiters_of s k)"
  shows "\<exists>x \<in> set (group_snapshots c (groups_of s k) (waiters_of s k)). gs_Group x = qw_Group w"
  using groups_cover [OF assms] snapshot_fields(1) [OF assms(1)]
  by (fastforce simp: group_snapshots_all [OF assms(1)])

section \<open>All queues\<close>

text \<open>The waiters a snapshot is about, queue by queue.\<close>

definition channel_lines :: "queue_manager \<Rightarrow> queue_waiter list list" where
  "channel_lines m = map (\<lambda>(c, _). waiters_of (qm_channels m) c) (channel_entries m)"

definition pool_lines :: "queue_manager \<Rightarrow> queue_waiter list list" where
  "pool_lines m = map (\<lambda>(k, _). waiters_of (qm_pools m) k) (pool_entries m)"

definition shown_waiters :: "queue_manager \<Rightarrow> queue_waiter list" where
  "shown_waiters m = concat (channel_lines m) @ concat (pool_lines m)"

lemma depth_entry:
  assumes "side_wf s" and "(k, d) \<in> set (qs_depths s)"
  shows "d = int (length (waiters_of s k))"
proof -
  have "map_of (qs_depths s) k = Some d" using assms by (simp add: side_wf_def gwf_mem_iff)
  then show ?thesis using assms(1) by (auto simp: side_wf_def entry_def split: if_splits)
qed

lemma depth_listed:
  assumes "side_wf s" and "w \<in> set (waiters_of s k)"
  shows "(k, int (length (waiters_of s k))) \<in> set (qs_depths s)"
proof -
  have "waiters_of s k \<noteq> []" using assms(2) by auto
  then show ?thesis using assms(1) by (simp add: side_wf_def gwf_mem_iff entry_def)
qed

lemma shown_all:
  assumes "manager_wf m"
  shows "0 < c \<Longrightarrow> w \<in> set (waiters_of (qm_channels m) c) \<Longrightarrow> w \<in> set (shown_waiters m)"
    and "k \<noteq> [] \<Longrightarrow> w \<in> set (waiters_of (qm_pools m) k) \<Longrightarrow> w \<in> set (shown_waiters m)"
  using depth_listed [of "qm_channels m" w c] depth_listed [of "qm_pools m" w k] assms
  by (force simp: manager_wf_def shown_waiters_def channel_lines_def pool_lines_def channel_entries_def pool_entries_def)+

lemma filter_split: "int (length (filter P (xs @ ys))) = int (length (filter P xs)) + int (length (filter P ys))"
  by simp

lemma filter_concat_sum: "int (length (filter P (concat xss))) = (\<Sum>xs \<leftarrow> xss. int (length (filter P xs)))"
  by (induction xss) simp_all

lemma length_concat_sum: "int (length (concat xss)) = (\<Sum>xs \<leftarrow> xss. int (length xs))"
  by (induction xss) simp_all

lemma sum_SliceStable: "(\<Sum>x \<leftarrow> SliceStable lt xs. f x) = (\<Sum>x \<leftarrow> xs. f x :: int)"
  by (metis mset_SliceStable mset_map sum_mset_sum_list)

lemma sum_concat: "(\<Sum>x \<leftarrow> concat xss. f x) = (\<Sum>xs \<leftarrow> xss. \<Sum>x \<leftarrow> xs. f x :: int)"
  by (induction xss) simp_all

lemma entry_depths:
  assumes "manager_wf m"
  shows "map snd (channel_entries m) = map (\<lambda>ws. int (length ws)) (channel_lines m)"
    and "map snd (pool_entries m) = map (\<lambda>ws. int (length ws)) (pool_lines m)"
  using depth_entry [of "qm_channels m"] depth_entry [of "qm_pools m"] assms
  by (auto simp: manager_wf_def channel_lines_def pool_lines_def channel_entries_def pool_entries_def)

lemma line_keys_sum:
  "(\<Sum>x \<leftarrow> runtimeQueueKeySnapshots c ws. ks_QueueDepth x) = int (length ws)"
  "(\<Sum>x \<leftarrow> runtimeQueuePoolKeySnapshots ws. ks_QueueDepth x) = int (length ws)"
  unfolding runtimeQueueKeySnapshots_def runtimeQueuePoolKeySnapshots_def sortRuntimeQueueKeySnapshots_def sum_SliceStable
    channel_keys.collected_def [symmetric] pool_keys.collected_def [symmetric]
    channel_keys.collected_sum pool_keys.collected_sum
  by (simp_all add: sum_list_triv)

text \<open>What a snapshot lists for the groups before the two rounds of aggregation.\<close>

definition listed_groups :: "queue_manager \<Rightarrow> group_snapshot list" where
  "listed_groups m =
     concat (map (\<lambda>(c, _). group_snapshots c (groups_of (qm_channels m) c) (waiters_of (qm_channels m) c)) (channel_entries m))
     @ concat (map (\<lambda>(k, _). group_snapshots 0 (groups_of (qm_pools m) k) (waiters_of (qm_pools m) k)) (pool_entries m))"

lemma listed_sum:
  assumes "manager_wf m" and "counts f Q"
  shows "(\<Sum>x \<leftarrow> listed_groups m. if group_key (gs_Group x) = j then f x else 0) =
    int (length (filter (\<lambda>w. group_key (qw_Group w) = j \<and> Q w) (shown_waiters m)))"
proof -
  have wf: "side_wf (qm_channels m)" "side_wf (qm_pools m)" using assms(1) by (simp_all add: manager_wf_def)
  show ?thesis
    unfolding listed_groups_def shown_waiters_def filter_split filter_concat_sum map_append sum_list_append sum_concat
      channel_lines_def pool_lines_def map_map comp_def case_prod_unfold
      group_snapshots_sum [OF wf(1) assms(2)] group_snapshots_sum [OF wf(2) assms(2)] ..
qed

lemma listed_cover:
  assumes "manager_wf m" and "w \<in> set (shown_waiters m)"
  shows "qw_Group w \<in> gs_Group ` set (listed_groups m)"
proof -
  have wf: "side_wf (qm_channels m)" "side_wf (qm_pools m)" using assms(1) by (simp_all add: manager_wf_def)
  from assms(2) consider c d where "(c, d) \<in> set (channel_entries m)" "w \<in> set (waiters_of (qm_channels m) c)"
    | k d where "(k, d) \<in> set (pool_entries m)" "w \<in> set (waiters_of (qm_pools m) k)"
    by (auto simp: shown_waiters_def channel_lines_def pool_lines_def)
  then show ?thesis
  proof cases
    case 1
    obtain x where "x \<in> set (group_snapshots c (groups_of (qm_channels m) c) (waiters_of (qm_channels m) c))" "gs_Group x = qw_Group w"
      using group_snapshots_groups [OF wf(1) 1(2), of c] by blast
    then show ?thesis using 1(1) by (force simp: listed_groups_def)
  next
    case 2
    obtain x where "x \<in> set (group_snapshots 0 (groups_of (qm_pools m) k) (waiters_of (qm_pools m) k))" "gs_Group x = qw_Group w"
      using group_snapshots_groups [OF wf(2) 2(2), of 0] by blast
    then show ?thesis using 2(1) by (force simp: listed_groups_def)
  qed
qed

text \<open>The groups of a snapshot: two rounds of aggregation, the first over the channels only.\<close>

lemma aggregate_collected:
  "aggregateRuntimeQueueGroups xs = SliceStable group_before (map snd (depth_sum.collected xs))"
  "aggregateQueueGroups chs = SliceStable group_before (map snd (depth_sum.collected (concat (map cn_Groups chs))))"
  by (simp_all add: aggregateRuntimeQueueGroups_def aggregateQueueGroups_def sortRuntimeQueueGroupSnapshots_def
      depth_sum.collected_def)

lemma collected_sum_counts:
  assumes "counts f Q"
  shows "(\<Sum>t \<leftarrow> map snd (depth_sum.collected xs). if group_key (gs_Group t) = j then f t else 0) =
    (\<Sum>x \<leftarrow> xs. if group_key (gs_Group x) = j then f x else 0)"
  using assms depth_sum.collected_sum_at [of j xs] high_sum.collected_sum_at [of j xs] normal_sum.collected_sum_at [of j xs]
  by (auto simp: counts_def)

lemma snapshot_groups_sum:
  assumes "counts f Q"
  shows "(\<Sum>t \<leftarrow> sn_Groups (DetailedSnapshot now m). if group_key (gs_Group t) = j then f t else 0) =
    (\<Sum>x \<leftarrow> listed_groups m. if group_key (gs_Group x) = j then f x else 0)"
  unfolding DetailedSnapshot_def Let_def queue_snapshot.simps aggregate_collected sum_SliceStable collected_sum_counts [OF assms]
    map_append sum_list_append listed_groups_def sum_concat
  by (simp add: channel_snapshot_of_def sortRuntimeQueueGroupSnapshots_def sum_SliceStable Let_def case_prod_unfold comp_def)

lemma snapshot_group_keys:
  "(\<lambda>t. group_key (gs_Group t)) ` set (sn_Groups (DetailedSnapshot now m)) = (\<lambda>x. group_key (gs_Group x)) ` set (listed_groups m)"
proof -
  have k: "(\<lambda>t. group_key (gs_Group t)) ` set (map snd (depth_sum.collected xs)) = (\<lambda>x. group_key (gs_Group x)) ` set xs" for xs
  proof -
    have "(\<lambda>t. group_key (gs_Group t)) ` set (map snd (depth_sum.collected xs)) = fst ` set (depth_sum.collected xs)"
      unfolding set_map image_image by (rule image_cong) (use depth_sum.collected_keyed [of xs] in auto)
    then show ?thesis by (simp only: depth_sum.collected_keys)
  qed
  show ?thesis
    unfolding DetailedSnapshot_def Let_def queue_snapshot.simps aggregate_collected set_SliceStable k set_append image_Un
    by (simp add: listed_groups_def channel_snapshot_of_def sortRuntimeQueueGroupSnapshots_def set_SliceStable Let_def
        case_prod_unfold comp_def image_Un image_UN)
qed

lemma snapshot_group_distinct: "distinct (map (\<lambda>t. group_key (gs_Group t)) (sn_Groups (DetailedSnapshot now m)))"
proof -
  have "mset (map f (SliceStable lt xs)) = mset (map f xs)" for f :: "'a \<Rightarrow> 'b" and lt xs
    by (simp add: mset_SliceStable)
  then have "distinct (map f (SliceStable lt xs)) = distinct (map f xs)" for f :: "'a \<Rightarrow> 'b" and lt xs
    by (rule mset_eq_imp_distinct_iff)
  note sorted = this
  show ?thesis
    unfolding DetailedSnapshot_def Let_def queue_snapshot.simps aggregate_collected(1) sorted
    by (rule depth_sum.collected_distinct)
qed

lemma sum_distinct_at:
  assumes "distinct (map key xs)" and "x \<in> set xs"
  shows "(\<Sum>y \<leftarrow> xs. if key y = key x then f y else 0) = (f x :: int)"
  using assms
proof (induction xs)
  case (Cons y ys)
  have "(\<Sum>z \<leftarrow> ys. if key z = key y then f z else 0) = (\<Sum>z \<leftarrow> ys. 0)" if "key y \<notin> key ` set ys"
    using that by (intro arg_cong [where f = sum_list] map_cong) (simp_all, metis imageI)
  with Cons show ?case by auto
qed simp

lemma snapshot_group_counts:
  assumes "manager_wf m" and "counts f Q" and "x \<in> set (sn_Groups (DetailedSnapshot now m))"
  shows "f x = int (length (filter (\<lambda>w. group_key (qw_Group w) = group_key (gs_Group x) \<and> Q w) (shown_waiters m)))"
  using sum_distinct_at [OF snapshot_group_distinct assms(3), of f]
  by (simp add: snapshot_groups_sum [OF assms(2)] listed_sum [OF assms(1,2)])

text \<open>The totals.\<close>

lemma channel_snapshot_depths:
  assumes "manager_wf m" and "p \<in> set (channel_entries m)"
  shows "cn_HighPriorityDepth (channel_snapshot_of m p) = high_count (waiters_of (qm_channels m) (fst p))"
    and "cn_NormalDepth (channel_snapshot_of m p) = normal_count (waiters_of (qm_channels m) (fst p))"
proof -
  obtain c d where p: "p = (c, d)" by (cases p)
  have "d = int (length (waiters_of (qm_channels m) c))" "0 < d"
    using assms depth_entry [of "qm_channels m" c d] by (auto simp: p channel_entries_def manager_wf_def)
  then show "cn_HighPriorityDepth (channel_snapshot_of m p) = high_count (waiters_of (qm_channels m) (fst p))"
    and "cn_NormalDepth (channel_snapshot_of m p) = normal_count (waiters_of (qm_channels m) (fst p))"
    by (auto simp: p channel_snapshot_of_def Let_def)
qed

lemma snapshot_totals:
  fixes now :: int
  assumes "manager_wf m"
  defines "s \<equiv> sn_Summary (DetailedSnapshot now m)"
  shows "sm_TotalDepth s = int (length (shown_waiters m))"
    and "sm_HighPriorityDepth s = high_count (shown_waiters m)"
    and "sm_NormalDepth s = normal_count (shown_waiters m)"
proof -
  show "sm_TotalDepth s = int (length (shown_waiters m))"
    unfolding s_def DetailedSnapshot_def Let_def queue_snapshot.simps queue_summary.simps entry_depths [OF assms(1)]
      shown_waiters_def length_append of_nat_add length_concat_sum by simp
  have c: "(\<Sum>ch \<leftarrow> map (channel_snapshot_of m) (channel_entries m). cn_HighPriorityDepth ch) = (\<Sum>ws \<leftarrow> channel_lines m. high_count ws)"
    "(\<Sum>ch \<leftarrow> map (channel_snapshot_of m) (channel_entries m). cn_NormalDepth ch) = (\<Sum>ws \<leftarrow> channel_lines m. normal_count ws)"
    unfolding channel_lines_def map_map comp_def case_prod_unfold
    by (intro arg_cong [where f = sum_list] map_cong refl channel_snapshot_depths [OF assms(1)]; assumption)+
  show "sm_HighPriorityDepth s = high_count (shown_waiters m)" "sm_NormalDepth s = normal_count (shown_waiters m)"
    unfolding s_def DetailedSnapshot_def Let_def queue_snapshot.simps queue_summary.simps c
      pool_lines_def [symmetric] shown_waiters_def
    unfolding high_count_def normal_count_def filter_split filter_concat_sum by simp_all
qed

lemma snapshot_keys_sum: "(\<Sum>x \<leftarrow> sn_RuntimeKeys (DetailedSnapshot now m). ks_QueueDepth x) = int (length (shown_waiters m))"
  unfolding DetailedSnapshot_def Let_def queue_snapshot.simps sortRuntimeQueueKeySnapshots_def sum_SliceStable
    pool_lines_def [symmetric] shown_waiters_def map_append sum_list_append length_append of_nat_add length_concat_sum sum_concat
  by (simp add: line_keys_sum channel_lines_def case_prod_unfold comp_def)

lemma snapshot_accounts_facts:
  fixes now :: int
  assumes "manager_wf m"
  defines "sn \<equiv> DetailedSnapshot now m" and "ws \<equiv> shown_waiters m"
    and "of_group \<equiv> \<lambda>x w. group_key (qw_Group w) = group_key (gs_Group x)"
  shows "sm_TotalDepth (sn_Summary sn) = int (length ws)"
    and "sm_HighPriorityDepth (sn_Summary sn) = high_count ws"
    and "sm_NormalDepth (sn_Summary sn) = normal_count ws"
    and "0 < c \<Longrightarrow> w \<in> set (waiters_of (qm_channels m) c) \<Longrightarrow> w \<in> set ws"
    and "k \<noteq> [] \<Longrightarrow> w \<in> set (waiters_of (qm_pools m) k) \<Longrightarrow> w \<in> set ws"
    and "distinct (map (\<lambda>x. group_key (gs_Group x)) (sn_Groups sn))"
    and "w \<in> set ws \<Longrightarrow> \<exists>x \<in> set (sn_Groups sn). of_group x w"
    and "x \<in> set (sn_Groups sn) \<Longrightarrow> gs_QueueDepth x = int (length (filter (of_group x) ws))"
    and "x \<in> set (sn_Groups sn) \<Longrightarrow> gs_HighPriorityDepth x = high_count (filter (of_group x) ws)"
    and "x \<in> set (sn_Groups sn) \<Longrightarrow> gs_NormalDepth x = normal_count (filter (of_group x) ws)"
    and "(\<Sum>x \<leftarrow> sn_RuntimeKeys sn. ks_QueueDepth x) = int (length ws)"
proof -
  note counts = snapshot_group_counts [OF assms(1), where now = now, folded sn_def ws_def]
  show "x \<in> set (sn_Groups sn) \<Longrightarrow> gs_QueueDepth x = int (length (filter (of_group x) ws))"
    "x \<in> set (sn_Groups sn) \<Longrightarrow> gs_HighPriorityDepth x = high_count (filter (of_group x) ws)"
    "x \<in> set (sn_Groups sn) \<Longrightarrow> gs_NormalDepth x = normal_count (filter (of_group x) ws)"
    using counts [of gs_QueueDepth "\<lambda>_. True" x] counts [of gs_HighPriorityDepth qw_HighPriority x]
      counts [of gs_NormalDepth "\<lambda>w. \<not> qw_HighPriority w" x]
    by (simp_all add: counts_def of_group_def high_count_def normal_count_def conj_commute)
  show "\<exists>x \<in> set (sn_Groups sn). of_group x w" if "w \<in> set ws"
  proof -
    have "group_key (qw_Group w) \<in> (\<lambda>x. group_key (gs_Group x)) ` set (sn_Groups sn)"
      using listed_cover [OF assms(1) that [unfolded ws_def]] unfolding sn_def snapshot_group_keys by force
    then show ?thesis by (force simp: of_group_def)
  qed
qed (use shown_all [OF assms(1)] snapshot_totals [OF assms(1)] snapshot_keys_sum snapshot_group_distinct in
     \<open>simp_all add: sn_def ws_def\<close>)



end
