(* ===== verification/Sha1.thy ===== *)
theory Sha1
  imports Prelude "HOL-Library.Word"
begin

text \<open>
  \<^verbatim>\<open>crypto/sha1.Sum\<close> and \<^verbatim>\<open>encoding/hex.EncodeToString\<close>, which the sticky router derives its
  fingerprints with: FIPS 180-4 on 32-bit words, a message being a byte list.
\<close>

unbundle bit_operations_syntax

section \<open>Words and bytes\<close>

type_synonym w32 = "32 word"

definition byte_of :: "char \<Rightarrow> w32" where
  "byte_of c = of_char c"

definition rotl :: "nat \<Rightarrow> w32 \<Rightarrow> w32" where
  "rotl n w = (push_bit n w OR drop_bit (32 - n) w)"

definition be32 :: "w32 \<Rightarrow> w32 \<Rightarrow> w32 \<Rightarrow> w32 \<Rightarrow> w32" where
  "be32 a b c d = (push_bit 24 a OR push_bit 16 b OR push_bit 8 c OR d)"

fun words_of :: "w32 list \<Rightarrow> w32 list" where
  "words_of (a # b # c # d # bs) = be32 a b c d # words_of bs"
| "words_of _ = []"

section \<open>Padding\<close>

definition length_bytes :: "nat \<Rightarrow> w32 list" where
  "length_bytes n = map (\<lambda>i. word_of_nat (n div 256 ^ i mod 256)) [7, 6, 5, 4, 3, 2, 1, 0]"

definition padded :: "string \<Rightarrow> w32 list" where
  "padded s =
     map byte_of s @ 0x80 # replicate (nat ((55 - int (length s)) mod 64)) 0 @ length_bytes (8 * length s)"

section \<open>Compression\<close>

text \<open>The message schedule, newest word first.\<close>

fun extend :: "nat \<Rightarrow> w32 list \<Rightarrow> w32 list" where
  "extend 0 ws = ws"
| "extend (Suc n) ws = extend n (rotl 1 (ws ! 2 XOR ws ! 7 XOR ws ! 13 XOR ws ! 15) # ws)"

definition round_mix :: "nat \<Rightarrow> w32 \<Rightarrow> w32 \<Rightarrow> w32 \<Rightarrow> w32 \<times> w32" where
  "round_mix t b c d =
     (if t < 20 then ((b AND c) OR (NOT b AND d), 0x5A827999)
      else if t < 40 then (b XOR c XOR d, 0x6ED9EBA1)
      else if t < 60 then ((b AND c) OR (b AND d) OR (c AND d), 0x8F1BBCDC)
      else (b XOR c XOR d, 0xCA62C1D6))"

fun rounds :: "nat \<Rightarrow> w32 list \<Rightarrow> w32 \<times> w32 \<times> w32 \<times> w32 \<times> w32 \<Rightarrow> w32 \<times> w32 \<times> w32 \<times> w32 \<times> w32" where
  "rounds t [] h = h"
| "rounds t (w # ws) (a, b, c, d, e) =
     (case round_mix t b c d of (f, k) \<Rightarrow> rounds (Suc t) ws (rotl 5 a + f + e + k + w, a, rotl 30 b, c, d))"

definition compress :: "w32 list \<Rightarrow> w32 \<times> w32 \<times> w32 \<times> w32 \<times> w32 \<Rightarrow> w32 \<times> w32 \<times> w32 \<times> w32 \<times> w32" where
  "compress block h =
     (case (h, rounds 0 (rev (extend 64 (rev block))) h) of
        ((a, b, c, d, e), (a', b', c', d', e')) \<Rightarrow> (a + a', b + b', c + c', d + d', e + e'))"

fun digest :: "nat \<Rightarrow> w32 list \<Rightarrow> w32 \<times> w32 \<times> w32 \<times> w32 \<times> w32 \<Rightarrow> w32 \<times> w32 \<times> w32 \<times> w32 \<times> w32" where
  "digest 0 ws h = h"
| "digest (Suc n) ws h = digest n (drop 16 ws) (compress (take 16 ws) h)"

definition sha1_words :: "string \<Rightarrow> w32 list" where
  "sha1_words s =
     (let ws = words_of (padded s) in
      case digest (length ws div 16) ws (0x67452301, 0xEFCDAB89, 0x98BADCFE, 0x10325476, 0xC3D2E1F0) of
        (a, b, c, d, e) \<Rightarrow> [a, b, c, d, e])"

definition hex_digit :: "nat \<Rightarrow> char" where
  "hex_digit n = (if n < 10 then char_of (48 + n) else char_of (87 + n))"

definition hex_word :: "w32 \<Rightarrow> string" where
  "hex_word w = map (\<lambda>i. hex_digit (unat (drop_bit (4 * i) w AND 0xF))) [7, 6, 5, 4, 3, 2, 1, 0]"

definition sha1_hex :: "string \<Rightarrow> string" where
  "sha1_hex s = concat (map hex_word (sha1_words s))"

lemma length_sha1_hex: "length (sha1_hex s) = 40"
  by (simp add: sha1_hex_def sha1_words_def hex_word_def Let_def split: prod.split)

lemma hex_digit_code: "n < 16 \<Longrightarrow> 48 \<le> (of_char (hex_digit n) :: nat) \<and> (of_char (hex_digit n) :: nat) < 128"
  by (simp add: hex_digit_def)

lemma sha1_hex_code:
  assumes "c \<in> set (sha1_hex s)"
  shows "48 \<le> (of_char c :: nat) \<and> (of_char c :: nat) < 128"
proof -
  have "unat (w AND 0xF) < 16" for w :: w32
    using word_and_le1 [of w "0xF"] by (simp add: unat_arith_simps)
  then show ?thesis using assms by (auto simp: sha1_hex_def hex_word_def intro!: hex_digit_code)
qed

end
