(* ===== verification/Sticky_Router.thy ===== *)
theory Sticky_Router
  imports Gateway_Core Sha1
begin

text \<open>
  Session stickiness (\<^verbatim>\<open>scheduler/sticky_router.go\<close>): a request with a session key is routed to the
  channel that served the session before, as long as the entry in the store has not expired. The
  router is modelled on its own in-memory store; the store's map iteration, whose order Go leaves
  open, enters as an index (\<open>turn\<close>) that picks the entry a full store gives up.

  The request context holds what the router reads there. The candidates for the session key
  (\<^verbatim>\<open>X-Codex-Turn-Metadata\<close>, headers, body fields, in the order of \<^verbatim>\<open>core/request.go\<close>) are the list
  \<open>sx_signals\<close> of their sources and raw values, as the header map and the JSON reader return them.
  Every method of the store runs under its mutex; the clock is an argument. Nil receivers and nil
  contexts are no values of the model.
\<close>

section \<open>Data\<close>

record sticky_entry =
  te_ChannelID :: int
  te_Group :: string
  te_KeyFingerprint :: string
  te_ExpiresAt :: time

record sticky_store_entry =
  tl_Key :: string
  tl_KeyID :: string
  tl_ChannelID :: int
  tl_Group :: string
  tl_KeyFingerprint :: string
  tl_ExpiresAt :: time

record sticky_store =
  ts_entries :: "(string, sticky_entry) gomap"
  ts_maxEntries :: int

datatype sticky_failure_policy = StickyFailurePolicyKeep | StickyFailurePolicyClear

record sticky_router_options =
  to_TTLSeconds :: int
  to_StickyKeepScoreRatio :: f64
  to_CacheKeepScoreRatio :: f64
  to_SaveOnSelect :: bool
  to_RenewOnSuccess :: bool
  to_FailurePolicy :: string
  to_MaxEntries :: int

record sticky_router =
  tr_ttl :: int
  tr_stickyKeepScoreRatio :: f64
  tr_cacheKeepScoreRatio :: f64
  tr_saveOnSelect :: bool
  tr_renewOnSuccess :: bool
  tr_failurePolicy :: sticky_failure_policy
  tr_store :: sticky_store

record sticky_context =
  sx_TokenId :: int
  sx_UserId :: int
  sx_TokenKey :: string
  sx_signals :: "(string \<times> string) list"
  sx_use_channel :: "string list"
  sx_routingDisabled :: "bool option"

record group_smart_policy =
  gp_RequestedGroup :: string
  gp_CacheAffinityEnabled :: bool

record cache_affinity_signal =
  ca_Key :: string
  ca_KeyFingerprint :: string
  ca_PreferredChannelID :: int
  ca_PreferredGroup :: string

record sticky_route =
  sk_ChannelID :: int
  sk_Group :: string
  sk_Source :: string
  sk_Key :: string
  sk_KeyFingerprint :: string
  sk_CacheAware :: bool
  sk_KeepScoreRatio :: f64

definition stickySourceUser :: string where "stickySourceUser = ''user_sticky''"
definition stickySourceCacheAffinity :: string where "stickySourceCacheAffinity = ''cache_affinity''"
definition defaultStickyTTLSeconds :: int where "defaultStickyTTLSeconds = 180"
definition defaultStickyKeepScoreRatio :: f64 where "defaultStickyKeepScoreRatio = f64_round (85 / 100)"
definition defaultCacheKeepScoreRatio :: f64 where "defaultCacheKeepScoreRatio = f64_round (75 / 100)"
definition defaultStickyStoreMaxEntries :: int where "defaultStickyStoreMaxEntries = 100000"

section \<open>Keys\<close>

definition affinityFingerprint :: "string \<Rightarrow> string" where
  "affinityFingerprint s =
     (if s = [] then []
      else let encoded = sha1_hex s in if length encoded \<ge> 8 then take 8 encoded else encoded)"

definition normalizeSessionRoutingSignalValue :: "string \<Rightarrow> string" where
  "normalizeSessionRoutingSignalValue v =
     (let v = TrimSpace v in
      if v = [] then []
      else if ToLower v \<in> set [''auto'', ''none'', ''null'', ''undefined'', ''false'', ''true'', ''{}'', ''[]''] then []
      else v)"

definition sessionRoutingFingerprint :: "string \<Rightarrow> string" where
  "sessionRoutingFingerprint v =
     (let encoded = sha1_hex v in if length encoded > 12 then take 12 encoded else encoded)"

definition sessionRoutingKeyPart :: "string \<Rightarrow> string \<Rightarrow> string" where
  "sessionRoutingKeyPart source v =
     (let source = TrimSpace source; v = normalizeSessionRoutingSignalValue v in
      if source = [] \<or> v = [] then [] else ''session:'' @ source @ '':'' @ sessionRoutingFingerprint v)"

fun SessionRoutingSignalFromGin :: "(string \<times> string) list \<Rightarrow> string \<times> string" where
  "SessionRoutingSignalFromGin [] = ([], [])"
| "SessionRoutingSignalFromGin ((source, raw) # signals) =
     (let v = normalizeSessionRoutingSignalValue raw in
      if v \<noteq> [] then (source, v) else SessionRoutingSignalFromGin signals)"

definition SessionRoutingKeyFromGin :: "sticky_context \<Rightarrow> string" where
  "SessionRoutingKeyFromGin c =
     (case SessionRoutingSignalFromGin (sx_signals c) of (source, v) \<Rightarrow>
        if v \<noteq> [] then sessionRoutingKeyPart source v else [])"

definition stickyActor :: "sticky_context \<Rightarrow> string" where
  "stickyActor c =
     (if sx_TokenId c > 0 then ''token:'' @ Itoa (sx_TokenId c)
      else if sx_UserId c > 0 then ''user:'' @ Itoa (sx_UserId c)
      else let tokenKey = TrimSpace (sx_TokenKey c) in
        if tokenKey \<noteq> [] then ''token_key:'' @ affinityFingerprint tokenKey else [])"

definition sticky_group :: "dispatch_request \<Rightarrow> group_smart_policy \<Rightarrow> string" where
  "sticky_group req policy =
     (let grp = (if gp_RequestedGroup policy \<noteq> [] then gp_RequestedGroup policy else dr_RequestedGroup req)
      in if grp = [] then dr_UserGroup req else grp)"

definition userStickyKey :: "sticky_context \<Rightarrow> dispatch_request \<Rightarrow> group_smart_policy \<Rightarrow> string" where
  "userStickyKey c req policy =
     (let actor = stickyActor c in
      if actor = [] \<or> dr_ModelName req = [] then []
      else let endpointType = (if dr_EndpointType req = [] then EndpointTypeOpenAI else dr_EndpointType req);
               sessionKey = SessionRoutingKeyFromGin c
      in if sessionKey = [] then []
      else Join [actor, sticky_group req policy, dr_ModelName req, endpointType, sessionKey] [CHR 0x0A])"

section \<open>The store\<close>

definition NewMemoryStickyStore :: "int \<Rightarrow> sticky_store" where
  "NewMemoryStickyStore maxEntries =
     \<lparr>ts_entries = [], ts_maxEntries = (if maxEntries \<le> 0 then defaultStickyStoreMaxEntries else maxEntries)\<rparr>"

definition expired :: "time \<Rightarrow> sticky_entry \<Rightarrow> bool" where
  "expired now e \<longleftrightarrow> \<not> IsZero (te_ExpiresAt e) \<and> now > te_ExpiresAt e"

definition evictExpiredLocked :: "time \<Rightarrow> sticky_store \<Rightarrow> sticky_store" where
  "evictExpiredLocked now s = s\<lparr>ts_entries := filter (\<lambda>(_, e). \<not> expired now e) (ts_entries s)\<rparr>"

definition sticky_Get :: "time \<Rightarrow> sticky_store \<Rightarrow> string \<Rightarrow> sticky_entry option \<times> sticky_store" where
  "sticky_Get now s key =
     (case map_of (ts_entries s) key of
        None \<Rightarrow> (None, s)
      | Some e \<Rightarrow>
          if expired now e then (None, s\<lparr>ts_entries := gdel key (ts_entries s)\<rparr>)
          else (Some e, s))"

definition store_full :: "sticky_store \<Rightarrow> bool" where
  "store_full s \<longleftrightarrow> int (length (ts_entries s)) \<ge> ts_maxEntries s"

definition evict_one :: "nat \<Rightarrow> sticky_store \<Rightarrow> sticky_store" where
  "evict_one turn s =
     (if ts_entries s = [] then s
      else s\<lparr>ts_entries := gdel (fst (ts_entries s ! (turn mod length (ts_entries s)))) (ts_entries s)\<rparr>)"

definition sticky_Set :: "time \<Rightarrow> nat \<Rightarrow> sticky_store \<Rightarrow> string \<Rightarrow> sticky_entry \<Rightarrow> sticky_store" where
  "sticky_Set now turn s key e =
     (if TrimSpace key = [] then s
      else let s = (if store_full s then evictExpiredLocked now s else s);
               s = (if store_full s then evict_one turn s else s)
           in s\<lparr>ts_entries := gput key e (ts_entries s)\<rparr>)"

definition sticky_Delete :: "sticky_store \<Rightarrow> string \<Rightarrow> sticky_store" where
  "sticky_Delete s key = (if TrimSpace key = [] then s else s\<lparr>ts_entries := gdel key (ts_entries s)\<rparr>)"

fun sticky_DeleteMany :: "sticky_store \<Rightarrow> string list \<Rightarrow> int \<times> sticky_store" where
  "sticky_DeleteMany s [] = (0, s)"
| "sticky_DeleteMany s (key # keys) =
     (let key = TrimSpace key in
      if key = [] \<or> map_of (ts_entries s) key = None then sticky_DeleteMany s keys
      else case sticky_DeleteMany (s\<lparr>ts_entries := gdel key (ts_entries s)\<rparr>) keys of (n, s) \<Rightarrow> (n + 1, s))"

definition buildStickyStoreEntry :: "string \<Rightarrow> sticky_entry \<Rightarrow> sticky_store_entry" where
  "buildStickyStoreEntry key e =
     \<lparr>tl_Key = key, tl_KeyID = affinityFingerprint key, tl_ChannelID = te_ChannelID e, tl_Group = te_Group e,
      tl_KeyFingerprint = te_KeyFingerprint e, tl_ExpiresAt = te_ExpiresAt e\<rparr>"

definition sticky_before :: "sticky_store_entry \<Rightarrow> sticky_store_entry \<Rightarrow> bool" where
  "sticky_before left right =
     (if tl_ExpiresAt left \<noteq> tl_ExpiresAt right then tl_ExpiresAt left > tl_ExpiresAt right
      else if tl_Group left \<noteq> tl_Group right then go_less (tl_Group left) (tl_Group right)
      else if tl_ChannelID left \<noteq> tl_ChannelID right then tl_ChannelID left < tl_ChannelID right
      else go_less (tl_KeyID left) (tl_KeyID right))"

definition sortStickyStoreEntries :: "sticky_store_entry list \<Rightarrow> sticky_store_entry list" where
  "sortStickyStoreEntries entries = SliceStable sticky_before entries"

definition sticky_List :: "time \<Rightarrow> sticky_store \<Rightarrow> sticky_store_entry list \<times> sticky_store" where
  "sticky_List now s =
     (let s = evictExpiredLocked now s
      in (sortStickyStoreEntries (map (\<lambda>(k, e). buildStickyStoreEntry k e) (ts_entries s)), s))"

section \<open>The router\<close>

definition normalizeStickyFailurePolicy :: "string \<Rightarrow> sticky_failure_policy" where
  "normalizeStickyFailurePolicy policy =
     (if ToLower (TrimSpace policy) = ''keep'' then StickyFailurePolicyKeep else StickyFailurePolicyClear)"

definition NewMemoryStickyRouter :: "sticky_router_options \<Rightarrow> sticky_router" where
  "NewMemoryStickyRouter options =
     (let ttlSeconds = (if to_TTLSeconds options \<le> 0 then defaultStickyTTLSeconds else to_TTLSeconds options)
      in \<lparr>tr_ttl = i64 (ttlSeconds * 1000000000),
          tr_stickyKeepScoreRatio = (if to_StickyKeepScoreRatio options \<le> 0 then defaultStickyKeepScoreRatio
                                     else to_StickyKeepScoreRatio options),
          tr_cacheKeepScoreRatio = (if to_CacheKeepScoreRatio options \<le> 0 then defaultCacheKeepScoreRatio
                                    else to_CacheKeepScoreRatio options),
          tr_saveOnSelect = to_SaveOnSelect options, tr_renewOnSuccess = to_RenewOnSuccess options,
          tr_failurePolicy = normalizeStickyFailurePolicy (to_FailurePolicy options),
          tr_store = NewMemoryStickyStore
            (if to_MaxEntries options \<le> 0 then defaultStickyStoreMaxEntries else to_MaxEntries options)\<rparr>)"

definition StickyRoutingDisabled :: "sticky_context \<Rightarrow> bool" where
  "StickyRoutingDisabled c = (case sx_routingDisabled c of None \<Rightarrow> False | Some b \<Rightarrow> b)"

definition WithStickyRoutingDisabled ::
  "sticky_context \<Rightarrow> (sticky_context \<times> 's \<Rightarrow> sticky_context \<times> 's) \<Rightarrow> 's \<Rightarrow> sticky_context \<times> 's" where
  "WithStickyRoutingDisabled c fn s =
     (case fn (c\<lparr>sx_routingDisabled := Some True\<rparr>, s) of (c', s) \<Rightarrow>
        (c'\<lparr>sx_routingDisabled := sx_routingDisabled c\<rparr>, s))"

definition user_route :: "sticky_router \<Rightarrow> string \<Rightarrow> sticky_entry \<Rightarrow> sticky_route" where
  "user_route r key e =
     \<lparr>sk_ChannelID = te_ChannelID e, sk_Group = te_Group e, sk_Source = stickySourceUser, sk_Key = key,
      sk_KeyFingerprint = te_KeyFingerprint e, sk_CacheAware = False, sk_KeepScoreRatio = tr_stickyKeepScoreRatio r\<rparr>"

definition cache_route :: "sticky_router \<Rightarrow> cache_affinity_signal \<Rightarrow> sticky_route" where
  "cache_route r signal =
     \<lparr>sk_ChannelID = ca_PreferredChannelID signal, sk_Group = ca_PreferredGroup signal,
      sk_Source = stickySourceCacheAffinity, sk_Key = ca_Key signal, sk_KeyFingerprint = ca_KeyFingerprint signal,
      sk_CacheAware = True, sk_KeepScoreRatio = tr_cacheKeepScoreRatio r\<rparr>"

text \<open>
  The cache adapter of the router is an argument: its \<^verbatim>\<open>Extract\<close> on the context, the request and
  the policy at hand, or \<open>None\<close> when there is no adapter or no signal.
\<close>

definition Route ::
  "time \<Rightarrow> sticky_router \<Rightarrow> sticky_context \<Rightarrow> dispatch_request \<Rightarrow> group_smart_policy \<Rightarrow> cache_affinity_signal option
   \<Rightarrow> sticky_route option \<times> sticky_router" where
  "Route now r c req policy extracted =
     (if StickyRoutingDisabled c then (None, r)
      else case (if gp_CacheAffinityEnabled policy then extracted else None) of
        Some signal \<Rightarrow>
          if ca_PreferredChannelID signal > 0 then (Some (cache_route r signal), r)
          else let key = userStickyKey c req policy in
            if key = [] then (None, r)
            else (case sticky_Get now (tr_store r) key of (e, s) \<Rightarrow>
                    (map_option (user_route r key) e, r\<lparr>tr_store := s\<rparr>))
      | None \<Rightarrow>
          let key = userStickyKey c req policy in
            if key = [] then (None, r)
            else (case sticky_Get now (tr_store r) key of (e, s) \<Rightarrow>
                    (map_option (user_route r key) e, r\<lparr>tr_store := s\<rparr>)))"

definition shouldSkipStickySaveForRetryAttempt ::
  "sticky_context \<Rightarrow> dispatch_request \<Rightarrow> dispatch_plan \<Rightarrow> attempt_result option \<Rightarrow> bool" where
  "shouldSkipStickySaveForRetryAttempt c req plan result =
     (if dr_Retry req > 0 then True
      else if Active (dr_RetryRoutingIntent req) then True
      else if dp_RetryIntentApplied plan then True
      else if Active (dp_RetryRoutingIntent plan) then True
      else case result of
        Some res \<Rightarrow>
          if ar_AttemptIndex res > 0 then True
          else if length (ar_UsedChannels res) > 1 then True
          else length (sx_use_channel c) > 1
      | None \<Rightarrow> length (sx_use_channel c) > 0)"

definition no_policy :: group_smart_policy where
  "no_policy = \<lparr>gp_RequestedGroup = [], gp_CacheAffinityEnabled = False\<rparr>"

definition save ::
  "time \<Rightarrow> nat \<Rightarrow> sticky_router \<Rightarrow> sticky_context \<Rightarrow> dispatch_request \<Rightarrow> dispatch_plan \<Rightarrow> bool \<Rightarrow> sticky_router" where
  "save now turn r c req plan guardRetryAttempt =
     (case dp_Channel plan of
        None \<Rightarrow> r
      | Some channelID \<Rightarrow>
          if channelID \<le> 0 then r
          else if StickyRoutingDisabled c then r
          else if guardRetryAttempt \<and> shouldSkipStickySaveForRetryAttempt c req plan None then r
          else let key = userStickyKey c req no_policy in
            if key = [] then r
            else r\<lparr>tr_store := sticky_Set now turn (tr_store r) key
              \<lparr>te_ChannelID = channelID, te_Group = dp_SelectedGroup plan, te_KeyFingerprint = affinityFingerprint key,
               te_ExpiresAt = now + tr_ttl r\<rparr>\<rparr>)"

definition Save :: "time \<Rightarrow> nat \<Rightarrow> sticky_router \<Rightarrow> sticky_context \<Rightarrow> dispatch_request \<Rightarrow> dispatch_plan \<Rightarrow> sticky_router" where
  "Save now turn r c req plan = save now turn r c req plan True"

definition Clear :: "sticky_router \<Rightarrow> sticky_context \<Rightarrow> dispatch_request \<Rightarrow> group_smart_policy \<Rightarrow> sticky_router" where
  "Clear r c req policy =
     (if StickyRoutingDisabled c then r
      else let key = userStickyKey c req policy in
        if key = [] then r else r\<lparr>tr_store := sticky_Delete (tr_store r) key\<rparr>)"

definition sticky_Report ::
  "time \<Rightarrow> nat \<Rightarrow> sticky_router \<Rightarrow> sticky_context \<Rightarrow> dispatch_request \<Rightarrow> dispatch_plan \<Rightarrow> attempt_result \<Rightarrow> sticky_router" where
  "sticky_Report now turn r c req plan result =
     (if dp_Channel plan = None \<or> dp_StickySource plan = [] then r
      else if StickyRoutingDisabled c then r
      else if dp_CacheAffinity plan \<or> dp_StickySource plan = stickySourceCacheAffinity then r
      else if ar_Success result then
        (if tr_renewOnSuccess r \<and> \<not> shouldSkipStickySaveForRetryAttempt c req plan (Some result)
         then save now turn r c req plan False else r)
      else if tr_failurePolicy r = StickyFailurePolicyClear
      then Clear r c req (no_policy\<lparr>gp_RequestedGroup := dr_RequestedGroup req\<rparr>)
      else r)"

definition StickyEntries :: "time \<Rightarrow> sticky_router \<Rightarrow> sticky_store_entry list \<times> sticky_router" where
  "StickyEntries now r = (case sticky_List now (tr_store r) of (es, s) \<Rightarrow> (es, r\<lparr>tr_store := s\<rparr>))"

definition ClearStickyEntryByID :: "time \<Rightarrow> sticky_router \<Rightarrow> string \<Rightarrow> bool \<times> sticky_router" where
  "ClearStickyEntryByID now r keyID =
     (let keyID = TrimSpace keyID in
      if keyID = [] then (False, r)
      else case StickyEntries now r of (es, r) \<Rightarrow>
        (case find (\<lambda>e. tl_KeyID e = keyID) es of
           None \<Rightarrow> (False, r)
         | Some e \<Rightarrow> (True, r\<lparr>tr_store := sticky_Delete (tr_store r) (tl_Key e)\<rparr>)))"

record sticky_clear_filter =
  tf_Group :: string
  tf_ChannelID :: int
  tf_KeyID :: string

definition stickyEntryMatchesClearFilter :: "sticky_store_entry \<Rightarrow> sticky_clear_filter \<Rightarrow> bool" where
  "stickyEntryMatchesClearFilter e f =
     (if TrimSpace (tf_Group f) \<noteq> [] \<and> tl_Group e \<noteq> TrimSpace (tf_Group f) then False
      else if tf_ChannelID f > 0 \<and> tl_ChannelID e \<noteq> tf_ChannelID f then False
      else if TrimSpace (tf_KeyID f) \<noteq> [] \<and> tl_KeyID e \<noteq> TrimSpace (tf_KeyID f) then False
      else True)"

definition ClearStickyEntries :: "time \<Rightarrow> sticky_router \<Rightarrow> sticky_clear_filter \<Rightarrow> int \<times> sticky_router" where
  "ClearStickyEntries now r f =
     (case StickyEntries now r of (es, r) \<Rightarrow>
      let keys = map tl_Key (filter (\<lambda>e. stickyEntryMatchesClearFilter e f) es) in
      if keys = [] then (0, r)
      else case sticky_DeleteMany (tr_store r) keys of (n, s) \<Rightarrow> (n, r\<lparr>tr_store := s\<rparr>))"

text \<open>
  \<^verbatim>\<open>ServiceCacheAffinitySignalAdapter.Extract\<close>; \<open>ResolveChannelAffinitySignal\<close> of the service package is
  an argument, by model and group.
\<close>

definition Extract ::
  "(string \<Rightarrow> string \<Rightarrow> cache_affinity_signal option) \<Rightarrow> dispatch_request \<Rightarrow> group_smart_policy
   \<Rightarrow> cache_affinity_signal option" where
  "Extract ResolveChannelAffinitySignal req policy =
     (if dr_ModelName req = [] then None
      else let grp = (if gp_RequestedGroup policy \<noteq> [] then gp_RequestedGroup policy else dr_RequestedGroup req);
               grp = (if grp = ''auto'' then dr_CurrentAutoGroup req else grp);
               grp = (if grp = [] then dr_UserGroup req else grp)
           in ResolveChannelAffinitySignal (dr_ModelName req) grp)"

end
