(* ===== verification/Sticky_Properties.thy ===== *)
theory Sticky_Properties
  imports Sticky_Router
begin

text \<open>
  What stickiness guarantees: the store keeps its keys distinct and its size bounded whatever is
  called, a saved session is routed to the channel that was saved, and to no other, until it expires,
  is cleared or gives way in a full store, and different sessions have different keys.
\<close>

section \<open>Keys\<close>

lemma stickyActor_hd: "stickyActor c \<noteq> [] \<Longrightarrow> hd (stickyActor c) = CHR ''t'' \<or> hd (stickyActor c) = CHR ''u''"
  by (auto simp: stickyActor_def Let_def split: if_splits)

lemma session_fingerprint_shape:
  "sessionRoutingFingerprint v \<noteq> []" "c \<in> set (sessionRoutingFingerprint v) \<Longrightarrow> 48 \<le> (of_char c :: nat) \<and> (of_char c :: nat) < 128"
  using length_sha1_hex [of v] sha1_hex_code [of c v]
  by (auto simp: sessionRoutingFingerprint_def Let_def dest: in_set_takeD)

lemma session_key_shape:
  assumes "SessionRoutingKeyFromGin c \<noteq> []"
  obtains p v where "SessionRoutingKeyFromGin c = p @ sessionRoutingFingerprint v"
proof -
  have "\<exists>p v. SessionRoutingKeyFromGin c = p @ sessionRoutingFingerprint v"
    using assms by (auto simp: SessionRoutingKeyFromGin_def sessionRoutingKeyPart_def Let_def split: prod.splits if_splits)
      (metis append.assoc append_Cons append_Nil)
  then show thesis using that by blast
qed

lemma userStickyKey_shape:
  assumes "userStickyKey c req policy \<noteq> []"
  shows "userStickyKey c req policy = Join [stickyActor c, sticky_group req policy, dr_ModelName req,
      if dr_EndpointType req = [] then EndpointTypeOpenAI else dr_EndpointType req, SessionRoutingKeyFromGin c] [CHR 0x0A]"
    and "stickyActor c \<noteq> []" and "SessionRoutingKeyFromGin c \<noteq> []" and "dr_ModelName req \<noteq> []"
  using assms by (auto simp: userStickyKey_def Let_def split: if_splits)

lemma userStickyKey_trimmed:
  assumes "userStickyKey c req policy \<noteq> []"
  shows "TrimSpace (userStickyKey c req policy) = userStickyKey c req policy"
proof (rule TrimSpace_visible [OF assms])
  note k = userStickyKey_shape [OF assms]
  obtain p v where s: "SessionRoutingKeyFromGin c = p @ sessionRoutingFingerprint v"
    using session_key_shape [OF k(3)] .
  note f = session_fingerprint_shape(1) [of v] session_fingerprint_shape(2) [of _ v]
  have "hd (userStickyKey c req policy) = hd (stickyActor c)" using k(1,2) by simp
  with stickyActor_hd [OF k(2)]
  show "32 < (of_char (hd (userStickyKey c req policy)) :: nat)" "(of_char (hd (userStickyKey c req policy)) :: nat) < 128"
    by auto
  have "last (userStickyKey c req policy) = last (sessionRoutingFingerprint v)" using k(1) s f(1) by simp
  moreover have "last (sessionRoutingFingerprint v) \<in> set (sessionRoutingFingerprint v)" using f(1) by simp
  ultimately show "32 < (of_char (last (userStickyKey c req policy)) :: nat)"
    "(of_char (last (userStickyKey c req policy)) :: nat) < 128" using f(2) by force+
qed

section \<open>The contract of a store\<close>

text \<open>
  What the router relies on in a \<^verbatim>\<open>StickyStore\<close>: a saved entry is found until it expires, a deleted one is not,
  reading changes no later reading, and an operation on one key can lose the entry of another but not alter it.
\<close>

locale sticky_contract =
  fixes get :: "time \<Rightarrow> 's \<Rightarrow> string \<Rightarrow> sticky_entry option \<times> 's"
    and put :: "time \<Rightarrow> nat \<Rightarrow> 's \<Rightarrow> string \<Rightarrow> sticky_entry \<Rightarrow> 's"
    and remove :: "'s \<Rightarrow> string \<Rightarrow> 's"
    and found :: "'s \<Rightarrow> string \<Rightarrow> sticky_entry option"
    and ok :: "'s \<Rightarrow> bool"
  assumes get_found: "fst (get now s k) = (case found s k of None \<Rightarrow> None | Some e \<Rightarrow> if expired now e then None else Some e)"
    and found_get: "found (snd (get now s k)) j = found s j \<or> found (snd (get now s k)) j = None"
    and found_put: "ok s \<Longrightarrow> TrimSpace k \<noteq> [] \<Longrightarrow> found (put now n s k e) k = Some e"
    and found_put_other: "ok s \<Longrightarrow> j \<noteq> k \<Longrightarrow> found (put now n s k e) j = found s j \<or> found (put now n s k e) j = None"
    and found_remove: "TrimSpace k \<noteq> [] \<Longrightarrow> found (remove s k) = (found s)(k := None)"
    and ok_get: "ok s \<Longrightarrow> ok (snd (get now s k))"
    and ok_put: "ok s \<Longrightarrow> TrimSpace k = k \<Longrightarrow> 0 < te_ChannelID e \<Longrightarrow> ok (put now n s k e)"
    and ok_remove: "ok s \<Longrightarrow> ok (remove s k)"
begin

lemma found_after_put:
  "ok s \<Longrightarrow> TrimSpace k \<noteq> [] \<Longrightarrow> fst (get t (put now n s k e) k) = (if expired t e then None else Some e)"
  by (simp add: get_found found_put)

lemma lost_after_remove: "TrimSpace k \<noteq> [] \<Longrightarrow> fst (get t (remove s k) k) = None"
  by (simp add: get_found found_remove)

lemma other_after_remove: "TrimSpace k \<noteq> [] \<Longrightarrow> j \<noteq> k \<Longrightarrow> fst (get t (remove s k) j) = fst (get t s j)"
  by (simp add: get_found found_remove)

text \<open>Once an entry \<open>e\<close> has been saved, what other keys do can lose it but not change it.\<close>

definition holds_at_most :: "string \<Rightarrow> sticky_entry \<Rightarrow> 's \<Rightarrow> bool" where
  "holds_at_most k e s \<longleftrightarrow> ok s \<and> (found s k = Some e \<or> found s k = None)"

lemma at_most_put_self: "ok s \<Longrightarrow> TrimSpace k = k \<Longrightarrow> k \<noteq> [] \<Longrightarrow> 0 < te_ChannelID e \<Longrightarrow> holds_at_most k e (put now n s k e)"
  by (simp add: holds_at_most_def found_put ok_put)

lemma at_most_get: "holds_at_most k e s \<Longrightarrow> holds_at_most k e (snd (get now s j))"
  using found_get [of now s j k] by (auto simp: holds_at_most_def ok_get)

lemma at_most_put: "holds_at_most k e s \<Longrightarrow> j \<noteq> k \<Longrightarrow> TrimSpace j = j \<Longrightarrow> 0 < te_ChannelID e' \<Longrightarrow>
    holds_at_most k e (put now n s j e')"
  using found_put_other [of s k j now n e'] by (auto simp: holds_at_most_def ok_put)

lemma at_most_remove: "holds_at_most k e s \<Longrightarrow> TrimSpace j \<noteq> [] \<Longrightarrow> holds_at_most k e (remove s j)"
  by (auto simp: holds_at_most_def found_remove ok_remove)

lemma at_most_found:
  "holds_at_most k e s \<Longrightarrow> fst (get t s k) = None \<or> fst (get t s k) = Some e \<and> \<not> expired t e"
  by (auto simp: holds_at_most_def get_found split: if_splits)

end

section \<open>The memory store\<close>

definition store_at :: "sticky_store \<Rightarrow> string \<Rightarrow> sticky_entry option" where
  "store_at s k = map_of (ts_entries s) k"

definition store_ok :: "sticky_store \<Rightarrow> bool" where
  "store_ok s \<longleftrightarrow> gwf (ts_entries s) \<and> 0 < ts_maxEntries s \<and> int (length (ts_entries s)) \<le> ts_maxEntries s
     \<and> (\<forall>(k, e) \<in> set (ts_entries s). k \<noteq> [] \<and> TrimSpace k = k \<and> 0 < te_ChannelID e)"

lemma map_of_filter_values:
  "map_of (filter (\<lambda>(_, v). P v) m) k = Some v \<Longrightarrow> gwf m \<Longrightarrow> map_of m k = Some v"
  by (auto simp: map_of_filter_pairs split: option.splits if_splits)

lemma evict_expired_at:
  "gwf (ts_entries s) \<Longrightarrow> store_at (evictExpiredLocked now s) k = store_at s k \<or> store_at (evictExpiredLocked now s) k = None"
  by (auto simp: store_at_def evictExpiredLocked_def map_of_filter_pairs split: option.split)

lemma evict_one_at: "store_at (evict_one n s) k = store_at s k \<or> store_at (evict_one n s) k = None"
  by (auto simp: store_at_def evict_one_def go_map_simps)

lemma evict_wf:
  "gwf (ts_entries s) \<Longrightarrow> gwf (ts_entries (evictExpiredLocked now s))"
  "gwf (ts_entries s) \<Longrightarrow> gwf (ts_entries (evict_one n s))"
  by (simp_all add: evictExpiredLocked_def evict_one_def)

lemma set_at:
  assumes "gwf (ts_entries s)"
  shows "TrimSpace k \<noteq> [] \<Longrightarrow> store_at (sticky_Set now n s k e) k = Some e"
    and "j \<noteq> k \<Longrightarrow> store_at (sticky_Set now n s k e) j = store_at s j \<or> store_at (sticky_Set now n s k e) j = None"
proof -
  define s1 where "s1 = (if store_full s then evictExpiredLocked now s else s)"
  define s2 where "s2 = (if store_full s1 then evict_one n s1 else s1)"
  have S: "sticky_Set now n s k e = (if TrimSpace k = [] then s else s2\<lparr>ts_entries := gput k e (ts_entries s2)\<rparr>)"
    by (simp add: sticky_Set_def Let_def s1_def s2_def)
  show "TrimSpace k \<noteq> [] \<Longrightarrow> store_at (sticky_Set now n s k e) k = Some e"
    by (simp add: S store_at_def go_map_simps)
  have "store_at s2 j = store_at s1 j \<or> store_at s2 j = None" by (simp add: s2_def evict_one_at)
  moreover have "store_at s1 j = store_at s j \<or> store_at s1 j = None" using evict_expired_at [OF assms] by (simp add: s1_def)
  ultimately show "j \<noteq> k \<Longrightarrow> store_at (sticky_Set now n s k e) j = store_at s j \<or> store_at (sticky_Set now n s k e) j = None"
    by (auto simp: S store_at_def go_map_simps)
qed

lemma length_gput: "length (gput k v m) = (if map_of m k = None then length m + 1 else length m)"
  by (induction m) auto

lemma length_gdel:
  assumes "gwf m" and "map_of m k \<noteq> None"
  shows "length (gdel k m) + 1 = length m"
  using assms
proof (induction m)
  case (Cons p m)
  then show ?case by (cases "fst p = k") (auto simp: gwf_def gdel_not_key map_of_eq_None_iff)
qed simp

lemma length_gdel_le: "length (gdel k m) \<le> length m"
  by (induction m) auto

lemma set_gdel: "set (gdel k m) \<subseteq> set m"
  by (induction m) auto

lemma set_gput: "set (gput k v m) \<subseteq> insert (k, v) (set m)"
  by (induction m) auto

lemma evict_one_room:
  assumes "gwf (ts_entries s)" and "0 < ts_maxEntries s" and "int (length (ts_entries s)) \<le> ts_maxEntries s"
  shows "int (length (ts_entries (evict_one n s))) < ts_maxEntries s"
proof (cases "ts_entries s = []")
  case False
  let ?p = "ts_entries s ! (n mod length (ts_entries s))"
  have "?p \<in> set (ts_entries s)" using False by simp
  then have "map_of (ts_entries s) (fst ?p) = Some (snd ?p)" using assms(1) by (simp add: gwf_mem_iff [symmetric])
  with length_gdel [OF assms(1), of "fst ?p"] False assms(3) show ?thesis by (simp add: evict_one_def)
qed (use assms in \<open>simp add: evict_one_def\<close>)

lemma smaller_store_ok:
  assumes "store_ok s" and "gwf m" and "set m \<subseteq> set (ts_entries s)" and "length m \<le> length (ts_entries s)"
  shows "store_ok (s\<lparr>ts_entries := m\<rparr>)"
  using assms by (auto simp: store_ok_def)

lemma gdel_ok: "store_ok s \<Longrightarrow> store_ok (s\<lparr>ts_entries := gdel k (ts_entries s)\<rparr>)"
  by (rule smaller_store_ok) (auto simp: store_ok_def length_gdel_le dest: set_gdel [THEN subsetD])

lemma evict_ok:
  "store_ok s \<Longrightarrow> store_ok (evictExpiredLocked now s)" "store_ok s \<Longrightarrow> store_ok (evict_one n s)"
proof -
  assume s: "store_ok s"
  then show "store_ok (evictExpiredLocked now s)"
    unfolding evictExpiredLocked_def by (rule smaller_store_ok) (use s in \<open>auto simp: store_ok_def\<close>)
  show "store_ok (evict_one n s)" using s gdel_ok by (simp add: evict_one_def)
qed

lemma get_ok: "store_ok s \<Longrightarrow> store_ok (snd (sticky_Get now s k))"
  by (auto simp: sticky_Get_def gdel_ok split: option.split)

lemma delete_ok: "store_ok s \<Longrightarrow> store_ok (sticky_Delete s k)"
  by (simp add: sticky_Delete_def gdel_ok)

lemma set_ok:
  assumes "store_ok s" and "TrimSpace k = k" and "0 < te_ChannelID e"
  shows "store_ok (sticky_Set now n s k e)"
proof -
  define s1 where "s1 = (if store_full s then evictExpiredLocked now s else s)"
  define s2 where "s2 = (if store_full s1 then evict_one n s1 else s1)"
  have m: "ts_maxEntries s2 = ts_maxEntries s" by (simp add: s1_def s2_def evictExpiredLocked_def evict_one_def)
  have ok1: "store_ok s1" using assms(1) evict_ok(1) by (simp add: s1_def)
  then have ok2: "store_ok s2" using evict_ok(2) by (simp add: s2_def)
  have "int (length (ts_entries s2)) < ts_maxEntries s2"
    using evict_one_room [of s1 n] ok1 by (auto simp: s2_def store_ok_def store_full_def evict_one_def)
  then have "store_ok (s2\<lparr>ts_entries := gput k e (ts_entries s2)\<rparr>)" if "k \<noteq> []"
    using ok2 assms(2,3) set_gput [of k e "ts_entries s2"] that by (auto simp: store_ok_def length_gput)
  then show ?thesis
    using assms(1,2) unfolding sticky_Set_def Let_def s1_def [symmetric] s2_def [symmetric] by simp
qed

interpretation memory: sticky_contract sticky_Get sticky_Set sticky_Delete store_at store_ok
proof unfold_locales
  show "fst (sticky_Get now s k) = (case store_at s k of None \<Rightarrow> None | Some e \<Rightarrow> if expired now e then None else Some e)"
    for now s k by (simp add: sticky_Get_def store_at_def split: option.split)
  show "store_at (snd (sticky_Get now s k)) j = store_at s j \<or> store_at (snd (sticky_Get now s k)) j = None" for now s k j
    by (auto simp: sticky_Get_def store_at_def go_map_simps split: option.split)
  show "store_at (sticky_Delete s k) = (store_at s)(k := None)" if "TrimSpace k \<noteq> []" for s k
    using that by (simp add: sticky_Delete_def store_at_def go_map_simps fun_eq_iff)
qed (simp_all add: set_at store_ok_def [THEN iffD1] get_ok delete_ok set_ok)

section \<open>What the router does to its store\<close>

lemma Route_cases:
  assumes "Route now r c req policy x = (route, r')"
  obtains "r' = r" | k where "r' = r\<lparr>tr_store := snd (sticky_Get now (tr_store r) k)\<rparr>"
  using assms by (auto simp: Route_def Let_def split: if_splits option.splits prod.splits) (metis snd_conv)+

lemma save_cases:
  obtains "save now n r c req plan g = r"
  | ch where "dp_Channel plan = Some ch" "0 < ch" "userStickyKey c req no_policy \<noteq> []"
    "save now n r c req plan g = r\<lparr>tr_store := sticky_Set now n (tr_store r) (userStickyKey c req no_policy)
       \<lparr>te_ChannelID = ch, te_Group = dp_SelectedGroup plan,
        te_KeyFingerprint = affinityFingerprint (userStickyKey c req no_policy), te_ExpiresAt = now + tr_ttl r\<rparr>\<rparr>"
  by (cases "dp_Channel plan") (force simp: save_def Let_def split: if_splits)+

lemma Clear_cases:
  obtains "Clear r c req policy = r"
  | "userStickyKey c req policy \<noteq> []"
    "Clear r c req policy = r\<lparr>tr_store := sticky_Delete (tr_store r) (userStickyKey c req policy)\<rparr>"
  by (cases "StickyRoutingDisabled c \<or> userStickyKey c req policy = []") (auto simp: Clear_def Let_def)

text \<open>The key under which an entry is looked up and cleared is the key under which it is saved.\<close>

lemma same_group_key:
  assumes "gp_RequestedGroup policy = [] \<or> gp_RequestedGroup policy = dr_RequestedGroup req"
  shows "userStickyKey c req policy = userStickyKey c req no_policy"
  using assms by (auto simp: userStickyKey_def sticky_group_def no_policy_def Let_def)

lemma report_cases:
  obtains "sticky_Report now n r c req plan result = r"
  | "sticky_Report now n r c req plan result = save now n r c req plan False"
  | "sticky_Report now n r c req plan result = Clear r c req (no_policy\<lparr>gp_RequestedGroup := dr_RequestedGroup req\<rparr>)"
proof -
  have "sticky_Report now n r c req plan result \<in> {r, save now n r c req plan False,
      Clear r c req (no_policy\<lparr>gp_RequestedGroup := dr_RequestedGroup req\<rparr>)}"
    by (simp add: sticky_Report_def)
  then show thesis using that by blast
qed

lemma delete_many_ok: "store_ok s \<Longrightarrow> store_ok (snd (sticky_DeleteMany s ks))"
  by (induction s ks rule: sticky_DeleteMany.induct) (auto simp: Let_def gdel_ok split: prod.split)

lemma list_ok: "store_ok s \<Longrightarrow> store_ok (snd (sticky_List now s))"
  by (simp add: sticky_List_def Let_def evict_ok)

definition router_ok :: "sticky_router \<Rightarrow> bool" where
  "router_ok r = store_ok (tr_store r)"

lemma router_ok_ops:
  assumes "router_ok r"
  shows "router_ok (snd (Route now r c req policy x))" "router_ok (save now n r c req plan g)"
    "router_ok (Clear r c req policy)" "router_ok (sticky_Report now n r c req plan result)"
    "router_ok (snd (StickyEntries now r))" "router_ok (snd (ClearStickyEntryByID now r i))"
    "router_ok (snd (ClearStickyEntries now r f))"
proof -
  show route: "router_ok (snd (Route now r c req policy x))"
    using assms by (cases rule: Route_cases [OF prod.collapse [symmetric], of now r c req policy x])
      (simp_all add: router_ok_def get_ok)
  show sv: "router_ok (save now n r c req plan g)" for g
    using assms userStickyKey_trimmed by (cases rule: save_cases [of now n r c req plan g]) (auto simp: router_ok_def set_ok)
  show cl: "router_ok (Clear r c req policy)" for policy
    using assms by (cases rule: Clear_cases [of r c req policy]) (auto simp: router_ok_def delete_ok)
  show "router_ok (sticky_Report now n r c req plan result)"
    using assms sv cl by (cases rule: report_cases [of now n r c req plan result]) auto
  show "router_ok (snd (StickyEntries now r))"
    using assms list_ok [of "tr_store r" now]
    by (cases "sticky_List now (tr_store r)") (simp add: router_ok_def StickyEntries_def)
  then show "router_ok (snd (ClearStickyEntryByID now r i))"
    using assms by (auto simp: ClearStickyEntryByID_def Let_def router_ok_def delete_ok split: prod.split option.split)
  show "router_ok (snd (ClearStickyEntries now r f))"
    using assms \<open>router_ok (snd (StickyEntries now r))\<close> delete_many_ok
    by (auto simp: ClearStickyEntries_def Let_def router_ok_def split: prod.split) (metis snd_conv)
qed

lemma new_router_ok: "router_ok (NewMemoryStickyRouter options)"
  by (simp add: router_ok_def store_ok_def NewMemoryStickyRouter_def NewMemoryStickyStore_def Let_def
      defaultStickyStoreMaxEntries_def)

section \<open>Sequences of calls\<close>

inductive router_step :: "sticky_router \<Rightarrow> sticky_router \<Rightarrow> bool" where
  route: "router_step r (snd (Route now r c req policy x))"
| save: "router_step r (Save now n r c req plan)"
| report: "router_step r (sticky_Report now n r c req plan result)"
| clear: "router_step r (Clear r c req policy)"
| list: "router_step r (snd (StickyEntries now r))"
| clear_id: "router_step r (snd (ClearStickyEntryByID now r i))"
| clear_many: "router_step r (snd (ClearStickyEntries now r f))"

lemma router_steps_ok: "router_step\<^sup>*\<^sup>* r r' \<Longrightarrow> router_ok r \<Longrightarrow> router_ok r'"
  by (induction rule: rtranclp_induct) (auto elim!: router_step.cases simp: Save_def intro: router_ok_ops)

text \<open>The calls that do not save, report on or clear the session with the key \<open>k\<close>; it may be looked up.\<close>

inductive other_step :: "string \<Rightarrow> sticky_router \<Rightarrow> sticky_router \<Rightarrow> bool" for k where
  route: "other_step k r (snd (Route now r c req policy x))"
| save: "userStickyKey c req no_policy \<noteq> k \<Longrightarrow> other_step k r (Save now n r c req plan)"
| report: "userStickyKey c req no_policy \<noteq> k \<Longrightarrow> other_step k r (sticky_Report now n r c req plan result)"
| clear: "userStickyKey c req policy \<noteq> k \<Longrightarrow> other_step k r (Clear r c req policy)"

lemma save_other:
  assumes "memory.holds_at_most k e (tr_store r)" and "userStickyKey c req no_policy \<noteq> k"
  shows "memory.holds_at_most k e (tr_store (save now n r c req plan g)) \<and> save now n r c req plan g = r\<lparr>tr_store := tr_store (save now n r c req plan g)\<rparr>"
  using assms userStickyKey_trimmed
  by (cases rule: save_cases [of now n r c req plan g]) (auto intro!: memory.at_most_put)

lemma Clear_other:
  assumes "memory.holds_at_most k e (tr_store r)" and "userStickyKey c req policy \<noteq> k"
  shows "memory.holds_at_most k e (tr_store (Clear r c req policy)) \<and> Clear r c req policy = r\<lparr>tr_store := tr_store (Clear r c req policy)\<rparr>"
  using assms userStickyKey_trimmed
  by (cases rule: Clear_cases [of r c req policy]) (auto intro!: memory.at_most_remove)

lemma other_step_holds:
  assumes "other_step k r r'" and "memory.holds_at_most k e (tr_store r)"
  shows "memory.holds_at_most k e (tr_store r') \<and> r' = r\<lparr>tr_store := tr_store r'\<rparr>"
  using assms
proof (induction rule: other_step.induct)
  case (route r now c req policy x)
  then show ?case
    by (cases rule: Route_cases [OF prod.collapse [symmetric], of now r c req policy x]) (auto intro: memory.at_most_get)
next
  case (report c req r now n plan result)
  then show ?case
    using save_other [of k e r c req] Clear_other [of k e r c req]
      same_group_key [of "no_policy\<lparr>gp_RequestedGroup := dr_RequestedGroup req\<rparr>" req c]
    by (cases rule: report_cases [of now n r c req plan result]) (auto simp: no_policy_def)
qed (use save_other Clear_other in \<open>auto simp: Save_def\<close>)

lemma other_steps_hold:
  "(other_step k)\<^sup>*\<^sup>* r r' \<Longrightarrow> memory.holds_at_most k e (tr_store r) \<Longrightarrow>
   memory.holds_at_most k e (tr_store r') \<and> tr_stickyKeepScoreRatio r' = tr_stickyKeepScoreRatio r"
proof (induction rule: rtranclp_induct)
  case (step a b)
  from other_step_holds [OF step(2), of e] step.IH step.prems show ?case
    by (metis sticky_router.select_convs(2) sticky_router.surjective sticky_router.update_convs(7))
qed simp

lemma Route_user:
  assumes "\<not> StickyRoutingDisabled c" and "\<not> gp_CacheAffinityEnabled policy \<or> x = None" and "userStickyKey c req policy \<noteq> []"
  shows "fst (Route t r c req policy x) =
    map_option (user_route r (userStickyKey c req policy)) (fst (sticky_Get t (tr_store r) (userStickyKey c req policy)))"
  using assms by (auto simp: Route_def Let_def split: prod.split)

section \<open>Examples\<close>

definition example_session :: sticky_context where
  "example_session = \<lparr>sx_TokenId = 5, sx_UserId = 2, sx_TokenKey = [], sx_signals = [(''header.session_id'', ''abc'')],
     sx_use_channel = [], sx_routingDisabled = None\<rparr>"

definition example_dispatch :: dispatch_request where
  "example_dispatch = \<lparr>dr_RequestedGroup = ''vip'', dr_UserGroup = ''default'', dr_ModelName = ''gpt'', dr_EndpointType = [],
     dr_Retry = 0, dr_CurrentAutoGroup = [], dr_RetryRoutingIntent = None\<rparr>"

definition example_plan :: dispatch_plan where
  "example_plan = \<lparr>dp_Channel = Some 7, dp_SelectedGroup = ''vip'', dp_RuntimeKey = zero_runtime_key, dp_QueueWaitMs = 0,
     dp_QueueEnabled = False, dp_StickySource = stickySourceUser, dp_CacheAffinity = False, dp_RetryRoutingIntent = None,
     dp_RetryIntentApplied = False\<rparr>"

definition example_router :: sticky_router where
  "example_router = NewMemoryStickyRouter \<lparr>to_TTLSeconds = 60, to_StickyKeepScoreRatio = 0, to_CacheKeepScoreRatio = 0,
     to_SaveOnSelect = True, to_RenewOnSuccess = True, to_FailurePolicy = [], to_MaxEntries = 2\<rparr>"

lemma example_signal: "normalizeSessionRoutingSignalValue ''abc'' = ''abc''" "TrimSpace ''header.session_id'' = ''header.session_id''"
  by code_simp+

lemma example_key: "userStickyKey example_session example_dispatch no_policy \<noteq> []"
  by (simp add: userStickyKey_def Let_def example_session_def example_dispatch_def stickyActor_def SessionRoutingKeyFromGin_def
      sessionRoutingKeyPart_def example_signal)

lemma example_router_facts: "router_ok example_router" "tr_ttl example_router = 60000000000"
  "\<not> StickyRoutingDisabled example_session"
  "\<not> shouldSkipStickySaveForRetryAttempt example_session example_dispatch example_plan None"
  unfolding example_router_def
  by (rule new_router_ok, simp_all add: StickyRoutingDisabled_def example_session_def example_dispatch_def example_plan_def
      shouldSkipStickySaveForRetryAttempt_def Active_def NewMemoryStickyRouter_def i64_def)

lemma fingerprint_no_break: "CHR 0x0A \<notin> set (sessionRoutingFingerprint v)"
  using session_fingerprint_shape(2) [of "CHR 0x0A" v] by auto

lemma example_no_break:
  "\<forall>part \<in> {stickyActor (example_session\<lparr>sx_TokenId := 12\<rparr>), stickyActor example_session, sticky_group example_dispatch no_policy,
      dr_ModelName example_dispatch, dr_EndpointType example_dispatch, SessionRoutingKeyFromGin example_session}.
    CHR 0x0A \<notin> set part"
proof -
  have "CHR 0x0A \<notin> set (Itoa 5)" "CHR 0x0A \<notin> set (Itoa 12)" by code_simp+
  then show ?thesis
    by (simp add: stickyActor_def sticky_group_def no_policy_def example_session_def example_dispatch_def
        SessionRoutingKeyFromGin_def sessionRoutingKeyPart_def example_signal fingerprint_no_break)
qed

text \<open>Saving a key that is already there evicts another entry when the store is full.\<close>

definition example_full_store :: sticky_store where
  "example_full_store = \<lparr>ts_entries = map (\<lambda>k. (k, \<lparr>te_ChannelID = 7, te_Group = [], te_KeyFingerprint = [], te_ExpiresAt = 50\<rparr>))
     [''a'', ''b''], ts_maxEntries = 2\<rparr>"

lemma renewal_evicts:
  "store_at example_full_store ''b'' \<noteq> None
   \<and> store_at (sticky_Set 0 1 example_full_store ''a'' (snd (hd (ts_entries example_full_store)))) ''b'' = None"
  by code_simp

section \<open>The properties\<close>

text \<open>C29: The store of a sticky router stays well formed under every sequence of its calls: one entry per
  key, keys that are not blank and carry no surrounding space, real channels, and never more entries
  than the configured number.\<close>

theorem sticky_store_typed:
  assumes "router_step\<^sup>*\<^sup>* (NewMemoryStickyRouter options) r"
  shows "distinct (map fst (ts_entries (tr_store r)))
    \<and> int (length (ts_entries (tr_store r))) \<le> ts_maxEntries (tr_store r)
    \<and> (\<forall>(k, e) \<in> set (ts_entries (tr_store r)). k \<noteq> [] \<and> TrimSpace k = k \<and> 0 < te_ChannelID e)"
  using router_steps_ok [OF assms new_router_ok] by (auto simp: router_ok_def store_ok_def gwf_def)

theorem sticky_store_typed_witness:
  "distinct (map fst (ts_entries (tr_store (Save 0 0 example_router example_session example_dispatch example_plan))))"
proof -
  have "router_step\<^sup>*\<^sup>* example_router (Save 0 0 example_router example_session example_dispatch example_plan)"
    by (rule r_into_rtranclp) (rule router_step.save)
  from sticky_store_typed [OF this [unfolded example_router_def]] show ?thesis by (simp add: example_router_def)
qed



text \<open>A report does exactly what its outcome and the router's settings call for: a failed attempt of a
  user-sticky plan clears the session, and no other, exactly when the failure policy says so; a success renews it exactly
  when renewal is on and the attempt was no retry; plans that came from the cache affinity and
  disabled routing leave the store as it is.\<close>

lemma sticky_report_exact:
  assumes "dp_Channel plan = Some ch" and "dp_StickySource plan = stickySourceUser" and "userStickyKey c req no_policy \<noteq> []"
  shows "(dp_CacheAffinity plan \<or> StickyRoutingDisabled c \<longrightarrow> sticky_Report now n r c req plan result = r)
    \<and> (\<not> dp_CacheAffinity plan \<and> \<not> StickyRoutingDisabled c \<longrightarrow>
        (\<not> ar_Success result \<longrightarrow>
          store_at (tr_store (sticky_Report now n r c req plan result)) =
            (if tr_failurePolicy r = StickyFailurePolicyClear
             then (store_at (tr_store r))(userStickyKey c req no_policy := None) else store_at (tr_store r)))
        \<and> (ar_Success result \<and> 0 < ch \<and> tr_renewOnSuccess r \<and> \<not> shouldSkipStickySaveForRetryAttempt c req plan (Some result) \<and>
           router_ok r \<longrightarrow>
          map_option te_ExpiresAt (store_at (tr_store (sticky_Report now n r c req plan result)) (userStickyKey c req no_policy))
            = Some (now + tr_ttl r))
        \<and> (ar_Success result \<and> \<not> (tr_renewOnSuccess r \<and> \<not> shouldSkipStickySaveForRetryAttempt c req plan (Some result)) \<longrightarrow>
          sticky_Report now n r c req plan result = r))"
proof -
  let ?k = "userStickyKey c req no_policy" and ?p = "no_policy\<lparr>gp_RequestedGroup := dr_RequestedGroup req\<rparr>"
  have src: "dp_StickySource plan \<noteq> []" "dp_StickySource plan \<noteq> stickySourceCacheAffinity"
    using assms(2) by (auto simp: stickySourceUser_def stickySourceCacheAffinity_def)
  have key: "userStickyKey c req ?p = ?k" by (rule same_group_key) (simp add: no_policy_def)
  have t: "TrimSpace ?k \<noteq> []" using userStickyKey_trimmed [OF assms(3)] assms(3) by simp
  have clear: "store_at (tr_store (Clear r c req ?p)) = (store_at (tr_store r))(?k := None)" if "\<not> StickyRoutingDisabled c"
    using that assms(3) memory.found_remove [OF t] by (simp add: Clear_def key)
  have renew: "map_option te_ExpiresAt (store_at (tr_store (save now n r c req plan False)) ?k) = Some (now + tr_ttl r)"
    if "\<not> StickyRoutingDisabled c" "0 < ch" "router_ok r"
    using that assms(1,3) memory.found_put [OF _ t] by (simp add: save_def Let_def router_ok_def)
  show ?thesis using assms(1) src clear renew by (simp add: sticky_Report_def)
qed

definition example_failure :: attempt_result where
  "example_failure = \<lparr>ar_Key = zero_runtime_key, ar_Plan = None, ar_AttemptIndex = 0, ar_ChannelID = 7, ar_RequestedGroup = [],
     ar_SelectedGroup = [], ar_ModelName = [], ar_EndpointType = [], ar_Success = False, ar_StatusCode = 500, ar_ErrorCode = [],
     ar_ErrorType = [], ar_ErrorMessage = [], ar_ErrorCategory = [], ar_StreamInterrupted = False, ar_ClientAborted = False,
     ar_ConcurrencyLimited = False, ar_BalanceInsufficient = False, ar_UsedChannels = []\<rparr>"

lemma sticky_report_exact_witness:
  "store_at (tr_store (sticky_Report 9 0 example_router example_session example_dispatch example_plan example_failure))
     (userStickyKey example_session example_dispatch no_policy) = None"
proof -
  have "dp_Channel example_plan = Some 7" "dp_StickySource example_plan = stickySourceUser" "\<not> dp_CacheAffinity example_plan"
    "\<not> ar_Success example_failure" by (simp_all add: example_plan_def example_failure_def)
  moreover have "tr_failurePolicy example_router = StickyFailurePolicyClear"
    by (simp add: example_router_def NewMemoryStickyRouter_def Let_def) code_simp
  ultimately show ?thesis
    using sticky_report_exact [of example_plan 7 example_session example_dispatch 9 0 example_router example_failure]
      example_key example_router_facts(3) by simp
qed

text \<open>Sessions do not mix: when no part of the keys contains a line break, two requests have the same sticky key
  only if they have the same actor (token or user), group, model, endpoint and session.\<close>

lemma sticky_keys_separate:
  assumes "userStickyKey c req p = userStickyKey c' req' p'" and "userStickyKey c req p \<noteq> []"
    and "\<forall>part \<in> {stickyActor c, sticky_group req p, dr_ModelName req, dr_EndpointType req, SessionRoutingKeyFromGin c}.
      CHR 0x0A \<notin> set part"
    and "\<forall>part \<in> {stickyActor c', sticky_group req' p', dr_ModelName req', dr_EndpointType req', SessionRoutingKeyFromGin c'}.
      CHR 0x0A \<notin> set part"
  shows "stickyActor c = stickyActor c' \<and> sticky_group req p = sticky_group req' p' \<and> dr_ModelName req = dr_ModelName req'
    \<and> (dr_EndpointType req \<noteq> [] \<and> dr_EndpointType req' \<noteq> [] \<longrightarrow> dr_EndpointType req = dr_EndpointType req')
    \<and> SessionRoutingKeyFromGin c = SessionRoutingKeyFromGin c'
    \<and> (0 < sx_TokenId c \<and> 0 < sx_TokenId c' \<longrightarrow> sx_TokenId c = sx_TokenId c')"
proof -
  have e: "CHR 0x0A \<notin> set EndpointTypeOpenAI" by code_simp
  note k = userStickyKey_shape [OF assms(2)] userStickyKey_shape [of c' req' p']
  let ?parts = "\<lambda>c req p. [stickyActor c, sticky_group req p, dr_ModelName req,
      if dr_EndpointType req = [] then EndpointTypeOpenAI else dr_EndpointType req, SessionRoutingKeyFromGin c]"
  have "?parts c req p = ?parts c' req' p'"
    by (rule Join_inj [where c = "CHR 0x0A"]) (use assms e k in auto)
  moreover from this have "stickyActor c = stickyActor c'" by simp
  then have "0 < sx_TokenId c \<and> 0 < sx_TokenId c' \<longrightarrow> sx_TokenId c = sx_TokenId c'"
    by (auto simp: stickyActor_def Itoa_inj)
  ultimately show ?thesis by auto
qed

lemma sticky_keys_separate_witness:
  "userStickyKey (example_session\<lparr>sx_TokenId := 12\<rparr>) example_dispatch no_policy
     \<noteq> userStickyKey example_session example_dispatch no_policy"
proof
  assume eq: "userStickyKey (example_session\<lparr>sx_TokenId := 12\<rparr>) example_dispatch no_policy
     = userStickyKey example_session example_dispatch no_policy"
  have "SessionRoutingKeyFromGin (example_session\<lparr>sx_TokenId := 12\<rparr>) = SessionRoutingKeyFromGin example_session"
    by (simp add: SessionRoutingKeyFromGin_def)
  with sticky_keys_separate [OF eq] example_key eq example_no_break
  show False by (simp add: example_session_def)
qed

end
