(* ===== verification/Subscription_Calendar.thy ===== *)
theory Subscription_Calendar
  imports Prelude
begin

text \<open>
  The dates of a subscription (\<^verbatim>\<open>model/subscription.go\<close>): when a plan ends and when its quota is
  reset next. Instants are Unix seconds, as in the columns of the tables. The local time zone of
  \<^verbatim>\<open>time.Unix\<close> is a fixed offset from UTC, given in seconds (\<open>off\<close>); zones whose offset changes
  over the year are not modelled. \<^verbatim>\<open>time.Date\<close> and \<^verbatim>\<open>AddDate\<close> work on the proleptic Gregorian
  calendar, written out here: days are counted from 1 January of year 0.
\<close>

section \<open>The Gregorian calendar\<close>

text \<open>The number of days from 1 January of year 0 to 1 January of year \<open>y\<close>.\<close>

definition year_start :: "int \<Rightarrow> int" where
  "year_start y = 365 * y + (y + 3) div 4 - (y + 99) div 100 + (y + 399) div 400"

definition is_leap :: "int \<Rightarrow> bool" where
  "is_leap y \<longleftrightarrow> 4 dvd y \<and> (\<not> 100 dvd y \<or> 400 dvd y)"

lemma div_ceiling:
  assumes "0 < (k :: int)"
  shows "(y + (k - 1)) div k = y div k + (if k dvd y then 0 else 1)"
proof -
  define q r where "q = y div k" and "r = y mod k"
  have y: "y = k * q + r" and r: "0 \<le> r" "r < k" using assms by (simp_all add: q_def r_def)
  have "y + (k - 1) = (r + (k - 1)) + k * q" by (simp add: y)
  then have "(y + (k - 1)) div k = q + (r + (k - 1)) div k" using assms by (simp only: div_mult_self2)
  moreover have "(r + (k - 1)) div k = (if r = 0 then 0 else 1)"
  proof (cases "r = 0")
    case False
    then have "(r + (k - 1)) div k = 1" using r by (intro int_div_pos_eq [of _ _ _ "r - 1"]) auto
    with False show ?thesis by simp
  qed (use assms in simp)
  ultimately show ?thesis by (simp add: q_def r_def dvd_eq_mod_eq_0)
qed

lemma year_length_leap: "year_start (y + 1) - year_start y = (if is_leap y then 366 else 365)"
proof -
  define a b c where "a = y div 4" and "b = y div 100" and "c = y div 400"
  define p4 p100 p400 where "p4 \<longleftrightarrow> 4 dvd y" and "p100 \<longleftrightarrow> 100 dvd y" and "p400 \<longleftrightarrow> 400 dvd y"
  have d: "p100 \<longrightarrow> p4" "p400 \<longrightarrow> p100"
    unfolding p4_def p100_def p400_def by (auto intro: dvd_trans [of 4 100] dvd_trans [of 100 400])
  have e1: "year_start (y + 1) = 365 * (y + 1) + (a + 1) - (b + 1) + (c + 1)"
    using div_add_self1 [of 4 y] div_add_self1 [of 100 y] div_add_self1 [of 400 y]
    by (simp add: year_start_def a_def b_def c_def add.commute)
  have e2: "year_start y = 365 * y + (a + (if p4 then 0 else 1)) - (b + (if p100 then 0 else 1))
      + (c + (if p400 then 0 else 1))"
    using div_ceiling [of 4 y] div_ceiling [of 100 y] div_ceiling [of 400 y]
    by (simp only: year_start_def a_def b_def c_def p4_def p100_def p400_def) simp
  have l: "is_leap y \<longleftrightarrow> p4 \<and> (\<not> p100 \<or> p400)" by (simp add: is_leap_def p4_def p100_def p400_def)
  show ?thesis
    unfolding e1 e2 l using d by (cases p4; cases p100; cases p400; simp)
qed

lemma year_length: "year_start y + 365 \<le> year_start (y + 1)" "year_start (y + 1) \<le> year_start y + 366"
  using year_length_leap [of y] by (simp_all split: if_splits)

text \<open>The year that holds a day, searched from a first guess.\<close>

function year_search :: "int \<Rightarrow> int \<Rightarrow> int" where
  "year_search y d =
     (if d < year_start y then year_search (y - 1) d
      else if year_start (y + 1) \<le> d then year_search (y + 1) d else y)"
  by pat_completeness auto
termination
proof (relation "measure (\<lambda>(y, d). nat (if d < year_start y then year_start y - d + 1000 else d - year_start y))",
    goal_cases)
  case (2 y d)
  then show ?case using year_length [of "y - 1"] by simp
next
  case (3 y d)
  then show ?case using year_length [of y] by simp
qed simp

declare year_search.simps [simp del]

lemma year_search: "year_start (year_search y d) \<le> d \<and> d < year_start (year_search y d + 1)"
proof (induction y d rule: year_search.induct)
  case (1 y d)
  show ?case by (subst (1 2) year_search.simps) (use 1 in auto)
qed

text \<open>
  Months are numbered from January of year 0; \<open>month_first t\<close> is the first day of month \<open>t\<close>.
\<close>

definition month_offset :: "int \<Rightarrow> int" where
  "month_offset m = [0, 31, 59, 90, 120, 151, 181, 212, 243, 273, 304, 334] ! nat m"

definition month_first :: "int \<Rightarrow> int" where
  "month_first t =
     year_start (t div 12) + month_offset (t mod 12) + (if is_leap (t div 12) \<and> t mod 12 \<ge> 2 then 1 else 0)"

fun month_search :: "int \<Rightarrow> int \<Rightarrow> nat \<Rightarrow> int" where
  "month_search y d 0 = 12 * y"
| "month_search y d (Suc m) = (if month_first (12 * y + int (Suc m)) \<le> d then 12 * y + int (Suc m) else month_search y d m)"

definition month_of :: "int \<Rightarrow> int" where
  "month_of d = (let y = year_search (d div 366) d in month_search y d 11)"

lemma below_12: "0 \<le> (x :: int) \<Longrightarrow> x < 12 \<Longrightarrow>
    x = 0 \<or> x = 1 \<or> x = 2 \<or> x = 3 \<or> x = 4 \<or> x = 5 \<or> x = 6 \<or> x = 7 \<or> x = 8 \<or> x = 9 \<or> x = 10 \<or> x = 11"
  by presburger

lemma month_succ:
  "(t + 1) div 12 = (if t mod 12 = 11 then t div 12 + 1 else t div 12)"
  "(t + 1) mod 12 = (if t mod 12 = 11 then 0 else t mod 12 + (1 :: int))"
proof -
  define q r where "q = t div 12" and "r = t mod 12"
  have t: "t + 1 = (r + 1) + 12 * q" and r: "0 \<le> r" "r < 12" by (simp_all add: q_def r_def)
  have "(t + 1) div 12 = q + (r + 1) div 12" "(t + 1) mod 12 = (r + 1) mod 12"
    unfolding t by simp_all
  moreover have "(r + 1) div 12 = (if r = 11 then 1 else 0) \<and> (r + 1) mod 12 = (if r = 11 then 0 else r + 1)"
  proof (cases "r = 11")
    case False
    then have "r + 1 < 12" using r(2) by linarith
    with r(1) False show ?thesis by (simp add: div_pos_pos_trivial mod_pos_pos_trivial)
  qed simp
  ultimately show "(t + 1) div 12 = (if t mod 12 = 11 then t div 12 + 1 else t div 12)"
    "(t + 1) mod 12 = (if t mod 12 = 11 then 0 else t mod 12 + 1)"
    by (simp_all add: q_def r_def)
qed

lemma month_length: "month_first t + 28 \<le> month_first (t + 1)"
proof -
  define q r where "q = t div 12" and "r = t mod 12"
  have "r = 0 \<or> r = 1 \<or> r = 2 \<or> r = 3 \<or> r = 4 \<or> r = 5 \<or> r = 6 \<or> r = 7 \<or> r = 8 \<or> r = 9 \<or> r = 10 \<or> r = 11"
    by (rule below_12) (simp_all add: r_def)
  then show ?thesis
    using year_length_leap [of q]
    unfolding month_first_def month_succ q_def [symmetric] r_def [symmetric]
    by (elim disjE) (simp_all add: month_offset_def split: if_splits)
qed

lemma month_search_bounds:
  assumes "month_first (12 * y) \<le> d" and "d < month_first (12 * y + int n + 1)"
  shows "month_first (month_search y d n) \<le> d \<and> d < month_first (month_search y d n + 1)"
  using assms
proof (induction n)
  case (Suc n)
  then show ?case by (auto simp: algebra_simps)
qed simp

lemma month_of: "month_first (month_of d) \<le> d" "d < month_first (month_of d + 1)"
proof -
  define y where "y = year_search (d div 366) d"
  have "(12 * y + 12) div 12 = y + 1" by simp
  then have first: "month_first (12 * y + 12) = year_start (y + 1)" by (simp add: month_first_def month_offset_def)
  have "12 * y + int 11 + 1 = 12 * y + 12" by simp
  then have "d < month_first (12 * y + int 11 + 1)"
    using year_search [of "d div 366" d] by (simp only: first y_def [symmetric])
  moreover have "month_first (12 * y) \<le> d"
    using year_search [of "d div 366" d] by (simp add: y_def [symmetric] month_first_def month_offset_def)
  ultimately have "month_first (12 * y) \<le> d" "d < month_first (12 * y + int 11 + 1)" by auto
  from month_search_bounds [OF this]
  show "month_first (month_of d) \<le> d" "d < month_first (month_of d + 1)"
    by (simp_all add: month_of_def y_def Let_def)
qed

definition add_date :: "int \<Rightarrow> int \<Rightarrow> int \<Rightarrow> int \<Rightarrow> int" where
  "add_date d years months days =
     (let t = month_of d in month_first (t + 12 * years + months) + (d - month_first t) + days)"

definition weekday :: "int \<Rightarrow> int" where
  "weekday d = (d + 6) mod 7"

definition epoch_day :: int where
  "epoch_day = 719528"

definition local_day :: "int \<Rightarrow> int \<Rightarrow> int" where
  "local_day off unix = (unix + off) div 86400 + epoch_day"

definition midnight :: "int \<Rightarrow> int \<Rightarrow> int" where
  "midnight off d = (d - epoch_day) * 86400 - off"

section \<open>Plans\<close>

record subscription_plan =
  pl_DurationUnit :: string
  pl_DurationValue :: int
  pl_CustomSeconds :: int
  pl_TotalAmount :: int
  pl_UpgradeGroup :: string
  pl_QuotaResetPeriod :: string
  pl_QuotaResetCustomSeconds :: int

definition NormalizeResetPeriod :: "string \<Rightarrow> string" where
  "NormalizeResetPeriod period =
     (if TrimSpace period \<in> set [''daily'', ''weekly'', ''monthly'', ''custom''] then TrimSpace period else ''never'')"

text \<open>\<open>start.Add(time.Duration(n) * unit)\<close> on a time with whole seconds; the product wraps at 64 bits.\<close>

definition add_duration :: "int \<Rightarrow> int \<Rightarrow> int" where
  "add_duration unix ns = unix + ns div Second"

datatype plan_error = DurationNotPositive | CustomSecondsNotPositive | InvalidDurationUnit

definition calcPlanEndTime :: "int \<Rightarrow> int \<Rightarrow> subscription_plan \<Rightarrow> plan_error + int" where
  "calcPlanEndTime off start plan =
     (if pl_DurationValue plan \<le> 0 \<and> pl_DurationUnit plan \<noteq> ''custom'' then Inl DurationNotPositive
      else let d = local_day off start; sec = (start + off) mod 86400 in
      if pl_DurationUnit plan = ''year''
        then Inr (midnight off (add_date d (pl_DurationValue plan) 0 0) + sec)
      else if pl_DurationUnit plan = ''month''
        then Inr (midnight off (add_date d 0 (pl_DurationValue plan) 0) + sec)
      else if pl_DurationUnit plan = ''day''
        then Inr (add_duration start (i64 (i64 (pl_DurationValue plan * 24) * (3600 * Second))))
      else if pl_DurationUnit plan = ''hour''
        then Inr (add_duration start (i64 (pl_DurationValue plan * (3600 * Second))))
      else if pl_DurationUnit plan = ''custom''
        then if pl_CustomSeconds plan \<le> 0 then Inl CustomSecondsNotPositive
             else Inr (add_duration start (i64 (pl_CustomSeconds plan * Second)))
      else Inl InvalidDurationUnit)"

definition calcNextResetTime :: "int \<Rightarrow> int \<Rightarrow> subscription_plan \<Rightarrow> int \<Rightarrow> int" where
  "calcNextResetTime off base plan endUnix =
     (let period = NormalizeResetPeriod (pl_QuotaResetPeriod plan); d = local_day off base in
      if period = ''never'' then 0
      else if period = ''custom'' \<and> pl_QuotaResetCustomSeconds plan \<le> 0 then 0
      else let next =
             (if period = ''daily'' then midnight off (add_date d 0 0 1)
              else if period = ''weekly''
                then let wd = (if weekday d = 0 then 7 else weekday d)
                     in midnight off (add_date d 0 0 (8 - wd))
              else if period = ''monthly'' then midnight off (add_date (month_first (month_of d)) 0 1 0)
              else add_duration base (i64 (pl_QuotaResetCustomSeconds plan * Second)))
           in if endUnix > 0 \<and> next > endUnix then 0 else next)"

section \<open>The next reset lies ahead\<close>

lemma local_day_midnight: "midnight off (local_day off u) \<le> u" "u < midnight off (local_day off u + 1)"
proof -
  define q r where "q = (u + off) div 86400" and "r = (u + off) mod 86400"
  have "u + off = 86400 * q + r" "0 \<le> r" "r < 86400" by (simp_all add: q_def r_def)
  moreover have "local_day off u - epoch_day = q" by (simp add: local_day_def q_def)
  ultimately show "midnight off (local_day off u) \<le> u" "u < midnight off (local_day off u + 1)"
    by (simp_all add: midnight_def)
qed

lemma midnight_mono: "d \<le> e \<Longrightarrow> midnight off d \<le> midnight off e"
  by (simp add: midnight_def)

lemma month_of_first [simp]: "month_of (month_first t) = t"
proof -
  have mono: "s < t \<Longrightarrow> month_first (s + 1) \<le> month_first t" for s t
  proof (induction "nat (t - s)" arbitrary: t)
    case (Suc n)
    show ?case
    proof (cases "t = s + 1")
      case False
      then have "month_first (s + 1) \<le> month_first (t - 1)" using Suc by simp
      then show ?thesis using month_length [of "t - 1"] by simp
    qed simp
  qed simp
  show ?thesis
    using month_of [of "month_first t"] mono [of "month_of (month_first t)" t] mono [of t "month_of (month_first t)"]
      month_length [of t]
    by (cases "month_of (month_first t)" t rule: linorder_cases) auto
qed

lemma weekday_range: "0 \<le> weekday d" "weekday d < 7"
  by (simp_all add: weekday_def)

lemma add_days: "add_date d 0 0 n = d + n"
  by (simp add: add_date_def Let_def)

lemma add_month: "add_date (month_first t) 0 1 0 = month_first (t + 1)"
  by (simp add: add_date_def Let_def)

definition reset_seconds_ok :: "subscription_plan \<Rightarrow> bool" where
  "reset_seconds_ok plan \<longleftrightarrow> pl_QuotaResetCustomSeconds plan * Second < 2 ^ 63"

lemma NormalizeResetPeriod_range:
  "NormalizeResetPeriod p \<in> {''daily'', ''weekly'', ''monthly'', ''custom'', ''never''}"
  by (simp add: NormalizeResetPeriod_def)

lemma calcNextResetTime_later:
  assumes "reset_seconds_ok plan" and "calcNextResetTime off base plan endUnix \<noteq> 0"
  shows "base < calcNextResetTime off base plan endUnix"
proof -
  define d where "d = local_day off base"
  have day: "base < midnight off (d + n)" if "1 \<le> n" for n
    using local_day_midnight(2) [of base off] midnight_mono [of "d + 1" "d + n" off] that by (simp add: d_def)
  have month: "base < midnight off (month_first (month_of d + 1))"
    using day [of "month_first (month_of d + 1) - d"] month_of(2) [of d] by simp
  have week: "1 \<le> 8 - (if weekday d = 0 then 7 else weekday d)" using weekday_range [of d] by auto
  have custom: "base < add_duration base (i64 (pl_QuotaResetCustomSeconds plan * Second))"
    if "0 < pl_QuotaResetCustomSeconds plan"
  proof -
    have "i64 (pl_QuotaResetCustomSeconds plan * Second) = pl_QuotaResetCustomSeconds plan * Second"
      using that assms(1) by (intro i64_id) (simp add: in_i64_def reset_seconds_ok_def Second_def)
    then show ?thesis using that by (simp add: add_duration_def Second_def)
  qed
  show ?thesis
    using assms(2) day [of 1] day [OF week] month custom NormalizeResetPeriod_range [of "pl_QuotaResetPeriod plan"]
    by (auto simp: calcNextResetTime_def Let_def d_def [symmetric] add_days add_month split: if_splits)
qed

lemma calcNextResetTime_end:
  "0 < endUnix \<Longrightarrow> calcNextResetTime off base plan endUnix \<le> endUnix"
  by (simp add: calcNextResetTime_def Let_def)

end
