(* ===== verification/Billing_Store.thy ===== *)
theory Billing_Store
  imports Subscription_Calendar
begin

text \<open>
  The tables behind billing: user and token quotas with the batch stores (\<^verbatim>\<open>model/user.go\<close>,
  \<^verbatim>\<open>model/token.go\<close>, \<^verbatim>\<open>model/utils.go\<close>), and subscriptions with their pre-consume records
  (\<^verbatim>\<open>model/subscription.go\<close>).

  A table is a map from its key to the row. Any query or commit may fail: \<open>db_faults\<close> is the
  sequence of outcomes of the queries still to come (empty: none of them fails), so a statement
  about all databases covers all patterns of failures. \<open>transaction\<close> undoes the writes of a body
  that returned an error or whose commit failed. Column arithmetic done by the database is exact;
  arithmetic done by the program on \<^verbatim>\<open>int64\<close> values goes through \<open>i64\<close>. The caches in front of
  the tables (Redis, hot caches) are not modelled: where the program acts on a cached read the
  value read is an argument.
\<close>

section \<open>Data\<close>

record token_row =
  tk_RemainQuota :: int
  tk_UsedQuota :: int

record user_subscription =
  us_Id :: int
  us_UserId :: int
  us_PlanId :: int
  us_AmountTotal :: int
  us_AmountUsed :: int
  us_StartTime :: int
  us_EndTime :: int
  us_Status :: string
  us_LastResetTime :: int
  us_NextResetTime :: int

record preconsume_record =
  pr_UserId :: int
  pr_UserSubscriptionId :: int
  pr_PreConsumed :: int
  pr_Status :: string

record preconsume_result =
  pc_UserSubscriptionId :: int
  pc_PreConsumed :: int
  pc_AmountTotal :: int
  pc_AmountUsedBefore :: int
  pc_AmountUsedAfter :: int

record billing_db =
  db_users :: "(int, int) gomap"
  db_tokens :: "(int, token_row) gomap"
  db_subs :: "(int, user_subscription) gomap"
  db_plans :: "(int, subscription_plan) gomap"
  db_records :: "(string, preconsume_record) gomap"
  db_batchEnabled :: bool
  db_userBatch :: "(int, int) gomap"
  db_tokenBatch :: "(int, int) gomap"
  db_faults :: "bool list"

datatype billing_error =
    DbError | RecordNotFound | NegativeQuota | InvalidUserId | EmptyRequestId | AmountNotPositive
  | AlreadyRefunded | NoActiveSubscription | SubscriptionInsufficient | InvalidSubscriptionId
  | InvalidPlanId | UsedExceedsTotal | WalletInsufficient | TokenInsufficient | UserQuotaInsufficient
  | Diverges | SubscriptionIdMissing

type_synonym 'a billing = "(billing_error + 'a) \<times> billing_db"

definition bnd :: "('e + 'a) \<times> 's \<Rightarrow> ('a \<Rightarrow> 's \<Rightarrow> ('e + 'b) \<times> 's) \<Rightarrow> ('e + 'b) \<times> 's" where
  "bnd x f = (case x of (Inl e, s) \<Rightarrow> (Inl e, s) | (Inr a, s) \<Rightarrow> f a s)"

lemma bnd_simps [simp]: "bnd (Inl e, s) f = (Inl e, s)" "bnd (Inr a, s) f = f a s"
  by (simp_all add: bnd_def)

definition db_query :: "billing_db \<Rightarrow> unit billing" where
  "db_query db =
     (case db_faults db of
        [] \<Rightarrow> (Inr (), db)
      | fails # fs \<Rightarrow> (if fails then Inl DbError else Inr (), db\<lparr>db_faults := fs\<rparr>))"

definition transaction :: "billing_db \<Rightarrow> (billing_db \<Rightarrow> 'a billing) \<Rightarrow> 'a billing" where
  "transaction db body =
     (case body db of
        (Inl e, db') \<Rightarrow> (Inl e, db\<lparr>db_faults := db_faults db'\<rparr>)
      | (Inr x, db') \<Rightarrow>
          (case db_query db' of
             (Inl e, db'') \<Rightarrow> (Inl e, db\<lparr>db_faults := db_faults db''\<rparr>)
           | (Inr _, db'') \<Rightarrow> (Inr x, db'')))"

section \<open>User and token quotas\<close>

definition addNewRecord :: "(int, int) gomap \<Rightarrow> int \<Rightarrow> int \<Rightarrow> (int, int) gomap" where
  "addNewRecord store key v =
     (case map_of store key of None \<Rightarrow> gput key v store | Some n \<Rightarrow> gput key (n + v) store)"

definition add_user_quota :: "billing_db \<Rightarrow> int \<Rightarrow> int \<Rightarrow> billing_db" where
  "add_user_quota db key n =
     (case map_of (db_users db) key of
        None \<Rightarrow> db
      | Some q \<Rightarrow> db\<lparr>db_users := gput key (q + n) (db_users db)\<rparr>)"

definition increaseUserQuota :: "billing_db \<Rightarrow> int \<Rightarrow> int \<Rightarrow> unit billing" where
  "increaseUserQuota db key quota = bnd (db_query db) (\<lambda>_ db. (Inr (), add_user_quota db key quota))"

definition decreaseUserQuota :: "billing_db \<Rightarrow> int \<Rightarrow> int \<Rightarrow> unit billing" where
  "decreaseUserQuota db key quota = bnd (db_query db) (\<lambda>_ db. (Inr (), add_user_quota db key (- quota)))"

definition IncreaseUserQuota :: "billing_db \<Rightarrow> int \<Rightarrow> int \<Rightarrow> unit billing" where
  "IncreaseUserQuota db key quota =
     (if quota < 0 then (Inl NegativeQuota, db)
      else if db_batchEnabled db
        then (Inr (), db\<lparr>db_userBatch := addNewRecord (db_userBatch db) key quota\<rparr>)
      else increaseUserQuota db key quota)"

definition DecreaseUserQuota :: "billing_db \<Rightarrow> int \<Rightarrow> int \<Rightarrow> unit billing" where
  "DecreaseUserQuota db key quota =
     (if quota < 0 then (Inl NegativeQuota, db)
      else if db_batchEnabled db
        then (Inr (), db\<lparr>db_userBatch := addNewRecord (db_userBatch db) key (- quota)\<rparr>)
      else decreaseUserQuota db key quota)"

definition add_token_quota :: "billing_db \<Rightarrow> int \<Rightarrow> int \<Rightarrow> billing_db" where
  "add_token_quota db key n =
     (case map_of (db_tokens db) key of
        None \<Rightarrow> db
      | Some t \<Rightarrow> db\<lparr>db_tokens := gput key \<lparr>tk_RemainQuota = tk_RemainQuota t + n,
                                           tk_UsedQuota = tk_UsedQuota t - n\<rparr> (db_tokens db)\<rparr>)"

definition increaseTokenQuota :: "billing_db \<Rightarrow> int \<Rightarrow> int \<Rightarrow> unit billing" where
  "increaseTokenQuota db key quota = bnd (db_query db) (\<lambda>_ db. (Inr (), add_token_quota db key quota))"

definition decreaseTokenQuota :: "billing_db \<Rightarrow> int \<Rightarrow> int \<Rightarrow> unit billing" where
  "decreaseTokenQuota db key quota = bnd (db_query db) (\<lambda>_ db. (Inr (), add_token_quota db key (- quota)))"

definition IncreaseTokenQuota :: "billing_db \<Rightarrow> int \<Rightarrow> int \<Rightarrow> unit billing" where
  "IncreaseTokenQuota db tokenId quota =
     (if quota < 0 then (Inl NegativeQuota, db)
      else if db_batchEnabled db
        then (Inr (), db\<lparr>db_tokenBatch := addNewRecord (db_tokenBatch db) tokenId quota\<rparr>)
      else increaseTokenQuota db tokenId quota)"

definition DecreaseTokenQuota :: "billing_db \<Rightarrow> int \<Rightarrow> int \<Rightarrow> unit billing" where
  "DecreaseTokenQuota db tokenId quota =
     (if quota < 0 then (Inl NegativeQuota, db)
      else if db_batchEnabled db
        then (Inr (), db\<lparr>db_tokenBatch := addNewRecord (db_tokenBatch db) tokenId (- quota)\<rparr>)
      else decreaseTokenQuota db tokenId quota)"

text \<open>The user and token parts of \<^verbatim>\<open>batchUpdate\<close>: a failed update is logged and dropped.\<close>

fun flush_users :: "(int, int) gomap \<Rightarrow> billing_db \<Rightarrow> billing_db" where
  "flush_users [] db = db"
| "flush_users ((key, v) # store) db = flush_users store (snd (increaseUserQuota db key v))"

fun flush_tokens :: "(int, int) gomap \<Rightarrow> billing_db \<Rightarrow> billing_db" where
  "flush_tokens [] db = db"
| "flush_tokens ((key, v) # store) db = flush_tokens store (snd (increaseTokenQuota db key v))"

definition batchUpdate :: "billing_db \<Rightarrow> billing_db" where
  "batchUpdate db =
     (let db = flush_users (db_userBatch db) (db\<lparr>db_userBatch := []\<rparr>)
      in flush_tokens (db_tokenBatch db) (db\<lparr>db_tokenBatch := []\<rparr>))"

section \<open>Subscriptions\<close>

definition save_sub :: "billing_db \<Rightarrow> user_subscription \<Rightarrow> unit billing" where
  "save_sub db sub = bnd (db_query db) (\<lambda>_ db. (Inr (), db\<lparr>db_subs := gput (us_Id sub) sub (db_subs db)\<rparr>))"

definition find_sub :: "billing_db \<Rightarrow> int \<Rightarrow> user_subscription billing" where
  "find_sub db key =
     bnd (db_query db) (\<lambda>_ db. (case map_of (db_subs db) key of
        None \<Rightarrow> Inl RecordNotFound | Some sub \<Rightarrow> Inr sub, db))"

definition getSubscriptionPlanByIdTx :: "billing_db \<Rightarrow> int \<Rightarrow> subscription_plan billing" where
  "getSubscriptionPlanByIdTx db key =
     (if key \<le> 0 then (Inl InvalidPlanId, db)
      else bnd (db_query db) (\<lambda>_ db. (case map_of (db_plans db) key of
        None \<Rightarrow> Inl RecordNotFound | Some plan \<Rightarrow> Inr plan, db)))"

text \<open>
  The loop of \<^verbatim>\<open>maybeResetUserSubscriptionWithPlanTx\<close>: \<open>None\<close> is a loop that does not end. The result
  is the last boundary that has passed and the next one.
\<close>

partial_function (option) reset_loop ::
  "int \<Rightarrow> subscription_plan \<Rightarrow> int \<Rightarrow> int \<Rightarrow> int \<Rightarrow> int \<Rightarrow> bool \<Rightarrow> (int \<times> int \<times> bool) option" where
  "reset_loop off plan endTime now base next advanced =
     (if next > 0 \<and> next \<le> now
      then reset_loop off plan endTime now next (calcNextResetTime off next plan endTime) True
      else Some (base, next, advanced))"

declare reset_loop.simps [code]

definition maybeResetUserSubscriptionWithPlanTx ::
  "int \<Rightarrow> billing_db \<Rightarrow> user_subscription \<Rightarrow> subscription_plan \<Rightarrow> int \<Rightarrow> user_subscription billing" where
  "maybeResetUserSubscriptionWithPlanTx off db sub plan now =
     (if us_NextResetTime sub > 0 \<and> us_NextResetTime sub > now then (Inr sub, db)
      else if NormalizeResetPeriod (pl_QuotaResetPeriod plan) = ''never'' then (Inr sub, db)
      else let base = (if us_LastResetTime sub \<le> 0 then us_StartTime sub else us_LastResetTime sub)
      in case reset_loop off plan (us_EndTime sub) now base (calcNextResetTime off base plan (us_EndTime sub)) False of
           None \<Rightarrow> (Inl Diverges, db)
         | Some (base, next, advanced) \<Rightarrow>
             if \<not> advanced then
               if us_NextResetTime sub = 0 \<and> next > 0 then
                 let sub = sub\<lparr>us_NextResetTime := next, us_LastResetTime := base\<rparr>
                 in bnd (save_sub db sub) (\<lambda>_ db. (Inr sub, db))
               else (Inr sub, db)
             else
               let sub = sub\<lparr>us_AmountUsed := 0, us_LastResetTime := base, us_NextResetTime := next\<rparr>
               in bnd (save_sub db sub) (\<lambda>_ db. (Inr sub, db)))"

definition active_subs :: "billing_db \<Rightarrow> int \<Rightarrow> int \<Rightarrow> user_subscription list" where
  "active_subs db userId now =
     SliceStable (\<lambda>a b. us_EndTime a < us_EndTime b \<or> us_EndTime a = us_EndTime b \<and> us_Id a < us_Id b)
       (filter (\<lambda>s. us_UserId s = userId \<and> us_Status s = ''active'' \<and> us_EndTime s > now) (map snd (db_subs db)))"

fun select_full ::
  "int \<Rightarrow> int \<Rightarrow> int \<Rightarrow> user_subscription list \<Rightarrow> billing_db \<Rightarrow> user_subscription option billing" where
  "select_full off now amount [] db = (Inr None, db)"
| "select_full off now amount (candidate # subs) db =
     bnd (getSubscriptionPlanByIdTx db (us_PlanId candidate)) (\<lambda>plan db.
     bnd (maybeResetUserSubscriptionWithPlanTx off db candidate plan now) (\<lambda>sub db.
       if us_AmountTotal sub > 0 \<and> i64 (us_AmountTotal sub - us_AmountUsed sub) < amount
       then select_full off now amount subs db
       else (Inr (Some sub), db)))"

fun select_partial ::
  "int \<Rightarrow> int \<Rightarrow> int \<Rightarrow> user_subscription list \<Rightarrow> (user_subscription \<times> int) option \<Rightarrow> billing_db
   \<Rightarrow> (user_subscription \<times> int) option billing" where
  "select_partial off now amount [] best db = (Inr best, db)"
| "select_partial off now amount (candidate # subs) best db =
     bnd (getSubscriptionPlanByIdTx db (us_PlanId candidate)) (\<lambda>plan db.
     bnd (maybeResetUserSubscriptionWithPlanTx off db candidate plan now) (\<lambda>sub db.
       let remain = i64 (us_AmountTotal sub - us_AmountUsed sub) in
       if us_AmountTotal sub > 0 \<and> remain \<le> 0 then select_partial off now amount subs best db
       else let available = (if us_AmountTotal sub > 0 then remain else amount) in
         if available \<ge> amount then (Inr (Some (sub, amount)), db)
         else select_partial off now amount subs
           (case best of None \<Rightarrow> Some (sub, available)
            | Some (b, n) \<Rightarrow> if available > n then Some (sub, available) else best) db))"

definition existing_result :: "billing_db \<Rightarrow> preconsume_record \<Rightarrow> preconsume_result billing" where
  "existing_result db existing =
     (if pr_Status existing = ''refunded'' then (Inl AlreadyRefunded, db)
      else bnd (find_sub db (pr_UserSubscriptionId existing)) (\<lambda>sub db.
        (Inr \<lparr>pc_UserSubscriptionId = us_Id sub, pc_PreConsumed = pr_PreConsumed existing,
              pc_AmountTotal = us_AmountTotal sub, pc_AmountUsedBefore = us_AmountUsed sub,
              pc_AmountUsedAfter = us_AmountUsed sub\<rparr>, db)))"

definition consume_selected ::
  "billing_db \<Rightarrow> string \<Rightarrow> int \<Rightarrow> user_subscription \<Rightarrow> int \<Rightarrow> preconsume_result billing" where
  "consume_selected db requestId userId sub amount =
     (case bnd (db_query db) (\<lambda>_ db.
        if map_of (db_records db) requestId \<noteq> None then (Inl DbError, db)
        else (Inr (), db\<lparr>db_records := gput requestId
               \<lparr>pr_UserId = userId, pr_UserSubscriptionId = us_Id sub, pr_PreConsumed = amount,
                pr_Status = ''consumed''\<rparr> (db_records db)\<rparr>)) of
        (Inl e, db) \<Rightarrow>
          (case db_query db of
             (Inl _, db) \<Rightarrow> (Inl e, db)
           | (Inr _, db) \<Rightarrow>
               (case map_of (db_records db) requestId of
                  None \<Rightarrow> (Inl e, db)
                | Some dup \<Rightarrow> existing_result db dup))
      | (Inr _, db) \<Rightarrow>
          (let used = us_AmountUsed sub; sub = sub\<lparr>us_AmountUsed := i64 (used + amount)\<rparr> in
           bnd (save_sub db sub) (\<lambda>_ db.
             (Inr \<lparr>pc_UserSubscriptionId = us_Id sub, pc_PreConsumed = amount,
                   pc_AmountTotal = us_AmountTotal sub, pc_AmountUsedBefore = used,
                   pc_AmountUsedAfter = us_AmountUsed sub\<rparr>, db))))"

text \<open>The checks and the idempotency lookup that both pre-consume procedures begin with.\<close>

definition preconsume_with ::
  "(billing_db \<Rightarrow> preconsume_result billing) \<Rightarrow> billing_db \<Rightarrow> string \<Rightarrow> int \<Rightarrow> int \<Rightarrow> preconsume_result billing" where
  "preconsume_with fresh db requestId userId amount =
     (if userId \<le> 0 then (Inl InvalidUserId, db)
      else if TrimSpace requestId = [] then (Inl EmptyRequestId, db)
      else if amount \<le> 0 then (Inl AmountNotPositive, db)
      else transaction db (\<lambda>db.
        bnd (db_query db) (\<lambda>_ db.
          case map_of (db_records db) requestId of
            Some existing \<Rightarrow> existing_result db existing
          | None \<Rightarrow> fresh db)))"

definition PreConsumeUserSubscription ::
  "int \<Rightarrow> int \<Rightarrow> billing_db \<Rightarrow> string \<Rightarrow> int \<Rightarrow> int \<Rightarrow> preconsume_result billing" where
  "PreConsumeUserSubscription off now db requestId userId amount =
     preconsume_with (\<lambda>db.
       case db_query db of
         (Inl _, db) \<Rightarrow> (Inl NoActiveSubscription, db)
       | (Inr _, db) \<Rightarrow>
           (if active_subs db userId now = [] then (Inl NoActiveSubscription, db)
            else bnd (select_full off now amount (active_subs db userId now) db) (\<lambda>selected db.
              case selected of
                Some sub \<Rightarrow> consume_selected db requestId userId sub amount
              | None \<Rightarrow> (Inl SubscriptionInsufficient, db))))
       db requestId userId amount"

definition PreConsumeUserSubscriptionPartial ::
  "int \<Rightarrow> int \<Rightarrow> billing_db \<Rightarrow> string \<Rightarrow> int \<Rightarrow> int \<Rightarrow> preconsume_result billing" where
  "PreConsumeUserSubscriptionPartial off now db requestId userId amount =
     preconsume_with (\<lambda>db.
       case db_query db of
         (Inl _, db) \<Rightarrow> (Inl NoActiveSubscription, db)
       | (Inr _, db) \<Rightarrow>
           (if active_subs db userId now = [] then (Inl NoActiveSubscription, db)
            else bnd (select_partial off now amount (active_subs db userId now) None db) (\<lambda>selected db.
              case selected of
                Some (sub, n) \<Rightarrow> if n > 0 then consume_selected db requestId userId sub n
                                 else (Inl SubscriptionInsufficient, db)
              | None \<Rightarrow> (Inl SubscriptionInsufficient, db))))
       db requestId userId amount"

definition PostConsumeUserSubscriptionDelta :: "billing_db \<Rightarrow> int \<Rightarrow> int \<Rightarrow> unit billing" where
  "PostConsumeUserSubscriptionDelta db userSubscriptionId delta =
     (if userSubscriptionId \<le> 0 then (Inl InvalidSubscriptionId, db)
      else if delta = 0 then (Inr (), db)
      else transaction db (\<lambda>db.
        bnd (find_sub db userSubscriptionId) (\<lambda>sub db.
          let newUsed = i64 (us_AmountUsed sub + delta);
              newUsed = (if newUsed < 0 then 0 else newUsed)
          in if us_AmountTotal sub > 0 \<and> newUsed > us_AmountTotal sub then (Inl UsedExceedsTotal, db)
             else save_sub db (sub\<lparr>us_AmountUsed := newUsed\<rparr>))))"

definition PostConsumeUserSubscriptionDeltaAvailable :: "billing_db \<Rightarrow> int \<Rightarrow> int \<Rightarrow> int billing" where
  "PostConsumeUserSubscriptionDeltaAvailable db userSubscriptionId delta =
     (if userSubscriptionId \<le> 0 then (Inl InvalidSubscriptionId, db)
      else if delta \<le> 0 then (Inr 0, db)
      else transaction db (\<lambda>db.
        bnd (find_sub db userSubscriptionId) (\<lambda>sub db.
          let remain = i64 (us_AmountTotal sub - us_AmountUsed sub) in
          if us_AmountTotal sub > 0 \<and> remain \<le> 0 then (Inr 0, db)
          else let consumeAmount = (if us_AmountTotal sub > 0 \<and> remain < delta then remain else delta)
               in bnd (save_sub db (sub\<lparr>us_AmountUsed := i64 (us_AmountUsed sub + consumeAmount)\<rparr>))
                    (\<lambda>_ db. (Inr consumeAmount, db)))))"

text \<open>
  \<^verbatim>\<open>RefundSubscriptionPreConsume\<close>: the call of \<^verbatim>\<open>PostConsumeUserSubscriptionDelta\<close> in its body runs in a
  transaction of its own, so a failure of the outer transaction after it does not undo it.
\<close>

definition save_record :: "billing_db \<Rightarrow> string \<Rightarrow> preconsume_record \<Rightarrow> unit billing" where
  "save_record db requestId r =
     bnd (db_query db) (\<lambda>_ db. (Inr (), db\<lparr>db_records := gput requestId r (db_records db)\<rparr>))"

definition RefundSubscriptionPreConsume :: "billing_db \<Rightarrow> string \<Rightarrow> unit billing" where
  "RefundSubscriptionPreConsume db requestId =
     (if TrimSpace requestId = [] then (Inl EmptyRequestId, db)
      else bnd (db_query db) (\<lambda>_ db.
        case map_of (db_records db) requestId of
          None \<Rightarrow> (Inl RecordNotFound, db)
        | Some r \<Rightarrow>
            if pr_Status r = ''refunded'' then transaction db (\<lambda>db. (Inr (), db))
            else if pr_PreConsumed r \<le> 0
              then transaction db (\<lambda>db. save_record db requestId (r\<lparr>pr_Status := ''refunded''\<rparr>))
            else bnd (PostConsumeUserSubscriptionDelta db (pr_UserSubscriptionId r) (- pr_PreConsumed r)) (\<lambda>_ db.
              transaction db (\<lambda>db. save_record db requestId (r\<lparr>pr_Status := ''refunded''\<rparr>)))))"

definition HasActiveUserSubscription :: "int \<Rightarrow> billing_db \<Rightarrow> int \<Rightarrow> bool billing" where
  "HasActiveUserSubscription now db userId =
     (if userId \<le> 0 then (Inl InvalidUserId, db)
      else bnd (db_query db) (\<lambda>_ db. (Inr (active_subs db userId now \<noteq> []), db)))"

fun reset_due :: "int \<Rightarrow> int \<Rightarrow> user_subscription list \<Rightarrow> billing_db \<Rightarrow> int \<Rightarrow> int billing" where
  "reset_due off now [] db n = (Inr n, db)"
| "reset_due off now (sub # subs) db n =
     (case getSubscriptionPlanByIdTx db (us_PlanId sub) of
        (Inl _, db) \<Rightarrow> reset_due off now subs db n
      | (Inr plan, db) \<Rightarrow>
          bnd (transaction db (\<lambda>db.
            case db_query db of
              (Inl _, db) \<Rightarrow> (Inr 0, db)
            | (Inr _, db) \<Rightarrow>
                (case map_of (db_subs db) (us_Id sub) of
                   None \<Rightarrow> (Inr 0, db)
                 | Some locked \<Rightarrow>
                     if us_NextResetTime locked > 0 \<and> us_NextResetTime locked \<le> now
                     then bnd (maybeResetUserSubscriptionWithPlanTx off db locked plan now) (\<lambda>_ db. (Inr 1, db))
                     else (Inr 0, db))))
            (\<lambda>k db. reset_due off now subs db (n + k)))"

definition ResetDueSubscriptions :: "int \<Rightarrow> int \<Rightarrow> billing_db \<Rightarrow> int \<Rightarrow> int billing" where
  "ResetDueSubscriptions off now db limit =
     (let limit = (if limit \<le> 0 then 200 else limit) in
      bnd (db_query db) (\<lambda>_ db.
        reset_due off now
          (take (nat limit) (SliceStable (\<lambda>a b. us_NextResetTime a < us_NextResetTime b)
            (filter (\<lambda>s. us_NextResetTime s > 0 \<and> us_NextResetTime s \<le> now \<and> us_Status s = ''active'')
              (map snd (db_subs db))))) db 0))"

end
