(* ===== verification/Billing_Books.thy ===== *)
theory Billing_Books
  imports Billing_Store
begin

text \<open>
  What the operations on the billing tables do to the books: the funds of users and tokens (the
  column plus what the batch store still holds for it) and the amounts used of subscriptions.
  \<open>store_step\<close> is one call of an operation with any arguments; the bounds of the subscriptions are
  an invariant of all sequences of calls, whatever queries fail.
\<close>

section \<open>Funds and frames\<close>

definition user_funds :: "billing_db \<Rightarrow> int \<Rightarrow> int" where
  "user_funds db u = gcount (db_users db) u + gcount (db_userBatch db) u"

definition token_funds :: "billing_db \<Rightarrow> int \<Rightarrow> int" where
  "token_funds db t =
     (case map_of (db_tokens db) t of None \<Rightarrow> 0 | Some r \<Rightarrow> tk_RemainQuota r) + gcount (db_tokenBatch db) t"

definition has_user :: "billing_db \<Rightarrow> int \<Rightarrow> bool" where
  "has_user db u \<longleftrightarrow> map_of (db_users db) u \<noteq> None"

definition has_token :: "billing_db \<Rightarrow> int \<Rightarrow> bool" where
  "has_token db t \<longleftrightarrow> map_of (db_tokens db) t \<noteq> None"

text \<open>The same tables: only queries were spent.\<close>

definition unchanged :: "billing_db \<Rightarrow> billing_db \<Rightarrow> bool" where
  "unchanged db db' \<longleftrightarrow> db' = db\<lparr>db_faults := db_faults db'\<rparr>"

text \<open>Only the books of users, of tokens or of subscriptions were touched.\<close>

definition users_only :: "billing_db \<Rightarrow> billing_db \<Rightarrow> bool" where
  "users_only db db' \<longleftrightarrow>
     db' = db\<lparr>db_users := db_users db', db_userBatch := db_userBatch db', db_faults := db_faults db'\<rparr>
     \<and> (\<forall>u. has_user db' u = has_user db u)"

definition tokens_only :: "billing_db \<Rightarrow> billing_db \<Rightarrow> bool" where
  "tokens_only db db' \<longleftrightarrow>
     db' = db\<lparr>db_tokens := db_tokens db', db_tokenBatch := db_tokenBatch db', db_faults := db_faults db'\<rparr>
     \<and> (\<forall>t. has_token db' t = has_token db t)"

definition subs_only :: "billing_db \<Rightarrow> billing_db \<Rightarrow> bool" where
  "subs_only db db' \<longleftrightarrow>
     db' = db\<lparr>db_subs := db_subs db', db_records := db_records db', db_faults := db_faults db'\<rparr>"

lemma unchanged_refl [simp]: "unchanged db db"
  by (simp add: unchanged_def)

lemma unchanged_faults [simp]: "unchanged db (db\<lparr>db_faults := fs\<rparr>)"
  by (simp add: unchanged_def)

lemma unchanged_trans: "unchanged a b \<Longrightarrow> unchanged b c \<Longrightarrow> unchanged a c"
  unfolding unchanged_def by (metis billing_db.surjective billing_db.update_convs(9))

lemma unchanged_same:
  assumes "unchanged db db'"
  shows "user_funds db' = user_funds db" "token_funds db' = token_funds db" "has_user db' = has_user db"
    "has_token db' = has_token db" "db_subs db' = db_subs db" "db_records db' = db_records db"
    "db_plans db' = db_plans db" "db_batchEnabled db' = db_batchEnabled db"
    "db_users db' = db_users db" "db_userBatch db' = db_userBatch db"
    "db_tokens db' = db_tokens db" "db_tokenBatch db' = db_tokenBatch db"
proof -
  obtain fs where db': "db' = db\<lparr>db_faults := fs\<rparr>" using assms by (auto simp: unchanged_def)
  show "user_funds db' = user_funds db" "token_funds db' = token_funds db" "has_user db' = has_user db"
    "has_token db' = has_token db" "db_subs db' = db_subs db" "db_records db' = db_records db"
    "db_plans db' = db_plans db" "db_batchEnabled db' = db_batchEnabled db"
    "db_users db' = db_users db" "db_userBatch db' = db_userBatch db"
    "db_tokens db' = db_tokens db" "db_tokenBatch db' = db_tokenBatch db"
    by (simp_all add: db' fun_eq_iff user_funds_def token_funds_def has_user_def has_token_def)
qed

lemma users_only_same:
  assumes "users_only db db'"
  shows "token_funds db' = token_funds db" "has_user db' = has_user db"
    "has_token db' = has_token db" "db_subs db' = db_subs db" "db_records db' = db_records db"
    "db_plans db' = db_plans db" "db_batchEnabled db' = db_batchEnabled db"
proof -
  obtain us b fs where db': "db' = db\<lparr>db_users := us, db_userBatch := b, db_faults := fs\<rparr>"
    using assms by (auto simp: users_only_def)
  show "token_funds db' = token_funds db" "has_token db' = has_token db" "db_subs db' = db_subs db"
    "db_records db' = db_records db" "db_plans db' = db_plans db" "db_batchEnabled db' = db_batchEnabled db"
    by (simp_all add: db' fun_eq_iff token_funds_def has_token_def)
  show "has_user db' = has_user db" using assms by (simp add: users_only_def fun_eq_iff)
qed

lemma tokens_only_same:
  assumes "tokens_only db db'"
  shows "user_funds db' = user_funds db" "has_user db' = has_user db"
    "has_token db' = has_token db" "db_subs db' = db_subs db" "db_records db' = db_records db"
    "db_plans db' = db_plans db" "db_batchEnabled db' = db_batchEnabled db"
proof -
  obtain us b fs where db': "db' = db\<lparr>db_tokens := us, db_tokenBatch := b, db_faults := fs\<rparr>"
    using assms by (auto simp: tokens_only_def)
  show "user_funds db' = user_funds db" "has_user db' = has_user db" "db_subs db' = db_subs db"
    "db_records db' = db_records db" "db_plans db' = db_plans db" "db_batchEnabled db' = db_batchEnabled db"
    by (simp_all add: db' fun_eq_iff user_funds_def has_user_def)
  show "has_token db' = has_token db" using assms by (simp add: tokens_only_def fun_eq_iff)
qed

lemma subs_only_same:
  assumes "subs_only db db'"
  shows "user_funds db' = user_funds db" "token_funds db' = token_funds db" "has_user db' = has_user db"
    "has_token db' = has_token db" "db_plans db' = db_plans db" "db_batchEnabled db' = db_batchEnabled db"
proof -
  obtain s r fs where db': "db' = db\<lparr>db_subs := s, db_records := r, db_faults := fs\<rparr>"
    using assms by (auto simp: subs_only_def)
  show "user_funds db' = user_funds db" "token_funds db' = token_funds db" "has_user db' = has_user db"
    "has_token db' = has_token db" "db_plans db' = db_plans db" "db_batchEnabled db' = db_batchEnabled db"
    by (simp_all add: db' fun_eq_iff user_funds_def token_funds_def has_user_def has_token_def)
qed

lemma unchanged_subs_only: "unchanged db db' \<Longrightarrow> subs_only db db'"
proof -
  assume "unchanged db db'"
  then obtain fs where "db' = db\<lparr>db_faults := fs\<rparr>" by (auto simp: unchanged_def)
  then show ?thesis by (simp add: subs_only_def)
qed

lemma subs_only_trans:
  assumes "subs_only a b" and "subs_only b c"
  shows "subs_only a c"
proof -
  obtain s r fs where b: "b = a\<lparr>db_subs := s, db_records := r, db_faults := fs\<rparr>"
    using assms(1) by (auto simp: subs_only_def)
  obtain s' r' fs' where c: "c = b\<lparr>db_subs := s', db_records := r', db_faults := fs'\<rparr>"
    using assms(2) by (auto simp: subs_only_def)
  show ?thesis by (simp add: subs_only_def b c)
qed

section \<open>Postconditions\<close>

text \<open>
  \<open>outcome x Q E\<close>: the result of a call satisfies \<open>Q\<close> when it succeeded and \<open>E\<close> when it failed.
  The rules follow the way the operations are composed, so an operation is specified once and its
  callers are proved from the specification.
\<close>

definition outcome :: "('e + 'a) \<times> 's \<Rightarrow> ('a \<Rightarrow> 's \<Rightarrow> bool) \<Rightarrow> ('s \<Rightarrow> bool) \<Rightarrow> bool" where
  "outcome x Q E \<longleftrightarrow> (case x of (Inl _, s) \<Rightarrow> E s | (Inr a, s) \<Rightarrow> Q a s)"

lemma outcome_simps [simp]:
  "outcome (Inl e, s) Q E \<longleftrightarrow> E s"
  "outcome (Inr a, s) Q E \<longleftrightarrow> Q a s"
  "outcome (bnd x f) Q E \<longleftrightarrow> outcome x (\<lambda>a s. outcome (f a s) Q E) E"
  by (auto simp: outcome_def bnd_def split: prod.split sum.split)

lemma outcome_mono:
  "outcome x Q E \<Longrightarrow> (\<And>a s. Q a s \<Longrightarrow> Q' a s) \<Longrightarrow> (\<And>s. E s \<Longrightarrow> E' s) \<Longrightarrow> outcome x Q' E'"
  by (auto simp: outcome_def split: prod.split sum.split)

lemma outcome_snd: "outcome x (\<lambda>_. P) P \<longleftrightarrow> P (snd x)"
  by (auto simp: outcome_def split: prod.split sum.split)

lemma outcomeD: "outcome x Q E \<Longrightarrow> x = (Inr a, s) \<Longrightarrow> Q a s"
  by simp

lemma outcome_query [simp]:
  "outcome (db_query db) Q E \<longleftrightarrow>
     (case db_faults db of [] \<Rightarrow> Q () db | b # fs \<Rightarrow> if b then E (db\<lparr>db_faults := fs\<rparr>) else Q () (db\<lparr>db_faults := fs\<rparr>))"
  by (auto simp: db_query_def split: list.split)

lemma outcome_queryI:
  assumes "\<And>db'. unchanged db db' \<Longrightarrow> Q () db'" and "\<And>db'. unchanged db db' \<Longrightarrow> E db'"
  shows "outcome (db_query db) Q E"
  using assms by (auto split: list.split)

lemma outcome_transaction:
  assumes body: "outcome (body db) (\<lambda>a s. \<forall>s'. unchanged s s' \<longrightarrow> Q a s') (\<lambda>_. True)"
    and fail: "\<And>db'. unchanged db db' \<Longrightarrow> E db'"
  shows "outcome (transaction db body) Q E"
proof (cases "body db")
  case (Pair r s)
  show ?thesis
  proof (cases r)
    case (Inr a)
    then have "Q a s'" if "unchanged s s'" for s' using body that by (simp add: Pair)
    then show ?thesis using fail
      by (auto simp: Pair Inr transaction_def db_query_def split: list.split)
  qed (simp add: Pair transaction_def fail)
qed

lemma outcome_sumcase:
  "outcome (case x of (Inl e, s) \<Rightarrow> f e s | (Inr a, s) \<Rightarrow> g a s) Q E \<longleftrightarrow>
     (\<forall>e s. x = (Inl e, s) \<longrightarrow> outcome (f e s) Q E) \<and> (\<forall>a s. x = (Inr a, s) \<longrightarrow> outcome (g a s) Q E)"
  by (auto split: prod.split sum.split)

section \<open>The bounds of subscriptions\<close>

definition sub_ok :: "user_subscription \<Rightarrow> bool" where
  "sub_ok s \<longleftrightarrow> us_AmountTotal s > 0 \<longrightarrow>
     0 \<le> us_AmountUsed s \<and> us_AmountUsed s \<le> us_AmountTotal s \<and> us_AmountTotal s < 2 ^ 63"

definition subs_ok :: "billing_db \<Rightarrow> bool" where
  "subs_ok db \<longleftrightarrow> gwf (db_subs db)
     \<and> (\<forall>k s. map_of (db_subs db) k = Some s \<longrightarrow> us_Id s = k \<and> sub_ok s)"

lemma subs_ok_cong: "db_subs db' = db_subs db \<Longrightarrow> subs_ok db' = subs_ok db"
  by (simp add: subs_ok_def)

lemma subs_ok_unchanged: "unchanged db db' \<Longrightarrow> subs_ok db' = subs_ok db"
  by (rule subs_ok_cong) (simp add: unchanged_same)

lemma subs_okD: "subs_ok db \<Longrightarrow> map_of (db_subs db) k = Some s \<Longrightarrow> us_Id s = k \<and> sub_ok s"
  by (simp add: subs_ok_def)

lemma subs_ok_put: "subs_ok db \<Longrightarrow> sub_ok s \<Longrightarrow> subs_ok (db\<lparr>db_subs := gput (us_Id s) s (db_subs db)\<rparr>)"
  by (simp add: subs_ok_def go_map_simps)

lemma remain_exact: "sub_ok s \<Longrightarrow> us_AmountTotal s > 0 \<Longrightarrow>
    i64 (us_AmountTotal s - us_AmountUsed s) = us_AmountTotal s - us_AmountUsed s"
  by (rule i64_id) (simp add: sub_ok_def in_i64_def)

lemma sub_ok_charge:
  assumes "sub_ok s" and "0 \<le> n" and "us_AmountTotal s > 0 \<longrightarrow> n \<le> us_AmountTotal s - us_AmountUsed s"
  shows "sub_ok (s\<lparr>us_AmountUsed := i64 (us_AmountUsed s + n)\<rparr>)"
proof (cases "us_AmountTotal s > 0")
  case True
  then have "i64 (us_AmountUsed s + n) = us_AmountUsed s + n"
    using assms by (intro i64_id) (auto simp: sub_ok_def in_i64_def)
  with assms True show ?thesis by (simp add: sub_ok_def)
qed (simp add: sub_ok_def)

lemma save_sub_ok:
  assumes "subs_ok db" and "sub_ok s"
  shows "outcome (save_sub db s) (\<lambda>_. subs_ok) subs_ok"
  using assms by (auto simp: save_sub_def subs_ok_put subs_ok_unchanged [OF unchanged_faults] split: list.split
      intro!: subs_ok_put [of "db\<lparr>db_faults := fs\<rparr>" for fs, simplified])

lemma find_sub_ok:
  assumes "subs_ok db"
  shows "outcome (find_sub db k) (\<lambda>s db'. unchanged db db' \<and> map_of (db_subs db) k = Some s \<and> us_Id s = k \<and> sub_ok s)
    (unchanged db)"
  using assms by (auto simp: find_sub_def dest: subs_okD split: list.split option.split)

lemma plan_unchanged:
  "outcome (getSubscriptionPlanByIdTx db k) (\<lambda>p db'. unchanged db db' \<and> map_of (db_plans db) k = Some p) (unchanged db)"
  by (auto simp: getSubscriptionPlanByIdTx_def split: list.split option.split)

text \<open>The frame of everything that runs inside a subscription transaction.\<close>

definition sub_frame :: "billing_db \<Rightarrow> billing_db \<Rightarrow> bool" where
  "sub_frame db db' \<longleftrightarrow> subs_only db db' \<and> db_records db' = db_records db"

lemma sub_frame_trans: "sub_frame a b \<Longrightarrow> sub_frame b c \<Longrightarrow> sub_frame a c"
  by (auto simp: sub_frame_def intro: subs_only_trans)

lemma sub_frame_unchanged: "unchanged a b \<Longrightarrow> sub_frame a b"
  by (simp add: sub_frame_def unchanged_subs_only unchanged_same)

lemma save_sub_spec:
  assumes "subs_ok db" and "sub_ok s"
  shows "outcome (save_sub db s)
    (\<lambda>_ db'. subs_ok db' \<and> sub_frame db db' \<and> db_subs db' = gput (us_Id s) s (db_subs db)) (unchanged db)"
  using assms subs_ok_put [OF assms] subs_ok_cong [of "db\<lparr>db_faults := fs, db_subs := x\<rparr>" "db\<lparr>db_subs := x\<rparr>" for fs x]
  by (auto simp: save_sub_def sub_frame_def subs_only_def split: list.split)

definition resets_to :: "user_subscription \<Rightarrow> user_subscription \<Rightarrow> bool" where
  "resets_to s s' \<longleftrightarrow> us_Id s' = us_Id s \<and> us_AmountTotal s' = us_AmountTotal s
     \<and> us_AmountUsed s' \<in> {0, us_AmountUsed s}"

lemma maybeReset_spec:
  assumes "subs_ok db" and "sub_ok sub"
  shows "outcome (maybeResetUserSubscriptionWithPlanTx off db sub plan now)
    (\<lambda>s db'. subs_ok db' \<and> sub_frame db db' \<and> sub_ok s \<and> resets_to sub s) (\<lambda>_. True)"
proof -
  have saved: "outcome (bnd (save_sub db s) (\<lambda>_ db'. (Inr s, db')))
      (\<lambda>s db'. subs_ok db' \<and> sub_frame db db' \<and> sub_ok s \<and> resets_to sub s) (\<lambda>_. True)"
    if "sub_ok s" "resets_to sub s" for s
    using outcome_mono [OF save_sub_spec [OF assms(1) that(1)]] that by simp
  show ?thesis
    using assms saved
    by (auto simp: maybeResetUserSubscriptionWithPlanTx_def Let_def resets_to_def sub_ok_def
        sub_frame_unchanged split: option.split)
qed

lemma active_subs_ok:
  assumes "subs_ok db" and "s \<in> set (active_subs db userId now)"
  shows "sub_ok s" "map_of (db_subs db) (us_Id s) = Some s" "us_UserId s = userId"
    "us_Status s = ''active''" "us_EndTime s > now"
proof -
  obtain k where "(k, s) \<in> set (db_subs db)" and a: "us_UserId s = userId" "us_Status s = ''active''" "us_EndTime s > now"
    using assms(2) by (auto simp: active_subs_def)
  then have "map_of (db_subs db) k = Some s" using assms(1) by (simp add: subs_ok_def gwf_mem_iff)
  then show "sub_ok s" "map_of (db_subs db) (us_Id s) = Some s" using subs_okD [OF assms(1)] by auto
  show "us_UserId s = userId" "us_Status s = ''active''" "us_EndTime s > now" by (fact a)+
qed

text \<open>The head of both selection loops: load the plan, reset the candidate when it is due.\<close>

lemma reset_candidate:
  assumes "subs_ok db" and "sub_ok c"
    and cont: "\<And>s db'. subs_ok db' \<Longrightarrow> sub_frame db db' \<Longrightarrow> sub_ok s \<Longrightarrow> resets_to c s \<Longrightarrow> outcome (f s db') Q (\<lambda>_. True)"
  shows "outcome (bnd (getSubscriptionPlanByIdTx db (us_PlanId c)) (\<lambda>plan db.
    bnd (maybeResetUserSubscriptionWithPlanTx off db c plan now) f)) Q (\<lambda>_. True)"
proof -
  have "outcome (maybeResetUserSubscriptionWithPlanTx off db1 c plan now) (\<lambda>s db2. outcome (f s db2) Q (\<lambda>_. True)) (\<lambda>_. True)"
    if un: "unchanged db db1" for db1 plan
  proof (rule outcome_mono [OF maybeReset_spec [OF _ assms(2)]])
    show "subs_ok db1" using un assms(1) by (simp add: subs_ok_unchanged)
    show "outcome (f s db2) Q (\<lambda>_. True)"
      if "subs_ok db2 \<and> sub_frame db1 db2 \<and> sub_ok s \<and> resets_to c s" for s db2
      using that sub_frame_trans [OF sub_frame_unchanged [OF un]] cont by blast
  qed simp
  then show ?thesis unfolding outcome_simps by (intro outcome_mono [OF plan_unchanged]) auto
qed

definition within :: "int \<Rightarrow> user_subscription \<Rightarrow> bool" where
  "within n s \<longleftrightarrow> sub_ok s \<and> (us_AmountTotal s > 0 \<longrightarrow> n \<le> us_AmountTotal s - us_AmountUsed s)"

text \<open>\<open>chosen\<close>: a candidate with enough left, such that all candidates before it have too little.\<close>

definition lacks :: "int \<Rightarrow> user_subscription \<Rightarrow> bool" where
  "lacks n s \<longleftrightarrow> us_AmountTotal s > 0 \<and> us_AmountTotal s - us_AmountUsed s < n"

definition chosen :: "int \<Rightarrow> user_subscription list \<Rightarrow> user_subscription option \<Rightarrow> bool" where
  "chosen n subs r \<longleftrightarrow> (case r of
       None \<Rightarrow> \<forall>c \<in> set subs. lacks n c
     | Some s \<Rightarrow> within n s \<and> (\<exists>pre c post. subs = pre @ c # post \<and> resets_to c s \<and> (\<forall>p \<in> set pre. lacks n p)))"

lemma lacks_reset: "sub_ok c \<Longrightarrow> resets_to c s \<Longrightarrow> lacks n s \<Longrightarrow> lacks n c"
  by (auto simp: lacks_def resets_to_def sub_ok_def)

lemma chosen_skip: "lacks n c \<Longrightarrow> chosen n subs r \<Longrightarrow> chosen n (c # subs) r"
  by (auto simp: chosen_def split: option.splits) (metis append_Cons set_ConsD)

lemma chosen_here: "within n s \<Longrightarrow> resets_to c s \<Longrightarrow> chosen n (c # subs) (Some s)"
  unfolding chosen_def by (auto intro!: exI [of _ "[]"])

lemma select_full_spec:
  assumes "subs_ok db" and "\<forall>s \<in> set subs. sub_ok s"
  shows "outcome (select_full off now amount subs db)
    (\<lambda>r db'. subs_ok db' \<and> sub_frame db db' \<and> chosen amount subs r) (\<lambda>_. True)"
  using assms
proof (induction subs arbitrary: db)
  case (Cons c subs)
  have IH: "outcome (select_full off now amount subs db')
    (\<lambda>r db''. subs_ok db'' \<and> sub_frame db' db'' \<and> chosen amount subs r) (\<lambda>_. True)" if "subs_ok db'" for db'
    using Cons.IH [OF that] Cons.prems by simp
  show ?case unfolding select_full.simps
  proof (rule reset_candidate)
    fix s db'
    assume s: "subs_ok db'" "sub_frame db db'" "sub_ok s" "resets_to c s"
    have skip: "lacks amount c" if "us_AmountTotal s > 0 \<and> i64 (us_AmountTotal s - us_AmountUsed s) < amount"
      by (rule lacks_reset [OF _ s(4)]) (use Cons.prems that remain_exact [OF s(3)] in \<open>auto simp: lacks_def\<close>)
    have here: "within amount s" if "\<not> (us_AmountTotal s > 0 \<and> i64 (us_AmountTotal s - us_AmountUsed s) < amount)"
      using that s(3) remain_exact [OF s(3)] by (auto simp: within_def)
    show "outcome (if us_AmountTotal s > 0 \<and> i64 (us_AmountTotal s - us_AmountUsed s) < amount
        then select_full off now amount subs db' else (Inr (Some s), db'))
      (\<lambda>r db''. subs_ok db'' \<and> sub_frame db db'' \<and> chosen amount (c # subs) r) (\<lambda>_. True)"
    proof (cases "us_AmountTotal s > 0 \<and> i64 (us_AmountTotal s - us_AmountUsed s) < amount")
      case True
      have "outcome (select_full off now amount subs db')
          (\<lambda>r db''. subs_ok db'' \<and> sub_frame db db'' \<and> chosen amount (c # subs) r) (\<lambda>_. True)"
        by (rule outcome_mono [OF IH [OF s(1)]]) (use skip [OF True] s(2) in \<open>auto intro: chosen_skip sub_frame_trans\<close>)
      then show ?thesis by (simp only: True if_True simp_thms)
    next
      case False
      then show ?thesis
        by (simp only: False if_False outcome_simps) (use here [OF False] s in \<open>auto intro: chosen_here\<close>)
    qed
  qed (use Cons.prems in auto)
qed (simp add: sub_frame_unchanged chosen_def)

definition best_ok :: "int \<Rightarrow> (user_subscription \<times> int) option \<Rightarrow> bool" where
  "best_ok amount best \<longleftrightarrow> (\<forall>s n. best = Some (s, n) \<longrightarrow> within n s \<and> 0 < n \<and> n \<le> amount)"

lemma select_partial_spec:
  assumes "subs_ok db" and "\<forall>s \<in> set subs. sub_ok s" and "best_ok amount best" and "0 < amount"
  shows "outcome (select_partial off now amount subs best db)
    (\<lambda>r db'. subs_ok db' \<and> sub_frame db db' \<and> best_ok amount r) (\<lambda>_. True)"
  using assms
proof (induction subs arbitrary: db best)
  case (Cons c subs)
  have IH: "outcome (select_partial off now amount subs b db')
    (\<lambda>r db''. subs_ok db'' \<and> sub_frame db' db'' \<and> best_ok amount r) (\<lambda>_. True)"
    if "subs_ok db'" "best_ok amount b" for db' b
    using Cons.IH [OF that(1) _ that(2)] Cons.prems by simp
  show ?case unfolding select_partial.simps
  proof (rule reset_candidate)
    fix s db'
    assume s: "subs_ok db'" "sub_frame db db'" "sub_ok s" "resets_to c s"
    have go: "outcome (select_partial off now amount subs b db')
      (\<lambda>r db''. subs_ok db'' \<and> sub_frame db db'' \<and> best_ok amount r) (\<lambda>_. True)" if "best_ok amount b" for b
      by (rule outcome_mono [OF IH [OF s(1) that]]) (use s(2) in \<open>auto intro: sub_frame_trans\<close>)
    have new: "best_ok amount (case best of None \<Rightarrow> Some (s, n)
        | Some (b, m) \<Rightarrow> if n > m then Some (s, n) else best)"
      if "us_AmountTotal s > 0" "n = us_AmountTotal s - us_AmountUsed s" "0 < n" "n < amount" for n
      using that s(3) Cons.prems(3) by (auto simp: best_ok_def within_def split: option.split)
    show "outcome (let remain = i64 (us_AmountTotal s - us_AmountUsed s) in
        if us_AmountTotal s > 0 \<and> remain \<le> 0 then select_partial off now amount subs best db'
        else let available = (if us_AmountTotal s > 0 then remain else amount) in
          if available \<ge> amount then (Inr (Some (s, amount)), db')
          else select_partial off now amount subs
            (case best of None \<Rightarrow> Some (s, available)
             | Some (b, n) \<Rightarrow> if available > n then Some (s, available) else best) db')
      (\<lambda>r db''. subs_ok db'' \<and> sub_frame db db'' \<and> best_ok amount r) (\<lambda>_. True)"
    proof (cases "us_AmountTotal s > 0")
      case True
      with s Cons.prems(3,4) show ?thesis
        unfolding Let_def remain_exact [OF s(3) True]
        by (auto simp: best_ok_def [of amount "Some (s, amount)"] within_def intro!: go new)
    next
      case False
      with s Cons.prems(4) show ?thesis by (simp add: best_ok_def within_def)
    qed
  qed (use Cons.prems in auto)
qed (simp add: sub_frame_unchanged)

lemma sub_frame_records_only: "subs_only db (db\<lparr>db_records := r\<rparr>)"
  by (simp add: subs_only_def)

lemma existing_result_spec:
  assumes "subs_ok db"
  shows "outcome (existing_result db r)
    (\<lambda>res db'. unchanged db db' \<and> pr_Status r \<noteq> ''refunded'' \<and> pc_PreConsumed res = pr_PreConsumed r
       \<and> pc_UserSubscriptionId res = pr_UserSubscriptionId r) (unchanged db)"
  using outcome_mono [OF find_sub_ok [OF assms]] by (simp add: existing_result_def)

text \<open>What a fresh pre-consume leaves behind: the record of the request and the charged subscription.\<close>

definition consumed_for :: "billing_db \<Rightarrow> string \<Rightarrow> int \<Rightarrow> preconsume_result \<Rightarrow> bool" where
  "consumed_for db requestId userId res \<longleftrightarrow>
     map_of (db_records db) requestId = Some \<lparr>pr_UserId = userId, pr_UserSubscriptionId = pc_UserSubscriptionId res,
       pr_PreConsumed = pc_PreConsumed res, pr_Status = ''consumed''\<rparr>
     \<and> (\<exists>s. map_of (db_subs db) (pc_UserSubscriptionId res) = Some s \<and> us_AmountUsed s = pc_AmountUsedAfter res
            \<and> us_AmountTotal s = pc_AmountTotal res
            \<and> pc_AmountUsedAfter res = i64 (pc_AmountUsedBefore res + pc_PreConsumed res))"

lemma consume_selected_spec:
  assumes ok: "subs_ok db" and sub: "within n sub" and n: "0 < n" and new: "map_of (db_records db) requestId = None"
  shows "outcome (consume_selected db requestId userId sub n)
    (\<lambda>res db'. subs_ok db' \<and> subs_only db db' \<and> consumed_for db' requestId userId res
       \<and> pc_PreConsumed res = n \<and> pc_UserSubscriptionId res = us_Id sub
       \<and> pc_AmountUsedBefore res = us_AmountUsed sub \<and> pc_AmountTotal res = us_AmountTotal sub) (\<lambda>_. True)"
proof -
  let ?r = "\<lparr>pr_UserId = userId, pr_UserSubscriptionId = us_Id sub, pr_PreConsumed = n, pr_Status = ''consumed''\<rparr>"
  let ?sub = "sub\<lparr>us_AmountUsed := i64 (us_AmountUsed sub + n)\<rparr>"
  let ?Q = "\<lambda>res db'. subs_ok db' \<and> subs_only db db' \<and> consumed_for db' requestId userId res
       \<and> pc_PreConsumed res = n \<and> pc_UserSubscriptionId res = us_Id sub \<and> pc_AmountUsedBefore res = us_AmountUsed sub
       \<and> pc_AmountTotal res = us_AmountTotal sub"
  have sub': "sub_ok ?sub" using sub n by (intro sub_ok_charge) (auto simp: within_def)
  have fresh: "outcome (bnd (save_sub (db1\<lparr>db_records := gput requestId ?r (db_records db1)\<rparr>) ?sub)
      (\<lambda>_ db. (Inr \<lparr>pc_UserSubscriptionId = us_Id sub, pc_PreConsumed = n, pc_AmountTotal = us_AmountTotal sub,
        pc_AmountUsedBefore = us_AmountUsed sub, pc_AmountUsedAfter = i64 (us_AmountUsed sub + n)\<rparr>, db))) ?Q (\<lambda>_. True)"
    if un: "unchanged db db1" for db1
  proof -
    let ?db = "db1\<lparr>db_records := gput requestId ?r (db_records db1)\<rparr>"
    have "subs_ok ?db" using ok subs_ok_cong [of ?db db] unchanged_same(5) [OF un] by simp
    moreover have "subs_only db ?db"
      by (rule subs_only_trans [OF unchanged_subs_only [OF un] sub_frame_records_only])
    ultimately have ok1: "subs_ok ?db" and frame1: "subs_only db ?db" .
    show ?thesis unfolding outcome_simps
    proof (rule outcome_mono [OF save_sub_spec [OF ok1 sub']])
      fix a db2
      assume "subs_ok db2 \<and> sub_frame ?db db2 \<and> db_subs db2 = gput (us_Id ?sub) ?sub (db_subs ?db)"
      then have "subs_ok db2" "subs_only db db2" "db_records db2 = gput requestId ?r (db_records db1)"
        "db_subs db2 = gput (us_Id sub) ?sub (db_subs db1)"
        using subs_only_trans [OF frame1] by (auto simp: sub_frame_def)
      then show "?Q \<lparr>pc_UserSubscriptionId = us_Id sub, pc_PreConsumed = n, pc_AmountTotal = us_AmountTotal sub,
        pc_AmountUsedBefore = us_AmountUsed sub, pc_AmountUsedAfter = i64 (us_AmountUsed sub + n)\<rparr> db2"
        by (simp add: consumed_for_def go_map_simps)
    qed simp
  qed
  show ?thesis
    using fresh [of db] fresh [OF unchanged_faults] new
    by (auto simp: consume_selected_def db_query_def Let_def unchanged_refl
        split: list.split list.splits)
qed

definition preconsumed :: "billing_db \<Rightarrow> string \<Rightarrow> int \<Rightarrow> preconsume_result \<Rightarrow> billing_db \<Rightarrow> bool" where
  "preconsumed db requestId userId res db' \<longleftrightarrow> subs_ok db' \<and> subs_only db db'
     \<and> (case map_of (db_records db) requestId of
          Some r \<Rightarrow> unchanged db db' \<and> pr_Status r \<noteq> ''refunded'' \<and> pc_PreConsumed res = pr_PreConsumed r
            \<and> pc_UserSubscriptionId res = pr_UserSubscriptionId r
        | None \<Rightarrow> consumed_for db' requestId userId res \<and> 0 < pc_PreConsumed res)"

lemma preconsumed_stable:
  assumes "preconsumed db requestId userId res s" and "unchanged s s'"
  shows "preconsumed db requestId userId res s'"
  using assms(1) subs_only_trans [OF _ unchanged_subs_only [OF assms(2)]] unchanged_trans [OF _ assms(2)]
  by (auto simp: preconsumed_def consumed_for_def subs_ok_unchanged [OF assms(2)] unchanged_same [OF assms(2)]
      split: option.splits)

lemma preconsumed_start:
  assumes "unchanged db db1" and "preconsumed db1 requestId userId res s"
  shows "preconsumed db requestId userId res s"
  using assms(2) subs_only_trans [OF unchanged_subs_only [OF assms(1)]] unchanged_trans [OF assms(1)]
  by (auto simp: preconsumed_def unchanged_same(6) [OF assms(1)] split: option.splits)

lemma preconsume_with_spec:
  assumes ok: "subs_ok db"
    and fresh: "\<And>db1. unchanged db db1 \<Longrightarrow> subs_ok db1 \<Longrightarrow> map_of (db_records db1) requestId = None \<Longrightarrow> 0 < amount \<Longrightarrow>
      outcome (fresh db1) (\<lambda>res s. preconsumed db1 requestId userId res s \<and> Q res) (\<lambda>_. True)"
  shows "outcome (preconsume_with fresh db requestId userId amount)
    (\<lambda>res s. preconsumed db requestId userId res s \<and> (map_of (db_records db) requestId = None \<longrightarrow> Q res) \<and> 0 < amount)
    (unchanged db)"
proof -
  let ?Q = "\<lambda>res s. preconsumed db requestId userId res s \<and> (map_of (db_records db) requestId = None \<longrightarrow> Q res)"
  have body: "outcome (bnd (db_query db) (\<lambda>_ db. case map_of (db_records db) requestId of
       Some existing \<Rightarrow> existing_result db existing | None \<Rightarrow> fresh db)) ?Q (\<lambda>_. True)" if "0 < amount"
    unfolding outcome_simps
  proof (rule outcome_queryI)
    fix db1
    assume un: "unchanged db db1"
    then have ok1: "subs_ok db1" using ok by (simp add: subs_ok_unchanged)
    have rec: "db_records db1 = db_records db" using un by (simp add: unchanged_same)
    show "outcome (case map_of (db_records db1) requestId of
       Some existing \<Rightarrow> existing_result db1 existing | None \<Rightarrow> fresh db1) ?Q (\<lambda>_. True)"
    proof (cases "map_of (db_records db1) requestId")
      case None
      show ?thesis unfolding None option.case
        by (rule outcome_mono [OF fresh [OF un ok1 None that]]) (use preconsumed_start [OF un] in auto)
    next
      case (Some r)
      have "outcome (existing_result db1 r) ?Q (\<lambda>_. True)"
      proof (rule outcome_mono [OF existing_result_spec [OF ok1]])
        fix res :: preconsume_result and s
        assume e: "unchanged db1 s \<and> pr_Status r \<noteq> ''refunded'' \<and> pc_PreConsumed res = pr_PreConsumed r
           \<and> pc_UserSubscriptionId res = pr_UserSubscriptionId r"
        then have "unchanged db s" using unchanged_trans [OF un] by simp
        with e show "?Q res s" using Some ok
          by (simp add: preconsumed_def rec subs_ok_unchanged unchanged_subs_only)
      qed simp
      with Some show ?thesis by simp
    qed
  qed simp
  have run: "outcome (transaction db (\<lambda>db. bnd (db_query db) (\<lambda>_ db. case map_of (db_records db) requestId of
       Some existing \<Rightarrow> existing_result db existing | None \<Rightarrow> fresh db))) ?Q (unchanged db)" if "0 < amount"
    by (rule outcome_transaction, rule outcome_mono [OF body [OF that]]) (auto intro: preconsumed_stable)
  show ?thesis
    by (auto simp: preconsume_with_def intro!: outcome_mono [OF run])
qed

lemma active_subs_cong: "db_subs db' = db_subs db \<Longrightarrow> active_subs db' userId now = active_subs db userId now"
  by (simp add: active_subs_def)

lemma PreConsumeUserSubscription_spec:
  assumes "subs_ok db"
  shows "outcome (PreConsumeUserSubscription off now db requestId userId amount)
    (\<lambda>res s. preconsumed db requestId userId res s
       \<and> (map_of (db_records db) requestId = None \<longrightarrow> pc_PreConsumed res = amount
          \<and> (\<exists>s. chosen amount (active_subs db userId now) (Some s) \<and> us_Id s = pc_UserSubscriptionId res
                 \<and> us_AmountUsed s = pc_AmountUsedBefore res \<and> us_AmountTotal s = pc_AmountTotal res)) \<and> 0 < amount)
    (unchanged db)"
  unfolding PreConsumeUserSubscription_def
proof (rule preconsume_with_spec [OF assms])
  fix db1
  assume un1: "unchanged db db1" and ok: "subs_ok db1" and new: "map_of (db_records db1) requestId = None" and pos: "0 < amount"
  let ?Q = "\<lambda>res s. preconsumed db1 requestId userId res s \<and> pc_PreConsumed res = amount
    \<and> (\<exists>s. chosen amount (active_subs db userId now) (Some s) \<and> us_Id s = pc_UserSubscriptionId res
         \<and> us_AmountUsed s = pc_AmountUsedBefore res \<and> us_AmountTotal s = pc_AmountTotal res)"
  have select: "outcome (bnd (select_full off now amount (active_subs db2 userId now) db2) (\<lambda>selected db.
      case selected of Some sub \<Rightarrow> consume_selected db requestId userId sub amount
      | None \<Rightarrow> (Inl SubscriptionInsufficient, db))) ?Q (\<lambda>_. True)" if un: "unchanged db1 db2" for db2
    unfolding outcome_simps
  proof (rule outcome_mono [OF select_full_spec])
    show ok2: "subs_ok db2" using un ok by (simp add: subs_ok_unchanged)
    show "\<forall>s \<in> set (active_subs db2 userId now). sub_ok s" using active_subs_ok [OF ok2] by auto
    fix r db3
    assume r: "subs_ok db3 \<and> sub_frame db2 db3 \<and> chosen amount (active_subs db2 userId now) r"
    have same: "active_subs db2 userId now = active_subs db userId now"
      by (rule active_subs_cong) (simp add: unchanged_same(5) [OF un] unchanged_same(5) [OF un1])
    have within: "within amount sub" if "r = Some sub" for sub using r that by (simp add: chosen_def)
    have frame: "subs_only db1 db3" and new3: "map_of (db_records db3) requestId = None"
      using r un new subs_only_trans [OF unchanged_subs_only [OF un]] by (auto simp: sub_frame_def unchanged_same)
    show "outcome (case r of Some sub \<Rightarrow> consume_selected db3 requestId userId sub amount
      | None \<Rightarrow> (Inl SubscriptionInsufficient, db3)) ?Q (\<lambda>_. True)"
    proof (cases r)
      case (Some sub)
      have "outcome (consume_selected db3 requestId userId sub amount) ?Q (\<lambda>_. True)"
        by (rule outcome_mono [OF consume_selected_spec [OF _ _ pos new3]])
          (use r Some pos new frame same within in \<open>auto simp: preconsumed_def intro: subs_only_trans\<close>)
      with Some show ?thesis by simp
    qed simp
  qed simp
  show "outcome (case db_query db1 of (Inl _, db) \<Rightarrow> (Inl NoActiveSubscription, db)
     | (Inr _, db) \<Rightarrow> (if active_subs db userId now = [] then (Inl NoActiveSubscription, db)
          else bnd (select_full off now amount (active_subs db userId now) db) (\<lambda>selected db.
            case selected of Some sub \<Rightarrow> consume_selected db requestId userId sub amount
            | None \<Rightarrow> (Inl SubscriptionInsufficient, db)))) ?Q (\<lambda>_. True)"
    using select [of db1] select [OF unchanged_faults]
    by (auto simp: db_query_def simp del: outcome_simps(3) split: list.split)
qed

lemma PreConsumeUserSubscriptionPartial_spec:
  assumes "subs_ok db"
  shows "outcome (PreConsumeUserSubscriptionPartial off now db requestId userId amount)
    (\<lambda>res s. preconsumed db requestId userId res s
       \<and> (map_of (db_records db) requestId = None \<longrightarrow> pc_PreConsumed res \<le> amount) \<and> 0 < amount) (unchanged db)"
  unfolding PreConsumeUserSubscriptionPartial_def
proof (rule preconsume_with_spec [OF assms])
  fix db1
  assume "unchanged db db1" and ok: "subs_ok db1" and new: "map_of (db_records db1) requestId = None" and pos: "0 < amount"
  let ?Q = "\<lambda>res s. preconsumed db1 requestId userId res s \<and> pc_PreConsumed res \<le> amount"
  have select: "outcome (bnd (select_partial off now amount (active_subs db2 userId now) None db2) (\<lambda>selected db.
      case selected of Some (sub, n) \<Rightarrow> if n > 0 then consume_selected db requestId userId sub n
                                       else (Inl SubscriptionInsufficient, db)
      | None \<Rightarrow> (Inl SubscriptionInsufficient, db))) ?Q (\<lambda>_. True)" if un: "unchanged db1 db2" for db2
    unfolding outcome_simps
  proof (rule outcome_mono [OF select_partial_spec])
    show ok2: "subs_ok db2" using un ok by (simp add: subs_ok_unchanged)
    show "\<forall>s \<in> set (active_subs db2 userId now). sub_ok s" using active_subs_ok [OF ok2] by auto
    show "best_ok amount None" "0 < amount" using pos by (simp_all add: best_ok_def)
    fix r db3
    assume r: "subs_ok db3 \<and> sub_frame db2 db3 \<and> best_ok amount r"
    then have frame: "subs_only db1 db3" and new3: "map_of (db_records db3) requestId = None"
      using un new subs_only_trans [OF unchanged_subs_only [OF un]] by (auto simp: sub_frame_def unchanged_same)
    show "outcome (case r of Some (sub, n) \<Rightarrow> if n > 0 then consume_selected db3 requestId userId sub n
                                       else (Inl SubscriptionInsufficient, db3)
      | None \<Rightarrow> (Inl SubscriptionInsufficient, db3)) ?Q (\<lambda>_. True)"
    proof (cases r)
      case (Some p)
      obtain sub n where p: "p = (sub, n)" by (cases p)
      have n: "within n sub" "0 < n" "n \<le> amount" using r Some p by (auto simp: best_ok_def)
      have "outcome (consume_selected db3 requestId userId sub n) ?Q (\<lambda>_. True)"
        by (rule outcome_mono [OF consume_selected_spec [OF _ n(1,2) new3]])
          (use r n new frame in \<open>auto simp: preconsumed_def intro: subs_only_trans\<close>)
      with Some p n show ?thesis by simp
    qed simp
  qed simp
  show "outcome (case db_query db1 of (Inl _, db) \<Rightarrow> (Inl NoActiveSubscription, db)
     | (Inr _, db) \<Rightarrow> (if active_subs db userId now = [] then (Inl NoActiveSubscription, db)
          else bnd (select_partial off now amount (active_subs db userId now) None db) (\<lambda>selected db.
            case selected of Some (sub, n) \<Rightarrow> if n > 0 then consume_selected db requestId userId sub n
                                 else (Inl SubscriptionInsufficient, db)
            | None \<Rightarrow> (Inl SubscriptionInsufficient, db)))) ?Q (\<lambda>_. True)"
    using select [of db1] select [OF unchanged_faults]
    by (auto simp: db_query_def simp del: outcome_simps(3) split: list.split)
qed

text \<open>The used amount of subscription \<open>k\<close> has become \<open>n\<close>, and nothing else has changed.\<close>

definition used_set :: "billing_db \<Rightarrow> int \<Rightarrow> int \<Rightarrow> billing_db \<Rightarrow> bool" where
  "used_set db k n db' \<longleftrightarrow> subs_ok db' \<and> sub_frame db db'
     \<and> (\<exists>s. map_of (db_subs db) k = Some s \<and> db_subs db' = gput k (s\<lparr>us_AmountUsed := n\<rparr>) (db_subs db))"

lemma used_set_stable: "used_set db k n s \<Longrightarrow> unchanged s s' \<Longrightarrow> used_set db k n s'"
  unfolding used_set_def
  by (metis sub_frame_trans sub_frame_unchanged subs_ok_unchanged unchanged_same(5))

lemma used_set_start: "unchanged db db1 \<Longrightarrow> used_set db1 k n s \<Longrightarrow> used_set db k n s"
  unfolding used_set_def
  by (metis sub_frame_trans sub_frame_unchanged unchanged_same(5))

definition sub_used :: "billing_db \<Rightarrow> int \<Rightarrow> int" where
  "sub_used db k = (case map_of (db_subs db) k of None \<Rightarrow> 0 | Some s \<Rightarrow> us_AmountUsed s)"

definition sub_total :: "billing_db \<Rightarrow> int \<Rightarrow> int" where
  "sub_total db k = (case map_of (db_subs db) k of None \<Rightarrow> 0 | Some s \<Rightarrow> us_AmountTotal s)"

definition has_sub :: "billing_db \<Rightarrow> int \<Rightarrow> bool" where
  "has_sub db k \<longleftrightarrow> map_of (db_subs db) k \<noteq> None"

lemma used_set_used:
  assumes "used_set db k n db'"
  shows "sub_used db' = (sub_used db)(k := n)" "sub_total db' = sub_total db" "has_sub db' = has_sub db" "has_sub db k"
    "db_records db' = db_records db" "subs_only db db'" "subs_ok db'"
  using assms by (auto simp: used_set_def sub_frame_def sub_used_def sub_total_def has_sub_def go_map_simps fun_eq_iff
      split: if_splits)

lemma save_used:
  assumes "subs_ok db" and "map_of (db_subs db) k = Some s" and "sub_ok (s\<lparr>us_AmountUsed := n\<rparr>)"
  shows "outcome (save_sub db (s\<lparr>us_AmountUsed := n\<rparr>)) (\<lambda>_. used_set db k n) (unchanged db)"
  by (rule outcome_mono [OF save_sub_spec [OF assms(1,3)]])
    (use assms subs_okD [OF assms(1,2)] in \<open>auto simp: used_set_def\<close>)

lemma PostConsumeUserSubscriptionDelta_spec:
  assumes ok: "subs_ok db"
  shows "outcome (PostConsumeUserSubscriptionDelta db k d)
    (\<lambda>_ db'. d = 0 \<and> db' = db \<or> d \<noteq> 0 \<and> used_set db k (max 0 (i64 (sub_used db k + d))) db'
       \<and> (0 < sub_total db k \<longrightarrow> max 0 (i64 (sub_used db k + d)) \<le> sub_total db k)) (unchanged db)"
proof -
  let ?n = "max 0 (i64 (sub_used db k + d))"
  let ?Q = "\<lambda>_ db'. used_set db k ?n db' \<and> (0 < sub_total db k \<longrightarrow> ?n \<le> sub_total db k)"
  have body: "outcome (bnd (find_sub db k) (\<lambda>sub db.
          let newUsed = i64 (us_AmountUsed sub + d); newUsed = (if newUsed < 0 then 0 else newUsed)
          in if us_AmountTotal sub > 0 \<and> newUsed > us_AmountTotal sub then (Inl UsedExceedsTotal, db)
             else save_sub db (sub\<lparr>us_AmountUsed := newUsed\<rparr>))) ?Q (\<lambda>_. True)"
    unfolding outcome_simps
  proof (rule outcome_mono [OF find_sub_ok [OF ok]])
    fix sub db1
    assume a: "unchanged db db1 \<and> map_of (db_subs db) k = Some sub \<and> us_Id sub = k \<and> sub_ok sub"
    then have u: "sub_used db k = us_AmountUsed sub" "sub_total db k = us_AmountTotal sub"
      by (auto simp: sub_used_def sub_total_def)
    have n: "(if i64 (us_AmountUsed sub + d) < 0 then 0 else i64 (us_AmountUsed sub + d)) = ?n" by (simp add: u)
    have row: "map_of (db_subs db1) k = Some sub" and ok1: "subs_ok db1"
      using a ok by (auto simp: unchanged_same subs_ok_unchanged)
    have saved: "outcome (save_sub db1 (sub\<lparr>us_AmountUsed := ?n\<rparr>)) ?Q (\<lambda>_. True)"
      if "0 < us_AmountTotal sub \<longrightarrow> ?n \<le> us_AmountTotal sub"
      by (rule outcome_mono [OF save_used [OF ok1 row]])
        (use a that u in \<open>auto simp: sub_ok_def intro: used_set_start\<close>)
    show "outcome (let newUsed = i64 (us_AmountUsed sub + d); newUsed = (if newUsed < 0 then 0 else newUsed)
          in if us_AmountTotal sub > 0 \<and> newUsed > us_AmountTotal sub then (Inl UsedExceedsTotal, db1)
             else save_sub db1 (sub\<lparr>us_AmountUsed := newUsed\<rparr>)) ?Q (\<lambda>_. True)"
      unfolding Let_def n
    proof (cases "us_AmountTotal sub > 0 \<and> ?n > us_AmountTotal sub")
      case False
      then have "0 < us_AmountTotal sub \<longrightarrow> ?n \<le> us_AmountTotal sub" by linarith
      from saved [OF this] show "outcome (if us_AmountTotal sub > 0 \<and> ?n > us_AmountTotal sub
          then (Inl UsedExceedsTotal, db1) else save_sub db1 (sub\<lparr>us_AmountUsed := ?n\<rparr>)) ?Q (\<lambda>_. True)"
        by (simp only: False if_False)
    qed simp
  qed simp
  have run: "outcome (transaction db (\<lambda>db. bnd (find_sub db k) (\<lambda>sub db.
          let newUsed = i64 (us_AmountUsed sub + d); newUsed = (if newUsed < 0 then 0 else newUsed)
          in if us_AmountTotal sub > 0 \<and> newUsed > us_AmountTotal sub then (Inl UsedExceedsTotal, db)
             else save_sub db (sub\<lparr>us_AmountUsed := newUsed\<rparr>)))) ?Q (unchanged db)"
    by (rule outcome_transaction, rule outcome_mono [OF body]) (auto intro: used_set_stable)
  show ?thesis
    by (auto simp: PostConsumeUserSubscriptionDelta_def intro!: outcome_mono [OF run])
qed

lemma PostConsumeUserSubscriptionDelta_run:
  assumes "db_faults db = []" and "0 < k" and "map_of (db_subs db) k = Some s" and "d \<noteq> 0"
    and "n = max 0 (i64 (us_AmountUsed s + d))" and "0 < us_AmountTotal s \<longrightarrow> n \<le> us_AmountTotal s"
  shows "PostConsumeUserSubscriptionDelta db k d =
    (Inr (), db\<lparr>db_subs := gput (us_Id s) (s\<lparr>us_AmountUsed := n\<rparr>) (db_subs db)\<rparr>)"
proof -
  have "(if i64 (us_AmountUsed s + d) < 0 then 0 else i64 (us_AmountUsed s + d)) = n" using assms(5) by simp
  moreover have "\<not> (0 < us_AmountTotal s \<and> us_AmountTotal s < n)" using assms(6) by auto
  ultimately show ?thesis
    using assms(1-4)
    by (simp add: PostConsumeUserSubscriptionDelta_def transaction_def find_sub_def save_sub_def db_query_def Let_def)
qed

definition affordable :: "billing_db \<Rightarrow> int \<Rightarrow> int \<Rightarrow> int" where
  "affordable db k d = (if 0 < sub_total db k then min d (sub_total db k - sub_used db k) else d)"

lemma PostConsumeUserSubscriptionDeltaAvailable_spec:
  assumes ok: "subs_ok db"
  shows "outcome (PostConsumeUserSubscriptionDeltaAvailable db k d)
    (\<lambda>n db'. d \<le> 0 \<and> n = 0 \<and> db' = db \<or>
       0 < d \<and> n = affordable db k d \<and> 0 \<le> n \<and>
       (n = 0 \<and> unchanged db db' \<or> 0 < n \<and> used_set db k (i64 (sub_used db k + n)) db')) (unchanged db)"
proof -
  let ?Q = "\<lambda>n db'. n = affordable db k d \<and> 0 \<le> n \<and>
       (n = 0 \<and> unchanged db db' \<or> 0 < n \<and> used_set db k (i64 (sub_used db k + n)) db')"
  let ?body = "\<lambda>db. bnd (find_sub db k) (\<lambda>sub db.
          let remain = i64 (us_AmountTotal sub - us_AmountUsed sub) in
          if us_AmountTotal sub > 0 \<and> remain \<le> 0 then (Inr 0, db)
          else let consumeAmount = (if us_AmountTotal sub > 0 \<and> remain < d then remain else d)
               in bnd (save_sub db (sub\<lparr>us_AmountUsed := i64 (us_AmountUsed sub + consumeAmount)\<rparr>))
                    (\<lambda>_ db. (Inr consumeAmount, db)))"
  have body: "outcome (?body db) ?Q (\<lambda>_. True)" if pos: "0 < d"
    unfolding outcome_simps
  proof (rule outcome_mono [OF find_sub_ok [OF ok]])
    fix sub db1
    assume a: "unchanged db db1 \<and> map_of (db_subs db) k = Some sub \<and> us_Id sub = k \<and> sub_ok sub"
    then have u: "sub_used db k = us_AmountUsed sub" "sub_total db k = us_AmountTotal sub"
      by (auto simp: sub_used_def sub_total_def)
    have row: "map_of (db_subs db1) k = Some sub" and ok1: "subs_ok db1"
      using a ok by (auto simp: unchanged_same subs_ok_unchanged)
    have saved: "outcome (bnd (save_sub db1 (sub\<lparr>us_AmountUsed := i64 (us_AmountUsed sub + n)\<rparr>))
        (\<lambda>_ db. (Inr n, db))) ?Q (\<lambda>_. True)" if "n = affordable db k d" "0 < n" for n
      unfolding outcome_simps
      by (rule outcome_mono [OF save_used [OF ok1 row]], rule sub_ok_charge)
        (use a that u in \<open>auto simp: affordable_def intro: used_set_start\<close>)
    show "outcome (let remain = i64 (us_AmountTotal sub - us_AmountUsed sub) in
          if us_AmountTotal sub > 0 \<and> remain \<le> 0 then (Inr 0, db1)
          else let consumeAmount = (if us_AmountTotal sub > 0 \<and> remain < d then remain else d)
               in bnd (save_sub db1 (sub\<lparr>us_AmountUsed := i64 (us_AmountUsed sub + consumeAmount)\<rparr>))
                    (\<lambda>_ db. (Inr consumeAmount, db))) ?Q (\<lambda>_. True)"
    proof (cases "us_AmountTotal sub > 0")
      case True
      have full: "us_AmountTotal sub \<ge> us_AmountUsed sub" using a True by (simp add: sub_ok_def)
      show ?thesis
      proof (cases "us_AmountTotal sub = us_AmountUsed sub")
        case same: True
        then show ?thesis using True a pos i64_id [of 0]
          by (simp add: affordable_def u Let_def in_i64_def)
      next
        case False
        then have "(if us_AmountTotal sub > 0 \<and> us_AmountTotal sub - us_AmountUsed sub < d
            then us_AmountTotal sub - us_AmountUsed sub else d) = affordable db k d"
          using True by (auto simp: affordable_def u)
        with False full True a pos saved [OF refl] show ?thesis
          by (simp add: remain_exact Let_def del: outcome_simps(3)) (simp add: affordable_def u)
      qed
    next
      case False
      then have "affordable db k d = d" by (simp add: affordable_def u)
      with False saved [OF refl] pos show ?thesis by (simp add: Let_def del: outcome_simps(3))
    qed
  qed simp
  have run: "outcome (transaction db ?body) ?Q (unchanged db)" if "0 < d"
    by (rule outcome_transaction, rule outcome_mono [OF body [OF that]])
      (auto intro: used_set_stable unchanged_trans)
  show ?thesis
    unfolding PostConsumeUserSubscriptionDeltaAvailable_def
    by (auto simp del: outcome_simps(3) intro!: outcome_mono [OF run])
qed

lemma save_record_frame:
  "outcome (save_record db requestId r)
    (\<lambda>_ db'. subs_only db db' \<and> db_subs db' = db_subs db \<and> db_records db' = gput requestId r (db_records db)) (unchanged db)"
  by (auto simp: save_record_def subs_only_def split: list.split)

lemma RefundSubscriptionPreConsume_ok:
  assumes ok: "subs_ok db"
  shows "outcome (RefundSubscriptionPreConsume db requestId) (\<lambda>_ s. subs_ok s \<and> subs_only db s) (\<lambda>s. subs_ok s \<and> subs_only db s)"
proof -
  have tx: "outcome (transaction db1 (\<lambda>db. save_record db requestId r)) (\<lambda>_ s. subs_ok s \<and> subs_only db s)
      (\<lambda>s. subs_ok s \<and> subs_only db s)" if "subs_ok db1" "subs_only db db1" for db1 r
    by (rule outcome_transaction, rule outcome_mono [OF save_record_frame])
      (use that in \<open>auto simp: subs_ok_unchanged intro: subs_only_trans unchanged_subs_only subs_ok_cong [THEN iffD2]\<close>)
  have post: "outcome (PostConsumeUserSubscriptionDelta db1 k d) (\<lambda>_ s. subs_ok s \<and> subs_only db s)
      (\<lambda>s. subs_ok s \<and> subs_only db s)" if "subs_ok db1" "subs_only db db1" for db1 k d
    by (rule outcome_mono [OF PostConsumeUserSubscriptionDelta_spec [OF that(1)]])
      (use that in \<open>auto simp: subs_ok_unchanged dest: used_set_used(6,7) intro: subs_only_trans unchanged_subs_only\<close>)
  have main: "outcome (case map_of (db_records db1) requestId of
          None \<Rightarrow> (Inl RecordNotFound, db1)
        | Some r \<Rightarrow>
            if pr_Status r = ''refunded'' then transaction db1 (\<lambda>db. (Inr (), db))
            else if pr_PreConsumed r \<le> 0
              then transaction db1 (\<lambda>db. save_record db requestId (r\<lparr>pr_Status := ''refunded''\<rparr>))
            else bnd (PostConsumeUserSubscriptionDelta db1 (pr_UserSubscriptionId r) (- pr_PreConsumed r)) (\<lambda>_ db.
              transaction db (\<lambda>db. save_record db requestId (r\<lparr>pr_Status := ''refunded''\<rparr>))))
     (\<lambda>_ s. subs_ok s \<and> subs_only db s) (\<lambda>s. subs_ok s \<and> subs_only db s)"
    if a: "subs_ok db1" "subs_only db db1" for db1
  proof -
    have "outcome (transaction db1 (\<lambda>db. (Inr (), db))) (\<lambda>_ s. subs_ok s \<and> subs_only db s) (\<lambda>s. subs_ok s \<and> subs_only db s)"
      by (rule outcome_transaction) (use a in \<open>auto simp: subs_ok_unchanged intro: subs_only_trans unchanged_subs_only\<close>)
    then show ?thesis using a tx
      by (auto split: option.split intro!: outcome_mono [OF post])
  qed
  show ?thesis
    unfolding RefundSubscriptionPreConsume_def
    by (auto simp: ok intro!: outcome_queryI main simp del: outcome_query)
      (auto simp: ok subs_ok_unchanged intro: unchanged_subs_only)
qed

lemma PostConsumeUserSubscriptionDelta_return:
  assumes "db_faults db = []" and "0 < k" and "map_of (db_subs db) k = Some s" and "us_Id s = k"
    and "0 < n" and "n \<le> us_AmountUsed s" and "us_AmountUsed s < 2 ^ 63"
    and "0 < us_AmountTotal s \<longrightarrow> us_AmountUsed s \<le> us_AmountTotal s"
  shows "PostConsumeUserSubscriptionDelta db k (- n) =
    (Inr (), db\<lparr>db_subs := gput k (s\<lparr>us_AmountUsed := us_AmountUsed s - n\<rparr>) (db_subs db)\<rparr>)"
proof -
  have "i64 (us_AmountUsed s + - n) = us_AmountUsed s - n"
    using assms(5-7) by (subst i64_id) (auto simp: in_i64_def)
  then have new: "us_AmountUsed s - n = max 0 (i64 (us_AmountUsed s + - n))" using assms(6) by simp
  show ?thesis
    using PostConsumeUserSubscriptionDelta_run [OF assms(1-3) _ new] assms(4-8) by auto
qed

text \<open>The refund of a request when no query fails and the books still hold what was charged.\<close>

definition refundable :: "billing_db \<Rightarrow> string \<Rightarrow> int \<Rightarrow> int \<Rightarrow> bool" where
  "refundable db requestId k n \<longleftrightarrow> TrimSpace requestId \<noteq> [] \<and> 0 < k \<and> 0 < n
     \<and> (\<exists>r. map_of (db_records db) requestId = Some r \<and> pr_Status r \<noteq> ''refunded'' \<and> pr_UserSubscriptionId r = k
          \<and> pr_PreConsumed r = n)
     \<and> (\<exists>s. map_of (db_subs db) k = Some s \<and> us_Id s = k \<and> n \<le> us_AmountUsed s \<and> us_AmountUsed s < 2 ^ 63
          \<and> (0 < us_AmountTotal s \<longrightarrow> us_AmountUsed s \<le> us_AmountTotal s))"

lemma RefundSubscriptionPreConsume_run:
  assumes "db_faults db = []" and "refundable db requestId k n"
  shows "\<exists>db'. RefundSubscriptionPreConsume db requestId = (Inr (), db') \<and> db_faults db' = [] \<and> subs_only db db'
    \<and> (\<exists>s. map_of (db_subs db) k = Some s \<and> db_subs db' = gput k (s\<lparr>us_AmountUsed := us_AmountUsed s - n\<rparr>) (db_subs db))
    \<and> (\<exists>r. map_of (db_records db) requestId = Some r
         \<and> db_records db' = gput requestId (r\<lparr>pr_Status := ''refunded''\<rparr>) (db_records db))"
proof -
  obtain r s where r: "map_of (db_records db) requestId = Some r" "pr_Status r \<noteq> ''refunded''"
      "pr_UserSubscriptionId r = k" "pr_PreConsumed r = n"
    and s: "map_of (db_subs db) k = Some s" "us_Id s = k" "n \<le> us_AmountUsed s" "us_AmountUsed s < 2 ^ 63"
      "0 < us_AmountTotal s \<longrightarrow> us_AmountUsed s \<le> us_AmountTotal s"
    and guards: "TrimSpace requestId \<noteq> []" "0 < k" "0 < n"
    using assms(2) by (auto simp: refundable_def)
  from PostConsumeUserSubscriptionDelta_return [OF assms(1) guards(2) s(1,2) guards(3) s(3-5)]
  show ?thesis
    using r s guards assms(1)
    by (simp add: RefundSubscriptionPreConsume_def transaction_def save_record_def db_query_def subs_only_def)
qed

section \<open>Quotas of users and tokens\<close>

definition user_moved :: "billing_db \<Rightarrow> int \<Rightarrow> int \<Rightarrow> billing_db \<Rightarrow> bool" where
  "user_moved db u n db' \<longleftrightarrow> users_only db db'
     \<and> (has_user db u \<longrightarrow> user_funds db' = (user_funds db)(u := user_funds db u + n))"

definition token_moved :: "billing_db \<Rightarrow> int \<Rightarrow> int \<Rightarrow> billing_db \<Rightarrow> bool" where
  "token_moved db t n db' \<longleftrightarrow> tokens_only db db'
     \<and> (has_token db t \<longrightarrow> token_funds db' = (token_funds db)(t := token_funds db t + n))"

lemma gcount_addNewRecord [go_map_simps]:
  "gcount (addNewRecord m k n) j = gcount m j + (if j = k then n else 0)"
  by (auto simp: addNewRecord_def gcount_def go_map_simps split: option.split)

lemma add_user_quota_moved: "user_moved db u n ((add_user_quota db u n)\<lparr>db_faults := fs\<rparr>)"
  by (auto simp: add_user_quota_def user_moved_def users_only_def user_funds_def has_user_def gcount_def
      go_map_simps fun_eq_iff split: option.split)

lemma add_token_quota_moved: "token_moved db t n ((add_token_quota db t n)\<lparr>db_faults := fs\<rparr>)"
  by (auto simp: add_token_quota_def token_moved_def tokens_only_def token_funds_def has_token_def
      go_map_simps fun_eq_iff split: option.split)

lemma batch_user_moved: "user_moved db u n (db\<lparr>db_userBatch := addNewRecord (db_userBatch db) u n\<rparr>)"
  by (auto simp: user_moved_def users_only_def user_funds_def has_user_def go_map_simps fun_eq_iff)

lemma batch_token_moved: "token_moved db t n (db\<lparr>db_tokenBatch := addNewRecord (db_tokenBatch db) t n\<rparr>)"
  by (auto simp: token_moved_def tokens_only_def token_funds_def has_token_def go_map_simps fun_eq_iff)

lemma add_quota_faults:
  "add_user_quota (db\<lparr>db_faults := fs\<rparr>) u n = (add_user_quota db u n)\<lparr>db_faults := fs\<rparr>"
  "add_token_quota (db\<lparr>db_faults := fs\<rparr>) u n = (add_token_quota db u n)\<lparr>db_faults := fs\<rparr>"
  by (simp_all add: add_user_quota_def add_token_quota_def split: option.split)

lemma add_quota_id:
  "(add_user_quota db u n)\<lparr>db_faults := db_faults db\<rparr> = add_user_quota db u n"
  "(add_token_quota db u n)\<lparr>db_faults := db_faults db\<rparr> = add_token_quota db u n"
  by (simp_all add: add_user_quota_def add_token_quota_def split: option.split)

lemma update_user_spec:
  "outcome (increaseUserQuota db u n) (\<lambda>_. user_moved db u n) (unchanged db)"
  "outcome (decreaseUserQuota db u n) (\<lambda>_. user_moved db u (- n)) (unchanged db)"
  using add_user_quota_moved [of db u n "db_faults db"] add_user_quota_moved [of db u "- n" "db_faults db"]
  by (auto simp: increaseUserQuota_def decreaseUserQuota_def add_quota_faults add_quota_id add_user_quota_moved
      split: list.split)

lemma update_token_spec:
  "outcome (increaseTokenQuota db u n) (\<lambda>_. token_moved db u n) (unchanged db)"
  "outcome (decreaseTokenQuota db u n) (\<lambda>_. token_moved db u (- n)) (unchanged db)"
  using add_token_quota_moved [of db u n "db_faults db"] add_token_quota_moved [of db u "- n" "db_faults db"]
  by (auto simp: increaseTokenQuota_def decreaseTokenQuota_def add_quota_faults add_quota_id add_token_quota_moved
      split: list.split)

lemma quota_specs:
  "outcome (IncreaseUserQuota db u n) (\<lambda>_ s. 0 \<le> n \<and> user_moved db u n s) (unchanged db)"
  "outcome (DecreaseUserQuota db u n) (\<lambda>_ s. 0 \<le> n \<and> user_moved db u (- n) s) (unchanged db)"
  "outcome (IncreaseTokenQuota db u n) (\<lambda>_ s. 0 \<le> n \<and> token_moved db u n s) (unchanged db)"
  "outcome (DecreaseTokenQuota db u n) (\<lambda>_ s. 0 \<le> n \<and> token_moved db u (- n) s) (unchanged db)"
  by (auto simp: IncreaseUserQuota_def DecreaseUserQuota_def IncreaseTokenQuota_def DecreaseTokenQuota_def
      batch_user_moved batch_token_moved
      intro!: outcome_mono [OF update_user_spec(1)] outcome_mono [OF update_user_spec(2)]
        outcome_mono [OF update_token_spec(1)] outcome_mono [OF update_token_spec(2)])

text \<open>Nothing is lost by batching: a flush whose queries all succeed moves what is pending into the rows.\<close>

lemma no_faults:
  "db_faults db = [] \<Longrightarrow> increaseUserQuota db u n = (Inr (), add_user_quota db u n)"
  "db_faults db = [] \<Longrightarrow> increaseTokenQuota db u n = (Inr (), add_token_quota db u n)"
  by (simp_all add: increaseUserQuota_def increaseTokenQuota_def db_query_def)

lemma add_user_quota_funds:
  "has_user db k \<Longrightarrow> user_funds (add_user_quota db k v) u = user_funds db u + (if u = k then v else 0)"
  "has_user (add_user_quota db k v) = has_user db"
  "db_faults (add_user_quota db k v) = db_faults db" "db_userBatch (add_user_quota db k v) = db_userBatch db"
  "db_tokenBatch (add_user_quota db k v) = db_tokenBatch db" "token_funds (add_user_quota db k v) = token_funds db"
  "has_token (add_user_quota db k v) = has_token db" "db_subs (add_user_quota db k v) = db_subs db"
  by (auto simp: add_user_quota_def user_funds_def token_funds_def has_user_def has_token_def gcount_def go_map_simps
      fun_eq_iff split: option.split if_splits)

lemma add_token_quota_funds:
  "has_token db k \<Longrightarrow> token_funds (add_token_quota db k v) u = token_funds db u + (if u = k then v else 0)"
  "has_token (add_token_quota db k v) = has_token db"
  "db_faults (add_token_quota db k v) = db_faults db" "user_funds (add_token_quota db k v) = user_funds db"
  "db_subs (add_token_quota db k v) = db_subs db"
  "db_userBatch (add_token_quota db k v) = db_userBatch db" "db_tokenBatch (add_token_quota db k v) = db_tokenBatch db"
  by (auto simp: add_token_quota_def token_funds_def user_funds_def has_token_def go_map_simps fun_eq_iff
      split: option.split if_splits)

lemma gcount_Cons:
  assumes "gwf ((k, v) # store)"
  shows "gcount ((k, v) # store) u = gcount store u + (if u = k then v else 0)"
proof -
  have "map_of store k = None" using assms by (simp add: gwf_def map_of_eq_None_iff)
  then show ?thesis by (simp add: gcount_def)
qed

lemma flush_users_funds:
  assumes "db_faults db = []" and "list_all (\<lambda>(k, v). has_user db k) store" and "gwf store"
  shows "user_funds (flush_users store db) u = user_funds db u + gcount store u
    \<and> token_funds (flush_users store db) = token_funds db \<and> has_token (flush_users store db) = has_token db
    \<and> db_tokenBatch (flush_users store db) = db_tokenBatch db \<and> db_faults (flush_users store db) = []
    \<and> db_userBatch (flush_users store db) = db_userBatch db"
  using assms
proof (induction store db rule: flush_users.induct)
  case (2 k v store db)
  show ?case
    using "2.IH" "2.prems" gcount_Cons [OF "2.prems"(3)]
    by (auto simp: no_faults add_user_quota_funds gwf_def)
qed simp

lemma flush_tokens_funds:
  assumes "db_faults db = []" and "list_all (\<lambda>(k, v). has_token db k) store" and "gwf store"
  shows "token_funds (flush_tokens store db) u = token_funds db u + gcount store u
    \<and> user_funds (flush_tokens store db) = user_funds db
    \<and> db_userBatch (flush_tokens store db) = db_userBatch db \<and> db_tokenBatch (flush_tokens store db) = db_tokenBatch db"
  using assms
proof (induction store db rule: flush_tokens.induct)
  case (2 k v store db)
  show ?case
    using "2.IH" "2.prems" gcount_Cons [OF "2.prems"(3)]
    by (auto simp: no_faults add_token_quota_funds gwf_def)
qed simp

section \<open>Sequences of operations\<close>

lemma subs_ok_frames:
  "subs_ok db \<Longrightarrow> user_moved db u n db' \<Longrightarrow> subs_ok db'"
  "subs_ok db \<Longrightarrow> token_moved db u n db' \<Longrightarrow> subs_ok db'"
  by (auto simp: user_moved_def token_moved_def users_only_same tokens_only_same elim!: subs_ok_cong [THEN iffD2, rotated])

lemma reset_due_ok:
  assumes "subs_ok db"
  shows "outcome (reset_due off now subs db n) (\<lambda>_. subs_ok) subs_ok"
  using assms
proof (induction subs arbitrary: db n)
  case (Cons sub subs)
  have lock: "outcome (transaction db1 (\<lambda>db. case db_query db of
        (Inl _, db) \<Rightarrow> (Inr 0, db)
      | (Inr _, db) \<Rightarrow>
          (case map_of (db_subs db) (us_Id sub) of
             None \<Rightarrow> (Inr 0, db)
           | Some locked \<Rightarrow>
               if us_NextResetTime locked > 0 \<and> us_NextResetTime locked \<le> now
               then bnd (maybeResetUserSubscriptionWithPlanTx off db locked plan now) (\<lambda>_ db. (Inr 1, db))
               else (Inr 0, db)))) (\<lambda>_. subs_ok) subs_ok" (is "outcome (transaction db1 ?body) _ _")
    if ok: "subs_ok db1" for db1 plan
  proof (rule outcome_transaction)
    have row: "outcome (case map_of (db_subs db2) (us_Id sub) of None \<Rightarrow> (Inr 0, db2)
         | Some locked \<Rightarrow> if us_NextResetTime locked > 0 \<and> us_NextResetTime locked \<le> now
               then bnd (maybeResetUserSubscriptionWithPlanTx off db2 locked plan now) (\<lambda>_ db. (Inr 1, db))
               else (Inr 0, db2)) (\<lambda>_. subs_ok) (\<lambda>_. True)" if "subs_ok db2" for db2
      using that subs_okD [OF that]
      by (auto split: option.split intro!: outcome_mono [OF maybeReset_spec])
    have "outcome (?body db1) (\<lambda>_. subs_ok) (\<lambda>_. True)"
      using row [OF ok] row [of "db1\<lparr>db_faults := fs\<rparr>" for fs] ok
      by (auto simp: db_query_def subs_ok_unchanged [OF unchanged_faults] split: list.split)
    then show "outcome (?body db1) (\<lambda>_ s. \<forall>s'. unchanged s s' \<longrightarrow> subs_ok s') (\<lambda>_. True)"
      by (rule outcome_mono) (auto simp: subs_ok_unchanged)
  qed (use ok in \<open>simp add: subs_ok_unchanged\<close>)
  have plan: "unchanged db (snd (getSubscriptionPlanByIdTx db k))" for k
    using plan_unchanged [of db k] by (auto simp: outcome_snd [symmetric] elim: outcome_mono)
  obtain r db1 where p: "getSubscriptionPlanByIdTx db (us_PlanId sub) = (r, db1)" by fastforce
  then have ok1: "subs_ok db1" using plan [of "us_PlanId sub"] Cons.prems by (simp add: subs_ok_unchanged)
  show ?case
  proof (cases r)
    case (Inr pl)
    have "outcome (bnd (transaction db1 (\<lambda>db. case db_query db of
        (Inl _, db) \<Rightarrow> (Inr 0, db)
      | (Inr _, db) \<Rightarrow>
          (case map_of (db_subs db) (us_Id sub) of
             None \<Rightarrow> (Inr 0, db)
           | Some locked \<Rightarrow>
               if us_NextResetTime locked > 0 \<and> us_NextResetTime locked \<le> now
               then bnd (maybeResetUserSubscriptionWithPlanTx off db locked pl now) (\<lambda>_ db. (Inr 1, db))
               else (Inr 0, db)))) (\<lambda>k db. reset_due off now subs db (n + k))) (\<lambda>_. subs_ok) subs_ok"
      unfolding outcome_simps by (rule outcome_mono [OF lock [OF ok1]]) (auto intro: Cons.IH)
    with p Inr show ?thesis by (simp del: outcome_simps(3))
  qed (use p Cons.IH [OF ok1] in simp)
qed simp

inductive store_step :: "billing_db \<Rightarrow> billing_db \<Rightarrow> bool" where
  increase_user: "store_step db (snd (IncreaseUserQuota db u n))"
| decrease_user: "store_step db (snd (DecreaseUserQuota db u n))"
| increase_token: "store_step db (snd (IncreaseTokenQuota db t n))"
| decrease_token: "store_step db (snd (DecreaseTokenQuota db t n))"
| flush: "store_step db (batchUpdate db)"
| pre_consume: "store_step db (snd (PreConsumeUserSubscription off now db requestId userId n))"
| pre_consume_partial: "store_step db (snd (PreConsumeUserSubscriptionPartial off now db requestId userId n))"
| post_consume: "store_step db (snd (PostConsumeUserSubscriptionDelta db k d))"
| post_consume_available: "store_step db (snd (PostConsumeUserSubscriptionDeltaAvailable db k d))"
| refund: "store_step db (snd (RefundSubscriptionPreConsume db requestId))"
| reset_due: "store_step db (snd (ResetDueSubscriptions off now db limit))"

lemma increase_subs [simp]:
  "db_subs (snd (increaseUserQuota db k v)) = db_subs db" "db_subs (snd (increaseTokenQuota db k v)) = db_subs db"
  by (auto simp: increaseUserQuota_def increaseTokenQuota_def bnd_def db_query_def add_user_quota_funds
      add_token_quota_funds split: list.split)

lemma flush_users_subs: "db_subs (flush_users store db) = db_subs db"
  by (induction store db rule: flush_users.induct) simp_all

lemma flush_tokens_subs: "db_subs (flush_tokens store db) = db_subs db"
  by (induction store db rule: flush_tokens.induct) simp_all

lemma store_step_ok: "store_step db db' \<Longrightarrow> subs_ok db \<Longrightarrow> subs_ok db'"
proof (induction rule: store_step.induct)
  case (flush db)
  then show ?case by (simp add: batchUpdate_def Let_def subs_ok_def flush_users_subs flush_tokens_subs)
next
  case (reset_due db off now limit)
  have "outcome (ResetDueSubscriptions off now db limit) (\<lambda>_. subs_ok) subs_ok"
    unfolding ResetDueSubscriptions_def Let_def outcome_simps
    by (rule outcome_queryI) (use reset_due in \<open>auto simp: subs_ok_unchanged intro: reset_due_ok\<close>)
  then show ?case by (simp add: outcome_snd)
qed (auto simp: outcome_snd [of _ subs_ok, symmetric] subs_ok_unchanged preconsumed_def
    dest: used_set_used(7) subs_ok_frames
    intro!: outcome_mono [OF quota_specs(1)] outcome_mono [OF quota_specs(2)] outcome_mono [OF quota_specs(3)]
      outcome_mono [OF quota_specs(4)] outcome_mono [OF PreConsumeUserSubscription_spec]
      outcome_mono [OF PreConsumeUserSubscriptionPartial_spec] outcome_mono [OF PostConsumeUserSubscriptionDelta_spec]
      outcome_mono [OF PostConsumeUserSubscriptionDeltaAvailable_spec] outcome_mono [OF RefundSubscriptionPreConsume_ok])

lemma store_steps_ok: "store_step\<^sup>*\<^sup>* db db' \<Longrightarrow> subs_ok db \<Longrightarrow> subs_ok db'"
  by (induction rule: rtranclp_induct) (auto intro: store_step_ok)

end
