(* ===== verification/Subscription_Orders.thy ===== *)
theory Subscription_Orders
  imports Billing_Books Float64
begin

text \<open>
  Orders and the administration of subscriptions (\<^verbatim>\<open>model/subscription.go\<close>,
  \<^verbatim>\<open>controller/subscription.go\<close>, \<^verbatim>\<open>controller/subscription_payment_*.go\<close>,
  \<^verbatim>\<open>service/subscription_reset_task.go\<close>).

  The shop is the database of billing with the tables and columns that billing does not read: orders,
  top-ups, the groups of users, the columns of a subscription that remember the group of its user, and
  the columns of a plan that only matter when it is sold. The rows of \<open>db_subs\<close> and \<open>sh_subCols\<close> (and
  of \<open>db_plans\<close> and \<open>sh_planCols\<close>) are two halves of one row of the source. Queries fail by the same
  \<open>db_faults\<close> as in billing, and \<open>shop_transaction\<close> undoes the writes to all tables.

  Times and the id that the database gives to a new row are arguments: \<open>now\<close> is the clock of the process
  (\<^verbatim>\<open>common.GetTimestamp\<close>), \<open>dbNow\<close> the one of the database (\<^verbatim>\<open>GetDBTimestamp\<close>). \<open>sh_cached\<close> holds the
  groups in the cached copies of users that exist at the moment; a write to the cache changes a copy
  that exists. Log lines are not modelled, and the texts for the administrator are represented by the
  group they name.
\<close>

section \<open>Data\<close>

record sub_columns =
  sc_Source :: string
  sc_UpgradeGroup :: string
  sc_PrevUserGroup :: string

record plan_columns =
  pm_Title :: string
  pm_PriceAmount :: f64
  pm_Enabled :: bool
  pm_StripePriceId :: string
  pm_CreemProductId :: string
  pm_MaxPurchasePerUser :: int

record plan_row =
  pw_Id :: int
  pw_Plan :: subscription_plan
  pw_Columns :: plan_columns

record subscription_order =
  so_UserId :: int
  so_PlanId :: int
  so_Money :: f64
  so_TradeNo :: string
  so_PaymentMethod :: string
  so_PaymentProvider :: string
  so_Status :: string
  so_CreateTime :: int
  so_CompleteTime :: int
  so_ProviderPayload :: string

record topup =
  tu_UserId :: int
  tu_Amount :: int
  tu_Money :: f64
  tu_TradeNo :: string
  tu_PaymentMethod :: string
  tu_PaymentProvider :: string
  tu_CreateTime :: int
  tu_CompleteTime :: int
  tu_Status :: string

record shop =
  sh_db :: billing_db
  sh_subCols :: "(int, sub_columns) gomap"
  sh_planCols :: "(int, plan_columns) gomap"
  sh_groups :: "(int, string) gomap"
  sh_cached :: "(int, string) gomap"
  sh_orders :: "(string, subscription_order) gomap"
  sh_topups :: "(string, topup) gomap"

datatype shop_error =
    BooksError billing_error | BadPlan plan_error | EmptyTradeNo | OrderNotFound | OrderStatusInvalid
  | PaymentMethodMismatch | InvalidPlan | InvalidUser | InvalidUserOrPlan | InvalidUserSubscription | PurchaseLimit
  | PlanDisabled | PriceTooLow | PayMethodUnknown | ProviderNotConfigured | UserNotFound | LinkFailed | OrderNotCreated
  | TitleEmpty | PriceNegative | PriceTooHigh | LimitNegative | TotalNegative | GroupUnknown | ResetSecondsNotPositive
  | InvalidId

type_synonym 'a shopping = "(shop_error + 'a) \<times> shop"

definition TopUpStatusPending :: string where "TopUpStatusPending = ''pending''"
definition TopUpStatusSuccess :: string where "TopUpStatusSuccess = ''success''"
definition TopUpStatusExpired :: string where "TopUpStatusExpired = ''expired''"

text \<open>An operation of billing on the shop, a query, and a transaction over all tables.\<close>

definition on_books :: "(billing_db \<Rightarrow> 'a billing) \<Rightarrow> shop \<Rightarrow> 'a shopping" where
  "on_books f w = (case f (sh_db w) of (r, db) \<Rightarrow> (map_sum BooksError id r, w\<lparr>sh_db := db\<rparr>))"

definition shop_query :: "shop \<Rightarrow> unit shopping" where
  "shop_query = on_books db_query"

definition shop_undo :: "shop \<Rightarrow> shop \<Rightarrow> shop" where
  "shop_undo w w' = w\<lparr>sh_db := (sh_db w)\<lparr>db_faults := db_faults (sh_db w')\<rparr>\<rparr>"

definition shop_transaction :: "shop \<Rightarrow> (shop \<Rightarrow> 'a shopping) \<Rightarrow> 'a shopping" where
  "shop_transaction w body =
     (case body w of
        (Inl e, w') \<Rightarrow> (Inl e, shop_undo w w')
      | (Inr x, w') \<Rightarrow>
          (case shop_query w' of
             (Inl e, w'') \<Rightarrow> (Inl e, shop_undo w w'')
           | (Inr _, w'') \<Rightarrow> (Inr x, w'')))"

section \<open>Groups\<close>

text \<open>\<^verbatim>\<open>Find\<close> into a scalar leaves the empty string when there is no such user.\<close>

definition user_group :: "shop \<Rightarrow> int \<Rightarrow> string" where
  "user_group w userId = (case map_of (sh_groups w) userId of None \<Rightarrow> [] | Some g \<Rightarrow> g)"

definition getUserGroupByIdTx :: "shop \<Rightarrow> int \<Rightarrow> string shopping" where
  "getUserGroupByIdTx w userId =
     (if userId \<le> 0 then (Inl InvalidUser, w)
      else bnd (shop_query w) (\<lambda>_ w. (Inr (user_group w userId), w)))"

definition put_group :: "int \<Rightarrow> string \<Rightarrow> shop \<Rightarrow> shop" where
  "put_group userId g w =
     (case map_of (sh_groups w) userId of None \<Rightarrow> w | Some _ \<Rightarrow> w\<lparr>sh_groups := gput userId g (sh_groups w)\<rparr>)"

definition update_group :: "shop \<Rightarrow> int \<Rightarrow> string \<Rightarrow> unit shopping" where
  "update_group w userId g = bnd (shop_query w) (\<lambda>_ w. (Inr (), put_group userId g w))"

definition UpdateUserGroupCache :: "int \<Rightarrow> string \<Rightarrow> shop \<Rightarrow> shop" where
  "UpdateUserGroupCache userId g w =
     (case map_of (sh_cached w) userId of None \<Rightarrow> w | Some _ \<Rightarrow> w\<lparr>sh_cached := gput userId g (sh_cached w)\<rparr>)"

definition sub_columns_of :: "shop \<Rightarrow> int \<Rightarrow> sub_columns" where
  "sub_columns_of w k =
     (case map_of (sh_subCols w) k of
        None \<Rightarrow> \<lparr>sc_Source = [], sc_UpgradeGroup = [], sc_PrevUserGroup = []\<rparr>
      | Some c \<Rightarrow> c)"

text \<open>The other active subscriptions of a user that hold a group.\<close>

definition holds_group :: "shop \<Rightarrow> int \<Rightarrow> int \<Rightarrow> (int \<Rightarrow> bool) \<Rightarrow> bool" where
  "holds_group w userId now other \<longleftrightarrow>
     (\<exists>s \<in> set (map snd (db_subs (sh_db w))). us_UserId s = userId \<and> us_Status s = ''active'' \<and> us_EndTime s > now
        \<and> other (us_Id s) \<and> sc_UpgradeGroup (sub_columns_of w (us_Id s)) \<noteq> [])"

text \<open>The end of \<^verbatim>\<open>downgradeUserGroupForSubscriptionTx\<close>: the user goes back to the group from before.\<close>

definition restore_group :: "sub_columns \<Rightarrow> int \<Rightarrow> string \<Rightarrow> shop \<Rightarrow> string shopping" where
  "restore_group c userId currentGroup w =
     (let prevGroup = TrimSpace (sc_PrevUserGroup c) in
      if prevGroup = [] \<or> prevGroup = currentGroup then (Inr [], w)
      else bnd (update_group w userId prevGroup) (\<lambda>_ w. (Inr prevGroup, w)))"

definition downgradeUserGroupForSubscriptionTx ::
  "shop \<Rightarrow> user_subscription \<Rightarrow> sub_columns \<Rightarrow> int \<Rightarrow> string shopping" where
  "downgradeUserGroupForSubscriptionTx w sub c now =
     (let upgradeGroup = TrimSpace (sc_UpgradeGroup c) in
      if upgradeGroup = [] then (Inr [], w)
      else bnd (getUserGroupByIdTx w (us_UserId sub)) (\<lambda>currentGroup w.
        if currentGroup \<noteq> upgradeGroup then (Inr [], w)
        else case shop_query w of
            (Inl _, w) \<Rightarrow> restore_group c (us_UserId sub) currentGroup w
          | (Inr _, w) \<Rightarrow>
              if holds_group w (us_UserId sub) now (\<lambda>k. k \<noteq> us_Id sub) then (Inr [], w)
              else restore_group c (us_UserId sub) currentGroup w))"

section \<open>Buying\<close>

definition plan_count :: "shop \<Rightarrow> int \<Rightarrow> int \<Rightarrow> int" where
  "plan_count w userId planId =
     int (length (filter (\<lambda>s. us_UserId s = userId \<and> us_PlanId s = planId) (map snd (db_subs (sh_db w)))))"

definition CountUserSubscriptionsByPlan :: "shop \<Rightarrow> int \<Rightarrow> int \<Rightarrow> int shopping" where
  "CountUserSubscriptionsByPlan w userId planId =
     (if userId \<le> 0 \<or> planId \<le> 0 then (Inl InvalidUserOrPlan, w)
      else bnd (shop_query w) (\<lambda>_ w. (Inr (plan_count w userId planId), w)))"

definition GetSubscriptionPlanById :: "shop \<Rightarrow> int \<Rightarrow> plan_row shopping" where
  "GetSubscriptionPlanById w key =
     bnd (on_books (\<lambda>db. getSubscriptionPlanByIdTx db key) w) (\<lambda>plan w.
       (case map_of (sh_planCols w) key of
          None \<Rightarrow> Inl (BooksError RecordNotFound)
        | Some c \<Rightarrow> Inr \<lparr>pw_Id = key, pw_Plan = plan, pw_Columns = c\<rparr>, w))"

definition check_limit :: "shop \<Rightarrow> int \<Rightarrow> plan_row \<Rightarrow> unit shopping" where
  "check_limit w userId plan =
     (let limit = pm_MaxPurchasePerUser (pw_Columns plan) in
      if limit > 0 then
        bnd (shop_query w) (\<lambda>_ w. (if plan_count w userId (pw_Id plan) \<ge> limit then Inl PurchaseLimit else Inr (), w))
      else (Inr (), w))"

text \<open>The upgrade of the user; the result is the group that the subscription remembers.\<close>

definition upgrade_user :: "shop \<Rightarrow> int \<Rightarrow> string \<Rightarrow> string shopping" where
  "upgrade_user w userId upgradeGroup =
     (if upgradeGroup = [] then (Inr [], w)
      else bnd (getUserGroupByIdTx w userId) (\<lambda>currentGroup w.
        if currentGroup = upgradeGroup then (Inr [], w)
        else bnd (update_group w userId upgradeGroup) (\<lambda>_ w. (Inr currentGroup, w))))"

definition create_sub :: "shop \<Rightarrow> user_subscription \<Rightarrow> sub_columns \<Rightarrow> user_subscription shopping" where
  "create_sub w sub c =
     bnd (shop_query w) (\<lambda>_ w.
       if map_of (db_subs (sh_db w)) (us_Id sub) \<noteq> None then (Inl (BooksError DbError), w)
       else (Inr sub, w\<lparr>sh_db := (sh_db w)\<lparr>db_subs := gput (us_Id sub) sub (db_subs (sh_db w))\<rparr>,
                        sh_subCols := gput (us_Id sub) c (sh_subCols w)\<rparr>))"

definition new_sub :: "int \<Rightarrow> int \<Rightarrow> int \<Rightarrow> int \<Rightarrow> plan_row \<Rightarrow> int \<Rightarrow> user_subscription" where
  "new_sub off dbNow newId userId plan endUnix =
     (let nextReset = calcNextResetTime off dbNow (pw_Plan plan) endUnix in
      \<lparr>us_Id = newId, us_UserId = userId, us_PlanId = pw_Id plan, us_AmountTotal = pl_TotalAmount (pw_Plan plan),
       us_AmountUsed = 0, us_StartTime = dbNow, us_EndTime = endUnix, us_Status = ''active'',
       us_LastResetTime = (if nextReset > 0 then dbNow else 0), us_NextResetTime = nextReset\<rparr>)"

definition CreateUserSubscriptionFromPlanTx ::
  "int \<Rightarrow> int \<Rightarrow> int \<Rightarrow> shop \<Rightarrow> int \<Rightarrow> plan_row \<Rightarrow> string \<Rightarrow> user_subscription shopping" where
  "CreateUserSubscriptionFromPlanTx off dbNow newId w userId plan source =
     (if pw_Id plan = 0 then (Inl InvalidPlan, w)
      else if userId \<le> 0 then (Inl InvalidUser, w)
      else bnd (check_limit w userId plan) (\<lambda>_ w.
        case calcPlanEndTime off dbNow (pw_Plan plan) of
          Inl e \<Rightarrow> (Inl (BadPlan e), w)
        | Inr endUnix \<Rightarrow>
            let upgradeGroup = TrimSpace (pl_UpgradeGroup (pw_Plan plan)) in
            bnd (upgrade_user w userId upgradeGroup) (\<lambda>prevGroup w.
              create_sub w (new_sub off dbNow newId userId plan endUnix)
                \<lparr>sc_Source = source, sc_UpgradeGroup = upgradeGroup, sc_PrevUserGroup = prevGroup\<rparr>)))"

section \<open>Orders\<close>

definition order_Insert :: "int \<Rightarrow> shop \<Rightarrow> subscription_order \<Rightarrow> unit shopping" where
  "order_Insert now w order =
     (let order = (if so_CreateTime order = 0 then order\<lparr>so_CreateTime := now\<rparr> else order) in
      bnd (shop_query w) (\<lambda>_ w.
        if map_of (sh_orders w) (so_TradeNo order) \<noteq> None then (Inl (BooksError DbError), w)
        else (Inr (), w\<lparr>sh_orders := gput (so_TradeNo order) order (sh_orders w)\<rparr>)))"

definition GetSubscriptionOrderByTradeNo :: "shop \<Rightarrow> string \<Rightarrow> subscription_order option \<times> shop" where
  "GetSubscriptionOrderByTradeNo w tradeNo =
     (if tradeNo = [] then (None, w)
      else case shop_query w of
          (Inl _, w) \<Rightarrow> (None, w)
        | (Inr _, w) \<Rightarrow> (map_of (sh_orders w) tradeNo, w))"

definition put_topup :: "shop \<Rightarrow> topup \<Rightarrow> unit shopping" where
  "put_topup w t = bnd (shop_query w) (\<lambda>_ w. (Inr (), w\<lparr>sh_topups := gput (tu_TradeNo t) t (sh_topups w)\<rparr>))"

definition upsertSubscriptionTopUpTx :: "int \<Rightarrow> shop \<Rightarrow> subscription_order \<Rightarrow> unit shopping" where
  "upsertSubscriptionTopUpTx now w order =
     bnd (shop_query w) (\<lambda>_ w.
       case map_of (sh_topups w) (so_TradeNo order) of
         None \<Rightarrow> put_topup w
           \<lparr>tu_UserId = so_UserId order, tu_Amount = 0, tu_Money = so_Money order, tu_TradeNo = so_TradeNo order,
            tu_PaymentMethod = so_PaymentMethod order, tu_PaymentProvider = [], tu_CreateTime = so_CreateTime order,
            tu_CompleteTime = now, tu_Status = TopUpStatusSuccess\<rparr>
       | Some t \<Rightarrow>
           if tu_PaymentMethod t \<noteq> [] \<and> tu_PaymentMethod t \<noteq> so_PaymentMethod order then (Inl PaymentMethodMismatch, w)
           else put_topup w (t\<lparr>tu_Money := so_Money order, tu_PaymentMethod := so_PaymentMethod order,
             tu_CreateTime := (if tu_CreateTime t = 0 then so_CreateTime order else tu_CreateTime t),
             tu_CompleteTime := now, tu_Status := TopUpStatusSuccess\<rparr>))"

definition save_order :: "shop \<Rightarrow> subscription_order \<Rightarrow> unit shopping" where
  "save_order w order =
     bnd (shop_query w) (\<lambda>_ w. (Inr (), w\<lparr>sh_orders := gput (so_TradeNo order) order (sh_orders w)\<rparr>))"

text \<open>Both transactions on an order begin with its lookup, where any error is "not found", and its provider.\<close>

definition find_order :: "shop \<Rightarrow> string \<Rightarrow> string \<Rightarrow> subscription_order shopping" where
  "find_order w tradeNo expectedPaymentProvider =
     (case shop_query w of
        (Inl _, w) \<Rightarrow> (Inl OrderNotFound, w)
      | (Inr _, w) \<Rightarrow>
          (case map_of (sh_orders w) tradeNo of
             None \<Rightarrow> Inl OrderNotFound
           | Some order \<Rightarrow>
               if expectedPaymentProvider \<noteq> [] \<and> so_PaymentProvider order \<noteq> expectedPaymentProvider
               then Inl PaymentMethodMismatch else Inr order, w))"

definition completed_order :: "int \<Rightarrow> string \<Rightarrow> string \<Rightarrow> subscription_order \<Rightarrow> subscription_order" where
  "completed_order now providerPayload actualPaymentMethod order =
     order\<lparr>so_Status := TopUpStatusSuccess, so_CompleteTime := now,
       so_ProviderPayload := (if providerPayload \<noteq> [] then providerPayload else so_ProviderPayload order),
       so_PaymentMethod := (if actualPaymentMethod \<noteq> [] then actualPaymentMethod else so_PaymentMethod order)\<rparr>"

text \<open>The body of the transaction; the result is what the log and the cache are told: no user when the
  order was complete already.\<close>

definition complete_order ::
  "int \<Rightarrow> int \<Rightarrow> int \<Rightarrow> int \<Rightarrow> string \<Rightarrow> string \<Rightarrow> string \<Rightarrow> string \<Rightarrow> shop \<Rightarrow> (int \<times> string) shopping" where
  "complete_order off now dbNow newId tradeNo providerPayload expectedPaymentProvider actualPaymentMethod w =
     bnd (find_order w tradeNo expectedPaymentProvider) (\<lambda>order w.
       if so_Status order = TopUpStatusSuccess then (Inr (0, []), w)
       else if so_Status order \<noteq> TopUpStatusPending then (Inl OrderStatusInvalid, w)
       else bnd (GetSubscriptionPlanById w (so_PlanId order)) (\<lambda>plan w.
         bnd (CreateUserSubscriptionFromPlanTx off dbNow newId w (so_UserId order) plan ''order'') (\<lambda>_ w.
         bnd (upsertSubscriptionTopUpTx now w order) (\<lambda>_ w.
         bnd (save_order w (completed_order now providerPayload actualPaymentMethod order)) (\<lambda>_ w.
           (Inr (so_UserId order, TrimSpace (pl_UpgradeGroup (pw_Plan plan))), w))))))"

definition CompleteSubscriptionOrder ::
  "int \<Rightarrow> int \<Rightarrow> int \<Rightarrow> int \<Rightarrow> string \<Rightarrow> string \<Rightarrow> string \<Rightarrow> string \<Rightarrow> shop \<Rightarrow> unit shopping" where
  "CompleteSubscriptionOrder off now dbNow newId tradeNo providerPayload expectedPaymentProvider actualPaymentMethod w =
     (if tradeNo = [] then (Inl EmptyTradeNo, w)
      else bnd (shop_transaction w
          (complete_order off now dbNow newId tradeNo providerPayload expectedPaymentProvider actualPaymentMethod))
        (\<lambda>(logUserId, upgradeGroup) w.
          (Inr (), if upgradeGroup \<noteq> [] \<and> logUserId > 0 then UpdateUserGroupCache logUserId upgradeGroup w else w)))"

definition ExpireSubscriptionOrder :: "int \<Rightarrow> string \<Rightarrow> string \<Rightarrow> shop \<Rightarrow> unit shopping" where
  "ExpireSubscriptionOrder now tradeNo expectedPaymentProvider w =
     (if tradeNo = [] then (Inl EmptyTradeNo, w)
      else shop_transaction w (\<lambda>w.
        bnd (find_order w tradeNo expectedPaymentProvider) (\<lambda>order w.
          if so_Status order \<noteq> TopUpStatusPending then (Inr (), w)
          else save_order w (order\<lparr>so_Status := TopUpStatusExpired, so_CompleteTime := now\<rparr>))))"

end
