(* ===== verification/Subscription_Admin.thy ===== *)
theory Subscription_Admin
  imports Subscription_Orders
begin

text \<open>
  The rest of the shop: subscriptions given and taken by an administrator, their expiry, the maintenance
  task that expires and resets them, the requests that open an order, the callbacks that complete it, and
  the administration of plans.
\<close>

section \<open>Given and taken by an administrator\<close>

definition AdminBindSubscription :: "int \<Rightarrow> int \<Rightarrow> int \<Rightarrow> int \<Rightarrow> int \<Rightarrow> shop \<Rightarrow> string shopping" where
  "AdminBindSubscription off dbNow newId userId planId w =
     (if userId \<le> 0 \<or> planId \<le> 0 then (Inl InvalidUserOrPlan, w)
      else bnd (GetSubscriptionPlanById w planId) (\<lambda>plan w.
        bnd (shop_transaction w (\<lambda>w. CreateUserSubscriptionFromPlanTx off dbNow newId w userId plan ''admin'')) (\<lambda>_ w.
          let upgradeGroup = pl_UpgradeGroup (pw_Plan plan) in
          if TrimSpace upgradeGroup \<noteq> [] then (Inr upgradeGroup, UpdateUserGroupCache userId upgradeGroup w)
          else (Inr [], w))))"

definition find_user_sub :: "shop \<Rightarrow> int \<Rightarrow> user_subscription shopping" where
  "find_user_sub w key = on_books (\<lambda>db. find_sub db key) w"

text \<open>After the transaction: the cached copy of the user gets the group, if it changed.\<close>

definition tell_cache :: "int \<Rightarrow> string \<Rightarrow> shop \<Rightarrow> shop" where
  "tell_cache userId g w = (if g \<noteq> [] \<and> userId > 0 then UpdateUserGroupCache userId g w else w)"

definition AdminInvalidateUserSubscription :: "int \<Rightarrow> int \<Rightarrow> shop \<Rightarrow> string shopping" where
  "AdminInvalidateUserSubscription now key w =
     (if key \<le> 0 then (Inl InvalidUserSubscription, w)
      else bnd (shop_transaction w (\<lambda>w.
          bnd (find_user_sub w key) (\<lambda>sub w.
          let cancelled = sub\<lparr>us_Status := ''cancelled'', us_EndTime := now\<rparr> in
          bnd (on_books (\<lambda>db. save_sub db cancelled) w) (\<lambda>_ w.
          bnd (downgradeUserGroupForSubscriptionTx w cancelled (sub_columns_of w key) now) (\<lambda>target w.
            (Inr (us_UserId sub, target), w))))))
        (\<lambda>(userId, target) w. (Inr target, tell_cache userId target w)))"

definition delete_sub :: "shop \<Rightarrow> int \<Rightarrow> unit shopping" where
  "delete_sub w key =
     bnd (shop_query w) (\<lambda>_ w.
       (Inr (), w\<lparr>sh_db := (sh_db w)\<lparr>db_subs := gdel key (db_subs (sh_db w))\<rparr>, sh_subCols := gdel key (sh_subCols w)\<rparr>))"

definition AdminDeleteUserSubscription :: "int \<Rightarrow> int \<Rightarrow> shop \<Rightarrow> string shopping" where
  "AdminDeleteUserSubscription now key w =
     (if key \<le> 0 then (Inl InvalidUserSubscription, w)
      else bnd (shop_transaction w (\<lambda>w.
          bnd (find_user_sub w key) (\<lambda>sub w.
          bnd (downgradeUserGroupForSubscriptionTx w sub (sub_columns_of w key) now) (\<lambda>target w.
          bnd (delete_sub w key) (\<lambda>_ w. (Inr (us_UserId sub, target), w))))))
        (\<lambda>(userId, target) w. (Inr target, tell_cache userId target w)))"

text \<open>The lists of a user's subscriptions, latest end first.\<close>

definition ends_later :: "user_subscription \<Rightarrow> user_subscription \<Rightarrow> bool" where
  "ends_later a b \<longleftrightarrow> us_EndTime a > us_EndTime b \<or> us_EndTime a = us_EndTime b \<and> us_Id a > us_Id b"

definition GetAllUserSubscriptions :: "shop \<Rightarrow> int \<Rightarrow> user_subscription list shopping" where
  "GetAllUserSubscriptions w userId =
     (if userId \<le> 0 then (Inl InvalidUser, w)
      else bnd (shop_query w) (\<lambda>_ w.
        (Inr (SliceStable ends_later (filter (\<lambda>s. us_UserId s = userId) (map snd (db_subs (sh_db w))))), w)))"

definition GetAllActiveUserSubscriptions :: "int \<Rightarrow> shop \<Rightarrow> int \<Rightarrow> user_subscription list shopping" where
  "GetAllActiveUserSubscriptions now w userId =
     (if userId \<le> 0 then (Inl InvalidUser, w)
      else bnd (shop_query w) (\<lambda>_ w.
        (Inr (SliceStable ends_later
          (filter (\<lambda>s. us_UserId s = userId \<and> us_Status s = ''active'' \<and> us_EndTime s > now) (map snd (db_subs (sh_db w))))), w)))"

section \<open>Expiry\<close>

definition due :: "int \<Rightarrow> user_subscription \<Rightarrow> bool" where
  "due now s \<longleftrightarrow> us_Status s = ''active'' \<and> us_EndTime s > 0 \<and> us_EndTime s \<le> now"

definition expire_row :: "int \<Rightarrow> int \<Rightarrow> user_subscription \<Rightarrow> user_subscription" where
  "expire_row now userId s = (if us_UserId s = userId \<and> due now s then s\<lparr>us_Status := ''expired''\<rparr> else s)"

definition expire_rows :: "int \<Rightarrow> int \<Rightarrow> shop \<Rightarrow> int shopping" where
  "expire_rows now userId w =
     bnd (shop_query w) (\<lambda>_ w.
       (Inr (int (length (filter (\<lambda>s. us_UserId s = userId \<and> due now s) (map snd (db_subs (sh_db w)))))),
        w\<lparr>sh_db := (sh_db w)\<lparr>db_subs := map (\<lambda>(k, s). (k, expire_row now userId s)) (db_subs (sh_db w))\<rparr>\<rparr>))"

definition last_expired :: "shop \<Rightarrow> int \<Rightarrow> user_subscription option" where
  "last_expired w userId =
     (case SliceStable ends_later (filter (\<lambda>s. us_UserId s = userId \<and> us_Status s = ''expired''
              \<and> sc_UpgradeGroup (sub_columns_of w (us_Id s)) \<noteq> []) (map snd (db_subs (sh_db w)))) of
        [] \<Rightarrow> None
      | s # _ \<Rightarrow> Some s)"

text \<open>The downgrade at the end of a user's transaction; the result is the group for the cache.\<close>

definition leave_group :: "int \<Rightarrow> sub_columns \<Rightarrow> shop \<Rightarrow> string shopping" where
  "leave_group userId c w =
     (let upgradeGroup = TrimSpace (sc_UpgradeGroup c); prevGroup = TrimSpace (sc_PrevUserGroup c) in
      if upgradeGroup = [] \<or> prevGroup = [] then (Inr [], w)
      else bnd (getUserGroupByIdTx w userId) (\<lambda>currentGroup w.
        if currentGroup \<noteq> upgradeGroup \<or> currentGroup = prevGroup then (Inr [], w)
        else bnd (update_group w userId prevGroup) (\<lambda>_ w. (Inr prevGroup, w))))"

definition after_expiry :: "int \<Rightarrow> int \<Rightarrow> shop \<Rightarrow> string shopping" where
  "after_expiry now userId w =
     (case shop_query w of (r, w) \<Rightarrow>
        if r = Inr () \<and> holds_group w userId now (\<lambda>_. True) then (Inr [], w)
        else case shop_query w of
            (Inl _, w) \<Rightarrow> (Inr [], w)
          | (Inr _, w) \<Rightarrow>
              (case last_expired w userId of
                 None \<Rightarrow> (Inr [], w)
               | Some s \<Rightarrow> leave_group userId (sub_columns_of w (us_Id s)) w))"

definition expire_user :: "int \<Rightarrow> int \<Rightarrow> shop \<Rightarrow> int shopping" where
  "expire_user now userId w =
     bnd (shop_transaction w (\<lambda>w.
         bnd (expire_rows now userId w) (\<lambda>n w.
         bnd (after_expiry now userId w) (\<lambda>g w. (Inr (n, g), w)))))
       (\<lambda>(n, g) w. (Inr n, if g \<noteq> [] then UpdateUserGroupCache userId g w else w))"

fun expire_users :: "int \<Rightarrow> int list \<Rightarrow> shop \<Rightarrow> int \<Rightarrow> int shopping" where
  "expire_users now [] w expiredCount = (Inr expiredCount, w)"
| "expire_users now (userId # userIds) w expiredCount =
     bnd (expire_user now userId w) (\<lambda>n w. expire_users now userIds w (expiredCount + n))"

text \<open>The users are the keys of a Go map, visited in an order that \<open>visit\<close> chooses.\<close>

definition ExpireDueSubscriptions :: "(int list \<Rightarrow> int list) \<Rightarrow> int \<Rightarrow> int \<Rightarrow> shop \<Rightarrow> int shopping" where
  "ExpireDueSubscriptions visit now limit w =
     (let limit = (if limit \<le> 0 then 200 else limit) in
      bnd (shop_query w) (\<lambda>_ w.
        let subs = take (nat limit) (SliceStable
              (\<lambda>a b. us_EndTime a < us_EndTime b \<or> us_EndTime a = us_EndTime b \<and> us_Id a < us_Id b)
              (filter (due now) (map snd (db_subs (sh_db w)))))
        in expire_users now (visit (remdups (filter (\<lambda>u. u > 0) (map us_UserId subs)))) w 0))"

section \<open>Maintenance\<close>

definition subscriptionResetBatchSize :: int where "subscriptionResetBatchSize = 300"

text \<open>
  The two loops of \<^verbatim>\<open>runSubscriptionQuotaResetOnce\<close>: \<open>clock i\<close> is the time the database reports in
  iteration \<open>i\<close>, the result tells whether the task goes on and how many iterations were made; \<open>None\<close> is a
  loop that does not end.
\<close>

partial_function (option) expire_loop ::
  "(int list \<Rightarrow> int list) \<Rightarrow> (nat \<Rightarrow> int) \<Rightarrow> nat \<Rightarrow> shop \<Rightarrow> (bool \<times> nat \<times> shop) option" where
  "expire_loop visit clock i w =
     (case ExpireDueSubscriptions visit (clock i) subscriptionResetBatchSize w of
        (Inl _, w) \<Rightarrow> Some (False, i, w)
      | (Inr n, w) \<Rightarrow>
          if n = 0 \<or> n < subscriptionResetBatchSize then Some (True, i, w) else expire_loop visit clock (Suc i) w)"

partial_function (option) quota_reset_loop ::
  "int \<Rightarrow> (nat \<Rightarrow> int) \<Rightarrow> nat \<Rightarrow> billing_db \<Rightarrow> (bool \<times> nat \<times> billing_db) option" where
  "quota_reset_loop off clock i db =
     (case ResetDueSubscriptions off (clock i) db subscriptionResetBatchSize of
        (Inl _, db) \<Rightarrow> Some (False, i, db)
      | (Inr n, db) \<Rightarrow>
          if n = 0 \<or> n < subscriptionResetBatchSize then Some (True, i, db) else quota_reset_loop off clock (Suc i) db)"

declare expire_loop.simps [code] quota_reset_loop.simps [code]

text \<open>\<open>updatedAt\<close> is the column with the time of the last write to a pre-consume record.\<close>

definition CleanupSubscriptionPreConsumeRecords :: "(string \<Rightarrow> int) \<Rightarrow> int \<Rightarrow> int \<Rightarrow> billing_db \<Rightarrow> int billing" where
  "CleanupSubscriptionPreConsumeRecords updatedAt dbNow olderThanSeconds db =
     (let olderThanSeconds = (if olderThanSeconds \<le> 0 then 7 * 24 * 3600 else olderThanSeconds);
          old = (\<lambda>(requestId, _). updatedAt requestId < dbNow - olderThanSeconds)
      in bnd (db_query db) (\<lambda>_ db.
           (Inr (int (length (filter old (db_records db)))), db\<lparr>db_records := filter (\<lambda>r. \<not> old r) (db_records db)\<rparr>)))"

text \<open>One run of the task: the flag admits one run at a time, and old records are removed every half hour.\<close>

record maintenance =
  mt_Running :: bool
  mt_CleanupLast :: int
  mt_Shop :: shop

definition cleanup_due :: "(string \<Rightarrow> int) \<Rightarrow> int \<Rightarrow> int \<Rightarrow> maintenance \<Rightarrow> maintenance" where
  "cleanup_due updatedAt now dbNow m =
     (if now - mt_CleanupLast m < 30 * 60 then m
      else case on_books (CleanupSubscriptionPreConsumeRecords updatedAt dbNow (7 * 24 * 3600)) (mt_Shop m) of
          (Inl _, w) \<Rightarrow> m\<lparr>mt_Shop := w\<rparr>
        | (Inr _, w) \<Rightarrow> m\<lparr>mt_Shop := w, mt_CleanupLast := now\<rparr>)"

definition runSubscriptionQuotaResetOnce ::
  "(int list \<Rightarrow> int list) \<Rightarrow> int \<Rightarrow> (nat \<Rightarrow> int) \<Rightarrow> (string \<Rightarrow> int) \<Rightarrow> int \<Rightarrow> maintenance \<Rightarrow> maintenance option" where
  "runSubscriptionQuotaResetOnce visit off clock updatedAt now m =
     (if mt_Running m then Some m
      else case expire_loop visit clock 0 (mt_Shop m) of
          None \<Rightarrow> None
        | Some (goes_on, i, w) \<Rightarrow>
            if \<not> goes_on then Some (m\<lparr>mt_Shop := w\<rparr>)
            else case quota_reset_loop off clock (Suc i) (sh_db w) of
                None \<Rightarrow> None
              | Some (goes_on, j, db) \<Rightarrow>
                  let m = m\<lparr>mt_Shop := w\<lparr>sh_db := db\<rparr>\<rparr>
                  in Some (if goes_on then cleanup_due updatedAt now (clock (Suc j)) m else m))"

section \<open>Opening an order\<close>

text \<open>
  The requests of the three payment providers. \<open>configured\<close> is whether the provider has been set up,
  \<open>link\<close> whether the provider accepts the purchase, \<open>reference\<close> the random trade number.
\<close>

definition PaymentProviderEpay :: string where "PaymentProviderEpay = ''epay''"
definition PaymentProviderStripe :: string where "PaymentProviderStripe = ''stripe''"
definition PaymentProviderCreem :: string where "PaymentProviderCreem = ''creem''"

definition pending_order :: "int \<Rightarrow> int \<Rightarrow> plan_row \<Rightarrow> string \<Rightarrow> string \<Rightarrow> string \<Rightarrow> subscription_order" where
  "pending_order now userId plan tradeNo payMethod provider =
     \<lparr>so_UserId = userId, so_PlanId = pw_Id plan, so_Money = pm_PriceAmount (pw_Columns plan), so_TradeNo = tradeNo,
      so_PaymentMethod = payMethod, so_PaymentProvider = provider, so_Status = TopUpStatusPending, so_CreateTime = now,
      so_CompleteTime = 0, so_ProviderPayload = []\<rparr>"

definition limit_reached :: "shop \<Rightarrow> int \<Rightarrow> plan_row \<Rightarrow> unit shopping" where
  "limit_reached w userId plan =
     (let limit = pm_MaxPurchasePerUser (pw_Columns plan) in
      if limit > 0 then
        bnd (CountUserSubscriptionsByPlan w userId (pw_Id plan)) (\<lambda>count w.
          (if count \<ge> limit then Inl PurchaseLimit else Inr (), w))
      else (Inr (), w))"

definition find_user :: "shop \<Rightarrow> int \<Rightarrow> unit shopping" where
  "find_user w userId =
     bnd (shop_query w) (\<lambda>_ w. (if map_of (sh_groups w) userId = None then Inl UserNotFound else Inr (), w))"

definition insert_order :: "int \<Rightarrow> shop \<Rightarrow> subscription_order \<Rightarrow> unit shopping" where
  "insert_order now w order = (case order_Insert now w order of (Inl _, w) \<Rightarrow> (Inl OrderNotCreated, w) | r \<Rightarrow> r)"

definition SubscriptionRequestStripePay ::
  "bool \<Rightarrow> bool \<Rightarrow> string \<Rightarrow> int \<Rightarrow> int \<Rightarrow> int \<Rightarrow> shop \<Rightarrow> unit shopping" where
  "SubscriptionRequestStripePay configured link reference now userId planId w =
     (if planId \<le> 0 then (Inl InvalidPlan, w)
      else bnd (GetSubscriptionPlanById w planId) (\<lambda>plan w.
        if \<not> pm_Enabled (pw_Columns plan) then (Inl PlanDisabled, w)
        else if pm_StripePriceId (pw_Columns plan) = [] \<or> \<not> configured then (Inl ProviderNotConfigured, w)
        else bnd (find_user w userId) (\<lambda>_ w.
          bnd (limit_reached w userId plan) (\<lambda>_ w.
          if \<not> link then (Inl LinkFailed, w)
          else insert_order now w (pending_order now userId plan reference ''stripe'' PaymentProviderStripe)))))"

definition SubscriptionRequestCreemPay ::
  "bool \<Rightarrow> bool \<Rightarrow> string \<Rightarrow> int \<Rightarrow> int \<Rightarrow> int \<Rightarrow> shop \<Rightarrow> unit shopping" where
  "SubscriptionRequestCreemPay configured link reference now userId planId w =
     (if planId \<le> 0 then (Inl InvalidPlan, w)
      else bnd (GetSubscriptionPlanById w planId) (\<lambda>plan w.
        if \<not> pm_Enabled (pw_Columns plan) then (Inl PlanDisabled, w)
        else if pm_CreemProductId (pw_Columns plan) = [] \<or> \<not> configured then (Inl ProviderNotConfigured, w)
        else bnd (find_user w userId) (\<lambda>_ w.
          bnd (limit_reached w userId plan) (\<lambda>_ w.
          bnd (insert_order now w (pending_order now userId plan reference ''creem'' PaymentProviderCreem)) (\<lambda>_ w.
            (if link then Inr () else Inl LinkFailed, w))))))"

definition SubscriptionRequestEpay ::
  "bool \<Rightarrow> string list \<Rightarrow> bool \<Rightarrow> string \<Rightarrow> int \<Rightarrow> int \<Rightarrow> int \<Rightarrow> string \<Rightarrow> shop \<Rightarrow> unit shopping" where
  "SubscriptionRequestEpay configured payMethods link reference now userId planId payMethod w =
     (if planId \<le> 0 then (Inl InvalidPlan, w)
      else bnd (GetSubscriptionPlanById w planId) (\<lambda>plan w.
        if \<not> pm_Enabled (pw_Columns plan) then (Inl PlanDisabled, w)
        else if pm_PriceAmount (pw_Columns plan) < f64_round (1 / 100) then (Inl PriceTooLow, w)
        else if payMethod \<notin> set payMethods then (Inl PayMethodUnknown, w)
        else bnd (limit_reached w userId plan) (\<lambda>_ w.
          if \<not> configured then (Inl ProviderNotConfigured, w)
          else bnd (insert_order now w (pending_order now userId plan reference payMethod PaymentProviderEpay)) (\<lambda>_ w.
            if link then (Inr (), w)
            else (Inl LinkFailed, snd (ExpireSubscriptionOrder now reference PaymentProviderEpay w))))))"

text \<open>
  The callbacks. \<open>verified\<close> is what the provider's client makes of the parameters: \<open>None\<close> when the
  signature is wrong, else whether the trade succeeded, its number and the type of payment.
\<close>

definition SubscriptionEpayNotify ::
  "int \<Rightarrow> int \<Rightarrow> int \<Rightarrow> int \<Rightarrow> (bool \<times> string \<times> string) option \<Rightarrow> string \<Rightarrow> shop \<Rightarrow> bool \<times> shop" where
  "SubscriptionEpayNotify off now dbNow newId verified payload w =
     (case verified of
        Some (True, tradeNo, payType) \<Rightarrow>
          (case CompleteSubscriptionOrder off now dbNow newId tradeNo payload PaymentProviderEpay payType w of
             (Inl _, w) \<Rightarrow> (False, w)
           | (Inr _, w) \<Rightarrow> (True, w))
      | _ \<Rightarrow> (False, w))"

definition SubscriptionEpayReturn ::
  "int \<Rightarrow> int \<Rightarrow> int \<Rightarrow> int \<Rightarrow> (bool \<times> string \<times> string) option \<Rightarrow> string \<Rightarrow> shop \<Rightarrow> string \<times> shop" where
  "SubscriptionEpayReturn off now dbNow newId verified payload w =
     (case verified of
        None \<Rightarrow> (''fail'', w)
      | Some (False, _, _) \<Rightarrow> (''pending'', w)
      | Some (True, tradeNo, payType) \<Rightarrow>
          (case CompleteSubscriptionOrder off now dbNow newId tradeNo payload PaymentProviderEpay payType w of
             (Inl _, w) \<Rightarrow> (''fail'', w)
           | (Inr _, w) \<Rightarrow> (''success'', w)))"

section \<open>Plans\<close>

definition checked_plan :: "string list \<Rightarrow> plan_row \<Rightarrow> shop_error + plan_row" where
  "checked_plan groups row =
     (let plan = pw_Plan row; c = pw_Columns row;
          plan = plan\<lparr>pl_DurationUnit := (if pl_DurationUnit plan = [] then ''month'' else pl_DurationUnit plan)\<rparr>;
          plan = plan\<lparr>pl_DurationValue :=
            (if pl_DurationValue plan \<le> 0 \<and> pl_DurationUnit plan \<noteq> ''custom'' then 1 else pl_DurationValue plan)\<rparr>;
          plan = plan\<lparr>pl_UpgradeGroup := TrimSpace (pl_UpgradeGroup plan)\<rparr>;
          plan = plan\<lparr>pl_QuotaResetPeriod := NormalizeResetPeriod (pl_QuotaResetPeriod plan)\<rparr>
      in if TrimSpace (pm_Title c) = [] then Inl TitleEmpty
         else if pm_PriceAmount c < 0 then Inl PriceNegative
         else if pm_PriceAmount c > 9999 then Inl PriceTooHigh
         else if pm_MaxPurchasePerUser c < 0 then Inl LimitNegative
         else if pl_TotalAmount plan < 0 then Inl TotalNegative
         else if pl_UpgradeGroup plan \<noteq> [] \<and> pl_UpgradeGroup plan \<notin> set groups then Inl GroupUnknown
         else if pl_QuotaResetPeriod plan = ''custom'' \<and> pl_QuotaResetCustomSeconds plan \<le> 0
           then Inl ResetSecondsNotPositive
         else Inr (row\<lparr>pw_Plan := plan\<rparr>))"

definition put_plan :: "int \<Rightarrow> plan_row \<Rightarrow> shop \<Rightarrow> shop" where
  "put_plan key row w =
     w\<lparr>sh_db := (sh_db w)\<lparr>db_plans := gput key (pw_Plan row) (db_plans (sh_db w))\<rparr>,
       sh_planCols := gput key (pw_Columns row) (sh_planCols w)\<rparr>"

text \<open>
  \<^verbatim>\<open>Create\<close> writes the default of its column in place of a zero value: a plan sent as disabled is created
  enabled, and a custom duration of value 0 gets the value 1.
\<close>

definition column_defaults :: "plan_row \<Rightarrow> plan_row" where
  "column_defaults row =
     row\<lparr>pw_Plan := (pw_Plan row)\<lparr>pl_DurationValue :=
           (if pl_DurationValue (pw_Plan row) = 0 then 1 else pl_DurationValue (pw_Plan row))\<rparr>,
         pw_Columns := (pw_Columns row)\<lparr>pm_Enabled := True\<rparr>\<rparr>"

definition AdminCreateSubscriptionPlan :: "string list \<Rightarrow> int \<Rightarrow> plan_row \<Rightarrow> shop \<Rightarrow> plan_row shopping" where
  "AdminCreateSubscriptionPlan groups newId req w =
     (case checked_plan groups req of
        Inl e \<Rightarrow> (Inl e, w)
      | Inr row \<Rightarrow>
          bnd (shop_query w) (\<lambda>_ w.
            if map_of (db_plans (sh_db w)) newId \<noteq> None then (Inl (BooksError DbError), w)
            else let row = (column_defaults row)\<lparr>pw_Id := newId\<rparr> in (Inr row, put_plan newId row w)))"

definition AdminUpdateSubscriptionPlan :: "string list \<Rightarrow> int \<Rightarrow> plan_row \<Rightarrow> shop \<Rightarrow> unit shopping" where
  "AdminUpdateSubscriptionPlan groups key req w =
     (if key \<le> 0 then (Inl InvalidId, w)
      else case checked_plan groups req of
          Inl e \<Rightarrow> (Inl e, w)
        | Inr row \<Rightarrow>
            shop_transaction w (\<lambda>w. bnd (shop_query w) (\<lambda>_ w.
              (Inr (), if map_of (db_plans (sh_db w)) key = None then w else put_plan key row w))))"

definition AdminUpdateSubscriptionPlanStatus :: "int \<Rightarrow> bool \<Rightarrow> shop \<Rightarrow> unit shopping" where
  "AdminUpdateSubscriptionPlanStatus key enabled w =
     (if key \<le> 0 then (Inl InvalidId, w)
      else bnd (shop_query w) (\<lambda>_ w.
        (Inr (), case map_of (sh_planCols w) key of
                   None \<Rightarrow> w
                 | Some c \<Rightarrow> w\<lparr>sh_planCols := gput key (c\<lparr>pm_Enabled := enabled\<rparr>) (sh_planCols w)\<rparr>)))"

end
