(* ===== verification/Shop_Effects.thy ===== *)
theory Shop_Effects
  imports Subscription_Admin
begin

text \<open>
  What the operations of the shop do to its tables, whatever queries fail: \<open>quiet\<close> forgets the queries to
  come, and every operation either leaves the quiet shop as it was or applies one effect, a function on
  shops without failures. The callers are proved from these specifications by the rules for \<open>outcome\<close>.
\<close>

section \<open>Quiet shops\<close>

definition quiet :: "shop \<Rightarrow> shop" where
  "quiet w = w\<lparr>sh_db := (sh_db w)\<lparr>db_faults := []\<rparr>\<rparr>"

lemma quiet_quiet [simp]: "quiet (quiet w) = quiet w"
  by (simp add: quiet_def)

lemma quiet_fields [simp]:
  "sh_subCols (quiet w) = sh_subCols w" "sh_planCols (quiet w) = sh_planCols w" "sh_groups (quiet w) = sh_groups w"
  "sh_cached (quiet w) = sh_cached w" "sh_orders (quiet w) = sh_orders w" "sh_topups (quiet w) = sh_topups w"
  "db_subs (sh_db (quiet w)) = db_subs (sh_db w)" "db_plans (sh_db (quiet w)) = db_plans (sh_db w)"
  "db_records (sh_db (quiet w)) = db_records (sh_db w)" "db_faults (sh_db (quiet w)) = []"
  "subs_ok (sh_db (quiet w)) = subs_ok (sh_db w)"
  by (simp_all add: quiet_def subs_ok_unchanged [OF unchanged_faults])

lemma quiet_same:
  assumes "quiet w' = quiet w"
  shows "sh_subCols w' = sh_subCols w" "sh_planCols w' = sh_planCols w" "sh_groups w' = sh_groups w"
    "sh_cached w' = sh_cached w" "sh_orders w' = sh_orders w" "sh_topups w' = sh_topups w"
    "db_subs (sh_db w') = db_subs (sh_db w)" "db_plans (sh_db w') = db_plans (sh_db w)"
    "db_records (sh_db w') = db_records (sh_db w)" "user_group w' = user_group w" "plan_count w' = plan_count w"
    "sub_columns_of w' = sub_columns_of w" "holds_group w' = holds_group w" "last_expired w' = last_expired w"
proof -
  show eqs: "sh_subCols w' = sh_subCols w" "sh_planCols w' = sh_planCols w" "sh_groups w' = sh_groups w"
    "sh_cached w' = sh_cached w" "sh_orders w' = sh_orders w" "sh_topups w' = sh_topups w"
    "db_subs (sh_db w') = db_subs (sh_db w)" "db_plans (sh_db w') = db_plans (sh_db w)"
    "db_records (sh_db w') = db_records (sh_db w)"
    by (metis assms quiet_fields)+
  show "user_group w' = user_group w" "plan_count w' = plan_count w" by (simp_all add: user_group_def plan_count_def fun_eq_iff eqs)
  show cols: "sub_columns_of w' = sub_columns_of w" by (simp add: sub_columns_of_def fun_eq_iff eqs)
  show "holds_group w' = holds_group w" "last_expired w' = last_expired w"
    by (simp_all add: holds_group_def last_expired_def fun_eq_iff eqs cols)
qed

lemma quiet_reads [simp]:
  "user_group (quiet w) = user_group w" "plan_count (quiet w) = plan_count w" "sub_columns_of (quiet w) = sub_columns_of w"
  "holds_group (quiet w) = holds_group w" "last_expired (quiet w) = last_expired w"
  using quiet_same(10-14) [of "quiet w" w] by simp_all

lemma quiet_undo [simp]: "quiet (shop_undo w w') = quiet w"
  by (simp add: quiet_def shop_undo_def)

lemma quiet_faults [simp]: "quiet (w\<lparr>sh_db := (sh_db w)\<lparr>db_faults := fs\<rparr>\<rparr>) = quiet w"
  by (simp add: quiet_def)

lemma quiet_books: "unchanged (sh_db w) db \<Longrightarrow> quiet (w\<lparr>sh_db := db\<rparr>) = quiet w"
  by (metis quiet_faults unchanged_def)

section \<open>Effects\<close>

definition add_sub :: "user_subscription \<Rightarrow> sub_columns \<Rightarrow> shop \<Rightarrow> shop" where
  "add_sub sub c w = w\<lparr>sh_db := (sh_db w)\<lparr>db_subs := gput (us_Id sub) sub (db_subs (sh_db w))\<rparr>,
     sh_subCols := gput (us_Id sub) c (sh_subCols w)\<rparr>"

definition write_sub :: "user_subscription \<Rightarrow> shop \<Rightarrow> shop" where
  "write_sub sub w = w\<lparr>sh_db := (sh_db w)\<lparr>db_subs := gput (us_Id sub) sub (db_subs (sh_db w))\<rparr>\<rparr>"

definition drop_sub :: "int \<Rightarrow> shop \<Rightarrow> shop" where
  "drop_sub key w = w\<lparr>sh_db := (sh_db w)\<lparr>db_subs := gdel key (db_subs (sh_db w))\<rparr>, sh_subCols := gdel key (sh_subCols w)\<rparr>"

definition write_order :: "subscription_order \<Rightarrow> shop \<Rightarrow> shop" where
  "write_order order w = w\<lparr>sh_orders := gput (so_TradeNo order) order (sh_orders w)\<rparr>"

definition write_topup :: "topup \<Rightarrow> shop \<Rightarrow> shop" where
  "write_topup t w = w\<lparr>sh_topups := gput (tu_TradeNo t) t (sh_topups w)\<rparr>"

definition expire_all_rows :: "int \<Rightarrow> int \<Rightarrow> shop \<Rightarrow> shop" where
  "expire_all_rows now userId w =
     w\<lparr>sh_db := (sh_db w)\<lparr>db_subs := map (\<lambda>(k, s). (k, expire_row now userId s)) (db_subs (sh_db w))\<rparr>\<rparr>"

text \<open>A user who moves to a group; no group means that the user stays.\<close>

definition move_user :: "int \<Rightarrow> string \<Rightarrow> shop \<Rightarrow> shop" where
  "move_user userId g w = (if g = [] then w else put_group userId g w)"

lemmas effect_defs = add_sub_def write_sub_def drop_sub_def write_order_def write_topup_def expire_all_rows_def put_plan_def

lemma quiet_effects [simp]:
  "quiet (add_sub sub c w) = add_sub sub c (quiet w)" "quiet (write_sub sub w) = write_sub sub (quiet w)"
  "quiet (drop_sub k w) = drop_sub k (quiet w)" "quiet (write_order r w) = write_order r (quiet w)"
  "quiet (write_topup t w) = write_topup t (quiet w)" "quiet (expire_all_rows n u w) = expire_all_rows n u (quiet w)"
  "quiet (put_plan k row w) = put_plan k row (quiet w)"
  by (simp_all add: quiet_def effect_defs)

lemma quiet_moves [simp]:
  "quiet (put_group u g w) = put_group u g (quiet w)" "quiet (move_user u g w) = move_user u g (quiet w)"
  "quiet (UpdateUserGroupCache u g w) = UpdateUserGroupCache u g (quiet w)" "quiet (tell_cache u g w) = tell_cache u g (quiet w)"
  by (simp_all add: quiet_def put_group_def move_user_def UpdateUserGroupCache_def tell_cache_def split: option.split)

section \<open>Rules\<close>

lemma on_books_simps [simp]: "outcome (on_books f w) Q E \<longleftrightarrow> outcome (f (sh_db w)) (\<lambda>a db. Q a (w\<lparr>sh_db := db\<rparr>)) (\<lambda>db. E (w\<lparr>sh_db := db\<rparr>))"
  by (auto simp: on_books_def outcome_def split: prod.split sum.split)

lemma shop_queryI:
  assumes "\<And>w'. quiet w' = quiet w \<Longrightarrow> Q () w'" and "\<And>w'. quiet w' = quiet w \<Longrightarrow> E w'"
  shows "outcome (shop_query w) Q E"
  unfolding shop_query_def on_books_simps
  by (rule outcome_queryI) (use assms quiet_books in blast)+

lemma shop_query_cases:
  obtains (failed) e w' where "shop_query w = (Inl e, w')" "quiet w' = quiet w"
    | (ok) w' where "shop_query w = (Inr (), w')" "quiet w' = quiet w"
proof (cases "db_query (sh_db w)")
  case (Pair r db)
  then have "unchanged (sh_db w) db" by (auto simp: db_query_def split: list.splits)
  then show ?thesis
    using that Pair by (cases r) (simp_all add: shop_query_def on_books_def quiet_books)
qed

lemma shop_transactionI:
  assumes body: "outcome (body w) (\<lambda>a s. \<forall>s'. quiet s' = quiet s \<longrightarrow> Q a s') (\<lambda>_. True)"
    and fail: "\<And>w'. quiet w' = quiet w \<Longrightarrow> E w'"
  shows "outcome (shop_transaction w body) Q E"
proof (cases "body w")
  case (Pair r s)
  show ?thesis
  proof (cases r)
    case (Inr a)
    then have Q: "Q a s'" if "quiet s' = quiet s" for s' using body that by (simp add: Pair)
    show ?thesis
      by (rule shop_query_cases [of s]) (use Q fail in \<open>simp_all add: Pair Inr shop_transaction_def\<close>)
  qed (simp add: Pair shop_transaction_def fail)
qed

text \<open>
  \<open>gives x P\<close>: when \<open>x\<close> succeeds its result and the quiet shop satisfy \<open>P\<close>. \<open>applies x w P\<close>: also, when \<open>x\<close>
  fails the quiet shop is that of \<open>w\<close>.
\<close>

definition gives :: "'a shopping \<Rightarrow> ('a \<Rightarrow> shop \<Rightarrow> bool) \<Rightarrow> bool" where
  "gives x P \<longleftrightarrow> outcome x (\<lambda>a w'. P a (quiet w')) (\<lambda>_. True)"

definition applies :: "'a shopping \<Rightarrow> shop \<Rightarrow> ('a \<Rightarrow> shop \<Rightarrow> bool) \<Rightarrow> bool" where
  "applies x w P \<longleftrightarrow> outcome x (\<lambda>a w'. P a (quiet w')) (\<lambda>w'. quiet w' = quiet w)"

lemma gives_simps [simp]:
  "gives (Inl e, w) P" "gives (Inr a, w) P \<longleftrightarrow> P a (quiet w)"
  "applies (Inl e, w') w P \<longleftrightarrow> quiet w' = quiet w" "applies (Inr a, w') w P \<longleftrightarrow> P a (quiet w')"
  by (simp_all add: gives_def applies_def)

lemma applies_gives: "applies x w P \<Longrightarrow> gives x P"
  unfolding applies_def gives_def by (erule outcome_mono) simp_all

lemma gives_mono: "gives x P \<Longrightarrow> (\<And>a q. P a q \<Longrightarrow> Q a q) \<Longrightarrow> gives x Q"
  unfolding gives_def by (erule outcome_mono) simp_all

lemma applies_mono: "applies x w P \<Longrightarrow> (\<And>a q. P a q \<Longrightarrow> Q a q) \<Longrightarrow> applies x w Q"
  unfolding applies_def by (erule outcome_mono) simp_all

lemma applies_from: "applies x w' P \<Longrightarrow> quiet w' = quiet w \<Longrightarrow> applies x w P"
  by (simp add: applies_def)

lemma gives_bnd:
  assumes "gives x P" and "\<And>a w'. P a (quiet w') \<Longrightarrow> gives (f a w') Q"
  shows "gives (bnd x f) Q"
  using assms unfolding gives_def outcome_simps by (auto elim!: outcome_mono)

lemma applies_bnd:
  assumes "applies x w P" and "\<And>a w'. P a (quiet w') \<Longrightarrow> applies (f a w') w Q"
  shows "applies (bnd x f) w Q"
  using assms unfolding applies_def outcome_simps by (auto elim!: outcome_mono)

lemma applies_transaction:
  assumes "gives (body w) P"
  shows "applies (shop_transaction w body) w P"
  unfolding applies_def
proof (rule shop_transactionI)
  show "outcome (body w) (\<lambda>a s. \<forall>s'. quiet s' = quiet s \<longrightarrow> P a (quiet s')) (\<lambda>_. True)"
    using assms unfolding gives_def by (rule outcome_mono) simp_all
qed simp

lemma applies_query: "applies (shop_query w) w (\<lambda>_ q. q = quiet w)"
  unfolding applies_def by (rule shop_queryI) simp_all

lemma applies_then:
  assumes "\<And>w'. quiet w' = quiet w \<Longrightarrow> applies (f () w') w P"
  shows "applies (bnd (shop_query w) f) w P"
  by (rule applies_bnd [OF applies_query]) (use assms in simp)

lemma gives_then:
  assumes "\<And>w'. quiet w' = quiet w \<Longrightarrow> gives (f () w') P"
  shows "gives (bnd (shop_query w) f) P"
  by (rule gives_bnd [OF applies_gives [OF applies_query]]) (use assms in simp)

section \<open>The parts of a sale\<close>

lemma gput_same: "map_of m k = Some v \<Longrightarrow> gput k v m = m"
  by (induction m) auto

lemma put_group_same: "user_group w u = g \<Longrightarrow> put_group u g w = w"
  by (auto simp: put_group_def user_group_def gput_same split: option.splits)

lemma getUserGroup_reads:
  "applies (getUserGroupByIdTx w u) w (\<lambda>g q. q = quiet w \<and> g = user_group w u \<and> 0 < u)"
proof (cases "0 < u")
  case True
  have "applies (bnd (shop_query w) (\<lambda>_ w. (Inr (user_group w u), w))) w (\<lambda>g q. q = quiet w \<and> g = user_group w u \<and> 0 < u)"
    by (rule applies_then) (frule quiet_same(10), simp add: True)
  then show ?thesis using True by (simp add: getUserGroupByIdTx_def)
qed (simp add: getUserGroupByIdTx_def)

lemma update_group_effect: "applies (update_group w u g) w (\<lambda>_ q. q = put_group u g (quiet w))"
  unfolding update_group_def by (rule applies_then) simp

definition remembered :: "string \<Rightarrow> string \<Rightarrow> string" where
  "remembered current upgrade = (if upgrade = [] \<or> current = upgrade then [] else current)"

lemma upgrade_user_effect:
  "applies (upgrade_user w u g) w (\<lambda>prev q. q = move_user u g (quiet w) \<and> prev = remembered (user_group w u) g)"
proof (cases "g = []")
  case False
  have "applies (if c = g then (Inr [], w') else bnd (update_group w' u g) (\<lambda>_ w. (Inr c, w))) w
      (\<lambda>prev q. q = move_user u g (quiet w) \<and> prev = remembered (user_group w u) g)"
    if "quiet w' = quiet w \<and> c = user_group w u \<and> 0 < u" for c w'
  proof (cases "c = g")
    case True
    then show ?thesis using that False put_group_same [of "quiet w" u g] by (simp add: move_user_def remembered_def)
  next
    case neq: False
    have "applies (bnd (update_group w' u g) (\<lambda>_ w. (Inr c, w))) w
      (\<lambda>prev q. q = move_user u g (quiet w) \<and> prev = remembered (user_group w u) g)"
      by (rule applies_bnd [OF applies_from [OF update_group_effect, of w' w]])
        (use that False neq in \<open>simp_all add: move_user_def remembered_def\<close>)
    then show ?thesis using neq by simp
  qed
  then show ?thesis
    unfolding upgrade_user_def if_not_P [OF False] by (rule applies_bnd [OF getUserGroup_reads])
qed (simp add: upgrade_user_def move_user_def remembered_def)

definition within_limit :: "shop \<Rightarrow> int \<Rightarrow> plan_row \<Rightarrow> bool" where
  "within_limit w userId plan \<longleftrightarrow> (let limit = pm_MaxPurchasePerUser (pw_Columns plan) in
     limit > 0 \<longrightarrow> plan_count w userId (pw_Id plan) < limit)"

lemma within_limit_quiet [simp]: "within_limit (quiet w) u plan = within_limit w u plan"
  by (simp add: within_limit_def)

lemma check_limit_reads: "applies (check_limit w u plan) w (\<lambda>_ q. q = quiet w \<and> within_limit w u plan)"
proof (cases "pm_MaxPurchasePerUser (pw_Columns plan) > 0")
  case True
  show ?thesis
    unfolding check_limit_def Let_def if_P [OF True]
    by (rule applies_then) (frule quiet_same(11), simp add: within_limit_def)
qed (simp add: check_limit_def within_limit_def)

lemma create_sub_effect:
  "applies (create_sub w sub c) w (\<lambda>s q. q = add_sub sub c (quiet w) \<and> s = sub \<and> map_of (db_subs (sh_db w)) (us_Id sub) = None)"
  unfolding create_sub_def add_sub_def [symmetric]
proof (rule applies_then)
  fix w'
  assume q: "quiet w' = quiet w"
  show "applies (if map_of (db_subs (sh_db w')) (us_Id sub) \<noteq> None then (Inl (BooksError DbError), w') else (Inr sub, add_sub sub c w')) w
      (\<lambda>s q. q = add_sub sub c (quiet w) \<and> s = sub \<and> map_of (db_subs (sh_db w)) (us_Id sub) = None)"
    by (simp add: q quiet_same(7) [OF q])
qed

text \<open>The effect of a sale: the user moves to the group of the plan, and the new row remembers where from.\<close>

definition upgrade_of :: "plan_row \<Rightarrow> string" where
  "upgrade_of plan = TrimSpace (pl_UpgradeGroup (pw_Plan plan))"

definition sale :: "int \<Rightarrow> int \<Rightarrow> int \<Rightarrow> int \<Rightarrow> plan_row \<Rightarrow> string \<Rightarrow> int \<Rightarrow> shop \<Rightarrow> shop" where
  "sale off dbNow newId userId plan source endUnix w =
     add_sub (new_sub off dbNow newId userId plan endUnix)
       \<lparr>sc_Source = source, sc_UpgradeGroup = upgrade_of plan, sc_PrevUserGroup = remembered (user_group w userId) (upgrade_of plan)\<rparr>
       (move_user userId (upgrade_of plan) w)"

definition sellable :: "int \<Rightarrow> int \<Rightarrow> int \<Rightarrow> int \<Rightarrow> plan_row \<Rightarrow> int \<Rightarrow> shop \<Rightarrow> bool" where
  "sellable off dbNow newId userId plan endUnix w \<longleftrightarrow>
     pw_Id plan \<noteq> 0 \<and> 0 < userId \<and> within_limit w userId plan \<and> calcPlanEndTime off dbNow (pw_Plan plan) = Inr endUnix
     \<and> map_of (db_subs (sh_db w)) newId = None"

lemma sellable_quiet [simp]: "sellable off dbNow newId u plan e (quiet w) = sellable off dbNow newId u plan e w"
  by (simp add: sellable_def)

lemma move_user_fields [simp]:
  "sh_db (move_user u g w) = sh_db w" "sh_subCols (move_user u g w) = sh_subCols w" "sh_planCols (move_user u g w) = sh_planCols w"
  "sh_cached (move_user u g w) = sh_cached w" "sh_orders (move_user u g w) = sh_orders w" "sh_topups (move_user u g w) = sh_topups w"
  by (simp_all add: move_user_def put_group_def split: option.split)

lemma create_gives:
  "gives (CreateUserSubscriptionFromPlanTx off dbNow newId w u plan source)
     (\<lambda>_ q. \<exists>e. sellable off dbNow newId u plan e w \<and> q = sale off dbNow newId u plan source e (quiet w))"
proof -
  have sold: "gives (bnd (upgrade_user w' u (upgrade_of plan)) (\<lambda>prev w.
      create_sub w (new_sub off dbNow newId u plan e) \<lparr>sc_Source = source, sc_UpgradeGroup = upgrade_of plan, sc_PrevUserGroup = prev\<rparr>))
     (\<lambda>_ q. \<exists>e. sellable off dbNow newId u plan e w \<and> q = sale off dbNow newId u plan source e (quiet w))"
    if "pw_Id plan \<noteq> 0" "0 < u" "quiet w' = quiet w" "within_limit w u plan" "calcPlanEndTime off dbNow (pw_Plan plan) = Inr e" for w' e
  proof (rule gives_bnd [OF applies_gives [OF upgrade_user_effect]])
    fix prev w2
    assume moved: "quiet w2 = move_user u (upgrade_of plan) (quiet w') \<and> prev = remembered (user_group w' u) (upgrade_of plan)"
    have "db_subs (sh_db w2) = db_subs (sh_db w)" using moved that(3) by (metis move_user_fields(1) quiet_fields(7))
    then show "gives (create_sub w2 (new_sub off dbNow newId u plan e)
        \<lparr>sc_Source = source, sc_UpgradeGroup = upgrade_of plan, sc_PrevUserGroup = prev\<rparr>)
     (\<lambda>_ q. \<exists>e. sellable off dbNow newId u plan e w \<and> q = sale off dbNow newId u plan source e (quiet w))"
      using moved that(1,2,4,5) that(3) quiet_same(10) [OF that(3)]
      by (intro gives_mono [OF applies_gives [OF create_sub_effect]] exI [of _ e])
        (simp add: sellable_def sale_def new_sub_def Let_def)
  qed
  show ?thesis
    unfolding CreateUserSubscriptionFromPlanTx_def upgrade_of_def [symmetric] Let_def
    using sold by (cases "calcPlanEndTime off dbNow (pw_Plan plan)")
      (simp_all add: gives_bnd [OF applies_gives [OF check_limit_reads]])
qed

section \<open>Orders\<close>

definition shop_plan :: "shop \<Rightarrow> int \<Rightarrow> plan_row option" where
  "shop_plan w key =
     (case (map_of (db_plans (sh_db w)) key, map_of (sh_planCols w) key) of
        (Some plan, Some c) \<Rightarrow> Some \<lparr>pw_Id = key, pw_Plan = plan, pw_Columns = c\<rparr>
      | _ \<Rightarrow> None)"

lemma shop_plan_quiet [simp]: "shop_plan (quiet w) = shop_plan w"
  by (simp add: shop_plan_def fun_eq_iff)

lemma GetSubscriptionPlanById_reads:
  "applies (GetSubscriptionPlanById w key) w (\<lambda>plan q. q = quiet w \<and> 0 < key \<and> shop_plan w key = Some plan)"
proof -
  have "outcome (getSubscriptionPlanByIdTx (sh_db w) key)
      (\<lambda>p db. unchanged (sh_db w) db \<and> map_of (db_plans (sh_db w)) key = Some p \<and> 0 < key) (unchanged (sh_db w))"
    using plan_unchanged [of "sh_db w" key] by (cases "0 < key") (auto simp: getSubscriptionPlanByIdTx_def split: list.split option.split)
  then have "applies (on_books (\<lambda>db. getSubscriptionPlanByIdTx db key) w) w
      (\<lambda>p q. q = quiet w \<and> map_of (db_plans (sh_db w)) key = Some p \<and> 0 < key)"
    unfolding applies_def on_books_simps by (rule outcome_mono) (simp_all add: quiet_books)
  then show ?thesis
    unfolding GetSubscriptionPlanById_def
    by (rule applies_bnd) (elim conjE, frule quiet_same(2), simp add: shop_plan_def split: option.split)
qed

definition provider_ok :: "string \<Rightarrow> subscription_order \<Rightarrow> bool" where
  "provider_ok expected order \<longleftrightarrow> expected = [] \<or> so_PaymentProvider order = expected"

lemma find_order_reads:
  "applies (find_order w tradeNo expected) w
     (\<lambda>order q. q = quiet w \<and> map_of (sh_orders w) tradeNo = Some order \<and> provider_ok expected order)"
  by (rule shop_query_cases [of w])
    (auto simp: find_order_def provider_ok_def dest: quiet_same(5) split: option.split)

definition settled_topup :: "int \<Rightarrow> subscription_order \<Rightarrow> topup option \<Rightarrow> topup" where
  "settled_topup now order old =
     (case old of
        None \<Rightarrow> \<lparr>tu_UserId = so_UserId order, tu_Amount = 0, tu_Money = so_Money order, tu_TradeNo = so_TradeNo order,
            tu_PaymentMethod = so_PaymentMethod order, tu_PaymentProvider = [], tu_CreateTime = so_CreateTime order,
            tu_CompleteTime = now, tu_Status = TopUpStatusSuccess\<rparr>
      | Some t \<Rightarrow> t\<lparr>tu_Money := so_Money order, tu_PaymentMethod := so_PaymentMethod order,
             tu_CreateTime := (if tu_CreateTime t = 0 then so_CreateTime order else tu_CreateTime t),
             tu_CompleteTime := now, tu_Status := TopUpStatusSuccess\<rparr>)"

lemma put_topup_effect: "applies (put_topup w t) w (\<lambda>_ q. q = write_topup t (quiet w))"
  unfolding put_topup_def write_topup_def [symmetric] by (rule applies_then) simp

lemma save_order_effect: "applies (save_order w order) w (\<lambda>_ q. q = write_order order (quiet w))"
  unfolding save_order_def write_order_def [symmetric] by (rule applies_then) simp

lemma upsert_effect:
  "applies (upsertSubscriptionTopUpTx now w order) w
     (\<lambda>_ q. q = write_topup (settled_topup now order (map_of (sh_topups w) (so_TradeNo order))) (quiet w))"
  unfolding upsertSubscriptionTopUpTx_def
proof (rule applies_then)
  fix w'
  assume q: "quiet w' = quiet w"
  have put: "applies (put_topup w' t) w (\<lambda>_ q. q = write_topup t (quiet w))" for t
    using applies_from [OF put_topup_effect q] by (simp add: q)
  show "applies (case map_of (sh_topups w') (so_TradeNo order) of
         None \<Rightarrow> put_topup w'
           \<lparr>tu_UserId = so_UserId order, tu_Amount = 0, tu_Money = so_Money order, tu_TradeNo = so_TradeNo order,
            tu_PaymentMethod = so_PaymentMethod order, tu_PaymentProvider = [], tu_CreateTime = so_CreateTime order,
            tu_CompleteTime = now, tu_Status = TopUpStatusSuccess\<rparr>
       | Some t \<Rightarrow>
           if tu_PaymentMethod t \<noteq> [] \<and> tu_PaymentMethod t \<noteq> so_PaymentMethod order then (Inl PaymentMethodMismatch, w')
           else put_topup w' (t\<lparr>tu_Money := so_Money order, tu_PaymentMethod := so_PaymentMethod order,
             tu_CreateTime := (if tu_CreateTime t = 0 then so_CreateTime order else tu_CreateTime t),
             tu_CompleteTime := now, tu_Status := TopUpStatusSuccess\<rparr>)) w
     (\<lambda>_ q. q = write_topup (settled_topup now order (map_of (sh_topups w) (so_TradeNo order))) (quiet w))"
    using put by (simp add: quiet_same(6) [OF q] settled_topup_def q split: option.split)
qed

text \<open>The effect of a completed order.\<close>

definition order_sale ::
  "int \<Rightarrow> int \<Rightarrow> int \<Rightarrow> int \<Rightarrow> string \<Rightarrow> string \<Rightarrow> subscription_order \<Rightarrow> plan_row \<Rightarrow> int \<Rightarrow> shop \<Rightarrow> shop" where
  "order_sale off now dbNow newId payload pmt order plan endUnix w =
     write_order (completed_order now payload pmt order)
       (write_topup (settled_topup now order (map_of (sh_topups w) (so_TradeNo order)))
         (sale off dbNow newId (so_UserId order) plan ''order'' endUnix w))"

definition order_sellable ::
  "int \<Rightarrow> int \<Rightarrow> int \<Rightarrow> string \<Rightarrow> string \<Rightarrow> subscription_order \<Rightarrow> plan_row \<Rightarrow> int \<Rightarrow> shop \<Rightarrow> bool" where
  "order_sellable off dbNow newId tradeNo expected order plan endUnix w \<longleftrightarrow>
     map_of (sh_orders w) tradeNo = Some order \<and> so_Status order = TopUpStatusPending \<and> provider_ok expected order
     \<and> shop_plan w (so_PlanId order) = Some plan \<and> sellable off dbNow newId (so_UserId order) plan endUnix w"

lemma order_sellable_quiet [simp]:
  "order_sellable off dbNow newId t x order plan e (quiet w) = order_sellable off dbNow newId t x order plan e w"
  by (simp add: order_sellable_def)

lemma sale_fields [simp]:
  "sh_orders (sale off d k u plan src e w) = sh_orders w" "sh_topups (sale off d k u plan src e w) = sh_topups w"
  "sh_planCols (sale off d k u plan src e w) = sh_planCols w" "sh_cached (sale off d k u plan src e w) = sh_cached w"
  "db_plans (sh_db (sale off d k u plan src e w)) = db_plans (sh_db w)"
  by (simp_all add: sale_def add_sub_def)

text \<open>What a transaction that completes an order may do: nothing to a completed order, or the whole sale.\<close>

definition completion ::
  "int \<Rightarrow> int \<Rightarrow> int \<Rightarrow> int \<Rightarrow> string \<Rightarrow> string \<Rightarrow> string \<Rightarrow> string \<Rightarrow> shop \<Rightarrow> int \<times> string \<Rightarrow> shop \<Rightarrow> bool" where
  "completion off now dbNow newId tradeNo payload expected pmt w r q \<longleftrightarrow>
     (fst r = 0 \<and> q = quiet w \<and> (\<exists>order. map_of (sh_orders w) tradeNo = Some order \<and> so_Status order = TopUpStatusSuccess))
     \<or> (\<exists>order plan e. order_sellable off dbNow newId tradeNo expected order plan e w \<and> r = (so_UserId order, upgrade_of plan)
         \<and> q = order_sale off now dbNow newId payload pmt order plan e (quiet w))"

lemma complete_order_gives:
  "gives (complete_order off now dbNow newId tradeNo payload expected pmt w)
     (completion off now dbNow newId tradeNo payload expected pmt w)"
  (is "gives _ ?P")
  unfolding complete_order_def
proof (rule gives_bnd [OF applies_gives [OF find_order_reads]], elim conjE)
  fix order w1
  assume q1: "quiet w1 = quiet w" and found: "map_of (sh_orders w) tradeNo = Some order" "provider_ok expected order"
  let ?order = "completed_order now payload pmt order"
  have "gives (bnd (GetSubscriptionPlanById w1 (so_PlanId order)) (\<lambda>plan w.
         bnd (CreateUserSubscriptionFromPlanTx off dbNow newId w (so_UserId order) plan ''order'') (\<lambda>_ w.
         bnd (upsertSubscriptionTopUpTx now w order) (\<lambda>_ w.
         bnd (save_order w ?order) (\<lambda>_ w. (Inr (so_UserId order, TrimSpace (pl_UpgradeGroup (pw_Plan plan))), w)))))) ?P"
    if pending: "so_Status order = TopUpStatusPending"
  proof (rule gives_bnd [OF applies_gives [OF GetSubscriptionPlanById_reads]], elim conjE,
      rule gives_bnd [OF create_gives], elim exE conjE, rule gives_bnd [OF applies_gives [OF upsert_effect]],
      rule gives_bnd [OF applies_gives [OF save_order_effect]])
    fix plan w2 a w3 e b w4 c w5
    assume q2: "quiet w2 = quiet w1" and plan: "shop_plan w1 (so_PlanId order) = Some plan"
      and sellable: "sellable off dbNow newId (so_UserId order) plan e w2"
      and q3: "quiet w3 = sale off dbNow newId (so_UserId order) plan ''order'' e (quiet w2)"
      and q4: "quiet w4 = write_topup (settled_topup now order (map_of (sh_topups w3) (so_TradeNo order))) (quiet w3)"
      and q5: "quiet w5 = write_order ?order (quiet w4)"
    have tops: "sh_topups w3 = sh_topups w" using q3 q2 q1 by (metis quiet_fields(6) sale_fields(2))
    have "order_sellable off dbNow newId tradeNo expected order plan e w"
      using found pending plan sellable q1 q2 unfolding order_sellable_def by (metis shop_plan_quiet sellable_quiet)
    moreover have "quiet w5 = order_sale off now dbNow newId payload pmt order plan e (quiet w)"
      by (simp add: q5 q4 q3 q2 q1 order_sale_def tops)
    ultimately show "gives (Inr (so_UserId order, TrimSpace (pl_UpgradeGroup (pw_Plan plan))), w5) ?P"
      by (auto simp: completion_def upgrade_of_def)
  qed
  moreover have "?P (0, []) (quiet w1)" if "so_Status order = TopUpStatusSuccess"
    using found that q1 by (simp add: completion_def)
  ultimately show "gives (if so_Status order = TopUpStatusSuccess then (Inr (0, []), w1)
       else if so_Status order \<noteq> TopUpStatusPending then (Inl OrderStatusInvalid, w1)
       else bnd (GetSubscriptionPlanById w1 (so_PlanId order)) (\<lambda>plan w.
         bnd (CreateUserSubscriptionFromPlanTx off dbNow newId w (so_UserId order) plan ''order'') (\<lambda>_ w.
         bnd (upsertSubscriptionTopUpTx now w order) (\<lambda>_ w.
         bnd (save_order w ?order) (\<lambda>_ w. (Inr (so_UserId order, TrimSpace (pl_UpgradeGroup (pw_Plan plan))), w)))))) ?P"
    by (cases "so_Status order = TopUpStatusSuccess") simp_all
qed

section \<open>Operations\<close>

lemma CompleteSubscriptionOrder_effect:
  "applies (CompleteSubscriptionOrder off now dbNow newId tradeNo payload expected pmt w) w
     (\<lambda>_ q. \<exists>r q0. completion off now dbNow newId tradeNo payload expected pmt w r q0 \<and> q = tell_cache (fst r) (snd r) q0)"
proof (cases "tradeNo = []")
  case False
  show ?thesis
    unfolding CompleteSubscriptionOrder_def if_not_P [OF False]
    by (rule applies_bnd [OF applies_transaction [OF complete_order_gives]])
      (auto simp: tell_cache_def split: prod.splits)
qed (simp add: CompleteSubscriptionOrder_def)

definition expired_order :: "int \<Rightarrow> subscription_order \<Rightarrow> subscription_order" where
  "expired_order now order = order\<lparr>so_Status := TopUpStatusExpired, so_CompleteTime := now\<rparr>"

lemma ExpireSubscriptionOrder_effect:
  "applies (ExpireSubscriptionOrder now tradeNo expected w) w
     (\<lambda>_ q. \<exists>order. map_of (sh_orders w) tradeNo = Some order
       \<and> q = (if so_Status order = TopUpStatusPending then write_order (expired_order now order) (quiet w) else quiet w))"
  (is "applies _ _ ?P")
proof (cases "tradeNo = []")
  case False
  have body: "gives (if so_Status order \<noteq> TopUpStatusPending then (Inr (), w') else save_order w' (expired_order now order)) ?P"
    if "quiet w' = quiet w \<and> map_of (sh_orders w) tradeNo = Some order \<and> provider_ok expected order" for order w'
  proof (cases "so_Status order = TopUpStatusPending")
    case True
    then show ?thesis using that by (auto intro!: gives_mono [OF applies_gives [OF save_order_effect]])
  qed (use that in simp)
  show ?thesis
    unfolding ExpireSubscriptionOrder_def if_not_P [OF False] expired_order_def [symmetric]
    by (rule applies_transaction, rule gives_bnd [OF applies_gives [OF find_order_reads] body])
qed (simp add: ExpireSubscriptionOrder_def)

text \<open>The cached copy of a user after the operations that name a group without checking the user again.\<close>

definition cache_group :: "int \<Rightarrow> string \<Rightarrow> shop \<Rightarrow> shop" where
  "cache_group userId g w = (if g = [] then w else UpdateUserGroupCache userId g w)"

lemma cache_group_quiet [simp]: "quiet (cache_group u g w) = cache_group u g (quiet w)"
  by (simp add: cache_group_def)

lemma tell_cache_group: "0 < u \<Longrightarrow> tell_cache u g w = cache_group u g w"
  by (simp add: tell_cache_def cache_group_def)

definition shown_group :: "plan_row \<Rightarrow> string" where
  "shown_group plan = (if upgrade_of plan = [] then [] else pl_UpgradeGroup (pw_Plan plan))"

lemma AdminBindSubscription_effect:
  "applies (AdminBindSubscription off dbNow newId u planId w) w
     (\<lambda>g q. \<exists>plan e. shop_plan w planId = Some plan \<and> sellable off dbNow newId u plan e w \<and> g = shown_group plan
       \<and> q = cache_group u (shown_group plan) (sale off dbNow newId u plan ''admin'' e (quiet w)))"
  (is "applies _ _ ?P")
proof (cases "u \<le> 0 \<or> planId \<le> 0")
  case False
  have "applies (bnd (shop_transaction w1 (\<lambda>w. CreateUserSubscriptionFromPlanTx off dbNow newId w u plan ''admin'')) (\<lambda>_ w.
          let upgradeGroup = pl_UpgradeGroup (pw_Plan plan) in
          if TrimSpace upgradeGroup \<noteq> [] then (Inr upgradeGroup, UpdateUserGroupCache u upgradeGroup w)
          else (Inr [], w))) w ?P"
    if q1: "quiet w1 = quiet w" and plan: "shop_plan w planId = Some plan" for plan w1
  proof (rule applies_bnd [OF applies_from [OF applies_transaction [OF create_gives] q1]], elim exE conjE)
    fix sub w2 e
    assume "sellable off dbNow newId u plan e w1" and q2: "quiet w2 = sale off dbNow newId u plan ''admin'' e (quiet w1)"
    then have "sellable off dbNow newId u plan e w" using q1 by (metis sellable_quiet)
    then show "applies (let upgradeGroup = pl_UpgradeGroup (pw_Plan plan) in
          if TrimSpace upgradeGroup \<noteq> [] then (Inr upgradeGroup, UpdateUserGroupCache u upgradeGroup w2)
          else (Inr [], w2)) w ?P"
      using plan q1 q2
      by (auto simp: shown_group_def upgrade_of_def cache_group_def Let_def intro!: exI [of _ plan] exI [of _ e])
  qed
  then show ?thesis
    unfolding AdminBindSubscription_def if_not_P [OF False]
    by (intro applies_bnd [OF GetSubscriptionPlanById_reads]) blast
qed (simp add: AdminBindSubscription_def)

text \<open>
  A downgrade goes back to the group that the subscription remembers, or does nothing; a failed look for
  other subscriptions counts as having found none.
\<close>

definition may_leave :: "shop \<Rightarrow> int \<Rightarrow> sub_columns \<Rightarrow> string \<Rightarrow> bool" where
  "may_leave w u c g \<longleftrightarrow> g = [] \<or> g = TrimSpace (sc_PrevUserGroup c) \<and> user_group w u = TrimSpace (sc_UpgradeGroup c)
     \<and> user_group w u \<noteq> [] \<and> g \<noteq> user_group w u"

lemma may_leave_quiet [simp]: "may_leave (quiet w) u c g = may_leave w u c g"
  by (simp add: may_leave_def)

lemma restore_group_effect:
  assumes "user_group w u = TrimSpace (sc_UpgradeGroup c)" and "user_group w u \<noteq> []"
  shows "applies (restore_group c u (user_group w u) w) w (\<lambda>g q. q = move_user u g (quiet w) \<and> may_leave w u c g)"
proof -
  let ?g = "TrimSpace (sc_PrevUserGroup c)"
  have "applies (bnd (update_group w u ?g) (\<lambda>_ w. (Inr ?g, w))) w (\<lambda>g q. q = move_user u g (quiet w) \<and> may_leave w u c g)"
    if "?g \<noteq> []" "?g \<noteq> user_group w u"
    by (rule applies_bnd [OF update_group_effect]) (use assms that in \<open>simp add: move_user_def may_leave_def\<close>)
  then show ?thesis by (simp add: restore_group_def Let_def move_user_def may_leave_def)
qed

lemma downgrade_effect:
  "applies (downgradeUserGroupForSubscriptionTx w sub c now) w
     (\<lambda>g q. q = move_user (us_UserId sub) g (quiet w) \<and> may_leave w (us_UserId sub) c g)" (is "applies _ _ ?P")
proof -
  let ?u = "us_UserId sub" and ?g = "TrimSpace (sc_UpgradeGroup c)"
  have stay: "applies (Inr [], w') w ?P" if "quiet w' = quiet w" for w'
    using that by (simp add: move_user_def may_leave_def)
  have restore: "applies (restore_group c ?u (user_group w ?u) w') w ?P"
    if "quiet w' = quiet w" "user_group w ?u = ?g" "?g \<noteq> []" for w'
    using applies_from [OF restore_group_effect [of w' ?u c] that(1)] that quiet_same(10) [OF that(1)]
    by (simp add: may_leave_def)
  have "applies (if g \<noteq> ?g then (Inr [], w1) else case shop_query w1 of
            (Inl _, w) \<Rightarrow> restore_group c ?u g w
          | (Inr _, w) \<Rightarrow> if holds_group w ?u now (\<lambda>k. k \<noteq> us_Id sub) then (Inr [], w) else restore_group c ?u g w) w ?P"
    if "quiet w1 = quiet w \<and> g = user_group w ?u \<and> 0 < ?u" "?g \<noteq> []" for g w1
    by (rule shop_query_cases [of w1]) (use that stay restore in simp_all)
  then show ?thesis
    using stay unfolding downgradeUserGroupForSubscriptionTx_def Let_def
    by (cases "?g = []") (simp_all add: applies_bnd [OF getUserGroup_reads])
qed

lemma find_user_sub_reads:
  "applies (find_user_sub w key) w (\<lambda>sub q. q = quiet w \<and> map_of (db_subs (sh_db w)) key = Some sub)"
proof -
  have "outcome (find_sub (sh_db w) key) (\<lambda>s db. unchanged (sh_db w) db \<and> map_of (db_subs (sh_db w)) key = Some s) (unchanged (sh_db w))"
    by (auto simp: find_sub_def split: list.split option.split)
  then show ?thesis
    unfolding find_user_sub_def applies_def on_books_simps by (rule outcome_mono) (simp_all add: quiet_books)
qed

lemma save_sub_effect: "applies (on_books (\<lambda>db. save_sub db sub) w) w (\<lambda>_ q. q = write_sub sub (quiet w))"
  unfolding applies_def on_books_simps save_sub_def
  by (auto simp: quiet_def write_sub_def split: list.split)

definition cancelled_sub :: "int \<Rightarrow> user_subscription \<Rightarrow> user_subscription" where
  "cancelled_sub now sub = sub\<lparr>us_Status := ''cancelled'', us_EndTime := now\<rparr>"

lemma cancelled_sub_fields [simp]:
  "us_Id (cancelled_sub now sub) = us_Id sub" "us_UserId (cancelled_sub now sub) = us_UserId sub"
  "us_PlanId (cancelled_sub now sub) = us_PlanId sub" "sub_ok (cancelled_sub now sub) = sub_ok sub"
  by (simp_all add: cancelled_sub_def sub_ok_def)

lemma write_sub_reads [simp]:
  "user_group (write_sub sub w) = user_group w" "sub_columns_of (write_sub sub w) = sub_columns_of w"
  by (simp_all add: write_sub_def user_group_def sub_columns_of_def fun_eq_iff)

lemma AdminInvalidateUserSubscription_effect:
  "applies (AdminInvalidateUserSubscription now key w) w
     (\<lambda>g q. \<exists>sub. map_of (db_subs (sh_db w)) key = Some sub \<and> may_leave w (us_UserId sub) (sub_columns_of w key) g
       \<and> q = tell_cache (us_UserId sub) g (move_user (us_UserId sub) g (write_sub (cancelled_sub now sub) (quiet w))))"
  (is "applies _ _ ?P")
proof (cases "key \<le> 0")
  case False
  let ?body = "\<lambda>w. bnd (find_user_sub w key) (\<lambda>sub w.
      bnd (on_books (\<lambda>db. save_sub db (cancelled_sub now sub)) w) (\<lambda>_ w.
      bnd (downgradeUserGroupForSubscriptionTx w (cancelled_sub now sub) (sub_columns_of w key) now) (\<lambda>target w.
        (Inr (us_UserId sub, target), w))))"
  have body: "gives (?body w) (\<lambda>(u, g) q. \<exists>sub. map_of (db_subs (sh_db w)) key = Some sub \<and> u = us_UserId sub
      \<and> may_leave w u (sub_columns_of w key) g \<and> q = move_user u g (write_sub (cancelled_sub now sub) (quiet w)))"
  proof (rule gives_bnd [OF applies_gives [OF find_user_sub_reads]], elim conjE,
      rule gives_bnd [OF applies_gives [OF save_sub_effect]], rule gives_bnd [OF applies_gives [OF downgrade_effect]], elim conjE)
    fix sub w1 a w2 g w3
    assume q1: "quiet w1 = quiet w" and sub: "map_of (db_subs (sh_db w)) key = Some sub"
      and q2: "quiet w2 = write_sub (cancelled_sub now sub) (quiet w1)"
      and q3: "quiet w3 = move_user (us_UserId (cancelled_sub now sub)) g (quiet w2)"
      and leave: "may_leave w2 (us_UserId (cancelled_sub now sub)) (sub_columns_of w2 key) g"
    have same: "user_group w2 = user_group w" "sub_columns_of w2 = sub_columns_of w"
      using q2 q1 by (metis quiet_reads write_sub_reads)+
    then have "may_leave w (us_UserId sub) (sub_columns_of w key) g" using leave by (simp add: may_leave_def)
    then show "gives (Inr (us_UserId sub, g), w3) (\<lambda>(u, g) q. \<exists>sub. map_of (db_subs (sh_db w)) key = Some sub \<and> u = us_UserId sub
      \<and> may_leave w u (sub_columns_of w key) g \<and> q = move_user u g (write_sub (cancelled_sub now sub) (quiet w)))"
      using sub q1 q2 q3 by simp
  qed
  show ?thesis
    unfolding AdminInvalidateUserSubscription_def if_not_P [OF False] Let_def cancelled_sub_def [symmetric]
    by (rule applies_bnd [OF applies_transaction [where body = ?body, OF body]]) (auto split: prod.splits)
qed (simp add: AdminInvalidateUserSubscription_def)

lemma delete_sub_effect: "applies (delete_sub w key) w (\<lambda>_ q. q = drop_sub key (quiet w))"
  unfolding delete_sub_def drop_sub_def [symmetric] by (rule applies_then) simp

lemma AdminDeleteUserSubscription_effect:
  "applies (AdminDeleteUserSubscription now key w) w
     (\<lambda>g q. \<exists>sub. map_of (db_subs (sh_db w)) key = Some sub \<and> may_leave w (us_UserId sub) (sub_columns_of w key) g
       \<and> q = tell_cache (us_UserId sub) g (drop_sub key (move_user (us_UserId sub) g (quiet w))))"
  (is "applies _ _ ?P")
proof (cases "key \<le> 0")
  case False
  let ?body = "\<lambda>w. bnd (find_user_sub w key) (\<lambda>sub w.
      bnd (downgradeUserGroupForSubscriptionTx w sub (sub_columns_of w key) now) (\<lambda>target w.
      bnd (delete_sub w key) (\<lambda>_ w. (Inr (us_UserId sub, target), w))))"
  have body: "gives (?body w) (\<lambda>(u, g) q. \<exists>sub. map_of (db_subs (sh_db w)) key = Some sub \<and> u = us_UserId sub
      \<and> may_leave w u (sub_columns_of w key) g \<and> q = drop_sub key (move_user u g (quiet w)))"
  proof (rule gives_bnd [OF applies_gives [OF find_user_sub_reads]], elim conjE,
      rule gives_bnd [OF applies_gives [OF downgrade_effect]], elim conjE, rule gives_bnd [OF applies_gives [OF delete_sub_effect]])
    fix sub w1 g w2 a w3
    assume q1: "quiet w1 = quiet w" and sub: "map_of (db_subs (sh_db w)) key = Some sub"
      and q2: "quiet w2 = move_user (us_UserId sub) g (quiet w1)" and q3: "quiet w3 = drop_sub key (quiet w2)"
      and leave: "may_leave w1 (us_UserId sub) (sub_columns_of w1 key) g"
    have "may_leave w (us_UserId sub) (sub_columns_of w key) g" using leave quiet_same(10,12) [OF q1] by (simp add: may_leave_def)
    then show "gives (Inr (us_UserId sub, g), w3) (\<lambda>(u, g) q. \<exists>sub. map_of (db_subs (sh_db w)) key = Some sub \<and> u = us_UserId sub
      \<and> may_leave w u (sub_columns_of w key) g \<and> q = drop_sub key (move_user u g (quiet w)))"
      using sub q1 q2 q3 by simp
  qed
  show ?thesis
    unfolding AdminDeleteUserSubscription_def if_not_P [OF False]
    by (rule applies_bnd [OF applies_transaction [where body = ?body, OF body]]) (auto split: prod.splits)
qed (simp add: AdminDeleteUserSubscription_def)

section \<open>Expiry\<close>

definition due_count :: "int \<Rightarrow> int \<Rightarrow> shop \<Rightarrow> int" where
  "due_count now u w = int (length (filter (\<lambda>s. us_UserId s = u \<and> due now s) (map snd (db_subs (sh_db w)))))"

lemma due_count_quiet [simp]: "due_count now u (quiet w) = due_count now u w"
  by (simp add: due_count_def)

lemma expire_rows_effect:
  "applies (expire_rows now u w) w (\<lambda>n q. n = due_count now u w \<and> q = expire_all_rows now u (quiet w))"
  unfolding expire_rows_def expire_all_rows_def [symmetric] due_count_def [symmetric]
  by (rule applies_then) (frule quiet_same(7), simp add: due_count_def)

lemma leave_group_effect:
  "applies (leave_group u c w) w (\<lambda>g q. q = move_user u g (quiet w) \<and> may_leave w u c g)" (is "applies _ _ ?P")
proof -
  let ?up = "TrimSpace (sc_UpgradeGroup c)" and ?prev = "TrimSpace (sc_PrevUserGroup c)"
  have "applies (if g \<noteq> ?up \<or> g = ?prev then (Inr [], w1) else bnd (update_group w1 u ?prev) (\<lambda>_ w. (Inr ?prev, w))) w ?P"
    if "quiet w1 = quiet w \<and> g = user_group w u \<and> 0 < u" "?up \<noteq> []" "?prev \<noteq> []" for g w1
  proof (cases "g \<noteq> ?up \<or> g = ?prev")
    case False
    have "applies (bnd (update_group w1 u ?prev) (\<lambda>_ w. (Inr ?prev, w))) w ?P"
      by (rule applies_bnd [OF applies_from [OF update_group_effect, of w1 w]])
        (use that False in \<open>auto simp: move_user_def may_leave_def\<close>)
    then show ?thesis using False by simp
  qed (use that in \<open>simp add: move_user_def may_leave_def\<close>)
  then show ?thesis
    by (auto simp: leave_group_def Let_def move_user_def may_leave_def intro!: applies_bnd [OF getUserGroup_reads])
qed

text \<open>A user who leaves a group at expiry leaves it by the subscription that ended last.\<close>

definition leaves_last :: "int \<Rightarrow> shop \<Rightarrow> string \<Rightarrow> bool" where
  "leaves_last u w g \<longleftrightarrow> g = [] \<or> (\<exists>s. last_expired w u = Some s \<and> may_leave w u (sub_columns_of w (us_Id s)) g)"

lemma after_expiry_effect:
  "applies (after_expiry now u w) w (\<lambda>g q. q = move_user u g (quiet w) \<and> leaves_last u w g)" (is "applies _ _ ?P")
proof -
  have stay: "applies (Inr [], w') w ?P" if "quiet w' = quiet w" for w'
    using that by (simp add: move_user_def leaves_last_def)
  have leave: "applies (case last_expired w' u of None \<Rightarrow> (Inr [], w') | Some s \<Rightarrow> leave_group u (sub_columns_of w' (us_Id s)) w') w ?P"
    if q: "quiet w' = quiet w" for w'
  proof (cases "last_expired w u")
    case (Some s)
    have "applies (leave_group u (sub_columns_of w (us_Id s)) w') w ?P"
      by (rule applies_mono [OF applies_from [OF leave_group_effect q]])
        (use Some q quiet_same(10) [OF q] in \<open>auto simp: leaves_last_def may_leave_def\<close>)
    then show ?thesis using Some quiet_same(12,14) [OF q] by simp
  qed (use stay [OF q] quiet_same(14) [OF q] in simp)
  have second: "applies (case shop_query w' of (Inl _, w) \<Rightarrow> (Inr [], w)
      | (Inr _, w) \<Rightarrow> (case last_expired w u of None \<Rightarrow> (Inr [], w) | Some s \<Rightarrow> leave_group u (sub_columns_of w (us_Id s)) w)) w ?P"
    if "quiet w' = quiet w" for w'
    by (rule shop_query_cases [of w']) (use stay leave that in simp_all)
  show ?thesis
    unfolding after_expiry_def by (rule shop_query_cases [of w]) (use stay second in simp_all)
qed

lemma expire_user_effect:
  "applies (expire_user now u w) w
     (\<lambda>n q. n = due_count now u w \<and> (\<exists>g. leaves_last u (expire_all_rows now u (quiet w)) g
       \<and> q = cache_group u g (move_user u g (expire_all_rows now u (quiet w)))))"
proof -
  let ?body = "\<lambda>w. bnd (expire_rows now u w) (\<lambda>n w. bnd (after_expiry now u w) (\<lambda>g w. (Inr (n, g), w)))"
  have body: "gives (?body w)
     (\<lambda>(n, g) q. n = due_count now u w \<and> leaves_last u (expire_all_rows now u (quiet w)) g
        \<and> q = move_user u g (expire_all_rows now u (quiet w)))"
  proof (rule gives_bnd [OF applies_gives [OF expire_rows_effect]], elim conjE,
      rule gives_bnd [OF applies_gives [OF after_expiry_effect]], elim conjE)
    fix n w1 g w2
    assume "n = due_count now u w" and q1: "quiet w1 = expire_all_rows now u (quiet w)" and "quiet w2 = move_user u g (quiet w1)"
      and "leaves_last u w1 g"
    moreover have "leaves_last u (quiet w1) g" using \<open>leaves_last u w1 g\<close> by (simp add: leaves_last_def)
    ultimately show "gives (Inr (n, g), w2) (\<lambda>(n, g) q. n = due_count now u w \<and> leaves_last u (expire_all_rows now u (quiet w)) g
        \<and> q = move_user u g (expire_all_rows now u (quiet w)))"
      by simp
  qed
  show ?thesis
    unfolding expire_user_def by (rule applies_bnd [OF applies_transaction [where body = ?body, OF body]]) (auto simp: cache_group_def split: prod.splits)
qed

end
