(* ===== verification/Shop_Properties.thy ===== *)
theory Shop_Properties
  imports Shop_Effects
begin

text \<open>
  The shop as a whole: an abstract machine of undivided changes, the refinement of every operation into it
  under all failures of the database, and what holds in every reachable shop: a subscription from an order
  is paid for by an order of its own, and no sale passes the limit of its plan.
\<close>

section \<open>The abstract machine\<close>

text \<open>Rows that billing may rewrite: their ids, users and plans stay, and the bounds of billing hold.\<close>

definition same_rows :: "billing_db \<Rightarrow> billing_db \<Rightarrow> bool" where
  "same_rows db db' \<longleftrightarrow> map (\<lambda>(k, s). (k, us_Id s, us_UserId s, us_PlanId s)) (db_subs db') =
       map (\<lambda>(k, s). (k, us_Id s, us_UserId s, us_PlanId s)) (db_subs db)
     \<and> db_plans db' = db_plans db \<and> (subs_ok db \<longrightarrow> subs_ok db')"

text \<open>Changes that sell nothing and leave the plans alone.\<close>

inductive calm :: "shop \<Rightarrow> shop \<Rightarrow> bool" where
  none: "calm w w"
| opened: "map_of (sh_orders w) (so_TradeNo r) = None \<Longrightarrow> so_Status r = TopUpStatusPending \<Longrightarrow> calm w (write_order r w)"
| lapsed: "map_of (sh_orders w) t = Some r \<Longrightarrow> so_Status r = TopUpStatusPending \<Longrightarrow> calm w (write_order (expired_order now r) w)"
| cancelled: "map_of (db_subs (sh_db w)) key = Some sub \<Longrightarrow>
    calm w (tell_cache u g (move_user u g (write_sub (cancelled_sub now sub) w)))"
| deleted: "calm w (tell_cache u g (drop_sub key (move_user u g w)))"
| expired: "calm w (cache_group u g (move_user u g (expire_all_rows now u w)))"
| books: "same_rows (sh_db w) db \<Longrightarrow> calm w (w\<lparr>sh_db := db\<rparr>)"
| users: "calm w (w\<lparr>sh_groups := gs, sh_cached := cs\<rparr>)"

text \<open>Sales, and changes of plans; an amount is an \<^verbatim>\<open>int64\<close>.\<close>

inductive trade :: "shop \<Rightarrow> shop \<Rightarrow> bool" where
  sold: "order_sellable off dbNow newId t x r plan e w \<Longrightarrow>
    trade w (tell_cache (so_UserId r) (upgrade_of plan) (order_sale off now dbNow newId payload pmt r plan e w))"
| given: "shop_plan w planId = Some plan \<Longrightarrow> sellable off dbNow newId u plan e w \<Longrightarrow>
    trade w (cache_group u (shown_group plan) (sale off dbNow newId u plan ''admin'' e w))"
| planned: "pl_TotalAmount (pw_Plan row) < 2 ^ 63 \<Longrightarrow> trade w (put_plan key row w)"
| switched: "map_of (sh_planCols w) key = Some c \<Longrightarrow> trade w (w\<lparr>sh_planCols := gput key (c\<lparr>pm_Enabled := b\<rparr>) (sh_planCols w)\<rparr>)"

section \<open>The operations\<close>

text \<open>
  One step of the shop is one call, with any arguments and any failures of the database. Billing works on
  the rows of subscriptions meanwhile, and users and their cached copies come, go and change.
\<close>

inductive shop_step :: "shop \<Rightarrow> shop \<Rightarrow> bool" where
  complete: "shop_step w (snd (CompleteSubscriptionOrder off now dbNow newId tradeNo payload expected pmt w))"
| lapse: "shop_step w (snd (ExpireSubscriptionOrder now tradeNo expected w))"
| bind: "shop_step w (snd (AdminBindSubscription off dbNow newId u planId w))"
| invalidate: "shop_step w (snd (AdminInvalidateUserSubscription now key w))"
| delete: "shop_step w (snd (AdminDeleteUserSubscription now key w))"
| expire: "shop_step w (snd (ExpireDueSubscriptions visit now limit w))"
| stripe: "shop_step w (snd (SubscriptionRequestStripePay configured link reference now u planId w))"
| creem: "shop_step w (snd (SubscriptionRequestCreemPay configured link reference now u planId w))"
| epay: "shop_step w (snd (SubscriptionRequestEpay configured payMethods link reference now u planId payMethod w))"
| notify: "shop_step w (snd (SubscriptionEpayNotify off now dbNow newId verified payload w))"
| return: "shop_step w (snd (SubscriptionEpayReturn off now dbNow newId verified payload w))"
| create_plan: "pl_TotalAmount (pw_Plan req) < 2 ^ 63 \<Longrightarrow> shop_step w (snd (AdminCreateSubscriptionPlan gs newId req w))"
| update_plan: "pl_TotalAmount (pw_Plan req) < 2 ^ 63 \<Longrightarrow> shop_step w (snd (AdminUpdateSubscriptionPlan gs key req w))"
| switch_plan: "shop_step w (snd (AdminUpdateSubscriptionPlanStatus key b w))"
| books: "same_rows (sh_db w) db \<Longrightarrow> shop_step w (w\<lparr>sh_db := db\<rparr>)"
| users: "shop_step w (w\<lparr>sh_groups := gs, sh_cached := cs\<rparr>)"

section \<open>Undivided operations\<close>

text \<open>
  The contract that the operations share: a failure leaves the tables as they were, and a success has the
  effect of the operation.
\<close>

locale shop_operation =
  fixes op :: "shop \<Rightarrow> 'a shopping" and effect :: "shop \<Rightarrow> 'a \<Rightarrow> shop \<Rightarrow> bool"
  assumes undivided: "applies (op w) w (effect w)"
begin

lemma failed: "fst (op w) = Inl e \<Longrightarrow> quiet (snd (op w)) = quiet w"
  using undivided [of w] by (cases "op w") (auto simp: applies_def)

lemma succeeded: "fst (op w) = Inr a \<Longrightarrow> effect w a (quiet (snd (op w)))"
  using undivided [of w] by (cases "op w") (auto simp: applies_def)

lemma cases_op:
  obtains "quiet (snd (op w)) = quiet w" | a where "fst (op w) = Inr a" "effect w a (quiet (snd (op w)))"
  using failed succeeded by (cases "fst (op w)") blast+

end

interpretation completing: shop_operation "CompleteSubscriptionOrder off now dbNow newId tradeNo payload expected pmt"
  "\<lambda>w _ q. \<exists>r q0. completion off now dbNow newId tradeNo payload expected pmt w r q0 \<and> q = tell_cache (fst r) (snd r) q0"
  for off now dbNow newId tradeNo payload expected pmt
  by unfold_locales (rule CompleteSubscriptionOrder_effect)

interpretation lapsing: shop_operation "ExpireSubscriptionOrder now tradeNo expected"
  "\<lambda>w _ q. \<exists>order. map_of (sh_orders w) tradeNo = Some order
     \<and> q = (if so_Status order = TopUpStatusPending then write_order (expired_order now order) (quiet w) else quiet w)"
  for now tradeNo expected
  by unfold_locales (rule ExpireSubscriptionOrder_effect)

interpretation binding: shop_operation "AdminBindSubscription off dbNow newId u planId"
  "\<lambda>w g q. \<exists>plan e. shop_plan w planId = Some plan \<and> sellable off dbNow newId u plan e w \<and> g = shown_group plan
     \<and> q = cache_group u (shown_group plan) (sale off dbNow newId u plan ''admin'' e (quiet w))"
  for off dbNow newId u planId
  by unfold_locales (rule AdminBindSubscription_effect)

interpretation cancelling: shop_operation "AdminInvalidateUserSubscription now key"
  "\<lambda>w g q. \<exists>sub. map_of (db_subs (sh_db w)) key = Some sub \<and> may_leave w (us_UserId sub) (sub_columns_of w key) g
     \<and> q = tell_cache (us_UserId sub) g (move_user (us_UserId sub) g (write_sub (cancelled_sub now sub) (quiet w)))"
  for now key
  by unfold_locales (rule AdminInvalidateUserSubscription_effect)

interpretation deleting: shop_operation "AdminDeleteUserSubscription now key"
  "\<lambda>w g q. \<exists>sub. map_of (db_subs (sh_db w)) key = Some sub \<and> may_leave w (us_UserId sub) (sub_columns_of w key) g
     \<and> q = tell_cache (us_UserId sub) g (drop_sub key (move_user (us_UserId sub) g (quiet w)))"
  for now key
  by unfold_locales (rule AdminDeleteUserSubscription_effect)

interpretation expiring: shop_operation "expire_user now u"
  "\<lambda>w n q. n = due_count now u w \<and> (\<exists>g. leaves_last u (expire_all_rows now u (quiet w)) g
     \<and> q = cache_group u g (move_user u g (expire_all_rows now u (quiet w))))"
  for now u
  by unfold_locales (rule expire_user_effect)

section \<open>Refinement\<close>

lemma appliesD:
  assumes "applies x w P"
  obtains "quiet (snd x) = quiet w" | a where "fst x = Inr a" "P a (quiet (snd x))"
proof (cases x)
  case (Pair r w')
  then show ?thesis using assms that by (cases r) (auto simp: applies_def)
qed

abbreviation calms :: "shop \<Rightarrow> shop \<Rightarrow> bool" where
  "calms \<equiv> calm\<^sup>*\<^sup>*"

definition refines :: "shop \<Rightarrow> shop \<Rightarrow> bool" where
  "refines w w' \<longleftrightarrow> calms (quiet w) (quiet w') \<or> trade (quiet w) (quiet w')"

lemma refines_same: "quiet w' = quiet w \<Longrightarrow> refines w w'"
  by (simp add: refines_def)

lemma refines_calm: "calm (quiet w) (quiet w') \<Longrightarrow> refines w w'"
  by (simp add: refines_def r_into_rtranclp)

lemma refines_applies:
  assumes "applies x w P" and "\<And>a. P a (quiet (snd x)) \<Longrightarrow> refines w (snd x)"
  shows "refines w (snd x)"
  using assms(1) by (rule appliesD) (use assms(2) refines_same in auto)

lemma refines_bnd:
  assumes "applies x w (\<lambda>a q. q = quiet w \<and> P a)" and "\<And>a w'. quiet w' = quiet w \<Longrightarrow> P a \<Longrightarrow> refines w (snd (f a w'))"
  shows "refines w (snd (bnd x f))"
proof (cases x)
  case (Pair r w')
  then show ?thesis using assms by (cases r) (auto intro: refines_same)
qed

lemma tell_no_user [simp]: "tell_cache 0 g w = w"
  by (simp add: tell_cache_def)

lemma refines_complete:
  "refines w (snd (CompleteSubscriptionOrder off now dbNow newId tradeNo payload expected pmt w))"
proof (rule refines_applies [OF CompleteSubscriptionOrder_effect], elim exE conjE)
  fix a r q0
  assume c: "completion off now dbNow newId tradeNo payload expected pmt w r q0"
    and q: "quiet (snd (CompleteSubscriptionOrder off now dbNow newId tradeNo payload expected pmt w)) = tell_cache (fst r) (snd r) q0"
  from c show "refines w (snd (CompleteSubscriptionOrder off now dbNow newId tradeNo payload expected pmt w))"
    unfolding completion_def
  proof (elim disjE exE conjE)
    fix order plan e
    assume "order_sellable off dbNow newId tradeNo expected order plan e w" "r = (so_UserId order, upgrade_of plan)"
      "q0 = order_sale off now dbNow newId payload pmt order plan e (quiet w)"
    then show ?thesis
      using trade.sold [of off dbNow newId tradeNo expected order plan e "quiet w"] q by (simp add: refines_def)
  qed (use q in \<open>simp add: refines_same\<close>)
qed

lemma refines_completed:
  "CompleteSubscriptionOrder off now dbNow newId tradeNo payload expected pmt w = (r, w') \<Longrightarrow> refines w w'"
  by (metis refines_complete snd_conv)

lemma refines_lapse: "refines w (snd (ExpireSubscriptionOrder now tradeNo expected w))"
  by (rule refines_applies [OF ExpireSubscriptionOrder_effect])
    (auto intro!: refines_calm intro: calm.lapsed [of "quiet w" tradeNo, simplified] calm.none split: if_splits)

lemma refines_bind: "refines w (snd (AdminBindSubscription off dbNow newId u planId w))"
proof (rule refines_applies [OF AdminBindSubscription_effect], elim exE conjE)
  fix g plan e
  assume "shop_plan w planId = Some plan" "sellable off dbNow newId u plan e w"
    "quiet (snd (AdminBindSubscription off dbNow newId u planId w)) =
      cache_group u (shown_group plan) (sale off dbNow newId u plan ''admin'' e (quiet w))"
  then show "refines w (snd (AdminBindSubscription off dbNow newId u planId w))"
    using trade.given [of "quiet w" planId plan off dbNow newId u e] by (simp add: refines_def)
qed

lemma refines_invalidate: "refines w (snd (AdminInvalidateUserSubscription now key w))"
  by (rule refines_applies [OF AdminInvalidateUserSubscription_effect])
    (auto intro!: refines_calm calm.cancelled)

lemma refines_delete: "refines w (snd (AdminDeleteUserSubscription now key w))"
  by (rule refines_applies [OF AdminDeleteUserSubscription_effect])
    (auto intro!: refines_calm calm.deleted)

lemma refines_expire_users: "calms (quiet w) (quiet (snd (expire_users now us w n)))"
proof (induction us arbitrary: w n)
  case (Cons u us)
  obtain r w' where e: "expire_user now u w = (r, w')" by fastforce
  have "calm (quiet w) (quiet w')"
    by (rule expiring.cases_op [of now u w]) (auto simp: e intro: calm.none calm.expired)
  then show ?case
    using Cons.IH [of w'] e by (cases r) (auto intro: converse_rtranclp_into_rtranclp)
qed simp

lemma refines_expire: "refines w (snd (ExpireDueSubscriptions visit now limit w))"
proof (rule shop_query_cases [of w])
  fix w'
  assume "shop_query w = (Inr (), w')" and "quiet w' = quiet w"
  then show ?thesis
    using refines_expire_users [of w'] by (simp add: ExpireDueSubscriptions_def Let_def refines_def)
qed (simp add: ExpireDueSubscriptions_def refines_same)

text \<open>The requests: they read until the order is inserted.\<close>

lemma find_user_reads: "applies (find_user w u) w (\<lambda>_ q. q = quiet w \<and> True)"
  unfolding find_user_def by (rule applies_then) simp

lemma limit_reached_reads: "applies (limit_reached w u plan) w (\<lambda>_ q. q = quiet w \<and> True)"
proof (cases "pm_MaxPurchasePerUser (pw_Columns plan) > 0")
  case True
  have "applies (CountUserSubscriptionsByPlan w u (pw_Id plan)) w (\<lambda>_ q. q = quiet w)"
    by (cases "u \<le> 0 \<or> pw_Id plan \<le> 0") (auto simp: CountUserSubscriptionsByPlan_def intro!: applies_then)
  then show ?thesis
    unfolding limit_reached_def Let_def if_P [OF True] by (rule applies_bnd) simp
qed (simp add: limit_reached_def)

lemma insert_order_effect:
  assumes "so_CreateTime r \<noteq> 0 \<or> now = 0" and "so_Status r = TopUpStatusPending"
  shows "applies (insert_order now w r) w (\<lambda>_ q. q = write_order r (quiet w) \<and> map_of (sh_orders w) (so_TradeNo r) = None)"
proof -
  have r: "(if so_CreateTime r = 0 then r\<lparr>so_CreateTime := now\<rparr> else r) = r" using assms(1) by auto
  show ?thesis
    unfolding insert_order_def order_Insert_def r Let_def write_order_def [symmetric]
    by (rule shop_query_cases [of w]) (auto dest: quiet_same(5))
qed

lemma pending_order_fields [simp]:
  "so_Status (pending_order now u plan t m p) = TopUpStatusPending" "so_TradeNo (pending_order now u plan t m p) = t"
  "so_CreateTime (pending_order now u plan t m p) \<noteq> 0 \<or> now = 0"
  by (simp_all add: pending_order_def)

text \<open>A request has changed nothing, or opened its order.\<close>

definition opens :: "string \<Rightarrow> shop \<Rightarrow> shop \<Rightarrow> bool" where
  "opens reference w q \<longleftrightarrow> (\<exists>r. so_TradeNo r = reference \<and> so_Status r = TopUpStatusPending
     \<and> map_of (sh_orders w) reference = None \<and> q = write_order r (quiet w))"

lemma opens_insert:
  assumes "quiet w' = quiet w"
  shows "applies (insert_order now w' (pending_order now u plan reference m p)) w (\<lambda>_. opens reference w)"
  by (rule applies_mono [OF applies_from [OF insert_order_effect [of "pending_order now u plan reference m p" now] assms]])
    (use quiet_same(5) [OF assms] assms pending_order_fields [of now u plan reference m p] in
      \<open>auto simp: opens_def simp del: pending_order_fields(3) intro!: exI [of _ "pending_order now u plan reference m p"]\<close>)

lemma opens_calm: "opens reference w q \<Longrightarrow> calm (quiet w) q"
  by (auto simp: opens_def intro!: calm.opened)

lemma limit_then:
  assumes "quiet w' = quiet w" and "\<And>w'. quiet w' = quiet w \<Longrightarrow> applies (f () w') w P"
  shows "applies (bnd (limit_reached w' u plan) f) w P"
  by (rule applies_bnd [OF applies_from [OF limit_reached_reads assms(1)]]) (use assms in simp)

lemma user_then:
  assumes "quiet w' = quiet w" and "\<And>w'. quiet w' = quiet w \<Longrightarrow> applies (f () w') w P"
  shows "applies (bnd (find_user w' u) f) w P"
  by (rule applies_bnd [OF applies_from [OF find_user_reads assms(1)]]) (use assms in simp)

lemma plan_then:
  assumes "\<And>plan w'. quiet w' = quiet w \<Longrightarrow> applies (f plan w') w P"
  shows "applies (bnd (GetSubscriptionPlanById w planId) f) w P"
  by (rule applies_bnd [OF GetSubscriptionPlanById_reads]) (use assms in simp)

lemma stripe_effect:
  "applies (SubscriptionRequestStripePay configured link reference now u planId w) w (\<lambda>_. opens reference w)"
  unfolding SubscriptionRequestStripePay_def
  by (auto intro!: plan_then user_then limit_then opens_insert)

lemma refines_stripe: "refines w (snd (SubscriptionRequestStripePay configured link reference now u planId w))"
  by (rule refines_applies [OF stripe_effect]) (blast intro: refines_calm opens_calm)

lemma refines_fail: "quiet w' = quiet w \<Longrightarrow> refines w (snd (Inl e, w'))"
  by (simp add: refines_same)

lemma refines_limit:
  assumes "quiet w' = quiet w" and "\<And>w'. quiet w' = quiet w \<Longrightarrow> refines w (snd (f () w'))"
  shows "refines w (snd (bnd (limit_reached w' u plan) f))"
proof (rule refines_bnd [where P = "\<lambda>_. True"])
  show "applies (limit_reached w' u plan) w (\<lambda>_ q. q = quiet w \<and> True)"
    using applies_from [OF limit_reached_reads assms(1)] assms(1) by simp
qed (use assms in simp)

lemma refines_user:
  assumes "quiet w' = quiet w" and "\<And>w'. quiet w' = quiet w \<Longrightarrow> refines w (snd (f () w'))"
  shows "refines w (snd (bnd (find_user w' u) f))"
proof (rule refines_bnd [where P = "\<lambda>_. True"])
  show "applies (find_user w' u) w (\<lambda>_ q. q = quiet w \<and> True)"
    using applies_from [OF find_user_reads assms(1)] assms(1) by simp
qed (use assms in simp)

lemma refines_creem: "refines w (snd (SubscriptionRequestCreemPay configured link reference now u planId w))"
proof (cases "planId \<le> 0")
  case False
  have inserted: "refines w (snd (bnd (insert_order now w' (pending_order now u plan reference ''creem'' PaymentProviderCreem))
      (\<lambda>_ w. (res, w))))" if "quiet w' = quiet w" for w' plan and res :: "shop_error + unit"
  proof -
    obtain r w2 where i: "insert_order now w' (pending_order now u plan reference ''creem'' PaymentProviderCreem) = (r, w2)" by fastforce
    then show ?thesis
      using opens_insert [OF that, of now u plan reference "''creem''" PaymentProviderCreem]
      by (cases r) (auto intro: refines_same refines_calm opens_calm)
  qed
  show ?thesis
    unfolding SubscriptionRequestCreemPay_def if_not_P [OF False]
    by (rule refines_bnd [OF GetSubscriptionPlanById_reads])
      (auto intro!: refines_fail inserted refines_user refines_limit simp del: snd_conv)
qed (simp add: SubscriptionRequestCreemPay_def refines_same)

lemma refines_epay: "refines w (snd (SubscriptionRequestEpay configured payMethods link reference now u planId payMethod w))"
proof (cases "planId \<le> 0")
  case False
  have inserted: "refines w (snd (bnd (insert_order now w' (pending_order now u plan reference payMethod PaymentProviderEpay))
      (\<lambda>_ w. if link then (Inr (), w) else (Inl LinkFailed, snd (ExpireSubscriptionOrder now reference PaymentProviderEpay w)))))"
    if "quiet w' = quiet w" for w' plan
  proof -
    obtain r w2 where i: "insert_order now w' (pending_order now u plan reference payMethod PaymentProviderEpay) = (r, w2)" by fastforce
    have "calm (quiet w) (quiet w2)"
      using opens_insert [OF that, of now u plan reference payMethod PaymentProviderEpay] i
      by (cases r) (auto intro: opens_calm calm.none)
    moreover have "calm (quiet w2) (quiet (snd (ExpireSubscriptionOrder now reference PaymentProviderEpay w2)))"
      by (rule lapsing.cases_op [of now reference PaymentProviderEpay w2])
        (auto intro: calm.lapsed [of "quiet w2" reference, simplified] calm.none split: if_splits)
    ultimately show ?thesis
      using i by (cases r) (auto simp: refines_def)
  qed
  show ?thesis
    unfolding SubscriptionRequestEpay_def if_not_P [OF False]
    by (rule refines_bnd [OF GetSubscriptionPlanById_reads])
      (auto intro!: refines_fail inserted refines_limit simp del: snd_conv)
qed (simp add: SubscriptionRequestEpay_def refines_same)

lemma checked_plan_total: "checked_plan gs req = Inr row \<Longrightarrow> pl_TotalAmount (pw_Plan row) = pl_TotalAmount (pw_Plan req)"
  by (auto simp: checked_plan_def Let_def split: if_splits)

lemma refines_create_plan:
  assumes "pl_TotalAmount (pw_Plan req) < 2 ^ 63"
  shows "refines w (snd (AdminCreateSubscriptionPlan gs newId req w))"
  by (rule shop_query_cases [of w])
    (use assms checked_plan_total [of gs req] in \<open>auto simp: AdminCreateSubscriptionPlan_def Let_def refines_def column_defaults_def
      intro: trade.planned split: sum.split\<close>)

lemma refines_update_plan:
  assumes "pl_TotalAmount (pw_Plan req) < 2 ^ 63"
  shows "refines w (snd (AdminUpdateSubscriptionPlan gs key req w))"
proof (cases "checked_plan gs req")
  case (Inr row)
  have t: "pl_TotalAmount (pw_Plan row) < 2 ^ 63" using assms checked_plan_total [OF Inr] by simp
  have "applies (shop_transaction w (\<lambda>w. bnd (shop_query w) (\<lambda>_ w.
      (Inr (), if map_of (db_plans (sh_db w)) key = None then w else put_plan key row w)))) w
      (\<lambda>_ q. q = quiet w \<or> q = put_plan key row (quiet w))"
    by (rule applies_transaction, rule gives_then) auto
  then have "refines w (snd (shop_transaction w (\<lambda>w. bnd (shop_query w) (\<lambda>_ w.
      (Inr (), if map_of (db_plans (sh_db w)) key = None then w else put_plan key row w)))))"
    by (rule refines_applies) (use trade.planned [OF t, of "quiet w" key] in \<open>auto simp: refines_def\<close>)
  then show ?thesis using Inr by (simp add: AdminUpdateSubscriptionPlan_def refines_same)
qed (auto simp: AdminUpdateSubscriptionPlan_def refines_same)

lemma refines_switch_plan: "refines w (snd (AdminUpdateSubscriptionPlanStatus key b w))"
proof (rule shop_query_cases [of w])
  fix w'
  assume q: "shop_query w = (Inr (), w')" "quiet w' = quiet w"
  show ?thesis
  proof (cases "map_of (sh_planCols w') key")
    case (Some c)
    have "trade (quiet w') (quiet (w'\<lparr>sh_planCols := gput key (c\<lparr>pm_Enabled := b\<rparr>) (sh_planCols w')\<rparr>))"
      using trade.switched [of "quiet w'" key c b] Some by (cases w') (simp add: quiet_def)
    then show ?thesis using q Some by (simp add: AdminUpdateSubscriptionPlanStatus_def refines_def)
  qed (use q in \<open>simp add: AdminUpdateSubscriptionPlanStatus_def refines_same\<close>)
qed (simp add: AdminUpdateSubscriptionPlanStatus_def refines_same)

lemma same_rows_quiet: "same_rows (sh_db w) db \<Longrightarrow> calm (quiet w) (quiet (w\<lparr>sh_db := db\<rparr>))"
  using calm.books [of "quiet w" "db\<lparr>db_faults := []\<rparr>"]
  by (simp add: same_rows_def quiet_def subs_ok_unchanged [OF unchanged_faults])

lemma step_refines: "shop_step w w' \<Longrightarrow> refines w w'"
proof (induction rule: shop_step.induct)
  case (notify w off now dbNow newId verified payload)
  show ?case
    by (auto simp: SubscriptionEpayNotify_def refines_same split: option.split bool.split prod.split sum.split
      intro: refines_completed)
next
  case (return w off now dbNow newId verified payload)
  show ?case
    by (auto simp: SubscriptionEpayReturn_def refines_same split: option.split bool.split prod.split sum.split
      intro: refines_completed)
next
  case (users w gs cs)
  show ?case by (rule refines_calm) (cases w, use calm.users [of "quiet w" gs cs] in \<open>simp add: quiet_def\<close>)
qed (rule refines_complete refines_lapse refines_bind refines_invalidate refines_delete refines_expire refines_stripe
  refines_creem refines_epay refines_create_plan refines_update_plan refines_switch_plan refines_calm [OF same_rows_quiet]; assumption?)+

section \<open>The invariant\<close>

text \<open>How many subscriptions come from orders, and how many orders are complete.\<close>

definition order_subs :: "shop \<Rightarrow> int" where
  "order_subs w = (\<Sum>(k, c) \<leftarrow> sh_subCols w. if sc_Source c = ''order'' then 1 else 0)"

definition paid_orders :: "shop \<Rightarrow> int" where
  "paid_orders w = (\<Sum>(t, r) \<leftarrow> sh_orders w. if so_Status r = TopUpStatusSuccess then 1 else 0)"

definition order_ok :: "shop \<Rightarrow> string \<Rightarrow> subscription_order \<Rightarrow> bool" where
  "order_ok w t r \<longleftrightarrow> so_TradeNo r = t
     \<and> so_Status r \<in> {TopUpStatusPending, TopUpStatusSuccess, TopUpStatusExpired}
     \<and> (so_Status r = TopUpStatusSuccess \<longrightarrow>
          (\<exists>p. map_of (sh_topups w) t = Some p \<and> tu_Status p = TopUpStatusSuccess \<and> tu_Money p = so_Money r))"

definition shop_ok :: "shop \<Rightarrow> bool" where
  "shop_ok w \<longleftrightarrow> subs_ok (sh_db w) \<and> gwf (sh_subCols w) \<and> gwf (sh_orders w)
     \<and> (\<forall>k. map_of (db_subs (sh_db w)) k = None \<longrightarrow> map_of (sh_subCols w) k = None)
     \<and> (\<forall>t r. map_of (sh_orders w) t = Some r \<longrightarrow> order_ok w t r)
     \<and> (\<forall>t p. map_of (sh_topups w) t = Some p \<longrightarrow> tu_TradeNo p = t)
     \<and> (\<forall>k p. map_of (db_plans (sh_db w)) k = Some p \<longrightarrow> pl_TotalAmount p < 2 ^ 63)
     \<and> order_subs w \<le> paid_orders w"

lemma shop_ok_quiet [simp]: "shop_ok (quiet w) = shop_ok w"
  by (simp add: shop_ok_def order_ok_def order_subs_def paid_orders_def)

text \<open>The tables that the invariant is about.\<close>

lemma shop_ok_cong:
  assumes "db_subs (sh_db w') = db_subs (sh_db w)" "sh_subCols w' = sh_subCols w" "sh_orders w' = sh_orders w"
    "sh_topups w' = sh_topups w" "db_plans (sh_db w') = db_plans (sh_db w)"
  shows "shop_ok w' = shop_ok w"
  using subs_ok_cong [OF assms(1)] assms by (simp add: shop_ok_def order_ok_def order_subs_def paid_orders_def)

lemma cache_fields [simp]:
  "sh_db (UpdateUserGroupCache u g w) = sh_db w" "sh_subCols (UpdateUserGroupCache u g w) = sh_subCols w"
  "sh_orders (UpdateUserGroupCache u g w) = sh_orders w" "sh_topups (UpdateUserGroupCache u g w) = sh_topups w"
  "sh_planCols (UpdateUserGroupCache u g w) = sh_planCols w" "sh_groups (UpdateUserGroupCache u g w) = sh_groups w"
  by (simp_all add: UpdateUserGroupCache_def split: option.split)

lemma tell_fields [simp]:
  "sh_db (tell_cache u g w) = sh_db w" "sh_subCols (tell_cache u g w) = sh_subCols w" "sh_orders (tell_cache u g w) = sh_orders w"
  "sh_topups (tell_cache u g w) = sh_topups w" "sh_planCols (tell_cache u g w) = sh_planCols w" "sh_groups (tell_cache u g w) = sh_groups w"
  "sh_db (cache_group u g w) = sh_db w" "sh_subCols (cache_group u g w) = sh_subCols w" "sh_orders (cache_group u g w) = sh_orders w"
  "sh_topups (cache_group u g w) = sh_topups w" "sh_planCols (cache_group u g w) = sh_planCols w" "sh_groups (cache_group u g w) = sh_groups w"
  by (simp_all add: tell_cache_def cache_group_def)

lemma shop_ok_moves [simp]:
  "shop_ok (move_user u g w) = shop_ok w" "shop_ok (tell_cache u g w) = shop_ok w" "shop_ok (cache_group u g w) = shop_ok w"
  by (rule shop_ok_cong; simp)+

text \<open>The orders: a new one is pending, and only a sale completes one.\<close>

lemma paid_put:
  "gwf (sh_orders w) \<Longrightarrow> paid_orders (write_order r w) = paid_orders w + (if so_Status r = TopUpStatusSuccess then 1 else 0)
     - (case map_of (sh_orders w) (so_TradeNo r) of None \<Rightarrow> 0 | Some r \<Rightarrow> if so_Status r = TopUpStatusSuccess then 1 else 0)"
  unfolding paid_orders_def write_order_def
  by (simp add: gput_sum [where f = "\<lambda>r. if so_Status r = TopUpStatusSuccess then 1 else 0"])

lemma write_order_keeps:
  assumes "shop_ok w" and "order_ok w (so_TradeNo r) r" and "so_Status r \<noteq> TopUpStatusSuccess"
    and "\<And>r'. map_of (sh_orders w) (so_TradeNo r) = Some r' \<Longrightarrow> so_Status r' \<noteq> TopUpStatusSuccess"
  shows "shop_ok (write_order r w)"
proof -
  have "paid_orders (write_order r w) = paid_orders w"
    using assms(1,3,4) by (simp add: shop_ok_def paid_put split: option.split)
  then show ?thesis
    using assms(1,2) by (simp add: shop_ok_def write_order_def order_ok_def order_subs_def go_map_simps)
qed

lemma pending_not_success [simp]:
  "TopUpStatusPending \<noteq> TopUpStatusSuccess" "TopUpStatusExpired \<noteq> TopUpStatusSuccess"
  by (simp_all add: TopUpStatusPending_def TopUpStatusSuccess_def TopUpStatusExpired_def)

lemma fresh_keys:
  assumes "map fst m' = map fst m"
  shows "map_of m' k = None \<longleftrightarrow> map_of m k = None"
  by (metis assms map_of_eq_None_iff set_map)

lemma row_keys:
  assumes "map (\<lambda>(k, s). (k, us_Id s, us_UserId s, us_PlanId s)) m' = map (\<lambda>(k, s). (k, us_Id s, us_UserId s, us_PlanId s)) m"
  shows "map fst m' = map fst m"
proof -
  have "map fst (map (\<lambda>(k, s). (k, us_Id s, us_UserId s, us_PlanId s)) m') = map fst (map (\<lambda>(k, s). (k, us_Id s, us_UserId s, us_PlanId s)) m)"
    using assms by simp
  then show ?thesis by (simp add: comp_def case_prod_beta)
qed

text \<open>Rewriting rows of subscriptions without adding or removing any.\<close>

lemma rows_keep:
  assumes "shop_ok w" and "map fst (db_subs db) = map fst (db_subs (sh_db w))" and "subs_ok db" and "db_plans db = db_plans (sh_db w)"
  shows "shop_ok (w\<lparr>sh_db := db\<rparr>)"
  using assms fresh_keys [OF assms(2)] by (simp add: shop_ok_def order_ok_def order_subs_def paid_orders_def)

lemma expire_row_fields [simp]:
  "us_Id (expire_row now u s) = us_Id s" "us_UserId (expire_row now u s) = us_UserId s" "us_PlanId (expire_row now u s) = us_PlanId s"
  "sub_ok (expire_row now u s) = sub_ok s" "us_EndTime (expire_row now u s) = us_EndTime s"
  by (simp_all add: expire_row_def sub_ok_def)

lemma expire_all_rows_ok: "shop_ok w \<Longrightarrow> shop_ok (expire_all_rows now u w)"
  unfolding expire_all_rows_def
  by (rule rows_keep)
    (auto simp: shop_ok_def subs_ok_def gwf_def comp_def case_prod_beta map_of_map [unfolded case_prod_beta] dest: subs_okD)

lemma write_sub_ok:
  assumes "shop_ok w" and "map_of (db_subs (sh_db w)) k = Some s" and "us_Id s' = us_Id s" and "sub_ok s'"
  shows "shop_ok (write_sub s' w)"
  unfolding write_sub_def
proof (rule rows_keep [OF assms(1)])
  have ok: "subs_ok (sh_db w)" using assms(1) by (simp add: shop_ok_def)
  then have "us_Id s = k" using subs_okD assms(2) by blast
  then have "us_Id s' \<in> fst ` set (db_subs (sh_db w))" using assms(2,3) by (force simp: map_of_eq_None_iff [symmetric] dest: map_of_SomeD)
  then show "map fst (db_subs ((sh_db w)\<lparr>db_subs := gput (us_Id s') s' (db_subs (sh_db w))\<rparr>)) = map fst (db_subs (sh_db w))"
    by (simp add: update_keys)
  show "subs_ok ((sh_db w)\<lparr>db_subs := gput (us_Id s') s' (db_subs (sh_db w))\<rparr>)" by (rule subs_ok_put [OF ok assms(4)])
qed simp

lemma drop_sub_ok:
  assumes "shop_ok w"
  shows "shop_ok (drop_sub key w)"
proof -
  have "order_subs (drop_sub key w) \<le> order_subs w"
    using assms unfolding order_subs_def drop_sub_def shop_ok_def
    by (simp add: gdel_sum [where f = "\<lambda>c. if sc_Source c = ''order'' then 1 else 0"] split: option.split)
  then show ?thesis
    using assms by (auto simp: shop_ok_def drop_sub_def order_ok_def paid_orders_def subs_ok_def go_map_simps)
qed

lemma calm_ok:
  assumes "calm w w'" and "shop_ok w"
  shows "shop_ok w'"
  using assms
proof (induction rule: calm.induct)
  case (opened w r)
  then show ?case by (intro write_order_keeps) (simp_all add: order_ok_def)
next
  case (lapsed w t r now)
  then have "order_ok w t r" by (simp add: shop_ok_def)
  then show ?case using lapsed by (intro write_order_keeps) (auto simp: order_ok_def expired_order_def)
next
  case (cancelled w key sub u g now)
  then have "sub_ok sub" using subs_okD [of "sh_db w" key sub] by (simp add: shop_ok_def)
  then show ?case using write_sub_ok [OF cancelled(2,1), of "cancelled_sub now sub"] by simp
next
  case (deleted w u g key)
  then show ?case using drop_sub_ok [of "move_user u g w" key] by simp
next
  case (expired w u g now)
  then show ?case using expire_all_rows_ok by simp
next
  case (books w db)
  then show ?case using row_keys by (intro rows_keep) (auto simp: same_rows_def shop_ok_def)
next
  case (users w gs cs)
  show ?case by (rule shop_ok_cong [THEN iffD2, OF _ _ _ _ _ users]) simp_all
qed

section \<open>Sales\<close>

lemma new_sub_fields [simp]:
  "us_Id (new_sub off d k u plan e) = k" "us_UserId (new_sub off d k u plan e) = u" "us_PlanId (new_sub off d k u plan e) = pw_Id plan"
  "us_EndTime (new_sub off d k u plan e) = e" "us_Status (new_sub off d k u plan e) = ''active''"
  "us_AmountUsed (new_sub off d k u plan e) = 0" "us_AmountTotal (new_sub off d k u plan e) = pl_TotalAmount (pw_Plan plan)"
  by (simp_all add: new_sub_def Let_def)

lemma sale_tables:
  assumes "map_of (db_subs (sh_db w)) k = None"
  shows "db_subs (sh_db (sale off d k u plan src e w)) = gput k (new_sub off d k u plan e) (db_subs (sh_db w))"
    and "sh_subCols (sale off d k u plan src e w) = gput k \<lparr>sc_Source = src, sc_UpgradeGroup = upgrade_of plan,
      sc_PrevUserGroup = remembered (user_group w u) (upgrade_of plan)\<rparr> (sh_subCols w)"
  by (simp_all add: sale_def add_sub_def)

lemma shop_plan_total: "shop_ok w \<Longrightarrow> shop_plan w k = Some plan \<Longrightarrow> pl_TotalAmount (pw_Plan plan) < 2 ^ 63"
  by (auto simp: shop_ok_def shop_plan_def split: option.splits)

text \<open>A sale keeps everything of the invariant but the count, which an order has to pay for.\<close>

lemma sale_parts:
  fixes src :: string
  assumes "shop_ok w" and "sellable off d k u plan e w" and "pl_TotalAmount (pw_Plan plan) < 2 ^ 63"
  defines "w' \<equiv> sale off d k u plan src e w"
  shows "subs_ok (sh_db w')" and "gwf (sh_subCols w')"
    and "\<forall>j. map_of (db_subs (sh_db w')) j = None \<longrightarrow> map_of (sh_subCols w') j = None"
    and "order_subs w' = order_subs w + (if src = ''order'' then 1 else 0)"
proof -
  have new: "map_of (db_subs (sh_db w)) k = None" "map_of (sh_subCols w) k = None" and ok: "subs_ok (sh_db w)" "gwf (sh_subCols w)"
    using assms(1,2) by (simp_all add: shop_ok_def sellable_def)
  note tables = sale_tables [OF new(1), of off d u plan src e, folded w'_def]
  show "subs_ok (sh_db w')"
    using ok assms(3) unfolding subs_ok_def tables by (auto simp: go_map_simps sub_ok_def)
  show "gwf (sh_subCols w')" using ok by (simp add: tables)
  show "\<forall>j. map_of (db_subs (sh_db w')) j = None \<longrightarrow> map_of (sh_subCols w') j = None"
    using assms(1) by (simp add: tables go_map_simps shop_ok_def)
  show "order_subs w' = order_subs w + (if src = ''order'' then 1 else 0)"
    using new(2) ok(2) unfolding order_subs_def tables
    by (simp add: gput_sum [where f = "\<lambda>c. if sc_Source c = ''order'' then 1 else 0"])
qed

lemma trade_ok:
  assumes "trade w w'" and "shop_ok w"
  shows "shop_ok w'"
  using assms
proof (induction rule: trade.induct)
  case (given w planId plan off dbNow newId u e)
  note parts = sale_parts [OF given(3,2) shop_plan_total [OF given(3,1)], of "''admin''"]
  have "paid_orders (sale off dbNow newId u plan ''admin'' e w) = paid_orders w" by (simp add: paid_orders_def)
  with parts given have "shop_ok (sale off dbNow newId u plan ''admin'' e w)" by (simp add: shop_ok_def order_ok_def)
  then show ?case by simp
next
  case (planned row w key)
  then show ?case
    by (auto simp: shop_ok_def put_plan_def order_ok_def order_subs_def paid_orders_def go_map_simps subs_ok_def)
next
  case (switched w key c b)
  then show ?case using shop_ok_cong [of "w\<lparr>sh_planCols := gput key (c\<lparr>pm_Enabled := b\<rparr>) (sh_planCols w)\<rparr>" w] by simp
next
  case (sold off dbNow newId t x r plan e w now payload pmt)
  have found: "map_of (sh_orders w) t = Some r" "so_Status r = TopUpStatusPending" and plan: "shop_plan w (so_PlanId r) = Some plan"
    and sell: "sellable off dbNow newId (so_UserId r) plan e w"
    using sold(1) by (simp_all add: order_sellable_def)
  then have t: "so_TradeNo r = t" using sold(2) by (simp add: shop_ok_def order_ok_def)
  let ?w1 = "sale off dbNow newId (so_UserId r) plan ''order'' e w"
  let ?p = "settled_topup now r (map_of (sh_topups w) t)" and ?r = "completed_order now payload pmt r"
  note parts = sale_parts [OF sold(2) sell shop_plan_total [OF sold(2) plan], of "''order''"]
  have p: "tu_TradeNo ?p = t" "tu_Status ?p = TopUpStatusSuccess" "tu_Money ?p = so_Money r"
    using sold(2) t by (auto simp: settled_topup_def shop_ok_def split: option.split)
  have r: "so_TradeNo ?r = t" "so_Status ?r = TopUpStatusSuccess" "so_Money ?r = so_Money r" using t by (simp_all add: completed_order_def)
  have sale: "order_sale off now dbNow newId payload pmt r plan e w = write_order ?r (write_topup ?p ?w1)"
    by (simp add: order_sale_def t)
  have "paid_orders (write_order ?r (write_topup ?p ?w1)) = paid_orders w + 1"
    using sold(2) found r by (simp add: paid_put write_topup_def shop_ok_def, simp add: paid_orders_def)
  moreover have "order_subs (write_order ?r (write_topup ?p ?w1)) = order_subs ?w1"
    by (simp add: order_subs_def write_order_def write_topup_def)
  ultimately have "shop_ok (write_order ?r (write_topup ?p ?w1))"
    using parts sold(2) p r by (auto simp: shop_ok_def order_ok_def write_order_def write_topup_def go_map_simps)
  then show ?case by (simp add: sale)
qed

lemma step_ok:
  assumes "shop_step w w'" and "shop_ok w"
  shows "shop_ok w'"
proof -
  have calms: "calms a b \<Longrightarrow> shop_ok a \<Longrightarrow> shop_ok b" for a b
    by (induction rule: rtranclp_induct) (auto intro: calm_ok)
  have "refines w w'" using assms(1) by (rule step_refines)
  then have "shop_ok (quiet w')"
    using assms(2) calms [of "quiet w" "quiet w'"] trade_ok [of "quiet w" "quiet w'"] by (auto simp: refines_def)
  then show ?thesis by simp
qed

section \<open>The limit of a plan\<close>

definition limit_of :: "shop \<Rightarrow> int \<Rightarrow> int" where
  "limit_of w planId = (case map_of (sh_planCols w) planId of None \<Rightarrow> 0 | Some c \<Rightarrow> pm_MaxPurchasePerUser c)"

lemma count_rows:
  "plan_count w u p = (\<Sum>(k, s) \<leftarrow> db_subs (sh_db w). if us_UserId s = u \<and> us_PlanId s = p then 1 else 0)"
proof -
  have "int (length (filter Q (map snd m))) = (\<Sum>(k, s) \<leftarrow> m. if Q s then 1 else 0)" for Q and m :: "(int \<times> user_subscription) list"
    by (induction m) auto
  then show ?thesis by (simp add: plan_count_def)
qed

lemma count_cong:
  assumes "map (\<lambda>(k, s). (k, us_Id s, us_UserId s, us_PlanId s)) (db_subs (sh_db w')) =
    map (\<lambda>(k, s). (k, us_Id s, us_UserId s, us_PlanId s)) (db_subs (sh_db w))"
  shows "plan_count w' u p = plan_count w u p"
proof -
  have rows: "(\<Sum>(k, s) \<leftarrow> m. if us_UserId s = u \<and> us_PlanId s = p then 1 else 0) =
      (\<Sum>(k, i, v, q) \<leftarrow> map (\<lambda>(k, s). (k, us_Id s, us_UserId s, us_PlanId s)) m. if v = u \<and> q = p then 1 else 0)"
    for m :: "(int \<times> user_subscription) list"
    by (induction m) auto
  show ?thesis unfolding count_rows rows assms ..
qed

lemma count_put:
  assumes "gwf (db_subs (sh_db w))" and "db_subs (sh_db w') = gput k s (db_subs (sh_db w))"
  shows "plan_count w' u p = plan_count w u p + (if us_UserId s = u \<and> us_PlanId s = p then 1 else 0)
    - (case map_of (db_subs (sh_db w)) k of None \<Rightarrow> 0 | Some s \<Rightarrow> if us_UserId s = u \<and> us_PlanId s = p then 1 else 0)"
  unfolding count_rows assms(2)
  by (simp add: gput_sum [OF assms(1), where f = "\<lambda>s. if us_UserId s = u \<and> us_PlanId s = p then 1 else 0"])

lemma calm_count:
  assumes "calm w w'" and "shop_ok w"
  shows "plan_count w' u p \<le> plan_count w u p \<and> sh_planCols w' = sh_planCols w"
  using assms
proof (induction rule: calm.induct)
  case (cancelled w key sub u' g now)
  have wf: "gwf (db_subs (sh_db w))" and key: "us_Id sub = key"
    using cancelled subs_okD [of "sh_db w" key sub] by (simp_all add: shop_ok_def) (simp add: subs_ok_def)
  let ?w = "tell_cache u' g (move_user u' g (write_sub (cancelled_sub now sub) w))"
  have "db_subs (sh_db ?w) = gput key (cancelled_sub now sub) (db_subs (sh_db w))"
    by (simp add: write_sub_def key)
  from count_put [OF wf this] show ?case using cancelled(1) by (simp add: write_sub_def)
next
  case (deleted w u' g key)
  have wf: "gwf (db_subs (sh_db w))" using deleted by (simp add: shop_ok_def subs_ok_def)
  show ?case
    unfolding count_rows
    by (simp add: drop_sub_def gdel_sum [OF wf, where f = "\<lambda>s. if us_UserId s = u \<and> us_PlanId s = p then 1 else 0"] split: option.split)
next
  case (expired w u' g now)
  have "plan_count (cache_group u' g (move_user u' g (expire_all_rows now u' w))) u p = plan_count w u p"
    by (rule count_cong) (simp add: expire_all_rows_def comp_def case_prod_beta)
  then show ?case by (simp add: expire_all_rows_def)
next
  case (books w db)
  then show ?case using count_cong [of "w\<lparr>sh_db := db\<rparr>" w u p] by (simp add: same_rows_def)
qed (simp_all add: plan_count_def write_order_def)

lemma sale_count:
  assumes "shop_ok w" and "shop_plan w planId = Some plan" and "sellable off d k u' plan e w"
    and "db_subs (sh_db w') = gput k (new_sub off d k u' plan e) (db_subs (sh_db w))" and "0 < limit_of w p"
  shows "plan_count w' u p \<le> max (plan_count w u p) (limit_of w p)"
proof -
  have wf: "gwf (db_subs (sh_db w))" and new: "map_of (db_subs (sh_db w)) k = None" and limit: "within_limit w u' plan"
    using assms(1,3) by (simp_all add: shop_ok_def subs_ok_def sellable_def)
  have plan: "pw_Id plan = planId" "limit_of w planId = pm_MaxPurchasePerUser (pw_Columns plan)"
    using assms(2) by (auto simp: shop_plan_def limit_of_def split: option.splits)
  show ?thesis
    using count_put [OF wf assms(4), of u p] new limit plan assms(5) by (auto simp: within_limit_def Let_def)
qed

lemma trade_count:
  assumes "trade w w'" and "shop_ok w" and "0 < limit_of w p"
  shows "plan_count w' u p \<le> max (plan_count w u p) (limit_of w p)"
  using assms
proof (induction rule: trade.induct)
  case (sold off dbNow newId t x r plan e w now payload pmt)
  then have s: "shop_plan w (so_PlanId r) = Some plan" "sellable off dbNow newId (so_UserId r) plan e w"
    "map_of (db_subs (sh_db w)) newId = None"
    by (simp_all add: order_sellable_def sellable_def)
  show ?case
    by (rule sale_count [OF sold(2) s(1,2) _ sold(3)])
      (simp add: order_sale_def write_order_def write_topup_def sale_tables [OF s(3)])
next
  case (given w planId plan off dbNow newId u' e)
  then have "map_of (db_subs (sh_db w)) newId = None" by (simp add: sellable_def)
  then show ?case
    by (intro sale_count [OF given(3,1,2) _ given(4)]) (simp add: sale_tables)
qed (simp_all add: plan_count_def put_plan_def)

section \<open>An example\<close>

text \<open>A plan of a hundred seconds that puts its users into the group \<open>vip\<close>, and an order for it.\<close>

definition example_vip :: subscription_plan where
  "example_vip = \<lparr>pl_DurationUnit = ''custom'', pl_DurationValue = 1, pl_CustomSeconds = 100, pl_TotalAmount = 1000,
     pl_UpgradeGroup = ''vip'', pl_QuotaResetPeriod = ''never'', pl_QuotaResetCustomSeconds = 0\<rparr>"

definition example_columns :: plan_columns where
  "example_columns = \<lparr>pm_Title = ''vip'', pm_PriceAmount = 5, pm_Enabled = True, pm_StripePriceId = [], pm_CreemProductId = [],
     pm_MaxPurchasePerUser = 2\<rparr>"

definition example_plan_row :: plan_row where
  "example_plan_row = \<lparr>pw_Id = 7, pw_Plan = example_vip, pw_Columns = example_columns\<rparr>"

definition example_order :: subscription_order where
  "example_order = pending_order 10 1 example_plan_row ''T1'' ''card'' PaymentProviderEpay"

definition example_shop :: shop where
  "example_shop = \<lparr>sh_db = \<lparr>db_users = [(1, 0)], db_tokens = [], db_subs = [], db_plans = [(7, example_vip)], db_records = [],
       db_batchEnabled = False, db_userBatch = [], db_tokenBatch = [], db_faults = []\<rparr>,
     sh_subCols = [], sh_planCols = [(7, example_columns)], sh_groups = [(1, ''default'')], sh_cached = [],
     sh_orders = [(''T1'', example_order)], sh_topups = []\<rparr>"

lemma example_order_fields [simp]:
  "so_TradeNo example_order = ''T1''" "so_UserId example_order = 1" "so_PlanId example_order = 7" "so_Status example_order = TopUpStatusPending"
  "so_PaymentProvider example_order = ''epay''"
  by (simp_all add: example_order_def pending_order_def example_plan_row_def PaymentProviderEpay_def)

lemma example_shop_ok: "shop_ok example_shop"
  by (simp add: shop_ok_def example_shop_def subs_ok_def order_ok_def order_subs_def paid_orders_def gwf_def example_vip_def split: if_splits)

lemma example_end: "calcPlanEndTime 0 40 example_vip = Inr 140"
  by code_simp

lemma example_upgrade [simp]: "upgrade_of example_plan_row = ''vip''"
  by code_simp

lemma example_sellable: "order_sellable 0 40 3 ''T1'' ''epay'' example_order example_plan_row 140 example_shop"
  using example_end
  by (simp add: order_sellable_def sellable_def provider_ok_def shop_plan_def within_limit_def plan_count_def example_shop_def
      example_plan_row_def example_columns_def)

lemma example_limit: "limit_of example_shop 7 = 2" "plan_count example_shop 1 7 = 0"
  by (simp_all add: limit_of_def plan_count_def example_shop_def example_columns_def)

section \<open>What holds in every shop\<close>


text \<open>The order is found and the subscription created, and the commit fails.\<close>

definition example_failing :: shop where
  "example_failing = example_shop\<lparr>sh_db := (sh_db example_shop)\<lparr>db_faults := replicate 9 False @ [True]\<rparr>\<rparr>"


text \<open>C14: Over all sequences of operations of the shop and all failures of the database the subscriptions that
  came from orders are at most as many as the completed orders, so one payment never buys two, and every
  completed order has a successful top-up over the money of the order. Billing, users and their cached
  copies change freely in between.\<close>

theorem orders_pay_for_subscriptions:
  assumes "shop_step\<^sup>*\<^sup>* w w'" and "shop_ok w"
  shows "order_subs w' \<le> paid_orders w'
    \<and> (\<forall>t r. map_of (sh_orders w') t = Some r \<and> so_Status r = TopUpStatusSuccess \<longrightarrow>
         (\<exists>p. map_of (sh_topups w') t = Some p \<and> tu_Status p = TopUpStatusSuccess \<and> tu_Money p = so_Money r))"
proof -
  have "shop_ok w'" using assms by (induction rule: rtranclp_induct) (auto intro: step_ok)
  then show ?thesis by (auto simp: shop_ok_def order_ok_def)
qed

theorem orders_pay_for_subscriptions_witness:
  "order_subs (snd (CompleteSubscriptionOrder 0 50 40 3 ''T1'' [] ''epay'' [] example_shop))
     \<le> paid_orders (snd (CompleteSubscriptionOrder 0 50 40 3 ''T1'' [] ''epay'' [] example_shop))"
proof -
  let ?w = "snd (CompleteSubscriptionOrder 0 50 40 3 ''T1'' [] ''epay'' [] example_shop)"
  have "shop_step\<^sup>*\<^sup>* example_shop ?w" by (intro r_into_rtranclp shop_step.complete)
  from orders_pay_for_subscriptions [OF this example_shop_ok] show ?thesis by blast
qed

text \<open>C30: No operation of the shop, whatever queries fail, raises the number of a user's subscriptions to a
  plan above the limit of the plan; where the limit was lowered below that number before, the number does
  not grow.\<close>

theorem purchase_limit_respected:
  assumes "shop_step w w'" and "shop_ok w" and "0 < limit_of w p"
  shows "plan_count w' u p \<le> max (plan_count w u p) (limit_of w p)"
proof -
  have calms: "calms a b \<Longrightarrow> shop_ok a \<Longrightarrow> shop_ok b \<and> plan_count b u p \<le> plan_count a u p" for a b
    by (induction rule: rtranclp_induct) (auto intro: calm_ok dest: calm_count order_trans)
  have "limit_of (quiet w) p = limit_of w p" by (simp add: limit_of_def)
  then show ?thesis
    using step_refines [OF assms(1)] calms [of "quiet w" "quiet w'"] trade_count [of "quiet w" "quiet w'" p u] assms(2,3)
    by (auto simp: refines_def)
qed

theorem purchase_limit_respected_witness:
  "plan_count (snd (CompleteSubscriptionOrder 0 50 40 3 ''T1'' [] ''epay'' [] example_shop)) 1 7 \<le> 2"
  using purchase_limit_respected [OF shop_step.complete example_shop_ok, where p = 7 and u = 1] by (simp add: example_limit)

end
