(* ===== verification/Shop_Groups.thy ===== *)
theory Shop_Groups
  imports Shop_Properties
begin

text \<open>
  The shop when no query fails: what completing an order does and that it does it once, and the group of a
  user from the purchase of a plan to the end of the subscription.
\<close>

section \<open>Runs without failures\<close>

definition sound :: "shop \<Rightarrow> bool" where
  "sound w \<longleftrightarrow> db_faults (sh_db w) = []"

lemma sound_query [simp]: "sound w \<Longrightarrow> shop_query w = (Inr (), w)"
  by (simp add: sound_def shop_query_def on_books_def db_query_def)

lemma sound_effects [simp]:
  "sound (add_sub s c w) = sound w" "sound (write_sub s w) = sound w" "sound (drop_sub k w) = sound w" "sound (write_order r w) = sound w"
  "sound (write_topup t w) = sound w" "sound (expire_all_rows n u w) = sound w" "sound (move_user u g w) = sound w"
  "sound (put_group u g w) = sound w" "sound (UpdateUserGroupCache u g w) = sound w" "sound (cache_group u g w) = sound w"
  "sound (tell_cache u g w) = sound w"
  by (simp_all add: sound_def effect_defs put_group_def split: option.split)

lemma sound_sale [simp]: "sound (sale off d k u plan src e w) = sound w"
  by (simp add: sale_def)

lemma sound_transaction:
  "body w = (Inr a, w') \<Longrightarrow> sound w' \<Longrightarrow> shop_transaction w body = (Inr a, w')"
  by (simp add: shop_transaction_def)

lemma sound_create:
  assumes "sound w" and "sellable off d k u plan e w"
  shows "CreateUserSubscriptionFromPlanTx off d k w u plan src = (Inr (new_sub off d k u plan e), sale off d k u plan src e w)"
proof -
  let ?g = "upgrade_of plan"
  have limit: "check_limit w u plan = (Inr (), w)" and u: "\<not> u \<le> 0" "pw_Id plan \<noteq> 0"
    and e: "calcPlanEndTime off d (pw_Plan plan) = Inr e" and new: "map_of (db_subs (sh_db w)) k = None"
    using assms by (auto simp: check_limit_def sellable_def within_limit_def Let_def)
  have up: "upgrade_user w u ?g = (Inr (remembered (user_group w u) ?g), move_user u ?g w)"
    using u assms(1) put_group_same [of w u ?g]
    by (simp add: upgrade_user_def remembered_def move_user_def getUserGroupByIdTx_def update_group_def)
  have "create_sub (move_user u ?g w) (new_sub off d k u plan e) c = (Inr (new_sub off d k u plan e), add_sub (new_sub off d k u plan e) c (move_user u ?g w))" for c
    using assms(1) new by (simp add: create_sub_def add_sub_def)
  then show ?thesis
    using u by (simp add: CreateUserSubscriptionFromPlanTx_def limit e up upgrade_of_def [symmetric] sale_def Let_def)
qed

lemma sound_plan:
  assumes "sound w" and "shop_plan w key = Some plan" and "0 < key"
  shows "GetSubscriptionPlanById w key = (Inr plan, w)"
  using assms by (auto simp: GetSubscriptionPlanById_def on_books_def getSubscriptionPlanByIdTx_def db_query_def sound_def shop_plan_def
      split: option.splits)

definition topup_fits :: "shop \<Rightarrow> subscription_order \<Rightarrow> bool" where
  "topup_fits w r \<longleftrightarrow> (case map_of (sh_topups w) (so_TradeNo r) of
     None \<Rightarrow> True | Some t \<Rightarrow> tu_PaymentMethod t \<in> {[], so_PaymentMethod r})"

lemma sound_upsert:
  assumes "sound w" and "topup_fits w r"
  shows "upsertSubscriptionTopUpTx now w r = (Inr (), write_topup (settled_topup now r (map_of (sh_topups w) (so_TradeNo r))) w)"
  using assms by (auto simp: upsertSubscriptionTopUpTx_def put_topup_def write_topup_def settled_topup_def topup_fits_def split: option.split)

lemma sound_completes:
  assumes "sound w" and "shop_ok w" and "order_sellable off d k t x r plan e w" and "0 < so_PlanId r" and "topup_fits w r" and "t \<noteq> []"
  shows "CompleteSubscriptionOrder off now d k t payload x pmt w =
    (Inr (), tell_cache (so_UserId r) (upgrade_of plan) (order_sale off now d k payload pmt r plan e w))"
proof -
  have r: "map_of (sh_orders w) t = Some r" "so_Status r = TopUpStatusPending" "provider_ok x r"
    and p: "shop_plan w (so_PlanId r) = Some plan" and s: "sellable off d k (so_UserId r) plan e w"
    using assms(3) by (simp_all add: order_sellable_def)
  let ?w1 = "sale off d k (so_UserId r) plan ''order'' e w"
  have find: "find_order w t x = (Inr r, w)" using r assms(1) by (auto simp: find_order_def provider_ok_def)
  have up: "upsertSubscriptionTopUpTx now ?w1 r = (Inr (), write_topup (settled_topup now r (map_of (sh_topups w) (so_TradeNo r))) ?w1)"
    using sound_upsert [of ?w1 r now] assms(1,5) by (simp add: topup_fits_def)
  have "complete_order off now d k t payload x pmt w =
      (Inr (so_UserId r, upgrade_of plan), order_sale off now d k payload pmt r plan e w)"
    using assms(1) r by (simp add: complete_order_def find sound_plan [OF assms(1) p assms(4)] sound_create [OF assms(1) s] up
        save_order_def order_sale_def write_order_def [symmetric] upgrade_of_def)
  moreover have "sound (order_sale off now d k payload pmt r plan e w)" using assms(1) by (simp add: order_sale_def)
  ultimately show ?thesis
    using sound_transaction [of "complete_order off now d k t payload x pmt" w] assms(6)
    by (simp add: CompleteSubscriptionOrder_def tell_cache_def)
qed

lemma completed_again:
  assumes "sound w" and "map_of (sh_orders w) t = Some r" and "so_Status r = TopUpStatusSuccess" and "provider_ok x r" and "t \<noteq> []"
  shows "CompleteSubscriptionOrder off now d k t payload x pmt w = (Inr (), w)"
proof -
  have "complete_order off now d k t payload x pmt w = (Inr (0, []), w)"
    using assms by (auto simp: complete_order_def find_order_def provider_ok_def)
  then show ?thesis
    using sound_transaction [of "complete_order off now d k t payload x pmt" w] assms(1,5)
    by (simp add: CompleteSubscriptionOrder_def)
qed

text \<open>What a completed order leaves behind.\<close>

lemma move_user_group:
  assumes "map_of (sh_groups w) u \<noteq> None"
  shows "user_group (move_user u g w) u = (if g = [] then user_group w u else g)"
    and "v \<noteq> u \<Longrightarrow> user_group (move_user u g w) v = user_group w v"
  using assms by (auto simp: move_user_def put_group_def user_group_def go_map_simps split: option.split)

lemma group_reads [simp]:
  "user_group (add_sub s c w) = user_group w" "user_group (write_order r w) = user_group w" "user_group (write_topup t w) = user_group w"
  "user_group (tell_cache u g w) = user_group w" "user_group (cache_group u g w) = user_group w"
  "user_group (expire_all_rows n u w) = user_group w" "user_group (drop_sub k w) = user_group w"
  by (simp_all add: user_group_def fun_eq_iff effect_defs)

lemma order_sale_reads:
  fixes plan :: plan_row and off now d e :: int and payload pmt :: string
  assumes "map_of (db_subs (sh_db w)) k = None" and "map_of (sh_groups w) (so_UserId r) \<noteq> None" and "so_TradeNo r = t"
    and "\<And>p. map_of (sh_topups w) t = Some p \<Longrightarrow> tu_TradeNo p = t"
  defines "w' \<equiv> tell_cache (so_UserId r) (upgrade_of plan) (order_sale off now d k payload pmt r plan e w)"
  shows "map_of (db_subs (sh_db w')) = (map_of (db_subs (sh_db w)))(k \<mapsto> new_sub off d k (so_UserId r) plan e)"
    and "user_group w' (so_UserId r) = (if upgrade_of plan = [] then user_group w (so_UserId r) else upgrade_of plan)"
    and "map_of (sh_orders w') = (map_of (sh_orders w))(t \<mapsto> completed_order now payload pmt r)"
    and "map_of (sh_topups w') = (map_of (sh_topups w))(t \<mapsto> settled_topup now r (map_of (sh_topups w) t))"
proof -
  have t: "tu_TradeNo (settled_topup now r (map_of (sh_topups w) t)) = t" "so_TradeNo (completed_order now payload pmt r) = t"
    using assms(3,4) by (auto simp: settled_topup_def completed_order_def split: option.split)
  show "map_of (db_subs (sh_db w')) = (map_of (db_subs (sh_db w)))(k \<mapsto> new_sub off d k (so_UserId r) plan e)"
    "map_of (sh_orders w') = (map_of (sh_orders w))(t \<mapsto> completed_order now payload pmt r)"
    "map_of (sh_topups w') = (map_of (sh_topups w))(t \<mapsto> settled_topup now r (map_of (sh_topups w) t))"
    using t assms(3) by (simp_all add: w'_def order_sale_def write_order_def write_topup_def sale_tables [OF assms(1)] go_map_simps)
  show "user_group w' (so_UserId r) = (if upgrade_of plan = [] then user_group w (so_UserId r) else upgrade_of plan)"
    using move_user_group(1) [OF assms(2)] by (simp add: w'_def order_sale_def sale_def)
qed

text \<open>C15: Completing an order is exact, atomic and idempotent. A call that fails leaves all tables as they
  were. When no query fails a pending order of an existing plan whose limit is not reached is completed:
  there is exactly one more subscription, the user is in the group of the plan, the order is marked as
  successful and its top-up is settled; the next callback for the order changes nothing and reports
  success.\<close>

theorem order_completed_once:
  assumes "shop_ok w" and "order_sellable off d k t x r plan e w" and "0 < so_PlanId r" and "topup_fits w r" and "t \<noteq> []"
    and "map_of (sh_groups w) (so_UserId r) \<noteq> None"
  shows "(fst (CompleteSubscriptionOrder off now d k t payload x pmt w) = Inl err \<longrightarrow>
      quiet (snd (CompleteSubscriptionOrder off now d k t payload x pmt w)) = quiet w)
    \<and> (sound w \<longrightarrow> (\<exists>w'. CompleteSubscriptionOrder off now d k t payload x pmt w = (Inr (), w')
         \<and> map_of (db_subs (sh_db w')) = (map_of (db_subs (sh_db w)))(k \<mapsto> new_sub off d k (so_UserId r) plan e)
         \<and> user_group w' (so_UserId r) = (if upgrade_of plan = [] then user_group w (so_UserId r) else upgrade_of plan)
         \<and> map_of (sh_orders w') = (map_of (sh_orders w))(t \<mapsto> completed_order now payload pmt r)
         \<and> map_of (sh_topups w') = (map_of (sh_topups w))(t \<mapsto> settled_topup now r (map_of (sh_topups w) t))
         \<and> CompleteSubscriptionOrder off' now' d' k' t payload' x pmt' w' = (Inr (), w')))"
proof (intro conjI impI)
  show "quiet (snd (CompleteSubscriptionOrder off now d k t payload x pmt w)) = quiet w"
    if "fst (CompleteSubscriptionOrder off now d k t payload x pmt w) = Inl err"
    using that by (rule completing.failed)
next
  assume s: "sound w"
  define w' where "w' = tell_cache (so_UserId r) (upgrade_of plan) (order_sale off now d k payload pmt r plan e w)"
  let ?r = "completed_order now payload pmt r"
  have r: "map_of (sh_orders w) t = Some r" "provider_ok x r" "map_of (db_subs (sh_db w)) k = None"
    using assms(2) by (simp_all add: order_sellable_def sellable_def)
  have "so_TradeNo r = t" "\<And>p. map_of (sh_topups w) t = Some p \<Longrightarrow> tu_TradeNo p = t"
    using assms(1) r by (simp_all add: shop_ok_def order_ok_def)
  note reads = order_sale_reads [OF r(3) assms(6) this, of plan off now d payload pmt e, folded w'_def]
  have "so_Status ?r = TopUpStatusSuccess" "provider_ok x ?r" "sound w'" "map_of (sh_orders w') t = Some ?r"
    using r(2) s reads(3) by (simp_all add: completed_order_def provider_ok_def w'_def order_sale_def)
  then have "CompleteSubscriptionOrder off' now' d' k' t payload' x pmt' w' = (Inr (), w')"
    using completed_again [where w = w' and r = ?r] assms(5) by blast
  then show "\<exists>w'. CompleteSubscriptionOrder off now d k t payload x pmt w = (Inr (), w')
         \<and> map_of (db_subs (sh_db w')) = (map_of (db_subs (sh_db w)))(k \<mapsto> new_sub off d k (so_UserId r) plan e)
         \<and> user_group w' (so_UserId r) = (if upgrade_of plan = [] then user_group w (so_UserId r) else upgrade_of plan)
         \<and> map_of (sh_orders w') = (map_of (sh_orders w))(t \<mapsto> completed_order now payload pmt r)
         \<and> map_of (sh_topups w') = (map_of (sh_topups w))(t \<mapsto> settled_topup now r (map_of (sh_topups w) t))
         \<and> CompleteSubscriptionOrder off' now' d' k' t payload' x pmt' w' = (Inr (), w')"
    using sound_completes [OF s assms(1-5), of now payload pmt, folded w'_def] reads by (intro exI [of _ w']) simp
qed

lemma example_sound: "sound example_shop"
  by (simp add: sound_def example_shop_def)

theorem order_completed_once_witness:
  "\<exists>w'. CompleteSubscriptionOrder 0 50 40 3 ''T1'' [] ''epay'' [] example_shop = (Inr (), w') \<and> user_group w' 1 = ''vip''
     \<and> CompleteSubscriptionOrder 0 60 55 4 ''T1'' [] ''epay'' [] w' = (Inr (), w')"
  using order_completed_once [OF example_shop_ok example_sellable, of 50 "[]" "[]" EmptyTradeNo 0 60 55 4 "[]" "[]"] example_sound
  by (auto simp: topup_fits_def example_shop_def)

section \<open>The rows that hold a group\<close>

definition upgraded :: "shop \<Rightarrow> int \<Rightarrow> user_subscription list" where
  "upgraded w u = filter (\<lambda>s. us_UserId s = u \<and> sc_UpgradeGroup (sub_columns_of w (us_Id s)) \<noteq> []) (map snd (db_subs (sh_db w)))"

lemma holds_upgraded:
  "holds_group w u now other \<longleftrightarrow> (\<exists>s \<in> set (upgraded w u). us_Status s = ''active'' \<and> us_EndTime s > now \<and> other (us_Id s))"
  by (auto simp: holds_group_def upgraded_def)

lemma last_upgraded:
  "last_expired w u = (case SliceStable ends_later (filter (\<lambda>s. us_Status s = ''expired'') (upgraded w u)) of [] \<Rightarrow> None | s # _ \<Rightarrow> Some s)"
  by (simp add: last_expired_def upgraded_def filter_filter conj_ac cong: filter_cong)

lemma upgraded_expire: "upgraded (expire_all_rows now v w) u = map (expire_row now v) (upgraded w u)"
  by (simp add: upgraded_def expire_all_rows_def sub_columns_of_def filter_map comp_def case_prod_beta)

lemma columns_reads [simp]:
  "sub_columns_of (expire_all_rows now v w) = sub_columns_of w" "sub_columns_of (move_user v g w) = sub_columns_of w"
  "sub_columns_of (cache_group v g w) = sub_columns_of w" "sub_columns_of (tell_cache v g w) = sub_columns_of w"
  by (simp_all add: sub_columns_of_def fun_eq_iff expire_all_rows_def)

lemma upgraded_moves [simp]:
  "upgraded (move_user v g w) = upgraded w" "upgraded (cache_group v g w) = upgraded w" "upgraded (tell_cache v g w) = upgraded w"
  by (simp_all add: upgraded_def fun_eq_iff)

lemma gput_new: "map_of m k = None \<Longrightarrow> gput k v m = m @ [(k, v)]"
  by (induction m) (auto split: if_splits)

lemma sale_columns:
  assumes "map_of (db_subs (sh_db w)) k = None"
  shows "sub_columns_of (sale off d k u plan src e w) = (sub_columns_of w)(k := \<lparr>sc_Source = src,
    sc_UpgradeGroup = upgrade_of plan, sc_PrevUserGroup = remembered (user_group w u) (upgrade_of plan)\<rparr>)"
  by (rule ext) (simp add: sub_columns_of_def sale_tables [OF assms] go_map_simps)

lemma upgraded_sale:
  assumes "subs_ok (sh_db w)" and "map_of (db_subs (sh_db w)) k = None" and "upgrade_of plan \<noteq> []"
  shows "upgraded (sale off d k u plan src e w) u = upgraded w u @ [new_sub off d k u plan e]"
proof -
  have "us_Id s \<noteq> k" if "s \<in> set (map snd (db_subs (sh_db w)))" for s
    using that assms(1,2) by (auto simp: subs_ok_def gwf_def dest!: map_of_is_SomeI [rotated])
  then have "filter (\<lambda>s. us_UserId s = u \<and> sc_UpgradeGroup (sub_columns_of (sale off d k u plan src e w) (us_Id s)) \<noteq> []) (map snd (db_subs (sh_db w)))
      = upgraded w u"
    unfolding upgraded_def sale_columns [OF assms(2)] by (intro filter_cong) auto
  moreover have "sc_UpgradeGroup (sub_columns_of (sale off d k u plan src e w) k) \<noteq> []"
    using assms(3) by (simp add: sale_columns [OF assms(2)])
  ultimately show ?thesis
    by (simp add: upgraded_def sale_tables [OF assms(2)] gput_new [OF assms(2)])
qed

section \<open>Expiry without failures\<close>

definition exit_group :: "int \<Rightarrow> int \<Rightarrow> shop \<Rightarrow> string" where
  "exit_group now u w =
     (if holds_group w u now (\<lambda>_. True) then []
      else case last_expired w u of
          None \<Rightarrow> []
        | Some s \<Rightarrow>
            (let c = sub_columns_of w (us_Id s); up = TrimSpace (sc_UpgradeGroup c); prev = TrimSpace (sc_PrevUserGroup c) in
             if up = [] \<or> prev = [] \<or> user_group w u \<noteq> up \<or> user_group w u = prev then [] else prev))"

lemma sound_expire_user:
  fixes now :: int
  assumes "sound w" and "0 < u"
  defines "w1 \<equiv> expire_all_rows now u w"
  shows "expire_user now u w =
    (Inr (due_count now u w), cache_group u (exit_group now u w1) (move_user u (exit_group now u w1) w1))"
proof -
  have s: "sound w1" using assms(1) by (simp add: w1_def)
  have rows: "expire_rows now u w = (Inr (due_count now u w), w1)"
    using assms(1) by (simp add: expire_rows_def due_count_def w1_def expire_all_rows_def)
  have leave: "leave_group u c w1 = (let up = TrimSpace (sc_UpgradeGroup c); prev = TrimSpace (sc_PrevUserGroup c);
      g = (if up = [] \<or> prev = [] \<or> user_group w1 u \<noteq> up \<or> user_group w1 u = prev then [] else prev) in (Inr g, move_user u g w1))" for c
    using s assms(2) by (auto simp: leave_group_def getUserGroupByIdTx_def update_group_def move_user_def Let_def)
  have "after_expiry now u w1 = (Inr (exit_group now u w1), move_user u (exit_group now u w1) w1)"
    using s by (auto simp: after_expiry_def exit_group_def leave Let_def move_user_def split: option.split)
  then have "shop_transaction w (\<lambda>w. bnd (expire_rows now u w) (\<lambda>n w. bnd (after_expiry now u w) (\<lambda>g w. (Inr (n, g), w)))) =
      (Inr (due_count now u w, exit_group now u w1), move_user u (exit_group now u w1) w1)"
    using s by (intro sound_transaction) (simp_all add: rows)
  then show ?thesis by (simp add: expire_user_def cache_group_def)
qed

text \<open>The user of the row that ended last goes back to the group this row remembers, if it remembers one.\<close>

lemma exit_after:
  assumes "\<not> holds_group w u now (\<lambda>_. True)" and "last_expired w u = Some s"
    and "sc_UpgradeGroup (sub_columns_of w (us_Id s)) = g" and "TrimSpace g = g" and "user_group w u = g" and "g \<noteq> []"
  shows "exit_group now u w = (let prev = TrimSpace (sc_PrevUserGroup (sub_columns_of w (us_Id s))) in if prev = g then [] else prev)"
  using assms by (auto simp: exit_group_def Let_def)

lemma slice_single [simp]: "SliceStable lt [x] = [x]"
  by (simp add: SliceStable_def)

lemma expire_row_due: "us_UserId s = u \<Longrightarrow> due now s \<Longrightarrow> us_Status (expire_row now u s) = ''expired''"
  by (simp add: expire_row_def)

lemma upgrade_of_trimmed [simp]: "TrimSpace (upgrade_of plan) = upgrade_of plan"
  by (simp add: upgrade_of_def)

section \<open>From the purchase to the end\<close>

lemma created:
  assumes "sound w" and "CreateUserSubscriptionFromPlanTx off d k w u plan src = (Inr s, w1)"
  shows "\<exists>e. sellable off d k u plan e w \<and> s = new_sub off d k u plan e \<and> w1 = sale off d k u plan src e w"
proof -
  obtain e where e: "sellable off d k u plan e w"
    using create_gives [of off d k w u plan src] assms(2) by auto
  with sound_create [OF assms(1) e, of src] assms(2) show ?thesis by auto
qed

text \<open>A user who buys a first plan with a group.\<close>

definition newcomer :: "shop \<Rightarrow> int \<Rightarrow> string \<Rightarrow> plan_row \<Rightarrow> bool" where
  "newcomer w u g plan \<longleftrightarrow> map_of (sh_groups w) u = Some g \<and> upgraded w u = [] \<and> upgrade_of plan \<noteq> []
     \<and> g \<noteq> upgrade_of plan \<and> g \<noteq> [] \<and> TrimSpace g = g"

lemma newcomer_sale:
  fixes src :: string
  assumes "shop_ok w" and "sellable off d k u plan e w" and "newcomer w u g plan"
  defines "w1 \<equiv> sale off d k u plan src e w"
  shows "user_group w1 u = upgrade_of plan" and "upgraded w1 u = [new_sub off d k u plan e]"
    and "sub_columns_of w1 k = \<lparr>sc_Source = src, sc_UpgradeGroup = upgrade_of plan, sc_PrevUserGroup = g\<rparr>"
    and "map_of (sh_groups w1) u \<noteq> None"
proof -
  have new: "map_of (db_subs (sh_db w)) k = None" using assms(2) by (simp add: sellable_def)
  have g: "map_of (sh_groups w) u = Some g" "user_group w u = g" using assms(3) by (simp_all add: newcomer_def user_group_def)
  show "user_group w1 u = upgrade_of plan"
    using move_user_group(1) [of w u "upgrade_of plan"] g assms(3) by (simp add: w1_def sale_def newcomer_def)
  show "upgraded w1 u = [new_sub off d k u plan e]"
    using upgraded_sale [OF _ new] assms(1,3) by (simp add: w1_def newcomer_def shop_ok_def)
  show "sub_columns_of w1 k = \<lparr>sc_Source = src, sc_UpgradeGroup = upgrade_of plan, sc_PrevUserGroup = g\<rparr>"
    using assms(3) g by (simp add: w1_def sale_columns [OF new] remembered_def newcomer_def)
  show "map_of (sh_groups w1) u \<noteq> None"
    using g by (simp add: w1_def sale_def add_sub_def move_user_def put_group_def go_map_simps)
qed

lemma newcomer_expiry:
  assumes "sound w1" and "0 < u" and "user_group w1 u = up" and "upgraded w1 u = [s]" and "us_Id s = k" and "us_UserId s = u"
    and "us_Status s = ''active''" and "sub_columns_of w1 k = \<lparr>sc_Source = src, sc_UpgradeGroup = up, sc_PrevUserGroup = g\<rparr>"
    and "map_of (sh_groups w1) u \<noteq> None" and "up \<noteq> []" "TrimSpace up = up" "g \<noteq> up" "g \<noteq> []" "TrimSpace g = g" and "0 < us_EndTime s"
  shows "user_group (snd (expire_user now u w1)) u = (if now < us_EndTime s then up else g)"
proof -
  let ?w = "expire_all_rows now u w1"
  have up: "upgraded ?w u = [expire_row now u s]" by (simp add: upgraded_expire assms(4))
  have "sh_groups ?w = sh_groups w1" by (simp add: expire_all_rows_def)
  then have grp: "user_group ?w u = up" "map_of (sh_groups ?w) u \<noteq> None" using assms(3,9) by simp_all
  have "exit_group now u ?w = (if now < us_EndTime s then [] else g)"
  proof (cases "now < us_EndTime s")
    case True
    then have "holds_group ?w u now (\<lambda>_. True)" using assms(7) by (simp add: holds_upgraded up, simp add: expire_row_def due_def)
    then show ?thesis using True by (simp add: exit_group_def)
  next
    case False
    then have d: "due now s" using assms(7,15) by (simp add: due_def)
    then have "last_expired ?w u = Some (expire_row now u s)"
      using expire_row_due [OF assms(6) d] by (simp add: last_upgraded up)
    moreover have "\<not> holds_group ?w u now (\<lambda>_. True)" using expire_row_due [OF assms(6) d] by (simp add: holds_upgraded up)
    ultimately show ?thesis
      using exit_after [of ?w u now "expire_row now u s" up] False assms by (simp add: Let_def)
  qed
  then show ?thesis
    using sound_expire_user [OF assms(1,2), of now] move_user_group(1) [OF grp(2), of g] grp(1) assms(13)
    by (simp add: move_user_def)
qed

lemma sound_downgrade:
  assumes "sound w" and "0 < us_UserId s" and "\<not> holds_group w (us_UserId s) now (\<lambda>j. j \<noteq> us_Id s)"
    and "user_group w (us_UserId s) = sc_UpgradeGroup c" and "sc_UpgradeGroup c \<noteq> []" "TrimSpace (sc_UpgradeGroup c) = sc_UpgradeGroup c"
    and "sc_PrevUserGroup c = g" "g \<noteq> []" "TrimSpace g = g" "g \<noteq> sc_UpgradeGroup c"
  shows "downgradeUserGroupForSubscriptionTx w s c now = (Inr g, move_user (us_UserId s) g w)"
  using assms by (simp add: downgradeUserGroupForSubscriptionTx_def getUserGroupByIdTx_def restore_group_def update_group_def move_user_def)

lemma gput_rows: "set (map snd (gput k s m)) \<subseteq> insert s (set (map snd m))"
  by (induction m) auto

lemma others_keep: "holds_group (write_sub s w) u now (\<lambda>j. j \<noteq> us_Id s) \<Longrightarrow> holds_group w u now (\<lambda>j. j \<noteq> us_Id s)"
proof -
  assume "holds_group (write_sub s w) u now (\<lambda>j. j \<noteq> us_Id s)"
  then obtain b where "b \<in> set (map snd (gput (us_Id s) s (db_subs (sh_db w))))" and b: "us_UserId b = u" "us_Status b = ''active''"
    "us_EndTime b > now" "us_Id b \<noteq> us_Id s" "sc_UpgradeGroup (sub_columns_of w (us_Id b)) \<noteq> []"
    unfolding holds_group_def write_sub_reads by (auto simp: write_sub_def)
  then have "b \<in> set (map snd (db_subs (sh_db w)))" using gput_rows [of "us_Id s" s "db_subs (sh_db w)"] by blast
  then show ?thesis using b unfolding holds_group_def by blast
qed

lemma newcomer_taken:
  assumes "sound w1" and "0 < u" and "user_group w1 u = up" and "upgraded w1 u = [s]" and "us_Id s = k" and "us_UserId s = u"
    and "map_of (db_subs (sh_db w1)) k = Some s" and "sub_columns_of w1 k = \<lparr>sc_Source = src, sc_UpgradeGroup = up, sc_PrevUserGroup = g\<rparr>"
    and "map_of (sh_groups w1) u \<noteq> None" and "up \<noteq> []" "TrimSpace up = up" "g \<noteq> up" "g \<noteq> []" "TrimSpace g = g" and "0 < k"
  shows "user_group (snd (AdminInvalidateUserSubscription now k w1)) u = g"
    and "user_group (snd (AdminDeleteUserSubscription now k w1)) u = g"
proof -
  let ?c = "cancelled_sub now s" and ?cols = "sub_columns_of w1 k"
  let ?w = "write_sub ?c w1"
  have find: "find_user_sub w1 k = (Inr s, w1)"
    using assms(1,7) by (simp add: find_user_sub_def on_books_def find_sub_def db_query_def sound_def)
  have save: "on_books (\<lambda>db. save_sub db ?c) w1 = (Inr (), ?w)"
    using assms(1) by (simp add: on_books_def save_sub_def db_query_def sound_def write_sub_def)
  have alone: "\<not> holds_group w1 u now (\<lambda>j. j \<noteq> k)" by (simp add: holds_upgraded assms(4,5))
  then have alone': "\<not> holds_group ?w u now (\<lambda>j. j \<noteq> k)" using others_keep [of ?c w1 u now] assms(5) by auto
  have down: "downgradeUserGroupForSubscriptionTx w1 s ?cols now = (Inr g, move_user u g w1)"
    "downgradeUserGroupForSubscriptionTx ?w ?c ?cols now = (Inr g, move_user u g ?w)"
    using assms alone alone' sound_downgrade [of w1 s now ?cols g] sound_downgrade [of ?w ?c now ?cols g] by simp_all
  have moved: "user_group (move_user u g v) u = g" if "sh_groups v = sh_groups w1" for v
    using move_user_group(1) [of v u g] that assms(9,13) by simp
  have "shop_transaction w1 (\<lambda>w. bnd (find_user_sub w k) (\<lambda>sub w.
          bnd (on_books (\<lambda>db. save_sub db (cancelled_sub now sub)) w) (\<lambda>_ w.
          bnd (downgradeUserGroupForSubscriptionTx w (cancelled_sub now sub) (sub_columns_of w k) now) (\<lambda>target w.
            (Inr (us_UserId sub, target), w))))) = (Inr (u, g), move_user u g ?w)"
    using assms(1,6) by (intro sound_transaction) (simp_all add: find save down)
  then show "user_group (snd (AdminInvalidateUserSubscription now k w1)) u = g"
    using assms(15) moved [of ?w] by (simp add: AdminInvalidateUserSubscription_def Let_def cancelled_sub_def [symmetric], simp add: write_sub_def)
  have "shop_transaction w1 (\<lambda>w. bnd (find_user_sub w k) (\<lambda>sub w.
          bnd (downgradeUserGroupForSubscriptionTx w sub (sub_columns_of w k) now) (\<lambda>target w.
          bnd (delete_sub w k) (\<lambda>_ w. (Inr (us_UserId sub, target), w))))) = (Inr (u, g), drop_sub k (move_user u g w1))"
    using assms(1,6) by (intro sound_transaction) (simp_all add: find down delete_sub_def, simp add: drop_sub_def)
  then show "user_group (snd (AdminDeleteUserSubscription now k w1)) u = g"
    using assms(15) moved [of w1] by (simp add: AdminDeleteUserSubscription_def)
qed

text \<open>C32: The group of a first purchase lasts as long as the subscription. With no failing query, a user who
  holds no other group by subscription and buys a plan with a group is in that group, stays in it through
  every expiry run before the end, and is back in the group from before after the first run at or past
  the end, and also when an administrator cancels or deletes the subscription.\<close>

theorem group_lasts_with_subscription:
  assumes "sound w" and "shop_ok w" and "newcomer w u g plan" and "0 < k"
    and buy: "CreateUserSubscriptionFromPlanTx off d k w u plan src = (Inr s, w1)" and "0 < us_EndTime s"
  shows "user_group w1 u = upgrade_of plan
    \<and> user_group (snd (expire_user now u w1)) u = (if now < us_EndTime s then upgrade_of plan else g)
    \<and> user_group (snd (AdminInvalidateUserSubscription now k w1)) u = g
    \<and> user_group (snd (AdminDeleteUserSubscription now k w1)) u = g"
proof -
  obtain e where e: "sellable off d k u plan e w" and s: "s = new_sub off d k u plan e" and w1: "w1 = sale off d k u plan src e w"
    using created [OF assms(1) buy] by blast
  note sale = newcomer_sale [OF assms(2) e assms(3), of src, folded w1 s]
  have u: "0 < u" and row: "map_of (db_subs (sh_db w1)) k = Some s"
    using e by (simp_all add: sellable_def w1 s sale_tables go_map_simps)
  have g: "upgrade_of plan \<noteq> []" "TrimSpace (upgrade_of plan) = upgrade_of plan" "g \<noteq> upgrade_of plan" "g \<noteq> []" "TrimSpace g = g"
    and sound: "sound w1" and id: "us_Id s = k" "us_UserId s = u" "us_Status s = ''active''"
    using assms(1,3) by (simp_all add: newcomer_def w1 s)
  show ?thesis
    using sale(1) newcomer_expiry [OF sound u sale(1,2) id sale(3,4) g assms(6)]
      newcomer_taken [OF sound u sale(1,2) id(1,2) row sale(3,4) g assms(4)] by blast
qed

lemma example_newcomer: "newcomer example_shop 1 ''default'' example_plan_row"
proof -
  have "TrimSpace ''default'' = ''default''" by code_simp
  then show ?thesis by (simp add: newcomer_def example_shop_def upgraded_def)
qed

lemma example_bought:
  "CreateUserSubscriptionFromPlanTx 0 40 3 example_shop 1 example_plan_row ''admin'' =
     (Inr (new_sub 0 40 3 1 example_plan_row 140), sale 0 40 3 1 example_plan_row ''admin'' 140 example_shop)"
  using sound_create [OF example_sound] example_sellable by (simp add: order_sellable_def)

theorem group_lasts_with_subscription_witness:
  "user_group (snd (expire_user 100 1 (sale 0 40 3 1 example_plan_row ''admin'' 140 example_shop))) 1 = ''vip''
   \<and> user_group (snd (expire_user 140 1 (sale 0 40 3 1 example_plan_row ''admin'' 140 example_shop))) 1 = ''default''"
  using group_lasts_with_subscription [OF example_sound example_shop_ok example_newcomer _ example_bought, of 100]
    group_lasts_with_subscription [OF example_sound example_shop_ok example_newcomer _ example_bought, of 140] by simp

section \<open>A second purchase\<close>

text \<open>
  The two rows of a user who bought twice: the second was bought in the group of the first, so it remembers
  no group, and it ends last.
\<close>

definition renewed :: "shop \<Rightarrow> int \<Rightarrow> string \<Rightarrow> user_subscription \<Rightarrow> user_subscription \<Rightarrow> bool" where
  "renewed w u g s1 s2 \<longleftrightarrow> sound w \<and> user_group w u = g
     \<and> (\<exists>a b. upgraded w u = [s1\<lparr>us_Status := a\<rparr>, s2\<lparr>us_Status := b\<rparr>] \<and> b \<in> {''active'', ''expired''})
     \<and> sc_PrevUserGroup (sub_columns_of w (us_Id s2)) = []"

lemma expire_row_status:
  "expire_row now u (s\<lparr>us_Status := a\<rparr>) =
     s\<lparr>us_Status := (if us_UserId s = u \<and> due now (s\<lparr>us_Status := a\<rparr>) then ''expired'' else a)\<rparr>"
  by (simp add: expire_row_def)

lemma renewed_expiry:
  assumes "renewed w u g s1 s2" and "0 < u" and "us_EndTime s1 < us_EndTime s2" and "0 < us_EndTime s2" and "us_UserId s2 = u"
  shows "renewed (snd (expire_user now u w)) u g s1 s2"
proof -
  let ?w = "expire_all_rows now u w"
  obtain a b where rows: "upgraded w u = [s1\<lparr>us_Status := a\<rparr>, s2\<lparr>us_Status := b\<rparr>]" "b \<in> {''active'', ''expired''}"
    and w: "sound w" "user_group w u = g" "sc_PrevUserGroup (sub_columns_of w (us_Id s2)) = []"
    using assms(1) by (auto simp: renewed_def)
  obtain a' where a': "expire_row now u (s1\<lparr>us_Status := a\<rparr>) = s1\<lparr>us_Status := a'\<rparr>" using expire_row_status by blast
  define b' where "b' = (if due now (s2\<lparr>us_Status := b\<rparr>) then ''expired'' else b)"
  then have b': "expire_row now u (s2\<lparr>us_Status := b\<rparr>) = s2\<lparr>us_Status := b'\<rparr>" "b' \<in> {''active'', ''expired''}"
    using expire_row_status [where s = s2 and a = b] rows(2) assms(5) by auto
  have up: "upgraded ?w u = [s1\<lparr>us_Status := a'\<rparr>, s2\<lparr>us_Status := b'\<rparr>]" by (simp add: upgraded_expire rows a' b'(1))
  have "exit_group now u ?w = []"
  proof (cases "b' = ''expired''")
    case True
    then have "last_expired ?w u = Some (s2\<lparr>us_Status := b'\<rparr>)"
      using assms(3) by (auto simp: last_upgraded up SliceStable_def ends_later_def)
    then show ?thesis using w(3) by (simp add: exit_group_def Let_def)
  next
    case False
    then have "b' = ''active''" "now < us_EndTime s2"
      using b'(2) b'_def assms(4) by (auto simp: due_def split: if_splits)
    then have "holds_group ?w u now (\<lambda>_. True)" by (simp add: holds_upgraded up)
    then show ?thesis by (simp add: exit_group_def)
  qed
  then have "snd (expire_user now u w) = ?w"
    using sound_expire_user [OF w(1) assms(2), of now] by (simp add: move_user_def cache_group_def)
  then show ?thesis using w up b'(2) by (auto simp: renewed_def)
qed

text \<open>C37: A user who buys a plan again before the first subscription ends keeps the group of the plan for
  good. The second purchase finds the user in the group already and remembers no group to go back to;
  whatever the times of the expiry runs, also long after both subscriptions have ended, the user stays in
  the group.\<close>

theorem repeat_purchase_keeps_group:
  assumes "sound w" and "shop_ok w" and "newcomer w u g plan1" and "upgrade_of plan2 = upgrade_of plan1"
    and total: "pl_TotalAmount (pw_Plan plan1) < 2 ^ 63"
    and buy1: "CreateUserSubscriptionFromPlanTx off d1 k1 w u plan1 src1 = (Inr s1, w1)"
    and buy2: "CreateUserSubscriptionFromPlanTx off d2 k2 w1 u plan2 src2 = (Inr s2, w2)"
    and "0 < us_EndTime s1" and "us_EndTime s1 < us_EndTime s2"
  shows "user_group (fold (\<lambda>now w. snd (expire_user now u w)) runs w2) u = upgrade_of plan1"
proof -
  obtain e1 where e1: "sellable off d1 k1 u plan1 e1 w" and s1: "s1 = new_sub off d1 k1 u plan1 e1" and w1: "w1 = sale off d1 k1 u plan1 src1 e1 w"
    using created [OF assms(1) buy1] by blast
  note sale = newcomer_sale [OF assms(2) e1 assms(3), of src1, folded w1 s1]
  have "sound w1" using assms(1) by (simp add: w1)
  then obtain e2 where e2: "sellable off d2 k2 u plan2 e2 w1" and s2: "s2 = new_sub off d2 k2 u plan2 e2" and w2: "w2 = sale off d2 k2 u plan2 src2 e2 w1"
    using created [OF _ buy2] by blast
  have new: "map_of (db_subs (sh_db w1)) k2 = None" and u: "0 < u" using e2 by (simp_all add: sellable_def)
  have ok: "subs_ok (sh_db w1)" unfolding w1 by (rule sale_parts(1) [OF assms(2) e1 total])
  have up: "upgrade_of plan2 \<noteq> []" using assms(3,4) by (simp add: newcomer_def)
  have "upgraded w2 u = [s1, s2]" using upgraded_sale [OF ok new up] sale(2) by (simp add: w2 s2)
  moreover have "sub_columns_of w2 (us_Id s2) = \<lparr>sc_Source = src2, sc_UpgradeGroup = upgrade_of plan1, sc_PrevUserGroup = []\<rparr>"
    using sale(1) assms(4) by (simp add: w2 s2 sale_columns [OF new] remembered_def)
  moreover have "user_group w2 u = upgrade_of plan1"
    using move_user_group(1) [OF sale(4), of "upgrade_of plan2"] up assms(4) by (simp add: w2 sale_def)
  moreover have "s1\<lparr>us_Status := ''active''\<rparr> = s1" "s2\<lparr>us_Status := ''active''\<rparr> = s2" by (simp_all add: s1 s2 new_sub_def Let_def)
  ultimately have start: "renewed w2 u (upgrade_of plan1) s1 s2"
    using \<open>sound w1\<close> by (auto simp: renewed_def w2 intro!: exI [of _ "''active''"])
  have "renewed v u (upgrade_of plan1) s1 s2 \<Longrightarrow> renewed (fold (\<lambda>now w. snd (expire_user now u w)) runs v) u (upgrade_of plan1) s1 s2" for v
    by (induction runs arbitrary: v) (use renewed_expiry [OF _ u] assms(8,9) in \<open>simp_all add: s2\<close>)
  then show ?thesis using start by (simp add: renewed_def)
qed

theorem repeat_purchase_keeps_group_witness:
  "user_group (fold (\<lambda>now w. snd (expire_user now 1 w)) [150, 1000]
     (sale 0 60 4 1 example_plan_row ''admin'' 160 (sale 0 40 3 1 example_plan_row ''admin'' 140 example_shop))) 1 = ''vip''"
proof -
  let ?w1 = "sale 0 40 3 1 example_plan_row ''admin'' 140 example_shop"
  have "calcPlanEndTime 0 60 example_vip = Inr 160" by code_simp
  moreover have "map_of (db_subs (sh_db example_shop)) 3 = None" by (simp add: example_shop_def)
  ultimately have "sellable 0 60 4 1 example_plan_row 160 ?w1"
    by (simp add: sellable_def within_limit_def plan_count_def sale_tables go_map_simps, simp add: example_shop_def example_plan_row_def example_columns_def)
  moreover have "sound ?w1" using example_sound by simp
  ultimately have "CreateUserSubscriptionFromPlanTx 0 60 4 ?w1 1 example_plan_row ''admin'' =
      (Inr (new_sub 0 60 4 1 example_plan_row 160), sale 0 60 4 1 example_plan_row ''admin'' 160 ?w1)"
    by (rule sound_create [rotated])
  moreover have "pl_TotalAmount (pw_Plan example_plan_row) < 2 ^ 63" by (simp add: example_plan_row_def example_vip_def)
  ultimately show ?thesis
    using repeat_purchase_keeps_group [OF example_sound example_shop_ok example_newcomer refl _ example_bought, of 60 4 "''admin''" _ _ "[150, 1000]"]
    by simp
qed

end
