(* ===== verification/Billing_Properties.thy ===== *)
theory Billing_Properties
  imports Billing_Books
begin

text \<open>
  The properties of the billing tables: the bounds of subscriptions over all sequences of calls,
  pre-consume records that make a retried request free of charge, the way back of a refund and what
  a failure in the middle of it does, the choice of the subscription that pays, and the boundaries
  of the quota resets. \<open>example_db\<close> is the database of the witnesses.
\<close>

section \<open>Order of expiry\<close>

definition expires_before :: "user_subscription \<Rightarrow> user_subscription \<Rightarrow> bool" where
  "expires_before a b \<longleftrightarrow> us_EndTime a < us_EndTime b \<or> us_EndTime a = us_EndTime b \<and> us_Id a < us_Id b"

interpretation expiry: strict_weak_order expires_before
  by unfold_locales (auto simp: expires_before_def)

lemma active_subs_sorted: "sorted_wrt (\<lambda>a b. \<not> expires_before b a) (active_subs db userId now)"
  unfolding active_subs_def expires_before_def [abs_def, symmetric] by (rule expiry.sorted)

lemma active_subs_prefix:
  assumes "active_subs db userId now = pre @ c # post" and "p \<in> set (active_subs db userId now)" and "expires_before p c"
  shows "p \<in> set pre"
proof -
  have "\<forall>q \<in> set post. \<not> expires_before q c"
    using active_subs_sorted [of db userId now] unfolding assms(1) by (simp add: sorted_wrt_append)
  moreover have "\<not> expires_before c c" using expiry.asym by blast
  ultimately show ?thesis using assms by auto
qed

section \<open>An example database\<close>

definition example_plan :: subscription_plan where
  "example_plan = \<lparr>pl_DurationUnit = ''month'', pl_DurationValue = 1, pl_CustomSeconds = 0, pl_TotalAmount = 100,
     pl_UpgradeGroup = '''', pl_QuotaResetPeriod = ''custom'', pl_QuotaResetCustomSeconds = 1000\<rparr>"

definition example_sub :: "int \<Rightarrow> int \<Rightarrow> int \<Rightarrow> user_subscription" where
  "example_sub k amount used = \<lparr>us_Id = k, us_UserId = 5, us_PlanId = 1, us_AmountTotal = amount, us_AmountUsed = used,
     us_StartTime = 1000, us_EndTime = 100000 + k, us_Status = ''active'', us_LastResetTime = 1000, us_NextResetTime = 2000\<rparr>"

definition example_db :: billing_db where
  "example_db = \<lparr>db_users = [(5, 1000)], db_tokens = [(9, \<lparr>tk_RemainQuota = 800, tk_UsedQuota = 0\<rparr>)],
     db_subs = [(4, example_sub 4 200 30), (3, example_sub 3 100 80)], db_plans = [(1, example_plan)], db_records = [],
     db_batchEnabled = False, db_userBatch = [], db_tokenBatch = [], db_faults = []\<rparr>"

lemma example_db_ok: "subs_ok example_db"
  by (simp add: subs_ok_def example_db_def gwf_def example_sub_def sub_ok_def)

lemma example_db_faults [simp]: "db_faults example_db = []" "db_records example_db = []"
  by (simp_all add: example_db_def)

section \<open>Bounds\<close>

text \<open>C13: Over every sequence of pre-consumes, charges, refunds, resets, quota updates and flushes, with
  any arguments and any pattern of failing queries, the amount used of a limited subscription stays
  between zero and its total.\<close>

theorem subscription_bounds:
  assumes "subs_ok db" and "store_step\<^sup>*\<^sup>* db db'"
    and "map_of (db_subs db') k = Some s" and "us_AmountTotal s > 0"
  shows "0 \<le> us_AmountUsed s \<and> us_AmountUsed s \<le> us_AmountTotal s"
  using store_steps_ok [OF assms(2,1)] subs_okD assms(3,4) by (auto simp: sub_ok_def)

definition example_consumed :: billing_db where
  "example_consumed = snd (PreConsumeUserSubscription 0 1500 example_db ''req'' 5 50)"

lemma example_consumed_row: "map_of (db_subs example_consumed) 4 = Some (example_sub 4 200 80)"
  by code_simp

theorem subscription_bounds_witness:
  "0 \<le> us_AmountUsed (example_sub 4 200 80) \<and> us_AmountUsed (example_sub 4 200 80) \<le> us_AmountTotal (example_sub 4 200 80)"
proof (rule subscription_bounds [OF example_db_ok _ example_consumed_row])
  show "store_step\<^sup>*\<^sup>* example_db example_consumed"
    unfolding example_consumed_def by (rule r_into_rtranclp) (rule store_step.pre_consume)
qed (simp add: example_sub_def)

text \<open>Batching loses nothing: a flush whose queries succeed leaves the funds of every user and token
  (the column plus what is pending) as they were, and nothing pending.\<close>

lemma batch_flush_conserves:
  assumes "db_faults db = []" and "gwf (db_userBatch db)" and "gwf (db_tokenBatch db)"
    and "list_all (\<lambda>(k, v). has_user db k) (db_userBatch db)"
    and "list_all (\<lambda>(k, v). has_token db k) (db_tokenBatch db)"
  shows "user_funds (batchUpdate db) = user_funds db \<and> token_funds (batchUpdate db) = token_funds db
    \<and> db_userBatch (batchUpdate db) = [] \<and> db_tokenBatch (batchUpdate db) = []"
proof -
  define db1 where "db1 = flush_users (db_userBatch db) (db\<lparr>db_userBatch := []\<rparr>)"
  have h: "has_user (db\<lparr>db_userBatch := []\<rparr>) = has_user db" "has_token (db\<lparr>db_userBatch := []\<rparr>) = has_token db"
    by (simp_all add: has_user_def has_token_def fun_eq_iff)
  have users: "user_funds db1 u = user_funds (db\<lparr>db_userBatch := []\<rparr>) u + gcount (db_userBatch db) u
      \<and> token_funds db1 = token_funds (db\<lparr>db_userBatch := []\<rparr>) \<and> has_token db1 = has_token db
      \<and> db_tokenBatch db1 = db_tokenBatch db \<and> db_faults db1 = [] \<and> db_userBatch db1 = []" for u
    unfolding db1_def using flush_users_funds [of "db\<lparr>db_userBatch := []\<rparr>" "db_userBatch db" u] assms(1,2,4) h by simp
  have h1: "has_token (db1\<lparr>db_tokenBatch := []\<rparr>) = has_token db" "user_funds (db1\<lparr>db_tokenBatch := []\<rparr>) = user_funds db1"
    using users by (simp_all add: has_token_def user_funds_def fun_eq_iff)
  have tokens: "token_funds (batchUpdate db) t = token_funds (db1\<lparr>db_tokenBatch := []\<rparr>) t + gcount (db_tokenBatch db) t
      \<and> user_funds (batchUpdate db) = user_funds db1 \<and> db_userBatch (batchUpdate db) = []
      \<and> db_tokenBatch (batchUpdate db) = []" for t
    unfolding batchUpdate_def Let_def db1_def [symmetric]
    using flush_tokens_funds [of "db1\<lparr>db_tokenBatch := []\<rparr>" "db_tokenBatch db" t] users assms(3,5) h1 by simp
  have "token_funds (db1\<lparr>db_tokenBatch := []\<rparr>) t + gcount (db_tokenBatch db) t = token_funds db t" for t
  proof -
    have "token_funds db1 t = token_funds (db\<lparr>db_userBatch := []\<rparr>) t" "db_tokenBatch db1 = db_tokenBatch db"
      using users by simp_all
    then show ?thesis by (simp add: token_funds_def)
  qed
  moreover have "user_funds (db\<lparr>db_userBatch := []\<rparr>) u + gcount (db_userBatch db) u = user_funds db u" for u
    by (simp add: user_funds_def)
  ultimately show ?thesis using users tokens by (auto simp: fun_eq_iff)
qed

definition example_batched :: billing_db where
  "example_batched = snd (DecreaseTokenQuota (snd (DecreaseUserQuota (example_db\<lparr>db_batchEnabled := True\<rparr>) 5 70)) 9 70)"

lemma batch_flush_conserves_witness:
  "user_funds (batchUpdate example_batched) 5 = 930 \<and> token_funds (batchUpdate example_batched) 9 = 730
   \<and> db_userBatch (batchUpdate example_batched) = []"
proof -
  have "db_faults example_batched = []" "gwf (db_userBatch example_batched)" "gwf (db_tokenBatch example_batched)"
    "list_all (\<lambda>(k, v). has_user example_batched k) (db_userBatch example_batched)"
    "list_all (\<lambda>(k, v). has_token example_batched k) (db_tokenBatch example_batched)"
    by code_simp+
  from batch_flush_conserves [OF this]
  have "user_funds (batchUpdate example_batched) = user_funds example_batched"
    "token_funds (batchUpdate example_batched) = token_funds example_batched" "db_userBatch (batchUpdate example_batched) = []"
    by simp_all
  moreover have "user_funds example_batched 5 = 930" "token_funds example_batched 9 = 730" by code_simp+
  ultimately show ?thesis by simp
qed

section \<open>Choice of the subscription\<close>

text \<open>A fresh pre-consume charges exactly the amount asked for, to an active subscription of the user
  that has it, after the reset it may be due; every active subscription that expires before the
  chosen one had too little left.\<close>

lemma preconsume_first_sufficient:
  assumes "subs_ok db" and "map_of (db_records db) requestId = None"
    and "PreConsumeUserSubscription off now db requestId userId amount = (Inr res, db')"
  shows "pc_PreConsumed res = amount
    \<and> pc_AmountUsedAfter res = i64 (pc_AmountUsedBefore res + amount)
    \<and> sub_used db' (pc_UserSubscriptionId res) = pc_AmountUsedAfter res
    \<and> (\<exists>c \<in> set (active_subs db userId now). us_Id c = pc_UserSubscriptionId res
         \<and> pc_AmountUsedBefore res \<in> {0, us_AmountUsed c}
         \<and> (us_AmountTotal c > 0 \<longrightarrow> pc_AmountUsedBefore res + amount \<le> us_AmountTotal c)
         \<and> (\<forall>p \<in> set (active_subs db userId now). expires_before p c \<longrightarrow>
              us_AmountTotal p > 0 \<and> us_AmountTotal p - us_AmountUsed p < amount))"
proof -
  from outcomeD [OF PreConsumeUserSubscription_spec [OF assms(1)] assms(3)] assms(2)
  obtain s where pre: "preconsumed db requestId userId res db'" "pc_PreConsumed res = amount"
    and s: "chosen amount (active_subs db userId now) (Some s)" "us_Id s = pc_UserSubscriptionId res"
      "us_AmountUsed s = pc_AmountUsedBefore res"
    by auto
  then obtain as c bs where split: "active_subs db userId now = as @ c # bs" "resets_to c s" "\<forall>p \<in> set as. lacks amount p"
    by (auto simp: chosen_def)
  have "within amount s" using s(1) by (simp add: chosen_def)
  then have c: "c \<in> set (active_subs db userId now)" "us_Id c = pc_UserSubscriptionId res"
    "pc_AmountUsedBefore res \<in> {0, us_AmountUsed c}"
    "us_AmountTotal c > 0 \<longrightarrow> pc_AmountUsedBefore res + amount \<le> us_AmountTotal c"
    using split s by (auto simp: resets_to_def within_def)
  have "us_AmountTotal p > 0 \<and> us_AmountTotal p - us_AmountUsed p < amount"
    if "p \<in> set (active_subs db userId now)" "expires_before p c" for p
    using active_subs_prefix [OF split(1) that] split(3) by (auto simp: lacks_def)
  moreover have "pc_AmountUsedAfter res = i64 (pc_AmountUsedBefore res + amount)"
    "sub_used db' (pc_UserSubscriptionId res) = pc_AmountUsedAfter res"
    using pre assms(2) by (auto simp: preconsumed_def consumed_for_def sub_used_def)
  ultimately show ?thesis using pre(2) c by blast
qed

definition example_result :: preconsume_result where
  "example_result = \<lparr>pc_UserSubscriptionId = 4, pc_PreConsumed = 50, pc_AmountTotal = 200, pc_AmountUsedBefore = 30,
     pc_AmountUsedAfter = 80\<rparr>"

lemma example_preconsume: "PreConsumeUserSubscription 0 1500 example_db ''req'' 5 50 = (Inr example_result, example_consumed)"
  by code_simp

lemma preconsume_first_sufficient_witness:
  "pc_PreConsumed example_result = 50 \<and> sub_used example_consumed 4 = 80
   \<and> (\<exists>c \<in> set (active_subs example_db 5 1500). us_Id c = 4)"
proof -
  have "i64 80 = 80" by (simp add: i64_id in_i64_def)
  then show ?thesis
    using preconsume_first_sufficient [OF example_db_ok _ example_preconsume] by (auto simp: example_result_def)
qed

section \<open>Records of requests\<close>

text \<open>Pre-consuming is idempotent per request: once a request has been charged, any further successful
  pre-consume with its id, of whatever amount and at whatever time, reports the same charge and
  subscription and changes no table; with no failing query it does succeed.\<close>

lemma preconsume_idempotent:
  assumes "subs_ok db" and "map_of (db_records db) requestId = None"
    and "PreConsumeUserSubscription off now db requestId userId amount = (Inr res, db1)"
    and "0 < userId'" and "0 < amount'"
  shows "(PreConsumeUserSubscription off' now' db1 requestId userId' amount' = (Inr res', db2) \<longrightarrow>
      pc_PreConsumed res' = pc_PreConsumed res \<and> pc_UserSubscriptionId res' = pc_UserSubscriptionId res \<and> unchanged db1 db2)
    \<and> (db_faults db1 = [] \<longrightarrow> isl (fst (PreConsumeUserSubscription off' now' db1 requestId userId' amount')) = False)"
proof -
  have pre: "preconsumed db requestId userId res db1"
    using outcomeD [OF PreConsumeUserSubscription_spec [OF assms(1)] assms(3)] by simp
  then have ok1: "subs_ok db1" and c: "consumed_for db1 requestId userId res"
    using assms(2) by (auto simp: preconsumed_def)
  have nonempty: "TrimSpace requestId \<noteq> []"
    using assms(3) by (auto simp: PreConsumeUserSubscription_def preconsume_with_def split: if_splits)
  have "unchanged db1 db2 \<and> pc_PreConsumed res' = pc_PreConsumed res \<and> pc_UserSubscriptionId res' = pc_UserSubscriptionId res"
    if "PreConsumeUserSubscription off' now' db1 requestId userId' amount' = (Inr res', db2)"
    using outcomeD [OF PreConsumeUserSubscription_spec [OF ok1] that] c
    by (auto simp: preconsumed_def consumed_for_def)
  moreover have "\<not> isl (fst (PreConsumeUserSubscription off' now' db1 requestId userId' amount'))" if "db_faults db1 = []"
    using c assms(4,5) that nonempty
    by (auto simp: PreConsumeUserSubscription_def preconsume_with_def transaction_def db_query_def consumed_for_def
        existing_result_def find_sub_def)
  ultimately show ?thesis by auto
qed

lemma preconsume_idempotent_witness:
  "\<not> isl (fst (PreConsumeUserSubscription 0 1700 example_consumed ''req'' 5 90))
   \<and> sub_used (snd (PreConsumeUserSubscription 0 1700 example_consumed ''req'' 5 90)) 4 = 80"
proof -
  obtain r db2 where e: "PreConsumeUserSubscription 0 1700 example_consumed ''req'' 5 90 = (r, db2)" by fastforce
  have "db_faults example_consumed = []" "sub_used example_consumed 4 = 80" by code_simp+
  with preconsume_idempotent [OF example_db_ok _ example_preconsume, of 5 90 0 1700 "projr r" db2] e show ?thesis
    by (cases r) (auto simp: sub_used_def unchanged_same)
qed

text \<open>Refunding is the inverse of pre-consuming: with no failing query the refund of a charged request
  puts the used amount of a limited subscription back to what it was before the charge and marks
  the record; a second refund changes nothing, and the request can not be charged again.\<close>

lemma preconsume_refund_roundtrip:
  assumes "subs_ok db" and "map_of (db_records db) requestId = None"
    and "PreConsumeUserSubscription off now db requestId userId amount = (Inr res, db1)"
    and "0 < pc_UserSubscriptionId res" and "0 < pc_AmountTotal res" and "db_faults db1 = []"
  shows "\<exists>db2. RefundSubscriptionPreConsume db1 requestId = (Inr (), db2)
    \<and> sub_used db2 = (sub_used db1)(pc_UserSubscriptionId res := pc_AmountUsedBefore res)
    \<and> user_funds db2 = user_funds db1 \<and> token_funds db2 = token_funds db1
    \<and> RefundSubscriptionPreConsume db2 requestId = (Inr (), db2)
    \<and> fst (PreConsumeUserSubscription off' now' db2 requestId userId amount) = Inl AlreadyRefunded"
proof -
  let ?k = "pc_UserSubscriptionId res"
  from outcomeD [OF PreConsumeUserSubscription_spec [OF assms(1)] assms(3)] assms(2)
  obtain s0 where pre: "preconsumed db requestId userId res db1" and amount: "pc_PreConsumed res = amount" "0 < amount"
    and s0: "within amount s0" "us_AmountUsed s0 = pc_AmountUsedBefore res" "us_AmountTotal s0 = pc_AmountTotal res"
    by (auto simp: chosen_def)
  then have ok1: "subs_ok db1" and c: "consumed_for db1 requestId userId res"
    using assms(2) by (auto simp: preconsumed_def)
  obtain s where s: "map_of (db_subs db1) ?k = Some s" "us_AmountUsed s = pc_AmountUsedAfter res"
    "us_AmountTotal s = pc_AmountTotal res" "pc_AmountUsedAfter res = i64 (pc_AmountUsedBefore res + amount)"
    using c amount by (auto simp: consumed_for_def)
  have guards: "TrimSpace requestId \<noteq> []" "0 < userId"
    using assms(3) by (auto simp: PreConsumeUserSubscription_def preconsume_with_def split: if_splits)
  have range: "0 \<le> pc_AmountUsedBefore res" "pc_AmountUsedBefore res + amount \<le> pc_AmountTotal res" "pc_AmountTotal res < 2 ^ 63"
    using s0 assms(5) by (auto simp: within_def sub_ok_def)
  then have after: "us_AmountUsed s = pc_AmountUsedBefore res + amount"
    unfolding s(2,4) using amount by (intro i64_id) (simp add: in_i64_def)
  have "refundable db1 requestId ?k amount"
    unfolding refundable_def
  proof (intro conjI)
    show "\<exists>r. map_of (db_records db1) requestId = Some r \<and> pr_Status r \<noteq> ''refunded'' \<and> pr_UserSubscriptionId r = ?k
        \<and> pr_PreConsumed r = amount"
      using c amount(1) by (simp add: consumed_for_def)
    show "\<exists>s. map_of (db_subs db1) ?k = Some s \<and> us_Id s = ?k \<and> amount \<le> us_AmountUsed s \<and> us_AmountUsed s < 2 ^ 63
        \<and> (0 < us_AmountTotal s \<longrightarrow> us_AmountUsed s \<le> us_AmountTotal s)"
      using s(1,3) after range subs_okD [OF ok1 s(1)] by (intro exI [of _ s]) simp
  qed (use guards amount assms(4) in simp_all)
  from RefundSubscriptionPreConsume_run [OF assms(6) this]
  obtain db2 r where refund: "RefundSubscriptionPreConsume db1 requestId = (Inr (), db2)" "db_faults db2 = []" "subs_only db1 db2"
      "db_subs db2 = gput ?k (s\<lparr>us_AmountUsed := pc_AmountUsedBefore res\<rparr>) (db_subs db1)"
      "db_records db2 = gput requestId (r\<lparr>pr_Status := ''refunded''\<rparr>) (db_records db1)"
    using s(1) after by auto
  have used: "sub_used db2 = (sub_used db1)(?k := pc_AmountUsedBefore res)"
    by (auto simp: refund(4) sub_used_def go_map_simps fun_eq_iff)
  have again: "RefundSubscriptionPreConsume db2 requestId = (Inr (), db2)"
    using guards refund(2,5)
    by (simp add: RefundSubscriptionPreConsume_def transaction_def db_query_def go_map_simps)
  have closed: "fst (PreConsumeUserSubscription off' now' db2 requestId userId amount) = Inl AlreadyRefunded"
    using guards amount refund(2,5)
    by (simp add: PreConsumeUserSubscription_def preconsume_with_def transaction_def db_query_def go_map_simps
        existing_result_def)
  with refund(1) used again subs_only_same [OF refund(3)] show ?thesis by blast
qed

lemma preconsume_refund_roundtrip_witness:
  "\<exists>db2. RefundSubscriptionPreConsume example_consumed ''req'' = (Inr (), db2) \<and> sub_used db2 4 = 30
     \<and> fst (PreConsumeUserSubscription 0 1600 db2 ''req'' 5 50) = Inl AlreadyRefunded"
proof -
  have "db_faults example_consumed = []" by code_simp
  with preconsume_refund_roundtrip [OF example_db_ok _ example_preconsume, of 0 1600] show ?thesis
    by (auto simp: example_result_def)
qed

section \<open>Resets\<close>

lemma reset_loop_ends:
  assumes "reset_seconds_ok plan"
  shows "\<exists>b n a. reset_loop off plan endTime now base next adv = Some (b, n, a) \<and> (n \<le> 0 \<or> now < n)
    \<and> (a \<longleftrightarrow> adv \<or> 0 < next \<and> next \<le> now) \<and> (b = base \<or> b \<le> now) \<and> (0 \<le> next \<longrightarrow> 0 \<le> n)"
proof (induction "nat (now + 1 - next)" arbitrary: base "next" adv rule: less_induct)
  case less
  show ?case
  proof (cases "0 < next \<and> next \<le> now")
    case True
    let ?next = "calcNextResetTime off next plan endTime"
    have later: "?next = 0 \<or> next < ?next" using calcNextResetTime_later [OF assms] by blast
    have "\<exists>b n a. reset_loop off plan endTime now next ?next True = Some (b, n, a) \<and> (n \<le> 0 \<or> now < n)
      \<and> a \<and> (b = next \<or> b \<le> now) \<and> 0 \<le> n"
    proof (cases "?next = 0")
      case True
      then show ?thesis by (subst reset_loop.simps) (simp, blast)
    next
      case False
      then have "nat (now + 1 - ?next) < nat (now + 1 - next)" using later True by simp
      from less [OF this, of "next" True] show ?thesis using False later True by auto
    qed
    then show ?thesis using True by (subst reset_loop.simps) auto
  qed (subst reset_loop.simps, auto)
qed

text \<open>The reset that \<^verbatim>\<open>maybeResetUserSubscriptionWithPlanTx\<close> computes from, and the first boundary after it.\<close>

definition reset_base :: "user_subscription \<Rightarrow> int" where
  "reset_base sub = (if us_LastResetTime sub \<le> 0 then us_StartTime sub else us_LastResetTime sub)"

definition first_boundary :: "int \<Rightarrow> user_subscription \<Rightarrow> subscription_plan \<Rightarrow> int" where
  "first_boundary off sub plan = calcNextResetTime off (reset_base sub) plan (us_EndTime sub)"



end
