(* ===== verification/Shop_Maintenance.thy ===== *)
theory Shop_Maintenance
  imports Shop_Groups Billing_Properties
begin

text \<open>
  The loops of the maintenance task. The loop that expires subscriptions ends, whatever queries fail, and
  leaves nothing to expire; the loop that resets quotas counts rows that it does not change and can run
  forever.
\<close>

section \<open>Expiring a batch\<close>

abbreviation rows :: "shop \<Rightarrow> user_subscription list" where
  "rows w \<equiv> map snd (db_subs (sh_db w))"

definition ripe :: "int \<Rightarrow> int set \<Rightarrow> user_subscription \<Rightarrow> bool" where
  "ripe now us s \<longleftrightarrow> us_UserId s \<in> us \<and> due now s"

definition expire_set :: "int \<Rightarrow> int set \<Rightarrow> user_subscription \<Rightarrow> user_subscription" where
  "expire_set now us s = (if ripe now us s then s\<lparr>us_Status := ''expired''\<rparr> else s)"

lemma expire_set_due: "due now (expire_set now us s) \<longleftrightarrow> due now s \<and> us_UserId s \<notin> us"
  by (auto simp: expire_set_def ripe_def due_def)

lemma expire_set_user [simp]: "us_UserId (expire_set now us s) = us_UserId s"
  by (simp add: expire_set_def)

lemma expire_user_rows:
  assumes "expire_user now u w = (Inr n, w')"
  shows "rows w' = map (expire_set now {u}) (rows w)" and "n = int (length (filter (ripe now {u}) (rows w)))"
proof -
  obtain g where n: "n = due_count now u w" and q: "quiet w' = cache_group u g (move_user u g (expire_all_rows now u (quiet w)))"
    using expire_user_effect [of now u w] assms by auto
  have "rows w' = rows (quiet w')" by simp
  then show "rows w' = map (expire_set now {u}) (rows w)"
    unfolding q by (simp add: expire_all_rows_def comp_def case_prod_beta expire_set_def ripe_def expire_row_def)
  show "n = int (length (filter (ripe now {u}) (rows w)))" by (simp add: n due_count_def ripe_def comp_def)
qed

lemma ripe_split:
  "u \<notin> us \<Longrightarrow> length (filter (ripe now (insert u us)) ss) =
     length (filter (ripe now {u}) ss) + length (filter (ripe now us) (map (expire_set now {u}) ss))"
  by (induction ss) (auto simp: ripe_def expire_set_due)

lemma expire_users_rows:
  assumes "expire_users now us w n = (Inr m, w')" and "distinct us"
  shows "rows w' = map (expire_set now (set us)) (rows w) \<and> m = n + int (length (filter (ripe now (set us)) (rows w)))"
  using assms
proof (induction us arbitrary: w n)
  case Nil
  then show ?case by (simp add: expire_set_def ripe_def)
next
  case (Cons u us)
  obtain k w1 where e: "expire_user now u w = (Inr k, w1)" and rest: "expire_users now us w1 (n + k) = (Inr m, w')"
    using Cons.prems(1) by (auto simp: bnd_def split: prod.splits sum.splits)
  have u: "u \<notin> set us" "distinct us" using Cons.prems(2) by simp_all
  have "expire_set now (set us) (expire_set now {u} s) = expire_set now (set (u # us)) s" for s
    by (auto simp: expire_set_def ripe_def due_def)
  then show ?case
    using Cons.IH [OF rest u(2)] expire_user_rows [OF e] ripe_split [OF u(1), of now "rows w"] by (simp add: comp_def)
qed

definition visits :: "(int list \<Rightarrow> int list) \<Rightarrow> bool" where
  "visits visit \<longleftrightarrow> (\<forall>us. distinct us \<longrightarrow> distinct (visit us) \<and> set (visit us) = set us)"

lemma filter_le_mset: "mset xs \<subseteq># mset ys \<Longrightarrow> length (filter P xs) \<le> length (filter P ys)"
  by (metis multiset_filter_mono mset_filter size_mset size_mset_mono)

lemma ExpireDue_rows:
  assumes "ExpireDueSubscriptions visit now limit w = (Inr n, w')" and "visits visit" and "0 < limit"
    and pos: "\<forall>s \<in> set (rows w). 0 < us_UserId s"
  obtains us where "rows w' = map (expire_set now us) (rows w)" and "n = int (length (filter (ripe now us) (rows w)))"
    and "n < limit \<Longrightarrow> \<forall>s \<in> set (rows w). due now s \<longrightarrow> us_UserId s \<in> us"
proof -
  obtain w0 where q: "shop_query w = (Inr (), w0)" and same: "rows w0 = rows w"
    by (rule shop_query_cases [of w]) (use assms(1) in \<open>auto simp: ExpireDueSubscriptions_def dest: quiet_same(7)\<close>)
  let ?lt = "\<lambda>a b. us_EndTime a < us_EndTime b \<or> us_EndTime a = us_EndTime b \<and> us_Id a < us_Id b"
  define all where "all = SliceStable ?lt (filter (due now) (rows w))"
  define batch where "batch = take (nat limit) all"
  define us where "us = visit (remdups (filter (\<lambda>u. u > 0) (map us_UserId batch)))"
  have run: "expire_users now us w0 0 = (Inr n, w')"
    using assms(1,3) by (simp add: ExpireDueSubscriptions_def q same us_def batch_def all_def Let_def)
  have batch: "set batch \<subseteq> set (filter (due now) (rows w))" using set_take_subset [of "nat limit" all] by (auto simp: batch_def all_def)
  then have users: "set us = us_UserId ` set batch" "distinct us" using assms(2) pos by (auto simp: us_def visits_def)
  note res = expire_users_rows [OF run users(2), unfolded same]
  have "mset batch \<subseteq># mset all"
    unfolding batch_def by (metis append_take_drop_id mset_append mset_subset_eq_add_left)
  then have "mset batch \<subseteq># mset (filter (due now) (rows w))" unfolding all_def mset_SliceStable .
  from filter_le_mset [OF this, of "ripe now (set us)"]
  have le: "length (filter (ripe now (set us)) batch) \<le> length (filter (ripe now (set us)) (rows w))"
    by (simp add: filter_filter ripe_def conj_ac cong: filter_cong)
  have "filter (ripe now (set us)) batch = batch" using batch users by (auto simp: filter_id_conv ripe_def)
  with le res have "int (length batch) \<le> n" by simp
  then have "batch = all" if "n < limit" using that by (auto simp: batch_def split: if_splits)
  moreover have "set all = set (filter (due now) (rows w))" by (simp add: all_def)
  ultimately have "\<forall>s \<in> set (rows w). due now s \<longrightarrow> us_UserId s \<in> set us" if "n < limit" using that users(1) by auto
  then show ?thesis using that [of "set us"] res by simp
qed

section \<open>The expiry loop ends\<close>

definition active_rows :: "shop \<Rightarrow> nat" where
  "active_rows w = length (filter (\<lambda>s. us_Status s = ''active'') (rows w))"

lemma active_falls:
  "length (filter (\<lambda>s. us_Status s = ''active'') (map (expire_set now us) ss)) + length (filter (ripe now us) ss) =
     length (filter (\<lambda>s. us_Status s = ''active'') ss)"
  by (induction ss) (auto simp: expire_set_def ripe_def due_def)

text \<open>C33: The loop of the maintenance task that expires subscriptions ends after finitely many batches,
  whatever queries fail, however the clock moves and in whatever order users are visited. When no batch
  failed, no subscription that was due at the time of the last batch is still active.\<close>

theorem expiry_completes:
  assumes "visits visit" and "\<forall>s \<in> set (map snd (db_subs (sh_db w))). 0 < us_UserId s"
  shows "\<exists>ok j w'. expire_loop visit clock i w = Some (ok, j, w')
    \<and> (ok \<longrightarrow> (\<forall>s \<in> set (map snd (db_subs (sh_db w'))). \<not> due (clock j) s))"
  using assms(2)
proof (induction "active_rows w" arbitrary: i w rule: less_induct)
  case less
  obtain r w1 where e: "ExpireDueSubscriptions visit (clock i) subscriptionResetBatchSize w = (r, w1)" by fastforce
  show ?case
  proof (cases r)
    case (Inl err)
    have "expire_loop visit clock i w = Some (False, i, w1)" by (subst expire_loop.simps) (simp add: e Inl)
    then show ?thesis by blast
  next
    case (Inr n)
    obtain us where rows: "rows w1 = map (expire_set (clock i) us) (rows w)" and n: "n = int (length (filter (ripe (clock i) us) (rows w)))"
      and due: "n < subscriptionResetBatchSize \<Longrightarrow> \<forall>s \<in> set (rows w). due (clock i) s \<longrightarrow> us_UserId s \<in> us"
      using ExpireDue_rows [OF e [unfolded Inr] assms(1) _ less.prems] by (auto simp: subscriptionResetBatchSize_def)
    show ?thesis
    proof (cases "n < subscriptionResetBatchSize")
      case True
      then have "\<forall>s \<in> set (rows w1). \<not> due (clock i) s" using due rows by (auto simp: expire_set_due)
      moreover have "expire_loop visit clock i w = Some (True, i, w1)"
        by (subst expire_loop.simps) (simp add: e Inr True)
      ultimately show ?thesis by blast
    next
      case False
      then have "n \<noteq> 0" by (auto simp: subscriptionResetBatchSize_def)
      with False have step: "expire_loop visit clock i w = expire_loop visit clock (Suc i) w1"
        by (subst expire_loop.simps) (simp add: e Inr)
      have "active_rows w1 < active_rows w"
        using active_falls [of "clock i" us "rows w"] False n
        unfolding active_rows_def rows subscriptionResetBatchSize_def by linarith
      moreover have "\<forall>s \<in> set (rows w1). 0 < us_UserId s" using less.prems unfolding rows by simp
      ultimately show ?thesis unfolding step by (rule less.hyps)
    qed
  qed
qed

definition example_sold :: shop where
  "example_sold = sale 0 40 3 1 example_plan_row ''admin'' 140 example_shop"

theorem expiry_completes_witness:
  "\<exists>ok j w'. expire_loop (\<lambda>us. us) (\<lambda>i. 150 + int i) 0 example_sold = Some (ok, j, w')
     \<and> (ok \<longrightarrow> (\<forall>s \<in> set (map snd (db_subs (sh_db w'))). \<not> due (150 + int j) s))"
proof -
  have new: "map_of (db_subs (sh_db example_shop)) 3 = None" by (simp add: example_shop_def)
  have "\<forall>s \<in> set (map snd (db_subs (sh_db example_sold))). 0 < us_UserId s"
    unfolding example_sold_def sale_tables [OF new] by (simp add: example_shop_def)
  then show ?thesis
    using expiry_completes [of "\<lambda>us. us" example_sold "\<lambda>i. 150 + int i" 0] by (simp add: visits_def)
qed

section \<open>The reset loop may not end\<close>

definition reset_pending :: "int \<Rightarrow> user_subscription \<Rightarrow> bool" where
  "reset_pending now s \<longleftrightarrow> us_NextResetTime s > 0 \<and> us_NextResetTime s \<le> now \<and> us_Status s = ''active''"

text \<open>
  A row that is due for a reset by its own column and not by the plan: the plan has no reset any more, or
  its next boundary from the last reset is still ahead. The reset leaves such a row as it is.
\<close>

definition overtaken :: "int \<Rightarrow> int \<Rightarrow> billing_db \<Rightarrow> user_subscription \<Rightarrow> bool" where
  "overtaken off now db s \<longleftrightarrow> (\<exists>plan. 0 < us_PlanId s \<and> map_of (db_plans db) (us_PlanId s) = Some plan
     \<and> \<not> (0 < first_boundary off s plan \<and> first_boundary off s plan \<le> now))"

lemma overtaken_kept:
  assumes "reset_pending now s" and "\<not> (0 < first_boundary off s plan \<and> first_boundary off s plan \<le> now)"
  shows "maybeResetUserSubscriptionWithPlanTx off db s plan now = (Inr s, db)"
proof -
  have "reset_loop off plan (us_EndTime s) now b (first_boundary off s plan) False = Some (b, first_boundary off s plan, False)" for b
    using assms(2) by (subst reset_loop.simps) auto
  then show ?thesis
    using assms(1) by (auto simp: maybeResetUserSubscriptionWithPlanTx_def reset_pending_def first_boundary_def reset_base_def Let_def)
qed

lemma reset_due_counts:
  assumes "db_faults db = []" and "\<forall>s \<in> set ss. reset_pending now s \<and> overtaken off now db s \<and> map_of (db_subs db) (us_Id s) = Some s"
  shows "reset_due off now ss db n = (Inr (n + int (length ss)), db)"
  using assms(2)
proof (induction ss arbitrary: n)
  case (Cons s ss)
  then obtain plan where plan: "0 < us_PlanId s" "map_of (db_plans db) (us_PlanId s) = Some plan"
    and ahead: "\<not> (0 < first_boundary off s plan \<and> first_boundary off s plan \<le> now)" by (auto simp: overtaken_def)
  have get: "getSubscriptionPlanByIdTx db (us_PlanId s) = (Inr plan, db)"
    using plan assms(1) by (simp add: getSubscriptionPlanByIdTx_def db_query_def)
  have row: "map_of (db_subs db) (us_Id s) = Some s" "us_NextResetTime s > 0 \<and> us_NextResetTime s \<le> now"
    using Cons.prems by (simp_all add: reset_pending_def)
  have "reset_due off now (s # ss) db n = reset_due off now ss db (n + 1)"
    using overtaken_kept [OF _ ahead, of db] Cons.prems assms(1) row
    by (simp add: get transaction_def db_query_def)
  then show ?case using Cons.IH [of "n + 1"] Cons.prems by simp
qed simp

lemma reset_batch_counts:
  assumes "db_faults db = []" and "subs_ok db" and "0 < limit"
    and "\<forall>s \<in> set (map snd (db_subs db)). reset_pending now s \<longrightarrow> overtaken off now db s"
  shows "ResetDueSubscriptions off now db limit =
    (Inr (min limit (int (length (filter (reset_pending now) (map snd (db_subs db)))))), db)"
proof -
  let ?all = "SliceStable (\<lambda>a b. us_NextResetTime a < us_NextResetTime b) (filter (reset_pending now) (map snd (db_subs db)))"
  have rows: "map_of (db_subs db) (us_Id s) = Some s" if mem: "s \<in> set (map snd (db_subs db))" for s
  proof -
    obtain k where "(k, s) \<in> set (db_subs db)" using mem by auto
    then have "map_of (db_subs db) k = Some s" using assms(2) by (simp add: subs_ok_def gwf_mem_iff)
    then show ?thesis using subs_okD [OF assms(2)] by metis
  qed
  have "set (take (nat limit) ?all) \<subseteq> set (filter (reset_pending now) (map snd (db_subs db)))"
    using set_take_subset by (metis set_SliceStable)
  then have "reset_due off now (take (nat limit) ?all) db 0 = (Inr (0 + int (length (take (nat limit) ?all))), db)"
    by (intro reset_due_counts [OF assms(1)]) (use assms(4) rows in fastforce)
  moreover have "int (length (take (nat limit) ?all)) = min limit (int (length (filter (reset_pending now) (map snd (db_subs db)))))"
    using assms(3) by simp
  moreover have "ResetDueSubscriptions off now db limit = reset_due off now (take (nat limit) ?all) db 0"
    using assms(1,3) by (simp add: ResetDueSubscriptions_def Let_def db_query_def reset_pending_def [abs_def])
  ultimately show ?thesis by simp
qed

text \<open>A batch of such rows, at one time.\<close>

definition stuck :: "int \<Rightarrow> int \<Rightarrow> billing_db \<Rightarrow> bool" where
  "stuck off now db \<longleftrightarrow> (\<forall>s \<in> set (map snd (db_subs db)). reset_pending now s \<longrightarrow> overtaken off now db s)
     \<and> subscriptionResetBatchSize \<le> int (length (filter (reset_pending now) (map snd (db_subs db))))"

lemma reset_loop_never_returns:
  "quota_reset_loop off clock i db = Some r \<Longrightarrow>
     \<not> (db_faults db = [] \<and> subs_ok db \<and> (\<forall>j. stuck off (clock j) db))"
proof (induction rule: quota_reset_loop.raw_induct [rotated, consumes 1, case_names step])
  case (step loop off clock i db r)
  show ?case
  proof
    assume stuck: "db_faults db = [] \<and> subs_ok db \<and> (\<forall>j. stuck off (clock j) db)"
    then have "ResetDueSubscriptions off (clock i) db subscriptionResetBatchSize = (Inr subscriptionResetBatchSize, db)"
      using reset_batch_counts [of db subscriptionResetBatchSize "clock i" off]
      by (auto simp: stuck_def subscriptionResetBatchSize_def)
    moreover have "subscriptionResetBatchSize \<noteq> 0" by (simp add: subscriptionResetBatchSize_def)
    ultimately have "loop off clock (Suc i) db = Some r" using step(2) by simp
    then show False using step(1) stuck by blast
  qed
qed

text \<open>C38: A run of the maintenance task does not end when, after its expiry loop, a full batch of active
  subscriptions is due for a reset by its own column while the plan, changed since, has no boundary for
  it: every batch counts the same rows as reset and writes nothing. The flag of the task, cleared at the
  end of a run, then stays set and no later run does anything.\<close>

theorem reset_maintenance_spins:
  assumes "\<not> mt_Running m" and "expire_loop visit clock 0 (mt_Shop m) = Some (True, i, w)"
    and "db_faults (sh_db w) = []" and "subs_ok (sh_db w)" and "\<forall>j. stuck off (clock j) (sh_db w)"
  shows "runSubscriptionQuotaResetOnce visit off clock updatedAt now m = None"
proof -
  have "quota_reset_loop off clock (Suc i) (sh_db w) = None"
    using reset_loop_never_returns [of off clock "Suc i" "sh_db w"] assms(3-5)
    by (cases "quota_reset_loop off clock (Suc i) (sh_db w)") auto
  then show ?thesis using assms(1,2) by (simp add: runSubscriptionQuotaResetOnce_def)
qed

text \<open>Three hundred subscriptions of a plan that was switched from daily resets to none.\<close>

definition example_row :: "int \<Rightarrow> user_subscription" where
  "example_row k = \<lparr>us_Id = k, us_UserId = k, us_PlanId = 7, us_AmountTotal = 0, us_AmountUsed = 0, us_StartTime = 10, us_EndTime = 5000,
     us_Status = ''active'', us_LastResetTime = 10, us_NextResetTime = 20\<rparr>"

definition example_crowd :: billing_db where
  "example_crowd = (sh_db example_shop)\<lparr>db_subs := map (\<lambda>k. (int k, example_row (int k))) [1..<301]\<rparr>"

lemma example_crowd_rows: "map snd (db_subs example_crowd) = map (\<lambda>k. example_row (int k)) [1..<301]"
  by (simp add: example_crowd_def comp_def)

lemma example_crowd_ok: "subs_ok example_crowd"
proof -
  have "map fst (db_subs example_crowd) = map int [1..<301]" by (simp add: example_crowd_def comp_def)
  then have "gwf (db_subs example_crowd)" by (simp add: gwf_def distinct_map)
  moreover have "us_Id s = k \<and> sub_ok s" if "map_of (db_subs example_crowd) k = Some s" for k s
    using map_of_SomeD [OF that] by (auto simp: example_crowd_def example_row_def sub_ok_def)
  ultimately show ?thesis by (simp add: subs_ok_def)
qed

lemma example_crowd_stuck:
  assumes "20 \<le> now"
  shows "stuck 0 now example_crowd"
proof -
  have pending: "reset_pending now (example_row k)" for k using assms by (simp add: reset_pending_def example_row_def)
  have never: "NormalizeResetPeriod (pl_QuotaResetPeriod example_vip) = ''never''" by code_simp
  have "overtaken 0 now example_crowd (example_row k)" for k
    unfolding overtaken_def
    by (rule exI [of _ example_vip])
      (simp add: first_boundary_def calcNextResetTime_def never example_row_def example_crowd_def example_shop_def)
  then show ?thesis
    unfolding stuck_def example_crowd_rows by (simp add: pending filter_map comp_def subscriptionResetBatchSize_def)
qed

definition example_task :: maintenance where
  "example_task = \<lparr>mt_Running = False, mt_CleanupLast = 0, mt_Shop = example_shop\<lparr>sh_db := example_crowd\<rparr>\<rparr>"

lemma example_nothing_due: "expire_loop (\<lambda>us. us) (\<lambda>i. 100) 0 (mt_Shop example_task) = Some (True, 0, mt_Shop example_task)"
proof -
  have "filter (due 100) (rows (mt_Shop example_task)) = []"
    unfolding example_task_def by (simp add: example_crowd_rows, simp add: due_def example_row_def)
  moreover have "sound (mt_Shop example_task)" by (simp add: sound_def example_task_def example_crowd_def example_shop_def)
  ultimately have "ExpireDueSubscriptions (\<lambda>us. us) 100 subscriptionResetBatchSize (mt_Shop example_task) = (Inr 0, mt_Shop example_task)"
    by (simp add: ExpireDueSubscriptions_def SliceStable_def)
  then show ?thesis by (subst expire_loop.simps) simp
qed

theorem reset_maintenance_spins_witness:
  "runSubscriptionQuotaResetOnce (\<lambda>us. us) 0 (\<lambda>i. 100) (\<lambda>_. 0) 100 example_task = None"
proof (rule reset_maintenance_spins [OF _ example_nothing_due])
  show "\<not> mt_Running example_task" by (simp add: example_task_def)
  have db: "sh_db (mt_Shop example_task) = example_crowd" by (simp add: example_task_def)
  show "db_faults (sh_db (mt_Shop example_task)) = []" unfolding db by (simp add: example_crowd_def example_shop_def)
  show "subs_ok (sh_db (mt_Shop example_task))" "\<forall>j. stuck 0 100 (sh_db (mt_Shop example_task))"
    unfolding db by (simp_all add: example_crowd_ok example_crowd_stuck)
qed

end
