(* ===== verification/Billing_Session.thy ===== *)
theory Billing_Session
  imports Billing_Store
begin

text \<open>
  The billing of one request (\<^verbatim>\<open>service/funding_source.go\<close>, \<^verbatim>\<open>service/billing_session.go\<close>): the three
  funding sources behind the Go interface \<^verbatim>\<open>FundingSource\<close>, and the session that pre-consumes,
  reserves, settles and refunds through one of them.

  A method runs on a pair of the object it mutates and the database, and returns its result with
  the pair after it, also on an error. The background goroutine that \<^verbatim>\<open>Refund\<close> starts is the second
  half of \<open>session_Refund\<close>. Values read through a cache (the user's quota, the token's remaining
  quota) are arguments. The amounts of one request are non-negative 64-bit integers, and the sums
  and differences a session forms of them stay within the actual quota, so they are plain integers.
  The title and id of the plan, copied for the log, are not modelled.
\<close>

definition on_db :: "(billing_db \<Rightarrow> 'a billing) \<Rightarrow> 'f \<times> billing_db \<Rightarrow> (billing_error + 'a) \<times> 'f \<times> billing_db" where
  "on_db f s = (case f (snd s) of (r, db) \<Rightarrow> (r, (fst s, db)))"

section \<open>Funding sources\<close>

definition BillingSourceWallet :: string where "BillingSourceWallet = ''wallet''"
definition BillingSourceSubscription :: string where "BillingSourceSubscription = ''subscription''"
definition BillingSourceSubscriptionWallet :: string where
  "BillingSourceSubscriptionWallet = ''subscription_wallet''"

record wallet_funding =
  wf_userId :: int
  wf_consumed :: int

record subscription_funding =
  sf_requestId :: string
  sf_userId :: int
  sf_amount :: int
  sf_subscriptionId :: int
  sf_preConsumed :: int
  sf_AmountTotal :: int
  sf_AmountUsedAfter :: int

record split_funding =
  sp_subscription :: subscription_funding
  sp_wallet :: wallet_funding
  sp_subPostDelta :: int

type_synonym 'f funded = "'f \<times> billing_db \<Rightarrow> (billing_error + unit) \<times> 'f \<times> billing_db"

subsection \<open>Wallet\<close>

definition wallet_PreConsume :: "int \<Rightarrow> wallet_funding funded" where
  "wallet_PreConsume amount s =
     (if amount \<le> 0 then (Inr (), s)
      else bnd (on_db (\<lambda>db. DecreaseUserQuota db (wf_userId (fst s)) amount) s) (\<lambda>_ (w, db).
        (Inr (), (w\<lparr>wf_consumed := amount\<rparr>, db))))"

definition wallet_Settle :: "int \<Rightarrow> wallet_funding funded" where
  "wallet_Settle delta s =
     (if delta = 0 then (Inr (), s)
      else if delta > 0 then
        bnd (on_db (\<lambda>db. DecreaseUserQuota db (wf_userId (fst s)) delta) s) (\<lambda>_ (w, db).
          (Inr (), (w\<lparr>wf_consumed := wf_consumed w + delta\<rparr>, db)))
      else let refund = - delta in
        bnd (on_db (\<lambda>db. IncreaseUserQuota db (wf_userId (fst s)) refund) s) (\<lambda>_ (w, db).
          let consumed = wf_consumed w - refund
          in (Inr (), (w\<lparr>wf_consumed := (if consumed < 0 then 0 else consumed)\<rparr>, db))))"

definition wallet_Refund :: "wallet_funding funded" where
  "wallet_Refund s =
     (if wf_consumed (fst s) \<le> 0 then (Inr (), s)
      else on_db (\<lambda>db. IncreaseUserQuota db (wf_userId (fst s)) (wf_consumed (fst s))) s)"

subsection \<open>Subscription\<close>

definition filled :: "subscription_funding \<Rightarrow> preconsume_result \<Rightarrow> subscription_funding" where
  "filled f res =
     f\<lparr>sf_subscriptionId := pc_UserSubscriptionId res, sf_preConsumed := pc_PreConsumed res,
       sf_AmountTotal := pc_AmountTotal res, sf_AmountUsedAfter := pc_AmountUsedAfter res\<rparr>"

definition subscription_PreConsume :: "int \<Rightarrow> int \<Rightarrow> int \<Rightarrow> subscription_funding funded" where
  "subscription_PreConsume off now amount s =
     bnd (on_db (\<lambda>db. PreConsumeUserSubscription off now db (sf_requestId (fst s)) (sf_userId (fst s)) (sf_amount (fst s))) s)
       (\<lambda>res (f, db). (Inr (), (filled f res, db)))"

definition PreConsumePartial :: "int \<Rightarrow> int \<Rightarrow> subscription_funding funded" where
  "PreConsumePartial off now s =
     bnd (on_db (\<lambda>db. PreConsumeUserSubscriptionPartial off now db (sf_requestId (fst s)) (sf_userId (fst s)) (sf_amount (fst s))) s)
       (\<lambda>res (f, db). (Inr (), (filled f res, db)))"

definition subscription_Settle :: "int \<Rightarrow> subscription_funding funded" where
  "subscription_Settle delta s =
     (if delta = 0 then (Inr (), s)
      else on_db (\<lambda>db. PostConsumeUserSubscriptionDelta db (sf_subscriptionId (fst s)) delta) s)"

fun refundWithRetry :: "nat \<Rightarrow> (billing_db \<Rightarrow> unit billing) \<Rightarrow> billing_db \<Rightarrow> unit billing" where
  "refundWithRetry 0 fn db = (Inr (), db)"
| "refundWithRetry (Suc n) fn db =
     (case fn db of
        (Inr _, db) \<Rightarrow> (Inr (), db)
      | (Inl e, db) \<Rightarrow> if n = 0 then (Inl e, db) else refundWithRetry n fn db)"

definition subscription_Refund :: "subscription_funding funded" where
  "subscription_Refund s =
     (if sf_preConsumed (fst s) \<le> 0 then (Inr (), s)
      else on_db (refundWithRetry 3 (\<lambda>db. RefundSubscriptionPreConsume db (sf_requestId (fst s)))) s)"

subsection \<open>Subscription first, wallet for the rest\<close>

definition on_subscription ::
  "(subscription_funding \<times> billing_db \<Rightarrow> 'r \<times> subscription_funding \<times> billing_db)
   \<Rightarrow> split_funding \<times> billing_db \<Rightarrow> 'r \<times> split_funding \<times> billing_db" where
  "on_subscription f s =
     (case f (sp_subscription (fst s), snd s) of (r, sub, db) \<Rightarrow> (r, ((fst s)\<lparr>sp_subscription := sub\<rparr>, db)))"

definition on_wallet ::
  "(wallet_funding \<times> billing_db \<Rightarrow> 'r \<times> wallet_funding \<times> billing_db)
   \<Rightarrow> split_funding \<times> billing_db \<Rightarrow> 'r \<times> split_funding \<times> billing_db" where
  "on_wallet f s =
     (case f (sp_wallet (fst s), snd s) of (r, w, db) \<Rightarrow> (r, ((fst s)\<lparr>sp_wallet := w\<rparr>, db)))"

text \<open>
  The wallet's part of \<^verbatim>\<open>PreConsume\<close>, with the refund of the subscription's part when it fails;
  \<open>read\<close> is the user's quota as \<^verbatim>\<open>GetUserQuota\<close> returns it.
\<close>

definition abort_split :: "billing_error \<Rightarrow> split_funding funded" where
  "abort_split e s = (Inl e, snd (on_subscription subscription_Refund s))"

definition cover_rest :: "billing_error + int \<Rightarrow> split_funding funded" where
  "cover_rest read s =
     (let remaining = sf_amount (sp_subscription (fst s)) - sf_preConsumed (sp_subscription (fst s)) in
      if remaining \<le> 0 then (Inr (), s)
      else case read of
        Inl e \<Rightarrow> abort_split e s
      | Inr userQuota \<Rightarrow>
          if userQuota < remaining then abort_split WalletInsufficient s
          else case on_wallet (wallet_PreConsume remaining) s of
                 (Inl e, s) \<Rightarrow> abort_split e s
               | (Inr _, s) \<Rightarrow> (Inr (), s))"

definition split_PreConsume :: "int \<Rightarrow> int \<Rightarrow> billing_error + int \<Rightarrow> int \<Rightarrow> split_funding funded" where
  "split_PreConsume off now read amount s =
     bnd (on_subscription (PreConsumePartial off now) s) (\<lambda>_. cover_rest read)"

definition refund_rest :: "int \<Rightarrow> split_funding funded" where
  "refund_rest refund s =
     (if refund > 0 \<and> sf_subscriptionId (sp_subscription (fst s)) > 0 then
        bnd (on_db (\<lambda>db. PostConsumeUserSubscriptionDelta db (sf_subscriptionId (sp_subscription (fst s))) (- refund)) s)
          (\<lambda>_ (f, db). (Inr (), (f\<lparr>sp_subPostDelta := sp_subPostDelta f - refund\<rparr>, db)))
      else (Inr (), s))"

definition split_refund :: "int \<Rightarrow> split_funding funded" where
  "split_refund refund s =
     (let consumed = wf_consumed (sp_wallet (fst s));
          walletRefund = (if consumed > 0 then if refund > consumed then consumed else refund else 0)
      in bnd (if walletRefund > 0
              then bnd (on_db (\<lambda>db. IncreaseUserQuota db (wf_userId (sp_wallet (fst s))) walletRefund) s) (\<lambda>_ (f, db).
                (Inr (), (f\<lparr>sp_wallet := (sp_wallet f)\<lparr>wf_consumed := wf_consumed (sp_wallet f) - walletRefund\<rparr>\<rparr>, db)))
              else (Inr (), s)) (\<lambda>_. refund_rest (refund - walletRefund)))"

text \<open>What the subscription did not cover is taken from the wallet, or the subscription's part is returned.\<close>

definition charge_rest :: "int \<Rightarrow> int \<Rightarrow> split_funding funded" where
  "charge_rest delta subConsumed s =
     (let remaining = delta - subConsumed in
      if remaining > 0 then
        (case on_db (\<lambda>db. DecreaseUserQuota db (wf_userId (sp_wallet (fst s))) remaining) s of
           (Inl e, s) \<Rightarrow>
             (if subConsumed > 0 \<and> sf_subscriptionId (sp_subscription (fst s)) > 0 then
                (case on_db (\<lambda>db. PostConsumeUserSubscriptionDelta db
                        (sf_subscriptionId (sp_subscription (fst s))) (- subConsumed)) s of
                   (_, (f, db)) \<Rightarrow>
                     (let post = sp_subPostDelta f - subConsumed
                      in (Inl e, (f\<lparr>sp_subPostDelta := (if post < 0 then 0 else post)\<rparr>, db))))
              else (Inl e, s))
         | (Inr _, (f, db)) \<Rightarrow>
             (Inr (), (f\<lparr>sp_wallet := (sp_wallet f)\<lparr>wf_consumed := wf_consumed (sp_wallet f) + remaining\<rparr>\<rparr>, db)))
      else (Inr (), s))"

definition split_charge :: "int \<Rightarrow> split_funding funded" where
  "split_charge delta s =
     bnd (if sf_subscriptionId (sp_subscription (fst s)) > 0
          then bnd (on_db (\<lambda>db. PostConsumeUserSubscriptionDeltaAvailable db
                      (sf_subscriptionId (sp_subscription (fst s))) delta) s) (\<lambda>consumed (f, db).
            (Inr consumed, (f\<lparr>sp_subPostDelta := sp_subPostDelta f + consumed\<rparr>, db)))
          else (Inr 0, s)) (\<lambda>subConsumed. charge_rest delta subConsumed)"

definition split_Settle :: "int \<Rightarrow> split_funding funded" where
  "split_Settle delta s =
     (if delta = 0 then (Inr (), s) else if delta < 0 then split_refund (- delta) s else split_charge delta s)"

definition first_error :: "billing_error + unit \<Rightarrow> billing_error + unit \<Rightarrow> billing_error + unit" where
  "first_error a b = (case a of Inl e \<Rightarrow> Inl e | Inr _ \<Rightarrow> b)"

definition split_Refund :: "split_funding funded" where
  "split_Refund s =
     (case on_subscription subscription_Refund s of (firstErr, s) \<Rightarrow>
      case (if sp_subPostDelta (fst s) > 0 \<and> sf_subscriptionId (sp_subscription (fst s)) > 0
            then on_db (\<lambda>db. PostConsumeUserSubscriptionDelta db (sf_subscriptionId (sp_subscription (fst s)))
                   (- sp_subPostDelta (fst s))) s
            else (Inr (), s)) of (err, s) \<Rightarrow>
      case on_wallet wallet_Refund s of (err', s) \<Rightarrow>
        (first_error (first_error firstErr err) err', s))"

subsection \<open>The interface\<close>

datatype funding_source =
    WalletFunding wallet_funding
  | SubscriptionFunding subscription_funding
  | SplitFunding split_funding

definition lift_funding :: "('f \<Rightarrow> funding_source) \<Rightarrow> 'f funded \<Rightarrow> 'f \<Rightarrow> billing_db
    \<Rightarrow> (billing_error + unit) \<times> funding_source \<times> billing_db" where
  "lift_funding wrap m f db = (case m (f, db) of (r, f, db) \<Rightarrow> (r, wrap f, db))"

definition Source :: "funding_source \<Rightarrow> string" where
  "Source f = (case f of WalletFunding _ \<Rightarrow> BillingSourceWallet
     | SubscriptionFunding _ \<Rightarrow> BillingSourceSubscription
     | SplitFunding _ \<Rightarrow> BillingSourceSubscriptionWallet)"

definition funding_PreConsume :: "int \<Rightarrow> int \<Rightarrow> billing_error + int \<Rightarrow> int \<Rightarrow> funding_source funded" where
  "funding_PreConsume off now read amount s =
     (case fst s of
        WalletFunding w \<Rightarrow> lift_funding WalletFunding (wallet_PreConsume amount) w (snd s)
      | SubscriptionFunding f \<Rightarrow> lift_funding SubscriptionFunding (subscription_PreConsume off now amount) f (snd s)
      | SplitFunding f \<Rightarrow> lift_funding SplitFunding (split_PreConsume off now read amount) f (snd s))"

definition funding_Settle :: "int \<Rightarrow> funding_source funded" where
  "funding_Settle delta s =
     (case fst s of
        WalletFunding w \<Rightarrow> lift_funding WalletFunding (wallet_Settle delta) w (snd s)
      | SubscriptionFunding f \<Rightarrow> lift_funding SubscriptionFunding (subscription_Settle delta) f (snd s)
      | SplitFunding f \<Rightarrow> lift_funding SplitFunding (split_Settle delta) f (snd s))"

definition funding_Refund :: "funding_source funded" where
  "funding_Refund s =
     (case fst s of
        WalletFunding w \<Rightarrow> lift_funding WalletFunding wallet_Refund w (snd s)
      | SubscriptionFunding f \<Rightarrow> lift_funding SubscriptionFunding subscription_Refund f (snd s)
      | SplitFunding f \<Rightarrow> lift_funding SplitFunding split_Refund f (snd s))"

section \<open>Sessions\<close>

record relay_info =
  ri_UserId :: int
  ri_TokenId :: int
  ri_IsPlayground :: bool
  ri_IsChannelTest :: bool
  ri_TokenUnlimited :: bool
  ri_ForcePreConsume :: bool
  ri_UserQuota :: int
  ri_RequestId :: string
  ri_BillingPreference :: string
  ri_FinalPreConsumedQuota :: int
  ri_BillingSource :: string
  ri_WalletConsumed :: int
  ri_SubscriptionId :: int
  ri_SubscriptionPreConsumed :: int
  ri_SubscriptionPostDelta :: int
  ri_SubscriptionAmountTotal :: int
  ri_SubscriptionAmountUsedAfterPreConsume :: int

record billing_session =
  bs_relayInfo :: relay_info
  bs_funding :: funding_source
  bs_preConsumedQuota :: int
  bs_tokenConsumed :: int
  bs_extraReserved :: int
  bs_trusted :: bool
  bs_fundingSettled :: bool
  bs_settled :: bool
  bs_refunded :: bool

datatype api_code = PreConsumeTokenQuotaFailed | InsufficientUserQuota | UpdateDataError | QueryDataError

type_synonym api_error = "api_code \<times> billing_error"

text \<open>
  What a session reads through the caches and the request context: the user's quota as
  \<^verbatim>\<open>NewBillingSession\<close> and as the split funding read it, the remaining quota of the token as each
  attempt reads it (by the source of the attempt), and \<^verbatim>\<open>token_quota\<close> of the context.
\<close>

record session_reads =
  rd_user :: "billing_error + int"
  rd_split :: "billing_error + int"
  rd_token :: "string \<Rightarrow> billing_error + int"
  rd_contextTokenQuota :: int

definition token_exempt :: "relay_info \<Rightarrow> bool" where
  "token_exempt info = (ri_IsPlayground info \<or> ri_IsChannelTest info)"

definition PreConsumeTokenQuota :: "billing_error + int \<Rightarrow> relay_info \<Rightarrow> billing_db \<Rightarrow> int \<Rightarrow> unit billing" where
  "PreConsumeTokenQuota read info db quota =
     (if quota < 0 then (Inl NegativeQuota, db)
      else if token_exempt info then (Inr (), db)
      else case read of
        Inl e \<Rightarrow> (Inl e, db)
      | Inr remain \<Rightarrow>
          if \<not> ri_TokenUnlimited info \<and> remain < quota then (Inl TokenInsufficient, db)
          else DecreaseTokenQuota db (ri_TokenId info) quota)"

definition on_funding ::
  "funding_source funded \<Rightarrow> billing_session \<times> billing_db \<Rightarrow> (billing_error + unit) \<times> billing_session \<times> billing_db" where
  "on_funding m s =
     (case m (bs_funding (fst s), snd s) of (r, f, db) \<Rightarrow> (r, ((fst s)\<lparr>bs_funding := f\<rparr>, db)))"

definition with_code :: "api_code \<Rightarrow> (billing_error + unit) \<times> 's \<Rightarrow> (api_error + unit) \<times> 's" where
  "with_code c x = (case x of (Inl e, s) \<Rightarrow> (Inl (c, e), s) | (Inr u, s) \<Rightarrow> (Inr u, s))"

definition syncRelayInfo :: "billing_session \<Rightarrow> billing_session" where
  "syncRelayInfo s =
     (let info = (bs_relayInfo s)\<lparr>ri_FinalPreConsumedQuota := bs_preConsumedQuota s,
                                 ri_BillingSource := Source (bs_funding s), ri_WalletConsumed := 0\<rparr>
      in s\<lparr>bs_relayInfo := (case bs_funding s of
           SubscriptionFunding sub \<Rightarrow>
             info\<lparr>ri_SubscriptionId := sf_subscriptionId sub,
                  ri_SubscriptionPreConsumed := sf_preConsumed sub + bs_extraReserved s,
                  ri_SubscriptionAmountTotal := sf_AmountTotal sub,
                  ri_SubscriptionAmountUsedAfterPreConsume := sf_AmountUsedAfter sub + bs_extraReserved s\<rparr>
         | SplitFunding split \<Rightarrow>
             let sub = sp_subscription split;
                 info = (if wf_consumed (sp_wallet split) > 0
                         then info\<lparr>ri_BillingSource := BillingSourceSubscriptionWallet,
                                   ri_WalletConsumed := wf_consumed (sp_wallet split)\<rparr>
                         else info\<lparr>ri_BillingSource := BillingSourceSubscription\<rparr>)
             in info\<lparr>ri_SubscriptionId := sf_subscriptionId sub,
                     ri_SubscriptionPreConsumed := sf_preConsumed sub,
                     ri_SubscriptionPostDelta := sp_subPostDelta split,
                     ri_SubscriptionAmountTotal := sf_AmountTotal sub,
                     ri_SubscriptionAmountUsedAfterPreConsume := sf_AmountUsedAfter sub\<rparr>
         | WalletFunding _ \<Rightarrow> info\<lparr>ri_SubscriptionId := 0, ri_SubscriptionPreConsumed := 0\<rparr>)\<rparr>)"

subsection \<open>Settle and refund\<close>

definition adjust_token :: "relay_info \<Rightarrow> int \<Rightarrow> billing_db \<Rightarrow> unit billing" where
  "adjust_token info delta db =
     (if token_exempt info then (Inr (), db)
      else if delta > 0 then DecreaseTokenQuota db (ri_TokenId info) delta
      else IncreaseTokenQuota db (ri_TokenId info) (- delta))"

definition session_Settle ::
  "int \<Rightarrow> billing_session \<times> billing_db \<Rightarrow> (billing_error + unit) \<times> billing_session \<times> billing_db" where
  "session_Settle actualQuota s =
     (let delta = actualQuota - bs_preConsumedQuota (fst s) in
      if bs_settled (fst s) then (Inr (), s)
      else if delta = 0 then (Inr (), ((fst s)\<lparr>bs_settled := True\<rparr>, snd s))
      else bnd (if bs_fundingSettled (fst s) then (Inr (), s)
                else bnd (on_funding (funding_Settle delta) s) (\<lambda>_ (b, db).
                  (Inr (), (b\<lparr>bs_fundingSettled := True\<rparr>, db)))) (\<lambda>_ (b, db).
           case adjust_token (bs_relayInfo b) delta db of (tokenErr, db) \<Rightarrow>
             let b = (if Source (bs_funding b) = BillingSourceSubscription
                      then b\<lparr>bs_relayInfo := (bs_relayInfo b)\<lparr>ri_SubscriptionPostDelta :=
                             ri_SubscriptionPostDelta (bs_relayInfo b) + delta\<rparr>\<rparr>
                      else b)
             in (tokenErr, ((syncRelayInfo b)\<lparr>bs_settled := True\<rparr>, db))))"

definition needsRefundLocked :: "billing_session \<Rightarrow> bool" where
  "needsRefundLocked b =
     (if bs_settled b \<or> bs_refunded b \<or> bs_fundingSettled b then False
      else if bs_tokenConsumed b > 0 then True
      else case bs_funding b of
        SubscriptionFunding sub \<Rightarrow> sf_preConsumed sub > 0
      | SplitFunding split \<Rightarrow> sf_preConsumed (sp_subscription split) > 0 \<or> wf_consumed (sp_wallet split) > 0
      | WalletFunding _ \<Rightarrow> False)"

definition NeedsRefund :: "billing_session \<Rightarrow> bool" where
  "NeedsRefund b = needsRefundLocked b"

definition GetPreConsumedQuota :: "billing_session \<Rightarrow> int" where
  "GetPreConsumedQuota b = bs_preConsumedQuota b"

definition refund_reserved :: "billing_session \<Rightarrow> billing_db \<Rightarrow> billing_db" where
  "refund_reserved b db =
     (let subscriptionId = ri_SubscriptionId (bs_relayInfo b) in
      if bs_extraReserved b > 0 \<and> Source (bs_funding b) = BillingSourceSubscription \<and> subscriptionId > 0
      then snd (PostConsumeUserSubscriptionDelta db subscriptionId (- bs_extraReserved b)) else db)"

definition refund_token :: "billing_session \<Rightarrow> billing_db \<Rightarrow> billing_db" where
  "refund_token b db =
     (if bs_tokenConsumed b > 0 \<and> \<not> token_exempt (bs_relayInfo b)
      then snd (IncreaseTokenQuota db (ri_TokenId (bs_relayInfo b)) (bs_tokenConsumed b)) else db)"

definition session_Refund :: "billing_session \<times> billing_db \<Rightarrow> billing_session \<times> billing_db" where
  "session_Refund s =
     (if bs_settled (fst s) \<or> bs_refunded (fst s) \<or> \<not> needsRefundLocked (fst s) then s
      else let b = (fst s)\<lparr>bs_refunded := True\<rparr> in
      case on_funding funding_Refund (b, snd s) of (_, b', db) \<Rightarrow>
        (b', refund_token b (refund_reserved b db)))"

subsection \<open>Reserving more before the request is sent\<close>

type_synonym session_method = "billing_session \<times> billing_db \<Rightarrow> (api_error + unit) \<times> billing_session \<times> billing_db"

definition wallet_reserve :: "int \<Rightarrow> wallet_funding funded" where
  "wallet_reserve delta s =
     bnd (on_db (\<lambda>db. DecreaseUserQuota db (wf_userId (fst s)) delta) s) (\<lambda>_ (w, db).
       (Inr (), (w\<lparr>wf_consumed := wf_consumed w + delta\<rparr>, db)))"

definition wallet_unreserve :: "int \<Rightarrow> wallet_funding funded" where
  "wallet_unreserve delta s =
     bnd (on_db (\<lambda>db. IncreaseUserQuota db (wf_userId (fst s)) delta) s) (\<lambda>_ (w, db).
       (Inr (), (w\<lparr>wf_consumed := wf_consumed w - delta\<rparr>, db)))"

definition reserveFunding :: "int \<Rightarrow> session_method" where
  "reserveFunding delta s =
     (case bs_funding (fst s) of
        WalletFunding w \<Rightarrow> with_code UpdateDataError
          (on_funding (\<lambda>(_, db). lift_funding WalletFunding (wallet_reserve delta) w db) s)
      | SubscriptionFunding f \<Rightarrow> with_code InsufficientUserQuota
          (on_db (\<lambda>db. PostConsumeUserSubscriptionDelta db (sf_subscriptionId f) delta) s)
      | SplitFunding f \<Rightarrow> with_code UpdateDataError (on_funding (funding_Settle delta) s))"

definition rollbackFundingReserve :: "int \<Rightarrow> billing_session \<times> billing_db \<Rightarrow> billing_session \<times> billing_db" where
  "rollbackFundingReserve delta s =
     snd (case bs_funding (fst s) of
        WalletFunding w \<Rightarrow> on_funding (\<lambda>(_, db). lift_funding WalletFunding (wallet_unreserve delta) w db) s
      | SubscriptionFunding f \<Rightarrow> on_db (\<lambda>db. PostConsumeUserSubscriptionDelta db (sf_subscriptionId f) (- delta)) s
      | SplitFunding f \<Rightarrow> on_funding (funding_Settle (- delta)) s)"

definition reserveToken :: "billing_error + int \<Rightarrow> int \<Rightarrow> session_method" where
  "reserveToken read delta s =
     (if delta \<le> 0 \<or> token_exempt (bs_relayInfo (fst s)) then (Inr (), s)
      else with_code PreConsumeTokenQuotaFailed
        (on_db (\<lambda>db. PreConsumeTokenQuota read (bs_relayInfo (fst s)) db delta) s))"

definition reserve_rest :: "billing_error + int \<Rightarrow> int \<Rightarrow> session_method" where
  "reserve_rest read delta s =
     (case reserveToken read delta s of
        (Inl e, s) \<Rightarrow> (Inl e, rollbackFundingReserve delta s)
      | (Inr _, (b, db)) \<Rightarrow>
          (let b = b\<lparr>bs_preConsumedQuota := bs_preConsumedQuota b + delta,
                     bs_tokenConsumed := (if token_exempt (bs_relayInfo b) then bs_tokenConsumed b
                                          else bs_tokenConsumed b + delta),
                     bs_extraReserved := bs_extraReserved b + delta\<rparr>
           in (Inr (), (syncRelayInfo b, db))))"

definition Reserve :: "billing_error + int \<Rightarrow> int \<Rightarrow> session_method" where
  "Reserve read targetQuota s =
     (let delta = targetQuota - bs_preConsumedQuota (fst s) in
      if bs_settled (fst s) \<or> bs_refunded (fst s) \<or> bs_trusted (fst s) \<or> targetQuota \<le> bs_preConsumedQuota (fst s)
      then (Inr (), s)
      else if delta \<le> 0 then (Inr (), s)
      else bnd (reserveFunding delta s) (\<lambda>_. reserve_rest read delta))"

subsection \<open>Pre-consume\<close>

text \<open>\<open>trustQuota\<close> is \<^verbatim>\<open>GetTrustQuota\<close>, ten times the configured quota per unit.\<close>

definition shouldTrust :: "int \<Rightarrow> session_reads \<Rightarrow> billing_session \<Rightarrow> bool" where
  "shouldTrust trustQuota rd b =
     (if ri_ForcePreConsume (bs_relayInfo b) then False
      else if trustQuota \<le> 0 then False
      else if \<not> (ri_TokenUnlimited (bs_relayInfo b) \<or> rd_contextTokenQuota rd > trustQuota) then False
      else if Source (bs_funding b) = BillingSourceWallet then ri_UserQuota (bs_relayInfo b) > trustQuota
      else False)"

definition insufficient_error :: "billing_error \<Rightarrow> bool" where
  "insufficient_error e = (e = NoActiveSubscription \<or> e = SubscriptionInsufficient \<or> e = WalletInsufficient)"

text \<open>The two steps of \<^verbatim>\<open>preConsume\<close>: the token's quota, then the funding source, with the roll-back of the first.\<close>

definition consume_token :: "session_reads \<Rightarrow> int \<Rightarrow> session_method" where
  "consume_token rd quota s =
     (if quota > 0 then
        bnd (with_code PreConsumeTokenQuotaFailed (on_db (\<lambda>db. PreConsumeTokenQuota
              (rd_token rd (Source (bs_funding (fst s)))) (bs_relayInfo (fst s)) db quota) s)) (\<lambda>_ (b, db).
          (Inr (), (if token_exempt (bs_relayInfo b) then b else b\<lparr>bs_tokenConsumed := quota\<rparr>, db)))
      else (Inr (), s))"

definition rollback_token :: "billing_session \<times> billing_db \<Rightarrow> billing_session \<times> billing_db" where
  "rollback_token s =
     (case s of (b, db) \<Rightarrow>
      if bs_tokenConsumed b > 0 \<and> \<not> token_exempt (bs_relayInfo b)
      then (b\<lparr>bs_tokenConsumed := 0\<rparr>, snd (IncreaseTokenQuota db (ri_TokenId (bs_relayInfo b)) (bs_tokenConsumed b)))
      else s)"

definition consume_funding :: "int \<Rightarrow> int \<Rightarrow> session_reads \<Rightarrow> int \<Rightarrow> session_method" where
  "consume_funding off now rd quota s =
     (case on_funding (funding_PreConsume off now (rd_split rd) quota) s of
        (Inl e, s) \<Rightarrow>
          (Inl (if insufficient_error e then InsufficientUserQuota else UpdateDataError, e), rollback_token s)
      | (Inr _, s) \<Rightarrow> (Inr (), s))"

definition preConsume :: "int \<Rightarrow> int \<Rightarrow> int \<Rightarrow> session_reads \<Rightarrow> int \<Rightarrow> session_method" where
  "preConsume off now trustQuota rd quota s =
     (let trust = shouldTrust trustQuota rd (fst s);
          effectiveQuota = (if trust then 0 else quota);
          s = (if trust then ((fst s)\<lparr>bs_trusted := True\<rparr>, snd s) else s)
      in bnd (bnd (consume_token rd effectiveQuota s) (\<lambda>_. consume_funding off now rd effectiveQuota)) (\<lambda>_ (b, db).
           (Inr (), (syncRelayInfo (b\<lparr>bs_preConsumedQuota := effectiveQuota\<rparr>), db))))"

definition new_session :: "relay_info \<Rightarrow> funding_source \<Rightarrow> billing_session" where
  "new_session info f =
     \<lparr>bs_relayInfo = info, bs_funding = f, bs_preConsumedQuota = 0, bs_tokenConsumed = 0, bs_extraReserved = 0,
      bs_trusted = False, bs_fundingSettled = False, bs_settled = False, bs_refunded = False\<rparr>"

definition new_subscription_funding :: "relay_info \<Rightarrow> int \<Rightarrow> subscription_funding" where
  "new_subscription_funding info amount =
     \<lparr>sf_requestId = ri_RequestId info, sf_userId = ri_UserId info, sf_amount = amount, sf_subscriptionId = 0,
      sf_preConsumed = 0, sf_AmountTotal = 0, sf_AmountUsedAfter = 0\<rparr>"

definition NormalizeBillingPreference :: "string \<Rightarrow> string" where
  "NormalizeBillingPreference pref =
     (if TrimSpace pref \<in> {''subscription_first'', ''wallet_first'', ''subscription_only'', ''wallet_only''}
      then TrimSpace pref else ''subscription_first'')"

text \<open>An attempt to open a session: the session or the error, and the shared relay info after it.\<close>

type_synonym session_attempt = "relay_info \<times> billing_db \<Rightarrow> (api_error + billing_session) \<times> relay_info \<times> billing_db"

definition open_session :: "(int \<Rightarrow> session_method) \<Rightarrow> funding_source \<Rightarrow> int \<Rightarrow> session_attempt" where
  "open_session consume f quota s =
     (case consume quota (new_session (fst s) f, snd s) of
        (Inl e, (b, db)) \<Rightarrow> (Inl e, (bs_relayInfo b, db))
      | (Inr _, (b, db)) \<Rightarrow> (Inr b, (bs_relayInfo b, db)))"

definition tryWallet :: "(int \<Rightarrow> session_method) \<Rightarrow> session_reads \<Rightarrow> int \<Rightarrow> session_attempt" where
  "tryWallet consume rd preConsumedQuota s =
     (case rd_user rd of
        Inl e \<Rightarrow> (Inl (QueryDataError, e), s)
      | Inr userQuota \<Rightarrow>
          if userQuota \<le> 0 then (Inl (InsufficientUserQuota, UserQuotaInsufficient), s)
          else if userQuota - preConsumedQuota < 0 then (Inl (InsufficientUserQuota, UserQuotaInsufficient), s)
          else open_session consume (WalletFunding \<lparr>wf_userId = ri_UserId (fst s), wf_consumed = 0\<rparr>) preConsumedQuota
                 ((fst s)\<lparr>ri_UserQuota := userQuota\<rparr>, snd s))"

definition trySubscription :: "(int \<Rightarrow> session_method) \<Rightarrow> int \<Rightarrow> session_attempt" where
  "trySubscription consume preConsumedQuota s =
     (let subConsume = (if preConsumedQuota \<le> 0 then 1 else preConsumedQuota)
      in open_session consume (SubscriptionFunding (new_subscription_funding (fst s) subConsume)) subConsume s)"

definition trySubscriptionFirst :: "(int \<Rightarrow> session_method) \<Rightarrow> int \<Rightarrow> session_attempt" where
  "trySubscriptionFirst consume preConsumedQuota s =
     (let subConsume = (if preConsumedQuota \<le> 0 then 1 else preConsumedQuota)
      in open_session consume (SplitFunding \<lparr>sp_subscription = new_subscription_funding (fst s) subConsume,
             sp_wallet = \<lparr>wf_userId = ri_UserId (fst s), wf_consumed = 0\<rparr>, sp_subPostDelta = 0\<rparr>) subConsume s)"

definition if_insufficient :: "(api_error + billing_session) \<times> relay_info \<times> billing_db \<Rightarrow> session_attempt
    \<Rightarrow> (api_error + billing_session) \<times> relay_info \<times> billing_db" where
  "if_insufficient x other =
     (case x of
        (Inl (code, e), s) \<Rightarrow> if code = InsufficientUserQuota then other s else (Inl (code, e), s)
      | (Inr b, s) \<Rightarrow> (Inr b, s))"

definition NewBillingSession :: "int \<Rightarrow> int \<Rightarrow> int \<Rightarrow> session_reads \<Rightarrow> int \<Rightarrow> session_attempt" where
  "NewBillingSession off now trustQuota rd preConsumedQuota s =
     (let pref = NormalizeBillingPreference (ri_BillingPreference (fst s));
          consume = preConsume off now trustQuota rd
      in if pref = ''subscription_only'' then trySubscription consume preConsumedQuota s
         else if pref = ''wallet_only'' then tryWallet consume rd preConsumedQuota s
         else if pref = ''wallet_first'' then
           if_insufficient (tryWallet consume rd preConsumedQuota s) (trySubscription consume preConsumedQuota)
         else
           (case HasActiveUserSubscription now (snd s) (ri_UserId (fst s)) of
              (Inl e, db) \<Rightarrow> (Inl (QueryDataError, e), (fst s, db))
            | (Inr False, db) \<Rightarrow> tryWallet consume rd preConsumedQuota (fst s, db)
            | (Inr True, db) \<Rightarrow>
                if_insufficient (trySubscriptionFirst consume preConsumedQuota (fst s, db))
                  (tryWallet consume rd preConsumedQuota)))"

end
