(* ===== verification/Session_Contracts.thy ===== *)
theory Session_Contracts
  imports Billing_Session Billing_Properties
begin

text \<open>
  The contract of the Go interface \<^verbatim>\<open>FundingSource\<close> as two locales, settling and taking back, and their interpretations: the wallet,
  the subscription, the split of both, and the dispatch over the three that a session calls.

  \<open>charge f db\<close> is what the sources behind \<open>f\<close> have been charged, up to a constant; \<open>held f\<close> is
  what a refund of \<open>f\<close> gives back; \<open>ready\<close> says that the rows behind \<open>f\<close> exist; \<open>fits f db d\<close> that
  the amounts used stay non-negative 64-bit numbers when \<open>d\<close> is charged; \<open>backed\<close> that the books still contain what \<open>f\<close> holds (no
  reset or other refund in between).
\<close>

section \<open>The contract\<close>

text \<open>The part of the books that a funding source never touches.\<close>

definition token_frame :: "billing_db \<Rightarrow> billing_db \<Rightarrow> bool" where
  "token_frame db db' \<longleftrightarrow> token_funds db' = token_funds db \<and> has_token db' = has_token db"

lemma token_frame_refl [simp]: "token_frame db db"
  by (simp add: token_frame_def)

lemma token_frame_trans: "token_frame a b \<Longrightarrow> token_frame b c \<Longrightarrow> token_frame a c"
  by (simp add: token_frame_def)

lemma token_frame_intros:
  "unchanged db db' \<Longrightarrow> token_frame db db'" "user_moved db u n db' \<Longrightarrow> token_frame db db'"
  "subs_only db db' \<Longrightarrow> token_frame db db'" "used_set db k n db' \<Longrightarrow> token_frame db db'"
  by (auto simp: token_frame_def user_moved_def unchanged_same users_only_same subs_only_same
      dest: used_set_used(6))

locale settling_contract =
  fixes settle :: "int \<Rightarrow> 'f \<times> billing_db \<Rightarrow> (billing_error + unit) \<times> 'f \<times> billing_db"
    and ready :: "'f \<Rightarrow> billing_db \<Rightarrow> bool"
    and charge :: "'f \<Rightarrow> billing_db \<Rightarrow> int"
    and fits :: "'f \<Rightarrow> billing_db \<Rightarrow> int \<Rightarrow> bool"
  assumes settle_law: "ready f db \<Longrightarrow> fits f db d \<Longrightarrow>
      outcome (settle d (f, db)) (\<lambda>_ (f', db'). ready f' db' \<and> charge f' db' = charge f db + d \<and> token_frame db db')
        (\<lambda>_. True)"
begin

text \<open>Reserving more and then settling charges the sum, and a settlement back to nothing is free.\<close>

lemma settle_twice:
  assumes "ready f db" and "fits f db d" and "settle d (f, db) = (Inr (), (f1, db1))"
    and "fits f1 db1 e" and "settle e (f1, db1) = (Inr (), (f2, db2))"
  shows "charge f2 db2 = charge f db + d + e \<and> token_frame db db2"
proof -
  have one: "ready f1 db1" "charge f1 db1 = charge f db + d" "token_frame db db1"
    using outcomeD [OF settle_law [OF assms(1,2)] assms(3)] by simp_all
  have "charge f2 db2 = charge f1 db1 + e" "token_frame db1 db2"
    using outcomeD [OF settle_law [OF one(1) assms(4)] assms(5)] by simp_all
  with one show ?thesis using token_frame_trans by simp
qed

lemma settle_exact:
  assumes "ready f db" and "fits f db d" and "settle d (f, db) = (Inr (), (f', db'))"
  shows "ready f' db' \<and> charge f' db' = charge f db + d \<and> token_frame db db'"
  using outcomeD [OF settle_law [OF assms(1,2)] assms(3)] by simp

end

text \<open>A funding source can also take back everything it holds.\<close>

locale funding_contract = settling_contract settle ready charge fits
  for settle :: "int \<Rightarrow> 'f \<times> billing_db \<Rightarrow> (billing_error + unit) \<times> 'f \<times> billing_db" and ready charge fits +
  fixes refund :: "'f \<times> billing_db \<Rightarrow> (billing_error + unit) \<times> 'f \<times> billing_db"
    and held :: "'f \<Rightarrow> int"
    and backed :: "'f \<Rightarrow> billing_db \<Rightarrow> bool"
  assumes refund_law: "ready f db \<Longrightarrow> backed f db \<Longrightarrow> db_faults db = [] \<Longrightarrow>
      \<exists>db'. refund (f, db) = (Inr (), (f, db')) \<and> charge f db' = charge f db - held f \<and> token_frame db db'
        \<and> db_faults db' = []"

section \<open>Wallet\<close>

definition wallet_ready :: "wallet_funding \<Rightarrow> billing_db \<Rightarrow> bool" where
  "wallet_ready w db \<longleftrightarrow> has_user db (wf_userId w) \<and> 0 \<le> wf_consumed w"

definition wallet_charge :: "wallet_funding \<Rightarrow> billing_db \<Rightarrow> int" where
  "wallet_charge w db = - user_funds db (wf_userId w)"

lemma outcome_on_db:
  "outcome (on_db f s) Q E \<longleftrightarrow> outcome (f (snd s)) (\<lambda>a db. Q a (fst s, db)) (\<lambda>db. E (fst s, db))"
  by (auto simp: on_db_def outcome_def split: prod.split sum.split)

lemma user_movedD:
  "user_moved db u n db' \<Longrightarrow> has_user db u \<Longrightarrow> user_funds db' u = user_funds db u + n"
  "user_moved db u n db' \<Longrightarrow> has_user db' = has_user db"
  by (auto simp: user_moved_def users_only_same)

lemma no_fault_updates:
  "db_faults db = [] \<Longrightarrow> 0 \<le> n \<Longrightarrow> \<exists>db'. IncreaseUserQuota db u n = (Inr (), db') \<and> db_faults db' = []"
  "db_faults db = [] \<Longrightarrow> 0 \<le> n \<Longrightarrow> \<exists>db'. DecreaseUserQuota db u n = (Inr (), db') \<and> db_faults db' = []"
  "db_faults db = [] \<Longrightarrow> 0 \<le> n \<Longrightarrow> \<exists>db'. IncreaseTokenQuota db u n = (Inr (), db') \<and> db_faults db' = []"
  "db_faults db = [] \<Longrightarrow> 0 \<le> n \<Longrightarrow> \<exists>db'. DecreaseTokenQuota db u n = (Inr (), db') \<and> db_faults db' = []"
  by (auto simp: IncreaseUserQuota_def DecreaseUserQuota_def increaseUserQuota_def decreaseUserQuota_def
      IncreaseTokenQuota_def DecreaseTokenQuota_def increaseTokenQuota_def decreaseTokenQuota_def db_query_def
      add_user_quota_funds add_token_quota_funds)

interpretation wallet: funding_contract wallet_Settle wallet_ready wallet_charge "\<lambda>_ _ _. True"
  wallet_Refund wf_consumed "\<lambda>_ _. True"
proof unfold_locales
  fix w db d
  assume ready: "wallet_ready w db"
  show "outcome (wallet_Settle d (w, db)) (\<lambda>_ (w', db'). wallet_ready w' db' \<and> wallet_charge w' db' = wallet_charge w db + d
      \<and> token_frame db db') (\<lambda>_. True)"
    using ready
    by (auto simp: wallet_Settle_def outcome_on_db wallet_ready_def wallet_charge_def Let_def user_movedD
        intro!: outcome_mono [OF quota_specs(1)] outcome_mono [OF quota_specs(2)] intro: token_frame_intros)
  assume faults: "db_faults db = []"
  show "\<exists>db'. wallet_Refund (w, db) = (Inr (), (w, db')) \<and> wallet_charge w db' = wallet_charge w db - wf_consumed w
      \<and> token_frame db db' \<and> db_faults db' = []"
  proof (cases "wf_consumed w \<le> 0")
    case True
    then show ?thesis using ready faults by (simp add: wallet_Refund_def wallet_ready_def)
  next
    case False
    then obtain db' where db': "IncreaseUserQuota db (wf_userId w) (wf_consumed w) = (Inr (), db')" "db_faults db' = []"
      using no_fault_updates(1) [OF faults, of "wf_consumed w" "wf_userId w"] by auto
    then have "user_moved db (wf_userId w) (wf_consumed w) db'" using outcomeD [OF quota_specs(1)] by blast
    with False ready db' show ?thesis
      by (auto simp: wallet_Refund_def on_db_def wallet_charge_def wallet_ready_def user_movedD intro: token_frame_intros)
  qed
qed

section \<open>Subscription\<close>

definition sub_ready :: "subscription_funding \<Rightarrow> billing_db \<Rightarrow> bool" where
  "sub_ready f db \<longleftrightarrow> subs_ok db \<and> 0 < sf_subscriptionId f \<and> 0 \<le> sf_preConsumed f"

definition sub_charge :: "subscription_funding \<Rightarrow> billing_db \<Rightarrow> int" where
  "sub_charge f db = sub_used db (sf_subscriptionId f)"

definition sub_fits :: "subscription_funding \<Rightarrow> billing_db \<Rightarrow> int \<Rightarrow> bool" where
  "sub_fits f db d \<longleftrightarrow> d = 0 \<or> 0 \<le> sub_charge f db + d \<and> sub_charge f db + d < 2 ^ 63"

definition sub_backed :: "subscription_funding \<Rightarrow> billing_db \<Rightarrow> bool" where
  "sub_backed f db \<longleftrightarrow> 0 < sf_preConsumed f \<longrightarrow>
     refundable db (sf_requestId f) (sf_subscriptionId f) (sf_preConsumed f)"

lemma i64_nonneg: "0 \<le> n \<Longrightarrow> n < 2 ^ 63 \<Longrightarrow> max 0 (i64 n) = n"
  by (subst i64_id) (simp_all add: in_i64_def)

lemma post_consume_exact:
  assumes "subs_ok db" and "0 \<le> sub_used db k + d" and "sub_used db k + d < 2 ^ 63"
  shows "outcome (PostConsumeUserSubscriptionDelta db k d)
    (\<lambda>_ db'. subs_ok db' \<and> sub_used db' = (sub_used db)(k := sub_used db k + d) \<and> subs_only db db') (unchanged db)"
  by (rule outcome_mono [OF PostConsumeUserSubscriptionDelta_spec [OF assms(1)]])
    (use assms in \<open>auto simp: i64_nonneg unchanged_subs_only dest: used_set_used\<close>)

lemma subscription_Refund_run:
  assumes "db_faults db = []" and "sub_backed f db" and "0 \<le> sf_preConsumed f"
  shows "\<exists>db'. subscription_Refund (f, db) = (Inr (), (f, db')) \<and> subs_only db db' \<and> db_faults db' = []
    \<and> sub_used db' = (sub_used db)(sf_subscriptionId f := sub_used db (sf_subscriptionId f) - sf_preConsumed f)
    \<and> (\<forall>k s. map_of (db_subs db) k = Some s \<longrightarrow> map_of (db_subs db') k =
          Some (if k = sf_subscriptionId f then s\<lparr>us_AmountUsed := us_AmountUsed s - sf_preConsumed f\<rparr> else s))"
proof (cases "0 < sf_preConsumed f")
  case True
  with assms(2) have "refundable db (sf_requestId f) (sf_subscriptionId f) (sf_preConsumed f)" by (simp add: sub_backed_def)
  from RefundSubscriptionPreConsume_run [OF assms(1) this]
  obtain db' s where r: "RefundSubscriptionPreConsume db (sf_requestId f) = (Inr (), db')" "db_faults db' = []" "subs_only db db'"
    "map_of (db_subs db) (sf_subscriptionId f) = Some s"
    "db_subs db' = gput (sf_subscriptionId f) (s\<lparr>us_AmountUsed := us_AmountUsed s - sf_preConsumed f\<rparr>) (db_subs db)"
    by auto
  have "subscription_Refund (f, db) = (Inr (), (f, db'))"
    using True r(1) by (simp add: subscription_Refund_def on_db_def numeral_3_eq_3)
  moreover have "sub_used db' = (sub_used db)(sf_subscriptionId f := sub_used db (sf_subscriptionId f) - sf_preConsumed f)"
    using r(4) by (auto simp: r(5) sub_used_def go_map_simps fun_eq_iff)
  ultimately show ?thesis using r by (auto simp: go_map_simps)
next
  case False
  then show ?thesis using assms by (auto simp: subscription_Refund_def unchanged_subs_only)
qed

interpretation subscription: funding_contract subscription_Settle sub_ready sub_charge sub_fits
  subscription_Refund sf_preConsumed sub_backed
proof unfold_locales
  fix f db d
  assume ready: "sub_ready f db"
  show "outcome (subscription_Settle d (f, db)) (\<lambda>_ (f', db'). sub_ready f' db' \<and> sub_charge f' db' = sub_charge f db + d
      \<and> token_frame db db') (\<lambda>_. True)" if "sub_fits f db d"
    using ready that
    by (auto simp: subscription_Settle_def outcome_on_db sub_ready_def sub_charge_def sub_fits_def
        intro!: outcome_mono [OF post_consume_exact] intro: token_frame_intros)
  assume "sub_backed f db" "db_faults db = []"
  with ready show "\<exists>db'. subscription_Refund (f, db) = (Inr (), (f, db')) \<and> sub_charge f db' = sub_charge f db - sf_preConsumed f
      \<and> token_frame db db' \<and> db_faults db' = []"
    using subscription_Refund_run [of db f] by (auto simp: sub_ready_def sub_charge_def intro: token_frame_intros)
qed

section \<open>Split\<close>

definition split_ready :: "split_funding \<Rightarrow> billing_db \<Rightarrow> bool" where
  "split_ready f db \<longleftrightarrow> sub_ready (sp_subscription f) db \<and> wallet_ready (sp_wallet f) db"

definition split_charge_of :: "split_funding \<Rightarrow> billing_db \<Rightarrow> int" where
  "split_charge_of f db = sub_charge (sp_subscription f) db + wallet_charge (sp_wallet f) db"

definition split_held :: "split_funding \<Rightarrow> int" where
  "split_held f = sf_preConsumed (sp_subscription f) + max 0 (sp_subPostDelta f) + wf_consumed (sp_wallet f)"

text \<open>Everything that a charge added, held for a later refund as long as nothing was given back.\<close>

definition split_holds :: "split_funding \<Rightarrow> int" where
  "split_holds f = sf_preConsumed (sp_subscription f) + sp_subPostDelta f + wf_consumed (sp_wallet f)"

text \<open>A reduction takes the wallet's part first, so only the rest has to fit the subscription.\<close>

definition split_fits :: "split_funding \<Rightarrow> billing_db \<Rightarrow> int \<Rightarrow> bool" where
  "split_fits f db d \<longleftrightarrow>
     (if d < 0 then sub_fits (sp_subscription f) db (min 0 (d + wf_consumed (sp_wallet f)))
      else 0 \<le> sub_charge (sp_subscription f) db
        \<and> (0 < sub_total db (sf_subscriptionId (sp_subscription f)) \<or> sub_charge (sp_subscription f) db + d < 2 ^ 63))"

definition split_backed :: "split_funding \<Rightarrow> billing_db \<Rightarrow> bool" where
  "split_backed f db \<longleftrightarrow> sub_backed (sp_subscription f) db \<and> (0 < sp_subPostDelta f \<longrightarrow>
     (\<exists>s. map_of (db_subs db) (sf_subscriptionId (sp_subscription f)) = Some s
        \<and> sf_preConsumed (sp_subscription f) + sp_subPostDelta f \<le> us_AmountUsed s \<and> us_AmountUsed s < 2 ^ 63))"

lemma sub_total_bound: "subs_ok db \<Longrightarrow> 0 < sub_total db k \<Longrightarrow> 0 \<le> sub_used db k \<and> sub_used db k \<le> sub_total db k \<and> sub_total db k < 2 ^ 63"
  by (auto simp: sub_total_def sub_used_def sub_ok_def dest!: subs_okD split: option.splits)

lemma available_exact:
  assumes ok: "subs_ok db" and nonneg: "0 \<le> sub_used db k" and fits: "0 < sub_total db k \<or> sub_used db k + d < 2 ^ 63" and "0 < d"
  shows "outcome (PostConsumeUserSubscriptionDeltaAvailable db k d)
    (\<lambda>n db'. 0 \<le> n \<and> n \<le> d \<and> subs_ok db' \<and> sub_used db' = (sub_used db)(k := sub_used db k + n) \<and> subs_only db db') (unchanged db)"
proof (rule outcome_mono [OF PostConsumeUserSubscriptionDeltaAvailable_spec [OF ok]])
  fix n db'
  assume "d \<le> 0 \<and> n = 0 \<and> db' = db \<or> 0 < d \<and> n = affordable db k d \<and> 0 \<le> n \<and>
       (n = 0 \<and> unchanged db db' \<or> 0 < n \<and> used_set db k (i64 (sub_used db k + n)) db')"
  with \<open>0 < d\<close> have n: "n = affordable db k d" "0 \<le> n" and
    cases: "n = 0 \<and> unchanged db db' \<or> 0 < n \<and> used_set db k (i64 (sub_used db k + n)) db'" by auto
  have "sub_used db k + n < 2 ^ 63" "n \<le> d"
    using n(1) fits sub_total_bound [OF ok, of k] by (auto simp: affordable_def split: if_splits)
  moreover from this have "i64 (sub_used db k + n) = sub_used db k + n"
    using n(2) nonneg by (intro i64_id) (simp add: in_i64_def)
  ultimately show "0 \<le> n \<and> n \<le> d \<and> subs_ok db' \<and> sub_used db' = (sub_used db)(k := sub_used db k + n) \<and> subs_only db db'"
    using cases n(2) ok used_set_used [of db k _ db'] unchanged_same(5) [of db db']
    by (auto simp: unchanged_subs_only subs_ok_unchanged sub_used_def fun_eq_iff)
qed simp

lemma subs_only_user: "subs_only db db' \<Longrightarrow> user_funds db' = user_funds db \<and> has_user db' = has_user db"
  by (simp add: subs_only_same)

lemma user_moved_subs:
  "user_moved db u n db' \<Longrightarrow> sub_used db' = sub_used db \<and> sub_total db' = sub_total db \<and> (subs_ok db' = subs_ok db) \<and> db_subs db' = db_subs db"
  using subs_ok_cong [of db' db]
  by (auto simp: user_moved_def users_only_same sub_used_def sub_total_def fun_eq_iff)

lemma refund_rest_law:
  assumes "split_ready f db" and "0 \<le> r" and "sub_fits (sp_subscription f) db (- r)"
  shows "outcome (refund_rest r (f, db)) (\<lambda>_ (f', db'). split_ready f' db' \<and> split_charge_of f' db' = split_charge_of f db - r
      \<and> token_frame db db') (\<lambda>_. True)"
proof (cases "r = 0")
  case True
  then show ?thesis using assms(1) by (simp add: refund_rest_def)
next
  case False
  let ?k = "sf_subscriptionId (sp_subscription f)"
  have ready: "subs_ok db" "0 < ?k" using assms(1) by (auto simp: split_ready_def sub_ready_def)
  have "outcome (PostConsumeUserSubscriptionDelta db ?k (- r))
      (\<lambda>_ db'. subs_ok db' \<and> sub_used db' = (sub_used db)(?k := sub_used db ?k + - r) \<and> subs_only db db') (unchanged db)"
    using assms(3) False ready by (intro post_consume_exact) (auto simp: sub_fits_def sub_charge_def)
  then show ?thesis using False assms ready
    by (auto simp: refund_rest_def outcome_on_db split_ready_def sub_ready_def wallet_ready_def split_charge_of_def
        sub_charge_def wallet_charge_def subs_only_user elim!: outcome_mono intro: token_frame_intros)
qed

lemma split_refund_law:
  assumes "split_ready f db" and "0 < r" and "split_fits f db (- r)"
  shows "outcome (split_refund r (f, db)) (\<lambda>_ (f', db'). split_ready f' db' \<and> split_charge_of f' db' = split_charge_of f db - r
      \<and> token_frame db db') (\<lambda>_. True)"
proof -
  let ?w = "sp_wallet f" and ?s = "sp_subscription f" and ?u = "wf_userId (sp_wallet f)"
  define w where "w = (if wf_consumed ?w > 0 then if r > wf_consumed ?w then wf_consumed ?w else r else 0)"
  have ready: "subs_ok db" "0 < sf_subscriptionId ?s" "has_user db ?u" "0 \<le> wf_consumed ?w" "0 \<le> sf_preConsumed ?s"
    using assms(1) by (auto simp: split_ready_def sub_ready_def wallet_ready_def)
  have w: "0 \<le> w" "w \<le> r" "w \<le> wf_consumed ?w" "min 0 (- r + wf_consumed ?w) = - (r - w)"
    using ready assms(2) by (auto simp: w_def)
  have fits: "sub_fits ?s db (- (r - w))" using assms(2,3) w(4) by (simp add: split_fits_def)
  let ?Q = "\<lambda>(f', db'). split_ready f' db' \<and> split_charge_of f' db' = split_charge_of f db - r \<and> token_frame db db'"
  have rest: "outcome (refund_rest (r - w) (f', db1)) (\<lambda>_. ?Q) (\<lambda>_. True)"
    if f': "sp_subscription f' = ?s" "split_ready f' db1" and c: "split_charge_of f' db1 = split_charge_of f db - w"
      "sub_used db1 = sub_used db" "token_frame db db1" for f' db1
    by (rule outcome_mono [OF refund_rest_law [OF f'(2)]])
      (use f' c w fits in \<open>auto simp: sub_fits_def sub_charge_def intro: token_frame_trans\<close>)
  have "outcome (if w > 0
        then bnd (on_db (\<lambda>db. IncreaseUserQuota db ?u w) (f, db)) (\<lambda>_ (f, db).
          (Inr (), (f\<lparr>sp_wallet := (sp_wallet f)\<lparr>wf_consumed := wf_consumed (sp_wallet f) - w\<rparr>\<rparr>, db)))
        else (Inr (), (f, db))) (\<lambda>_ s. outcome (refund_rest (r - w) s) (\<lambda>_. ?Q) (\<lambda>_. True)) (\<lambda>_. True)"
  proof (cases "w > 0")
    case True
    have "outcome (IncreaseUserQuota db ?u w) (\<lambda>_ db1. outcome (refund_rest (r - w)
        (f\<lparr>sp_wallet := ?w\<lparr>wf_consumed := wf_consumed ?w - w\<rparr>\<rparr>, db1)) (\<lambda>_. ?Q) (\<lambda>_. True)) (\<lambda>_. True)"
      by (rule outcome_mono [OF quota_specs(1)], rule rest)
        (use w ready in \<open>auto simp: split_ready_def sub_ready_def wallet_ready_def split_charge_of_def sub_charge_def
           wallet_charge_def user_movedD dest: user_moved_subs intro: token_frame_intros\<close>)
    with True show ?thesis by (simp add: outcome_on_db)
  next
    case False
    then show ?thesis using rest [of f db] w assms(1) by simp
  qed
  then show ?thesis unfolding split_refund_def Let_def fst_conv w_def [symmetric] outcome_simps .
qed

lemma charge_rest_law:
  assumes "split_ready f db" and "0 \<le> n" and "n \<le> d"
  shows "outcome (charge_rest d n (f, db)) (\<lambda>_ (f', db'). split_ready f' db'
      \<and> split_charge_of f' db' = split_charge_of f db + (d - n) \<and> split_holds f' = split_holds f + (d - n)
      \<and> sp_subPostDelta f' = sp_subPostDelta f \<and> token_frame db db') (\<lambda>_. True)"
proof (cases "d = n")
  case True
  then show ?thesis using assms by (simp add: charge_rest_def)
next
  case False
  let ?u = "wf_userId (sp_wallet f)"
  obtain r db2 where dec: "DecreaseUserQuota db ?u (d - n) = (r, db2)" by fastforce
  show ?thesis
  proof (cases r)
    case (Inl e)
    then show ?thesis using dec assms False by (auto simp: charge_rest_def on_db_def Let_def split: prod.split)
  next
    case (Inr u)
    have moved: "user_moved db ?u (- (d - n)) db2" using outcomeD [OF quota_specs(2)] dec Inr by blast
    with Inr dec assms False user_moved_subs [OF moved] user_movedD [OF moved] show ?thesis
      by (auto simp: charge_rest_def on_db_def split_ready_def sub_ready_def wallet_ready_def split_charge_of_def
          sub_charge_def wallet_charge_def split_holds_def intro: token_frame_intros)
  qed
qed

lemma split_charge_law:
  assumes "split_ready f db" and "0 < d" and "split_fits f db d"
  shows "outcome (split_charge d (f, db)) (\<lambda>_ (f', db'). split_ready f' db' \<and> split_charge_of f' db' = split_charge_of f db + d
      \<and> split_holds f' = split_holds f + d \<and> sp_subPostDelta f \<le> sp_subPostDelta f' \<and> token_frame db db') (\<lambda>_. True)"
proof -
  let ?k = "sf_subscriptionId (sp_subscription f)"
  have ready: "subs_ok db" "0 < ?k" using assms(1) by (auto simp: split_ready_def sub_ready_def)
  have fits: "0 \<le> sub_used db ?k" "0 < sub_total db ?k \<or> sub_used db ?k + d < 2 ^ 63"
    using assms(2,3) by (auto simp: split_fits_def sub_charge_def)
  let ?Q = "\<lambda>(f', db'). split_ready f' db' \<and> split_charge_of f' db' = split_charge_of f db + d
      \<and> split_holds f' = split_holds f + d \<and> sp_subPostDelta f \<le> sp_subPostDelta f' \<and> token_frame db db'"
  have rest: "outcome (charge_rest d n (f\<lparr>sp_subPostDelta := sp_subPostDelta f + n\<rparr>, db1)) (\<lambda>_. ?Q) (\<lambda>_. True)"
    if a: "0 \<le> n \<and> n \<le> d \<and> subs_ok db1 \<and> sub_used db1 = (sub_used db)(?k := sub_used db ?k + n) \<and> subs_only db db1" for n db1
  proof -
    have "split_ready (f\<lparr>sp_subPostDelta := sp_subPostDelta f + n\<rparr>) db1"
      using assms(1) a by (auto simp: split_ready_def sub_ready_def wallet_ready_def subs_only_user)
    note law = charge_rest_law [OF this, of n d]
    show ?thesis
      by (rule outcome_mono [OF law])
        (use a in \<open>auto simp: split_charge_of_def sub_charge_def wallet_charge_def split_holds_def subs_only_user
           intro: token_frame_trans token_frame_intros\<close>)
  qed
  have "outcome (PostConsumeUserSubscriptionDeltaAvailable db ?k d) (\<lambda>n db1.
      outcome (charge_rest d n (f\<lparr>sp_subPostDelta := sp_subPostDelta f + n\<rparr>, db1)) (\<lambda>_. ?Q) (\<lambda>_. True)) (\<lambda>_. True)"
    by (rule outcome_mono [OF available_exact [OF ready(1) fits assms(2)]]) (auto intro!: rest)
  then show ?thesis using ready(2) by (simp add: split_charge_def outcome_on_db)
qed

lemma split_Refund_run:
  assumes ready: "split_ready f db" and backed: "split_backed f db" and faults: "db_faults db = []"
  shows "\<exists>db'. split_Refund (f, db) = (Inr (), (f, db')) \<and> split_charge_of f db' = split_charge_of f db - split_held f
    \<and> token_frame db db' \<and> db_faults db' = []"
proof -
  let ?s = "sp_subscription f" and ?w = "sp_wallet f" and ?p = "sp_subPostDelta f"
  let ?k = "sf_subscriptionId ?s"
  have r: "subs_ok db" "0 < ?k" "0 \<le> sf_preConsumed ?s" "wallet_ready ?w db"
    using ready by (auto simp: split_ready_def sub_ready_def)
  obtain db1 where one: "subscription_Refund (?s, db) = (Inr (), (?s, db1))" "subs_only db db1" "db_faults db1 = []"
    "sub_used db1 ?k = sub_used db ?k - sf_preConsumed ?s"
    "\<forall>s. map_of (db_subs db) ?k = Some s \<longrightarrow> map_of (db_subs db1) ?k = Some (s\<lparr>us_AmountUsed := us_AmountUsed s - sf_preConsumed ?s\<rparr>)"
    using subscription_Refund_run [OF faults _ r(3)] backed by (auto simp: split_backed_def)
  obtain db2 where two: "(if ?p > 0 \<and> ?k > 0 then on_db (\<lambda>db. PostConsumeUserSubscriptionDelta db ?k (- ?p)) (f, db1)
        else (Inr (), (f, db1))) = (Inr (), (f, db2))"
    "subs_only db db2" "db_faults db2 = []" "sub_used db2 ?k = sub_used db ?k - sf_preConsumed ?s - max 0 ?p"
  proof (cases "?p > 0")
    case True
    then obtain s where s: "map_of (db_subs db) ?k = Some s" "sf_preConsumed ?s + ?p \<le> us_AmountUsed s" "us_AmountUsed s < 2 ^ 63"
      using backed by (auto simp: split_backed_def)
    let ?t = "s\<lparr>us_AmountUsed := us_AmountUsed s - sf_preConsumed ?s\<rparr>"
    have row: "map_of (db_subs db1) ?k = Some ?t" using one(5) s(1) by simp
    have "sub_ok s" "us_Id s = ?k" using subs_okD [OF r(1) s(1)] by auto
    then have "PostConsumeUserSubscriptionDelta db1 ?k (- ?p) =
        (Inr (), db1\<lparr>db_subs := gput ?k (?t\<lparr>us_AmountUsed := us_AmountUsed ?t - ?p\<rparr>) (db_subs db1)\<rparr>)"
      using s True r(3) by (intro PostConsumeUserSubscriptionDelta_return [OF one(3) r(2) row]) (auto simp: sub_ok_def)
    moreover have "subs_only db (db1\<lparr>db_subs := gput ?k (?t\<lparr>us_AmountUsed := us_AmountUsed ?t - ?p\<rparr>) (db_subs db1)\<rparr>)"
      by (rule subs_only_trans [OF one(2)]) (simp add: subs_only_def)
    ultimately show ?thesis using that True r(2) one(3) s(1) by (simp add: on_db_def sub_used_def go_map_simps)
  next
    case False
    then show ?thesis using that one by simp
  qed
  have "wallet_ready ?w db2" using r(4) two(2) by (simp add: wallet_ready_def subs_only_user)
  from wallet.refund_law [OF this TrueI two(3)]
  obtain db3 where three: "wallet_Refund (?w, db2) = (Inr (), (?w, db3))"
    "wallet_charge ?w db3 = wallet_charge ?w db2 - wf_consumed ?w" "token_frame db2 db3" "db_faults db3 = []" by auto
  have subs: "sub_used db3 = sub_used db2"
  proof (cases "wf_consumed ?w \<le> 0")
    case False
    then have "IncreaseUserQuota db2 (wf_userId ?w) (wf_consumed ?w) = (Inr (), db3)"
      using three(1) by (auto simp: wallet_Refund_def on_db_def split: prod.splits)
    then show ?thesis using outcomeD [OF quota_specs(1)] user_moved_subs by blast
  qed (use three(1) in \<open>simp add: wallet_Refund_def\<close>)
  have "split_Refund (f, db) = (Inr (), (f, db3))"
    using one(1) two(1) three(1)
    by (auto simp: split_Refund_def on_subscription_def on_wallet_def first_error_def split: if_splits)
  moreover have "split_charge_of f db3 = split_charge_of f db - split_held f"
    using three(2) two(2,4) subs
    by (simp add: split_charge_of_def sub_charge_def split_held_def wallet_charge_def subs_only_user)
  ultimately show ?thesis using three(3,4) token_frame_trans [OF token_frame_intros(3) [OF two(2)]] by blast
qed

interpretation split: funding_contract split_Settle split_ready split_charge_of split_fits split_Refund split_held split_backed
proof unfold_locales
  fix f db d
  assume ready: "split_ready f db"
  show "outcome (split_Settle d (f, db)) (\<lambda>_ (f', db'). split_ready f' db' \<and> split_charge_of f' db' = split_charge_of f db + d
      \<and> token_frame db db') (\<lambda>_. True)" if "split_fits f db d"
    using ready that split_refund_law [OF ready, of "- d"]
    by (auto simp: split_Settle_def intro!: outcome_mono [OF split_charge_law [OF ready]])
  assume "split_backed f db" "db_faults db = []"
  with ready show "\<exists>db'. split_Refund (f, db) = (Inr (), (f, db')) \<and> split_charge_of f db' = split_charge_of f db - split_held f
      \<and> token_frame db db' \<and> db_faults db' = []"
    by (rule split_Refund_run)
qed

section \<open>The source of a session\<close>

fun funding_ready :: "funding_source \<Rightarrow> billing_db \<Rightarrow> bool" where
  "funding_ready (WalletFunding w) = wallet_ready w"
| "funding_ready (SubscriptionFunding f) = sub_ready f"
| "funding_ready (SplitFunding f) = split_ready f"

fun funding_charge :: "funding_source \<Rightarrow> billing_db \<Rightarrow> int" where
  "funding_charge (WalletFunding w) = wallet_charge w"
| "funding_charge (SubscriptionFunding f) = sub_charge f"
| "funding_charge (SplitFunding f) = split_charge_of f"

fun funding_held :: "funding_source \<Rightarrow> int" where
  "funding_held (WalletFunding w) = wf_consumed w"
| "funding_held (SubscriptionFunding f) = sf_preConsumed f"
| "funding_held (SplitFunding f) = split_held f"

fun funding_fits :: "funding_source \<Rightarrow> billing_db \<Rightarrow> int \<Rightarrow> bool" where
  "funding_fits (WalletFunding w) db d = True"
| "funding_fits (SubscriptionFunding f) db d = sub_fits f db d"
| "funding_fits (SplitFunding f) db d = split_fits f db d"

fun funding_backed :: "funding_source \<Rightarrow> billing_db \<Rightarrow> bool" where
  "funding_backed (WalletFunding w) db = True"
| "funding_backed (SubscriptionFunding f) db = sub_backed f db"
| "funding_backed (SplitFunding f) db = split_backed f db"

lemma outcome_lift:
  "outcome (lift_funding wrap m f db) Q E \<longleftrightarrow> outcome (m (f, db)) (\<lambda>a (f', db'). Q a (wrap f', db')) (\<lambda>(f', db'). E (wrap f', db'))"
  by (auto simp: lift_funding_def outcome_def split: prod.split sum.split)

interpretation funding: funding_contract funding_Settle funding_ready funding_charge funding_fits
  funding_Refund funding_held funding_backed
proof unfold_locales
  fix f db d
  assume ready: "funding_ready f db"
  show "outcome (funding_Settle d (f, db)) (\<lambda>_ (f', db'). funding_ready f' db' \<and> funding_charge f' db' = funding_charge f db + d
      \<and> token_frame db db') (\<lambda>_. True)" if "funding_fits f db d"
    using ready that wallet.settle_law subscription.settle_law split.settle_law
    by (cases f) (auto simp: funding_Settle_def outcome_lift case_prod_unfold)
  assume "funding_backed f db" "db_faults db = []"
  with ready show "\<exists>db'. funding_Refund (f, db) = (Inr (), (f, db')) \<and> funding_charge f db' = funding_charge f db - funding_held f
      \<and> token_frame db db' \<and> db_faults db' = []"
    using wallet.refund_law [of _ db] subscription.refund_law [of _ db] split.refund_law [of _ db]
    by (cases f) (fastforce simp: funding_Refund_def lift_funding_def)+
qed

end
