(* ===== verification/Session_Properties.thy ===== *)
theory Session_Properties
  imports Session_Contracts
begin

text \<open>
  The properties of billing sessions. \<open>session_live\<close> collects the sessions a request can have before
  it ends: opened by \<^verbatim>\<open>NewBillingSession\<close> and topped up by \<^verbatim>\<open>Reserve\<close>, each on whatever database the
  other requests have left. \<open>session_ok\<close> is their invariant: what a refund would give back is exactly
  what the session has pre-consumed, for the funding source and for the token.
\<close>

section \<open>The invariant of live sessions\<close>

definition subscription_extra :: "billing_session \<Rightarrow> int" where
  "subscription_extra b = (case bs_funding b of SubscriptionFunding _ \<Rightarrow> bs_extraReserved b | _ \<Rightarrow> 0)"

definition funding_nonneg :: "funding_source \<Rightarrow> bool" where
  "funding_nonneg f = (case f of WalletFunding w \<Rightarrow> 0 \<le> wf_consumed w
     | SubscriptionFunding s \<Rightarrow> 0 \<le> sf_preConsumed s
     | SplitFunding s \<Rightarrow> 0 \<le> sf_preConsumed (sp_subscription s) \<and> 0 \<le> sp_subPostDelta s \<and> 0 \<le> wf_consumed (sp_wallet s))"

definition session_ok :: "billing_session \<Rightarrow> bool" where
  "session_ok b \<longleftrightarrow> \<not> bs_settled b \<and> \<not> bs_refunded b \<and> \<not> bs_fundingSettled b
     \<and> funding_held (bs_funding b) + subscription_extra b = bs_preConsumedQuota b
     \<and> bs_tokenConsumed b = (if token_exempt (bs_relayInfo b) then 0 else bs_preConsumedQuota b)
     \<and> 0 \<le> bs_preConsumedQuota b \<and> 0 \<le> bs_extraReserved b \<and> funding_nonneg (bs_funding b)
     \<and> (case bs_funding b of SubscriptionFunding f \<Rightarrow> ri_SubscriptionId (bs_relayInfo b) = sf_subscriptionId f | _ \<Rightarrow> True)"

lemma sync_keeps [simp]:
  "bs_funding (syncRelayInfo b) = bs_funding b" "bs_preConsumedQuota (syncRelayInfo b) = bs_preConsumedQuota b"
  "bs_tokenConsumed (syncRelayInfo b) = bs_tokenConsumed b" "bs_extraReserved (syncRelayInfo b) = bs_extraReserved b"
  "bs_settled (syncRelayInfo b) = bs_settled b" "bs_refunded (syncRelayInfo b) = bs_refunded b"
  "bs_fundingSettled (syncRelayInfo b) = bs_fundingSettled b" "bs_trusted (syncRelayInfo b) = bs_trusted b"
  by (simp_all add: syncRelayInfo_def Let_def)

lemma sync_info [simp]:
  "token_exempt (bs_relayInfo (syncRelayInfo b)) = token_exempt (bs_relayInfo b)"
  "ri_TokenId (bs_relayInfo (syncRelayInfo b)) = ri_TokenId (bs_relayInfo b)"
  "bs_funding b = SubscriptionFunding f \<Longrightarrow> ri_SubscriptionId (bs_relayInfo (syncRelayInfo b)) = sf_subscriptionId f"
  by (auto simp: syncRelayInfo_def Let_def token_exempt_def split: funding_source.split)

lemma sync_ok:
  assumes "session_ok b" shows "session_ok (syncRelayInfo b)"
  using assms by (auto simp: session_ok_def subscription_extra_def split: funding_source.splits)

lemma outcome_on_funding:
  "outcome (on_funding m s) Q E \<longleftrightarrow> outcome (m (bs_funding (fst s), snd s))
     (\<lambda>a (f, db). Q a ((fst s)\<lparr>bs_funding := f\<rparr>, db)) (\<lambda>(f, db). E ((fst s)\<lparr>bs_funding := f\<rparr>, db))"
  by (auto simp: on_funding_def outcome_def split: prod.split sum.split)

lemma outcome_with_code: "outcome (with_code c x) Q E \<longleftrightarrow> outcome x Q E"
  by (auto simp: with_code_def outcome_def split: prod.split sum.split)

subsection \<open>Opening\<close>

text \<open>A funding source as \<^verbatim>\<open>NewBillingSession\<close> makes it for the quota \<open>n\<close>.\<close>

definition fresh_funding :: "billing_db \<Rightarrow> int \<Rightarrow> funding_source \<Rightarrow> bool" where
  "fresh_funding db n f = (case f of
       WalletFunding w \<Rightarrow> wf_consumed w = 0 \<and> 0 \<le> n
     | SubscriptionFunding s \<Rightarrow> sf_amount s = n \<and> 0 < n \<and> map_of (db_records db) (sf_requestId s) = None \<and> subs_ok db
     | SplitFunding s \<Rightarrow> sf_amount (sp_subscription s) = n \<and> 0 < n \<and> wf_consumed (sp_wallet s) = 0 \<and> sp_subPostDelta s = 0
         \<and> map_of (db_records db) (sf_requestId (sp_subscription s)) = None \<and> subs_ok db)"

lemma wallet_PreConsume_held:
  assumes "wf_consumed w = 0"
  shows "outcome (wallet_PreConsume n (w, db)) (\<lambda>_ (w', _). wf_consumed w' = max 0 n) (\<lambda>_. True)"
  using assms by (auto simp: wallet_PreConsume_def outcome_on_db intro!: outcome_mono [OF quota_specs(2)])

lemma subscription_PreConsume_held:
  assumes "subs_ok db" and "map_of (db_records db) (sf_requestId f) = None"
  shows "outcome (subscription_PreConsume off now n (f, db)) (\<lambda>_ (f', _). sf_preConsumed f' = sf_amount f) (\<lambda>_. True)"
  using assms
  by (auto simp: subscription_PreConsume_def outcome_on_db filled_def intro!: outcome_mono [OF PreConsumeUserSubscription_spec])

lemma PreConsumePartial_held:
  assumes "subs_ok db" and "map_of (db_records db) (sf_requestId f) = None"
  shows "outcome (PreConsumePartial off now (f, db))
    (\<lambda>_ (f', _). sf_preConsumed f' \<le> sf_amount f \<and> 0 < sf_preConsumed f' \<and> sf_amount f' = sf_amount f) (\<lambda>_. True)"
  using assms
  by (auto simp: PreConsumePartial_def outcome_on_db filled_def preconsumed_def
      intro!: outcome_mono [OF PreConsumeUserSubscriptionPartial_spec])

lemma outcome_on_subscription:
  "outcome (on_subscription m s) Q E \<longleftrightarrow> outcome (m (sp_subscription (fst s), snd s))
     (\<lambda>a (f, db). Q a ((fst s)\<lparr>sp_subscription := f\<rparr>, db)) (\<lambda>(f, db). E ((fst s)\<lparr>sp_subscription := f\<rparr>, db))"
  by (auto simp: on_subscription_def outcome_def split: prod.split sum.split)

lemma outcome_on_wallet:
  "outcome (on_wallet m s) Q E \<longleftrightarrow> outcome (m (sp_wallet (fst s), snd s))
     (\<lambda>a (f, db). Q a ((fst s)\<lparr>sp_wallet := f\<rparr>, db)) (\<lambda>(f, db). E ((fst s)\<lparr>sp_wallet := f\<rparr>, db))"
  by (auto simp: on_wallet_def outcome_def split: prod.split sum.split)

lemma outcome_or_abort:
  "outcome (case x of (Inl e, s) \<Rightarrow> (Inl (g e), h e s) | (Inr u, s) \<Rightarrow> (Inr (), s)) Q (\<lambda>_. True) \<longleftrightarrow> outcome x (\<lambda>_. Q ()) (\<lambda>_. True)"
  by (auto simp: outcome_def split: prod.split sum.split)

lemma outcome_abort:
  "outcome (case x of (Inl e, s) \<Rightarrow> abort_split e s | (Inr u, s) \<Rightarrow> (Inr (), s)) Q (\<lambda>_. True) \<longleftrightarrow> outcome x (\<lambda>_. Q ()) (\<lambda>_. True)"
  by (cases x; cases "fst x") (auto simp: abort_split_def)

definition split_covers :: "int \<Rightarrow> split_funding \<Rightarrow> bool" where
  "split_covers n f \<longleftrightarrow> split_holds f = n \<and> 0 \<le> sf_preConsumed (sp_subscription f) \<and> sp_subPostDelta f = 0
     \<and> 0 \<le> wf_consumed (sp_wallet f)"

lemma cover_rest_held:
  assumes "sf_preConsumed (sp_subscription f) \<le> sf_amount (sp_subscription f)" and "0 < sf_preConsumed (sp_subscription f)"
    and "wf_consumed (sp_wallet f) = 0" and "sp_subPostDelta f = 0"
  shows "outcome (cover_rest read (f, db)) (\<lambda>_ (f', _). split_covers (sf_amount (sp_subscription f)) f') (\<lambda>_. True)"
proof -
  let ?r = "sf_amount (sp_subscription f) - sf_preConsumed (sp_subscription f)"
  have "outcome (on_wallet (wallet_PreConsume ?r) (f, db)) (\<lambda>_ (f', _). split_covers (sf_amount (sp_subscription f)) f') (\<lambda>_. True)"
    using assms by (auto simp: outcome_on_wallet split_covers_def split_holds_def intro!: outcome_mono [OF wallet_PreConsume_held])
  then show ?thesis using assms
    by (auto simp: cover_rest_def Let_def abort_split_def [of _ "(f, db)"] outcome_abort split_covers_def split_holds_def split: sum.split)
qed

lemma split_PreConsume_held:
  assumes "subs_ok db" and "map_of (db_records db) (sf_requestId (sp_subscription f)) = None"
    and "wf_consumed (sp_wallet f) = 0" and "sp_subPostDelta f = 0"
  shows "outcome (split_PreConsume off now read n (f, db)) (\<lambda>_ (f', _). split_covers (sf_amount (sp_subscription f)) f') (\<lambda>_. True)"
  unfolding split_PreConsume_def outcome_simps outcome_on_subscription fst_conv snd_conv
  by (rule outcome_mono [OF PreConsumePartial_held [OF assms(1,2)]])
    (use assms(3,4) in \<open>auto intro!: outcome_mono [OF cover_rest_held]\<close>)

lemma funding_PreConsume_held:
  assumes "fresh_funding db n f"
  shows "outcome (funding_PreConsume off now read n (f, db)) (\<lambda>_ (f', _). funding_held f' = n \<and> funding_nonneg f') (\<lambda>_. True)"
proof (cases f)
  case (WalletFunding w)
  then show ?thesis using assms
    by (auto simp: funding_PreConsume_def outcome_lift fresh_funding_def funding_nonneg_def
        intro!: outcome_mono [OF wallet_PreConsume_held])
next
  case (SubscriptionFunding s)
  then show ?thesis using assms
    by (auto simp: funding_PreConsume_def outcome_lift fresh_funding_def funding_nonneg_def
        intro!: outcome_mono [OF subscription_PreConsume_held])
next
  case (SplitFunding s)
  then show ?thesis using assms
    by (auto simp: funding_PreConsume_def outcome_lift fresh_funding_def funding_nonneg_def split_held_def split_holds_def split_covers_def
        intro!: outcome_mono [OF split_PreConsume_held])
qed

lemma fresh_cong:
  assumes "fresh_funding db n f" and "tokens_only db db'"
  shows "fresh_funding db' n f"
  using assms tokens_only_same [OF assms(2)] subs_ok_cong [of db' db]
  by (auto simp: fresh_funding_def split: funding_source.splits)

lemma PreConsumeTokenQuota_spec:
  "outcome (PreConsumeTokenQuota read info db n)
     (\<lambda>_ db'. 0 \<le> n \<and> (token_exempt info \<and> db' = db \<or> \<not> token_exempt info \<and> token_moved db (ri_TokenId info) (- n) db')) (unchanged db)"
  by (auto simp: PreConsumeTokenQuota_def split: sum.split intro!: outcome_mono [OF quota_specs(4)])

lemma trusted_wallet: "shouldTrust trust rd b \<Longrightarrow> \<exists>w. bs_funding b = WalletFunding w"
  by (auto simp: shouldTrust_def Source_def BillingSourceWallet_def BillingSourceSubscription_def
      BillingSourceSubscriptionWallet_def split: if_splits funding_source.splits)

lemma tokens_only_refl [simp]: "tokens_only db db"
  by (simp add: tokens_only_def)

lemma consume_token_spec:
  assumes "0 \<le> n" and "bs_tokenConsumed b = 0"
  shows "outcome (consume_token rd n (b, db)) (\<lambda>_ (b', db'). tokens_only db db'
      \<and> b' = b\<lparr>bs_tokenConsumed := (if token_exempt (bs_relayInfo b) then 0 else n)\<rparr>) (\<lambda>_. True)"
  using assms
  by (auto simp: consume_token_def outcome_with_code outcome_on_db token_moved_def
      intro!: outcome_mono [OF PreConsumeTokenQuota_spec])

lemma consume_funding_spec:
  assumes "fresh_funding db n (bs_funding b)"
  shows "outcome (consume_funding off now rd n (b, db)) (\<lambda>_ (b', _). \<exists>f'. b' = b\<lparr>bs_funding := f'\<rparr>
      \<and> funding_held f' = n \<and> funding_nonneg f') (\<lambda>_. True)"
  using funding_PreConsume_held [OF assms, of off now "rd_split rd"]
  by (auto simp: consume_funding_def outcome_or_abort outcome_on_funding elim!: outcome_mono)

lemma preConsume_ok:
  assumes fresh: "fresh_funding db n f" and b: "b = new_session info f"
  shows "outcome (preConsume off now trust rd n (b, db)) (\<lambda>_ (b', _). session_ok b'
      \<and> bs_preConsumedQuota b' = (if shouldTrust trust rd b then 0 else n)) (\<lambda>_. True)"
proof -
  let ?t = "shouldTrust trust rd b"
  define q where "q = (if ?t then 0 else n)"
  define b1 where "b1 = (if ?t then b\<lparr>bs_trusted := True\<rparr> else b)"
  have q0: "0 \<le> q" using fresh by (auto simp: q_def fresh_funding_def split: funding_source.splits)
  have q: "fresh_funding db q f" using fresh trusted_wallet [of trust rd b] b
    by (auto simp: q_def new_session_def fresh_funding_def split: funding_source.splits)
  have b1: "bs_funding b1 = f" "bs_relayInfo b1 = info" "bs_tokenConsumed b1 = 0" "bs_extraReserved b1 = 0"
    "\<not> bs_settled b1" "\<not> bs_refunded b1" "\<not> bs_fundingSettled b1"
    by (simp_all add: b1_def b new_session_def)
  let ?b = "b1\<lparr>bs_tokenConsumed := (if token_exempt info then 0 else q)\<rparr>"
  have "outcome (consume_funding off now rd q (?b, db2)) (\<lambda>_ (b, _). session_ok (syncRelayInfo (b\<lparr>bs_preConsumedQuota := q\<rparr>))) (\<lambda>_. True)"
    if "tokens_only db db2" for db2
  proof -
    have "fresh_funding db2 q (bs_funding ?b)" using fresh_cong [OF q that] b1 by simp
    from consume_funding_spec [OF this, of off now rd] show ?thesis
      using b1 q0
      by (auto simp: session_ok_def subscription_extra_def elim!: outcome_mono split: funding_source.split)
  qed
  then have "outcome (bnd (consume_token rd q (b1, db)) (\<lambda>_. consume_funding off now rd q))
     (\<lambda>_ (b, _). session_ok (syncRelayInfo (b\<lparr>bs_preConsumedQuota := q\<rparr>))) (\<lambda>_. True)"
    unfolding outcome_simps using b1
    by (intro outcome_mono [OF consume_token_spec [OF q0 b1(3)]]) auto
  moreover have "(if ?t then ((fst (b, db))\<lparr>bs_trusted := True\<rparr>, snd (b, db)) else (b, db)) = (b1, db)" by (simp add: b1_def)
  ultimately show ?thesis
    unfolding preConsume_def Let_def fst_conv q_def [symmetric]
    by (auto simp: case_prod_unfold elim!: outcome_mono)
qed

lemma open_session_ok:
  assumes "fresh_funding (snd s) n f"
  shows "outcome (open_session (preConsume off now trust rd) f n s) (\<lambda>b _. session_ok b \<and> bs_preConsumedQuota b \<in> {0, n}) (\<lambda>_. True)"
proof -
  have "outcome (preConsume off now trust rd n (new_session (fst s) f, snd s)) (\<lambda>_ (b', _). session_ok b'
      \<and> bs_preConsumedQuota b' \<in> {0, n}) (\<lambda>_. True)"
    by (rule outcome_mono [OF preConsume_ok [OF assms refl]]) auto
  then show ?thesis by (auto simp: open_session_def outcome_def split: prod.splits sum.splits)
qed

lemma try_ok:
  "0 \<le> n \<Longrightarrow> outcome (tryWallet (preConsume off now trust rd) rd n s)
     (\<lambda>b _. session_ok b \<and> bs_preConsumedQuota b \<in> {0, n, 1}) (\<lambda>_. True)"
  "subs_ok (snd s) \<Longrightarrow> map_of (db_records (snd s)) (ri_RequestId (fst s)) = None \<Longrightarrow>
     outcome (trySubscription (preConsume off now trust rd) n s) (\<lambda>b _. session_ok b \<and> bs_preConsumedQuota b \<in> {0, n, 1}) (\<lambda>_. True)"
  "subs_ok (snd s) \<Longrightarrow> map_of (db_records (snd s)) (ri_RequestId (fst s)) = None \<Longrightarrow>
     outcome (trySubscriptionFirst (preConsume off now trust rd) n s) (\<lambda>b _. session_ok b \<and> bs_preConsumedQuota b \<in> {0, n, 1}) (\<lambda>_. True)"
  by (auto simp: tryWallet_def trySubscription_def trySubscriptionFirst_def Let_def fresh_funding_def
      new_subscription_funding_def split: sum.split intro!: outcome_mono [OF open_session_ok])

lemma outcome_if_insufficient:
  "outcome (if_insufficient x other) Q (\<lambda>_. True) \<longleftrightarrow>
     outcome x Q (\<lambda>_. True) \<and> (\<forall>e s. x = (Inl (InsufficientUserQuota, e), s) \<longrightarrow> outcome (other s) Q (\<lambda>_. True))"
  by (auto simp: if_insufficient_def outcome_def split: prod.splits sum.splits if_splits)

lemma wallet_error:
  assumes "wallet_PreConsume n s = (Inl e, s')" shows "\<not> insufficient_error e"
  using assms
  by (auto simp: wallet_PreConsume_def on_db_def DecreaseUserQuota_def decreaseUserQuota_def db_query_def
      insufficient_error_def split: if_splits list.splits)

lemma fst_bnd_Inl: "fst (bnd x f) = Inl e \<longleftrightarrow> fst x = Inl e \<or> (\<exists>a s. x = (Inr a, s) \<and> fst (f a s) = Inl e)"
  by (auto simp: bnd_def split: prod.splits sum.splits)

lemma consume_token_error:
  assumes "consume_token rd q s = (r, s')"
  shows "r \<noteq> Inl (InsufficientUserQuota, e) \<and> bs_funding (fst s') = bs_funding (fst s)"
  using assms by (auto simp: consume_token_def with_code_def on_db_def bnd_def split: if_splits prod.splits sum.splits)

lemma consume_funding_error:
  "bs_funding (fst s) = WalletFunding w \<Longrightarrow> fst (consume_funding off now rd q s) \<noteq> Inl (InsufficientUserQuota, e)"
  using wallet_error [of q "(w, snd s)"]
  by (auto simp: consume_funding_def on_funding_def funding_PreConsume_def lift_funding_def split: prod.splits sum.splits)

lemma preConsume_wallet_error:
  assumes "bs_funding (fst s) = WalletFunding w"
  shows "fst (preConsume off now trust rd n s) \<noteq> Inl (InsufficientUserQuota, e)"
proof -
  have "fst (bnd (consume_token rd q t) (\<lambda>_. consume_funding off now rd q)) \<noteq> Inl (InsufficientUserQuota, e)"
    if "bs_funding (fst t) = WalletFunding w" for q t
    using that consume_token_error [of rd q t] consume_funding_error [of _ w]
    unfolding fst_bnd_Inl by (metis fst_conv surj_pair)
  moreover have "bs_funding (fst (if c then ((fst s)\<lparr>bs_trusted := True\<rparr>, snd s) else s)) = WalletFunding w" for c
    using assms by simp
  ultimately show ?thesis
    unfolding preConsume_def Let_def fst_bnd_Inl [of "bnd _ _"] by (auto simp: case_prod_unfold)
qed

lemma tryWallet_insufficient:
  assumes "tryWallet (preConsume off now trust rd) rd n s = (Inl (InsufficientUserQuota, e), s')"
  shows "s' = s"
  using assms preConsume_wallet_error [of "(new_session ((fst s)\<lparr>ri_UserQuota := q\<rparr>) (WalletFunding w), snd s)" w off now trust rd n e for q w]
  by (auto simp: tryWallet_def open_session_def new_session_def split: sum.splits if_splits prod.splits)
    (metis fst_conv)+

lemma HasActive_unchanged: "unchanged db (snd (HasActiveUserSubscription now db userId))"
  by (auto simp: HasActiveUserSubscription_def bnd_def db_query_def split: list.split)

lemma NewBillingSession_ok:
  assumes "subs_ok db" and "map_of (db_records db) (ri_RequestId info) = None" and "0 \<le> n"
  shows "outcome (NewBillingSession off now trust rd n (info, db)) (\<lambda>b _. session_ok b \<and> bs_preConsumedQuota b \<in> {0, n, 1}) (\<lambda>_. True)"
proof -
  obtain r db1 where has: "HasActiveUserSubscription now db (ri_UserId info) = (r, db1)" by fastforce
  then have un: "unchanged db db1" using HasActive_unchanged [of db now "ri_UserId info"] by simp
  have db1: "subs_ok db1" "map_of (db_records db1) (ri_RequestId info) = None"
    using un assms by (auto simp: subs_ok_unchanged unchanged_same)
  note wallet = try_ok(1) [OF assms(3)]
  have sub: "outcome (trySubscription (preConsume off now trust rd) n (info, db)) (\<lambda>b _. session_ok b \<and> bs_preConsumedQuota b \<in> {0, n, 1}) (\<lambda>_. True)"
    using try_ok(2) [of "(info, db)"] assms by simp
  have split: "outcome (trySubscriptionFirst (preConsume off now trust rd) n (info, db1)) (\<lambda>b _. session_ok b \<and> bs_preConsumedQuota b \<in> {0, n, 1}) (\<lambda>_. True)"
    using try_ok(3) [of "(info, db1)"] db1 by simp
  let ?pref = "NormalizeBillingPreference (ri_BillingPreference info)"
  have first: "outcome (if_insufficient (tryWallet (preConsume off now trust rd) rd n (info, db))
      (trySubscription (preConsume off now trust rd) n)) (\<lambda>b _. session_ok b \<and> bs_preConsumedQuota b \<in> {0, n, 1}) (\<lambda>_. True)"
    unfolding outcome_if_insufficient using wallet sub tryWallet_insufficient by blast
  have second: "outcome (if_insufficient (trySubscriptionFirst (preConsume off now trust rd) n (info, db1))
      (tryWallet (preConsume off now trust rd) rd n)) (\<lambda>b _. session_ok b \<and> bs_preConsumedQuota b \<in> {0, n, 1}) (\<lambda>_. True)"
    unfolding outcome_if_insufficient using wallet split by blast
  show ?thesis
  proof (cases "?pref = ''subscription_only'' \<or> ?pref = ''wallet_only'' \<or> ?pref = ''wallet_first''")
    case True
    then show ?thesis unfolding NewBillingSession_def Let_def using sub wallet first by auto
  next
    case False
    then show ?thesis unfolding NewBillingSession_def Let_def fst_conv snd_conv has
      using wallet second by (cases r) (auto split: bool.split)
  qed
qed

subsection \<open>Reserving\<close>

lemma reserveFunding_spec:
  assumes "funding_ready (bs_funding b) db" and "funding_fits (bs_funding b) db d" and "0 < d" and "funding_nonneg (bs_funding b)"
  shows "outcome (reserveFunding d (b, db)) (\<lambda>_ (b', db'). \<exists>f'. b' = b\<lparr>bs_funding := f'\<rparr> \<and> funding_nonneg f'
      \<and> (case bs_funding b of SubscriptionFunding f \<Rightarrow> f' = SubscriptionFunding f
          | _ \<Rightarrow> funding_held f' = funding_held (bs_funding b) + d \<and> (\<forall>f. f' \<noteq> SubscriptionFunding f))
      \<and> funding_ready f' db' \<and> funding_charge f' db' = funding_charge (bs_funding b) db + d \<and> token_frame db db') (\<lambda>_. True)"
proof (cases "bs_funding b")
  case (WalletFunding w)
  then show ?thesis using assms
    by (auto simp: reserveFunding_def outcome_with_code outcome_on_funding outcome_lift wallet_reserve_def outcome_on_db
        funding_nonneg_def wallet_ready_def wallet_charge_def user_movedD
        intro!: outcome_mono [OF quota_specs(2)] intro: token_frame_intros)
next
  case (SubscriptionFunding f)
  have keep: "b\<lparr>bs_funding := SubscriptionFunding f\<rparr> = b" using SubscriptionFunding by simp
  show ?thesis using SubscriptionFunding assms
    by (auto simp: reserveFunding_def outcome_with_code outcome_on_db sub_ready_def sub_charge_def sub_fits_def funding_nonneg_def keep
        intro!: outcome_mono [OF post_consume_exact] intro: token_frame_intros exI [of _ "SubscriptionFunding f"])
next
  case (SplitFunding f)
  then show ?thesis using assms split_charge_law [of f db d]
    by (auto simp: reserveFunding_def outcome_with_code outcome_on_funding funding_Settle_def split_Settle_def outcome_lift
        funding_nonneg_def split_held_def split_holds_def split_ready_def wallet_ready_def sub_ready_def case_prod_unfold
        elim!: outcome_mono)
qed

lemma reserveToken_spec:
  assumes "0 < d"
  shows "outcome (reserveToken read d (b, db)) (\<lambda>_ (b', db'). b' = b \<and> (token_exempt (bs_relayInfo b) \<and> db' = db
      \<or> \<not> token_exempt (bs_relayInfo b) \<and> token_moved db (ri_TokenId (bs_relayInfo b)) (- d) db')) (\<lambda>_. True)"
  using assms
  by (auto simp: reserveToken_def outcome_with_code outcome_on_db intro!: outcome_mono [OF PreConsumeTokenQuota_spec])

lemma reserve_rest_ok:
  assumes ok: "session_ok b" and d: "0 < d" and f': "funding_nonneg f'"
    "case bs_funding b of SubscriptionFunding f \<Rightarrow> f' = SubscriptionFunding f
       | _ \<Rightarrow> funding_held f' = funding_held (bs_funding b) + d \<and> (\<forall>f. f' \<noteq> SubscriptionFunding f)"
  shows "outcome (reserve_rest read d (b\<lparr>bs_funding := f'\<rparr>, db)) (\<lambda>_ (b', _). session_ok b'
      \<and> bs_preConsumedQuota b' = bs_preConsumedQuota b + d) (\<lambda>_. True)"
proof -
  let ?b = "b\<lparr>bs_funding := f', bs_preConsumedQuota := bs_preConsumedQuota b + d,
     bs_tokenConsumed := (if token_exempt (bs_relayInfo b) then bs_tokenConsumed b else bs_tokenConsumed b + d),
     bs_extraReserved := bs_extraReserved b + d\<rparr>"
  have "session_ok ?b"
    using ok d f' by (cases "bs_funding b"; cases f') (auto simp: session_ok_def subscription_extra_def)
  then have "session_ok (syncRelayInfo ?b)" by (rule sync_ok)
  then show ?thesis
    using reserveToken_spec [OF d, of read "b\<lparr>bs_funding := f'\<rparr>" db]
    by (auto simp: reserve_rest_def outcome_def Let_def split: prod.splits sum.splits)
qed

lemma Reserve_ok:
  assumes ok: "session_ok b" and ready: "funding_ready (bs_funding b) db"
    and fits: "funding_fits (bs_funding b) db (target - bs_preConsumedQuota b)"
  shows "outcome (Reserve read target (b, db)) (\<lambda>_ (b', _). session_ok b'
      \<and> bs_preConsumedQuota b' = (if bs_trusted b then bs_preConsumedQuota b else max (bs_preConsumedQuota b) target)) (\<lambda>_. True)"
proof (cases "bs_trusted b \<or> target \<le> bs_preConsumedQuota b")
  case True
  then show ?thesis using ok by (auto simp: Reserve_def Let_def)
next
  case False
  let ?d = "target - bs_preConsumedQuota b"
  have d: "0 < ?d" using False by simp
  have nonneg: "funding_nonneg (bs_funding b)" using ok by (simp add: session_ok_def)
  have "outcome (bnd (reserveFunding ?d (b, db)) (\<lambda>_. reserve_rest read ?d)) (\<lambda>_ (b', _). session_ok b'
      \<and> bs_preConsumedQuota b' = target) (\<lambda>_. True)"
    unfolding outcome_simps
    by (rule outcome_mono [OF reserveFunding_spec [OF ready fits d nonneg]])
      (auto intro!: outcome_mono [OF reserve_rest_ok [OF ok d]])
  then show ?thesis using False ok
    by (simp add: Reserve_def Let_def session_ok_def del: outcome_simps)
qed

inductive session_live :: "billing_session \<Rightarrow> bool" where
  opened: "subs_ok db \<Longrightarrow> map_of (db_records db) (ri_RequestId info) = None \<Longrightarrow> 0 \<le> n \<Longrightarrow>
     NewBillingSession off now trust rd n (info, db) = (Inr b, s) \<Longrightarrow> session_live b"
| reserved: "session_live b \<Longrightarrow> funding_ready (bs_funding b) db \<Longrightarrow>
     funding_fits (bs_funding b) db (target - bs_preConsumedQuota b) \<Longrightarrow>
     Reserve read target (b, db) = (Inr (), (b', db')) \<Longrightarrow> session_live b'"

lemma session_live_ok: "session_live b \<Longrightarrow> session_ok b"
proof (induction rule: session_live.induct)
  case (opened db info n off now trust rd b s)
  then show ?case using outcomeD [OF NewBillingSession_ok] by blast
next
  case (reserved b db target read b' db')
  show ?case using outcomeD [OF Reserve_ok [OF reserved.IH reserved.hyps(2,3)] reserved.hyps(4)] by simp
qed

section \<open>Settling and refunding\<close>

lemma funding_charge_tokens:
  assumes "tokens_only db db'" shows "funding_charge f db' = funding_charge f db"
  using tokens_only_same [OF assms]
  by (cases f) (simp_all add: wallet_charge_def sub_charge_def split_charge_of_def sub_used_def)


definition example_info :: relay_info where
  "example_info = \<lparr>ri_UserId = 5, ri_TokenId = 9, ri_IsPlayground = False, ri_IsChannelTest = False,
     ri_TokenUnlimited = False, ri_ForcePreConsume = False, ri_UserQuota = 0, ri_RequestId = ''req'',
     ri_BillingPreference = ''subscription_first'', ri_FinalPreConsumedQuota = 0, ri_BillingSource = '''',
     ri_WalletConsumed = 0, ri_SubscriptionId = 0, ri_SubscriptionPreConsumed = 0, ri_SubscriptionPostDelta = 0,
     ri_SubscriptionAmountTotal = 0, ri_SubscriptionAmountUsedAfterPreConsume = 0\<rparr>"

definition example_reads :: session_reads where
  "example_reads = \<lparr>rd_user = Inr 1000, rd_split = Inr 1000, rd_token = (\<lambda>_. Inr 800), rd_contextTokenQuota = 800\<rparr>"

text \<open>A request for 300: the best subscription has 170 left, the wallet pays the other 130.\<close>

definition example_opened :: "(api_error + billing_session) \<times> relay_info \<times> billing_db" where
  "example_opened = NewBillingSession 0 1500 5000 example_reads 300 (example_info, example_db)"

definition example_session :: billing_session where
  "example_session = projr (fst example_opened)"

definition example_open_db :: billing_db where
  "example_open_db = snd (snd example_opened)"

lemma example_opened: "NewBillingSession 0 1500 5000 example_reads 300 (example_info, example_db) =
    (Inr example_session, (fst (snd example_opened), example_open_db))"
proof -
  have "fst example_opened = Inr example_session" by code_simp
  then have "example_opened = (Inr example_session, (fst (snd example_opened), example_open_db))"
    by (simp add: example_open_db_def prod_eq_iff)
  then show ?thesis by (simp only: example_opened_def)
qed

lemma example_session_live: "session_live example_session"
  by (rule session_live.opened [OF example_db_ok _ _ example_opened]) (simp_all add: example_info_def)

lemma example_session_values:
  "bs_preConsumedQuota example_session = 300" "bs_tokenConsumed example_session = 300"
  "\<not> token_exempt (bs_relayInfo example_session)" "ri_TokenId (bs_relayInfo example_session) = 9"
  "funding_charge (bs_funding example_session) example_open_db = 200 - 870"
  "token_funds example_open_db 9 = 500" "db_faults example_open_db = []" "has_token example_open_db 9"
  by code_simp+


lemma settle_ok_session:
  assumes "session_ok b" and "funding_ready (bs_funding b) db"
    and "funding_fits (bs_funding b) db (actual - bs_preConsumedQuota b)"
    and "has_token db (ri_TokenId (bs_relayInfo b))"
    and "session_Settle actual (b, db) = (Inr (), (b', db'))"
  shows "funding_charge (bs_funding b') db' = funding_charge (bs_funding b) db + (actual - bs_preConsumedQuota b)
    \<and> token_funds db' (ri_TokenId (bs_relayInfo b)) = token_funds db (ri_TokenId (bs_relayInfo b)) -
        (if token_exempt (bs_relayInfo b) then 0 else actual - bs_preConsumedQuota b)
    \<and> session_Settle again (b', db') = (Inr (), (b', db')) \<and> session_Refund (b', db') = (b', db') \<and> \<not> NeedsRefund b'"
proof -
  let ?d = "actual - bs_preConsumedQuota b"
  have open_b: "\<not> bs_settled b" "\<not> bs_fundingSettled b" using assms(1) by (simp_all add: session_ok_def)
  have done_b: "session_Settle again (b', db') = (Inr (), (b', db'))" "session_Refund (b', db') = (b', db')" "\<not> NeedsRefund b'"
    if "bs_settled b'" using that by (simp_all add: session_Settle_def session_Refund_def NeedsRefund_def needsRefundLocked_def Let_def)
  show ?thesis
  proof (cases "?d = 0")
    case True
    then have "b' = b\<lparr>bs_settled := True\<rparr>" "db' = db" using assms(5) open_b by (auto simp: session_Settle_def)
    with True done_b show ?thesis by simp
  next
    case False
    obtain r f1 db1 where settle: "funding_Settle ?d (bs_funding b, db) = (r, (f1, db1))" by (cases "funding_Settle ?d (bs_funding b, db)") auto
    then have r: "r = Inr ()" using assms(5) False open_b
      by (cases r) (auto simp: session_Settle_def Let_def on_funding_def)
    have funding: "funding_ready f1 db1 \<and> funding_charge f1 db1 = funding_charge (bs_funding b) db + ?d \<and> token_frame db db1"
      using funding.settle_exact [OF assms(2,3)] settle r by simp
    obtain tr db2 where adj: "adjust_token (bs_relayInfo b) ?d db1 = (tr, db2)" by fastforce
    have final: "tr = Inr ()" "db' = db2" "bs_funding b' = f1" "bs_settled b'"
      using assms(5) False open_b settle r adj by (auto simp: session_Settle_def Let_def on_funding_def split: if_splits)
    have "outcome (adjust_token (bs_relayInfo b) ?d db1) (\<lambda>_ s. if token_exempt (bs_relayInfo b) then s = db1
        else token_moved db1 (ri_TokenId (bs_relayInfo b)) (- ?d) s) (\<lambda>_. True)"
      by (auto simp: adjust_token_def intro!: outcome_mono [OF quota_specs(3)] outcome_mono [OF quota_specs(4)])
    then have moved: "if token_exempt (bs_relayInfo b) then db2 = db1 else token_moved db1 (ri_TokenId (bs_relayInfo b)) (- ?d) db2"
      using adj final(1) by simp
    have "funding_charge f1 db2 = funding_charge f1 db1"
      using moved funding_charge_tokens [of db1 db2] by (auto simp: token_moved_def split: if_splits)
    moreover have "token_funds db2 (ri_TokenId (bs_relayInfo b)) = token_funds db (ri_TokenId (bs_relayInfo b)) -
        (if token_exempt (bs_relayInfo b) then 0 else ?d)"
      using moved funding assms(4) by (auto simp: token_moved_def token_frame_def split: if_splits)
    ultimately show ?thesis using funding final done_b by simp
  qed
qed

text \<open>C3: A settlement that succeeds charges the funding source, and the token unless it is exempt, exactly
  the difference between the actual quota and what was pre-consumed; the session is then settled,
  and further settlements and refunds of it change nothing.\<close>

theorem session_settle_exact:
  assumes "session_live b" and "funding_ready (bs_funding b) db"
    and "funding_fits (bs_funding b) db (actual - bs_preConsumedQuota b)"
    and "has_token db (ri_TokenId (bs_relayInfo b))"
    and "session_Settle actual (b, db) = (Inr (), (b', db'))"
  shows "funding_charge (bs_funding b') db' = funding_charge (bs_funding b) db + (actual - bs_preConsumedQuota b)
    \<and> token_funds db' (ri_TokenId (bs_relayInfo b)) = token_funds db (ri_TokenId (bs_relayInfo b)) -
        (if token_exempt (bs_relayInfo b) then 0 else actual - bs_preConsumedQuota b)
    \<and> session_Settle again (b', db') = (Inr (), (b', db')) \<and> session_Refund (b', db') = (b', db') \<and> \<not> NeedsRefund b'"
  using settle_ok_session [OF session_live_ok [OF assms(1)] assms(2-5)] .

definition example_split :: split_funding where
  "example_split = \<lparr>sp_subscription = \<lparr>sf_requestId = ''req'', sf_userId = 5, sf_amount = 300, sf_subscriptionId = 4,
     sf_preConsumed = 170, sf_AmountTotal = 200, sf_AmountUsedAfter = 200\<rparr>,
     sp_wallet = \<lparr>wf_userId = 5, wf_consumed = 130\<rparr>, sp_subPostDelta = 0\<rparr>"

lemma example_session_rows:
  "bs_funding example_session = SplitFunding example_split"
  "db_subs example_open_db = [(4, example_sub 4 200 200), (3, example_sub 3 100 80)]"
  "db_records example_open_db = [(''req'', \<lparr>pr_UserId = 5, pr_UserSubscriptionId = 4, pr_PreConsumed = 170, pr_Status = ''consumed''\<rparr>)]"
  "has_user example_open_db 5" "TrimSpace ''req'' \<noteq> []"
  by code_simp+

lemma example_session_books:
  "funding_ready (bs_funding example_session) example_open_db"
  "funding_fits (bs_funding example_session) example_open_db (280 - 300)"
  "funding_backed (bs_funding example_session) example_open_db"
proof -
  have "subs_ok example_open_db"
    by (simp add: subs_ok_def example_session_rows gwf_def example_sub_def sub_ok_def)
  then show "funding_ready (bs_funding example_session) example_open_db"
    by (simp add: example_session_rows split_ready_def sub_ready_def wallet_ready_def example_split_def)
  show "funding_fits (bs_funding example_session) example_open_db (280 - 300)"
    by (simp add: example_session_rows split_fits_def sub_fits_def example_split_def)
  show "funding_backed (bs_funding example_session) example_open_db"
    by (simp add: example_session_rows split_backed_def sub_backed_def refundable_def example_split_def example_sub_def)
qed

theorem session_settle_exact_witness:
  "\<exists>b db. session_Settle 280 (example_session, example_open_db) = (Inr (), (b, db))
     \<and> funding_charge (bs_funding b) db = 200 - 890 \<and> token_funds db 9 = 520 \<and> session_Refund (b, db) = (b, db)"
proof -
  obtain r b db where e: "session_Settle 280 (example_session, example_open_db) = (r, (b, db))"
    by (cases "session_Settle 280 (example_session, example_open_db)") auto
  have "fst (session_Settle 280 (example_session, example_open_db)) = Inr ()" by code_simp
  then have "session_Settle 280 (example_session, example_open_db) = (Inr (), (b, db))" using e by simp
  with session_settle_exact [OF example_session_live example_session_books(1) _ _ this, of 0] show ?thesis
    using example_session_books(2) by (simp add: example_session_values)
qed

text \<open>The books still contain what the session holds, the part reserved later included.\<close>

definition session_backed :: "billing_session \<Rightarrow> billing_db \<Rightarrow> bool" where
  "session_backed b db \<longleftrightarrow> funding_backed (bs_funding b) db \<and>
     (case bs_funding b of
        SubscriptionFunding f \<Rightarrow> 0 < bs_extraReserved b \<longrightarrow> sf_preConsumed f + bs_extraReserved b \<le> sub_used db (sf_subscriptionId f)
          \<and> has_sub db (sf_subscriptionId f) \<and> sub_used db (sf_subscriptionId f) < 2 ^ 63
      | _ \<Rightarrow> True)"

lemma refund_extra_run:
  assumes "sub_ready f db" and "sub_backed f db" and "db_faults db = []" and "0 < n"
    and "sf_preConsumed f + n \<le> sub_used db (sf_subscriptionId f)" and "has_sub db (sf_subscriptionId f)"
    and "sub_used db (sf_subscriptionId f) < 2 ^ 63"
  shows "\<exists>db1 db2. subscription_Refund (f, db) = (Inr (), (f, db1))
    \<and> PostConsumeUserSubscriptionDelta db1 (sf_subscriptionId f) (- n) = (Inr (), db2)
    \<and> sub_used db2 (sf_subscriptionId f) = sub_used db (sf_subscriptionId f) - sf_preConsumed f - n
    \<and> subs_only db db2 \<and> db_faults db2 = []"
proof -
  let ?k = "sf_subscriptionId f"
  have r: "subs_ok db" "0 < ?k" "0 \<le> sf_preConsumed f" using assms(1) by (auto simp: sub_ready_def)
  obtain s where s: "map_of (db_subs db) ?k = Some s" "sub_used db ?k = us_AmountUsed s"
    using assms(6) by (auto simp: has_sub_def sub_used_def)
  obtain db1 where one: "subscription_Refund (f, db) = (Inr (), (f, db1))" "subs_only db db1" "db_faults db1 = []"
    "map_of (db_subs db1) ?k = Some (s\<lparr>us_AmountUsed := us_AmountUsed s - sf_preConsumed f\<rparr>)"
    using subscription_Refund_run [OF assms(3,2) r(3)] s(1) by auto
  let ?t = "s\<lparr>us_AmountUsed := us_AmountUsed s - sf_preConsumed f\<rparr>"
  let ?db = "db1\<lparr>db_subs := gput ?k (?t\<lparr>us_AmountUsed := us_AmountUsed ?t - n\<rparr>) (db_subs db1)\<rparr>"
  have "PostConsumeUserSubscriptionDelta db1 ?k (- n) = (Inr (), ?db)"
    using subs_okD [OF r(1) s(1)] s(2) assms(4,5,7) r
    by (intro PostConsumeUserSubscriptionDelta_return [OF one(3) r(2) one(4)]) (auto simp: sub_ok_def)
  moreover have "subs_only db ?db" by (rule subs_only_trans [OF one(2)]) (simp add: subs_only_def)
  moreover have "sub_used ?db ?k = sub_used db ?k - sf_preConsumed f - n"
    using s(2) by (simp add: sub_used_def go_map_simps)
  ultimately show ?thesis using one by auto
qed

lemma refund_marked:
  "refund_reserved (b\<lparr>bs_refunded := True\<rparr>) db = refund_reserved b db"
  by (simp add: refund_reserved_def Let_def)

text \<open>The funding half of a refund: what the source holds and what a subscription reserved later.\<close>

lemma refund_funding_run:
  assumes ok: "session_ok b" and ready: "funding_ready (bs_funding b) db" and backed: "session_backed b db"
    and faults: "db_faults db = []"
  shows "\<exists>db1 db2. funding_Refund (bs_funding b, db) = (Inr (), (bs_funding b, db1)) \<and> refund_reserved b db1 = db2
    \<and> funding_charge (bs_funding b) db2 = funding_charge (bs_funding b) db - bs_preConsumedQuota b
    \<and> token_frame db db2 \<and> db_faults db2 = []"
proof -
  have held: "funding_held (bs_funding b) + subscription_extra b = bs_preConsumedQuota b" and extra: "0 \<le> bs_extraReserved b"
    using ok by (simp_all add: session_ok_def)
  obtain db1 where one: "funding_Refund (bs_funding b, db) = (Inr (), (bs_funding b, db1))"
    "funding_charge (bs_funding b) db1 = funding_charge (bs_funding b) db - funding_held (bs_funding b)" "token_frame db db1" "db_faults db1 = []"
    using funding.refund_law [OF ready _ faults] backed by (auto simp: session_backed_def)
  show ?thesis
  proof (cases "\<exists>f. bs_funding b = SubscriptionFunding f \<and> 0 < bs_extraReserved b")
    case True
    then obtain f where f: "bs_funding b = SubscriptionFunding f" "0 < bs_extraReserved b" by auto
    have info: "ri_SubscriptionId (bs_relayInfo b) = sf_subscriptionId f" using ok f by (simp add: session_ok_def)
    have "0 < sf_subscriptionId f" using ready f by (simp add: sub_ready_def)
    moreover obtain db1' db2 where "subscription_Refund (f, db) = (Inr (), (f, db1'))"
      "PostConsumeUserSubscriptionDelta db1' (sf_subscriptionId f) (- bs_extraReserved b) = (Inr (), db2)"
      "sub_used db2 (sf_subscriptionId f) = sub_used db (sf_subscriptionId f) - sf_preConsumed f - bs_extraReserved b"
      "subs_only db db2" "db_faults db2 = []"
      using refund_extra_run [of f db "bs_extraReserved b"] ready backed faults f by (auto simp: session_backed_def)
    ultimately show ?thesis
      using held f info
      by (auto simp: funding_Refund_def lift_funding_def refund_reserved_def Let_def Source_def sub_charge_def subscription_extra_def intro: token_frame_intros)
  next
    case False
    then have "\<not> (bs_extraReserved b > 0 \<and> Source (bs_funding b) = BillingSourceSubscription \<and> ri_SubscriptionId (bs_relayInfo b) > 0)"
      by (auto simp: Source_def BillingSourceWallet_def BillingSourceSubscription_def BillingSourceSubscriptionWallet_def
          split: funding_source.splits)
    moreover have "subscription_extra b = 0" using False extra by (auto simp: subscription_extra_def split: funding_source.split)
    ultimately show ?thesis using one held by (auto simp: refund_reserved_def Let_def)
  qed
qed

lemma refund_ok_session:
  assumes ok: "session_ok b" and "NeedsRefund b" and "funding_ready (bs_funding b) db" and "session_backed b db"
    and "db_faults db = []" and "has_token db (ri_TokenId (bs_relayInfo b))"
  shows "\<exists>b' db'. session_Refund (b, db) = (b', db')
    \<and> funding_charge (bs_funding b) db' = funding_charge (bs_funding b) db - bs_preConsumedQuota b
    \<and> token_funds db' (ri_TokenId (bs_relayInfo b)) = token_funds db (ri_TokenId (bs_relayInfo b)) + bs_tokenConsumed b
    \<and> session_Refund (b', later) = (b', later) \<and> \<not> NeedsRefund b'"
proof -
  let ?i = "bs_relayInfo b"
  obtain db1 db2 where run: "funding_Refund (bs_funding b, db) = (Inr (), (bs_funding b, db1))"
    "refund_reserved b db1 = db2"
    "funding_charge (bs_funding b) db2 = funding_charge (bs_funding b) db - bs_preConsumedQuota b"
    "token_frame db db2" "db_faults db2 = []"
    using refund_funding_run [OF ok assms(3-5)] by blast
  have "0 \<le> bs_tokenConsumed b" using ok by (simp add: session_ok_def)
  then obtain db3 where inc: "IncreaseTokenQuota db2 (ri_TokenId ?i) (bs_tokenConsumed b) = (Inr (), db3)"
    using no_fault_updates(3) [OF run(5), of "bs_tokenConsumed b" "ri_TokenId ?i"] by blast
  have moved: "token_moved db2 (ri_TokenId ?i) (bs_tokenConsumed b) db3" using outcomeD [OF quota_specs(3) inc] by simp
  let ?db = "if bs_tokenConsumed b > 0 \<and> \<not> token_exempt ?i then db3 else db2"
  have refund: "session_Refund (b, db) = (b\<lparr>bs_refunded := True\<rparr>, ?db)"
  proof -
    have "\<not> (bs_settled b \<or> bs_refunded b \<or> \<not> needsRefundLocked b)"
      using ok assms(2) by (simp add: session_ok_def NeedsRefund_def)
    moreover have "on_funding funding_Refund (b\<lparr>bs_refunded := True\<rparr>, db) = (Inr (), (b\<lparr>bs_refunded := True\<rparr>, db1))"
      using run(1) by (simp add: on_funding_def)
    ultimately show ?thesis
      using inc run(2) refund_marked [of b] by (simp add: session_Refund_def Let_def refund_token_def)
  qed
  have "funding_charge (bs_funding b) ?db = funding_charge (bs_funding b) db2"
    using funding_charge_tokens moved by (auto simp: token_moved_def)
  moreover have "token_funds ?db (ri_TokenId ?i) = token_funds db (ri_TokenId ?i) + bs_tokenConsumed b"
    using moved run(4) assms(6) ok by (auto simp: token_moved_def token_frame_def session_ok_def)
  ultimately show ?thesis
    using refund run(3) by (auto simp: session_Refund_def NeedsRefund_def needsRefundLocked_def)
qed

text \<open>C8: A refund that is due returns everything: when no query fails and the books still contain what the
  session holds, the funding source gets back exactly the pre-consumed quota and the token what was
  taken from it, and refunding again changes nothing.\<close>

theorem session_refund_exact:
  assumes "session_live b" and "NeedsRefund b" and "funding_ready (bs_funding b) db" and "session_backed b db"
    and "db_faults db = []" and "has_token db (ri_TokenId (bs_relayInfo b))"
  shows "\<exists>b' db'. session_Refund (b, db) = (b', db')
    \<and> funding_charge (bs_funding b) db' = funding_charge (bs_funding b) db - bs_preConsumedQuota b
    \<and> token_funds db' (ri_TokenId (bs_relayInfo b)) = token_funds db (ri_TokenId (bs_relayInfo b)) + bs_tokenConsumed b
    \<and> session_Refund (b', later) = (b', later) \<and> \<not> NeedsRefund b'"
  using refund_ok_session [OF session_live_ok [OF assms(1)] assms(2-6)] .

theorem session_refund_exact_witness:
  "\<exists>b db. session_Refund (example_session, example_open_db) = (b, db)
     \<and> funding_charge (bs_funding example_session) db = 30 - 1000 \<and> token_funds db 9 = 800"
proof -
  have "NeedsRefund example_session" by code_simp
  moreover have "session_backed example_session example_open_db"
    using example_session_books(3) by (simp add: session_backed_def example_session_rows(1))
  ultimately show ?thesis
    using session_refund_exact [OF example_session_live _ example_session_books(1), of example_open_db]
    by (auto simp: example_session_values)
qed

section \<open>Two refunds that go wrong\<close>

text \<open>C40: A playground or channel-test request that was paid from the wallet is never refunded: such a
  session has no token quota to return and \<^verbatim>\<open>needsRefundLocked\<close> looks at nothing else for a wallet, so
  \<^verbatim>\<open>Refund\<close> does nothing although the pre-consumed quota was taken from the user.\<close>

theorem exempt_wallet_never_refunded:
  assumes "db_faults db = []" and "has_user db (ri_UserId info)" and "token_exempt info"
    and "NormalizeBillingPreference (ri_BillingPreference info) = ''wallet_only''"
    and "rd_user rd = Inr q" and "0 < n" and "n \<le> q" and "q \<le> trust"
  shows "\<exists>b i db'. NewBillingSession off now trust rd n (info, db) = (Inr b, (i, db'))
    \<and> user_funds db' (ri_UserId info) = user_funds db (ri_UserId info) - n
    \<and> \<not> NeedsRefund b \<and> session_Refund (b, db') = (b, db')"
proof -
  let ?u = "ri_UserId info"
  let ?i = "info\<lparr>ri_UserQuota := q\<rparr>" and ?w = "\<lparr>wf_userId = ?u, wf_consumed = 0\<rparr>"
  let ?b = "new_session ?i (WalletFunding ?w)"
  obtain db' where dec: "DecreaseUserQuota db ?u n = (Inr (), db')"
    using no_fault_updates(2) [OF assms(1), of n ?u] assms(6) by auto
  have moved: "user_moved db ?u (- n) db'" using outcomeD [OF quota_specs(2) dec] by simp
  have exempt: "token_exempt ?i" using assms(3) by (simp add: token_exempt_def)
  have trust: "\<not> shouldTrust trust rd ?b" using assms(8) by (simp add: shouldTrust_def new_session_def)
  have token: "consume_token rd n (?b, db) = (Inr (), (?b, db))"
    using assms(6) exempt
    by (simp add: consume_token_def PreConsumeTokenQuota_def on_db_def with_code_def new_session_def)
  have funding: "consume_funding off now rd n (?b, db) = (Inr (), (?b\<lparr>bs_funding := WalletFunding (?w\<lparr>wf_consumed := n\<rparr>)\<rparr>, db'))"
    using assms(6) dec
    by (simp add: consume_funding_def on_funding_def funding_PreConsume_def lift_funding_def wallet_PreConsume_def on_db_def new_session_def)
  let ?s = "syncRelayInfo (?b\<lparr>bs_funding := WalletFunding (?w\<lparr>wf_consumed := n\<rparr>), bs_preConsumedQuota := n\<rparr>)"
  have "NewBillingSession off now trust rd n (info, db) = (Inr ?s, (bs_relayInfo ?s, db'))"
    using assms(4-7) trust token funding
    by (simp add: NewBillingSession_def tryWallet_def open_session_def preConsume_def Let_def)
  moreover have "\<not> NeedsRefund ?s" by (simp add: NeedsRefund_def needsRefundLocked_def new_session_def)
  moreover have "session_Refund (?s, db') = (?s, db')"
    using \<open>\<not> NeedsRefund ?s\<close> by (simp add: session_Refund_def NeedsRefund_def)
  moreover have "user_funds db' ?u = user_funds db ?u - n" using user_movedD(1) [OF moved assms(2)] by simp
  ultimately show ?thesis by blast
qed

theorem exempt_wallet_never_refunded_witness:
  "\<exists>b i db'. NewBillingSession 0 1500 5000 example_reads 300
       (example_info\<lparr>ri_IsPlayground := True, ri_BillingPreference := ''wallet_only''\<rparr>, example_db) = (Inr b, (i, db'))
     \<and> user_funds db' 5 = 700 \<and> session_Refund (b, db') = (b, db')"
proof -
  have "NormalizeBillingPreference ''wallet_only'' = ''wallet_only''" "has_user example_db 5" "user_funds example_db 5 = 1000"
    by code_simp+
  then show ?thesis
    using exempt_wallet_never_refunded [of example_db "example_info\<lparr>ri_IsPlayground := True, ri_BillingPreference := ''wallet_only''\<rparr>"
        example_reads 1000 300 5000 0 1500]
    by (auto simp: example_info_def example_reads_def token_exempt_def)
qed

text \<open>A refund can be paid twice: the subtraction from the subscription commits in a transaction of its
  own, so when saving the record then fails once, the retry subtracts the pre-consumed amount again
  and reports success.\<close>

lemma refund_retry_pays_twice:
  assumes "db_faults db = [False, False, False, False, True]" and "refundable db requestId k n"
    and "2 * n \<le> sub_used db k"
  shows "\<exists>db'. refundWithRetry 3 (\<lambda>db. RefundSubscriptionPreConsume db requestId) db = (Inr (), db')
    \<and> sub_used db' k = sub_used db k - 2 * n"
proof -
  obtain r s where r: "map_of (db_records db) requestId = Some r" "pr_Status r \<noteq> ''refunded''"
      "pr_UserSubscriptionId r = k" "pr_PreConsumed r = n"
    and s: "map_of (db_subs db) k = Some s" "us_Id s = k" "n \<le> us_AmountUsed s" "us_AmountUsed s < 2 ^ 63"
      "0 < us_AmountTotal s \<longrightarrow> us_AmountUsed s \<le> us_AmountTotal s"
    and guards: "TrimSpace requestId \<noteq> []" "0 < k" "0 < n"
    using assms(2) by (auto simp: refundable_def)
  have used: "sub_used db k = us_AmountUsed s" using s(1) by (simp add: sub_used_def)
  let ?s = "s\<lparr>us_AmountUsed := us_AmountUsed s - n\<rparr>"
  let ?db = "db\<lparr>db_subs := gput k ?s (db_subs db), db_faults := []\<rparr>"
  have "i64 (us_AmountUsed s - n) = us_AmountUsed s - n" using s guards by (intro i64_id) (simp add: in_i64_def)
  then have "PostConsumeUserSubscriptionDelta (db\<lparr>db_faults := [False, False, False, True]\<rparr>) k (- n) =
      (Inr (), db\<lparr>db_subs := gput k ?s (db_subs db), db_faults := [True]\<rparr>)"
    using s guards
    by (auto simp: PostConsumeUserSubscriptionDelta_def transaction_def find_sub_def save_sub_def db_query_def Let_def)
  then have first: "RefundSubscriptionPreConsume db requestId = (Inl DbError, ?db)"
    using r guards assms(1)
    by (simp add: RefundSubscriptionPreConsume_def transaction_def save_record_def db_query_def)
  have "refundable ?db requestId k n"
    using r s guards assms(3) used by (auto simp: refundable_def go_map_simps)
  then obtain db' where second: "RefundSubscriptionPreConsume ?db requestId = (Inr (), db')"
    "db_subs db' = gput k (?s\<lparr>us_AmountUsed := us_AmountUsed ?s - n\<rparr>) (db_subs ?db)"
    using RefundSubscriptionPreConsume_run [of ?db requestId k n] by (auto simp: go_map_simps)
  have "sub_used db' k = sub_used db k - 2 * n" using used by (simp add: second(2) sub_used_def go_map_simps)
  moreover have "refundWithRetry 3 (\<lambda>db. RefundSubscriptionPreConsume db requestId) db = (Inr (), db')"
    using first second(1) by (simp add: numeral_3_eq_3)
  ultimately show ?thesis by blast
qed

lemma refund_retry_pays_twice_witness:
  "\<exists>db'. refundWithRetry 3 (\<lambda>db. RefundSubscriptionPreConsume db ''req'')
       (example_consumed\<lparr>db_faults := [False, False, False, False, True]\<rparr>
        \<lparr>db_subs := gput 4 (example_sub 4 200 130) (db_subs example_consumed)\<rparr>) = (Inr (), db') \<and> sub_used db' 4 = 30"
proof -
  have "map_of (db_records example_consumed) ''req'' = Some \<lparr>pr_UserId = 5, pr_UserSubscriptionId = 4, pr_PreConsumed = 50,
      pr_Status = ''consumed''\<rparr>" "TrimSpace ''req'' \<noteq> []" by code_simp+
  then show ?thesis
    using refund_retry_pays_twice [of "example_consumed\<lparr>db_faults := [False, False, False, False, True]\<rparr>
        \<lparr>db_subs := gput 4 (example_sub 4 200 130) (db_subs example_consumed)\<rparr>" "''req''" 4 50]
    by (simp add: refundable_def go_map_simps sub_used_def example_sub_def)
qed

end
