(* ===== verification/Session_Failures.thy ===== *)
theory Session_Failures
  imports Session_Properties
begin

text \<open>
  What a session that could not be opened leaves behind. When no query fails a run meets no failing
  query anywhere (\<open>calm\<close>), so every roll-back takes place and the user and the token have what they
  had before.
\<close>

section \<open>Quiet runs\<close>

definition calm :: "(billing_error + 'a) \<times> billing_db \<Rightarrow> bool" where
  "calm x \<longleftrightarrow> db_faults (snd x) = []"

lemma calm_bnd: "calm x \<Longrightarrow> (\<And>a s. db_faults s = [] \<Longrightarrow> calm (f a s)) \<Longrightarrow> calm (bnd x f)"
  by (auto simp: calm_def bnd_def split: prod.splits sum.splits)

lemma calm_query: "db_faults db = [] \<Longrightarrow> calm (db_query db)"
  by (simp add: calm_def db_query_def)

lemma calm_transaction: "calm (body db) \<Longrightarrow> calm (transaction db body)"
  by (auto simp: calm_def transaction_def db_query_def split: prod.splits sum.splits list.splits)

lemma calm_rows:
  assumes "db_faults db = []"
  shows "calm (save_sub db s)" "calm (find_sub db k)" "calm (getSubscriptionPlanByIdTx db k)" "calm (save_record db q r)"
  using assms
  by (auto simp: calm_def save_sub_def find_sub_def getSubscriptionPlanByIdTx_def save_record_def db_query_def)

lemma calm_reset: "db_faults db = [] \<Longrightarrow> calm (maybeResetUserSubscriptionWithPlanTx off db sub plan now)"
  by (auto simp: maybeResetUserSubscriptionWithPlanTx_def Let_def calm_def save_sub_def db_query_def split: option.split)

lemma calm_select_full: "db_faults db = [] \<Longrightarrow> calm (select_full off now amount subs db)"
  by (induction subs arbitrary: db) (auto simp: calm_def [of "(_, _)"] intro!: calm_bnd calm_rows calm_reset)

lemma calm_select_partial: "db_faults db = [] \<Longrightarrow> calm (select_partial off now amount subs best db)"
  by (induction subs arbitrary: db best) (auto simp: calm_def [of "(_, _)"] Let_def intro!: calm_bnd calm_rows calm_reset)

lemma calm_existing: "db_faults db = [] \<Longrightarrow> calm (existing_result db r)"
  by (auto simp: existing_result_def calm_def [of "(_, _)"] intro!: calm_bnd calm_rows)

lemma calm_consume_selected: "db_faults db = [] \<Longrightarrow> calm (consume_selected db requestId userId sub n)"
  by (auto simp: consume_selected_def db_query_def Let_def calm_def [of "(_, _)"] intro!: calm_bnd calm_rows calm_existing
      split: option.split)

lemma calm_preconsume_with:
  "db_faults db = [] \<Longrightarrow> (\<And>db. db_faults db = [] \<Longrightarrow> calm (fresh db)) \<Longrightarrow> calm (preconsume_with fresh db requestId userId amount)"
  by (auto simp: preconsume_with_def calm_def [of "(_, _)"] intro!: calm_transaction calm_bnd calm_query calm_existing split: option.split)

lemma calm_preconsume:
  assumes "db_faults db = []"
  shows "calm (PreConsumeUserSubscription off now db requestId userId n)"
    "calm (PreConsumeUserSubscriptionPartial off now db requestId userId n)"
  unfolding PreConsumeUserSubscription_def PreConsumeUserSubscriptionPartial_def
  by (auto simp: db_query_def calm_def [of "(_, _)"] assms intro!: calm_preconsume_with calm_bnd calm_select_full
      calm_select_partial calm_consume_selected split: option.split)

lemma calm_post: "db_faults db = [] \<Longrightarrow> calm (PostConsumeUserSubscriptionDelta db k d)"
  by (auto simp: PostConsumeUserSubscriptionDelta_def calm_def [of "(_, _)"] Let_def intro!: calm_transaction calm_bnd calm_rows)

lemma calm_refund: "db_faults db = [] \<Longrightarrow> calm (RefundSubscriptionPreConsume db requestId)"
  by (auto simp: RefundSubscriptionPreConsume_def calm_def [of "(_, _)"] intro!: calm_bnd calm_query calm_transaction calm_rows calm_post
      split: option.split)

lemma calm_retry:
  "db_faults db = [] \<Longrightarrow> (\<And>db. db_faults db = [] \<Longrightarrow> calm (fn db)) \<Longrightarrow> calm (refundWithRetry n fn db)"
proof (induction n fn db rule: refundWithRetry.induct)
  case (2 n fn db)
  obtain r db' where e: "fn db = (r, db')" by fastforce
  have "db_faults db' = []" using "2.prems" e by (metis calm_def snd_conv)
  then show ?case using "2.IH" "2.prems"(2) e by (cases r) (auto simp: calm_def)
qed (simp add: calm_def)

section \<open>Failed openings\<close>

definition restored :: "billing_db \<Rightarrow> billing_db \<Rightarrow> bool" where
  "restored db db' \<longleftrightarrow> user_funds db' = user_funds db \<and> token_funds db' = token_funds db \<and> has_token db' = has_token db
     \<and> subs_ok db' \<and> db_faults db' = []"

lemma restored_refl: "subs_ok db \<Longrightarrow> db_faults db = [] \<Longrightarrow> restored db db"
  by (simp add: restored_def)

lemma restored_trans: "restored a b \<Longrightarrow> restored b c \<Longrightarrow> restored a c"
  by (simp add: restored_def)

lemma restored_subs: "subs_only db db' \<Longrightarrow> subs_ok db' \<Longrightarrow> db_faults db' = [] \<Longrightarrow> restored db db'"
  by (simp add: restored_def subs_only_same)

lemma restored_unchanged: "unchanged db db' \<Longrightarrow> subs_ok db \<Longrightarrow> db_faults db' = [] \<Longrightarrow> restored db db'"
  by (simp add: restored_def unchanged_same subs_ok_unchanged)

lemma outcome_calm: "outcome x Q E \<Longrightarrow> calm x \<Longrightarrow> outcome x (\<lambda>a s. Q a s \<and> db_faults s = []) (\<lambda>s. E s \<and> db_faults s = [])"
  by (auto simp: outcome_def calm_def split: prod.splits sum.splits)

lemma refund_keeps_funds:
  assumes "subs_ok db" and "db_faults db = []"
  shows "restored db (snd (snd (subscription_Refund (f, db))))"
proof -
  have one: "restored db1 (snd (RefundSubscriptionPreConsume db1 q))" if "subs_ok db1" "db_faults db1 = []" for db1 q
    unfolding outcome_snd [symmetric]
    by (rule outcome_mono [OF outcome_calm [OF RefundSubscriptionPreConsume_ok [OF that(1)] calm_refund [OF that(2)]]])
      (auto intro: restored_subs)
  have "restored db1 (snd (refundWithRetry n (\<lambda>db. RefundSubscriptionPreConsume db q) db1))" if "subs_ok db1" "db_faults db1 = []" for db1 n q
    using that
  proof (induction n arbitrary: db1)
    case (Suc n)
    obtain r db2 where e: "RefundSubscriptionPreConsume db1 q = (r, db2)" by fastforce
    have db2: "restored db1 db2" using one [OF Suc.prems, of q] e by simp
    then have "restored db2 (snd (refundWithRetry n (\<lambda>db. RefundSubscriptionPreConsume db q) db2))"
      using Suc.IH by (simp add: restored_def)
    with db2 e show ?case by (cases r) (auto intro: restored_trans)
  qed (simp add: restored_refl)
  then show ?thesis using assms restored_refl by (auto simp: subscription_Refund_def on_db_def case_prod_unfold)
qed

lemma wallet_PreConsume_runs:
  "db_faults db = [] \<Longrightarrow> outcome (wallet_PreConsume m (w, db)) (\<lambda>_ _. True) (\<lambda>_. False)"
  using no_fault_updates(2) [of db m "wf_userId w"] by (auto simp: wallet_PreConsume_def on_db_def)

lemma abort_restores: "restored db (snd s) \<Longrightarrow> restored db (snd (snd (on_subscription subscription_Refund s)))"
  using refund_keeps_funds [of "snd s" "sp_subscription (fst s)"] restored_trans [of db "snd s"]
  by (simp add: on_subscription_def case_prod_unfold restored_def)

lemma cover_rest_fails:
  assumes "restored db (snd s)"
  shows "outcome (cover_rest read s) (\<lambda>_ _. True) (\<lambda>(_, db'). restored db db')"
proof -
  have runs: "outcome (on_wallet (wallet_PreConsume r) s) (\<lambda>_ _. True) (\<lambda>_. False)" for r
    using wallet_PreConsume_runs [of "snd s"] assms by (auto simp: outcome_on_wallet restored_def case_prod_unfold)
  have "outcome (case on_wallet (wallet_PreConsume r) s of (Inl e, s) \<Rightarrow> abort_split e s | (Inr _, s) \<Rightarrow> (Inr (), s))
      (\<lambda>_ _. True) (\<lambda>(_, db'). restored db db')" for r
    using runs [of r] by (cases "on_wallet (wallet_PreConsume r) s"; cases "fst (on_wallet (wallet_PreConsume r) s)") auto
  then show ?thesis
    using abort_restores [OF assms]
    by (auto simp: cover_rest_def abort_split_def [of _ s] Let_def case_prod_unfold split: sum.split)
qed

lemma subscription_PreConsume_fails:
  assumes "subs_ok db" and "db_faults db = []"
  shows "outcome (subscription_PreConsume off now n (s, db)) (\<lambda>_ _. True) (\<lambda>(_, db'). restored db db')"
    "outcome (PreConsumePartial off now (s, db)) (\<lambda>_ (_, db'). restored db db') (\<lambda>(_, db'). restored db db')"
  unfolding subscription_PreConsume_def PreConsumePartial_def
  by (auto simp: outcome_on_db preconsumed_def intro: restored_unchanged restored_subs assms
      intro!: outcome_mono [OF outcome_calm [OF PreConsumeUserSubscriptionPartial_spec [OF assms(1)] calm_preconsume(2) [OF assms(2)]]]
        outcome_mono [OF outcome_calm [OF PreConsumeUserSubscription_spec [OF assms(1)] calm_preconsume(1) [OF assms(2)]]])

lemma split_PreConsume_fails:
  assumes "subs_ok db" and "db_faults db = []"
  shows "outcome (split_PreConsume off now read n (s, db)) (\<lambda>_ _. True) (\<lambda>(_, db'). restored db db')"
  unfolding split_PreConsume_def outcome_simps outcome_on_subscription fst_conv snd_conv
  by (rule outcome_mono [OF subscription_PreConsume_fails(2) [OF assms]]) (auto intro!: cover_rest_fails)

lemma funding_PreConsume_fails:
  assumes "subs_ok db" and "db_faults db = []"
  shows "outcome (funding_PreConsume off now read n (f, db)) (\<lambda>_ _. True) (\<lambda>(_, db'). restored db db')"
  using outcome_mono [OF wallet_PreConsume_runs [OF assms(2)]] subscription_PreConsume_fails(1) [OF assms] split_PreConsume_fails [OF assms]
  by (cases f) (auto simp: funding_PreConsume_def outcome_lift case_prod_unfold)

text \<open>
  The state before the funding step of an attempt: the token has paid \<open>bs_tokenConsumed\<close>, and
  returning it leads back to \<open>db\<close>.
\<close>

definition token_paid :: "billing_db \<Rightarrow> billing_session \<Rightarrow> billing_db \<Rightarrow> bool" where
  "token_paid db b db' \<longleftrightarrow> subs_ok db' \<and> db_faults db' = [] \<and> user_funds db' = user_funds db \<and> has_token db' = has_token db
     \<and> has_token db (ri_TokenId (bs_relayInfo b)) \<and> 0 \<le> bs_tokenConsumed b
     \<and> (token_exempt (bs_relayInfo b) \<longrightarrow> bs_tokenConsumed b = 0)
     \<and> token_funds db' = (token_funds db)(ri_TokenId (bs_relayInfo b) :=
         token_funds db (ri_TokenId (bs_relayInfo b)) - bs_tokenConsumed b)"

lemma rollback_restores:
  assumes "token_paid db b db'"
  shows "restored db (snd (rollback_token (b, db')))"
proof (cases "bs_tokenConsumed b > 0 \<and> \<not> token_exempt (bs_relayInfo b)")
  case True
  let ?t = "ri_TokenId (bs_relayInfo b)"
  obtain db'' where inc: "IncreaseTokenQuota db' ?t (bs_tokenConsumed b) = (Inr (), db'')" "db_faults db'' = []"
    using no_fault_updates(3) [of db' "bs_tokenConsumed b" ?t] assms by (auto simp: token_paid_def)
  then have moved: "token_moved db' ?t (bs_tokenConsumed b) db''" using outcomeD [OF quota_specs(3)] by blast
  then have "subs_ok db''" using subs_ok_frames(2) assms by (auto simp: token_paid_def)
  with True inc moved assms show ?thesis
    by (auto simp: rollback_token_def restored_def token_paid_def token_moved_def tokens_only_same)
next
  case False
  with assms show ?thesis by (auto simp: rollback_token_def restored_def token_paid_def)
qed

lemma tokens_only_ok: "tokens_only db db' \<Longrightarrow> subs_ok db \<Longrightarrow> subs_ok db'"
  using subs_ok_cong [of db' db] by (simp add: tokens_only_same)

lemma calm_token: "db_faults db = [] \<Longrightarrow> calm (PreConsumeTokenQuota read info db n)"
  using no_fault_updates(4) [of db n "ri_TokenId info"]
  by (auto simp: PreConsumeTokenQuota_def calm_def split: sum.split)

lemma consume_token_pays:
  assumes "subs_ok db" and "db_faults db = []" and "has_token db (ri_TokenId (bs_relayInfo b))" and "bs_tokenConsumed b = 0"
  shows "outcome (consume_token rd n (b, db)) (\<lambda>_ (b', db'). token_paid db b' db') (\<lambda>(_, db'). restored db db')"
proof -
  have "outcome (PreConsumeTokenQuota read (bs_relayInfo b) db n) (\<lambda>_ db'. token_paid db
      (if token_exempt (bs_relayInfo b) then b else b\<lparr>bs_tokenConsumed := n\<rparr>) db') (restored db)" for read
    by (rule outcome_mono [OF outcome_calm [OF PreConsumeTokenQuota_spec calm_token [OF assms(2)]]])
      (use assms in \<open>auto simp: token_paid_def token_moved_def tokens_only_same restored_unchanged intro: tokens_only_ok\<close>)
  then show ?thesis using assms
    by (auto simp: consume_token_def outcome_with_code outcome_on_db token_paid_def [of db b db])
qed

lemma consume_funding_fails:
  assumes "token_paid db b db'"
  shows "outcome (consume_funding off now rd n (b, db')) (\<lambda>_ _. True) (\<lambda>(_, db''). restored db db'')"
proof -
  obtain r f db1 where e: "funding_PreConsume off now (rd_split rd) n (bs_funding b, db') = (r, f, db1)"
    by (cases "funding_PreConsume off now (rd_split rd) n (bs_funding b, db')") auto
  show ?thesis
  proof (cases r)
    case (Inl err)
    then have "restored db' db1"
      using funding_PreConsume_fails [of db' off now "rd_split rd" n "bs_funding b"] assms e by (simp add: token_paid_def)
    then have "token_paid db (b\<lparr>bs_funding := f\<rparr>) db1" using assms by (simp add: token_paid_def restored_def)
    from rollback_restores [OF this] show ?thesis
      using e Inl by (simp add: consume_funding_def on_funding_def case_prod_unfold)
  qed (use e in \<open>simp add: consume_funding_def on_funding_def\<close>)
qed

lemma preConsume_fails:
  assumes "subs_ok db" and "db_faults db = []" and "has_token db (ri_TokenId (bs_relayInfo b))" and "bs_tokenConsumed b = 0"
  shows "outcome (preConsume off now trust rd n (b, db)) (\<lambda>_ _. True) (\<lambda>(_, db'). restored db db')"
proof -
  have steps: "outcome (bnd (consume_token rd q (b1, db)) (\<lambda>_. consume_funding off now rd q)) (\<lambda>_ _. True) (\<lambda>(_, db'). restored db db')"
    if "bs_relayInfo b1 = bs_relayInfo b" "bs_tokenConsumed b1 = 0" for q b1
    unfolding outcome_simps
    by (rule outcome_mono [OF consume_token_pays]) (use assms that in \<open>auto intro!: consume_funding_fails\<close>)
  show ?thesis
    using steps [of "b\<lparr>bs_trusted := True\<rparr>" 0] steps [of b n] assms(4)
    by (auto simp: preConsume_def Let_def case_prod_unfold elim!: outcome_mono)
qed

lemma open_session_fails:
  assumes "subs_ok (snd s)" and "db_faults (snd s) = []" and "has_token (snd s) (ri_TokenId (fst s))"
  shows "outcome (open_session (preConsume off now trust rd) f n s) (\<lambda>_ _. True) (\<lambda>(_, db'). restored (snd s) db')"
  using preConsume_fails [of "snd s" "new_session (fst s) f" off now trust rd n] assms
  by (auto simp: open_session_def new_session_def outcome_def split: prod.splits sum.splits)

definition attempt_fails :: "session_attempt \<Rightarrow> bool" where
  "attempt_fails attempt \<longleftrightarrow> (\<forall>s. subs_ok (snd s) \<longrightarrow> db_faults (snd s) = [] \<longrightarrow> has_token (snd s) (ri_TokenId (fst s)) \<longrightarrow>
     outcome (attempt s) (\<lambda>_ _. True) (\<lambda>(i, db'). restored (snd s) db' \<and> ri_TokenId i = ri_TokenId (fst s)))"

lemma attempt_failsD:
  "attempt_fails a \<Longrightarrow> subs_ok db \<Longrightarrow> db_faults db = [] \<Longrightarrow> has_token db (ri_TokenId i) \<Longrightarrow>
     outcome (a (i, db)) (\<lambda>_ _. True) (\<lambda>(j, db'). restored db db' \<and> ri_TokenId j = ri_TokenId i)"
  by (simp add: attempt_fails_def)

lemma outcome_both: "outcome x Q E \<Longrightarrow> outcome x Q' E' \<Longrightarrow> outcome x (\<lambda>a s. Q a s \<and> Q' a s) (\<lambda>s. E s \<and> E' s)"
  by (auto simp: outcome_def split: prod.splits sum.splits)

definition info_kept :: "billing_session \<Rightarrow> billing_session \<times> billing_db \<Rightarrow> bool" where
  "info_kept b s \<longleftrightarrow> ri_TokenId (bs_relayInfo (fst s)) = ri_TokenId (bs_relayInfo b)"

lemma consume_token_info: "outcome (consume_token rd q (b, db)) (\<lambda>_. info_kept b) (info_kept b)"
  by (auto simp: consume_token_def outcome_with_code outcome_on_db info_kept_def intro!: outcome_mono [OF PreConsumeTokenQuota_spec])

lemma consume_funding_info: "outcome (consume_funding off now rd q s) (\<lambda>_. info_kept (fst s)) (info_kept (fst s))"
  by (cases "funding_PreConsume off now (rd_split rd) q (bs_funding (fst s), snd s)"; cases "fst (funding_PreConsume off now (rd_split rd) q (bs_funding (fst s), snd s))")
    (auto simp: consume_funding_def on_funding_def info_kept_def rollback_token_def)

lemma preConsume_info: "outcome (preConsume off now trust rd n (b, db)) (\<lambda>_. info_kept b) (info_kept b)"
proof -
  have steps: "outcome (bnd (consume_token rd q (b1, db)) (\<lambda>_. consume_funding off now rd q)) (\<lambda>_. info_kept b) (info_kept b)"
    if "bs_relayInfo b1 = bs_relayInfo b" for q b1
    unfolding outcome_simps
    by (rule outcome_mono [OF consume_token_info], rule outcome_mono [OF consume_funding_info])
      (use that in \<open>auto simp: info_kept_def\<close>)
  show ?thesis
    using steps [of "b\<lparr>bs_trusted := True\<rparr>" 0] steps [of b n]
    by (auto simp: preConsume_def Let_def case_prod_unfold info_kept_def elim!: outcome_mono)
qed

lemma open_session_attempt: "attempt_fails (open_session (preConsume off now trust rd) f n)"
  unfolding attempt_fails_def
proof (intro allI impI)
  fix s :: "relay_info \<times> billing_db"
  assume "subs_ok (snd s)" "db_faults (snd s) = []" "has_token (snd s) (ri_TokenId (fst s))"
  then have "outcome (preConsume off now trust rd n (new_session (fst s) f, snd s)) (\<lambda>_ _. True) (\<lambda>(_, db'). restored (snd s) db')"
    by (intro preConsume_fails) (simp_all add: new_session_def)
  from outcome_both [OF this preConsume_info]
  show "outcome (open_session (preConsume off now trust rd) f n s) (\<lambda>_ _. True)
      (\<lambda>(i, db'). restored (snd s) db' \<and> ri_TokenId i = ri_TokenId (fst s))"
    by (cases "preConsume off now trust rd n (new_session (fst s) f, snd s)"; cases "fst (preConsume off now trust rd n (new_session (fst s) f, snd s))")
      (auto simp: open_session_def info_kept_def new_session_def)
qed

lemma try_attempts:
  "attempt_fails (tryWallet (preConsume off now trust rd) rd n)"
  "attempt_fails (trySubscription (preConsume off now trust rd) n)"
  "attempt_fails (trySubscriptionFirst (preConsume off now trust rd) n)"
  using attempt_failsD [OF open_session_attempt [of off now trust rd]]
    attempt_failsD [OF open_session_attempt [of off now trust rd], of db "i\<lparr>ri_UserQuota := q\<rparr>" for db i q]
  by (auto simp: attempt_fails_def tryWallet_def trySubscription_def trySubscriptionFirst_def Let_def restored_refl
      simp del: outcome_simps split: sum.split) (auto simp: restored_refl)

lemma if_insufficient_attempt:
  assumes "attempt_fails a" and "attempt_fails b"
  shows "attempt_fails (\<lambda>s. if_insufficient (a s) b)"
  unfolding attempt_fails_def
proof (intro allI impI)
  fix s :: "relay_info \<times> billing_db"
  assume ok: "subs_ok (snd s)" "db_faults (snd s) = []" "has_token (snd s) (ri_TokenId (fst s))"
  obtain r i db1 where e: "a s = (r, i, db1)" by (cases "a s") auto
  show "outcome (if_insufficient (a s) b) (\<lambda>_ _. True) (\<lambda>(i, db'). restored (snd s) db' \<and> ri_TokenId i = ri_TokenId (fst s))"
  proof (cases r)
    case (Inl err)
    have one: "restored (snd s) db1" "ri_TokenId i = ri_TokenId (fst s)"
      using attempt_failsD [OF assms(1) ok] e Inl by simp_all
    then have two: "outcome (b (i, db1)) (\<lambda>_ _. True) (\<lambda>(j, db'). restored db1 db' \<and> ri_TokenId j = ri_TokenId i)"
      using ok by (intro attempt_failsD [OF assms(2)]) (simp_all add: restored_def)
    have "outcome (b (i, db1)) (\<lambda>_ _. True) (\<lambda>(j, db'). restored (snd s) db' \<and> ri_TokenId j = ri_TokenId (fst s))"
      by (rule outcome_mono [OF two]) (use one restored_trans in auto)
    with e Inl one show ?thesis by (cases err) (simp add: if_insufficient_def)
  qed (use e in \<open>simp add: if_insufficient_def\<close>)
qed

lemma NewBillingSession_attempt: "attempt_fails (NewBillingSession off now trust rd n)"
  unfolding attempt_fails_def
proof (intro allI impI)
  fix s :: "relay_info \<times> billing_db"
  assume ok: "subs_ok (snd s)" "db_faults (snd s) = []" "has_token (snd s) (ri_TokenId (fst s))"
  let ?E = "\<lambda>(i, db'). restored (snd s) db' \<and> ri_TokenId i = ri_TokenId (fst s)"
  let ?c = "preConsume off now trust rd"
  obtain r db1 where has: "HasActiveUserSubscription now (snd s) (ri_UserId (fst s)) = (r, db1)" by fastforce
  have "calm (HasActiveUserSubscription now (snd s) (ri_UserId (fst s)))"
    using ok(2) by (auto simp: HasActiveUserSubscription_def calm_def db_query_def)
  then have db1: "restored (snd s) db1"
    using HasActive_unchanged [of "snd s" now "ri_UserId (fst s)"] has ok(1) by (auto simp: calm_def intro: restored_unchanged)
  have on: "outcome (a (fst s, db)) (\<lambda>_ _. True) ?E" if "attempt_fails a" "restored (snd s) db" for a db
    by (rule outcome_mono [OF attempt_failsD [OF that(1)]]) (use that ok restored_trans in \<open>auto simp: restored_def\<close>)
  have here: "outcome (a s) (\<lambda>_ _. True) ?E" if "attempt_fails a" for a
    using on [OF that restored_refl] ok by simp
  have choose: "outcome (if c then x else y) (\<lambda>_ _. True) ?E" if "outcome x (\<lambda>_ _. True) ?E" "outcome y (\<lambda>_ _. True) ?E" for c x y
    using that by simp
  show "outcome (NewBillingSession off now trust rd n s) (\<lambda>_ _. True) ?E"
    unfolding NewBillingSession_def Let_def has
  proof (intro choose)
    show "outcome (trySubscription ?c n s) (\<lambda>_ _. True) ?E" "outcome (tryWallet ?c rd n s) (\<lambda>_ _. True) ?E"
      using here try_attempts by blast+
    show "outcome (if_insufficient (tryWallet ?c rd n s) (trySubscription ?c n)) (\<lambda>_ _. True) ?E"
      by (rule here [OF if_insufficient_attempt [OF try_attempts(1,2)]])
    have "outcome (if_insufficient (trySubscriptionFirst ?c n (fst s, db1)) (tryWallet ?c rd n)) (\<lambda>_ _. True) ?E"
      by (rule on [OF if_insufficient_attempt [OF try_attempts(3,1)] db1])
    then show "outcome (case (r, db1) of (Inl e, db) \<Rightarrow> (Inl (QueryDataError, e), (fst s, db))
        | (Inr False, db) \<Rightarrow> tryWallet ?c rd n (fst s, db)
        | (Inr True, db) \<Rightarrow> if_insufficient (trySubscriptionFirst ?c n (fst s, db)) (tryWallet ?c rd n)) (\<lambda>_ _. True) ?E"
      using on [OF try_attempts(1) db1] db1 by (cases r) (auto split: bool.split)
  qed
qed



section \<open>Paying from the wallet\<close>

lemma wallet_PreConsume_pays:
  assumes "has_user db (wf_userId w)" and "0 \<le> n" and "wf_consumed w = 0"
  shows "outcome (wallet_PreConsume n (w, db)) (\<lambda>_ (w', db'). w' = w\<lparr>wf_consumed := n\<rparr> \<and> users_only db db'
      \<and> user_funds db' (wf_userId w) = user_funds db (wf_userId w) - n) (\<lambda>_. True)"
  using assms
  by (auto simp: wallet_PreConsume_def outcome_on_db user_moved_def users_only_def intro!: outcome_mono [OF quota_specs(2)])

text \<open>After the token step and after both steps of paying \<open>q\<close> from the wallet \<open>w\<close>.\<close>

definition paid_token :: "wallet_funding \<Rightarrow> relay_info \<Rightarrow> billing_db \<Rightarrow> int \<Rightarrow> billing_session \<times> billing_db \<Rightarrow> bool" where
  "paid_token w info db q s \<longleftrightarrow> bs_funding (fst s) = WalletFunding w \<and> bs_relayInfo (fst s) = info
     \<and> user_funds (snd s) = user_funds db \<and> has_user (snd s) = has_user db \<and> has_token (snd s) = has_token db
     \<and> token_funds (snd s) (ri_TokenId info) = token_funds db (ri_TokenId info) - (if token_exempt info then 0 else q)"

definition paid_both :: "wallet_funding \<Rightarrow> relay_info \<Rightarrow> billing_db \<Rightarrow> int \<Rightarrow> billing_session \<times> billing_db \<Rightarrow> bool" where
  "paid_both w info db q s \<longleftrightarrow> bs_funding (fst s) = WalletFunding (w\<lparr>wf_consumed := q\<rparr>)
     \<and> token_exempt (bs_relayInfo (fst s)) = token_exempt info \<and> ri_TokenId (bs_relayInfo (fst s)) = ri_TokenId info
     \<and> user_funds (snd s) (wf_userId w) = user_funds db (wf_userId w) - q \<and> has_user (snd s) = has_user db \<and> has_token (snd s) = has_token db
     \<and> token_funds (snd s) (ri_TokenId info) = token_funds db (ri_TokenId info) - (if token_exempt info then 0 else q)"

lemma paid_token_step:
  assumes "0 \<le> q" and "bs_relayInfo b = info" and "bs_funding b = WalletFunding w" and "has_token db (ri_TokenId info)"
  shows "outcome (consume_token rd q (b, db)) (\<lambda>_. paid_token w info db q) (\<lambda>_. True)"
  using assms
  by (auto simp: consume_token_def outcome_with_code outcome_on_db token_moved_def tokens_only_same paid_token_def
      intro!: outcome_mono [OF PreConsumeTokenQuota_spec])

lemma paid_funding_step:
  assumes "0 \<le> q" and "paid_token w info db q s" and "has_user db (wf_userId w)" and "wf_consumed w = 0"
  shows "outcome (consume_funding off now rd q s) (\<lambda>_. paid_both w info db q) (\<lambda>_. True)"
  using assms
  by (auto simp: consume_funding_def outcome_or_abort outcome_on_funding funding_PreConsume_def outcome_lift
      paid_token_def paid_both_def users_only_same intro!: outcome_mono [OF wallet_PreConsume_pays])

lemma wallet_open_pays:
  assumes "has_user db (wf_userId w)" and "has_token db (ri_TokenId info)" and "0 \<le> n" and "wf_consumed w = 0"
  shows "outcome (preConsume off now trust rd n (new_session info (WalletFunding w), db))
    (\<lambda>_ (b, db'). paid_both w info db (bs_preConsumedQuota b) (b, db')) (\<lambda>_. True)"
proof -
  have steps: "outcome (bnd (bnd (consume_token rd q (b, db)) (\<lambda>_. consume_funding off now rd q)) (\<lambda>_ (b, db).
       (Inr (), (syncRelayInfo (b\<lparr>bs_preConsumedQuota := q\<rparr>), db))))
     (\<lambda>_ (b, db'). paid_both w info db (bs_preConsumedQuota b) (b, db')) (\<lambda>_. True)"
    if q: "0 \<le> q" and b: "bs_relayInfo b = info" "bs_funding b = WalletFunding w" for q b
    unfolding outcome_simps
    by (rule outcome_mono [OF paid_token_step [OF q b assms(2)]], rule outcome_mono [OF paid_funding_step [OF q _ assms(1,4)]])
      (auto simp: paid_both_def)
  show ?thesis
    using steps [of 0 "(new_session info (WalletFunding w))\<lparr>bs_trusted := True\<rparr>"] steps [of n "new_session info (WalletFunding w)"] assms(3)
    by (simp add: preConsume_def Let_def new_session_def del: outcome_simps)
qed

text \<open>A session that \<^verbatim>\<open>NewBillingSession\<close> opened for the preference \<^verbatim>\<open>wallet_only\<close>.\<close>

lemma wallet_only_opened:
  assumes "NormalizeBillingPreference (ri_BillingPreference info) = ''wallet_only''" and "0 \<le> n"
    and "has_user db (ri_UserId info)" and "has_token db (ri_TokenId info)"
    and "NewBillingSession off now trust rd n (info, db) = (Inr b, (i, db1))"
  shows "\<exists>w. wf_userId w = ri_UserId info \<and> paid_both w info db (bs_preConsumedQuota b) (b, db1)"
proof -
  have "tryWallet (preConsume off now trust rd) rd n (info, db) = (Inr b, (i, db1))"
    using assms(1,5) by (simp add: NewBillingSession_def Let_def)
  then obtain q where "open_session (preConsume off now trust rd) (WalletFunding \<lparr>wf_userId = ri_UserId info, wf_consumed = 0\<rparr>) n
      (info\<lparr>ri_UserQuota := q\<rparr>, db) = (Inr b, (i, db1))"
    by (auto simp: tryWallet_def split: sum.splits if_splits)
  then have "preConsume off now trust rd n (new_session (info\<lparr>ri_UserQuota := q\<rparr>)
      (WalletFunding \<lparr>wf_userId = ri_UserId info, wf_consumed = 0\<rparr>), db) = (Inr (), (b, db1))"
    by (auto simp: open_session_def split: prod.splits sum.splits)
  from outcomeD [OF wallet_open_pays this] assms(2-4)
  have "paid_both \<lparr>wf_userId = ri_UserId info, wf_consumed = 0\<rparr> (info\<lparr>ri_UserQuota := q\<rparr>) db (bs_preConsumedQuota b) (b, db1)"
    by simp
  then show ?thesis
    by (intro exI [of _ "\<lparr>wf_userId = ri_UserId info, wf_consumed = 0\<rparr>"]) (simp add: paid_both_def token_exempt_def)
qed

lemma unneeded_refund:
  assumes "session_ok b" and "\<not> token_exempt (bs_relayInfo b)" and "\<not> NeedsRefund b"
  shows "bs_preConsumedQuota b = 0 \<and> session_Refund (b, db) = (b, db)"
  using assms by (auto simp: session_ok_def NeedsRefund_def needsRefundLocked_def session_Refund_def split: if_splits)

lemma wallet_Settle_shape: "wallet_Settle d (w\<lparr>wf_consumed := c\<rparr>, db) = (r, (w', db')) \<Longrightarrow> \<exists>c. w' = w\<lparr>wf_consumed := c\<rparr>"
  by (auto simp: wallet_Settle_def on_db_def bnd_def Let_def split: if_splits prod.splits sum.splits)

lemma wallet_session_settles:
  assumes "session_Settle actual (b, db) = (Inr (), (b', db'))" and "bs_funding b = WalletFunding (w\<lparr>wf_consumed := c\<rparr>)" and "session_ok b"
  shows "\<exists>c. bs_funding b' = WalletFunding (w\<lparr>wf_consumed := c\<rparr>)"
proof (cases "actual = bs_preConsumedQuota b")
  case True
  then show ?thesis using assms by (auto simp: session_Settle_def session_ok_def)
next
  case False
  let ?d = "actual - bs_preConsumedQuota b"
  obtain r w1 db1 where e: "wallet_Settle ?d (w\<lparr>wf_consumed := c\<rparr>, db) = (r, (w1, db1))"
    by (cases "wallet_Settle ?d (w\<lparr>wf_consumed := c\<rparr>, db)") auto
  then obtain c1 where "w1 = w\<lparr>wf_consumed := c1\<rparr>" using wallet_Settle_shape by blast
  moreover have "bs_funding b' = WalletFunding w1"
    using assms False e
    by (cases r) (auto simp: session_Settle_def Let_def on_funding_def funding_Settle_def lift_funding_def session_ok_def
        split: prod.splits if_splits)
  ultimately show ?thesis by blast
qed

end
