(* ===== verification/Task_Billing.thy ===== *)
theory Task_Billing
  imports Session_Failures Float64
begin

text \<open>
  Settlement outside the life of a billing session: \<^verbatim>\<open>service/billing.go\<close>, the older quota path of
  \<^verbatim>\<open>service/quota.go\<close> and \<^verbatim>\<open>service/pre_consume_quota.go\<close>, and the billing of asynchronous tasks
  (\<^verbatim>\<open>service/task_billing.go\<close>, the billing part of \<^verbatim>\<open>service/task_polling.go\<close>, the task table of
  \<^verbatim>\<open>model/task.go\<close> and the submission in \<^verbatim>\<open>controller/relay.go\<close>).

  An asynchronous task is paid for when it is submitted; a poller later learns how it ended and
  returns or adjusts the quota. Several pollers may run at once, each with copies of rows it has read
  earlier, so a transition to a final status is guarded by the status the copy was read with.

  The keys of tokens (read only to invalidate a cache), the ratios of the settings and what an adaptor
  parsed from a response are arguments. Log lines and usage statistics are the list of effects.
\<close>

section \<open>Settling a request\<close>

text \<open>The notifications \<^verbatim>\<open>checkAndSendQuotaNotify\<close> change no books and are left out.\<close>

definition PostConsumeQuota :: "int \<Rightarrow> relay_info \<times> billing_db \<Rightarrow> (billing_error + unit) \<times> relay_info \<times> billing_db" where
  "PostConsumeQuota quota s =
     bnd (if ri_BillingSource (fst s) = BillingSourceSubscription then
            if ri_SubscriptionId (fst s) = 0 then (Inl SubscriptionIdMissing, s)
            else if quota \<noteq> 0 then
              bnd (on_db (\<lambda>db. PostConsumeUserSubscriptionDelta db (ri_SubscriptionId (fst s)) quota) s) (\<lambda>_ (info, db).
                (Inr (), (info\<lparr>ri_SubscriptionPostDelta := ri_SubscriptionPostDelta info + quota\<rparr>, db)))
            else (Inr (), s)
          else if quota > 0 then on_db (\<lambda>db. DecreaseUserQuota db (ri_UserId (fst s)) quota) s
          else on_db (\<lambda>db. IncreaseUserQuota db (ri_UserId (fst s)) (- quota)) s)
       (\<lambda>_ s. on_db (adjust_token (fst s) quota) s)"

text \<open>A request has a billing session, which shares its relay info, or it has none.\<close>

datatype billed_request = WithSession billing_session | WithoutSession relay_info

definition request_info :: "billed_request \<Rightarrow> relay_info" where
  "request_info r = (case r of WithSession b \<Rightarrow> bs_relayInfo b | WithoutSession info \<Rightarrow> info)"

definition PreConsumeBilling ::
  "int \<Rightarrow> int \<Rightarrow> int \<Rightarrow> session_reads \<Rightarrow> int \<Rightarrow> relay_info \<times> billing_db \<Rightarrow> (api_error + unit) \<times> billed_request \<times> billing_db" where
  "PreConsumeBilling off now trustQuota rd preConsumedQuota s =
     (case NewBillingSession off now trustQuota rd preConsumedQuota s of
        (Inl e, (info, db)) \<Rightarrow> (Inl e, (WithoutSession info, db))
      | (Inr b, (info, db)) \<Rightarrow> (Inr (), (WithSession b, db)))"

definition SettleBilling ::
  "int \<Rightarrow> billed_request \<times> billing_db \<Rightarrow> (billing_error + unit) \<times> billed_request \<times> billing_db" where
  "SettleBilling actualQuota s =
     (case fst s of
        WithSession b \<Rightarrow> (case session_Settle actualQuota (b, snd s) of (r, b, db) \<Rightarrow> (r, (WithSession b, db)))
      | WithoutSession info \<Rightarrow>
          let quotaDelta = actualQuota - ri_FinalPreConsumedQuota info in
          if quotaDelta \<noteq> 0
          then (case PostConsumeQuota quotaDelta (info, snd s) of (r, info, db) \<Rightarrow> (r, (WithoutSession info, db)))
          else (Inr (), s))"

subsection \<open>The older pre-consume path\<close>

text \<open>
  \<open>cooldowns\<close> is the map of tokens that were refused for lack of quota, with the end of their
  cooldown; \<open>read\<close> is the user's quota as \<^verbatim>\<open>GetUserQuota\<close> returns it, \<open>remain\<close> the token's.
\<close>

definition insufficientUserQuotaTokenCooldown :: int where
  "insufficientUserQuotaTokenCooldown = 30 * Second"

type_synonym cooldowns = "(int, int) gomap"

definition markInsufficientUserQuotaTokenCooldown :: "int \<Rightarrow> relay_info \<Rightarrow> cooldowns \<Rightarrow> cooldowns" where
  "markInsufficientUserQuotaTokenCooldown now info cooldowns =
     (if ri_TokenId info \<le> 0 then cooldowns
      else gput (ri_TokenId info) (now + insufficientUserQuotaTokenCooldown) cooldowns)"

definition clearInsufficientUserQuotaTokenCooldown :: "relay_info \<Rightarrow> cooldowns \<Rightarrow> cooldowns" where
  "clearInsufficientUserQuotaTokenCooldown info cooldowns =
     (if ri_TokenId info \<le> 0 then cooldowns else gdel (ri_TokenId info) cooldowns)"

definition cooling :: "int \<Rightarrow> relay_info \<Rightarrow> cooldowns \<Rightarrow> bool" where
  "cooling now info cooldowns =
     (ri_TokenId info > 0 \<and> (case map_of cooldowns (ri_TokenId info) of None \<Rightarrow> False | Some until \<Rightarrow> until > now))"

definition trusted_quota :: "int \<Rightarrow> int \<Rightarrow> int \<Rightarrow> relay_info \<Rightarrow> int \<Rightarrow> int" where
  "trusted_quota trustQuota userQuota tokenQuota info preConsumedQuota =
     (if userQuota > trustQuota then
        if \<not> ri_TokenUnlimited info then if tokenQuota > trustQuota then 0 else preConsumedQuota
        else 0
      else preConsumedQuota)"

definition PreConsumeQuota ::
  "int \<Rightarrow> int \<Rightarrow> billing_error + int \<Rightarrow> billing_error + int \<Rightarrow> int \<Rightarrow> int \<Rightarrow> cooldowns \<Rightarrow> relay_info \<times> billing_db
   \<Rightarrow> cooldowns \<times> (api_error + unit) \<times> relay_info \<times> billing_db" where
  "PreConsumeQuota now trustQuota read remain tokenQuota preConsumedQuota cooldowns s =
     (let info = fst s in
      if cooling now info cooldowns then (cooldowns, Inl (InsufficientUserQuota, UserQuotaInsufficient), s)
      else
        let cooldowns = (if ri_TokenId info > 0 then gdel (ri_TokenId info) cooldowns else cooldowns) in
        case read of
          Inl e \<Rightarrow> (cooldowns, Inl (QueryDataError, e), s)
        | Inr userQuota \<Rightarrow>
            if userQuota \<le> 0 \<or> userQuota - preConsumedQuota < 0
            then (markInsufficientUserQuotaTokenCooldown now info cooldowns,
                  Inl (InsufficientUserQuota, UserQuotaInsufficient), s)
            else
              let cooldowns = clearInsufficientUserQuotaTokenCooldown info cooldowns;
                  info = info\<lparr>ri_UserQuota := userQuota\<rparr>;
                  quota = trusted_quota trustQuota userQuota tokenQuota info preConsumedQuota
              in (cooldowns,
                  bnd (if quota > 0 then
                         bnd (with_code PreConsumeTokenQuotaFailed (on_db (\<lambda>db. PreConsumeTokenQuota remain info db quota) (info, snd s)))
                           (\<lambda>_ s. with_code UpdateDataError (on_db (\<lambda>db. DecreaseUserQuota db (ri_UserId info) quota) s))
                       else (Inr (), (info, snd s)))
                    (\<lambda>_ (info, db). (Inr (), (info\<lparr>ri_FinalPreConsumedQuota := quota\<rparr>, db)))))"

text \<open>The refund runs on a copy of the relay info, in the background; an error is logged.\<close>

definition ReturnPreConsumedQuota :: "relay_info \<Rightarrow> billing_db \<Rightarrow> billing_db" where
  "ReturnPreConsumedQuota info db =
     (if ri_FinalPreConsumedQuota info \<noteq> 0
      then snd (snd (PostConsumeQuota (- ri_FinalPreConsumedQuota info) (info, db))) else db)"

section \<open>Tasks\<close>

record billing_context =
  bc_OtherRatios :: "(string, f64) gomap"
  bc_OriginModelName :: string
  bc_PerCallBilling :: bool
  bc_BillingPreference :: string

record task =
  ta_ID :: int
  ta_TaskID :: string
  ta_UserId :: int
  ta_Group :: string
  ta_ChannelId :: int
  ta_Quota :: int
  ta_Status :: string
  ta_FailReason :: string
  ta_SubmitTime :: int
  ta_StartTime :: int
  ta_FinishTime :: int
  ta_Progress :: string
  ta_OriginModelName :: string
  ta_ResultURL :: string
  ta_BillingSource :: string
  ta_SubscriptionId :: int
  ta_SubscriptionQuota :: int
  ta_WalletQuota :: int
  ta_TokenId :: int
  ta_BillingContext :: "billing_context option"
  ta_Data :: string

definition TaskStatusNotStart :: string where "TaskStatusNotStart = ''NOT_START''"
definition TaskStatusSubmitted :: string where "TaskStatusSubmitted = ''SUBMITTED''"
definition TaskStatusQueued :: string where "TaskStatusQueued = ''QUEUED''"
definition TaskStatusInProgress :: string where "TaskStatusInProgress = ''IN_PROGRESS''"
definition TaskStatusFailure :: string where "TaskStatusFailure = ''FAILURE''"
definition TaskStatusSuccess :: string where "TaskStatusSuccess = ''SUCCESS''"

datatype log_type = LogTypeConsume | LogTypeRefund

datatype task_effect =
    TaskLog log_type int int string
  | UserUsed int int
  | ChannelUsed int int

type_synonym task_method = "task \<times> billing_db \<Rightarrow> (billing_error + unit) \<times> task \<times> billing_db"

subsection \<open>Funding\<close>

definition taskIsSubscription :: "task \<Rightarrow> bool" where
  "taskIsSubscription t = (ta_BillingSource t = BillingSourceSubscription \<and> ta_SubscriptionId t > 0)"

definition taskIsSubscriptionWallet :: "task \<Rightarrow> bool" where
  "taskIsSubscriptionWallet t = (ta_BillingSource t = BillingSourceSubscriptionWallet \<and> ta_SubscriptionId t > 0)"

definition taskUsesSubscriptionFirst :: "task \<Rightarrow> bool" where
  "taskUsesSubscriptionFirst t =
     (case ta_BillingContext t of None \<Rightarrow> False | Some bc \<Rightarrow> TrimSpace (bc_BillingPreference bc) = ''subscription_first'')"

definition taskUpdateSplitBillingSource :: "task \<Rightarrow> task" where
  "taskUpdateSplitBillingSource t =
     (if ta_SubscriptionId t \<le> 0 then t
      else if ta_WalletQuota t > 0 then t\<lparr>ta_BillingSource := BillingSourceSubscriptionWallet\<rparr>
      else t\<lparr>ta_BillingSource := BillingSourceSubscription\<rparr>)"

definition not_below_zero :: "int \<Rightarrow> int" where
  "not_below_zero n = (if n < 0 then 0 else n)"

definition refund_split_rest :: "int \<Rightarrow> task_method" where
  "refund_split_rest refund s =
     bnd (if refund > 0 then
            if ta_SubscriptionId (fst s) \<le> 0 then (Inl SubscriptionIdMissing, s)
            else bnd (on_db (\<lambda>db. PostConsumeUserSubscriptionDelta db (ta_SubscriptionId (fst s)) (- refund)) s) (\<lambda>_ (t, db).
              (Inr (), (t\<lparr>ta_SubscriptionQuota := not_below_zero (ta_SubscriptionQuota t - refund)\<rparr>, db)))
          else (Inr (), s))
       (\<lambda>_ (t, db). (Inr (), (taskUpdateSplitBillingSource t, db)))"

definition taskRefundSplitFunding :: "int \<Rightarrow> task_method" where
  "taskRefundSplitFunding amount s =
     (if amount \<le> 0 then (Inr (), s)
      else let wallet = ta_WalletQuota (fst s);
               walletRefund = (if wallet > 0 then if amount > wallet then wallet else amount else 0)
      in bnd (if walletRefund > 0
              then bnd (on_db (\<lambda>db. IncreaseUserQuota db (ta_UserId (fst s)) walletRefund) s) (\<lambda>_ (t, db).
                (Inr (), (t\<lparr>ta_WalletQuota := ta_WalletQuota t - walletRefund\<rparr>, db)))
              else (Inr (), s))
           (\<lambda>_. refund_split_rest (amount - walletRefund)))"

definition charge_split_rest :: "int \<Rightarrow> int \<Rightarrow> task_method" where
  "charge_split_rest delta subConsumed s =
     bnd (let remaining = delta - subConsumed in
          if remaining > 0 then
            (case on_db (\<lambda>db. DecreaseUserQuota db (ta_UserId (fst s)) remaining) s of
               (Inl e, s) \<Rightarrow>
                 (Inl e, if subConsumed > 0
                         then snd (on_db (\<lambda>db. PostConsumeUserSubscriptionDelta db (ta_SubscriptionId (fst s)) (- subConsumed)) s)
                         else s)
             | (Inr _, (t, db)) \<Rightarrow> (Inr (), (t\<lparr>ta_WalletQuota := ta_WalletQuota t + remaining\<rparr>, db)))
          else (Inr (), s))
       (\<lambda>_ (t, db). (Inr (), (taskUpdateSplitBillingSource
          (t\<lparr>ta_SubscriptionQuota := ta_SubscriptionQuota t + subConsumed\<rparr>), db)))"

definition taskAdjustSplitFunding :: "int \<Rightarrow> task_method" where
  "taskAdjustSplitFunding delta s =
     (if delta < 0 then taskRefundSplitFunding (- delta) s
      else bnd (if ta_SubscriptionId (fst s) > 0
                then on_db (\<lambda>db. PostConsumeUserSubscriptionDeltaAvailable db (ta_SubscriptionId (fst s)) delta) s
                else (Inr 0, s))
             (\<lambda>subConsumed. charge_split_rest delta subConsumed))"

definition taskAdjustFunding :: "int \<Rightarrow> task_method" where
  "taskAdjustFunding delta s =
     (let t = fst s in
      if delta = 0 then (Inr (), s)
      else if taskIsSubscriptionWallet t \<or> taskIsSubscription t \<and> taskUsesSubscriptionFirst t
        then taskAdjustSplitFunding delta s
      else if taskIsSubscription t then
        bnd (on_db (\<lambda>db. PostConsumeUserSubscriptionDelta db (ta_SubscriptionId t) delta) s) (\<lambda>_ (t, db).
          (Inr (), (t\<lparr>ta_SubscriptionQuota := not_below_zero (ta_SubscriptionQuota t + delta)\<rparr>, db)))
      else if delta > 0 then
        bnd (on_db (\<lambda>db. DecreaseUserQuota db (ta_UserId t) delta) s) (\<lambda>_ (t, db).
          (Inr (), (t\<lparr>ta_WalletQuota := ta_WalletQuota t + delta\<rparr>, db)))
      else
        bnd (on_db (\<lambda>db. IncreaseUserQuota db (ta_UserId t) (- delta)) s) (\<lambda>_ (t, db).
          (Inr (), (t\<lparr>ta_WalletQuota := not_below_zero (ta_WalletQuota t - (- delta))\<rparr>, db))))"

subsection \<open>Token\<close>

text \<open>\<open>keys\<close> is the key column of the token table.\<close>

definition resolveTokenKey :: "(int \<Rightarrow> string) \<Rightarrow> int \<Rightarrow> billing_db \<Rightarrow> string \<times> billing_db" where
  "resolveTokenKey keys tokenId db =
     (if tokenId = 0 then ([], db)
      else case db_query db of
        (Inl _, db) \<Rightarrow> ([], db)
      | (Inr _, db) \<Rightarrow> (case map_of (db_tokens db) tokenId of None \<Rightarrow> [] | Some _ \<Rightarrow> keys tokenId, db))"

definition taskAdjustTokenQuota :: "(int \<Rightarrow> string) \<Rightarrow> task \<Rightarrow> int \<Rightarrow> billing_db \<Rightarrow> billing_db" where
  "taskAdjustTokenQuota keys t delta db =
     (if ta_TokenId t \<le> 0 \<or> delta = 0 then db
      else case resolveTokenKey keys (ta_TokenId t) db of (tokenKey, db) \<Rightarrow>
        if tokenKey = [] then db
        else snd (if delta > 0 then DecreaseTokenQuota db (ta_TokenId t) delta
                  else IncreaseTokenQuota db (ta_TokenId t) (- delta)))"

definition taskModelName :: "task \<Rightarrow> string" where
  "taskModelName t =
     (case ta_BillingContext t of
        Some bc \<Rightarrow> if bc_OriginModelName bc \<noteq> [] then bc_OriginModelName bc else ta_OriginModelName t
      | None \<Rightarrow> ta_OriginModelName t)"

subsection \<open>Refund and settlement\<close>

definition RefundTaskQuota :: "(int \<Rightarrow> string) \<Rightarrow> task \<times> billing_db \<Rightarrow> task_effect list \<times> task \<times> billing_db" where
  "RefundTaskQuota keys s =
     (let quota = ta_Quota (fst s) in
      if quota = 0 then ([], s)
      else case taskAdjustFunding (- quota) s of
        (Inl _, s) \<Rightarrow> ([], s)
      | (Inr _, (t, db)) \<Rightarrow>
          ([TaskLog LogTypeRefund (ta_UserId t) quota (taskModelName t)],
           (t, taskAdjustTokenQuota keys t (- quota) db)))"

definition RecalculateTaskQuota ::
  "(int \<Rightarrow> string) \<Rightarrow> int \<Rightarrow> task \<times> billing_db \<Rightarrow> task_effect list \<times> task \<times> billing_db" where
  "RecalculateTaskQuota keys actualQuota s =
     (let quotaDelta = actualQuota - ta_Quota (fst s) in
      if actualQuota \<le> 0 then ([], s)
      else if quotaDelta = 0 then ([], s)
      else case taskAdjustFunding quotaDelta s of
        (Inl _, s) \<Rightarrow> ([], s)
      | (Inr _, (t, db)) \<Rightarrow>
          let db = taskAdjustTokenQuota keys t quotaDelta db;
              t = t\<lparr>ta_Quota := actualQuota\<rparr>
          in (if quotaDelta > 0
              then [UserUsed (ta_UserId t) quotaDelta, ChannelUsed (ta_ChannelId t) quotaDelta,
                    TaskLog LogTypeConsume (ta_UserId t) quotaDelta (taskModelName t)]
              else [TaskLog LogTypeRefund (ta_UserId t) (- quotaDelta) (taskModelName t)], (t, db)))"

text \<open>The ratios that the settings hold when a task is settled, and the group of its user.\<close>

record task_rates =
  tr_modelRatio :: "string \<Rightarrow> f64 \<times> bool"
  tr_groupRatio :: "string \<Rightarrow> f64"
  tr_groupGroupRatio :: "string \<Rightarrow> string \<Rightarrow> f64 \<times> bool"
  tr_userGroup :: "int \<Rightarrow> billing_error + string"

definition task_group :: "task_rates \<Rightarrow> task \<Rightarrow> string" where
  "task_group rates t =
     (if ta_Group t = [] then case tr_userGroup rates (ta_UserId t) of Inl _ \<Rightarrow> [] | Inr g \<Rightarrow> g else ta_Group t)"

definition other_multiplier :: "task \<Rightarrow> f64" where
  "other_multiplier t =
     (case ta_BillingContext t of
        None \<Rightarrow> 1
      | Some bc \<Rightarrow> foldl (\<lambda>m (_, r). if r \<noteq> 1 \<and> r > 0 then f64_mul m r else m) 1 (bc_OtherRatios bc))"

definition token_quota_of :: "task_rates \<Rightarrow> task \<Rightarrow> int \<Rightarrow> int" where
  "token_quota_of rates t totalTokens =
     (let g = task_group rates t;
          modelRatio = fst (tr_modelRatio rates (taskModelName t));
          finalGroupRatio = (case tr_groupGroupRatio rates g g of (r, has) \<Rightarrow> if has then r else tr_groupRatio rates g)
      in f64_trunc (f64_mul (f64_mul (f64_mul (f64_of_int totalTokens) modelRatio) finalGroupRatio) (other_multiplier t)))"

definition RecalculateTaskQuotaByTokens ::
  "(int \<Rightarrow> string) \<Rightarrow> task_rates \<Rightarrow> int \<Rightarrow> task \<times> billing_db \<Rightarrow> task_effect list \<times> task \<times> billing_db" where
  "RecalculateTaskQuotaByTokens keys rates totalTokens s =
     (if totalTokens \<le> 0 then ([], s)
      else case tr_modelRatio rates (taskModelName (fst s)) of (modelRatio, hasRatioSetting) \<Rightarrow>
        if \<not> hasRatioSetting \<or> modelRatio \<le> 0 then ([], s)
        else if task_group rates (fst s) = [] then ([], s)
        else RecalculateTaskQuota keys (token_quota_of rates (fst s) totalTokens) s)"

subsection \<open>Submission\<close>

text \<open>
  \<^verbatim>\<open>RelayTask\<close> after a successful submission: settle, record, and insert the task with what was charged.
  \<open>blank\<close> is the task \<^verbatim>\<open>InitTask\<close> returns; an error of the settlement is logged and otherwise ignored.
\<close>

definition InitTask :: "int \<Rightarrow> string \<Rightarrow> int \<Rightarrow> string \<Rightarrow> string \<Rightarrow> relay_info \<Rightarrow> task" where
  "InitTask now taskID channelId usingGroup originModelName info =
     \<lparr>ta_ID = 0, ta_TaskID = taskID, ta_UserId = ri_UserId info, ta_Group = usingGroup, ta_ChannelId = channelId,
      ta_Quota = 0, ta_Status = TaskStatusNotStart, ta_FailReason = [], ta_SubmitTime = now, ta_StartTime = 0,
      ta_FinishTime = 0, ta_Progress = ''0%'', ta_OriginModelName = originModelName, ta_ResultURL = [],
      ta_BillingSource = [], ta_SubscriptionId = 0, ta_SubscriptionQuota = 0, ta_WalletQuota = 0, ta_TokenId = 0,
      ta_BillingContext = None, ta_Data = []\<rparr>"

definition submitted_task :: "billing_context \<Rightarrow> relay_info \<Rightarrow> int \<Rightarrow> task \<Rightarrow> task" where
  "submitted_task bc info quota blank =
     blank\<lparr>ta_BillingSource := ri_BillingSource info, ta_SubscriptionId := ri_SubscriptionId info,
       ta_SubscriptionQuota := not_below_zero (ri_SubscriptionPreConsumed info + ri_SubscriptionPostDelta info),
       ta_WalletQuota := ri_WalletConsumed info, ta_TokenId := ri_TokenId info,
       ta_BillingContext := Some (bc\<lparr>bc_BillingPreference := NormalizeBillingPreference (ri_BillingPreference info)\<rparr>),
       ta_Quota := quota\<rparr>"

definition submit_task ::
  "billing_context \<Rightarrow> int \<Rightarrow> task \<Rightarrow> billed_request \<times> billing_db \<Rightarrow> task \<times> billed_request \<times> billing_db" where
  "submit_task bc quota blank s =
     (case SettleBilling quota s of (_, (r, db)) \<Rightarrow> (submitted_task bc (request_info r) quota blank, (r, db)))"

section \<open>The task table\<close>

record task_world =
  tw_tasks :: "(int, task) gomap"
  tw_db :: billing_db
  tw_effects :: "task_effect list"

definition unfinished :: "task \<Rightarrow> bool" where
  "unfinished t \<longleftrightarrow> ta_Progress t \<noteq> ''100%'' \<and> ta_Status t \<noteq> TaskStatusFailure \<and> ta_Status t \<noteq> TaskStatusSuccess"

text \<open>The queries for unfinished tasks return no tasks on an error.\<close>

definition find_tasks :: "(task \<Rightarrow> bool) \<Rightarrow> task_world \<Rightarrow> task list \<times> task_world" where
  "find_tasks P w =
     (case db_query (tw_db w) of
        (Inl _, db) \<Rightarrow> ([], w\<lparr>tw_db := db\<rparr>)
      | (Inr _, db) \<Rightarrow> (filter P (map snd (tw_tasks w)), w\<lparr>tw_db := db\<rparr>))"

definition GetAllUnFinishSyncTasks :: "int \<Rightarrow> task_world \<Rightarrow> task list \<times> task_world" where
  "GetAllUnFinishSyncTasks limit w =
     (case find_tasks unfinished w of (ts, w) \<Rightarrow> (take (nat limit) (SliceStable (\<lambda>a b. ta_ID a < ta_ID b) ts), w))"

definition GetTimedOutUnfinishedTasks :: "int \<Rightarrow> int \<Rightarrow> task_world \<Rightarrow> task list \<times> task_world" where
  "GetTimedOutUnfinishedTasks cutoff limit w =
     (case find_tasks (\<lambda>t. unfinished t \<and> ta_SubmitTime t < cutoff) w of
        (ts, w) \<Rightarrow> (take (nat limit) (SliceStable (\<lambda>a b. ta_SubmitTime a < ta_SubmitTime b) ts), w))"

definition UpdateWithStatus :: "string \<Rightarrow> task \<Rightarrow> task_world \<Rightarrow> (billing_error + bool) \<times> task_world" where
  "UpdateWithStatus fromStatus t w =
     (case db_query (tw_db w) of
        (Inl e, db) \<Rightarrow> (Inl e, w\<lparr>tw_db := db\<rparr>)
      | (Inr _, db) \<Rightarrow>
          (case map_of (tw_tasks w) (ta_ID t) of
             None \<Rightarrow> (Inr False, w\<lparr>tw_db := db\<rparr>)
           | Some row \<Rightarrow>
               if ta_Status row = fromStatus
               then (Inr True, w\<lparr>tw_db := db, tw_tasks := gput (ta_ID t) t (tw_tasks w)\<rparr>)
               else (Inr False, w\<lparr>tw_db := db\<rparr>)))"

definition Update :: "task \<Rightarrow> task_world \<Rightarrow> (billing_error + unit) \<times> task_world" where
  "Update t w =
     (case db_query (tw_db w) of
        (Inl e, db) \<Rightarrow> (Inl e, w\<lparr>tw_db := db\<rparr>)
      | (Inr _, db) \<Rightarrow> (Inr (), w\<lparr>tw_db := db, tw_tasks := gput (ta_ID t) t (tw_tasks w)\<rparr>))"

definition bulk_failure :: "string option \<Rightarrow> task \<Rightarrow> task" where
  "bulk_failure reason t =
     (case reason of None \<Rightarrow> t | Some r \<Rightarrow> t\<lparr>ta_FailReason := r\<rparr>)\<lparr>ta_Status := TaskStatusFailure, ta_Progress := ''100%''\<rparr>"

definition TaskBulkUpdateByID :: "int list \<Rightarrow> (task \<Rightarrow> task) \<Rightarrow> task_world \<Rightarrow> (billing_error + unit) \<times> task_world" where
  "TaskBulkUpdateByID ids change w =
     (if ids = [] then (Inr (), w)
      else case db_query (tw_db w) of
        (Inl e, db) \<Rightarrow> (Inl e, w\<lparr>tw_db := db\<rparr>)
      | (Inr _, db) \<Rightarrow>
          (Inr (), w\<lparr>tw_db := db, tw_tasks := map (\<lambda>(k, t). (k, if k \<in> set ids then change t else t)) (tw_tasks w)\<rparr>))"

text \<open>Billing runs on the poller's own copy of the task; the copy is not written back afterwards.\<close>

definition bill :: "(task \<times> billing_db \<Rightarrow> task_effect list \<times> task \<times> billing_db) \<Rightarrow> task \<Rightarrow> task_world \<Rightarrow> task \<times> task_world" where
  "bill f t w =
     (case f (t, tw_db w) of (es, (t, db)) \<Rightarrow> (t, w\<lparr>tw_db := db, tw_effects := tw_effects w @ es\<rparr>))"

section \<open>Polling\<close>

subsection \<open>Tasks that timed out\<close>

definition legacyTaskCutoff :: int where "legacyTaskCutoff = 1740182400"

definition sweep_task :: "(int \<Rightarrow> string) \<Rightarrow> int \<Rightarrow> string \<Rightarrow> string \<Rightarrow> task \<Rightarrow> task_world \<Rightarrow> task_world" where
  "sweep_task keys now reason legacyReason task w =
     (let isLegacy = (ta_SubmitTime task > 0 \<and> ta_SubmitTime task < legacyTaskCutoff);
          t = task\<lparr>ta_Status := TaskStatusFailure, ta_Progress := ''100%'', ta_FinishTime := now,
                   ta_FailReason := (if isLegacy then legacyReason else reason)\<rparr>
      in case UpdateWithStatus (ta_Status task) t w of
           (Inl _, w) \<Rightarrow> w
         | (Inr won, w) \<Rightarrow>
             if \<not> won then w
             else if \<not> isLegacy \<and> ta_Quota t \<noteq> 0 then snd (bill (RefundTaskQuota keys) t w) else w)"

definition sweepTimedOutTasks :: "(int \<Rightarrow> string) \<Rightarrow> int \<Rightarrow> int \<Rightarrow> string \<Rightarrow> string \<Rightarrow> task_world \<Rightarrow> task_world" where
  "sweepTimedOutTasks keys timeoutMinutes now reason legacyReason w =
     (if timeoutMinutes \<le> 0 then w
      else case GetTimedOutUnfinishedTasks (now - timeoutMinutes * 60) 100 w of
        (ts, w) \<Rightarrow> foldl (\<lambda>w t. sweep_task keys now reason legacyReason t w) w ts)"

subsection \<open>Video tasks\<close>

record task_info =
  ti_Status :: string
  ti_Reason :: string
  ti_Url :: string
  ti_Progress :: string
  ti_TotalTokens :: int

definition BuildProxyURL :: "string \<Rightarrow> string \<Rightarrow> string" where
  "BuildProxyURL serverAddress taskID = serverAddress @ ''/v1/videos/'' @ taskID @ ''/content''"

text \<open>\<open>adjusted\<close> is what the adaptor's \<^verbatim>\<open>AdjustBillingOnComplete\<close> returns.\<close>

definition settleTaskBillingOnComplete ::
  "(int \<Rightarrow> string) \<Rightarrow> task_rates \<Rightarrow> (task \<Rightarrow> task_info \<Rightarrow> int) \<Rightarrow> task_info \<Rightarrow> task \<times> billing_db
   \<Rightarrow> task_effect list \<times> task \<times> billing_db" where
  "settleTaskBillingOnComplete keys rates adjusted taskResult s =
     (if (case ta_BillingContext (fst s) of None \<Rightarrow> False | Some bc \<Rightarrow> bc_PerCallBilling bc) then ([], s)
      else if adjusted (fst s) taskResult > 0 then RecalculateTaskQuota keys (adjusted (fst s) taskResult) s
      else if ti_TotalTokens taskResult > 0 then RecalculateTaskQuotaByTokens keys rates (ti_TotalTokens taskResult) s
      else ([], s))"

text \<open>
  The copy of the task after the result was read: \<open>None\<close> for a status that is not known. The copy's
  data has been replaced by the response before.
\<close>

definition started :: "int \<Rightarrow> task \<Rightarrow> task" where
  "started now t = (if ta_StartTime t = 0 then t\<lparr>ta_StartTime := now\<rparr> else t)"

definition finished :: "int \<Rightarrow> task \<Rightarrow> task" where
  "finished now t = (if ta_FinishTime t = 0 then t\<lparr>ta_FinishTime := now\<rparr> else t)"

definition result_url :: "string \<Rightarrow> task_info \<Rightarrow> task \<Rightarrow> string" where
  "result_url serverAddress r t =
     (if take 5 (ti_Url r) = ''data:'' then BuildProxyURL serverAddress (ta_TaskID t)
      else if ti_Url r \<noteq> [] then ti_Url r
      else BuildProxyURL serverAddress (ta_TaskID t))"

definition read_result :: "int \<Rightarrow> string \<Rightarrow> task_info \<Rightarrow> task \<Rightarrow> task option" where
  "read_result now serverAddress r task =
     (let t = task\<lparr>ta_Status := ti_Status r\<rparr>;
          progress = (\<lambda>t. if ti_Progress r \<noteq> [] then t\<lparr>ta_Progress := ti_Progress r\<rparr> else t)
      in if ti_Status r = TaskStatusSubmitted then Some (progress (t\<lparr>ta_Progress := ''10%''\<rparr>))
         else if ti_Status r = TaskStatusQueued then Some (progress (t\<lparr>ta_Progress := ''20%''\<rparr>))
         else if ti_Status r = TaskStatusInProgress then Some (progress (started now (t\<lparr>ta_Progress := ''30%''\<rparr>)))
         else if ti_Status r = TaskStatusSuccess
           then Some (progress ((finished now (t\<lparr>ta_Progress := ''100%''\<rparr>))\<lparr>ta_ResultURL := result_url serverAddress r t\<rparr>))
         else if ti_Status r = TaskStatusFailure
           then Some ((finished now t)\<lparr>ta_FailReason := ti_Reason r, ta_Progress := ''100%''\<rparr>)
         else None)"

definition snapshot_equal :: "task \<Rightarrow> task \<Rightarrow> bool" where
  "snapshot_equal a b \<longleftrightarrow> ta_Status a = ta_Status b \<and> ta_Progress a = ta_Progress b \<and> ta_StartTime a = ta_StartTime b
     \<and> ta_FinishTime a = ta_FinishTime b \<and> ta_FailReason a = ta_FailReason b \<and> ta_ResultURL a = ta_ResultURL b
     \<and> ta_Data a = ta_Data b"

text \<open>\<open>snap\<close> is the copy before the response was read, \<open>t\<close> the one after it.\<close>

definition final_status :: "task \<Rightarrow> bool" where
  "final_status t \<longleftrightarrow> ta_Status t = TaskStatusSuccess \<or> ta_Status t = TaskStatusFailure"

definition persist_result :: "task \<Rightarrow> task \<Rightarrow> task_world \<Rightarrow> bool \<times> task_world" where
  "persist_result snap t w =
     (if final_status t \<and> ta_Status snap \<noteq> ta_Status t then
        (case UpdateWithStatus (ta_Status snap) t w of
           (Inl _, w) \<Rightarrow> (False, w)
         | (Inr won, w) \<Rightarrow> (won, w))
      else if \<not> snapshot_equal snap t then (True, snd (UpdateWithStatus (ta_Status snap) t w))
      else (True, w))"

definition updateVideoSingleTask ::
  "(int \<Rightarrow> string) \<Rightarrow> task_rates \<Rightarrow> (task \<Rightarrow> task_info \<Rightarrow> int) \<Rightarrow> int \<Rightarrow> string \<Rightarrow> task_info \<Rightarrow> string \<Rightarrow> task
   \<Rightarrow> task_world \<Rightarrow> task_world" where
  "updateVideoSingleTask keys rates adjusted now serverAddress taskResult data snap w =
     (case read_result now serverAddress taskResult (snap\<lparr>ta_Data := data\<rparr>) of
        None \<Rightarrow> w
      | Some t \<Rightarrow>
          (case persist_result snap t w of (bills, w) \<Rightarrow>
             if \<not> bills then w
             else if ti_Status taskResult = TaskStatusSuccess
               then snd (bill (settleTaskBillingOnComplete keys rates adjusted taskResult) t w)
             else if ti_Status taskResult = TaskStatusFailure \<and> ta_Quota snap \<noteq> 0
               then snd (bill (RefundTaskQuota keys) t w)
             else w))"

text \<open>
  \<^verbatim>\<open>updateVideoTasks\<close> when the channel of the tasks can not be read: they are marked failed in one
  update that neither checks their status nor returns their quota.
\<close>

definition video_channel_gone :: "string \<Rightarrow> task list \<Rightarrow> task_world \<Rightarrow> task_world" where
  "video_channel_gone reason ts w = snd (TaskBulkUpdateByID (map ta_ID ts) (bulk_failure (Some reason)) w)"

subsection \<open>Suno tasks\<close>

record suno_item =
  si_Status :: string
  si_FailReason :: string
  si_SubmitTime :: int
  si_StartTime :: int
  si_FinishTime :: int
  si_Data :: string

text \<open>\<open>marshal\<close> is the JSON encoding of raw data; the bytes of both encodings are sorted before they are compared.\<close>

definition taskNeedsUpdate :: "(string \<Rightarrow> string) \<Rightarrow> task \<Rightarrow> suno_item \<Rightarrow> bool" where
  "taskNeedsUpdate marshal old item =
     (ta_SubmitTime old \<noteq> si_SubmitTime item \<or> ta_StartTime old \<noteq> si_StartTime item \<or> ta_FinishTime old \<noteq> si_FinishTime item
      \<or> ta_Status old \<noteq> si_Status item \<or> ta_FailReason old \<noteq> si_FailReason item
      \<or> (ta_Status old = TaskStatusFailure \<or> ta_Status old = TaskStatusSuccess) \<and> ta_Progress old \<noteq> ''100%''
      \<or> sort (map of_char (marshal (ta_Data old)) :: nat list) \<noteq> sort (map of_char (marshal (si_Data item))))"

definition suno_read :: "suno_item \<Rightarrow> task \<Rightarrow> task" where
  "suno_read item t = t\<lparr>
     ta_Status := (if si_Status item \<noteq> [] then si_Status item else ta_Status t),
     ta_FailReason := (if si_FailReason item \<noteq> [] then si_FailReason item else ta_FailReason t),
     ta_SubmitTime := (if si_SubmitTime item \<noteq> 0 then si_SubmitTime item else ta_SubmitTime t),
     ta_StartTime := (if si_StartTime item \<noteq> 0 then si_StartTime item else ta_StartTime t),
     ta_FinishTime := (if si_FinishTime item \<noteq> 0 then si_FinishTime item else ta_FinishTime t)\<rparr>"

definition update_suno_item :: "(int \<Rightarrow> string) \<Rightarrow> (string \<Rightarrow> string) \<Rightarrow> suno_item \<Rightarrow> task \<Rightarrow> task_world \<Rightarrow> task_world" where
  "update_suno_item keys marshal item task w =
     (if \<not> taskNeedsUpdate marshal task item then w
      else let t = suno_read item task in
      case (if si_FailReason item \<noteq> [] \<or> ta_Status t = TaskStatusFailure
            then bill (RefundTaskQuota keys) (t\<lparr>ta_Progress := ''100%''\<rparr>) w else (t, w)) of (t, w) \<Rightarrow>
        let t = (if si_Status item = TaskStatusSuccess then t\<lparr>ta_Progress := ''100%''\<rparr> else t)
        in snd (Update (t\<lparr>ta_Data := si_Data item\<rparr>) w))"

end
