(* ===== verification/Task_Properties.thy ===== *)
theory Task_Properties
  imports Task_Billing
begin

text \<open>
  The books of asynchronous tasks: what a task is recorded to have cost its user's wallet and its
  subscription is what they were charged, through settlement and refund. The funding of a task keeps
  the settling contract of the session's funding sources. The last section is about requests without
  a session: what the older quota path charges, refuses and returns.
\<close>

section \<open>The shares of a task\<close>

definition task_split :: "task \<Rightarrow> bool" where
  "task_split t \<longleftrightarrow> taskIsSubscriptionWallet t \<or> taskIsSubscription t \<and> taskUsesSubscriptionFirst t"

definition wallet_share :: "task \<Rightarrow> int" where
  "wallet_share t = (if task_split t then ta_WalletQuota t else if taskIsSubscription t then 0 else ta_Quota t)"

definition sub_share :: "task \<Rightarrow> int" where
  "sub_share t = (if task_split t \<or> taskIsSubscription t then ta_SubscriptionQuota t else 0)"

text \<open>A task as the submission records it, and as settlement keeps it.\<close>

definition task_ok :: "task \<Rightarrow> bool" where
  "task_ok t \<longleftrightarrow> (task_split t \<longrightarrow> taskUsesSubscriptionFirst t) \<and> 0 \<le> wallet_share t \<and> 0 \<le> sub_share t
     \<and> wallet_share t + sub_share t = ta_Quota t"

definition task_ready :: "task \<Rightarrow> billing_db \<Rightarrow> bool" where
  "task_ready t db \<longleftrightarrow> task_ok t \<and> subs_ok db \<and> has_user db (ta_UserId t)"

definition task_fits :: "task \<Rightarrow> billing_db \<Rightarrow> int \<Rightarrow> bool" where
  "task_fits t db d \<longleftrightarrow> 0 \<le> ta_Quota t + d \<and>
     (task_split t \<or> taskIsSubscription t \<longrightarrow>
        sub_share t \<le> sub_used db (ta_SubscriptionId t) \<and> sub_used db (ta_SubscriptionId t) + max 0 d < 2 ^ 63)"

definition task_charge :: "task \<Rightarrow> billing_db \<Rightarrow> int" where
  "task_charge t db =
     (if task_split t then sub_used db (ta_SubscriptionId t) - user_funds db (ta_UserId t)
      else if taskIsSubscription t then sub_used db (ta_SubscriptionId t)
      else - user_funds db (ta_UserId t))"

lemmas task_class = task_split_def taskIsSubscription_def taskIsSubscriptionWallet_def taskUsesSubscriptionFirst_def
  BillingSourceSubscription_def BillingSourceSubscriptionWallet_def

text \<open>The funding of a task adjusted by \<open>d\<close>, with the quota that a settlement then writes into it.\<close>

definition recharge :: "int \<Rightarrow> task_method" where
  "recharge d s = bnd (taskAdjustFunding d s) (\<lambda>_ (t, db). (Inr (), (t\<lparr>ta_Quota := ta_Quota t + d\<rparr>, db)))"

text \<open>The user was charged \<open>w\<close>, the subscription \<open>s\<close>, and nobody else anything.\<close>

definition charged :: "int \<Rightarrow> int \<Rightarrow> int \<Rightarrow> int \<Rightarrow> billing_db \<Rightarrow> billing_db \<Rightarrow> bool" where
  "charged u w k s db db' \<longleftrightarrow> user_funds db' = (user_funds db)(u := user_funds db u - w)
     \<and> sub_used db' = (sub_used db)(k := sub_used db k + s)
     \<and> subs_ok db' \<and> token_frame db db' \<and> has_user db' = has_user db"

lemma charged_nothing: "subs_ok db \<Longrightarrow> unchanged db db' \<Longrightarrow> charged u 0 k 0 db db'"
  by (auto simp: charged_def unchanged_same subs_ok_unchanged sub_used_def fun_eq_iff intro: token_frame_intros)

lemma charged_same [simp]: "subs_ok db \<Longrightarrow> charged u 0 k 0 db db"
  by (rule charged_nothing) simp_all

lemma charged_user:
  assumes "subs_ok db" and "has_user db u" and "user_moved db u n db'"
  shows "charged u (- n) k 0 db db'"
proof -
  have "user_funds db' = (user_funds db)(u := user_funds db u + n)" using assms(2,3) by (simp add: user_moved_def)
  moreover have "sub_used db' = sub_used db" "subs_ok db'" "has_user db' = has_user db"
    using user_moved_subs [OF assms(3)] user_movedD(2) [OF assms(3)] assms(1) by auto
  ultimately show ?thesis using assms(3) by (simp add: charged_def token_frame_intros)
qed

lemma charged_sub:
  assumes "subs_ok db'" and "sub_used db' = (sub_used db)(k := sub_used db k + d)" and "subs_only db db'"
  shows "charged u 0 k d db db'"
  using assms by (simp add: charged_def subs_only_same token_frame_intros)

lemma charged_trans: "charged u w k s db db1 \<Longrightarrow> charged u w' k s' db1 db2 \<Longrightarrow> charged u (w + w') k (s + s') db db2"
  by (auto simp: charged_def fun_eq_iff intro: token_frame_trans)

section \<open>Refunds and charges of a split task\<close>

lemma post_consume_charged:
  assumes "subs_ok db" and "0 \<le> sub_used db k + d" and "sub_used db k + d < 2 ^ 63"
  shows "outcome (PostConsumeUserSubscriptionDelta db k d) (\<lambda>_. charged u 0 k d db) (unchanged db)"
  by (rule outcome_mono [OF post_consume_exact [OF assms]]) (auto intro: charged_sub)

text \<open>What taking \<open>w\<close> more from the wallet and \<open>s\<close> more from the subscription makes of a split task.\<close>

definition resplit :: "int \<Rightarrow> int \<Rightarrow> task \<Rightarrow> task" where
  "resplit w s t = taskUpdateSplitBillingSource
     (t\<lparr>ta_WalletQuota := ta_WalletQuota t + w, ta_SubscriptionQuota := ta_SubscriptionQuota t + s\<rparr>)"

lemma resplit_fields:
  "ta_UserId (resplit w s t) = ta_UserId t" "ta_SubscriptionId (resplit w s t) = ta_SubscriptionId t"
  "ta_TokenId (resplit w s t) = ta_TokenId t" "ta_Quota (resplit w s t) = ta_Quota t"
  "ta_BillingContext (resplit w s t) = ta_BillingContext t"
  "ta_WalletQuota (resplit w s t) = ta_WalletQuota t + w"
  "ta_SubscriptionQuota (resplit w s t) = ta_SubscriptionQuota t + s"
  by (simp_all add: resplit_def taskUpdateSplitBillingSource_def)

lemma resplit_split:
  assumes "task_split t" and "taskUsesSubscriptionFirst t"
  shows "task_split (resplit w s t)" and "taskUsesSubscriptionFirst (resplit w s t)"
  using assms by (auto simp: task_class resplit_def taskUpdateSplitBillingSource_def split: option.splits)

lemma refund_split_rest_law:
  fixes u :: int
  assumes "subs_ok db" and "0 < ta_SubscriptionId t" and "0 \<le> r" and "r \<le> ta_SubscriptionQuota t"
    and "ta_SubscriptionQuota t \<le> sub_used db (ta_SubscriptionId t)" and "sub_used db (ta_SubscriptionId t) < 2 ^ 63"
  shows "outcome (refund_split_rest r (t, db))
    (\<lambda>_ (t', db'). t' = resplit 0 (- r) t \<and> charged u 0 (ta_SubscriptionId t) (- r) db db') (\<lambda>(t', db'). t' = t \<and> unchanged db db')"
proof (cases "r = 0")
  case True
  then show ?thesis using assms(1) by (simp add: refund_split_rest_def resplit_def)
next
  case False
  have "outcome (PostConsumeUserSubscriptionDelta db (ta_SubscriptionId t) (- r))
      (\<lambda>_. charged u 0 (ta_SubscriptionId t) (- r) db) (unchanged db)"
    using assms by (intro post_consume_charged) auto
  with False assms show ?thesis
    by (auto simp: refund_split_rest_def outcome_on_db resplit_def not_below_zero_def elim!: outcome_mono)
qed

text \<open>A split task with room for its share in the subscription; the wallet's part is returned first.\<close>

definition split_sound :: "task \<Rightarrow> billing_db \<Rightarrow> bool" where
  "split_sound t db \<longleftrightarrow> subs_ok db \<and> has_user db (ta_UserId t) \<and> 0 < ta_SubscriptionId t
     \<and> 0 \<le> ta_WalletQuota t \<and> 0 \<le> ta_SubscriptionQuota t
     \<and> ta_SubscriptionQuota t \<le> sub_used db (ta_SubscriptionId t) \<and> sub_used db (ta_SubscriptionId t) < 2 ^ 63"

definition wallet_book :: "task \<Rightarrow> billing_db \<Rightarrow> task \<times> billing_db \<Rightarrow> bool" where
  "wallet_book t db = (\<lambda>(t', db'). user_funds db' (ta_UserId t) + ta_WalletQuota t' = user_funds db (ta_UserId t) + ta_WalletQuota t
     \<and> token_frame db db')"

lemma wallet_book_unchanged: "unchanged db db' \<Longrightarrow> wallet_book t db (t, db')"
  by (simp add: wallet_book_def unchanged_same token_frame_intros)

lemma split_refund_exact:
  assumes sound: "split_sound t db" and "0 < a" and "a \<le> ta_WalletQuota t + ta_SubscriptionQuota t"
  defines "w \<equiv> min a (ta_WalletQuota t)"
  shows "outcome (taskRefundSplitFunding a (t, db))
    (\<lambda>_ (t', db'). t' = resplit (- w) (- (a - w)) t \<and> charged (ta_UserId t) (- w) (ta_SubscriptionId t) (- (a - w)) db db')
    (wallet_book t db)"
proof -
  let ?u = "ta_UserId t" and ?k = "ta_SubscriptionId t"
  let ?Q = "\<lambda>(t', db'). t' = resplit (- w) (- (a - w)) t \<and> charged ?u (- w) ?k (- (a - w)) db db'"
  have s: "subs_ok db" "has_user db ?u" "0 < ?k" "0 \<le> ta_WalletQuota t" "0 \<le> ta_SubscriptionQuota t"
    "ta_SubscriptionQuota t \<le> sub_used db ?k" "sub_used db ?k < 2 ^ 63"
    using sound by (auto simp: split_sound_def)
  have w: "0 \<le> w" "w \<le> a" "a - w \<le> ta_SubscriptionQuota t" using assms(2,3) s by (auto simp: w_def)
  have walletRefund: "(if ta_WalletQuota t > 0 then if a > ta_WalletQuota t then ta_WalletQuota t else a else 0) = w"
    using s(4) assms(2) by (auto simp: w_def)
  have rest: "outcome (refund_split_rest (a - w) (t\<lparr>ta_WalletQuota := ta_WalletQuota t - w\<rparr>, db1)) (\<lambda>_. ?Q) (wallet_book t db)"
    if c: "charged ?u (- w) ?k 0 db db1" for db1
  proof (rule outcome_mono [OF refund_split_rest_law [where u = ?u]])
    show "?Q z"
      if "case z of (t', db') \<Rightarrow> t' = resplit 0 (- (a - w)) (t\<lparr>ta_WalletQuota := ta_WalletQuota t - w\<rparr>)
        \<and> charged ?u 0 (ta_SubscriptionId (t\<lparr>ta_WalletQuota := ta_WalletQuota t - w\<rparr>)) (- (a - w)) db1 db'" for z
      using that charged_trans [OF c, of 0 "- (a - w)"] by (auto simp: resplit_def)
    show "wallet_book t db z" if "case z of (t', db') \<Rightarrow> t' = t\<lparr>ta_WalletQuota := ta_WalletQuota t - w\<rparr> \<and> unchanged db1 db'" for z
      using that c by (auto simp: wallet_book_def charged_def unchanged_same intro: token_frame_trans token_frame_intros)
  qed (use c s w in \<open>auto simp: charged_def\<close>)
  have "outcome (if w > 0
        then bnd (on_db (\<lambda>db. IncreaseUserQuota db ?u w) (t, db)) (\<lambda>_ (t, db).
          (Inr (), (t\<lparr>ta_WalletQuota := ta_WalletQuota t - w\<rparr>, db)))
        else (Inr (), (t, db))) (\<lambda>_ s. outcome (refund_split_rest (a - w) s) (\<lambda>_. ?Q) (wallet_book t db)) (wallet_book t db)"
  proof (cases "w > 0")
    case True
    have "outcome (IncreaseUserQuota db ?u w) (\<lambda>_ db1. outcome (refund_split_rest (a - w)
        (t\<lparr>ta_WalletQuota := ta_WalletQuota t - w\<rparr>, db1)) (\<lambda>_. ?Q) (wallet_book t db)) (\<lambda>db1. wallet_book t db (t, db1))"
      by (rule outcome_mono [OF quota_specs(1)], rule rest)
        (auto intro: charged_user [OF s(1,2)] wallet_book_unchanged)
    with True show ?thesis by (simp add: outcome_on_db)
  next
    case False
    then show ?thesis using rest [of db] w s(1) by simp
  qed
  then show ?thesis
    using assms(2) unfolding taskRefundSplitFunding_def Let_def fst_conv walletRefund outcome_simps by simp
qed

lemma post_consume_users:
  "subs_ok db \<Longrightarrow> subs_only db (snd (PostConsumeUserSubscriptionDelta db k d))"
  by (rule outcome_snd [THEN iffD1], rule outcome_mono [OF PostConsumeUserSubscriptionDelta_spec])
    (auto simp: unchanged_subs_only dest: used_set_used)

lemma charge_split_rest_law:
  assumes "subs_ok db" and "has_user db (ta_UserId t)" and "0 \<le> n" and "n \<le> d"
  shows "outcome (charge_split_rest d n (t, db))
    (\<lambda>_ (t', db'). t' = resplit (d - n) n t \<and> charged (ta_UserId t) (d - n) k 0 db db') (wallet_book t db)"
proof (cases "d = n")
  case True
  then show ?thesis using assms(1) by (simp add: charge_split_rest_def resplit_def)
next
  case False
  let ?u = "ta_UserId t"
  obtain r db1 where dec: "DecreaseUserQuota db ?u (d - n) = (r, db1)" by fastforce
  show ?thesis
  proof (cases r)
    case (Inl e)
    then have un: "unchanged db db1" using outcome_simps quota_specs(2) [of db ?u "d - n"] dec by simp
    then have "subs_only db1 (snd (PostConsumeUserSubscriptionDelta db1 (ta_SubscriptionId t) (- n)))"
      using post_consume_users assms(1) by (simp add: subs_ok_unchanged)
    then have "wallet_book t db (t, snd (PostConsumeUserSubscriptionDelta db1 (ta_SubscriptionId t) (- n)))"
      using un by (simp add: wallet_book_def subs_only_same unchanged_same)
        (metis token_frame_intros(1,3) token_frame_trans)
    then show ?thesis using dec Inl False assms un wallet_book_unchanged
      by (auto simp: charge_split_rest_def on_db_def Let_def case_prod_unfold)
  next
    case (Inr v)
    have "user_moved db ?u (- (d - n)) db1" using outcomeD [OF quota_specs(2)] dec Inr by blast
    from charged_user [OF assms(1,2) this] show ?thesis using dec Inr False assms
      by (auto simp: charge_split_rest_def on_db_def resplit_def)
  qed
qed

lemma split_charge_exact:
  assumes sound: "split_sound t db" and "0 < d" and "sub_used db (ta_SubscriptionId t) + d < 2 ^ 63"
  shows "outcome (taskAdjustSplitFunding d (t, db))
    (\<lambda>_ (t', db'). \<exists>n. 0 \<le> n \<and> n \<le> d \<and> t' = resplit (d - n) n t
       \<and> charged (ta_UserId t) (d - n) (ta_SubscriptionId t) n db db') (wallet_book t db)"
proof -
  let ?u = "ta_UserId t" and ?k = "ta_SubscriptionId t"
  have s: "subs_ok db" "has_user db ?u" "0 < ?k" "0 \<le> sub_used db ?k"
    using sound by (auto simp: split_sound_def)
  have av: "outcome (PostConsumeUserSubscriptionDeltaAvailable db ?k d)
      (\<lambda>n db1. 0 \<le> n \<and> n \<le> d \<and> charged ?u 0 ?k n db db1) (unchanged db)"
    by (rule outcome_mono [OF available_exact [OF s(1,4) _ assms(2)]]) (use assms(3) in \<open>auto intro: charged_sub\<close>)
  have rest: "outcome (charge_split_rest d n (t, db1)) (\<lambda>_ (t', db'). \<exists>n. 0 \<le> n \<and> n \<le> d \<and> t' = resplit (d - n) n t
       \<and> charged ?u (d - n) ?k n db db') (wallet_book t db)"
    if c: "0 \<le> n \<and> n \<le> d \<and> charged ?u 0 ?k n db db1" for n db1
  proof (rule outcome_mono [OF charge_split_rest_law [where k = ?k and db = db1 and t = t and n = n and d = d]])
    show "case z of (t', db') \<Rightarrow> \<exists>n. 0 \<le> n \<and> n \<le> d \<and> t' = resplit (d - n) n t \<and> charged ?u (d - n) ?k n db db'"
      if "case z of (t', db') \<Rightarrow> t' = resplit (d - n) n t \<and> charged ?u (d - n) ?k 0 db1 db'" for z
      using that c charged_trans [of ?u 0 ?k n db db1 "d - n" 0] by auto
    show "wallet_book t db z" if "wallet_book t db1 z" for z
      using that c by (auto simp: wallet_book_def charged_def split: prod.splits intro: token_frame_trans)
  qed (use c s in \<open>auto simp: charged_def\<close>)
  have "outcome (PostConsumeUserSubscriptionDeltaAvailable db ?k d) (\<lambda>n db1. outcome (charge_split_rest d n (t, db1))
      (\<lambda>_ (t', db'). \<exists>n. 0 \<le> n \<and> n \<le> d \<and> t' = resplit (d - n) n t \<and> charged ?u (d - n) ?k n db db') (wallet_book t db))
      (\<lambda>db1. wallet_book t db (t, db1))"
    by (rule outcome_mono [OF av]) (auto intro!: rest wallet_book_unchanged)
  then show ?thesis using assms(2) s(3) by (simp add: taskAdjustSplitFunding_def outcome_on_db)
qed

section \<open>Every adjustment\<close>

text \<open>Each source was charged what its share grew by, and the shares still add up to the quota.\<close>

definition task_moved :: "int \<Rightarrow> task \<Rightarrow> billing_db \<Rightarrow> task \<times> billing_db \<Rightarrow> bool" where
  "task_moved d t db = (\<lambda>(q, db'). task_ok q \<and> ta_Quota q = ta_Quota t + d
     \<and> ta_UserId q = ta_UserId t \<and> ta_SubscriptionId q = ta_SubscriptionId t \<and> ta_TokenId q = ta_TokenId t
     \<and> task_split q = task_split t \<and> (\<not> task_split t \<longrightarrow> taskIsSubscription q = taskIsSubscription t)
     \<and> charged (ta_UserId t) (wallet_share q - wallet_share t) (ta_SubscriptionId t) (sub_share q - sub_share t) db db')"

lemmas task_shares = task_ok_def wallet_share_def sub_share_def

lemma task_split_quota [simp]:
  "task_split (t\<lparr>ta_Quota := q\<rparr>) = task_split t" "taskIsSubscription (t\<lparr>ta_Quota := q\<rparr>) = taskIsSubscription t"
  "taskUsesSubscriptionFirst (t\<lparr>ta_Quota := q\<rparr>) = taskUsesSubscriptionFirst t"
  "task_split (t\<lparr>ta_WalletQuota := q\<rparr>) = task_split t" "taskIsSubscription (t\<lparr>ta_WalletQuota := q\<rparr>) = taskIsSubscription t"
  "task_split (t\<lparr>ta_SubscriptionQuota := q\<rparr>) = task_split t"
  "taskIsSubscription (t\<lparr>ta_SubscriptionQuota := q\<rparr>) = taskIsSubscription t"
  by (simp_all add: task_split_def taskIsSubscriptionWallet_def taskIsSubscription_def taskUsesSubscriptionFirst_def)

lemma resplit_moved:
  assumes "task_split t" and "task_ok t" and "w + s = d" and "0 \<le> ta_WalletQuota t + w" and "0 \<le> ta_SubscriptionQuota t + s"
    and "charged (ta_UserId t) w (ta_SubscriptionId t) s db db'"
  shows "task_moved d t db ((resplit w s t)\<lparr>ta_Quota := ta_Quota t + d\<rparr>, db')"
  using assms resplit_split [OF assms(1), of w s] by (auto simp: task_moved_def task_shares resplit_fields)

lemma recharge_split:
  assumes split: "task_split t" and "task_ready t db" and "task_fits t db d" and "d \<noteq> 0"
  shows "outcome (recharge d (t, db)) (\<lambda>_. task_moved d t db) (wallet_book t db)"
proof -
  have ok: "task_ok t" and sound: "split_sound t db" and q: "ta_WalletQuota t + ta_SubscriptionQuota t = ta_Quota t"
    using assms by (auto simp: task_ready_def task_fits_def split_sound_def task_shares task_class max_def split: if_splits)
  have adj: "taskAdjustFunding d (t, db) = taskAdjustSplitFunding d (t, db)"
    using split assms(4) by (simp add: taskAdjustFunding_def task_split_def)
  show ?thesis
  proof (cases "d < 0")
    case True
    let ?w = "min (- d) (ta_WalletQuota t)"
    have "- d \<le> ta_WalletQuota t + ta_SubscriptionQuota t" using assms(3) q by (simp add: task_fits_def)
    from split_refund_exact [OF sound _ this] True
    have "outcome (taskRefundSplitFunding (- d) (t, db)) (\<lambda>_ (t', db'). t' = resplit (- ?w) (- (- d - ?w)) t
        \<and> charged (ta_UserId t) (- ?w) (ta_SubscriptionId t) (- (- d - ?w)) db db') (wallet_book t db)" by simp
    moreover have "task_moved d t db ((resplit (- ?w) (- (- d - ?w)) t)\<lparr>ta_Quota := ta_Quota t + d\<rparr>, db')"
      if "charged (ta_UserId t) (- ?w) (ta_SubscriptionId t) (- (- d - ?w)) db db'" for db'
      by (rule resplit_moved [OF split ok _ _ _ that]) (use sound assms(3) q in \<open>auto simp: split_sound_def task_fits_def\<close>)
    ultimately show ?thesis
      using True by (auto simp: recharge_def adj taskAdjustSplitFunding_def resplit_fields elim!: outcome_mono)
  next
    case False
    have "sub_used db (ta_SubscriptionId t) + d < 2 ^ 63" using assms(3) split False by (simp add: task_fits_def)
    from split_charge_exact [OF sound _ this] False assms(4)
    have "outcome (taskAdjustSplitFunding d (t, db)) (\<lambda>_ (t', db'). \<exists>n. 0 \<le> n \<and> n \<le> d \<and> t' = resplit (d - n) n t
        \<and> charged (ta_UserId t) (d - n) (ta_SubscriptionId t) n db db') (wallet_book t db)" by simp
    moreover have "task_moved d t db ((resplit (d - n) n t)\<lparr>ta_Quota := ta_Quota t + d\<rparr>, db')"
      if "0 \<le> n" "n \<le> d" "charged (ta_UserId t) (d - n) (ta_SubscriptionId t) n db db'" for n db'
      by (rule resplit_moved [OF split ok _ _ _ that(3)]) (use sound that in \<open>auto simp: split_sound_def\<close>)
    ultimately show ?thesis by (auto simp: recharge_def adj resplit_fields elim!: outcome_mono)
  qed
qed

lemma recharge_law:
  assumes "task_ready t db" and "task_fits t db d"
  shows "outcome (recharge d (t, db)) (\<lambda>_. task_moved d t db) (wallet_book t db)"
proof -
  have s: "task_ok t" "subs_ok db" "has_user db (ta_UserId t)" using assms(1) by (auto simp: task_ready_def)
  consider "d = 0" | "d \<noteq> 0" "task_split t" | "d \<noteq> 0" "\<not> task_split t" "taskIsSubscription t"
    | "0 < d" "\<not> task_split t" "\<not> taskIsSubscription t" | "d < 0" "\<not> task_split t" "\<not> taskIsSubscription t"
    by linarith
  then show ?thesis
  proof cases
    case 1
    then show ?thesis using s by (simp add: recharge_def taskAdjustFunding_def task_moved_def)
  next
    case 2
    then show ?thesis using recharge_split assms by blast
  next
    case 3
    have S: "ta_SubscriptionQuota t = ta_Quota t" "0 \<le> ta_Quota t" using 3 s(1) by (auto simp: task_shares)
    have "outcome (PostConsumeUserSubscriptionDelta db (ta_SubscriptionId t) d)
        (\<lambda>_. charged (ta_UserId t) 0 (ta_SubscriptionId t) d db) (unchanged db)"
      using assms(2) 3 S by (intro post_consume_charged [OF s(2)]) (auto simp: task_fits_def sub_share_def)
    then show ?thesis using 3 S assms(2)
      by (auto simp: recharge_def taskAdjustFunding_def task_split_def [symmetric] outcome_on_db not_below_zero_def
          task_moved_def task_shares task_fits_def wallet_book_unchanged elim!: outcome_mono)
  next
    case 4
    have "outcome (DecreaseUserQuota db (ta_UserId t) d) (\<lambda>_. charged (ta_UserId t) d (ta_SubscriptionId t) 0 db) (unchanged db)"
      by (rule outcome_mono [OF quota_specs(2)]) (use charged_user [OF s(2,3), of "- d"] in auto)
    then show ?thesis using 4 s(1) assms(2)
      by (auto simp: recharge_def taskAdjustFunding_def task_split_def [symmetric] outcome_on_db
          task_moved_def task_shares task_fits_def wallet_book_unchanged elim!: outcome_mono)
  next
    case 5
    have "outcome (IncreaseUserQuota db (ta_UserId t) (- d)) (\<lambda>_. charged (ta_UserId t) d (ta_SubscriptionId t) 0 db) (unchanged db)"
      by (rule outcome_mono [OF quota_specs(1)]) (use charged_user [OF s(2,3), of "- d"] in auto)
    then show ?thesis using 5 s(1) assms(2)
      by (auto simp: recharge_def taskAdjustFunding_def task_split_def [symmetric] outcome_on_db
          task_moved_def task_shares task_fits_def wallet_book_unchanged elim!: outcome_mono)
  qed
qed

interpretation task: settling_contract recharge task_ready task_charge task_fits
proof unfold_locales
  fix t db d
  assume ready: "task_ready t db" and "task_fits t db d"
  then have "outcome (recharge d (t, db)) (\<lambda>_. task_moved d t db) (\<lambda>_. True)"
    by (rule outcome_mono [OF recharge_law]) auto
  then show "outcome (recharge d (t, db)) (\<lambda>_ (t', db'). task_ready t' db' \<and> task_charge t' db' = task_charge t db + d
      \<and> token_frame db db') (\<lambda>_. True)"
    using ready
    by (auto simp: task_moved_def task_ready_def task_charge_def charged_def task_shares elim!: outcome_mono split: if_splits)
qed

subsection \<open>Without database errors every adjustment goes through\<close>

lemma post_consume_runs:
  assumes "db_faults db = []" and "0 < k" and "has_sub db k" and "0 \<le> sub_used db k + d" and "sub_used db k + d < 2 ^ 63"
    and "0 < sub_total db k \<longrightarrow> sub_used db k + d \<le> sub_total db k"
  shows "\<exists>db'. PostConsumeUserSubscriptionDelta db k d = (Inr (), db') \<and> db_faults db' = []"
proof (cases "d = 0")
  case True
  then show ?thesis using assms(1,2) by (simp add: PostConsumeUserSubscriptionDelta_def)
next
  case False
  obtain s where s: "map_of (db_subs db) k = Some s" using assms(3) by (auto simp: has_sub_def)
  have "max 0 (i64 (us_AmountUsed s + d)) = us_AmountUsed s + d" using assms(4,5) s by (simp add: sub_used_def i64_nonneg)
  with PostConsumeUserSubscriptionDelta_run [OF assms(1,2) s False refl] assms(1,6) s
  show ?thesis by (simp add: sub_used_def sub_total_def)
qed

lemma available_runs:
  assumes "db_faults db = []" and "0 < k" and "has_sub db k"
  shows "\<exists>n db'. PostConsumeUserSubscriptionDeltaAvailable db k d = (Inr n, db') \<and> db_faults db' = []"
  using assms by (auto simp: PostConsumeUserSubscriptionDeltaAvailable_def has_sub_def transaction_def find_sub_def
      save_sub_def db_query_def Let_def)

definition can_pay :: "task \<Rightarrow> billing_db \<Rightarrow> int \<Rightarrow> bool" where
  "can_pay t db d \<longleftrightarrow> (let k = ta_SubscriptionId t in
     (task_split t \<or> taskIsSubscription t \<longrightarrow> has_sub db k)
     \<and> (taskIsSubscription t \<and> \<not> task_split t \<and> 0 < d \<longrightarrow> 0 < sub_total db k \<longrightarrow> sub_used db k + d \<le> sub_total db k))"

definition runs :: "('e + unit) \<times> 's \<times> billing_db \<Rightarrow> bool" where
  "runs x \<longleftrightarrow> (\<exists>s db. x = (Inr (), (s, db)) \<and> db_faults db = [])"

lemma refund_split_rest_runs:
  assumes "db_faults db = []" and "split_sound t db" and "has_sub db (ta_SubscriptionId t)" and "r \<le> ta_SubscriptionQuota t"
  shows "runs (refund_split_rest r (t, db))"
proof (cases "r > 0")
  case True
  have "\<exists>db'. PostConsumeUserSubscriptionDelta db (ta_SubscriptionId t) (- r) = (Inr (), db') \<and> db_faults db' = []"
    using assms True sub_total_bound [of db "ta_SubscriptionId t"] by (intro post_consume_runs) (auto simp: split_sound_def)
  then show ?thesis using True assms(2) by (auto simp: refund_split_rest_def runs_def on_db_def split_sound_def)
qed (use assms(1) in \<open>simp add: refund_split_rest_def runs_def\<close>)

lemma refund_split_runs:
  assumes faults: "db_faults db = []" and sound: "split_sound t db" and sub: "has_sub db (ta_SubscriptionId t)"
    and "0 < a" and "a \<le> ta_WalletQuota t + ta_SubscriptionQuota t"
  shows "runs (taskRefundSplitFunding a (t, db))"
proof -
  define w where "w = (if ta_WalletQuota t > 0 then if a > ta_WalletQuota t then ta_WalletQuota t else a else 0)"
  have w: "0 \<le> w" "a - w \<le> ta_SubscriptionQuota t" using assms(4,5) sound by (auto simp: w_def split_sound_def)
  have rest: "runs (refund_split_rest (a - w) (t\<lparr>ta_WalletQuota := ta_WalletQuota t - w\<rparr>, db1))"
    if "db_faults db1 = []" "user_moved db (ta_UserId t) w db1" for db1
  proof (rule refund_split_rest_runs)
    show "split_sound (t\<lparr>ta_WalletQuota := ta_WalletQuota t - w\<rparr>) db1"
      using sound user_moved_subs [OF that(2)] user_movedD(2) [OF that(2)] assms(4) by (auto simp: split_sound_def w_def)
    show "has_sub db1 (ta_SubscriptionId (t\<lparr>ta_WalletQuota := ta_WalletQuota t - w\<rparr>))"
      using sub user_moved_subs [OF that(2)] by (simp add: has_sub_def)
  qed (use that w in simp_all)
  show ?thesis
  proof (cases "w > 0")
    case True
    obtain db1 where db1: "IncreaseUserQuota db (ta_UserId t) w = (Inr (), db1)" "db_faults db1 = []"
      using no_fault_updates(1) [OF faults w(1)] by blast
    then have "user_moved db (ta_UserId t) w db1" using outcomeD [OF quota_specs(1)] by blast
    with rest db1 True assms(4) show ?thesis
      by (simp add: taskRefundSplitFunding_def Let_def w_def [symmetric] on_db_def)
  next
    case False
    then have "a - w = a" using w(1) by simp
    with refund_split_rest_runs [OF faults sound sub, of a] w False assms(4) show ?thesis
      by (simp add: taskRefundSplitFunding_def Let_def w_def [symmetric])
  qed
qed

lemma charge_split_runs:
  assumes "db_faults db = []" and "split_sound t db" and "has_sub db (ta_SubscriptionId t)" and "0 < d"
  shows "runs (taskAdjustSplitFunding d (t, db))"
proof -
  obtain n db1 where db1: "PostConsumeUserSubscriptionDeltaAvailable db (ta_SubscriptionId t) d = (Inr n, db1)" "db_faults db1 = []"
    using available_runs assms by (fastforce simp: split_sound_def)
  obtain db2 where "d - n > 0 \<longrightarrow> DecreaseUserQuota db1 (ta_UserId t) (d - n) = (Inr (), db2) \<and> db_faults db2 = []"
    using no_fault_updates(2) [OF db1(2), of "d - n" "ta_UserId t"] by fastforce
  with db1 assms show ?thesis
    by (auto simp: taskAdjustSplitFunding_def charge_split_rest_def Let_def on_db_def split_sound_def runs_def)
qed

lemma adjust_runs:
  assumes faults: "db_faults db = []" and "task_ready t db" and "task_fits t db d" and "can_pay t db d"
  shows "runs (taskAdjustFunding d (t, db))"
proof -
  have s: "task_ok t" "subs_ok db" "has_user db (ta_UserId t)" using assms(2) by (auto simp: task_ready_def)
  consider "d = 0" | "d \<noteq> 0" "task_split t" | "d \<noteq> 0" "\<not> task_split t" "taskIsSubscription t"
    | "d \<noteq> 0" "\<not> task_split t" "\<not> taskIsSubscription t" by linarith
  then show ?thesis
  proof cases
    case 1
    then show ?thesis using faults by (simp add: taskAdjustFunding_def runs_def)
  next
    case 2
    have sound: "split_sound t db" and q: "ta_WalletQuota t + ta_SubscriptionQuota t = ta_Quota t"
      using assms s 2 by (auto simp: task_fits_def split_sound_def task_shares task_class max_def split: if_splits)
    have sub: "has_sub db (ta_SubscriptionId t)" using assms(4) 2 by (simp add: can_pay_def Let_def)
    have "runs (taskAdjustSplitFunding d (t, db))"
    proof (cases "d < 0")
      case True
      then show ?thesis using refund_split_runs [OF faults sound sub, of "- d"] assms(3) q
        by (simp add: taskAdjustSplitFunding_def task_fits_def)
    qed (use charge_split_runs [OF faults sound sub] 2 in simp)
    then show ?thesis using 2 by (simp add: taskAdjustFunding_def task_split_def)
  next
    case 3
    have "\<exists>db'. PostConsumeUserSubscriptionDelta db (ta_SubscriptionId t) d = (Inr (), db') \<and> db_faults db' = []"
      using assms 3 s sub_total_bound [OF s(2), of "ta_SubscriptionId t"]
      by (intro post_consume_runs) (auto simp: task_fits_def can_pay_def Let_def task_shares taskIsSubscription_def split: if_splits)
    then show ?thesis using 3 by (auto simp: taskAdjustFunding_def task_split_def [symmetric] on_db_def runs_def)
  next
    case 4
    then show ?thesis
      using no_fault_updates(2) [OF faults, of d "ta_UserId t"] no_fault_updates(1) [OF faults, of "- d" "ta_UserId t"]
      by (auto simp: taskAdjustFunding_def task_split_def [symmetric] on_db_def runs_def)
  qed
qed

text \<open>Together: the adjustment succeeds, moves exactly the shares, and leaves the token alone.\<close>

lemma adjust_exact:
  assumes "db_faults db = []" and "task_ready t db" and "task_fits t db d" and "can_pay t db d"
  obtains t' db' where "taskAdjustFunding d (t, db) = (Inr (), (t', db'))" and "db_faults db' = []"
    and "task_moved d t db (t'\<lparr>ta_Quota := ta_Quota t' + d\<rparr>, db')"
proof -
  obtain t' db' where r: "taskAdjustFunding d (t, db) = (Inr (), (t', db'))" "db_faults db' = []"
    using adjust_runs [OF assms] by (auto simp: runs_def)
  then have "recharge d (t, db) = (Inr (), (t'\<lparr>ta_Quota := ta_Quota t' + d\<rparr>, db'))" by (simp add: recharge_def)
  from that [OF r outcomeD [OF recharge_law [OF assms(2,3)] this]] show ?thesis .
qed

section \<open>Settlement and refund\<close>

lemma token_adjusted:
  assumes "db_faults db = []" and "d \<noteq> 0" and "0 < ta_TokenId t" and "has_token db (ta_TokenId t)" and "keys (ta_TokenId t) \<noteq> []"
  shows "token_moved db (ta_TokenId t) (- d) (taskAdjustTokenQuota keys t d db)"
proof -
  have key: "resolveTokenKey keys (ta_TokenId t) db = (keys (ta_TokenId t), db)"
    using assms by (auto simp: resolveTokenKey_def db_query_def has_token_def)
  obtain db1 db2 where
    "0 < d \<longrightarrow> DecreaseTokenQuota db (ta_TokenId t) d = (Inr (), db1)"
    "d < 0 \<longrightarrow> IncreaseTokenQuota db (ta_TokenId t) (- d) = (Inr (), db2)"
    using no_fault_updates(3,4) [OF assms(1), of _ "ta_TokenId t"]
    by (metis neg_0_le_iff_le not_le order_less_imp_le)
  moreover from this have "0 < d \<longrightarrow> token_moved db (ta_TokenId t) (- d) db1" "d < 0 \<longrightarrow> token_moved db (ta_TokenId t) (- d) db2"
    using outcomeD [OF quota_specs(4)] outcomeD [OF quota_specs(3)] by blast+
  ultimately show ?thesis using assms key by (auto simp: taskAdjustTokenQuota_def)
qed

text \<open>What a settlement by \<open>d\<close> leaves in the books.\<close>

lemma token_step_books:
  assumes "task_moved d t db (q, db1)" and "token_moved db1 (ta_TokenId t) (- d) db'" and "has_token db (ta_TokenId t)"
  shows "user_funds db' (ta_UserId t) + wallet_share q = user_funds db (ta_UserId t) + wallet_share t"
    and "sub_used db' (ta_SubscriptionId t) - sub_share q = sub_used db (ta_SubscriptionId t) - sub_share t"
    and "token_funds db' (ta_TokenId t) = token_funds db (ta_TokenId t) - d"
    and "u \<noteq> ta_UserId t \<Longrightarrow> user_funds db' u = user_funds db u"
    and "task_ok q" and "ta_Quota q = ta_Quota t + d"
proof -
  have "tokens_only db1 db'" using assms(2) by (simp add: token_moved_def)
  note frame = tokens_only_same [OF this]
  have same: "user_funds db' = user_funds db1" "sub_used db' = sub_used db1"
    by (simp_all add: frame sub_used_def fun_eq_iff)
  have tok: "token_funds db1 = token_funds db" "has_token db1 = has_token db"
    using assms(1) by (simp_all add: task_moved_def charged_def token_frame_def)
  show "user_funds db' (ta_UserId t) + wallet_share q = user_funds db (ta_UserId t) + wallet_share t"
    "sub_used db' (ta_SubscriptionId t) - sub_share q = sub_used db (ta_SubscriptionId t) - sub_share t"
    "u \<noteq> ta_UserId t \<Longrightarrow> user_funds db' u = user_funds db u" "task_ok q" "ta_Quota q = ta_Quota t + d"
    using assms(1) by (simp_all add: same task_moved_def charged_def)
  show "token_funds db' (ta_TokenId t) = token_funds db (ta_TokenId t) - d"
    using assms(2,3) tok by (simp add: token_moved_def)
qed

lemma settled_books:
  assumes "task_ready t db" and "task_fits t db (actual - ta_Quota t)" and "can_pay t db (actual - ta_Quota t)"
    and "db_faults db = []" and "0 < actual"
    and "0 < ta_TokenId t" and "has_token db (ta_TokenId t)" and "keys (ta_TokenId t) \<noteq> []"
    and "RecalculateTaskQuota keys actual (t, db) = (es, (t', db'))"
  shows "ta_Quota t' = actual" and "task_ok t'"
    and "user_funds db' (ta_UserId t) + wallet_share t' = user_funds db (ta_UserId t) + wallet_share t"
    and "sub_used db' (ta_SubscriptionId t) - sub_share t' = sub_used db (ta_SubscriptionId t) - sub_share t"
    and "token_funds db' (ta_TokenId t) + actual = token_funds db (ta_TokenId t) + ta_Quota t"
    and "u \<noteq> ta_UserId t \<Longrightarrow> user_funds db' u = user_funds db u"
proof -
  let ?d = "actual - ta_Quota t"
  have all: "ta_Quota t' = actual \<and> task_ok t'
    \<and> user_funds db' (ta_UserId t) + wallet_share t' = user_funds db (ta_UserId t) + wallet_share t
    \<and> sub_used db' (ta_SubscriptionId t) - sub_share t' = sub_used db (ta_SubscriptionId t) - sub_share t
    \<and> token_funds db' (ta_TokenId t) + actual = token_funds db (ta_TokenId t) + ta_Quota t
    \<and> (u \<noteq> ta_UserId t \<longrightarrow> user_funds db' u = user_funds db u)"
  proof (cases "?d = 0")
    case True
    then show ?thesis using assms(1,5,9) by (simp add: RecalculateTaskQuota_def task_ready_def)
  next
    case False
    obtain t1 db1 where adj: "taskAdjustFunding ?d (t, db) = (Inr (), (t1, db1))" "db_faults db1 = []"
      and moved: "task_moved ?d t db (t1\<lparr>ta_Quota := ta_Quota t1 + ?d\<rparr>, db1)"
      using adjust_exact [OF assms(4,1-3)] .
    then have same: "ta_Quota t1 = ta_Quota t" "ta_TokenId t1 = ta_TokenId t" "has_token db1 (ta_TokenId t)"
      using assms(7) by (simp_all add: task_moved_def charged_def token_frame_def)
    have res: "t' = t1\<lparr>ta_Quota := ta_Quota t1 + ?d\<rparr>" "db' = taskAdjustTokenQuota keys t1 ?d db1"
      using assms(5,9) adj(1) False same(1) by (auto simp: RecalculateTaskQuota_def Let_def)
    have "token_moved db1 (ta_TokenId t) (- ?d) db'"
      using token_adjusted [OF adj(2) False, of t1 keys] assms(6-8) same by (simp add: res)
    from token_step_books [OF moved this assms(7)] show ?thesis by (simp add: res same)
  qed
  then show "ta_Quota t' = actual" "task_ok t'"
    "user_funds db' (ta_UserId t) + wallet_share t' = user_funds db (ta_UserId t) + wallet_share t"
    "sub_used db' (ta_SubscriptionId t) - sub_share t' = sub_used db (ta_SubscriptionId t) - sub_share t"
    "token_funds db' (ta_TokenId t) + actual = token_funds db (ta_TokenId t) + ta_Quota t"
    "u \<noteq> ta_UserId t \<Longrightarrow> user_funds db' u = user_funds db u"
    by blast+
qed

text \<open>Settling an asynchronous task to its actual quota keeps the books exact. For a task whose recorded
  shares add up to its quota, the settlement (when no query fails and the sources can pay) sets the
  quota to the actual one, keeps the shares adding up to it, charges wallet and subscription each by
  exactly what its share grew, charges the token the difference, and touches no other user.\<close>

lemma task_settlement_exact:
  assumes "task_ready t db" and "task_fits t db (actual - ta_Quota t)" and "can_pay t db (actual - ta_Quota t)"
    and "db_faults db = []" and "0 < actual"
    and "0 < ta_TokenId t" and "has_token db (ta_TokenId t)" and "keys (ta_TokenId t) \<noteq> []"
    and "RecalculateTaskQuota keys actual (t, db) = (es, (t', db'))"
  shows "ta_Quota t' = actual \<and> task_ok t'
    \<and> user_funds db' (ta_UserId t) + wallet_share t' = user_funds db (ta_UserId t) + wallet_share t
    \<and> sub_used db' (ta_SubscriptionId t) - sub_share t' = sub_used db (ta_SubscriptionId t) - sub_share t
    \<and> token_funds db' (ta_TokenId t) + actual = token_funds db (ta_TokenId t) + ta_Quota t
    \<and> (u \<noteq> ta_UserId t \<longrightarrow> user_funds db' u = user_funds db u)"
  by (intro conjI impI; (elim conjE)?; rule settled_books [where keys = keys, OF assms]; assumption)

text \<open>A task that took 20 from the subscription and 50 from the wallet, settled to 100.\<close>

definition example_task :: task where
  "example_task = \<lparr>ta_ID = 1, ta_TaskID = ''task_1'', ta_UserId = 5, ta_Group = ''default'', ta_ChannelId = 7, ta_Quota = 70,
     ta_Status = ''QUEUED'', ta_FailReason = [], ta_SubmitTime = 1760000000, ta_StartTime = 0, ta_FinishTime = 0,
     ta_Progress = ''20%'', ta_OriginModelName = ''video'', ta_ResultURL = [], ta_BillingSource = ''subscription_wallet'',
     ta_SubscriptionId = 4, ta_SubscriptionQuota = 20, ta_WalletQuota = 50, ta_TokenId = 9,
     ta_BillingContext = Some \<lparr>bc_OtherRatios = [], bc_OriginModelName = [], bc_PerCallBilling = False,
       bc_BillingPreference = ''subscription_first''\<rparr>, ta_Data = []\<rparr>"

lemma example_task_values:
  "ta_Quota example_task = 70" "ta_UserId example_task = 5" "ta_SubscriptionId example_task = 4" "ta_TokenId example_task = 9"
  "wallet_share example_task = 50" "sub_share example_task = 20" "task_split example_task" "task_ok example_task"
  by code_simp+

lemma example_task_books:
  "user_funds example_db 5 = 1000" "sub_used example_db 4 = 30" "token_funds example_db 9 = 800"
  "has_user example_db 5" "has_token example_db 9" "has_sub example_db 4"
  by code_simp+

lemma example_task_ready:
  "task_ready example_task example_db" "-70 \<le> d \<Longrightarrow> d < 1000 \<Longrightarrow> task_fits example_task example_db d"
  "can_pay example_task example_db d"
  by (simp_all add: task_ready_def task_fits_def can_pay_def example_task_values example_task_books example_db_ok)

lemma task_settlement_exact_witness:
  "\<exists>es t' db'. RecalculateTaskQuota (\<lambda>_. ''sk'') 100 (example_task, example_db) = (es, (t', db')) \<and> ta_Quota t' = 100
     \<and> user_funds db' 5 + wallet_share t' = 1050 \<and> sub_used db' 4 - sub_share t' = 10 \<and> token_funds db' 9 = 770"
proof -
  obtain es t' db' where r: "RecalculateTaskQuota (\<lambda>_. ''sk'') 100 (example_task, example_db) = (es, (t', db'))"
    using prod_cases3 by blast
  have pre: "task_fits example_task example_db (100 - ta_Quota example_task)" "can_pay example_task example_db (100 - ta_Quota example_task)"
    using example_task_ready(2) [of 30] example_task_ready(3) by (simp_all add: example_task_values)
  have tok: "0 < ta_TokenId example_task" "has_token example_db (ta_TokenId example_task)" "(\<lambda>_. ''sk'') (ta_TokenId example_task) \<noteq> ([] :: string)"
    by (simp_all add: example_task_values example_task_books)
  note law = task_settlement_exact [OF example_task_ready(1) pre example_db_faults(1) _ tok r]
  show ?thesis using law r by (simp add: example_task_values example_task_books)
qed

lemma refunded_books:
  assumes "task_ready t db" and "task_fits t db (- ta_Quota t)" and "can_pay t db (- ta_Quota t)" and "db_faults db = []"
    and "0 < ta_TokenId t" and "has_token db (ta_TokenId t)" and "keys (ta_TokenId t) \<noteq> []"
    and "RefundTaskQuota keys (t, db) = (es, (t', db'))"
  shows "user_funds db' (ta_UserId t) = user_funds db (ta_UserId t) + wallet_share t"
    and "sub_used db' (ta_SubscriptionId t) = sub_used db (ta_SubscriptionId t) - sub_share t"
    and "token_funds db' (ta_TokenId t) = token_funds db (ta_TokenId t) + ta_Quota t"
    and "u \<noteq> ta_UserId t \<Longrightarrow> user_funds db' u = user_funds db u"
    and "ta_Quota t \<noteq> 0 \<Longrightarrow> es = [TaskLog LogTypeRefund (ta_UserId t) (ta_Quota t) (taskModelName t')]"
proof -
  let ?d = "- ta_Quota t"
  have all: "user_funds db' (ta_UserId t) = user_funds db (ta_UserId t) + wallet_share t
    \<and> sub_used db' (ta_SubscriptionId t) = sub_used db (ta_SubscriptionId t) - sub_share t
    \<and> token_funds db' (ta_TokenId t) = token_funds db (ta_TokenId t) + ta_Quota t
    \<and> (u \<noteq> ta_UserId t \<longrightarrow> user_funds db' u = user_funds db u)
    \<and> (ta_Quota t \<noteq> 0 \<longrightarrow> es = [TaskLog LogTypeRefund (ta_UserId t) (ta_Quota t) (taskModelName t')])"
  proof (cases "ta_Quota t = 0")
    case True
    then have "wallet_share t = 0" "sub_share t = 0" using assms(1) by (auto simp: task_ready_def task_ok_def)
    then show ?thesis using True assms(8) by (simp add: RefundTaskQuota_def)
  next
    case False
    obtain t1 db1 where adj: "taskAdjustFunding ?d (t, db) = (Inr (), (t1, db1))" "db_faults db1 = []"
      and moved: "task_moved ?d t db (t1\<lparr>ta_Quota := ta_Quota t1 + ?d\<rparr>, db1)"
      using adjust_exact [OF assms(4,1-3)] .
    then have same: "ta_Quota t1 = ta_Quota t" "ta_TokenId t1 = ta_TokenId t" "ta_UserId t1 = ta_UserId t" "has_token db1 (ta_TokenId t)"
      using assms(6) by (simp_all add: task_moved_def charged_def token_frame_def)
    have res: "t' = t1" "db' = taskAdjustTokenQuota keys t1 ?d db1"
      "es = [TaskLog LogTypeRefund (ta_UserId t1) (ta_Quota t) (taskModelName t1)]"
      using assms(8) adj(1) False by (auto simp: RefundTaskQuota_def Let_def)
    have "token_moved db1 (ta_TokenId t) (- ?d) db'"
      using token_adjusted [OF adj(2), of ?d t1 keys] assms(5-7) same False by (simp add: res)
    note books = token_step_books [OF moved this assms(6)]
    have "wallet_share (t1\<lparr>ta_Quota := ta_Quota t1 + ?d\<rparr>) = 0" "sub_share (t1\<lparr>ta_Quota := ta_Quota t1 + ?d\<rparr>) = 0"
      using books(5,6) by (auto simp: task_ok_def)
    then show ?thesis using books(1-4) by (simp add: res same)
  qed
  then show "user_funds db' (ta_UserId t) = user_funds db (ta_UserId t) + wallet_share t"
    "sub_used db' (ta_SubscriptionId t) = sub_used db (ta_SubscriptionId t) - sub_share t"
    "token_funds db' (ta_TokenId t) = token_funds db (ta_TokenId t) + ta_Quota t"
    "u \<noteq> ta_UserId t \<Longrightarrow> user_funds db' u = user_funds db u"
    "ta_Quota t \<noteq> 0 \<Longrightarrow> es = [TaskLog LogTypeRefund (ta_UserId t) (ta_Quota t) (taskModelName t')]"
    by blast+
qed

text \<open>Refunding a failed task returns everything it cost, to the sources that paid it: the wallet gets its
  share, the subscription its share and the token the whole quota, when no query fails; no other user
  is touched.\<close>

lemma task_refund_exact:
  assumes "task_ready t db" and "task_fits t db (- ta_Quota t)" and "can_pay t db (- ta_Quota t)" and "db_faults db = []"
    and "0 < ta_TokenId t" and "has_token db (ta_TokenId t)" and "keys (ta_TokenId t) \<noteq> []"
    and "RefundTaskQuota keys (t, db) = (es, (t', db'))"
  shows "user_funds db' (ta_UserId t) = user_funds db (ta_UserId t) + wallet_share t
    \<and> sub_used db' (ta_SubscriptionId t) = sub_used db (ta_SubscriptionId t) - sub_share t
    \<and> token_funds db' (ta_TokenId t) = token_funds db (ta_TokenId t) + ta_Quota t
    \<and> (u \<noteq> ta_UserId t \<longrightarrow> user_funds db' u = user_funds db u)
    \<and> (ta_Quota t \<noteq> 0 \<longrightarrow> es = [TaskLog LogTypeRefund (ta_UserId t) (ta_Quota t) (taskModelName t')])"
  by (intro conjI impI; (elim conjE)?; rule refunded_books [where keys = keys, OF assms]; assumption)

lemma task_refund_exact_witness:
  "\<exists>es t' db'. RefundTaskQuota (\<lambda>_. ''sk'') (example_task, example_db) = (es, (t', db'))
     \<and> user_funds db' 5 = 1050 \<and> sub_used db' 4 = 10 \<and> token_funds db' 9 = 870"
proof -
  obtain es t' db' where r: "RefundTaskQuota (\<lambda>_. ''sk'') (example_task, example_db) = (es, (t', db'))"
    using prod_cases3 by blast
  have pre: "task_fits example_task example_db (- ta_Quota example_task)" "can_pay example_task example_db (- ta_Quota example_task)"
    using example_task_ready(2) [of "- 70"] example_task_ready(3) by (simp_all add: example_task_values)
  have tok: "0 < ta_TokenId example_task" "has_token example_db (ta_TokenId example_task)" "(\<lambda>_. ''sk'') (ta_TokenId example_task) \<noteq> ([] :: string)"
    by (simp_all add: example_task_values example_task_books)
  note law = task_refund_exact [OF example_task_ready(1) pre example_db_faults(1) tok r]
  show ?thesis using law r by (simp add: example_task_values example_task_books)
qed

section \<open>The older quota path\<close>

text \<open>A request without a session that is paid from the wallet: a settlement charges user and token its delta.\<close>

lemma legacy_settlement:
  assumes "ri_BillingSource info \<noteq> BillingSourceSubscription" and "\<not> token_exempt info"
    and "has_user db (ri_UserId info)" and "has_token db (ri_TokenId info)"
  shows "outcome (PostConsumeQuota q (info, db)) (\<lambda>_ (info', db'). info' = info
      \<and> user_funds db' (ri_UserId info) = user_funds db (ri_UserId info) - q
      \<and> token_funds db' (ri_TokenId info) = token_funds db (ri_TokenId info) - q) (\<lambda>_. True)"
proof -
  let ?u = "ri_UserId info" and ?t = "ri_TokenId info"
  have token: "outcome (adjust_token info q db1) (\<lambda>_ db'. user_funds db' = user_funds db1
      \<and> token_funds db' ?t = token_funds db1 ?t - q) (\<lambda>_. True)" if "has_token db1 ?t" for db1
    using assms(2) that
    by (auto simp: adjust_token_def token_moved_def tokens_only_same intro!: outcome_mono [OF quota_specs(3)] outcome_mono [OF quota_specs(4)])
  have user: "outcome (if q > 0 then DecreaseUserQuota db ?u q else IncreaseUserQuota db ?u (- q)) (\<lambda>_. user_moved db ?u (- q)) (\<lambda>_. True)"
    by (auto intro!: outcome_mono [OF quota_specs(1)] outcome_mono [OF quota_specs(2)])
  have "outcome (if q > 0 then DecreaseUserQuota db ?u q else IncreaseUserQuota db ?u (- q)) (\<lambda>_ db1.
      outcome (adjust_token info q db1) (\<lambda>_ db'. user_funds db' ?u = user_funds db ?u - q
        \<and> token_funds db' ?t = token_funds db ?t - q) (\<lambda>_. True)) (\<lambda>_. True)"
    by (rule outcome_mono [OF user], rule outcome_mono [OF token])
      (use assms(3,4) in \<open>auto simp: user_moved_def users_only_same\<close>)
  then show ?thesis using assms(1)
    by (cases "q > 0") (simp_all add: PostConsumeQuota_def outcome_on_db)
qed

text \<open>A token that was refused is refused again for thirty seconds, without a look at the database.\<close>

lemma cooldown_refuses:
  assumes "PreConsumeQuota now trust (Inr userQuota) remain tokenQuota quota cooldowns (info, db) = (cooldowns', Inl e, s)"
    and "userQuota < quota \<or> userQuota \<le> 0" and "0 < ri_TokenId info" and "\<not> cooling now info cooldowns"
    and "later < now + 30 * Second"
  shows "PreConsumeQuota later trust read' remain' tokenQuota' quota' cooldowns' (info, db') =
    (cooldowns', Inl (InsufficientUserQuota, UserQuotaInsufficient), (info, db'))"
proof -
  have "cooldowns' = gput (ri_TokenId info) (now + 30 * Second) (gdel (ri_TokenId info) cooldowns)"
    using assms(1-4) by (auto simp: PreConsumeQuota_def Let_def markInsufficientUserQuotaTokenCooldown_def
        insufficientUserQuotaTokenCooldown_def)
  then have "cooling later info cooldowns'" using assms(3,5) by (simp add: cooling_def go_map_simps)
  then show ?thesis by (simp add: PreConsumeQuota_def)
qed

text \<open>What the older path pre-consumed, a failed request gets back.\<close>

lemma legacy_return:
  assumes "PreConsumeQuota now trust (Inr userQuota) remain tokenQuota quota cooldowns (info, db) = (cooldowns', Inr (), (info', db1))"
    and "ri_BillingSource info \<noteq> BillingSourceSubscription" and "\<not> token_exempt info"
    and "has_user db (ri_UserId info)" and "has_token db (ri_TokenId info)" and "db_faults db1 = []"
    and "ri_FinalPreConsumedQuota info = 0" and "0 \<le> quota"
  shows "user_funds (ReturnPreConsumedQuota info' db1) (ri_UserId info) = user_funds db (ri_UserId info)
    \<and> token_funds (ReturnPreConsumedQuota info' db1) (ri_TokenId info) = token_funds db (ri_TokenId info)"
proof -
  define q where "q = trusted_quota trust userQuota tokenQuota (info\<lparr>ri_UserQuota := userQuota\<rparr>) quota"
  let ?i = "info\<lparr>ri_UserQuota := userQuota\<rparr>" and ?u = "ri_UserId info" and ?t = "ri_TokenId info"
  have q: "0 \<le> q" using assms(8) by (simp add: q_def trusted_quota_def)
  define x where "x = bnd (if q > 0 then
        bnd (with_code PreConsumeTokenQuotaFailed (on_db (\<lambda>db. PreConsumeTokenQuota remain ?i db q) (?i, db)))
          (\<lambda>_ s. with_code UpdateDataError (on_db (\<lambda>db. DecreaseUserQuota db ?u q) s))
      else (Inr (), (?i, db))) (\<lambda>_ (info, db). (Inr (), (info\<lparr>ri_FinalPreConsumedQuota := q\<rparr>, db)))"
  have run: "x = (Inr (), (info', db1))"
    using assms(1) by (auto simp: PreConsumeQuota_def Let_def q_def x_def split: if_splits)
  have "outcome (PreConsumeTokenQuota remain ?i db q) (\<lambda>_ db'. token_moved db ?t (- q) db') (\<lambda>_. True)"
    using assms(3) by (auto simp: PreConsumeTokenQuota_def token_exempt_def split: sum.split intro!: outcome_mono [OF quota_specs(4)])
  then have "outcome (PreConsumeTokenQuota remain ?i db q) (\<lambda>_ db2. outcome (DecreaseUserQuota db2 ?u q) (\<lambda>_ db3.
      user_funds db3 ?u = user_funds db ?u - q \<and> token_funds db3 ?t = token_funds db ?t - q
      \<and> has_user db3 = has_user db \<and> has_token db3 = has_token db) (\<lambda>_. True)) (\<lambda>_. True)"
    by (rule outcome_mono, intro outcome_mono [OF quota_specs(2)])
      (use assms(4,5) in \<open>auto simp: token_moved_def tokens_only_same user_moved_def users_only_same\<close>)
  then have "outcome x (\<lambda>_ (i, db3). i = ?i\<lparr>ri_FinalPreConsumedQuota := q\<rparr> \<and> user_funds db3 ?u = user_funds db ?u - q
      \<and> token_funds db3 ?t = token_funds db ?t - q \<and> has_user db3 = has_user db \<and> has_token db3 = has_token db) (\<lambda>_. True)"
    unfolding x_def using q by (cases "q > 0") (auto simp: outcome_with_code outcome_on_db elim!: outcome_mono)
  from outcomeD [OF this run] have i: "info' = ?i\<lparr>ri_FinalPreConsumedQuota := q\<rparr>" and f: "user_funds db1 ?u = user_funds db ?u - q"
    "token_funds db1 ?t = token_funds db ?t - q" "has_user db1 ?u" "has_token db1 ?t" using assms(4,5) by auto
  show ?thesis
  proof (cases "q = 0")
    case True
    then show ?thesis using i f by (simp add: ReturnPreConsumedQuota_def)
  next
    case False
    obtain db2 db3 where "IncreaseUserQuota db1 ?u q = (Inr (), db2)" "IncreaseTokenQuota db2 ?t q = (Inr (), db3)"
      using no_fault_updates(1) [OF assms(6) q] no_fault_updates(3) [OF _ q] by metis
    then have "PostConsumeQuota (- q) (info', db1) = (Inr (), (info', db3))"
      using assms(2,3) q False by (simp add: PostConsumeQuota_def on_db_def adjust_token_def i token_exempt_def)
    moreover from this have "user_funds db3 ?u = user_funds db1 ?u + q \<and> token_funds db3 ?t = token_funds db1 ?t + q"
      using outcomeD [OF legacy_settlement [of info' db1 "- q"]] assms(2,3) f i by (simp add: token_exempt_def)
    ultimately show ?thesis using f False i by (simp add: ReturnPreConsumedQuota_def)
  qed
qed

end
