(* ===== verification/Task_Polling.thy ===== *)
theory Task_Polling
  imports Task_Properties
begin

text \<open>
  Several pollers over one task table: every interleaving of reading tasks, sweeping timed out ones,
  applying results and marking the tasks of a lost channel, with copies as stale as they may be. A task
  is billed at most once when it ends, because a final status is only written over the status the copy
  was read with. The poller for Suno tasks has no such guard, and pays back again after a failed write.
\<close>

section \<open>Pollers\<close>

definition table_ok :: "task_world \<Rightarrow> bool" where
  "table_ok w \<longleftrightarrow> gwf (tw_tasks w) \<and> (\<forall>k t. map_of (tw_tasks w) k = Some t \<longrightarrow> ta_ID t = k)"

text \<open>
  \<open>polled w cs ids\<close>: a reachable table \<open>w\<close>, with the copies \<open>cs\<close> that the pollers have read so far; \<open>ids\<close>
  lists, newest first, the tasks for which a step changed the books. Other requests may insert tasks and
  change the books at any time.
\<close>

inductive polled :: "task_world \<Rightarrow> task list \<Rightarrow> int list \<Rightarrow> bool" where
  start: "table_ok w \<Longrightarrow> polled w [] []"
| insert: "polled w cs ids \<Longrightarrow> map_of (tw_tasks w) (ta_ID t) = None
    \<Longrightarrow> polled (w\<lparr>tw_tasks := gput (ta_ID t) t (tw_tasks w)\<rparr>) cs ids"
| others: "polled w cs ids \<Longrightarrow> polled (w\<lparr>tw_db := db\<rparr>) cs ids"
| read: "polled w cs ids \<Longrightarrow> GetAllUnFinishSyncTasks limit w = (ts, w') \<Longrightarrow> polled w' (ts @ cs) ids"
| read_timed_out: "polled w cs ids \<Longrightarrow> GetTimedOutUnfinishedTasks cutoff limit w = (ts, w') \<Longrightarrow> polled w' (ts @ cs) ids"
| sweep: "polled w cs ids \<Longrightarrow> t \<in> set cs \<Longrightarrow> sweep_task keys now reason legacyReason t w = w'
    \<Longrightarrow> polled w' cs (if unchanged (tw_db w) (tw_db w') then ids else ta_ID t # ids)"
| video: "polled w cs ids \<Longrightarrow> t \<in> set cs \<Longrightarrow> updateVideoSingleTask keys rates adjusted now addr r data t w = w'
    \<Longrightarrow> polled w' cs (if unchanged (tw_db w) (tw_db w') then ids else ta_ID t # ids)"
| channel_gone: "polled w cs ids \<Longrightarrow> set ts \<subseteq> set cs \<Longrightarrow> polled (video_channel_gone reason ts w) cs ids"

section \<open>One step\<close>

lemma query_unchanged: "unchanged db (snd (db_query db))"
  by (simp add: db_query_def split: list.split)

lemma UpdateWithStatus_cases:
  obtains (lost) r w' where "UpdateWithStatus from t w = (r, w')" "r \<noteq> Inr True" "tw_tasks w' = tw_tasks w"
      "unchanged (tw_db w) (tw_db w')"
    | (won) row w' where "UpdateWithStatus from t w = (Inr True, w')" "map_of (tw_tasks w) (ta_ID t) = Some row"
      "ta_Status row = from" "tw_tasks w' = gput (ta_ID t) t (tw_tasks w)" "unchanged (tw_db w) (tw_db w')"
proof -
  obtain r db where q: "db_query (tw_db w) = (r, db)" by fastforce
  then have un: "unchanged (tw_db w) db" using query_unchanged [of "tw_db w"] by simp
  show ?thesis
  proof (cases "(case r of Inl _ \<Rightarrow> False | Inr _ \<Rightarrow> True) \<and> (\<exists>row. map_of (tw_tasks w) (ta_ID t) = Some row \<and> ta_Status row = from)")
    case True
    then obtain row where "map_of (tw_tasks w) (ta_ID t) = Some row" "ta_Status row = from" by blast
    with True q un show ?thesis by (intro won) (auto simp: UpdateWithStatus_def split: sum.splits)
  next
    case False
    then show ?thesis
      using q un lost by (cases r; cases "map_of (tw_tasks w) (ta_ID t)") (auto simp: UpdateWithStatus_def)
  qed
qed

lemma bill_tasks [simp]: "tw_tasks (snd (bill f t w)) = tw_tasks w"
  by (simp add: bill_def split: prod.split)

text \<open>
  What a step with the copy \<open>t\<close> may do: leave the table and the books alone, or write the row of \<open>t\<close> over
  the status of the copy; the books change only with a final status.
\<close>

definition task_step :: "task \<Rightarrow> task_world \<Rightarrow> task_world \<Rightarrow> bool" where
  "task_step t w w' \<longleftrightarrow>
     tw_tasks w' = tw_tasks w \<and> unchanged (tw_db w) (tw_db w')
     \<or> (\<exists>row t'. map_of (tw_tasks w) (ta_ID t) = Some row \<and> ta_Status row = ta_Status t \<and> ta_ID t' = ta_ID t
          \<and> tw_tasks w' = gput (ta_ID t) t' (tw_tasks w) \<and> (final_status t' \<or> unchanged (tw_db w) (tw_db w')))"

lemma sweep_step: "task_step t w (sweep_task keys now reason legacyReason t w)"
proof -
  define t' where "t' = t\<lparr>ta_Status := TaskStatusFailure, ta_Progress := ''100%'', ta_FinishTime := now,
    ta_FailReason := (if ta_SubmitTime t > 0 \<and> ta_SubmitTime t < legacyTaskCutoff then legacyReason else reason)\<rparr>"
  have t': "ta_ID t' = ta_ID t" "final_status t'" by (simp_all add: t'_def final_status_def)
  show ?thesis
  proof (cases rule: UpdateWithStatus_cases [of "ta_Status t" t' w])
    case (lost r w')
    then show ?thesis
      by (cases r) (auto simp: sweep_task_def Let_def t'_def [symmetric] task_step_def)
  next
    case (won row w')
    then show ?thesis using t'
      by (auto simp: sweep_task_def Let_def t'_def [symmetric] task_step_def)
  qed
qed

lemma read_result_status: "read_result now addr r t = Some t' \<Longrightarrow> ta_ID t' = ta_ID t \<and> ta_Status t' = ti_Status r"
  by (auto simp: read_result_def Let_def started_def finished_def split: if_splits)

lemma video_step:
  assumes "\<not> final_status t"
  shows "task_step t w (updateVideoSingleTask keys rates adjusted now addr r data t w)"
proof (cases "read_result now addr r (t\<lparr>ta_Data := data\<rparr>)")
  case None
  then show ?thesis by (simp add: updateVideoSingleTask_def task_step_def)
next
  case (Some t')
  then have t': "ta_ID t' = ta_ID t" "ta_Status t' = ti_Status r" using read_result_status by fastforce+
  have open_t: "ta_Status t \<noteq> TaskStatusSuccess" "ta_Status t \<noteq> TaskStatusFailure" using assms by (auto simp: final_status_def)
  have fin: "final_status t' \<longleftrightarrow> ti_Status r = TaskStatusSuccess \<or> ti_Status r = TaskStatusFailure" by (simp add: final_status_def t')
  have ne: "TaskStatusSuccess \<noteq> TaskStatusFailure" by (simp add: TaskStatusSuccess_def TaskStatusFailure_def)
  show ?thesis
  proof (cases rule: UpdateWithStatus_cases [of "ta_Status t" t' w])
    case (lost s w')
    then show ?thesis using Some fin open_t t'
      by (cases s) (auto simp: updateVideoSingleTask_def persist_result_def task_step_def)
  next
    case (won row w')
    then show ?thesis using Some fin open_t t'
      by (cases "final_status t'") (auto simp: updateVideoSingleTask_def persist_result_def task_step_def)
  qed
qed

section \<open>Billed once\<close>

definition polled_ok :: "task_world \<Rightarrow> task list \<Rightarrow> int list \<Rightarrow> bool" where
  "polled_ok w cs ids \<longleftrightarrow> table_ok w \<and> (\<forall>t \<in> set cs. \<not> final_status t) \<and> distinct ids
     \<and> (\<forall>i \<in> set ids. \<exists>t. map_of (tw_tasks w) i = Some t \<and> final_status t)"

lemma table_ok_cong: "tw_tasks w = tw_tasks w' \<Longrightarrow> table_ok w = table_ok w'"
  by (simp add: table_ok_def)

lemma table_ok_put: "table_ok w \<Longrightarrow> table_ok (w\<lparr>tw_tasks := gput (ta_ID t) t (tw_tasks w)\<rparr>)"
  by (simp add: table_ok_def go_map_simps)

lemma find_tasks_unfinished:
  assumes "find_tasks P w = (ts, w')" and "t \<in> set ts"
  shows "P t"
  using assms by (auto simp: find_tasks_def split: prod.splits sum.splits)

lemma find_tasks_table: "find_tasks P w = (ts, w') \<Longrightarrow> tw_tasks w' = tw_tasks w"
  by (auto simp: find_tasks_def split: prod.splits sum.splits)

lemma read_unfinished:
  assumes "GetAllUnFinishSyncTasks limit w = (ts, w')"
  shows "\<forall>t \<in> set ts. \<not> final_status t" and "tw_tasks w' = tw_tasks w"
proof -
  obtain ts0 where f: "find_tasks unfinished w = (ts0, w')" and "ts = take (nat limit) (SliceStable (\<lambda>a b. ta_ID a < ta_ID b) ts0)"
    using assms by (auto simp: GetAllUnFinishSyncTasks_def split: prod.splits)
  then have "set ts \<subseteq> set ts0" using set_take_subset [of "nat limit"] mset_SliceStable [of "\<lambda>a b. ta_ID a < ta_ID b" ts0]
    by (metis set_mset_mset)
  then show "\<forall>t \<in> set ts. \<not> final_status t"
    using find_tasks_unfinished [OF f] by (auto simp: unfinished_def final_status_def)
  show "tw_tasks w' = tw_tasks w" by (rule find_tasks_table [OF f])
qed

lemma read_timed_out_unfinished:
  assumes "GetTimedOutUnfinishedTasks cutoff limit w = (ts, w')"
  shows "\<forall>t \<in> set ts. \<not> final_status t" and "tw_tasks w' = tw_tasks w"
proof -
  obtain ts0 where f: "find_tasks (\<lambda>t. unfinished t \<and> ta_SubmitTime t < cutoff) w = (ts0, w')"
    and "ts = take (nat limit) (SliceStable (\<lambda>a b. ta_SubmitTime a < ta_SubmitTime b) ts0)"
    using assms by (auto simp: GetTimedOutUnfinishedTasks_def split: prod.splits)
  then have "set ts \<subseteq> set ts0" using set_take_subset [of "nat limit"] mset_SliceStable [of "\<lambda>a b. ta_SubmitTime a < ta_SubmitTime b" ts0]
    by (metis set_mset_mset)
  then show "\<forall>t \<in> set ts. \<not> final_status t"
    using find_tasks_unfinished [OF f] by (auto simp: unfinished_def final_status_def)
  show "tw_tasks w' = tw_tasks w" by (rule find_tasks_table [OF f])
qed

lemma task_step_ok:
  assumes "polled_ok w cs ids" and "t \<in> set cs" and "task_step t w w'"
  shows "polled_ok w' cs (if unchanged (tw_db w) (tw_db w') then ids else ta_ID t # ids)"
proof -
  have open_t: "\<not> final_status t" using assms(1,2) by (simp add: polled_ok_def)
  from assms(3) consider "tw_tasks w' = tw_tasks w" "unchanged (tw_db w) (tw_db w')"
    | row t' where "map_of (tw_tasks w) (ta_ID t) = Some row" "ta_Status row = ta_Status t" "ta_ID t' = ta_ID t"
      "tw_tasks w' = gput (ta_ID t) t' (tw_tasks w)" "final_status t' \<or> unchanged (tw_db w) (tw_db w')"
    unfolding task_step_def by blast
  then show ?thesis
  proof cases
    case 1
    then show ?thesis using assms(1) by (simp add: polled_ok_def table_ok_def)
  next
    case 2
    have "\<not> final_status row" using open_t 2(2) by (simp add: final_status_def)
    then have "ta_ID t \<notin> set ids" using assms(1) 2(1) by (auto simp: polled_ok_def)
    moreover have "table_ok w'"
      using table_ok_put [of w t'] assms(1) table_ok_cong [of w' "w\<lparr>tw_tasks := gput (ta_ID t') t' (tw_tasks w)\<rparr>"]
      by (simp add: polled_ok_def 2(3,4))
    moreover have rows: "map_of (tw_tasks w') i = (if i = ta_ID t then Some t' else map_of (tw_tasks w) i)" for i
      by (simp add: 2(4) go_map_simps)
    have "\<exists>t. map_of (tw_tasks w') i = Some t \<and> final_status t" if "i \<in> set ids" for i
      using that assms(1) \<open>ta_ID t \<notin> set ids\<close> by (auto simp: polled_ok_def rows)
    moreover have "final_status t'" if "\<not> unchanged (tw_db w) (tw_db w')" using 2(5) that by blast
    ultimately show ?thesis using assms(1) by (simp add: polled_ok_def rows)
  qed
qed

lemma map_of_bulk: "map_of (map (\<lambda>(k, t). (k, f k t)) m) i = map_option (f i) (map_of m i)"
  by (induction m) auto

lemma channel_gone_ok:
  assumes "polled_ok w cs ids"
  shows "polled_ok (video_channel_gone reason ts w) cs ids"
proof -
  have keep: "final_status (bulk_failure (Some reason) t)" "ta_ID (bulk_failure (Some reason) t) = ta_ID t" for t
    by (simp_all add: bulk_failure_def final_status_def)
  define m where "m = map (\<lambda>(k, t). (k, if k \<in> ta_ID ` set ts then bulk_failure (Some reason) t else t)) (tw_tasks w)"
  have "map fst m = map fst (tw_tasks w)" by (simp add: m_def case_prod_unfold)
  have rows: "map_of m i = map_option (\<lambda>t. if i \<in> ta_ID ` set ts then bulk_failure (Some reason) t else t) (map_of (tw_tasks w) i)" for i
    unfolding m_def by (rule map_of_bulk)
  have ok: "polled_ok w' cs ids" if "tw_tasks w' = m" for w'
  proof -
    have "gwf (tw_tasks w')" using assms that \<open>map fst m = map fst (tw_tasks w)\<close> by (simp add: polled_ok_def table_ok_def gwf_def)
    moreover have "ta_ID t = k" if "map_of m k = Some t" for k t
      using that assms keep rows [of k] by (auto simp: polled_ok_def table_ok_def split: if_splits)
    moreover have "\<exists>t. map_of m i = Some t \<and> final_status t" if i: "i \<in> set ids" for i
    proof -
      obtain t where "map_of (tw_tasks w) i = Some t" "final_status t" using assms i by (auto simp: polled_ok_def)
      then show ?thesis using keep rows [of i] by simp
    qed
    ultimately show ?thesis using assms that by (simp add: polled_ok_def table_ok_def)
  qed
  have "tw_tasks (video_channel_gone reason ts w) = m \<or> tw_tasks (video_channel_gone reason ts w) = tw_tasks w"
    by (auto simp: video_channel_gone_def TaskBulkUpdateByID_def m_def split: prod.split sum.split)
  then show ?thesis using ok assms by (auto simp: polled_ok_def table_ok_def)
qed

lemma polled_invariant: "polled w cs ids \<Longrightarrow> polled_ok w cs ids"
proof (induction rule: polled.induct)
  case (start w)
  then show ?case by (simp add: polled_ok_def)
next
  case (insert w cs ids t)
  then show ?case using table_ok_put [of w t] by (auto simp: polled_ok_def go_map_simps)
next
  case (others w cs ids db)
  then show ?case by (simp add: polled_ok_def table_ok_def)
next
  case (read w cs ids limit ts w')
  then show ?case using read_unfinished [OF read.hyps(2)] by (auto simp: polled_ok_def table_ok_def)
next
  case (read_timed_out w cs ids cutoff limit ts w')
  then show ?case using read_timed_out_unfinished [OF read_timed_out.hyps(2)] by (auto simp: polled_ok_def table_ok_def)
next
  case (sweep w cs ids t keys now reason legacyReason w')
  then show ?case using task_step_ok sweep_step by blast
next
  case (video w cs ids t keys rates adjusted now addr r data w')
  then have "\<not> final_status t" by (simp add: polled_ok_def)
  with video show ?case using task_step_ok video_step by blast
next
  case (channel_gone w cs ids ts reason)
  then show ?case using channel_gone_ok by blast
qed

lemma task_billed_once_facts:
  assumes "polled w cs ids"
  shows "distinct ids" and "i \<in> set ids \<Longrightarrow> \<exists>t. map_of (tw_tasks w) i = Some t \<and> final_status t"
    and "GetAllUnFinishSyncTasks limit w = (ts, w') \<Longrightarrow> t \<in> set ts \<Longrightarrow> ta_ID t \<notin> set ids"
proof -
  have inv: "polled_ok w cs ids" using polled_invariant [OF assms] .
  show "distinct ids" "i \<in> set ids \<Longrightarrow> \<exists>t. map_of (tw_tasks w) i = Some t \<and> final_status t"
    using inv by (auto simp: polled_ok_def)
  show "ta_ID t \<notin> set ids" if r: "GetAllUnFinishSyncTasks limit w = (ts, w')" and t: "t \<in> set ts"
  proof -
    have "set ts \<subseteq> set (map snd (tw_tasks w))"
    proof -
      obtain ts0 where "find_tasks unfinished w = (ts0, w')" and "ts = take (nat limit) (SliceStable (\<lambda>a b. ta_ID a < ta_ID b) ts0)"
        using r by (auto simp: GetAllUnFinishSyncTasks_def split: prod.splits)
      then have "set ts \<subseteq> set ts0" "set ts0 \<subseteq> set (map snd (tw_tasks w))"
        using set_take_subset [of "nat limit"] mset_SliceStable [of "\<lambda>a b. ta_ID a < ta_ID b" ts0]
        by (metis set_mset_mset, auto simp: find_tasks_def split: prod.splits sum.splits)
      then show ?thesis by blast
    qed
    then have "map_of (tw_tasks w) (ta_ID t) = Some t"
      using t inv by (force simp: polled_ok_def table_ok_def gwf_mem_iff)
    then show ?thesis using inv read_unfinished(1) [OF r] t by (auto simp: polled_ok_def)
  qed
qed


text \<open>Two pollers that both read the task before it timed out: the second finds its status changed.\<close>

definition example_world :: task_world where
  "example_world = \<lparr>tw_tasks = [(1, example_task)], tw_db = example_db, tw_effects = []\<rparr>"

definition example_sweep :: "task_world \<Rightarrow> task_world" where
  "example_sweep = sweep_task (\<lambda>_. ''sk'') 1760009999 ''timeout'' ''legacy'' example_task"

lemma example_polled: "polled (example_sweep (example_sweep example_world)) [example_task] [1]"
proof -
  have "table_ok example_world" by (simp add: table_ok_def example_world_def gwf_def example_task_def)
  moreover have "GetAllUnFinishSyncTasks 10 example_world = ([example_task], example_world)" by code_simp
  ultimately have "polled example_world [example_task] []" using polled.start polled.read by fastforce
  then have one: "polled (example_sweep example_world) [example_task]
      (if unchanged (tw_db example_world) (tw_db (example_sweep example_world)) then [] else [ta_ID example_task])"
    by (rule polled.sweep) (simp_all add: example_sweep_def)
  have u: "\<not> unchanged (tw_db example_world) (tw_db (example_sweep example_world))"
    "unchanged (tw_db (example_sweep example_world)) (tw_db (example_sweep (example_sweep example_world)))"
    unfolding unchanged_def by code_simp+
  from one have "polled (example_sweep example_world) [example_task] [1]" using u by (simp add: example_task_def)
  from polled.sweep [OF this, of example_task _ _ _ _ "example_sweep (example_sweep example_world)"] show ?thesis
    using u(2) by (auto simp: example_sweep_def)
qed


section \<open>Suno tasks\<close>

text \<open>A wallet-funded task is refunded with three queries when updates are not batched.\<close>

lemma wallet_refund_run:
  assumes "db_faults db = False # False # False # fs \<or> db_faults db = [] \<and> fs = []" and "\<not> db_batchEnabled db"
    and "\<not> task_split t" and "\<not> taskIsSubscription t" and "0 < ta_Quota t" and "has_user db (ta_UserId t)"
    and "0 < ta_TokenId t" and "has_token db (ta_TokenId t)" and "keys (ta_TokenId t) \<noteq> []"
  obtains es t' db' where "RefundTaskQuota keys (t, db) = (es, (t', db'))" and "db_faults db' = fs"
    and "user_funds db' (ta_UserId t) = user_funds db (ta_UserId t) + ta_Quota t" and "\<not> db_batchEnabled db'"
    and "has_user db' = has_user db" and "has_token db' = has_token db" and "ta_ID t' = ta_ID t"
proof -
  let ?a = "add_user_quota db (ta_UserId t) (ta_Quota t)"
  obtain row where tok: "map_of (db_tokens ?a) (ta_TokenId t) = Some row"
    using assms(8) add_user_quota_funds(7) [of db "ta_UserId t" "ta_Quota t"] by (auto simp: has_token_def fun_eq_iff)
  have batch: "\<not> db_batchEnabled ?a"
    using assms(2) by (simp add: add_user_quota_def split: option.split)
  have id: "?a\<lparr>db_faults := []\<rparr> = ?a" if "db_faults db = []"
    using that add_quota_id(1) [of db "ta_UserId t" "ta_Quota t"] by simp
  let ?t = "t\<lparr>ta_WalletQuota := not_below_zero (ta_WalletQuota t - ta_Quota t)\<rparr>"
  have adj: "taskAdjustFunding (- ta_Quota t) (t, db) = (Inr (), (?t, ?a\<lparr>db_faults := drop 1 (db_faults db)\<rparr>))"
    using assms(1-5) id by (auto simp: taskAdjustFunding_def task_split_def [symmetric] on_db_def IncreaseUserQuota_def
        increaseUserQuota_def db_query_def add_quota_faults)
  have "taskAdjustTokenQuota keys ?t (- ta_Quota t) (?a\<lparr>db_faults := drop 1 (db_faults db)\<rparr>) =
      add_token_quota (?a\<lparr>db_faults := fs\<rparr>) (ta_TokenId t) (ta_Quota t)"
    using assms(1,5,7,9) tok batch id add_user_quota_funds(3) [of db "ta_UserId t" "ta_Quota t"]
    by (auto simp: taskAdjustTokenQuota_def resolveTokenKey_def db_query_def IncreaseTokenQuota_def increaseTokenQuota_def)
  with adj assms(5)
  have "RefundTaskQuota keys (t, db) = ([TaskLog LogTypeRefund (ta_UserId t) (ta_Quota t) (taskModelName ?t)],
      (?t, add_token_quota (?a\<lparr>db_faults := fs\<rparr>) (ta_TokenId t) (ta_Quota t)))"
    by (simp add: RefundTaskQuota_def Let_def)
  then show ?thesis
  proof (rule that)
    have funds: "user_funds (?a\<lparr>db_faults := fs\<rparr>) = user_funds ?a" "has_user (?a\<lparr>db_faults := fs\<rparr>) = has_user ?a"
      "has_token (?a\<lparr>db_faults := fs\<rparr>) = has_token ?a"
      by (simp_all add: user_funds_def has_user_def has_token_def fun_eq_iff)
    have users: "has_user (add_token_quota x k v) = has_user x" for x k v
      by (simp add: add_token_quota_def has_user_def fun_eq_iff split: option.split)
    show "user_funds (add_token_quota (?a\<lparr>db_faults := fs\<rparr>) (ta_TokenId t) (ta_Quota t)) (ta_UserId t) =
        user_funds db (ta_UserId t) + ta_Quota t"
      using assms(6) by (simp add: add_token_quota_funds funds add_user_quota_funds)
    show "has_user (add_token_quota (?a\<lparr>db_faults := fs\<rparr>) (ta_TokenId t) (ta_Quota t)) = has_user db"
      by (simp add: users funds add_user_quota_funds)
    show "has_token (add_token_quota (?a\<lparr>db_faults := fs\<rparr>) (ta_TokenId t) (ta_Quota t)) = has_token db"
      by (simp add: add_token_quota_funds funds add_user_quota_funds)
  qed (use batch in \<open>auto simp: add_token_quota_funds add_token_quota_def split: option.split\<close>)
qed

text \<open>The poller of Suno tasks returns the quota of a failed task before it writes the task back, and
  unconditionally: when that write fails, the task is still unfinished in the table, the next poll
  reads it again and returns the quota a second time.\<close>

lemma suno_refund_repeats:
  fixes marshal :: "string \<Rightarrow> string"
  assumes "map_of (tw_tasks w) (ta_ID t) = Some t" and "unfinished t" and "si_Status item = TaskStatusFailure"
    and "db_faults (tw_db w) = [False, False, False, True]" and "\<not> db_batchEnabled (tw_db w)"
    and "\<not> task_split t" and "\<not> taskIsSubscription t" and "0 < ta_Quota t" and "has_user (tw_db w) (ta_UserId t)"
    and "0 < ta_TokenId t" and "has_token (tw_db w) (ta_TokenId t)" and "keys (ta_TokenId t) \<noteq> []"
  defines "w1 \<equiv> update_suno_item keys marshal item t w"
  defines "w2 \<equiv> update_suno_item keys marshal item t w1"
  shows "map_of (tw_tasks w1) (ta_ID t) = Some t \<and> db_faults (tw_db w1) = []
    \<and> user_funds (tw_db w2) (ta_UserId t) = user_funds (tw_db w) (ta_UserId t) + 2 * ta_Quota t"
proof -
  have need: "taskNeedsUpdate marshal t item" and fail: "TaskStatusFailure \<noteq> []"
    using assms(2,3) by (auto simp: taskNeedsUpdate_def unfinished_def TaskStatusFailure_def)
  define f where "f = (suno_read item t)\<lparr>ta_Progress := ''100%''\<rparr>"
  have ids: "ta_ID f = ta_ID t" "ta_UserId f = ta_UserId t" "ta_Quota f = ta_Quota t" "ta_TokenId f = ta_TokenId t"
    "task_split f = task_split t" "taskIsSubscription f = taskIsSubscription t"
    by (simp_all add: f_def suno_read_def task_split_def taskIsSubscription_def taskIsSubscriptionWallet_def taskUsesSubscriptionFirst_def)
  have status: "ta_Status (suno_read item t) = TaskStatusFailure" using assms(3) fail by (simp add: suno_read_def)
  have step: "tw_db (update_suno_item keys marshal item t v) = snd (db_query db') \<and>
      (fst (db_query db') = Inl DbError \<longrightarrow> tw_tasks (update_suno_item keys marshal item t v) = tw_tasks v)"
    if "RefundTaskQuota keys (f, tw_db v) = (es, (t', db'))" for v es t' db'
    using that need status assms(3)
    by (auto simp: update_suno_item_def Let_def f_def [symmetric] bill_def Update_def split: prod.splits sum.splits)
  obtain es t1 db1 where r1: "RefundTaskQuota keys (f, tw_db w) = (es, (t1, db1))" "db_faults db1 = [True]"
    "user_funds db1 (ta_UserId t) = user_funds (tw_db w) (ta_UserId t) + ta_Quota t" "\<not> db_batchEnabled db1"
    "has_user db1 = has_user (tw_db w)" "has_token db1 = has_token (tw_db w)"
    by (rule wallet_refund_run [of "tw_db w" "[True]" f keys]) (use assms(4-12) ids in auto)
  have w1: "tw_db w1 = db1\<lparr>db_faults := []\<rparr>" "tw_tasks w1 = tw_tasks w"
    using step [OF r1(1)] r1(2) by (simp_all add: w1_def db_query_def)
  have d1: "has_user (tw_db w1) (ta_UserId t)" "has_token (tw_db w1) (ta_TokenId t)" "\<not> db_batchEnabled (tw_db w1)"
    "user_funds (tw_db w1) (ta_UserId t) = user_funds db1 (ta_UserId t)"
    using r1 assms(9,11) unchanged_same [OF unchanged_faults [of db1 "[]"]] by (simp_all add: w1)
  obtain es2 t2 db2 where r2: "RefundTaskQuota keys (f, tw_db w1) = (es2, (t2, db2))" "db_faults db2 = []"
    "user_funds db2 (ta_UserId t) = user_funds (tw_db w1) (ta_UserId t) + ta_Quota t"
    by (rule wallet_refund_run [of "tw_db w1" "[]" f keys]) (use assms(6-8,10,12) ids d1 w1(1) in auto)
  have "tw_db w2 = db2" using step [OF r2(1)] r2(2) by (simp add: w2_def db_query_def)
  then show ?thesis using w1 assms(1) r1(3) r2(3) d1(4) by simp
qed

definition example_suno :: task where
  "example_suno = example_task\<lparr>ta_BillingSource := ''wallet'', ta_SubscriptionId := 0, ta_SubscriptionQuota := 0, ta_WalletQuota := 0\<rparr>"

definition example_suno_world :: task_world where
  "example_suno_world = \<lparr>tw_tasks = [(1, example_suno)], tw_db = example_db\<lparr>db_faults := [False, False, False, True]\<rparr>, tw_effects = []\<rparr>"

definition example_suno_item :: suno_item where
  "example_suno_item = \<lparr>si_Status = ''FAILURE'', si_FailReason = ''upstream'', si_SubmitTime = 0, si_StartTime = 0,
     si_FinishTime = 0, si_Data = []\<rparr>"

lemma suno_refund_repeats_witness:
  "user_funds (tw_db (update_suno_item (\<lambda>_. ''sk'') (\<lambda>d. d) example_suno_item example_suno
     (update_suno_item (\<lambda>_. ''sk'') (\<lambda>d. d) example_suno_item example_suno example_suno_world))) 5 = 1000 + 140"
proof -
  have pre: "map_of (tw_tasks example_suno_world) (ta_ID example_suno) = Some example_suno" "unfinished example_suno"
    "si_Status example_suno_item = TaskStatusFailure" "db_faults (tw_db example_suno_world) = [False, False, False, True]"
    "\<not> db_batchEnabled (tw_db example_suno_world)" "\<not> task_split example_suno" "\<not> taskIsSubscription example_suno"
    "0 < ta_Quota example_suno" "has_user (tw_db example_suno_world) (ta_UserId example_suno)"
    "0 < ta_TokenId example_suno" "has_token (tw_db example_suno_world) (ta_TokenId example_suno)"
    "(\<lambda>_. ''sk'') (ta_TokenId example_suno) \<noteq> ([] :: string)"
    by code_simp+
  have vals: "ta_UserId example_suno = 5" "ta_Quota example_suno = 70" "user_funds (tw_db example_suno_world) 5 = 1000"
    by code_simp+
  show ?thesis using suno_refund_repeats [OF pre, where marshal = "\<lambda>d. d"] by (simp add: vals)
qed

end
