(* ===== verification/Task_Lifecycle.thy ===== *)
theory Task_Lifecycle
  imports Task_Polling
begin

text \<open>
  An asynchronous task from the opening of its billing session to its end: what the session charged, what
  the submission records of it, and what the end of the task returns or adjusts.
\<close>

section \<open>What a submission records\<close>

lemma preConsume_synced:
  "preConsume off now trust rd n s = (Inr (), (b, db)) \<Longrightarrow> \<exists>b0. b = syncRelayInfo b0"
  by (auto simp: preConsume_def Let_def bnd_def split: prod.splits sum.splits)

lemma sync_wallet:
  "bs_funding b = WalletFunding w \<Longrightarrow> ri_BillingSource (bs_relayInfo (syncRelayInfo b)) = BillingSourceWallet"
  by (simp add: syncRelayInfo_def Let_def Source_def)

lemma wallet_only_source:
  assumes "NormalizeBillingPreference (ri_BillingPreference info) = ''wallet_only''"
    and "NewBillingSession off now trust rd n (info, db) = (Inr b, (i, db1))" and "bs_funding b = WalletFunding w"
  shows "ri_BillingSource (bs_relayInfo b) = BillingSourceWallet"
proof -
  have "tryWallet (preConsume off now trust rd) rd n (info, db) = (Inr b, (i, db1))"
    using assms(1,2) by (simp add: NewBillingSession_def Let_def)
  then obtain s where "preConsume off now trust rd n s = (Inr (), (b, db1))"
    by (auto simp: tryWallet_def open_session_def split: sum.splits if_splits prod.splits)
  then obtain b0 where "b = syncRelayInfo b0" using preConsume_synced by blast
  then show ?thesis using sync_wallet [of b0 w] assms(3) by simp
qed

lemma settled_source:
  assumes "session_ok b" and "bs_funding b = WalletFunding (w\<lparr>wf_consumed := c\<rparr>)"
    and "ri_BillingSource (bs_relayInfo b) = BillingSourceWallet" and "session_Settle q (b, db) = (Inr (), (b', db'))"
  shows "ri_BillingSource (bs_relayInfo b') = BillingSourceWallet" and "ri_TokenId (bs_relayInfo b') = ri_TokenId (bs_relayInfo b)"
proof -
  obtain c' where f: "bs_funding b' = WalletFunding (w\<lparr>wf_consumed := c'\<rparr>)"
    using wallet_session_settles [OF assms(4,2,1)] by blast
  have open_b: "\<not> bs_settled b" "\<not> bs_fundingSettled b" using assms(1) by (simp_all add: session_ok_def)
  let ?d = "q - bs_preConsumedQuota b"
  show "ri_BillingSource (bs_relayInfo b') = BillingSourceWallet" "ri_TokenId (bs_relayInfo b') = ri_TokenId (bs_relayInfo b)"
  proof (atomize (full), cases "?d = 0")
    case True
    then have "b' = b\<lparr>bs_settled := True\<rparr>" using assms(4) open_b by (auto simp: session_Settle_def)
    then show "ri_BillingSource (bs_relayInfo b') = BillingSourceWallet \<and> ri_TokenId (bs_relayInfo b') = ri_TokenId (bs_relayInfo b)"
      using assms(3) by simp
  next
    case False
    obtain r f1 db1 where settle: "funding_Settle ?d (bs_funding b, db) = (r, (f1, db1))"
      by (cases "funding_Settle ?d (bs_funding b, db)") auto
    have r: "r = Inr ()" using assms(4) False open_b settle by (cases r) (auto simp: session_Settle_def Let_def on_funding_def)
    obtain tr db2 where adj: "adjust_token (bs_relayInfo b) ?d db1 = (tr, db2)" by fastforce
    have "\<exists>b0. b' = (syncRelayInfo b0)\<lparr>bs_settled := True\<rparr> \<and> ri_TokenId (bs_relayInfo b0) = ri_TokenId (bs_relayInfo b)"
      using assms(4) False open_b settle r adj by (auto simp: session_Settle_def Let_def on_funding_def split: if_splits)
    then obtain b0 where b0: "b' = (syncRelayInfo b0)\<lparr>bs_settled := True\<rparr>" "ri_TokenId (bs_relayInfo b0) = ri_TokenId (bs_relayInfo b)"
      by blast
    have "bs_funding b0 = WalletFunding (w\<lparr>wf_consumed := c'\<rparr>)" using f b0(1) by simp
    from sync_wallet [OF this] b0
    show "ri_BillingSource (bs_relayInfo b') = BillingSourceWallet \<and> ri_TokenId (bs_relayInfo b') = ri_TokenId (bs_relayInfo b)"
      by simp
  qed
qed

text \<open>A task whose billing source is the wallet: all of its quota is the wallet's share.\<close>

lemma wallet_task:
  assumes "ri_BillingSource info = BillingSourceWallet"
  shows "\<not> task_split (submitted_task bc info q blank)" and "\<not> taskIsSubscription (submitted_task bc info q blank)"
    and "ta_Quota (submitted_task bc info q blank) = q" and "ta_UserId (submitted_task bc info q blank) = ta_UserId blank"
    and "ta_TokenId (submitted_task bc info q blank) = ri_TokenId info"
    and "wallet_share (submitted_task bc info q blank) = q" and "sub_share (submitted_task bc info q blank) = 0"
  using assms by (auto simp: submitted_task_def task_class wallet_share_def sub_share_def BillingSourceWallet_def)

lemma wallet_recalculate:
  assumes "\<not> task_split t" and "\<not> taskIsSubscription t" and "RecalculateTaskQuota keys actual (t, db) = (es, (t', db'))"
  shows "\<not> task_split t'" and "\<not> taskIsSubscription t'"
  using assms by (auto simp: RecalculateTaskQuota_def Let_def taskAdjustFunding_def task_split_def [symmetric] bnd_def on_db_def
      split: if_splits prod.splits sum.splits)

lemma wallet_task_ready:
  assumes "ri_BillingSource info = BillingSourceWallet" and "0 \<le> q" and "subs_ok db" and "has_user db (ta_UserId blank)"
  shows "task_ready (submitted_task bc info q blank) db"
    and "0 \<le> q + d \<Longrightarrow> task_fits (submitted_task bc info q blank) db d"
    and "can_pay (submitted_task bc info q blank) db d"
  using assms wallet_task [OF assms(1), of bc q blank] by (simp_all add: task_ready_def task_fits_def can_pay_def task_ok_def)

section \<open>The cost of a task\<close>

definition wallet_opened ::
  "int \<Rightarrow> int \<Rightarrow> int \<Rightarrow> session_reads \<Rightarrow> int \<Rightarrow> relay_info \<Rightarrow> billing_db \<Rightarrow> billing_session \<Rightarrow> billing_db \<Rightarrow> bool" where
  "wallet_opened off now trust rd n info db b db1 \<longleftrightarrow>
     subs_ok db \<and> map_of (db_records db) (ri_RequestId info) = None \<and> 0 \<le> n
     \<and> NormalizeBillingPreference (ri_BillingPreference info) = ''wallet_only'' \<and> \<not> token_exempt info
     \<and> has_user db (ri_UserId info) \<and> has_token db (ri_TokenId info)
     \<and> (\<exists>i. NewBillingSession off now trust rd n (info, db) = (Inr b, (i, db1)))"

lemma wallet_opened_facts:
  assumes "wallet_opened off now trust rd n info db b db1"
  obtains w where "session_ok b" and "bs_funding b = WalletFunding (w\<lparr>wf_consumed := bs_preConsumedQuota b\<rparr>)"
    and "wf_userId w = ri_UserId info" and "funding_ready (bs_funding b) db1"
    and "ri_BillingSource (bs_relayInfo b) = BillingSourceWallet" and "ri_TokenId (bs_relayInfo b) = ri_TokenId info"
    and "\<not> token_exempt (bs_relayInfo b)" and "has_token db1 (ri_TokenId info)" and "has_user db1 (ri_UserId info)"
    and "user_funds db1 (ri_UserId info) = user_funds db (ri_UserId info) - bs_preConsumedQuota b"
    and "token_funds db1 (ri_TokenId info) = token_funds db (ri_TokenId info) - bs_preConsumedQuota b"
proof -
  obtain i where o: "NewBillingSession off now trust rd n (info, db) = (Inr b, (i, db1))"
    and a: "subs_ok db" "map_of (db_records db) (ri_RequestId info) = None" "0 \<le> n"
      "NormalizeBillingPreference (ri_BillingPreference info) = ''wallet_only''" "\<not> token_exempt info"
      "has_user db (ri_UserId info)" "has_token db (ri_TokenId info)"
    using assms by (auto simp: wallet_opened_def)
  have ok: "session_ok b" using outcomeD [OF NewBillingSession_ok [OF a(1-3)] o] by simp
  obtain w where w: "wf_userId w = ri_UserId info" and paid: "paid_both w info db (bs_preConsumedQuota b) (b, db1)"
    using wallet_only_opened [OF a(4,3,6,7) o] by blast
  have f: "bs_funding b = WalletFunding (w\<lparr>wf_consumed := bs_preConsumedQuota b\<rparr>)" using paid by (simp add: paid_both_def)
  show ?thesis
    by (rule that [OF ok f w _ wallet_only_source [OF a(4) o f]])
      (use paid w a(5-7) ok f in \<open>simp_all add: paid_both_def wallet_ready_def session_ok_def\<close>)
qed

lemma wallet_task_costs_facts:
  assumes opened: "wallet_opened off now trust rd n info db b db1"
    and blank: "ta_UserId blank = ri_UserId info" and "0 \<le> quota"
    and "SettleBilling quota (WithSession b, db1) = (Inr (), (r, db2))"
    and submitted: "submit_task bc quota blank (WithSession b, db1) = (t, (r, db2))"
    and "subs_ok db2" and "has_user db2 (ri_UserId info)" and "has_token db2 (ri_TokenId info)" and "db_faults db2 = []"
    and "0 < ri_TokenId info" and "keys (ri_TokenId info) \<noteq> []"
  shows "RefundTaskQuota keys (t, db2) = (es, (t', db3)) \<Longrightarrow>
      user_funds db3 (ri_UserId info) = user_funds db (ri_UserId info)
      \<and> token_funds db3 (ri_TokenId info) = token_funds db (ri_TokenId info)"
    and "0 < actual \<Longrightarrow> RecalculateTaskQuota keys actual (t, db2) = (es, (t', db3)) \<Longrightarrow>
      user_funds db3 (ri_UserId info) = user_funds db (ri_UserId info) - actual
      \<and> token_funds db3 (ri_TokenId info) = token_funds db (ri_TokenId info) - actual"
proof -
  obtain w where b: "session_ok b" "bs_funding b = WalletFunding (w\<lparr>wf_consumed := bs_preConsumedQuota b\<rparr>)"
    "wf_userId w = ri_UserId info" "funding_ready (bs_funding b) db1"
    "ri_BillingSource (bs_relayInfo b) = BillingSourceWallet" "ri_TokenId (bs_relayInfo b) = ri_TokenId info"
    "\<not> token_exempt (bs_relayInfo b)" "has_token db1 (ri_TokenId info)"
    and paid: "user_funds db1 (ri_UserId info) = user_funds db (ri_UserId info) - bs_preConsumedQuota b"
      "token_funds db1 (ri_TokenId info) = token_funds db (ri_TokenId info) - bs_preConsumedQuota b"
    using wallet_opened_facts [OF opened] by metis
  obtain b2 where st: "session_Settle quota (b, db1) = (Inr (), (b2, db2))" and r: "r = WithSession b2"
    using assms(4) by (auto simp: SettleBilling_def split: prod.splits)
  note src = settled_source [OF b(1,2,5) st]
  have t: "t = submitted_task bc (bs_relayInfo b2) quota blank"
    using submitted assms(4) by (simp add: submit_task_def request_info_def r)
  note task = wallet_task [OF src(1), of bc quota blank, folded t, unfolded blank src(2) b(6)]
  have ready: "task_ready t db2" "0 \<le> quota + d \<Longrightarrow> task_fits t db2 d" "can_pay t db2 d" for d
    using wallet_task_ready [OF src(1) assms(3,6) assms(7) [folded blank]] unfolding t by blast+
  have tok: "has_token db1 (ri_TokenId (bs_relayInfo b))" using b(6,8) by simp
  obtain c where c: "bs_funding b2 = WalletFunding (w\<lparr>wf_consumed := c\<rparr>)"
    using wallet_session_settles [OF st b(2,1)] by blast
  have funds: "user_funds db2 (ri_UserId info) = user_funds db (ri_UserId info) - quota"
    "token_funds db2 (ri_TokenId info) = token_funds db (ri_TokenId info) - quota"
    using settle_ok_session [OF b(1,4) _ tok st, of 0] b(2,3,6,7) paid c by (auto simp: wallet_charge_def)
  show "user_funds db3 (ri_UserId info) = user_funds db (ri_UserId info)
      \<and> token_funds db3 (ri_TokenId info) = token_funds db (ri_TokenId info)"
    if "RefundTaskQuota keys (t, db2) = (es, (t', db3))"
  proof -
    have fits: "task_fits t db2 (- ta_Quota t)" using ready(2) task(3) by simp
    show ?thesis
      using refunded_books(1,3) [OF ready(1) fits ready(3) assms(9) _ _ _ that, unfolded task, OF assms(10,8,11)] funds by simp
  qed
  show "user_funds db3 (ri_UserId info) = user_funds db (ri_UserId info) - actual
      \<and> token_funds db3 (ri_TokenId info) = token_funds db (ri_TokenId info) - actual"
    if "0 < actual" "RecalculateTaskQuota keys actual (t, db2) = (es, (t', db3))"
  proof -
    have fits: "task_fits t db2 (actual - ta_Quota t)" using ready(2) that(1) task(3) by simp
    note books = settled_books [OF ready(1) fits ready(3) assms(9) that(1) _ _ _ that(2), unfolded task, OF assms(10,8,11)]
    have "wallet_share t' = actual" using wallet_recalculate [OF task(1,2) that(2)] books(1) by (simp add: wallet_share_def)
    then show ?thesis using books(3,5) funds by simp
  qed
qed

text \<open>C11: An asynchronous task paid from the wallet costs exactly what it comes to. From the opening of its
  session over its submission to its end: a task that fails leaves the funds of user and token where
  they were, and a task settled to its actual quota costs both exactly that quota, whatever was
  pre-consumed and charged at the submission in between.\<close>

theorem wallet_task_costs:
  assumes opened: "wallet_opened off now trust rd n info db b db1"
    and blank: "ta_UserId blank = ri_UserId info" and "0 \<le> quota"
    and "SettleBilling quota (WithSession b, db1) = (Inr (), (r, db2))"
    and submitted: "submit_task bc quota blank (WithSession b, db1) = (t, (r, db2))"
    and "subs_ok db2" and "has_user db2 (ri_UserId info)" and "has_token db2 (ri_TokenId info)" and "db_faults db2 = []"
    and "0 < ri_TokenId info" and "keys (ri_TokenId info) \<noteq> []"
  shows "(RefundTaskQuota keys (t, db2) = (es, (t', db3)) \<longrightarrow> user_funds db3 (ri_UserId info) = user_funds db (ri_UserId info)
      \<and> token_funds db3 (ri_TokenId info) = token_funds db (ri_TokenId info))
    \<and> (0 < actual \<and> RecalculateTaskQuota keys actual (t, db2) = (es, (t', db3)) \<longrightarrow> user_funds db3 (ri_UserId info) = user_funds db (ri_UserId info) - actual
      \<and> token_funds db3 (ri_TokenId info) = token_funds db (ri_TokenId info) - actual)"
  using wallet_task_costs_facts [where keys = keys, OF assms] by simp

definition example_wallet_info :: relay_info where
  "example_wallet_info = example_info\<lparr>ri_BillingPreference := ''wallet_only''\<rparr>"

definition example_wallet_open :: "(api_error + billing_session) \<times> relay_info \<times> billing_db" where
  "example_wallet_open = NewBillingSession 0 1500 5000 example_reads 300 (example_wallet_info, example_db)"

definition example_context :: billing_context where
  "example_context = \<lparr>bc_OtherRatios = [], bc_OriginModelName = ''video'', bc_PerCallBilling = False, bc_BillingPreference = []\<rparr>"

definition example_blank :: task where
  "example_blank = InitTask 1760000000 ''task_2'' 7 ''default'' ''video'' example_wallet_info"

lemma example_wallet_opened_ok:
  "wallet_opened 0 1500 5000 example_reads 300 example_wallet_info example_db (projr (fst example_wallet_open)) (snd (snd example_wallet_open))"
proof -
  have "\<not> isl (fst example_wallet_open)" by code_simp
  then have "NewBillingSession 0 1500 5000 example_reads 300 (example_wallet_info, example_db) =
      (Inr (projr (fst example_wallet_open)), (fst (snd example_wallet_open), snd (snd example_wallet_open)))"
    unfolding example_wallet_open_def by (simp add: prod_eq_iff)
  moreover have "NormalizeBillingPreference (ri_BillingPreference example_wallet_info) = ''wallet_only''" "\<not> token_exempt example_wallet_info"
    "has_user example_db (ri_UserId example_wallet_info)" "has_token example_db (ri_TokenId example_wallet_info)" by code_simp+
  ultimately show ?thesis by (auto simp: wallet_opened_def example_db_ok intro!: exI [of _ "fst (snd example_wallet_open)"])
qed

theorem wallet_task_costs_witness:
  "\<exists>r db2 t es t' db3. submit_task example_context 280 example_blank
       (WithSession (projr (fst example_wallet_open)), snd (snd example_wallet_open)) = (t, (r, db2))
     \<and> user_funds db2 5 = 720 \<and> RefundTaskQuota (\<lambda>_. ''sk'') (t, db2) = (es, (t', db3))
     \<and> user_funds db3 5 = 1000 \<and> token_funds db3 9 = 800"
proof -
  let ?s = "(WithSession (projr (fst example_wallet_open)), snd (snd example_wallet_open))"
  obtain x r db2 where st: "SettleBilling 280 ?s = (x, (r, db2))" using prod_cases3 by blast
  obtain t r' db2' where sub: "submit_task example_context 280 example_blank ?s = (t, (r', db2'))" using prod_cases3 by blast
  have eq: "r' = r" "db2' = db2" using sub st by (simp_all add: submit_task_def)
  have "fst (SettleBilling 280 ?s) = Inr ()" by code_simp
  then have st': "SettleBilling 280 ?s = (Inr (), (r, db2))" using st by simp
  have "db_subs (snd (snd (SettleBilling 280 ?s))) = db_subs example_db" "has_user (snd (snd (SettleBilling 280 ?s))) 5"
    "has_token (snd (snd (SettleBilling 280 ?s))) 9" "db_faults (snd (snd (SettleBilling 280 ?s))) = []"
    "user_funds (snd (snd (SettleBilling 280 ?s))) 5 = 720" by code_simp+
  then have db2: "subs_ok db2" "has_user db2 5" "has_token db2 9" "db_faults db2 = []" "user_funds db2 5 = 720"
    using st example_db_ok subs_ok_cong [of db2 example_db] by simp_all
  obtain es t' db3 where ref: "RefundTaskQuota (\<lambda>_. ''sk'') (t, db2) = (es, (t', db3))" using prod_cases3 by blast
  have ids: "ri_UserId example_wallet_info = 5" "ri_TokenId example_wallet_info = 9" "ta_UserId example_blank = 5"
    "user_funds example_db 5 = 1000" "token_funds example_db 9 = 800" by code_simp+
  have "user_funds db3 5 = 1000 \<and> token_funds db3 9 = 800"
    using wallet_task_costs [OF example_wallet_opened_ok _ _ st' sub [unfolded eq] db2(1), of "\<lambda>_. ''sk''"] db2 ids ref by simp
  then show ?thesis using sub eq db2 ref by blast
qed

section \<open>A settlement that fails\<close>

lemma failed_settlement_overpays_facts:
  assumes opened: "wallet_opened off now trust rd n info db b db1"
    and blank: "ta_UserId blank = ri_UserId info" and "bs_preConsumedQuota b < quota" and "0 \<le> quota"
    and "db_faults db1 = [True]" and "\<not> db_batchEnabled db1" and "subs_ok db1"
    and submitted: "submit_task bc quota blank (WithSession b, db1) = (t, (r, db2))"
    and "0 < ri_TokenId info" and "keys (ri_TokenId info) \<noteq> []"
    and "RefundTaskQuota keys (t, db2) = (es, (t', db3))"
  shows "user_funds db3 (ri_UserId info) = user_funds db (ri_UserId info) + (quota - bs_preConsumedQuota b)"
    and "token_funds db3 (ri_TokenId info) = token_funds db (ri_TokenId info) + (quota - bs_preConsumedQuota b)"
proof -
  obtain w where b: "session_ok b" "bs_funding b = WalletFunding (w\<lparr>wf_consumed := bs_preConsumedQuota b\<rparr>)"
    "ri_BillingSource (bs_relayInfo b) = BillingSourceWallet" "ri_TokenId (bs_relayInfo b) = ri_TokenId info"
    and rows: "has_token db1 (ri_TokenId info)" "has_user db1 (ri_UserId info)"
    and paid: "user_funds db1 (ri_UserId info) = user_funds db (ri_UserId info) - bs_preConsumedQuota b"
      "token_funds db1 (ri_TokenId info) = token_funds db (ri_TokenId info) - bs_preConsumedQuota b"
    using wallet_opened_facts [OF opened] by metis
  have open_b: "\<not> bs_settled b" "\<not> bs_fundingSettled b" using b(1) by (simp_all add: session_ok_def)
  have dec: "DecreaseUserQuota db1 (wf_userId w) (quota - bs_preConsumedQuota b) = (Inl DbError, db1\<lparr>db_faults := []\<rparr>)"
    using assms(3,5,6) by (simp add: DecreaseUserQuota_def decreaseUserQuota_def db_query_def)
  have "session_Settle quota (b, db1) = (Inl DbError, (b, db1\<lparr>db_faults := []\<rparr>))"
    using assms(3) open_b b(2) dec
    by (simp add: session_Settle_def Let_def on_funding_def funding_Settle_def lift_funding_def wallet_Settle_def on_db_def)
  then have t: "t = submitted_task bc (bs_relayInfo b) quota blank" and db2: "db2 = db1\<lparr>db_faults := []\<rparr>"
    using submitted by (auto simp: submit_task_def SettleBilling_def request_info_def)
  note same = unchanged_same [OF unchanged_faults [of db1 "[]"], folded db2]
  note task = wallet_task [OF b(3), of bc quota blank, folded t, unfolded blank b(4)]
  have ok2: "subs_ok db2" using assms(7) same(5) subs_ok_cong by blast
  have user2: "has_user db2 (ta_UserId blank)" using rows(2) same(3) blank by simp
  have ready: "task_ready t db2" "task_fits t db2 (- quota)" "can_pay t db2 (- quota)"
    using wallet_task_ready [OF b(3) assms(4) ok2 user2] unfolding t by simp_all
  note books = refunded_books(1,3) [OF ready(1) _ _ _ _ _ _ assms(11), unfolded task, OF ready(2,3) _ assms(9) _ assms(10)]
  show "user_funds db3 (ri_UserId info) = user_funds db (ri_UserId info) + (quota - bs_preConsumedQuota b)"
    "token_funds db3 (ri_TokenId info) = token_funds db (ri_TokenId info) + (quota - bs_preConsumedQuota b)"
    using books rows paid same by (simp_all add: db2)
qed

text \<open>C39: The submission of a task ignores an error of its settlement and records the settled quota all the same.
  When the query that should charge the difference fails, and the task fails later, the refund
  returns the recorded quota, so that the user ends up with more than before the request: with the
  difference between the settled and the pre-consumed quota.\<close>

theorem failed_settlement_overpays:
  assumes opened: "wallet_opened off now trust rd n info db b db1"
    and blank: "ta_UserId blank = ri_UserId info" and "bs_preConsumedQuota b < quota" and "0 \<le> quota"
    and "db_faults db1 = [True]" and "\<not> db_batchEnabled db1" and "subs_ok db1"
    and submitted: "submit_task bc quota blank (WithSession b, db1) = (t, (r, db2))"
    and "0 < ri_TokenId info" and "keys (ri_TokenId info) \<noteq> []"
    and "RefundTaskQuota keys (t, db2) = (es, (t', db3))"
  shows "user_funds db3 (ri_UserId info) = user_funds db (ri_UserId info) + (quota - bs_preConsumedQuota b)
    \<and> token_funds db3 (ri_TokenId info) = token_funds db (ri_TokenId info) + (quota - bs_preConsumedQuota b)"
  using failed_settlement_overpays_facts [where keys = keys, OF assms] by simp

definition example_faulty_open :: "(api_error + billing_session) \<times> relay_info \<times> billing_db" where
  "example_faulty_open = NewBillingSession 0 1500 5000 example_reads 300 (example_wallet_info, example_db\<lparr>db_faults := [False, False, True]\<rparr>)"

theorem failed_settlement_overpays_witness:
  "\<exists>r db2 t es t' db3. submit_task example_context 450 example_blank
       (WithSession (projr (fst example_faulty_open)), snd (snd example_faulty_open)) = (t, (r, db2))
     \<and> RefundTaskQuota (\<lambda>_. ''sk'') (t, db2) = (es, (t', db3)) \<and> user_funds db3 5 = 1000 + 150"
proof -
  let ?db = "example_db\<lparr>db_faults := [False, False, True]\<rparr>" and ?b = "projr (fst example_faulty_open)"
    and ?db1 = "snd (snd example_faulty_open)"
  have "\<not> isl (fst example_faulty_open)" by code_simp
  then have "NewBillingSession 0 1500 5000 example_reads 300 (example_wallet_info, ?db) = (Inr ?b, (fst (snd example_faulty_open), ?db1))"
    unfolding example_faulty_open_def by (simp add: prod_eq_iff)
  moreover have "NormalizeBillingPreference (ri_BillingPreference example_wallet_info) = ''wallet_only''" "\<not> token_exempt example_wallet_info"
    "has_user ?db (ri_UserId example_wallet_info)" "has_token ?db (ri_TokenId example_wallet_info)" by code_simp+
  moreover have "subs_ok ?db" using example_db_ok subs_ok_cong [of ?db example_db] by simp
  ultimately have opened: "wallet_opened 0 1500 5000 example_reads 300 example_wallet_info ?db ?b ?db1"
    by (auto simp: wallet_opened_def intro!: exI [of _ "fst (snd example_faulty_open)"])
  have db1: "bs_preConsumedQuota ?b = 300" "db_faults ?db1 = [True]" "\<not> db_batchEnabled ?db1" "db_subs ?db1 = db_subs example_db" by code_simp+
  then have ok: "subs_ok ?db1" using example_db_ok subs_ok_cong by blast
  obtain t r db2 where sub: "submit_task example_context 450 example_blank (WithSession ?b, ?db1) = (t, (r, db2))" using prod_cases3 by blast
  obtain es t' db3 where ref: "RefundTaskQuota (\<lambda>_. ''sk'') (t, db2) = (es, (t', db3))" using prod_cases3 by blast
  have ids: "ri_UserId example_wallet_info = 5" "ri_TokenId example_wallet_info = 9" "ta_UserId example_blank = 5"
    "user_funds ?db 5 = 1000" by code_simp+
  have "user_funds db3 5 = 1000 + 150"
    using failed_settlement_overpays [OF opened _ _ _ db1(2,3) ok sub _ _ ref] db1(1) ids by simp
  then show ?thesis using sub ref by blast
qed

end
