(* ===== verification/Route_Core.thy ===== *)
theory Route_Core
  imports Sticky_Router Runtime_Identity
begin

text \<open>
  The data the dispatch selector works on (\<^verbatim>\<open>core/types.go\<close>): channels, candidates, runtime
  snapshots, the full policy and request, score items; the snapshot store
  (\<^verbatim>\<open>scheduler/snapshot_store.go\<close>), the pool builder over a fixed list
  (\<^verbatim>\<open>scheduler/candidate_builder.go\<close>) and the identity of a candidate
  (\<^verbatim>\<open>scheduler/runtime_identity.go\<close>). The records carry the fields some modelled operation
  reads; what the Go structs hold besides is copied to dashboards. \<^verbatim>\<open>ScoreStatsJSON\<close> is the
  value \<^verbatim>\<open>UnmarshalJsonStr\<close> leaves in a fresh \<^verbatim>\<open>ScoreStats\<close>, and the empty circuit state is
  \<open>None\<close>.
\<close>

section \<open>Records\<close>

record route_channel =
  ch_Id :: int
  ch_Name :: string
  ch_Status :: int
  ch_Priority :: "int option"
  ch_SmartScoreBoosts :: "(string, f64) gomap"
  ch_Group :: string
  ch_BalanceUpdatedTime :: int
  ch_Balance :: f64
  ch_status_reason :: string

definition GetPriority :: "route_channel \<Rightarrow> int" where
  "GetPriority ch = (case ch_Priority ch of None \<Rightarrow> 0 | Some p \<Rightarrow> p)"

record account_identity =
  ai_AccountID :: string
  ai_CredentialIndex :: int
  ai_CredentialSubjectFingerprint :: string
  ai_CredentialFingerprint :: string
  ai_AccountIdentityKey :: string
  ai_AccountUniqueKey :: string

record credential_ref =
  cr_ResourceID :: string
  cr_AccountID :: string
  cr_CredentialIndex :: int
  cr_CredentialSubjectFingerprint :: string
  cr_CredentialFingerprint :: string
  cr_Resolver :: string

record candidate =
  cd_Channel :: "route_channel option"
  cd_AccountIdentity :: account_identity
  cd_CredentialRef :: credential_ref
  cd_Group :: string
  cd_UpstreamModel :: string
  cd_RuntimeKey :: runtime_key

record rate_stats =
  ra_Success :: int
  ra_Count :: int
  ra_Total :: int
  ra_EWMA :: f64

record score_stats =
  ss_Samples :: int
  ss_Rates :: "(string, rate_stats) gomap"
  ss_TTFTMs :: "f64 list"
  ss_DurationMs :: "f64 list"
  ss_TokensPerSecond :: "f64 list"

record latency_sample =
  lt_ObservedAt :: int
  lt_DurationMs :: f64
  lt_TTFTMs :: f64

record runtime_snapshot =
  rs_Key :: runtime_key
  rs_MatchedRuntimeKey :: runtime_key
  rs_SampleSource :: string
  rs_ScoreStats :: score_stats
  rs_RecentLatencySamples :: "latency_sample list"
  rs_SuccessRate :: f64
  rs_TTFTMs :: f64
  rs_DurationMs :: f64
  rs_TokensPerSecond :: f64
  rs_EmptyOutputRate :: f64
  rs_ActiveConcurrency :: int
  rs_MaxConcurrency :: int
  rs_ConfiguredConcurrencyLimit :: int
  rs_LearnedConcurrencyLimit :: int
  rs_EffectiveConcurrencyLimit :: int
  rs_QueueDepth :: int
  rs_QueueCapacity :: int
  rs_QueueTimeoutMs :: int
  rs_EstimatedQueueWaitMs :: f64
  rs_FirstBytePending :: int
  rs_SlowFirstBytePending :: int
  rs_OldestFirstByteWaitMs :: f64
  rs_CostRatio :: f64
  rs_CostReferenceRatio :: f64
  rs_GroupPriorityRatio :: f64
  rs_CircuitState :: "circuit_mode option"
  rs_CircuitOpen :: bool
  rs_Cooldown :: bool
  rs_FailureAvoidance :: bool
  rs_ProbeTriggerReason :: string
  rs_ConfigErrorIsolated :: bool
  rs_SampleCount :: int

record smart_policy = group_smart_policy +
  gp_UserGroup :: string
  gp_Mode :: string
  gp_Strategy :: string
  gp_CandidateGroups :: "string list"
  gp_QueueEnabled :: bool
  gp_QueuePriority :: int
  gp_GroupPriorityRatio :: "(string, f64) gomap"
  gp_ResourceProtectionEnabled :: bool
  gp_PrimaryChannelIDs :: "int list"
  gp_PrimaryWaitTimeoutMs :: int
  gp_PrimaryQueueMaxDepth :: int
  gp_FallbackChannelIDs :: "int list"

record select_request = dispatch_request +
  dr_ClientSessionKey :: string
  dr_ResourceProtectionFallback :: bool
  dr_ResourceProtectionReason :: string

record score_item =
  it_Key :: string
  it_Score :: f64
  it_Weight :: f64
  it_WeightedScore :: f64
  it_SampleCount :: int
  it_MissingReason :: string

record score_result =
  sr_Total :: f64
  sr_Items :: "score_item list"
  sr_RoutingTotal :: f64
  sr_RoutingItems :: "score_item list"
  sr_Reason :: string

definition ModeActive :: string where "ModeActive = ''active''"
definition StrategyBalanced :: string where "StrategyBalanced = ''balanced''"
definition StrategySpeedFirst :: string where "StrategySpeedFirst = ''speed_first''"
definition StrategyCostFirst :: string where "StrategyCostFirst = ''cost_first''"
definition StrategyStabilityFirst :: string where "StrategyStabilityFirst = ''stability_first''"

definition IsActive :: "smart_policy \<Rightarrow> bool" where
  "IsActive p \<longleftrightarrow> gp_Mode p = ModeActive"

definition FirstByteRecovery :: "retry_routing_intent option \<Rightarrow> bool" where
  "FirstByteRecovery i =
     (case i of None \<Rightarrow> False
      | Some r \<Rightarrow> rri_Reason r = ''first_byte_timeout'' \<or> rri_Strategy r = ''first_byte_recovery'')"

fun firstNonEmptyString :: "string list \<Rightarrow> string" where
  "firstNonEmptyString [] = []"
| "firstNonEmptyString (v # vs) = (let t = TrimSpace v in if t \<noteq> [] then t else firstNonEmptyString vs)"

fun firstPositiveInt :: "int list \<Rightarrow> int" where
  "firstPositiveInt [] = 0"
| "firstPositiveInt (v # vs) = (if v > 0 then v else firstPositiveInt vs)"

section \<open>Snapshots and their store\<close>

definition normalizeRuntimeSnapshot :: "runtime_snapshot \<Rightarrow> runtime_snapshot" where
  "normalizeRuntimeSnapshot s =
     (let s = s\<lparr>rs_Key := normalizeRuntimeKey (rs_Key s)\<rparr>;
          s = (if rk_ChannelID (rs_MatchedRuntimeKey s) > 0
               then s\<lparr>rs_MatchedRuntimeKey := normalizeRuntimeKey (rs_MatchedRuntimeKey s)\<rparr> else s)
      in s\<lparr>rs_ProbeTriggerReason := TrimSpace (rs_ProbeTriggerReason s)\<rparr>)"

type_synonym snapshot_store = "(runtime_key, runtime_snapshot) gomap"

definition store_Get :: "snapshot_store \<Rightarrow> runtime_key \<Rightarrow> runtime_snapshot option" where
  "store_Get st key = map_of st (normalizeRuntimeKey key)"

definition store_Put :: "snapshot_store \<Rightarrow> runtime_snapshot \<Rightarrow> snapshot_store" where
  "store_Put st s =
     (let s = normalizeRuntimeSnapshot s in
      if rk_ChannelID (rs_Key s) \<le> 0 then st else gput (rs_Key s) s st)"

definition ListCandidates :: "snapshot_store \<Rightarrow> string \<Rightarrow> runtime_snapshot list" where
  "ListCandidates st modelName =
     filter (\<lambda>s. \<not> (modelName \<noteq> [] \<and> rk_RequestedModel (rs_Key s) \<noteq> [] \<and> rk_RequestedModel (rs_Key s) \<noteq> modelName))
       (map (normalizeRuntimeSnapshot \<circ> snd) st)"

text \<open>A stored snapshot is found under every spelling of its key.\<close>

lemma store_Get_Put:
  "store_Get (store_Put st s) key =
     (if normalizeRuntimeKey key = normalizeRuntimeKey (rs_Key s) \<and> 0 < rk_ChannelID (rs_Key s)
      then Some (normalizeRuntimeSnapshot s) else store_Get st key)"
  by (auto simp: store_Get_def store_Put_def normalizeRuntimeSnapshot_def Let_def go_map_simps)

section \<open>The pool builder\<close>

definition NewStaticCandidatePoolBuilderFromChannels ::
  "candidate \<Rightarrow> route_channel option list \<Rightarrow> (int, string) gomap \<Rightarrow> candidate list" where
  "NewStaticCandidatePoolBuilderFromChannels zero channels groups =
     concat (map (\<lambda>ch. case ch of None \<Rightarrow> []
       | Some ch \<Rightarrow>
           let group = (case map_of groups (ch_Id ch) of None \<Rightarrow> [] | Some g \<Rightarrow> g) in
           [zero\<lparr>cd_Channel := Some ch, cd_Group := (if group = [] then ch_Group ch else group)\<rparr>]) channels)"

definition allowedGroupSet :: "smart_policy \<Rightarrow> string list" where
  "allowedGroupSet policy =
     (if gp_CandidateGroups policy = [] then
        (if gp_RequestedGroup policy = [] \<or> gp_RequestedGroup policy = ''auto'' then []
         else [gp_RequestedGroup policy])
      else gp_CandidateGroups policy)"

definition fill_candidate :: "select_request option \<Rightarrow> candidate \<Rightarrow> route_channel \<Rightarrow> candidate" where
  "fill_candidate req cand ch =
     (let key = cd_RuntimeKey cand;
          key = (if rk_ChannelID key = 0 then key\<lparr>rk_ChannelID := ch_Id ch\<rparr> else key);
          key = (if rk_Group key = [] then key\<lparr>rk_Group := cd_Group cand\<rparr> else key);
          key = (case req of None \<Rightarrow> key
            | Some r \<Rightarrow>
                let key = (if rk_RequestedModel key = [] then key\<lparr>rk_RequestedModel := dr_ModelName r\<rparr> else key)
                in if rk_EndpointType key = [] then key\<lparr>rk_EndpointType := dr_EndpointType r\<rparr> else key)
      in cand\<lparr>cd_RuntimeKey := key\<rparr>)"

definition static_Build :: "candidate list \<Rightarrow> select_request option \<Rightarrow> smart_policy \<Rightarrow> candidate list" where
  "static_Build cands req policy =
     (let allowed = allowedGroupSet policy in
      concat (map (\<lambda>cand. case cd_Channel cand of
          None \<Rightarrow> []
        | Some ch \<Rightarrow> if allowed \<noteq> [] \<and> cd_Group cand \<notin> set allowed then [] else [fill_candidate req cand ch]) cands))"

lemma fill_candidate_fields [simp]:
  "cd_Channel (fill_candidate req cand ch) = cd_Channel cand" "cd_Group (fill_candidate req cand ch) = cd_Group cand"
  by (simp_all add: fill_candidate_def Let_def)

text \<open>The builder returns candidates that have a channel and whose group the policy allows.\<close>

lemma static_Build_sound:
  assumes "x \<in> set (static_Build cands req policy)"
  shows "cd_Channel x \<noteq> None"
    and "allowedGroupSet policy \<noteq> [] \<Longrightarrow> cd_Group x \<in> set (allowedGroupSet policy)"
  using assms by (auto simp: static_Build_def Let_def split: option.splits if_splits dest: sym)

section \<open>The identity of a candidate\<close>

definition serviceRuntimeIdentityFromKey :: "runtime_key \<Rightarrow> runtime_identity" where
  "serviceRuntimeIdentityFromKey k =
     (let key = normalizeRuntimeKey k in
      Normalize
      \<lparr>ri_ChannelID = rk_ChannelID key, ri_RequestedModel = rk_RequestedModel key,
       ri_SelectedGroup = rk_Group key, ri_EndpointType = rk_EndpointType key,
       ri_AccountID = rk_AccountID key, ri_AccountType = [], ri_Brand = [], ri_Provider = [],
       ri_CredentialIndex = rk_CredentialIndex key,
       ri_CredentialIndexSet = (rk_AccountID key \<noteq> [] \<or> rk_CredentialSubjectFP key \<noteq> []
         \<or> rk_CredentialFP key \<noteq> [] \<or> rk_CredentialIndex key > 0),
       ri_CredentialSubjectFP = rk_CredentialSubjectFP key, ri_CredentialFP = rk_CredentialFP key\<rparr>)"

definition candidateHasCredentialScope :: "candidate \<Rightarrow> bool" where
  "candidateHasCredentialScope cand =
     (let a = cd_AccountIdentity cand; r = cd_CredentialRef cand in
      ai_AccountID a \<noteq> [] \<or> ai_AccountIdentityKey a \<noteq> [] \<or> ai_AccountUniqueKey a \<noteq> []
      \<or> ai_CredentialSubjectFingerprint a \<noteq> [] \<or> ai_CredentialFingerprint a \<noteq> []
      \<or> cr_ResourceID r \<noteq> [] \<or> cr_AccountID r \<noteq> [] \<or> cr_CredentialSubjectFingerprint r \<noteq> []
      \<or> cr_CredentialFingerprint r \<noteq> [] \<or> cr_Resolver r \<noteq> [])"

definition serviceRuntimeIdentityFromCandidate :: "candidate \<Rightarrow> runtime_snapshot \<Rightarrow> runtime_identity" where
  "serviceRuntimeIdentityFromCandidate cand s =
     (let ck = cd_RuntimeKey cand; a = cd_AccountIdentity cand; r = cd_CredentialRef cand;
          key = (if rk_ChannelID (rs_Key s) \<le> 0 then ck else rs_Key s);
          key = (case cd_Channel cand of
                   Some ch \<Rightarrow> if rk_ChannelID key \<le> 0 then key\<lparr>rk_ChannelID := ch_Id ch\<rparr> else key
                 | None \<Rightarrow> key);
          key = key\<lparr>rk_RequestedModel := orElse (rk_RequestedModel key) (rk_RequestedModel ck),
            rk_UpstreamModel := orElse (rk_UpstreamModel key) (rk_UpstreamModel ck),
            rk_Group := orElse (rk_Group key) (cd_Group cand),
            rk_EndpointType := orElse (rk_EndpointType key) (rk_EndpointType ck),
            rk_AccountID := orElse (orElse (orElse (rk_AccountID key) (rk_AccountID ck)) (ai_AccountID a)) (cr_AccountID r),
            rk_CredentialSubjectFP := orElse (orElse (orElse (rk_CredentialSubjectFP key) (rk_CredentialSubjectFP ck))
              (ai_CredentialSubjectFingerprint a)) (cr_CredentialSubjectFingerprint r),
            rk_CredentialFP := orElse (orElse (orElse (rk_CredentialFP key) (rk_CredentialFP ck))
              (ai_CredentialFingerprint a)) (cr_CredentialFingerprint r)\<rparr>;
          index = (if rk_CredentialIndex key \<noteq> 0 then rk_CredentialIndex key
                   else if rk_CredentialIndex ck \<noteq> 0 then rk_CredentialIndex ck
                   else if ai_CredentialIndex a \<noteq> 0 then ai_CredentialIndex a
                   else cr_CredentialIndex r);
          identity = serviceRuntimeIdentityFromKey (key\<lparr>rk_CredentialIndex := index\<rparr>);
          identity = (if \<not> ri_CredentialIndexSet identity \<and> candidateHasCredentialScope cand
            then identity\<lparr>ri_CredentialIndexSet := True,
              ri_CredentialIndex := (if ai_CredentialIndex a \<noteq> 0 then ai_CredentialIndex a
                else if cr_CredentialIndex r \<noteq> 0 then cr_CredentialIndex r else ri_CredentialIndex identity)\<rparr>
            else identity)
      in Normalize identity)"

definition candidateChannelID :: "candidate \<Rightarrow> int" where
  "candidateChannelID cand =
     (case cd_Channel cand of Some ch \<Rightarrow> ch_Id ch
      | None \<Rightarrow> if rk_ChannelID (cd_RuntimeKey cand) > 0 then rk_ChannelID (cd_RuntimeKey cand) else 0)"

end
