(* ===== verification/Route_Scoring.thy ===== *)
theory Route_Scoring
  imports Route_Core
begin

text \<open>
  How a candidate is scored: \<^verbatim>\<open>scheduler/scorer.go\<close>, \<^verbatim>\<open>strategy_profile.go\<close>,
  \<^verbatim>\<open>latency_samples.go\<close>, \<^verbatim>\<open>score_boost.go\<close> and the scoring part of \<^verbatim>\<open>scoring_service.go\<close>.
  Every operation on \<^verbatim>\<open>float64\<close> rounds as written, without fused multiply-add. The functions
  \<^verbatim>\<open>math.Exp\<close>, \<^verbatim>\<open>math.Log\<close> and \<^verbatim>\<open>math.Pow\<close>, whose last bits Go does not specify, are a record of
  functions that the scoring takes as an argument; infinities and not-a-number are no values of
  the model. A score item keeps its key, score, weight and sample count; the strings and raw
  numbers an item carries for display (\<^verbatim>\<open>annotateScoreItems\<close>) are left out.
\<close>

record go_math =
  gm_Exp :: "f64 \<Rightarrow> f64"
  gm_Log :: "f64 \<Rightarrow> f64"
  gm_Pow :: "f64 \<Rightarrow> f64 \<Rightarrow> f64"

record score_weights =
  sw_Success :: f64
  sw_Speed :: f64
  sw_Load :: f64
  sw_Cost :: f64
  sw_Group :: f64

section \<open>Elementary scores\<close>

definition clamp01 :: "f64 \<Rightarrow> f64" where
  "clamp01 v = (if v < 0 then 0 else if v > 1 then 1 else v)"

text \<open>\<^verbatim>\<open>math.Round\<close> rounds half away from zero.\<close>

definition math_Round :: "f64 \<Rightarrow> f64" where
  "math_Round x = (if 0 \<le> x then of_int \<lfloor>x + 1 / 2\<rfloor> else of_int \<lceil>x - 1 / 2\<rceil>)"

definition round4 :: "f64 \<Rightarrow> f64" where
  "round4 v = f64_div (math_Round (f64_mul v 10000)) 10000"

definition inverseLatencyScore :: "f64 \<Rightarrow> f64 \<Rightarrow> f64 \<Rightarrow> f64" where
  "inverseLatencyScore v good poor =
     (if v \<le> good then 1
      else if v \<ge> poor then 0
      else clamp01 (f64_sub 1 (f64_div (f64_sub v good) (f64_sub poor good))))"

definition progressiveTTFTLatencyDecay :: f64 where
  "progressiveTTFTLatencyDecay = f64_round (22 / 10)"

definition progressiveTTFTLatencyScore :: "go_math \<Rightarrow> f64 \<Rightarrow> f64 \<Rightarrow> f64 \<Rightarrow> f64" where
  "progressiveTTFTLatencyScore m v good poor =
     (if v \<le> good then 1
      else if v \<ge> poor then 0
      else if poor \<le> good \<or> progressiveTTFTLatencyDecay \<le> 0 then inverseLatencyScore v good poor
      else let x = clamp01 (f64_div (f64_sub v good) (f64_sub poor good));
               floor = gm_Exp m (- progressiveTTFTLatencyDecay);
               denominator = f64_sub 1 floor
           in if denominator \<le> 0 then inverseLatencyScore v good poor
              else clamp01 (f64_div (f64_sub (gm_Exp m (f64_mul (- progressiveTTFTLatencyDecay) x)) floor) denominator))"

definition throughputScore :: "f64 \<Rightarrow> f64 \<Rightarrow> f64 \<Rightarrow> f64" where
  "throughputScore v low high =
     (if v \<le> 0 then 1 / 2
      else if v \<le> low then 0
      else if v \<ge> high then 1
      else clamp01 (f64_div (f64_sub v low) (f64_sub high low)))"

section \<open>Load, queue and backlog\<close>

definition stableConcurrencyLoadItemScore :: "runtime_snapshot \<Rightarrow> f64" where
  "stableConcurrencyLoadItemScore s = (if rs_CircuitOpen s \<or> rs_FailureAvoidance s then 0 else 1)"

definition routingConcurrencyLimit :: "runtime_snapshot \<Rightarrow> int" where
  "routingConcurrencyLimit s =
     (if rs_EffectiveConcurrencyLimit s > 0 then rs_EffectiveConcurrencyLimit s
      else if rs_LearnedConcurrencyLimit s > 0 then rs_LearnedConcurrencyLimit s
      else if rs_MaxConcurrency s > 0 then rs_MaxConcurrency s
      else rs_ConfiguredConcurrencyLimit s)"

definition softLoadPenaltyForStrategy :: "f64 \<Rightarrow> string \<Rightarrow> f64" where
  "softLoadPenaltyForStrategy ratio strategy =
     (if strategy = StrategyCostFirst then
        let ratio = (if ratio < 0 then 0 else ratio) in
        if ratio \<le> f64_round (80 / 100) then 0
        else if ratio \<le> 1 then f64_mul (f64_sub ratio (f64_round (80 / 100))) (f64_round (15 / 10))
        else min (f64_add (f64_round (30 / 100)) (f64_mul (f64_sub ratio 1) (f64_round (22 / 100)))) (f64_round (62 / 100))
      else
        let ratio = clamp01 ratio in
        if ratio \<le> f64_round (30 / 100) then f64_mul ratio (f64_round (8 / 100))
        else if ratio \<le> f64_round (70 / 100)
        then f64_add (f64_round (24 / 1000)) (f64_mul (f64_sub ratio (f64_round (30 / 100))) (f64_round (25 / 100)))
        else f64_add (f64_round (124 / 1000)) (f64_mul (f64_sub ratio (f64_round (70 / 100))) (f64_round (135 / 100))))"

text \<open>The cut \<^verbatim>\<open>math.Min(float64(n)*step, most)\<close> that the penalties share.\<close>

definition capped :: "int \<Rightarrow> rat \<Rightarrow> rat \<Rightarrow> f64" where
  "capped n step most = min (f64_mul (f64_of_int n) (f64_round step)) (f64_round most)"

definition wait_capped :: "f64 \<Rightarrow> f64 \<Rightarrow> rat \<Rightarrow> f64" where
  "wait_capped w unit most = min (f64_div w unit) (f64_round most)"

definition oldest_wait_step :: "runtime_snapshot \<Rightarrow> rat \<Rightarrow> rat \<Rightarrow> rat \<Rightarrow> rat \<Rightarrow> f64" where
  "oldest_wait_step s a b c d =
     (if rs_OldestFirstByteWaitMs s \<ge> 30000 then f64_round a
      else if rs_OldestFirstByteWaitMs s \<ge> 20000 then f64_round b
      else if rs_OldestFirstByteWaitMs s \<ge> 12000 then f64_round c
      else if rs_OldestFirstByteWaitMs s \<ge> 8000 then f64_round d else 0)"

definition routingConcurrencyLoadItemScoreWithoutKnownLimit :: "runtime_snapshot \<Rightarrow> f64" where
  "routingConcurrencyLoadItemScoreWithoutKnownLimit s =
     (let score = 1;
          score = (if rs_FirstBytePending s > 0 then f64_sub score (capped (rs_FirstBytePending s) (4 / 100) (16 / 100)) else score);
          score = (if rs_SlowFirstBytePending s > 0 then f64_sub score (capped (rs_SlowFirstBytePending s) (12 / 100) (34 / 100)) else score);
          score = (if rs_OldestFirstByteWaitMs s \<ge> 8000
                   then f64_sub score (oldest_wait_step s (26 / 100) (20 / 100) (14 / 100) (8 / 100)) else score);
          score = (if rs_QueueDepth s > 0 then f64_sub score (capped (rs_QueueDepth s) (5 / 100) (24 / 100)) else score);
          score = (if rs_EstimatedQueueWaitMs s > 0 then f64_sub score (wait_capped (rs_EstimatedQueueWaitMs s) 12000 (24 / 100)) else score)
      in clamp01 score)"

definition routingConcurrencyLoadItemScoreWithoutKnownLimitForCostFirst :: "runtime_snapshot \<Rightarrow> f64" where
  "routingConcurrencyLoadItemScoreWithoutKnownLimitForCostFirst s =
     (let score = 1;
          score = (if rs_QueueDepth s > 0 then f64_sub score (capped (rs_QueueDepth s) (3 / 100) (18 / 100)) else score);
          score = (if rs_EstimatedQueueWaitMs s > 0 then f64_sub score (wait_capped (rs_EstimatedQueueWaitMs s) 18000 (18 / 100)) else score)
      in clamp01 score)"

definition routingConcurrencyLoadItemScoreForStrategy :: "runtime_snapshot \<Rightarrow> string \<Rightarrow> f64" where
  "routingConcurrencyLoadItemScoreForStrategy s strategy =
     (if rs_CircuitOpen s \<or> rs_Cooldown s \<or> rs_FailureAvoidance s then 0
      else let limit = routingConcurrencyLimit s in
        if limit \<le> 0 then
          (if strategy = StrategyCostFirst then routingConcurrencyLoadItemScoreWithoutKnownLimitForCostFirst s
           else routingConcurrencyLoadItemScoreWithoutKnownLimit s)
        else
          let loadRatio = f64_div (f64_of_int (rs_ActiveConcurrency s)) (f64_of_int limit);
              loadPenalty = softLoadPenaltyForStrategy loadRatio strategy;
              loadPenalty = (if rs_FirstBytePending s > 0 then f64_add loadPenalty (capped (rs_FirstBytePending s) (3 / 100) (12 / 100)) else loadPenalty);
              loadPenalty = (if rs_SlowFirstBytePending s > 0 then f64_add loadPenalty (capped (rs_SlowFirstBytePending s) (10 / 100) (32 / 100)) else loadPenalty);
              queuePenalty = (if rs_QueueDepth s > 0 then capped (rs_QueueDepth s) (25 / 1000) (18 / 100) else 0);
              waitPenalty = (if rs_EstimatedQueueWaitMs s > 0 then wait_capped (rs_EstimatedQueueWaitMs s) 20000 (18 / 100) else 0)
          in clamp01 (f64_sub (f64_sub (f64_sub 1 loadPenalty) queuePenalty) waitPenalty))"

definition queuePressureScore :: "runtime_snapshot \<Rightarrow> string \<Rightarrow> f64" where
  "queuePressureScore s strategy =
     (let score = 1;
          score = (if rs_QueueDepth s > 0
            then (if strategy = StrategyCostFirst then f64_sub score (capped (rs_QueueDepth s) (3 / 100) (18 / 100))
                  else f64_sub score (capped (rs_QueueDepth s) (5 / 100) (24 / 100))) else score);
          score = (if rs_EstimatedQueueWaitMs s > 0
            then f64_sub score (wait_capped (rs_EstimatedQueueWaitMs s)
                   (if strategy = StrategyCostFirst then 18000 else 12000) (24 / 100)) else score)
      in clamp01 score)"

definition firstByteBacklogPenaltyForStrategy :: "runtime_snapshot \<Rightarrow> string \<Rightarrow> f64" where
  "firstByteBacklogPenaltyForStrategy s strategy =
     (if strategy = StrategyCostFirst then 0
      else if rs_FirstBytePending s \<le> 0 then 0
      else let penalty = capped (rs_FirstBytePending s) (8 / 100) (24 / 100);
               penalty = (if rs_SlowFirstBytePending s > 0 then f64_add penalty (capped (rs_SlowFirstBytePending s) (24 / 100) (72 / 100)) else penalty);
               penalty = (if rs_OldestFirstByteWaitMs s \<ge> 8000
                          then f64_add penalty (oldest_wait_step s (32 / 100) (24 / 100) (16 / 100) (8 / 100)) else penalty)
           in clamp01 penalty)"

definition firstByteBacklogScore :: "runtime_snapshot \<Rightarrow> string \<Rightarrow> f64" where
  "firstByteBacklogScore s strategy = clamp01 (f64_sub 1 (firstByteBacklogPenaltyForStrategy s strategy))"

section \<open>Group priority and cost\<close>

definition costFirstGroupPriorityItemScore :: "runtime_snapshot \<Rightarrow> smart_policy \<Rightarrow> f64" where
  "costFirstGroupPriorityItemScore s policy =
     (let candidateGroups = filter (\<lambda>g. g \<noteq> []) (map TrimSpace (gp_CandidateGroups policy))
            @ (if rk_Group (rs_Key s) \<noteq> [] then [rk_Group (rs_Key s)] else []);
          minRatio = foldl (\<lambda>minRatio (group, ratio).
              if ratio \<le> 0 then minRatio
              else if candidateGroups \<noteq> [] \<and> group \<notin> set candidateGroups then minRatio
              else if minRatio = 0 \<or> ratio < minRatio then ratio else minRatio) 0 (gp_GroupPriorityRatio policy)
      in if minRatio > 0 then clamp01 (f64_div minRatio (rs_GroupPriorityRatio s))
         else clamp01 (f64_div 1 (f64_add 1 (rs_GroupPriorityRatio s))))"

definition groupPriorityItemScoreForStrategy :: "runtime_snapshot \<Rightarrow> smart_policy \<Rightarrow> string \<Rightarrow> f64" where
  "groupPriorityItemScoreForStrategy s policy strategy =
     (if rs_GroupPriorityRatio s \<le> 0 then 1 / 2
      else if strategy = StrategyCostFirst then costFirstGroupPriorityItemScore s policy
      else let maxRatio = foldl (\<lambda>maxRatio (group, ratio). if ratio > maxRatio then ratio else maxRatio) 0 (gp_GroupPriorityRatio policy)
           in if maxRatio > 1 then clamp01 (f64_div (rs_GroupPriorityRatio s) maxRatio)
              else clamp01 (rs_GroupPriorityRatio s))"

datatype cost_score_mode = costScoreModeRelative | costScoreModeLogMultiple

record strategy_profile =
  pf_Strategy :: string
  pf_Weights :: "(string, f64) gomap"
  pf_CostPower :: f64
  pf_CostScoreMode :: cost_score_mode
  pf_CostZeroPoint :: f64

definition costFirstLogCostZeroMultiple :: f64 where
  "costFirstLogCostZeroMultiple = 5"

definition costScoreItemValue :: "go_math \<Rightarrow> runtime_snapshot \<Rightarrow> strategy_profile \<Rightarrow> f64" where
  "costScoreItemValue m s profile =
     (if rs_CostRatio s \<le> 0 \<or> rs_CostReferenceRatio s \<le> 0 then 0
      else if pf_CostScoreMode profile = costScoreModeLogMultiple then
        let zeroPoint = (if pf_CostZeroPoint profile \<le> 1 then costFirstLogCostZeroMultiple else pf_CostZeroPoint profile);
            multiple = f64_div (rs_CostRatio s) (rs_CostReferenceRatio s)
        in if multiple \<le> 1 then 1
           else clamp01 (f64_sub 1 (f64_div (gm_Log m multiple) (gm_Log m zeroPoint)))
      else
        let score = clamp01 (f64_div (rs_CostReferenceRatio s) (rs_CostRatio s));
            score = (if pf_CostPower profile > 1 then gm_Pow m score (pf_CostPower profile) else score)
        in clamp01 score)"

end
