(* ===== verification/Route_Items.thy ===== *)
theory Route_Items
  imports Route_Scoring
begin

text \<open>
  The score of a candidate from its items: strategy profiles and weights
  (\<^verbatim>\<open>strategy_profile.go\<close>, \<^verbatim>\<open>scorer.go\<close>), the latency view of a snapshot
  (\<^verbatim>\<open>latency_samples.go\<close>, \<^verbatim>\<open>scoring_service.go\<close>), operator boosts (\<^verbatim>\<open>score_boost.go\<close>), and
  the assembly and normalisation of the items (\<^verbatim>\<open>scoring_service.go\<close>).
\<close>

definition fval :: "('k, f64) gomap \<Rightarrow> 'k \<Rightarrow> f64" where
  "fval m k = (case map_of m k of None \<Rightarrow> 0 | Some v \<Rightarrow> v)"

definition f64_sum :: "f64 list \<Rightarrow> f64" where
  "f64_sum xs = foldl f64_add 0 xs"

section \<open>Weights and profiles\<close>

definition DefaultScoreWeights :: score_weights where
  "DefaultScoreWeights =
     \<lparr>sw_Success = f64_round (35 / 100), sw_Speed = f64_round (35 / 100), sw_Load = f64_round (15 / 100),
      sw_Cost = f64_round (8 / 100), sw_Group = f64_round (7 / 100)\<rparr>"

definition normalizeWeights :: "score_weights \<Rightarrow> score_weights" where
  "normalizeWeights w =
     (let w = (if sw_Success w = 0 \<and> sw_Speed w = 0 \<and> sw_Load w = 0 \<and> sw_Cost w = 0 \<and> sw_Group w = 0
               then DefaultScoreWeights else w);
          sum = f64_sum [sw_Success w, sw_Speed w, sw_Load w, sw_Cost w, sw_Group w]
      in if sum \<le> 0 then DefaultScoreWeights
         else \<lparr>sw_Success = f64_div (sw_Success w) sum, sw_Speed = f64_div (sw_Speed w) sum,
               sw_Load = f64_div (sw_Load w) sum, sw_Cost = f64_div (sw_Cost w) sum,
               sw_Group = f64_div (sw_Group w) sum\<rparr>)"

definition scoreItemCompletionRate :: string where "scoreItemCompletionRate = ''completion_rate''"
definition scoreItemUpstreamErrorRate :: string where "scoreItemUpstreamErrorRate = ''upstream_error_rate''"
definition scoreItemTTFTLatency :: string where "scoreItemTTFTLatency = ''ttft_latency''"
definition scoreItemDurationLatency :: string where "scoreItemDurationLatency = ''duration_latency''"
definition scoreItemThroughput :: string where "scoreItemThroughput = ''throughput''"
definition scoreItemEmptyOutputRate :: string where "scoreItemEmptyOutputRate = ''empty_output_rate''"
definition scoreItemStreamInterruptedRate :: string where "scoreItemStreamInterruptedRate = ''stream_interrupted_rate''"
definition scoreItemConcurrencyLoad :: string where "scoreItemConcurrencyLoad = ''concurrency_load''"
definition scoreItemQueuePressure :: string where "scoreItemQueuePressure = ''queue_pressure''"
definition scoreItemFirstByteBacklog :: string where "scoreItemFirstByteBacklog = ''first_byte_backlog''"
definition scoreItemCost :: string where "scoreItemCost = ''cost''"
definition scoreItemGroupPriority :: string where "scoreItemGroupPriority = ''group_priority''"
definition scoreItemRetryIntentRecovery :: string where "scoreItemRetryIntentRecovery = ''retry_intent_recovery''"

lemmas score_item_key_defs = scoreItemCompletionRate_def scoreItemUpstreamErrorRate_def scoreItemTTFTLatency_def
  scoreItemDurationLatency_def scoreItemThroughput_def scoreItemEmptyOutputRate_def scoreItemStreamInterruptedRate_def
  scoreItemConcurrencyLoad_def scoreItemQueuePressure_def scoreItemFirstByteBacklog_def scoreItemCost_def
  scoreItemGroupPriority_def scoreItemRetryIntentRecovery_def

text \<open>The twelve weights of a profile in the order of its literal, in thousandths.\<close>

definition weight_table :: "rat list \<Rightarrow> (string, f64) gomap" where
  "weight_table ws =
     zip [scoreItemCompletionRate, scoreItemUpstreamErrorRate, scoreItemTTFTLatency, scoreItemDurationLatency,
          scoreItemThroughput, scoreItemEmptyOutputRate, scoreItemStreamInterruptedRate, scoreItemConcurrencyLoad,
          scoreItemQueuePressure, scoreItemFirstByteBacklog, scoreItemCost, scoreItemGroupPriority]
       (map (\<lambda>w. f64_round (w / 1000)) ws)"

definition defaultScoreItemWeights :: "(string, f64) gomap" where
  "defaultScoreItemWeights = weight_table [200, 120, 140, 100, 80, 60, 60, 60, 50, 40, 70, 20]"

definition StrategyProfileFor :: "string \<Rightarrow> strategy_profile" where
  "StrategyProfileFor strategy =
     (let profile = \<lparr>pf_Strategy = strategy, pf_Weights = defaultScoreItemWeights, pf_CostPower = 1,
            pf_CostScoreMode = costScoreModeRelative, pf_CostZeroPoint = costFirstLogCostZeroMultiple\<rparr>
      in if strategy = StrategySpeedFirst then
           profile\<lparr>pf_Weights := weight_table [160, 100, 200, 140, 120, 50, 60, 80, 50, 30, 10, 0]\<rparr>
         else if strategy = StrategyCostFirst then
           profile\<lparr>pf_Weights := weight_table [112, 80, 120, 50, 30, 40, 50, 30, 30, 64, 344, 50],
             pf_CostPower := 1, pf_CostScoreMode := costScoreModeLogMultiple\<rparr>
         else if strategy = StrategyStabilityFirst then
           profile\<lparr>pf_Weights := weight_table [260, 180, 100, 80, 50, 80, 100, 50, 40, 30, 20, 10]\<rparr>
         else profile\<lparr>pf_Strategy := StrategyBalanced\<rparr>)"

definition scaleScoreItemGroup :: "(string, f64) gomap \<Rightarrow> string list \<Rightarrow> f64 \<Rightarrow> (string, f64) gomap" where
  "scaleScoreItemGroup weights keys target =
     (if weights = [] \<or> keys = [] \<or> target < 0 then weights
      else let current = f64_sum (map (fval weights) keys) in
        if current \<le> 0 then
          let share = f64_div target (f64_of_int (int (length keys))) in
          foldl (\<lambda>ws key. gput key share ws) weights keys
        else foldl (\<lambda>ws key. gput key (f64_mul (f64_div (fval ws key) current) target) ws) weights keys)"

definition WithScoreWeights :: "strategy_profile \<Rightarrow> score_weights \<Rightarrow> strategy_profile" where
  "WithScoreWeights p weights =
     (if pf_Strategy p \<noteq> StrategyBalanced then p
      else let n = normalizeWeights weights in
        if sw_Success n \<le> 0 \<and> sw_Speed n \<le> 0 \<and> sw_Load n \<le> 0 \<and> sw_Cost n \<le> 0 \<and> sw_Group n \<le> 0 then p
        else
          let ws = pf_Weights p;
              ws = scaleScoreItemGroup ws [scoreItemCompletionRate, scoreItemUpstreamErrorRate,
                     scoreItemEmptyOutputRate, scoreItemStreamInterruptedRate] (sw_Success n);
              ws = scaleScoreItemGroup ws [scoreItemTTFTLatency, scoreItemDurationLatency, scoreItemThroughput] (sw_Speed n);
              ws = scaleScoreItemGroup ws [scoreItemConcurrencyLoad, scoreItemQueuePressure, scoreItemFirstByteBacklog] (sw_Load n);
              ws = scaleScoreItemGroup ws [scoreItemCost] (sw_Cost n);
              ws = scaleScoreItemGroup ws [scoreItemGroupPriority] (sw_Group n)
          in p\<lparr>pf_Weights := ws\<rparr>)"

section \<open>Latency\<close>

definition maxRuntimeLatencySamples :: nat where "maxRuntimeLatencySamples = 120"

definition runtimeLatencySampleValid :: "latency_sample \<Rightarrow> bool" where
  "runtimeLatencySampleValid x \<longleftrightarrow> lt_DurationMs x > 0 \<or> lt_TTFTMs x > 0"

definition sample_before :: "latency_sample \<Rightarrow> latency_sample \<Rightarrow> bool" where
  "sample_before x y =
     (let left = lt_ObservedAt x; right = lt_ObservedAt y in
      if left = right then False
      else if left = 0 then True
      else if right = 0 then False
      else left < right)"

definition normalizeRuntimeLatencySamples :: "latency_sample list \<Rightarrow> latency_sample list" where
  "normalizeRuntimeLatencySamples samples =
     (let out = SliceStable sample_before (filter runtimeLatencySampleValid samples) in
      if length out > maxRuntimeLatencySamples then drop (length out - maxRuntimeLatencySamples) out else out)"

definition trimmedMeanFloat64 :: "f64 list \<Rightarrow> f64" where
  "trimmedMeanFloat64 values =
     (let clean = sort (filter (\<lambda>v. v > 0) values) in
      if clean = [] then 0
      else let clean =
          (if length clean \<ge> 10 then
             let trim = nat \<lfloor>f64_mul (f64_of_int (int (length clean))) (f64_round (10 / 100))\<rfloor>;
                 trim = (if trim < 1 then 1 else trim)
             in if length clean \<ge> trim * 2 + 1 then drop trim (take (length clean - trim) clean) else clean
           else if length clean \<ge> 3 then drop 1 (take (length clean - 1) clean)
           else clean)
        in f64_div (f64_sum clean) (f64_of_int (int (length clean))))"

definition weightedPercentile :: "(f64 \<times> f64) list \<Rightarrow> f64 \<Rightarrow> f64" where
  "weightedPercentile values percentile =
     (let clean = filter (\<lambda>(v, w). v > 0 \<and> w > 0) values;
          totalWeight = f64_sum (map snd clean)
      in if clean = [] \<or> totalWeight \<le> 0 then 0
         else let clean = SliceStable (\<lambda>x y. fst x < fst y) clean;
                  target = f64_mul (clamp01 percentile) totalWeight
              in if target \<le> 0 then fst (hd clean)
                 else case foldl (\<lambda>(running, found) (v, w).
                     case found of Some x \<Rightarrow> (running, found)
                     | None \<Rightarrow> let running = f64_add running w in
                         (running, if running \<ge> target then Some v else None)) (0, None) clean of
                   (_, Some v) \<Rightarrow> v
                 | (_, None) \<Rightarrow> fst (last clean))"

definition ttftStabilityPenalty :: "(f64 \<times> f64) list \<Rightarrow> f64 \<Rightarrow> f64" where
  "ttftStabilityPenalty values representativeTTFT =
     (if values = [] \<or> representativeTTFT \<le> 0 then 1
      else let slowThreshold = max 8000 (f64_mul representativeTTFT 4);
               clean = filter (\<lambda>(v, w). v > 0 \<and> w > 0) values;
               totalWeight = f64_sum (map snd clean);
               slowWeight = f64_sum (map snd (filter (\<lambda>(v, w). v \<ge> slowThreshold) clean))
           in if totalWeight \<le> 0 \<or> slowWeight \<le> 0 then 1
              else let slowRatio = clamp01 (f64_div slowWeight totalWeight)
                   in clamp01 (f64_sub 1 (f64_mul slowRatio (f64_round (35 / 100)))))"

definition recencyWeightedTTFTLatency :: "go_math \<Rightarrow> latency_sample list \<Rightarrow> f64 \<times> f64 \<times> int" where
  "recencyWeightedTTFTLatency m samples =
     (let values = map lt_TTFTMs (filter (\<lambda>x. lt_TTFTMs x > 0) (normalizeRuntimeLatencySamples samples));
          n = length values;
          weight = (\<lambda>idx.
            let age = f64_of_int (int n - 1 - int idx);
                age = (if n \<ge> 10 \<and> n < 64 then f64_mul age (f64_div 64 (f64_of_int (int n))) else age)
            in gm_Pow m (1 / 2) (f64_div age 16));
          ordered = map (\<lambda>(idx, v). (v, weight idx)) (zip [0..<n] values)
      in if values = [] then (0, 1, 0)
         else let p50 = weightedPercentile ordered (1 / 2) in
           if p50 \<le> 0 then (0, 1, int n) else (p50, ttftStabilityPenalty ordered p50, int n))"

definition runtimeLatencyStats :: "go_math \<Rightarrow> latency_sample list \<Rightarrow> f64 \<times> f64 \<times> f64" where
  "runtimeLatencyStats m samples =
     (let samples = normalizeRuntimeLatencySamples samples in
      if samples = [] then (0, 0, 0)
      else let durations = filter (\<lambda>v. v > 0) (map lt_DurationMs samples);
               ttfts = filter (\<lambda>v. v > 0) (map lt_TTFTMs samples);
               durationMs = trimmedMeanFloat64 durations
           in (case recencyWeightedTTFTLatency m samples of (ttftMs, stabilityPenalty, _) \<Rightarrow>
             let stabilityPenalty = (if ttftMs \<le> 0 then 1 else stabilityPenalty);
                 ttftMs = (if ttftMs \<le> 0 then trimmedMeanFloat64 ttfts else ttftMs)
             in (durationMs, ttftMs,
                 if ttftMs > 0 then f64_mul (progressiveTTFTLatencyScore m ttftMs 800 20000) stabilityPenalty
                 else if durationMs > 0 then inverseLatencyScore durationMs 3000 90000 else 0)))"

datatype latency_source = SourceScoreStatsLatency | SourceRuntimeLatencySamples | SourceSnapshotFallback | SourceSampleMissing

record latency_view =
  lv_TTFTMs :: f64
  lv_DurationMs :: f64
  lv_TokensPerSecond :: f64
  lv_TTFTStabilityPenalty :: f64
  lv_LatencySamples :: int
  lv_ThroughputSamples :: int
  lv_UsesScoreStatsLatency :: bool
  lv_UsesRuntimeLatencyView :: bool
  lv_TTFTSource :: latency_source

definition scoreItemSourceForSnapshotValue :: "f64 \<Rightarrow> latency_source" where
  "scoreItemSourceForSnapshotValue v = (if v > 0 then SourceSnapshotFallback else SourceSampleMissing)"

definition scoreLatencyViewFromSnapshot :: "go_math \<Rightarrow> runtime_snapshot \<Rightarrow> score_stats \<Rightarrow> latency_view" where
  "scoreLatencyViewFromSnapshot m s stats =
     (let view = \<lparr>lv_TTFTMs = rs_TTFTMs s, lv_DurationMs = rs_DurationMs s, lv_TokensPerSecond = rs_TokensPerSecond s,
            lv_TTFTStabilityPenalty = 1, lv_LatencySamples = 0, lv_ThroughputSamples = 0,
            lv_UsesScoreStatsLatency = False, lv_UsesRuntimeLatencyView = False,
            lv_TTFTSource = scoreItemSourceForSnapshotValue (rs_TTFTMs s)\<rparr>;
          view = (if rs_RecentLatencySamples s \<noteq> [] then
              (case recencyWeightedTTFTLatency m (rs_RecentLatencySamples s) of (ttft, penalty, n) \<Rightarrow>
                 if ttft > 0 then view\<lparr>lv_TTFTMs := ttft, lv_TTFTStabilityPenalty := penalty,
                   lv_TTFTSource := SourceRuntimeLatencySamples, lv_LatencySamples := max (lv_LatencySamples view) n,
                   lv_UsesRuntimeLatencyView := True\<rparr> else view) else view);
          view = (if ss_TTFTMs stats \<noteq> [] \<and> (lv_TTFTMs view \<le> 0 \<or> lv_TTFTSource view = SourceSnapshotFallback
                    \<or> lv_TTFTSource view = SourceSampleMissing)
            then view\<lparr>lv_TTFTMs := trimmedMeanFloat64 (ss_TTFTMs stats),
              lv_LatencySamples := max (lv_LatencySamples view) (int (length (ss_TTFTMs stats))),
              lv_UsesScoreStatsLatency := True, lv_TTFTSource := SourceScoreStatsLatency\<rparr> else view);
          view = (if ss_DurationMs stats \<noteq> []
            then view\<lparr>lv_DurationMs := trimmedMeanFloat64 (ss_DurationMs stats),
              lv_LatencySamples := max (lv_LatencySamples view) (int (length (ss_DurationMs stats))),
              lv_UsesScoreStatsLatency := True\<rparr> else view);
          view = (if ss_TokensPerSecond stats \<noteq> []
            then view\<lparr>lv_TokensPerSecond := trimmedMeanFloat64 (ss_TokensPerSecond stats),
              lv_ThroughputSamples := int (length (ss_TokensPerSecond stats)),
              lv_UsesScoreStatsLatency := True\<rparr> else view);
          view = (if \<not> lv_UsesScoreStatsLatency view \<and> \<not> lv_UsesRuntimeLatencyView view \<and> rs_RecentLatencySamples s \<noteq> [] then
              (case runtimeLatencyStats m (rs_RecentLatencySamples s) of (duration, ttft, _) \<Rightarrow>
                let view = (if ttft > 0 then view\<lparr>lv_TTFTMs := ttft, lv_TTFTSource := SourceRuntimeLatencySamples\<rparr> else view);
                    view = (if duration > 0 then view\<lparr>lv_DurationMs := duration\<rparr> else view)
                in view\<lparr>lv_LatencySamples := int (length (rs_RecentLatencySamples s)), lv_UsesRuntimeLatencyView := True\<rparr>)
              else view);
          view = (if lv_LatencySamples view \<le> 0 \<and> rs_SampleCount s > 0 \<and> (lv_TTFTMs view > 0 \<or> lv_DurationMs view > 0)
            then view\<lparr>lv_LatencySamples := rs_SampleCount s\<rparr> else view)
      in if lv_ThroughputSamples view \<le> 0 \<and> lv_TokensPerSecond view > 0
         then view\<lparr>lv_ThroughputSamples := rs_SampleCount s\<rparr> else view)"

definition view_SampleCount :: "latency_view \<Rightarrow> int \<Rightarrow> int" where
  "view_SampleCount v fallback = (if lv_LatencySamples v > 0 then lv_LatencySamples v else fallback)"

definition view_ThroughputSampleCount :: "latency_view \<Rightarrow> int \<Rightarrow> int" where
  "view_ThroughputSampleCount v fallback =
     (if lv_ThroughputSamples v > 0 then lv_ThroughputSamples v else if lv_TokensPerSecond v > 0 then fallback else 0)"

definition ttftScoreItemValue :: "go_math \<Rightarrow> latency_view \<Rightarrow> f64" where
  "ttftScoreItemValue m v =
     (if lv_TTFTMs v \<le> 0 then 0
      else let penalty = (if lv_TTFTStabilityPenalty v \<le> 0 then 1 else lv_TTFTStabilityPenalty v)
           in f64_mul (progressiveTTFTLatencyScore m (lv_TTFTMs v) 800 20000) (clamp01 penalty))"

definition durationScoreItemValue :: "latency_view \<Rightarrow> f64" where
  "durationScoreItemValue v = (if lv_DurationMs v \<le> 0 then 0 else inverseLatencyScore (lv_DurationMs v) 3000 90000)"

end
