(* ===== verification/Route_Score.thy ===== *)
theory Route_Score
  imports Route_Items
begin

text \<open>
  Score items, boosts, normalised weights and the score of a candidate
  (\<^verbatim>\<open>scheduler/scoring_service.go\<close>, \<^verbatim>\<open>score_boost.go\<close>), with the bounds every score obeys and
  the way load moves it.
\<close>

section \<open>Items\<close>

definition scoreItem :: "string \<Rightarrow> f64 \<Rightarrow> f64 \<Rightarrow> int \<Rightarrow> score_item" where
  "scoreItem key score weight sampleCount =
     (let score = clamp01 score in
      \<lparr>it_Key = key, it_Score = round4 score, it_Weight = weight, it_WeightedScore = round4 (f64_mul score weight),
       it_SampleCount = sampleCount, it_MissingReason = []\<rparr>)"

definition rate_of :: "score_stats \<Rightarrow> string \<Rightarrow> rate_stats" where
  "rate_of stats k =
     (case map_of (ss_Rates stats) k of
        None \<Rightarrow> \<lparr>ra_Success = 0, ra_Count = 0, ra_Total = 0, ra_EWMA = 0\<rparr> | Some r \<Rightarrow> r)"

definition scoreRateValue :: "rate_stats \<Rightarrow> f64 \<Rightarrow> f64" where
  "scoreRateValue r fallback =
     (if ra_Total r \<le> 0 then fallback
      else if ra_EWMA r > 0 then clamp01 (ra_EWMA r)
      else clamp01 (f64_div (f64_of_int (ra_Success r)) (f64_of_int (ra_Total r))))"

definition scoreRateSampleCount :: "rate_stats \<Rightarrow> int \<Rightarrow> int" where
  "scoreRateSampleCount r fallback = (if ra_Total r > 0 then ra_Total r else fallback)"

definition completionRateScore :: "runtime_snapshot \<Rightarrow> f64" where
  "completionRateScore s = (if rs_SampleCount s \<le> 0 then f64_round (55 / 100) else clamp01 (rs_SuccessRate s))"

record scoring_context =
  cx_Strategy :: string
  cx_ScoreWeights :: score_weights
  cx_ScoreBoosts :: "(string, f64) gomap"
  cx_RetryRoutingIntent :: "retry_routing_intent option"

definition retryIntentScoreItem :: "go_math \<Rightarrow> runtime_snapshot \<Rightarrow> scoring_context \<Rightarrow> score_item" where
  "retryIntentScoreItem m s ctx =
     (case cx_RetryRoutingIntent ctx of
        None \<Rightarrow> scoreItem scoreItemRetryIntentRecovery 0 0 (rs_SampleCount s)
      | Some intent \<Rightarrow>
          if \<not> FirstByteRecovery (Some intent) then scoreItem scoreItemRetryIntentRecovery 0 0 (rs_SampleCount s)
          else
            let successScore = completionRateScore s;
                ttftScore = (if rs_TTFTMs s > 0 then progressiveTTFTLatencyScore m (rs_TTFTMs s) 800 12000 else f64_round (55 / 100));
                backlogScore = firstByteBacklogScore s StrategySpeedFirst;
                score = 0; weightParts = 0;
                (score, weightParts) = (if rri_PreferHighSuccess intent
                  then (f64_add score (f64_mul successScore (f64_round (30 / 100))), f64_add weightParts (f64_round (30 / 100)))
                  else (score, weightParts));
                (score, weightParts) = (if rri_PreferLowTTFT intent
                  then (f64_add score (f64_mul ttftScore (f64_round (45 / 100))), f64_add weightParts (f64_round (45 / 100)))
                  else (score, weightParts));
                score = f64_add score (f64_mul backlogScore (f64_round (25 / 100)));
                weightParts = f64_add weightParts (f64_round (25 / 100));
                score = (if weightParts > 0 then f64_div score weightParts else score)
            in scoreItem scoreItemRetryIntentRecovery score (f64_round (60 / 100)) (rs_SampleCount s))"

section \<open>Missing samples\<close>

definition mark_missing :: "(string \<Rightarrow> bool) \<Rightarrow> string \<Rightarrow> score_item \<Rightarrow> score_item" where
  "mark_missing missing reason item =
     (if missing (it_Key item) then item\<lparr>it_MissingReason := reason, it_Score := 0, it_WeightedScore := 0\<rparr> else item)"

definition markIndividualSampleMissingScoreItems ::
  "score_stats \<Rightarrow> runtime_snapshot \<Rightarrow> latency_view \<Rightarrow> score_item list \<Rightarrow> score_item list" where
  "markIndividualSampleMissingScoreItems stats s view items =
     (let no_rate = (\<lambda>rate. ra_Total (rate_of stats rate) \<le> 0 \<and> rs_SampleCount s \<le> 0);
          missing = (\<lambda>key.
            key = scoreItemCompletionRate \<and> no_rate ''completion''
            \<or> key = scoreItemUpstreamErrorRate \<and> no_rate ''upstream_error''
            \<or> key = scoreItemTTFTLatency \<and> lv_TTFTMs view \<le> 0
            \<or> key = scoreItemDurationLatency \<and> lv_DurationMs view \<le> 0
            \<or> key = scoreItemThroughput \<and> lv_TokensPerSecond view \<le> 0
            \<or> key = scoreItemEmptyOutputRate \<and> no_rate ''empty_output''
            \<or> key = scoreItemStreamInterruptedRate \<and> no_rate ''stream_interrupted'')
      in map (mark_missing missing ''sample_missing'') items)"

definition sample_keys :: "string list" where
  "sample_keys = [scoreItemCompletionRate, scoreItemUpstreamErrorRate, scoreItemTTFTLatency, scoreItemDurationLatency,
     scoreItemThroughput, scoreItemEmptyOutputRate, scoreItemStreamInterruptedRate]"

definition markSampleMissingScoreItems ::
  "score_stats \<Rightarrow> runtime_snapshot \<Rightarrow> latency_view \<Rightarrow> score_item list \<Rightarrow> score_item list" where
  "markSampleMissingScoreItems stats s view items =
     (let items = markIndividualSampleMissingScoreItems stats s view items in
      if rs_SampleCount s > 0 \<or> ss_Samples stats > 0 then items
      else map (mark_missing (\<lambda>key. key \<in> set sample_keys) ''sample_missing'') items)"

section \<open>Boosts\<close>

definition IsAllowedScoreBoostItem :: "string \<Rightarrow> bool" where
  "IsAllowedScoreBoostItem key \<longleftrightarrow>
     TrimSpace key \<in> set (sample_keys @ [scoreItemConcurrencyLoad, scoreItemQueuePressure, scoreItemFirstByteBacklog, scoreItemCost])"

definition normalize_boosts :: "(string, f64) gomap \<Rightarrow> (string, f64) gomap" where
  "normalize_boosts boosts =
     foldl (\<lambda>out (key, v).
       let key = TrimSpace key in
       if key = [] \<or> \<not> IsAllowedScoreBoostItem key then out
       else if v \<le> 0 then out
       else gput key (round4 (clamp01 v)) out) [] boosts"

definition BoostsForChannel :: "route_channel option \<Rightarrow> (string, f64) gomap" where
  "BoostsForChannel ch = (case ch of None \<Rightarrow> [] | Some ch \<Rightarrow> normalize_boosts (ch_SmartScoreBoosts ch))"

definition boost_item :: "(string, f64) gomap \<Rightarrow> score_item \<Rightarrow> score_item" where
  "boost_item boosts item =
     (let boost = fval boosts (it_Key item) in
      if boost \<le> 0 \<or> it_MissingReason item \<noteq> [] then item
      else let score = round4 (clamp01 (f64_add (it_Score item) boost))
           in item\<lparr>it_Score := score, it_WeightedScore := round4 (f64_mul score (it_Weight item))\<rparr>)"

definition ApplyScoreBoosts :: "score_item list \<Rightarrow> (string, f64) gomap \<Rightarrow> score_item list" where
  "ApplyScoreBoosts items boosts =
     (let boosts = normalize_boosts boosts in
      if items = [] \<or> boosts = [] then items else map (boost_item boosts) items)"

section \<open>Normalised weights\<close>

definition counts :: "score_item \<Rightarrow> bool" where
  "counts item \<longleftrightarrow> \<not> (it_MissingReason item \<noteq> [] \<or> it_Weight item \<le> 0)"

definition applyMinimumNormalizedScoreItemWeight :: "score_item list \<Rightarrow> string \<Rightarrow> f64 \<Rightarrow> score_item list" where
  "applyMinimumNormalizedScoreItemWeight items key target =
     (if items = [] \<or> TrimSpace key = [] \<or> target \<le> 0 \<or> target \<ge> 1 then items
      else let target = clamp01 target in
        case find (\<lambda>i. it_Key (items ! i) = key \<and> counts (items ! i)) [0..<length items] of
          None \<Rightarrow> items
        | Some targetIdx \<Rightarrow>
            let current = it_Weight (items ! targetIdx) in
            if current \<ge> target then items
            else let otherTotal = f64_sub 1 current in
              if otherTotal \<le> 0 then items[targetIdx := (items ! targetIdx)\<lparr>it_Weight := target\<rparr>]
              else let scale = f64_div (f64_sub 1 target) otherTotal in
                map (\<lambda>(idx, item).
                  if \<not> counts item then item
                  else if idx = targetIdx then item\<lparr>it_Weight := target\<rparr>
                  else item\<lparr>it_Weight := f64_mul (it_Weight item) scale\<rparr>) (zip [0..<length items] items))"

definition scoreItemTTFTLatencyMinWeight :: f64 where "scoreItemTTFTLatencyMinWeight = f64_round (13 / 100)"

definition normalizeScoreItems :: "score_item list \<Rightarrow> score_item list" where
  "normalizeScoreItems items =
     (let totalWeight = f64_sum (map it_Weight (filter counts items)) in
      if totalWeight \<le> 0 then items
      else
        let out = map (\<lambda>item. if counts item then item\<lparr>it_Weight := f64_div (it_Weight item) totalWeight\<rparr>
              else item\<lparr>it_Weight := 0, it_WeightedScore := 0\<rparr>) items;
            out = applyMinimumNormalizedScoreItemWeight out scoreItemTTFTLatency scoreItemTTFTLatencyMinWeight
        in map (\<lambda>item. if counts item
             then item\<lparr>it_Weight := round4 (it_Weight item),
               it_WeightedScore := round4 (f64_mul (it_Score item) (round4 (it_Weight item)))\<rparr>
             else item) out)"

section \<open>Scores\<close>

definition BuildScoreItems ::
  "go_math \<Rightarrow> runtime_snapshot \<Rightarrow> smart_policy \<Rightarrow> scoring_context \<Rightarrow> bool \<Rightarrow> score_item list" where
  "BuildScoreItems m s policy ctx routing =
     (let strategy = orElse (gp_Strategy policy) (cx_Strategy ctx);
          profile = WithScoreWeights (StrategyProfileFor strategy) (cx_ScoreWeights ctx);
          stats = rs_ScoreStats s;
          view = scoreLatencyViewFromSnapshot m s stats;
          loadScore = (if routing then routingConcurrencyLoadItemScoreForStrategy s strategy else stableConcurrencyLoadItemScore s);
          queueScore = (if routing then queuePressureScore s strategy else 1);
          firstByteScore = (if routing then firstByteBacklogScore s strategy else 1);
          weight = fval (pf_Weights profile);
          rate_item = (\<lambda>key rate fallback. scoreItem key (scoreRateValue (rate_of stats rate) fallback) (weight key)
            (scoreRateSampleCount (rate_of stats rate) (rs_SampleCount s)));
          values =
            [rate_item scoreItemCompletionRate ''completion'' (completionRateScore s),
             rate_item scoreItemUpstreamErrorRate ''upstream_error'' 1,
             scoreItem scoreItemTTFTLatency (ttftScoreItemValue m view) (weight scoreItemTTFTLatency) (view_SampleCount view (rs_SampleCount s)),
             scoreItem scoreItemDurationLatency (durationScoreItemValue view) (weight scoreItemDurationLatency) (view_SampleCount view (rs_SampleCount s)),
             scoreItem scoreItemThroughput (throughputScore (lv_TokensPerSecond view) 5 80) (weight scoreItemThroughput)
               (view_ThroughputSampleCount view (rs_SampleCount s)),
             rate_item scoreItemEmptyOutputRate ''empty_output'' (clamp01 (f64_sub 1 (clamp01 (rs_EmptyOutputRate s)))),
             rate_item scoreItemStreamInterruptedRate ''stream_interrupted'' 1,
             scoreItem scoreItemConcurrencyLoad loadScore (weight scoreItemConcurrencyLoad) (rs_SampleCount s),
             scoreItem scoreItemQueuePressure queueScore (weight scoreItemQueuePressure) (rs_SampleCount s),
             scoreItem scoreItemFirstByteBacklog firstByteScore (weight scoreItemFirstByteBacklog) (rs_SampleCount s),
             scoreItem scoreItemCost (costScoreItemValue m s profile) (weight scoreItemCost) (rs_SampleCount s),
             scoreItem scoreItemGroupPriority (groupPriorityItemScoreForStrategy s policy strategy) (weight scoreItemGroupPriority) (rs_SampleCount s)]
            @ (if routing then [retryIntentScoreItem m s ctx] else []);
          values = markSampleMissingScoreItems stats s view values;
          values = (if rs_CostRatio s \<le> 0 \<or> rs_CostReferenceRatio s \<le> 0
            then map (mark_missing (\<lambda>key. key = scoreItemCost) ''cost_reference_missing'') values else values)
      in normalizeScoreItems (ApplyScoreBoosts values (cx_ScoreBoosts ctx)))"

definition scoreTotalFromItems :: "score_item list \<Rightarrow> f64" where
  "scoreTotalFromItems items =
     round4 (clamp01 (f64_sum (map (\<lambda>item. f64_mul (it_Score item) (it_Weight item)) (filter counts items))))"

definition score :: "go_math \<Rightarrow> candidate \<Rightarrow> runtime_snapshot \<Rightarrow> smart_policy \<Rightarrow> scoring_context \<Rightarrow> score_result" where
  "score m cand s policy ctx =
     (let ctx = (if cx_ScoreBoosts ctx = [] then ctx\<lparr>cx_ScoreBoosts := BoostsForChannel (cd_Channel cand)\<rparr> else ctx);
          items = BuildScoreItems m s policy ctx False;
          routingItems = BuildScoreItems m s policy ctx True
      in \<lparr>sr_Total = scoreTotalFromItems items, sr_Items = items,
          sr_RoutingTotal = scoreTotalFromItems routingItems, sr_RoutingItems = routingItems,
          sr_Reason = (if Active (cx_RetryRoutingIntent ctx) then ''score_items_retry_intent'' else ''score_items'')\<rparr>)"

end
