(* ===== verification/Empty_Output_Switch.thy ===== *)
theory Empty_Output_Switch
  imports Route_Core
begin

text \<open>
  The tracker that keeps a client session away from a channel that answered it with empty
  output (\<^verbatim>\<open>scheduler/client_empty_output_switch.go\<close>). Entries are kept per session, channel,
  model, group and endpoint; the clock is an argument. When the table is full the tracker
  ranges over the Go map and drops entries: the two iteration orders are arguments.
\<close>

section \<open>State\<close>

record switch_key =
  wk_SessionKey :: string
  wk_ChannelID :: int
  wk_RequestedModel :: string
  wk_Group :: string
  wk_EndpointType :: string

record switch_entry =
  we_Events :: "time list"
  we_AvoidUntil :: time

record switch_tracker =
  wt_detectionWindow :: int
  wt_avoidanceTTL :: int
  wt_minSamples :: int
  wt_maxEntries :: int
  wt_entries :: "(switch_key, switch_entry) gomap"

record switch_result = attempt_result +
  ar_IsHealthProbe :: bool
  ar_EmptyOutput :: bool
  ar_ExperienceIssue :: string
  ar_ObservedAt :: time
  ar_ClientSessionKey :: string

definition ClientEmptyOutputSwitchReason :: string where
  "ClientEmptyOutputSwitchReason = ''client_empty_output_switch''"

definition NewClientEmptyOutputSwitchTracker :: "int \<Rightarrow> int \<Rightarrow> int \<Rightarrow> int \<Rightarrow> switch_tracker" where
  "NewClientEmptyOutputSwitchTracker window ttl minSamples maxEntries =
     \<lparr>wt_detectionWindow = (if window \<le> 0 then 30 * Second else window),
      wt_avoidanceTTL = (if ttl \<le> 0 then 600 * Second else ttl),
      wt_minSamples = (if minSamples \<le> 0 then 3 else minSamples),
      wt_maxEntries = (if maxEntries \<le> 0 then 100000 else maxEntries),
      wt_entries = []\<rparr>"

section \<open>Keys\<close>

definition newClientEmptyOutputSwitchKey ::
  "string \<Rightarrow> int \<Rightarrow> string \<Rightarrow> string \<Rightarrow> string \<Rightarrow> switch_key option" where
  "newClientEmptyOutputSwitchKey sessionKey channelID modelName grp endpointType =
     (let sessionKey = TrimSpace sessionKey; modelName = TrimSpace modelName; grp = TrimSpace grp;
          endpointType = (if endpointType = [] then EndpointTypeOpenAI else endpointType)
      in if sessionKey = [] \<or> channelID \<le> 0 \<or> modelName = [] \<or> grp = [] then None
         else Some \<lparr>wk_SessionKey = sessionKey, wk_ChannelID = channelID, wk_RequestedModel = modelName,
                    wk_Group = grp, wk_EndpointType = endpointType\<rparr>)"

definition clientEmptyOutputSwitchKeyFromResult :: "switch_result \<Rightarrow> switch_key option" where
  "clientEmptyOutputSwitchKeyFromResult r =
     (let runtimeKey = RuntimeKey (attempt_result.truncate r);
          modelName = firstNonEmptyString [rk_RequestedModel runtimeKey, ar_ModelName r, rk_UpstreamModel runtimeKey];
          group = firstNonEmptyString [rk_Group runtimeKey, ar_SelectedGroup r, ar_RequestedGroup r]
      in newClientEmptyOutputSwitchKey (ar_ClientSessionKey r) (rk_ChannelID runtimeKey) modelName group (rk_EndpointType runtimeKey))"

definition clientEmptyOutputSwitchKeyFromCandidate ::
  "select_request \<Rightarrow> candidate \<Rightarrow> runtime_snapshot \<Rightarrow> switch_key option" where
  "clientEmptyOutputSwitchKeyFromCandidate req cand s =
     (let channelID = (case cd_Channel cand of Some ch \<Rightarrow> ch_Id ch | None \<Rightarrow> 0);
          channelID = (if channelID \<le> 0 then firstPositiveInt [rk_ChannelID (rs_Key s), rk_ChannelID (cd_RuntimeKey cand)] else channelID);
          modelName = firstNonEmptyString [dr_ModelName req, rk_RequestedModel (rs_Key s), rk_RequestedModel (cd_RuntimeKey cand),
            cd_UpstreamModel cand, rk_UpstreamModel (rs_Key s), rk_UpstreamModel (cd_RuntimeKey cand)];
          group = firstNonEmptyString [rk_Group (cd_RuntimeKey cand), rk_Group (rs_Key s), cd_Group cand, dr_RequestedGroup req, dr_UserGroup req];
          endpointType = orElse (dr_EndpointType req) (orElse (rk_EndpointType (rs_Key s)) (rk_EndpointType (cd_RuntimeKey cand)))
      in newClientEmptyOutputSwitchKey (dr_ClientSessionKey req) channelID modelName group endpointType)"

section \<open>Operations\<close>

definition entry_of :: "switch_tracker \<Rightarrow> switch_key \<Rightarrow> switch_entry" where
  "entry_of t k = (case map_of (wt_entries t) k of None \<Rightarrow> \<lparr>we_Events = [], we_AvoidUntil = zero_time\<rparr> | Some e \<Rightarrow> e)"

definition pruneClientEmptyOutputEvents :: "time list \<Rightarrow> time \<Rightarrow> int \<Rightarrow> time list" where
  "pruneClientEmptyOutputEvents events now window = filter (\<lambda>e. \<not> e < now - window) events"

fun prune_stale ::
  "time \<Rightarrow> int \<Rightarrow> int \<Rightarrow> switch_key list \<Rightarrow> (switch_key, switch_entry) gomap \<Rightarrow> bool \<times> (switch_key, switch_entry) gomap" where
  "prune_stale now window most [] es = (False, es)"
| "prune_stale now window most (k # ks) es =
     (case map_of es k of
        None \<Rightarrow> prune_stale now window most ks es
      | Some entry \<Rightarrow>
          let entry = entry\<lparr>we_Events := pruneClientEmptyOutputEvents (we_Events entry) now window\<rparr> in
          if we_Events entry = [] \<and> \<not> we_AvoidUntil entry > now then prune_stale now window most ks (gdel k es)
          else let es = gput k entry es in
            if int (length es) \<le> most then (True, es) else prune_stale now window most ks es)"

fun prune_any :: "int \<Rightarrow> switch_key list \<Rightarrow> (switch_key, switch_entry) gomap \<Rightarrow> (switch_key, switch_entry) gomap" where
  "prune_any most [] es = es"
| "prune_any most (k # ks) es =
     (if map_of es k = None then prune_any most ks es
      else let es = gdel k es in if int (length es) \<le> most then es else prune_any most ks es)"

definition pruneOverflowLocked :: "time \<Rightarrow> switch_key list \<Rightarrow> switch_key list \<Rightarrow> switch_tracker \<Rightarrow> switch_tracker" where
  "pruneOverflowLocked now order1 order2 t =
     (if wt_maxEntries t \<le> 0 \<or> int (length (wt_entries t)) \<le> wt_maxEntries t then t
      else case prune_stale now (wt_detectionWindow t) (wt_maxEntries t) order1 (wt_entries t) of (returned, es) \<Rightarrow>
        t\<lparr>wt_entries := (if returned then es else prune_any (wt_maxEntries t) order2 es)\<rparr>)"

definition recordEmptyOutput :: "time \<Rightarrow> switch_key list \<Rightarrow> switch_key list \<Rightarrow> switch_key \<Rightarrow> time \<Rightarrow> switch_tracker \<Rightarrow> switch_tracker" where
  "recordEmptyOutput now order1 order2 k observedAt t =
     (let observedAt = (if IsZero observedAt then now else observedAt);
          entry = entry_of t k;
          events = pruneClientEmptyOutputEvents (we_Events entry) now (wt_detectionWindow t);
          events = pruneClientEmptyOutputEvents (events @ [observedAt]) now (wt_detectionWindow t);
          entry = entry\<lparr>we_Events := events\<rparr>;
          entry = (if int (length events) \<ge> wt_minSamples t then entry\<lparr>we_AvoidUntil := now + wt_avoidanceTTL t\<rparr> else entry)
      in pruneOverflowLocked now order1 order2 (t\<lparr>wt_entries := gput k entry (wt_entries t)\<rparr>))"

definition switch_clear :: "switch_key \<Rightarrow> switch_tracker \<Rightarrow> switch_tracker" where
  "switch_clear k t = t\<lparr>wt_entries := gdel k (wt_entries t)\<rparr>"

definition switch_Report :: "time \<Rightarrow> switch_key list \<Rightarrow> switch_key list \<Rightarrow> switch_result \<Rightarrow> switch_tracker \<Rightarrow> switch_tracker" where
  "switch_Report now order1 order2 r t =
     (if ar_IsHealthProbe r \<or> ar_ClientAborted r then t
      else case clientEmptyOutputSwitchKeyFromResult r of
        None \<Rightarrow> t
      | Some k \<Rightarrow>
          if ar_EmptyOutput r \<or> TrimSpace (ar_ExperienceIssue r) = ''empty_output''
          then recordEmptyOutput now order1 order2 k (ar_ObservedAt r) t
          else if ar_Success r \<and> TrimSpace (ar_ExperienceIssue r) = [] then switch_clear k t
          else t)"

definition shouldAvoid :: "time \<Rightarrow> switch_key \<Rightarrow> switch_tracker \<Rightarrow> bool \<times> switch_tracker" where
  "shouldAvoid now k t =
     (let entry = entry_of t k;
          entry = entry\<lparr>we_Events := pruneClientEmptyOutputEvents (we_Events entry) now (wt_detectionWindow t)\<rparr>
      in if \<not> we_AvoidUntil entry > now then
           (False, if we_Events entry = [] then t\<lparr>wt_entries := gdel k (wt_entries t)\<rparr>
                   else t\<lparr>wt_entries := gput k (entry\<lparr>we_AvoidUntil := zero_time\<rparr>) (wt_entries t)\<rparr>)
         else (True, t\<lparr>wt_entries := gput k entry (wt_entries t)\<rparr>))"

definition AvoidanceReason ::
  "time \<Rightarrow> select_request \<Rightarrow> candidate \<Rightarrow> runtime_snapshot \<Rightarrow> switch_tracker \<Rightarrow> string \<times> switch_tracker" where
  "AvoidanceReason now req cand s t =
     (case clientEmptyOutputSwitchKeyFromCandidate req cand s of
        None \<Rightarrow> ([], t)
      | Some k \<Rightarrow> (case shouldAvoid now k t of (avoid, t) \<Rightarrow>
          (if avoid then ClientEmptyOutputSwitchReason else [], t)))"

definition switch_Clear :: "string \<Rightarrow> int \<Rightarrow> string \<Rightarrow> string \<Rightarrow> string \<Rightarrow> switch_tracker \<Rightarrow> bool \<times> switch_tracker" where
  "switch_Clear sessionKey channelID modelName grp endpointType t =
     (case newClientEmptyOutputSwitchKey sessionKey channelID modelName grp endpointType of
        None \<Rightarrow> (False, t)
      | Some k \<Rightarrow> if map_of (wt_entries t) k = None then (False, t)
          else (True, t\<lparr>wt_entries := gdel k (wt_entries t)\<rparr>))"

section \<open>Asking changes nothing that counts\<close>

text \<open>Whether a key is avoided at \<open>now\<close>, and that asking about any key leaves every answer unchanged.\<close>

definition avoided :: "switch_tracker \<Rightarrow> time \<Rightarrow> switch_key \<Rightarrow> bool" where
  "avoided t now k \<longleftrightarrow> now < we_AvoidUntil (entry_of t k)"

lemma shouldAvoid_exact: "fst (shouldAvoid now k t) = avoided t now k"
  by (simp add: shouldAvoid_def avoided_def Let_def)

lemma shouldAvoid_quiet: "zero_time \<le> now \<Longrightarrow> avoided (snd (shouldAvoid now k t)) now j = avoided t now j"
  by (auto simp: shouldAvoid_def avoided_def entry_of_def Let_def go_map_simps zero_time_def split: option.splits)

lemma AvoidanceReason_quiet:
  "zero_time \<le> now \<Longrightarrow> avoided (snd (AvoidanceReason now req cand s t)) now j = avoided t now j"
  by (auto simp: AvoidanceReason_def split: option.split prod.split dest: shouldAvoid_quiet [of now _ t j])
    (metis shouldAvoid_quiet snd_conv)+

lemma AvoidanceReason_exact:
  "fst (AvoidanceReason now req cand s t) =
     (case clientEmptyOutputSwitchKeyFromCandidate req cand s of
        None \<Rightarrow> [] | Some k \<Rightarrow> if avoided t now k then ClientEmptyOutputSwitchReason else [])"
  by (auto simp: AvoidanceReason_def split: option.split prod.split) (metis fst_conv shouldAvoid_exact)+

section \<open>The table stays bounded\<close>

lemma prune_stale_returned:
  "prune_stale now window most ks es = (True, es') \<Longrightarrow> int (length es') \<le> most"
  by (induction ks arbitrary: es) (auto simp: Let_def split: option.splits if_splits)

lemma prune_stale_wf: "gwf es \<Longrightarrow> gwf (snd (prune_stale now window most ks es))"
  by (induction ks arbitrary: es) (auto simp: Let_def split: option.splits)

lemma prune_stale_dom: "map_of (snd (prune_stale now window most ks es)) k \<noteq> None \<Longrightarrow> map_of es k \<noteq> None"
  by (induction ks arbitrary: es) (fastforce simp: Let_def go_map_simps split: option.splits if_splits)+

lemma prune_any_bound:
  "gwf es \<Longrightarrow> 0 \<le> most \<Longrightarrow> (\<And>k. map_of es k \<noteq> None \<Longrightarrow> k \<in> set ks) \<Longrightarrow> int (length (prune_any most ks es)) \<le> most"
proof (induction ks arbitrary: es)
  case Nil
  then have "es = []" using Nil.prems(3) [of "fst (hd es)"] by (cases es) auto
  with Nil show ?case by simp
next
  case (Cons k ks)
  have "\<And>j. map_of (gdel k es) j \<noteq> None \<Longrightarrow> j \<in> set ks" "\<And>j. map_of es k = None \<Longrightarrow> map_of es j \<noteq> None \<Longrightarrow> j \<in> set ks"
    using Cons.prems(3) by (force simp: go_map_simps split: if_splits)+
  with Cons show ?case by (auto simp: Let_def)
qed

text \<open>Recording an empty output keeps the table within its limit, whatever order Go ranges over it.\<close>

lemma recordEmptyOutput_bounded:
  assumes "gwf (wt_entries t)" and "0 < wt_maxEntries t"
    and "\<And>j. j = k \<or> map_of (wt_entries t) j \<noteq> None \<Longrightarrow> j \<in> set order2"
  shows "int (length (wt_entries (recordEmptyOutput now order1 order2 k observed t))) \<le> wt_maxEntries t"
proof -
  have bound: "int (length (wt_entries (pruneOverflowLocked now order1 order2 (t\<lparr>wt_entries := gput k e (wt_entries t)\<rparr>)))) \<le> wt_maxEntries t" for e
  proof -
    let ?es = "gput k e (wt_entries t)"
    obtain r es where p: "prune_stale now (wt_detectionWindow t) (wt_maxEntries t) order1 ?es = (r, es)" by fastforce
    have "gwf es" using prune_stale_wf [of ?es now "wt_detectionWindow t" "wt_maxEntries t" order1] assms(1) p by simp
    moreover have "j \<in> set order2" if "map_of es j \<noteq> None" for j
      using prune_stale_dom [of now "wt_detectionWindow t" "wt_maxEntries t" order1 ?es j] that p assms(3) [of j]
      by (auto simp: go_map_simps split: if_splits)
    ultimately have "int (length (prune_any (wt_maxEntries t) order2 es)) \<le> wt_maxEntries t"
      using assms(2) by (intro prune_any_bound) auto
    moreover have "r \<Longrightarrow> int (length es) \<le> wt_maxEntries t" using p by (auto intro: prune_stale_returned)
    ultimately show ?thesis using assms(2) p by (simp add: pruneOverflowLocked_def)
  qed
  then show ?thesis by (simp add: recordEmptyOutput_def Let_def)
qed

end
