(* ===== verification/Balance_Marks.thy ===== *)
theory Balance_Marks
  imports Route_Core
begin

text \<open>
  The marks that keep channels without balance out of the selection: those of one request
  (\<^verbatim>\<open>service/channel_select.go\<close>) and the process-wide ones with an expiry
  (\<^verbatim>\<open>service/channel.go\<close>). A reader of the process-wide marks deletes an expired mark it meets;
  readers return the marks as they leave them.
\<close>

record balance_marks =
  bm_ContextChannels :: "int list"
  bm_ContextIdentities :: "runtime_identity list"
  bm_Channels :: "(int, time) gomap"
  bm_Identities :: "(runtime_identity, time) gomap"

definition channelBalanceInsufficientRuntimeTTL :: int where
  "channelBalanceInsufficientRuntimeTTL = 600 * Second"

section \<open>Marks of a request\<close>

definition MarkChannelBalanceSkipped :: "int \<Rightarrow> balance_marks \<Rightarrow> balance_marks" where
  "MarkChannelBalanceSkipped channelID b =
     (if channelID \<le> 0 then b
      else if channelID \<in> set (bm_ContextChannels b) then b
      else b\<lparr>bm_ContextChannels := bm_ContextChannels b @ [channelID]\<rparr>)"

definition MarkChannelRuntimeBalanceSkipped :: "runtime_identity \<Rightarrow> balance_marks \<Rightarrow> balance_marks" where
  "MarkChannelRuntimeBalanceSkipped i b =
     (let identity = Normalize i in
      if \<not> Valid identity then b
      else if \<not> HasAccountScope identity then MarkChannelBalanceSkipped (ri_ChannelID identity) b
      else if list_ex (\<lambda>existing. AccountScope (Normalize existing) = AccountScope identity) (bm_ContextIdentities b) then b
      else b\<lparr>bm_ContextIdentities := bm_ContextIdentities b @ [AccountScope identity]\<rparr>)"

definition IsChannelBalanceSkipped :: "balance_marks \<Rightarrow> int \<Rightarrow> bool" where
  "IsChannelBalanceSkipped b channelID =
     (if channelID \<le> 0 then False else channelID \<in> set (filter (\<lambda>id. id > 0) (bm_ContextChannels b)))"

definition IsChannelRuntimeBalanceSkipped :: "balance_marks \<Rightarrow> runtime_identity \<Rightarrow> bool" where
  "IsChannelRuntimeBalanceSkipped b i =
     (let identity = Normalize i in
      if \<not> Valid identity then False
      else if \<not> HasAccountScope identity then IsChannelBalanceSkipped b (ri_ChannelID identity)
      else list_ex (\<lambda>existing. AccountScope (Normalize existing) = AccountScope identity) (bm_ContextIdentities b))"

section \<open>Marks of the process\<close>

definition MarkChannelBalanceInsufficient :: "time \<Rightarrow> int \<Rightarrow> balance_marks \<Rightarrow> balance_marks" where
  "MarkChannelBalanceInsufficient now channelID b =
     (if channelID \<le> 0 then b
      else b\<lparr>bm_Channels := gput channelID (now + channelBalanceInsufficientRuntimeTTL) (bm_Channels b)\<rparr>)"

definition MarkChannelRuntimeBalanceInsufficient :: "time \<Rightarrow> runtime_identity \<Rightarrow> balance_marks \<Rightarrow> balance_marks" where
  "MarkChannelRuntimeBalanceInsufficient now i b =
     (let identity = Normalize i in
      if \<not> Valid identity then b
      else if \<not> HasAccountScope identity then MarkChannelBalanceInsufficient now (ri_ChannelID identity) b
      else b\<lparr>bm_Identities := gput (AccountScope identity) (now + channelBalanceInsufficientRuntimeTTL) (bm_Identities b)\<rparr>)"

definition ClearChannelBalanceInsufficient :: "int \<Rightarrow> balance_marks \<Rightarrow> balance_marks" where
  "ClearChannelBalanceInsufficient channelID b =
     (if channelID \<le> 0 then b else b\<lparr>bm_Channels := gdel channelID (bm_Channels b)\<rparr>)"

definition ClearChannelRuntimeBalanceInsufficient :: "runtime_identity \<Rightarrow> balance_marks \<Rightarrow> balance_marks" where
  "ClearChannelRuntimeBalanceInsufficient i b =
     (let identity = Normalize i in
      if \<not> Valid identity then b
      else if \<not> HasAccountScope identity then ClearChannelBalanceInsufficient (ri_ChannelID identity) b
      else b\<lparr>bm_Identities := gdel (AccountScope identity) (bm_Identities b)\<rparr>)"

definition ClearChannelBalanceInsufficientForChannel :: "int \<Rightarrow> balance_marks \<Rightarrow> int \<times> balance_marks" where
  "ClearChannelBalanceInsufficientForChannel channelID b =
     (if channelID \<le> 0 then (0, b)
      else let marked = map_of (bm_Channels b) channelID \<noteq> None;
               mine = (\<lambda>(i, until). ri_ChannelID (Normalize i) = channelID)
           in ((if marked then 1 else 0) + int (length (filter mine (bm_Identities b))),
               b\<lparr>bm_Channels := gdel channelID (bm_Channels b),
                 bm_Identities := filter (\<lambda>e. \<not> mine e) (bm_Identities b)\<rparr>))"

definition IsRuntimeBalanceInsufficientChannelID :: "time \<Rightarrow> int \<Rightarrow> balance_marks \<Rightarrow> bool \<times> balance_marks" where
  "IsRuntimeBalanceInsufficientChannelID now channelID b =
     (if channelID \<le> 0 then (False, b)
      else case map_of (bm_Channels b) channelID of
        None \<Rightarrow> (False, b)
      | Some until \<Rightarrow> if \<not> until > now then (False, b\<lparr>bm_Channels := gdel channelID (bm_Channels b)\<rparr>) else (True, b))"

definition runtimeBalanceEntryActive :: "time \<Rightarrow> runtime_identity \<Rightarrow> balance_marks \<Rightarrow> bool \<times> balance_marks" where
  "runtimeBalanceEntryActive now identity b =
     (let key = AccountScope (Normalize identity) in
      case map_of (bm_Identities b) key of
        None \<Rightarrow> (False, b)
      | Some until \<Rightarrow> if \<not> until > now then (False, b\<lparr>bm_Identities := gdel key (bm_Identities b)\<rparr>) else (True, b))"

definition IsRuntimeBalanceInsufficientIdentity :: "time \<Rightarrow> runtime_identity \<Rightarrow> balance_marks \<Rightarrow> bool \<times> balance_marks" where
  "IsRuntimeBalanceInsufficientIdentity now i b =
     (let identity = Normalize i in
      if \<not> Valid identity then (False, b)
      else if HasAccountScope identity then runtimeBalanceEntryActive now (AccountScope identity) b
      else IsRuntimeBalanceInsufficientChannelID now (ri_ChannelID identity) b)"

section \<open>Balance of a channel\<close>

definition ChannelStatusReasonBalanceInsufficient :: string where
  "ChannelStatusReasonBalanceInsufficient = ''balance_insufficient''"

text \<open>The bytes of the Chinese phrase for an insufficient balance in UTF-8.\<close>

definition balance_phrase :: string where
  "balance_phrase = [CHR 0xE4, CHR 0xBD, CHR 0x99, CHR 0xE9, CHR 0xA2, CHR 0x9D,
     CHR 0xE4, CHR 0xB8, CHR 0x8D, CHR 0xE8, CHR 0xB6, CHR 0xB3]"

definition IsBalanceInsufficientStatusReason :: "string \<Rightarrow> bool" where
  "IsBalanceInsufficientStatusReason reason =
     (let normalized = ToLower (TrimSpace reason) in
      normalized = ChannelStatusReasonBalanceInsufficient \<or> Contains normalized balance_phrase)"

definition IsConfirmedBalanceInsufficientChannel :: "route_channel \<Rightarrow> bool" where
  "IsConfirmedBalanceInsufficientChannel ch \<longleftrightarrow> ch_BalanceUpdatedTime ch > 0 \<and> ch_Balance ch \<le> 0"

definition ChannelStatusReason :: "time \<Rightarrow> route_channel \<Rightarrow> balance_marks \<Rightarrow> string \<times> balance_marks" where
  "ChannelStatusReason now ch b =
     (let reason = TrimSpace (ch_status_reason ch) in
      if reason = [] \<and> IsConfirmedBalanceInsufficientChannel ch then (ChannelStatusReasonBalanceInsufficient, b)
      else if reason = [] then
        (case IsRuntimeBalanceInsufficientChannelID now (ch_Id ch) b of (insufficient, b) \<Rightarrow>
           (if insufficient then ChannelStatusReasonBalanceInsufficient else reason, b))
      else (reason, b))"

definition IsBalanceInsufficientPausedChannel :: "time \<Rightarrow> route_channel \<Rightarrow> balance_marks \<Rightarrow> bool \<times> balance_marks" where
  "IsBalanceInsufficientPausedChannel now ch b =
     (if ch_Status ch \<noteq> 3 then (False, b)
      else case ChannelStatusReason now ch b of (reason, b) \<Rightarrow> (IsBalanceInsufficientStatusReason reason, b))"

definition IsKnownBalanceInsufficientChannel :: "time \<Rightarrow> route_channel \<Rightarrow> balance_marks \<Rightarrow> bool \<times> balance_marks" where
  "IsKnownBalanceInsufficientChannel now ch b =
     (case IsBalanceInsufficientPausedChannel now ch b of (paused, b) \<Rightarrow>
        if paused then (True, b)
        else if IsConfirmedBalanceInsufficientChannel ch then (True, b)
        else IsRuntimeBalanceInsufficientChannelID now (ch_Id ch) b)"

section \<open>Reading and marking\<close>

lemma mark_then_read:
  assumes "0 < ri_ChannelID i" and "now < later + channelBalanceInsufficientRuntimeTTL"
  shows "fst (IsRuntimeBalanceInsufficientIdentity now i (MarkChannelRuntimeBalanceInsufficient later i b))"
  using assms
  by (simp add: IsRuntimeBalanceInsufficientIdentity_def MarkChannelRuntimeBalanceInsufficient_def
      MarkChannelBalanceInsufficient_def IsRuntimeBalanceInsufficientChannelID_def runtimeBalanceEntryActive_def
      Let_def go_map_simps)

lemma skip_then_read:
  "0 < ri_ChannelID i \<Longrightarrow> IsChannelRuntimeBalanceSkipped (MarkChannelRuntimeBalanceSkipped i b) i"
  by (auto simp: IsChannelRuntimeBalanceSkipped_def MarkChannelRuntimeBalanceSkipped_def
      MarkChannelBalanceSkipped_def IsChannelBalanceSkipped_def Let_def list_ex_iff)

section \<open>Reading drops expired marks only\<close>

definition channel_marked :: "time \<Rightarrow> balance_marks \<Rightarrow> int \<Rightarrow> bool" where
  "channel_marked now b i \<longleftrightarrow> 0 < i \<and> (\<exists>until. map_of (bm_Channels b) i = Some until \<and> now < until)"

definition identity_marked :: "time \<Rightarrow> balance_marks \<Rightarrow> runtime_identity \<Rightarrow> bool" where
  "identity_marked now b k \<longleftrightarrow> (\<exists>until. map_of (bm_Identities b) k = Some until \<and> now < until)"

text \<open>Two states of the marks that no reader at \<open>now\<close> can tell apart.\<close>

definition same_marks :: "time \<Rightarrow> balance_marks \<Rightarrow> balance_marks \<Rightarrow> bool" where
  "same_marks now b b' \<longleftrightarrow>
     bm_ContextChannels b' = bm_ContextChannels b \<and> bm_ContextIdentities b' = bm_ContextIdentities b
     \<and> channel_marked now b' = channel_marked now b \<and> identity_marked now b' = identity_marked now b"

lemma same_marks_refl [simp]: "same_marks now b b"
  by (simp add: same_marks_def)

lemma same_marks_trans: "same_marks now b c \<Longrightarrow> same_marks now c d \<Longrightarrow> same_marks now b d"
  by (simp add: same_marks_def)

lemma read_channel: "fst (IsRuntimeBalanceInsufficientChannelID now i b) = channel_marked now b i"
  "same_marks now b (snd (IsRuntimeBalanceInsufficientChannelID now i b))"
  by (auto simp: IsRuntimeBalanceInsufficientChannelID_def channel_marked_def same_marks_def identity_marked_def fun_eq_iff
      go_map_simps split: option.splits)

lemma read_entry: "fst (runtimeBalanceEntryActive now i b) = identity_marked now b (AccountScope (Normalize i))"
  "same_marks now b (snd (runtimeBalanceEntryActive now i b))"
  by (auto simp: runtimeBalanceEntryActive_def channel_marked_def same_marks_def identity_marked_def fun_eq_iff
      go_map_simps Let_def split: option.splits)

lemma read_identity:
  "same_marks now b (snd (IsRuntimeBalanceInsufficientIdentity now i b))"
  "same_marks now b c \<Longrightarrow> fst (IsRuntimeBalanceInsufficientIdentity now i c) = fst (IsRuntimeBalanceInsufficientIdentity now i b)"
proof -
  show "same_marks now b (snd (IsRuntimeBalanceInsufficientIdentity now i b))"
    by (simp add: IsRuntimeBalanceInsufficientIdentity_def Let_def read_channel read_entry)
  assume "same_marks now b c"
  then show "fst (IsRuntimeBalanceInsufficientIdentity now i c) = fst (IsRuntimeBalanceInsufficientIdentity now i b)"
    by (simp add: IsRuntimeBalanceInsufficientIdentity_def Let_def read_channel read_entry same_marks_def)
qed

lemma read_paused:
  "same_marks now b (snd (IsBalanceInsufficientPausedChannel now ch b))"
  "same_marks now b c \<Longrightarrow> fst (IsBalanceInsufficientPausedChannel now ch c) = fst (IsBalanceInsufficientPausedChannel now ch b)"
proof -
  have q: "IsRuntimeBalanceInsufficientChannelID now i x =
      (channel_marked now x i, snd (IsRuntimeBalanceInsufficientChannelID now i x))" for i x
    by (simp add: read_channel(1) [symmetric])
  show "same_marks now b (snd (IsBalanceInsufficientPausedChannel now ch b))"
    by (subst IsBalanceInsufficientPausedChannel_def, subst ChannelStatusReason_def, subst q)
      (simp add: Let_def read_channel(2))
  assume c: "same_marks now b c"
  show "fst (IsBalanceInsufficientPausedChannel now ch c) = fst (IsBalanceInsufficientPausedChannel now ch b)"
    unfolding IsBalanceInsufficientPausedChannel_def ChannelStatusReason_def
    by (subst (1 2) q) (use c in \<open>simp add: Let_def same_marks_def\<close>)
qed

lemma read_known:
  "same_marks now b (snd (IsKnownBalanceInsufficientChannel now ch b))"
  "same_marks now b c \<Longrightarrow> fst (IsKnownBalanceInsufficientChannel now ch c) = fst (IsKnownBalanceInsufficientChannel now ch b)"
proof -
  obtain p u where b: "IsBalanceInsufficientPausedChannel now ch b = (p, u)" by fastforce
  with read_paused(1) [of now b ch] have u: "same_marks now b u" by simp
  with b show "same_marks now b (snd (IsKnownBalanceInsufficientChannel now ch b))"
    using read_channel(2) [of now u "ch_Id ch"] by (auto simp: IsKnownBalanceInsufficientChannel_def intro: same_marks_trans)
  assume c: "same_marks now b c"
  obtain q v where d: "IsBalanceInsufficientPausedChannel now ch c = (q, v)" by fastforce
  have "p = q" using read_paused(2) [OF c, of ch] b d by simp
  moreover have "same_marks now b v" using read_paused(1) [of now c ch] d c by (auto intro: same_marks_trans)
  ultimately show "fst (IsKnownBalanceInsufficientChannel now ch c) = fst (IsKnownBalanceInsufficientChannel now ch b)"
    using u b d by (simp add: IsKnownBalanceInsufficientChannel_def read_channel same_marks_def)
qed

end
