(* ===== verification/Route_Selection.thy ===== *)
theory Route_Selection
  imports Route_Score Empty_Output_Switch Balance_Marks Circuit_Breaker Queue_Manager
begin

text \<open>
  The dispatch selector (\<^verbatim>\<open>scheduler/default_selector.go\<close>) and the resource protection in front of
  it (\<^verbatim>\<open>scheduler/resource_protection.go\<close>). \<open>selector\<close> holds what the Go struct is built from:
  the pool builder, the snapshot enricher and the cost baselines are interfaces of
  \<^verbatim>\<open>core/interfaces.go\<close> and appear as functions, with \<open>None\<close> for a nil interface; the snapshot
  store, the breaker behind the enricher, the empty-output tracker, the sticky router and the
  marks of the request are the modelled components, threaded as \<open>route_world\<close>. One call reads the
  clock and the enricher's live state once. Explanations for the dashboard are left out.
\<close>

section \<open>Configuration and state\<close>

record tie_break_config =
  tb_Enabled :: bool
  tb_ScoreDelta :: f64

record sticky_escape_config =
  es_Enabled :: bool
  es_CostRatio :: f64
  es_CacheCostRatio :: f64
  es_MaxSpeedDrop :: f64
  es_CacheSpeedDrop :: f64
  es_MinSamples :: int
  es_SuccessSlack :: f64

record cost_guard_config =
  cg_Enabled :: bool
  cg_Multiple :: f64
  cg_SuccessAdvantage :: f64
  cg_SpeedAdvantage :: f64

type_synonym baseline_scope = "string \<times> string \<times> string"

record selector =
  sl_Build :: "select_request \<Rightarrow> smart_policy \<Rightarrow> candidate list"
  sl_snapshotStore :: "snapshot_store option"
  sl_scoreWeights :: score_weights
  sl_Enrich :: "(candidate \<Rightarrow> runtime_snapshot \<Rightarrow> smart_policy \<Rightarrow> runtime_snapshot) option"
  sl_Baseline :: "(baseline_scope \<Rightarrow> f64 option) option"
  sl_stickyEscapeConfig :: sticky_escape_config
  sl_costGuardConfig :: cost_guard_config
  sl_tieBreakConfig :: tie_break_config
  sl_math :: go_math

record route_world =
  rw_context :: gin_context
  rw_balance :: balance_marks
  rw_switch :: "switch_tracker option"
  rw_breaker :: "circuit_breaker option"
  rw_router :: "sticky_router option"

definition channelPriorityTieBreakScoreEpsilon :: f64 where
  "channelPriorityTieBreakScoreEpsilon = f64_round (1 / 1000000000)"

definition normalized_tie_break :: "tie_break_config \<Rightarrow> tie_break_config" where
  "normalized_tie_break c =
     (let c = (if tb_ScoreDelta c \<le> 0 then c\<lparr>tb_ScoreDelta := f64_round (5 / 100)\<rparr> else c)
      in if tb_ScoreDelta c > 1 then c\<lparr>tb_ScoreDelta := 1\<rparr> else c)"

definition normalized_guard :: "cost_guard_config \<Rightarrow> cost_guard_config" where
  "normalized_guard c =
     (let c = (if cg_Multiple c \<le> 1 then c\<lparr>cg_Multiple := f64_round (18 / 10)\<rparr> else c);
          c = (if cg_SuccessAdvantage c < 0 then c\<lparr>cg_SuccessAdvantage := 0\<rparr> else c)
      in if cg_SpeedAdvantage c < 0 then c\<lparr>cg_SpeedAdvantage := 0\<rparr> else c)"

definition normalized_escape :: "sticky_escape_config \<Rightarrow> sticky_escape_config" where
  "normalized_escape c =
     (let c = (if es_CostRatio c \<le> 0 then c\<lparr>es_CostRatio := f64_round (75 / 100)\<rparr> else c);
          c = (if es_CacheCostRatio c \<le> 0 then c\<lparr>es_CacheCostRatio := f64_round (55 / 100)\<rparr> else c);
          c = (if es_MaxSpeedDrop c < 0 then c\<lparr>es_MaxSpeedDrop := 0\<rparr> else c);
          c = (if es_CacheSpeedDrop c < 0 then c\<lparr>es_CacheSpeedDrop := 0\<rparr> else c);
          c = (if es_MinSamples c \<le> 0 then c\<lparr>es_MinSamples := 5\<rparr> else c)
      in if es_SuccessSlack c < 0 then c\<lparr>es_SuccessSlack := 0\<rparr> else c)"

definition DefaultChannelPriorityTieBreakConfig :: tie_break_config where
  "DefaultChannelPriorityTieBreakConfig = \<lparr>tb_Enabled = True, tb_ScoreDelta = f64_round (5 / 100)\<rparr>"

definition DefaultCostFirstGuardConfig :: cost_guard_config where
  "DefaultCostFirstGuardConfig = \<lparr>cg_Enabled = True, cg_Multiple = f64_round (18 / 10),
     cg_SuccessAdvantage = f64_round (3 / 100), cg_SpeedAdvantage = f64_round (8 / 100)\<rparr>"

definition DefaultCostFirstStickyEscapeConfig :: sticky_escape_config where
  "DefaultCostFirstStickyEscapeConfig = \<lparr>es_Enabled = True, es_CostRatio = f64_round (75 / 100),
     es_CacheCostRatio = f64_round (55 / 100), es_MaxSpeedDrop = f64_round (6 / 100),
     es_CacheSpeedDrop = f64_round (3 / 100), es_MinSamples = 5, es_SuccessSlack = f64_round (2 / 100)\<rparr>"

definition scoreWeightsForSelector :: "selector \<Rightarrow> score_weights" where
  "scoreWeightsForSelector sel =
     (let w = sl_scoreWeights sel in
      if sw_Success w \<noteq> 0 \<or> sw_Speed w \<noteq> 0 \<or> sw_Load w \<noteq> 0 \<or> sw_Cost w \<noteq> 0 \<or> sw_Group w \<noteq> 0 then w
      else DefaultScoreWeights)"

section \<open>Snapshots of candidates\<close>

definition zero_stats :: score_stats where
  "zero_stats = \<lparr>ss_Samples = 0, ss_Rates = [], ss_TTFTMs = [], ss_DurationMs = [], ss_TokensPerSecond = []\<rparr>"

definition zero_snapshot :: runtime_snapshot where
  "zero_snapshot = \<lparr>rs_Key = zero_runtime_key, rs_MatchedRuntimeKey = zero_runtime_key, rs_SampleSource = [],
     rs_ScoreStats = zero_stats, rs_RecentLatencySamples = [], rs_SuccessRate = 0, rs_TTFTMs = 0, rs_DurationMs = 0,
     rs_TokensPerSecond = 0, rs_EmptyOutputRate = 0, rs_ActiveConcurrency = 0, rs_MaxConcurrency = 0,
     rs_ConfiguredConcurrencyLimit = 0, rs_LearnedConcurrencyLimit = 0, rs_EffectiveConcurrencyLimit = 0,
     rs_QueueDepth = 0, rs_QueueCapacity = 0, rs_QueueTimeoutMs = 0, rs_EstimatedQueueWaitMs = 0,
     rs_FirstBytePending = 0, rs_SlowFirstBytePending = 0, rs_OldestFirstByteWaitMs = 0, rs_CostRatio = 0,
     rs_CostReferenceRatio = 0, rs_GroupPriorityRatio = 0, rs_CircuitState = None, rs_CircuitOpen = False,
     rs_Cooldown = False, rs_FailureAvoidance = False, rs_ProbeTriggerReason = [], rs_ConfigErrorIsolated = False,
     rs_SampleCount = 0\<rparr>"

definition defaultSnapshot :: "candidate \<Rightarrow> runtime_snapshot" where
  "defaultSnapshot cand =
     (let key = cd_RuntimeKey cand;
          key = (case cd_Channel cand of
                   Some ch \<Rightarrow> if rk_ChannelID key = 0 then key\<lparr>rk_ChannelID := ch_Id ch\<rparr> else key | None \<Rightarrow> key);
          key = key\<lparr>rk_Group := orElse (rk_Group key) (cd_Group cand),
            rk_UpstreamModel := orElse (rk_UpstreamModel key) (cd_UpstreamModel cand),
            rk_EndpointType := orElse (rk_EndpointType key) EndpointTypeOpenAI\<rparr>
      in zero_snapshot\<lparr>rs_Key := normalizeRuntimeKey key, rs_GroupPriorityRatio := 1, rs_SampleSource := ''none''\<rparr>)"

definition mergeRuntimeSnapshotDynamicFields :: "runtime_snapshot \<Rightarrow> runtime_snapshot \<Rightarrow> runtime_snapshot" where
  "mergeRuntimeSnapshotDynamicFields s d =
     (let s = s\<lparr>rs_Key := rs_Key d, rs_CostRatio := rs_CostRatio d, rs_CostReferenceRatio := rs_CostReferenceRatio d\<rparr>;
          s = (if rs_GroupPriorityRatio d > 0 then s\<lparr>rs_GroupPriorityRatio := rs_GroupPriorityRatio d\<rparr> else s)
      in s\<lparr>rs_ActiveConcurrency := rs_ActiveConcurrency d, rs_MaxConcurrency := rs_MaxConcurrency d,
           rs_ConfiguredConcurrencyLimit := rs_ConfiguredConcurrencyLimit d,
           rs_LearnedConcurrencyLimit := rs_LearnedConcurrencyLimit d,
           rs_EffectiveConcurrencyLimit := rs_EffectiveConcurrencyLimit d, rs_QueueDepth := rs_QueueDepth d,
           rs_QueueCapacity := rs_QueueCapacity d, rs_QueueTimeoutMs := rs_QueueTimeoutMs d,
           rs_EstimatedQueueWaitMs := rs_EstimatedQueueWaitMs d, rs_FirstBytePending := rs_FirstBytePending d,
           rs_SlowFirstBytePending := rs_SlowFirstBytePending d, rs_OldestFirstByteWaitMs := rs_OldestFirstByteWaitMs d,
           rs_CircuitState := rs_CircuitState d, rs_CircuitOpen := rs_CircuitOpen d, rs_Cooldown := rs_Cooldown d,
           rs_FailureAvoidance := rs_FailureAvoidance d, rs_ProbeTriggerReason := rs_ProbeTriggerReason d,
           rs_ConfigErrorIsolated := rs_ConfigErrorIsolated d\<rparr>)"

fun split_bar :: "string \<Rightarrow> string list" where
  "split_bar [] = [[]]"
| "split_bar (c # cs) = (if c = CHR ''|'' then [] # split_bar cs
     else case split_bar cs of [] \<Rightarrow> [[c]] | w # ws \<Rightarrow> (c # w) # ws)"

definition runtimeFingerprintSet :: "string \<Rightarrow> string list" where
  "runtimeFingerprintSet v = filter (\<lambda>p. p \<noteq> []) (map TrimSpace (split_bar v))"

definition runtimeFingerprintOverlaps :: "string \<Rightarrow> string \<Rightarrow> bool" where
  "runtimeFingerprintOverlaps left right =
     list_ex (\<lambda>p. p \<in> set (runtimeFingerprintSet left)) (runtimeFingerprintSet right)"

definition agree :: "string \<Rightarrow> string \<Rightarrow> bool" where
  "agree a b \<longleftrightarrow> a \<noteq> [] \<and> b \<noteq> [] \<and> a = b"

definition relevance :: "runtime_key \<Rightarrow> runtime_key \<Rightarrow> int" where
  "relevance key k =
     (if agree (rk_RequestedModel k) (rk_RequestedModel key) then 32 else 0)
     + (if agree (rk_UpstreamModel k) (rk_UpstreamModel key) then 16 else 0)
     + (if agree (rk_EndpointType k) (rk_EndpointType key) then 12 else 0)
     + (if agree (rk_CapabilityFingerprint k) (rk_CapabilityFingerprint key) then 8 else 0)
     + (if rk_CapabilityFingerprint k \<noteq> [] \<and> rk_CapabilityFingerprint key \<noteq> []
           \<and> runtimeFingerprintOverlaps (rk_CapabilityFingerprint k) (rk_CapabilityFingerprint key) then 4 else 0)
     + (if agree (rk_Group k) (rk_Group key) then 4 else 0)"

definition mostRelevantSnapshot :: "runtime_key \<Rightarrow> runtime_snapshot list \<Rightarrow> runtime_snapshot option" where
  "mostRelevantSnapshot key snapshots =
     foldl (\<lambda>best s.
       let s = normalizeRuntimeSnapshot s; score = relevance key (rs_Key s) in
       if rs_SampleCount s \<le> 0 \<or> rk_ChannelID (rs_Key s) \<le> 0 then best
       else if rk_ChannelID key > 0 \<and> rk_ChannelID (rs_Key s) \<noteq> rk_ChannelID key then best
       else if score = 0 then best
       else case best of None \<Rightarrow> Some s
         | Some b \<Rightarrow> if score > relevance key (rs_Key b)
                        \<or> score = relevance key (rs_Key b) \<and> rs_SampleCount s > rs_SampleCount b then Some s else Some b)
       None snapshots"

definition fallbackSnapshotForCandidate :: "selector \<Rightarrow> candidate \<Rightarrow> runtime_snapshot option" where
  "fallbackSnapshotForCandidate sel cand =
     (case sl_snapshotStore sel of
        None \<Rightarrow> None
      | Some st \<Rightarrow>
          let base = defaultSnapshot cand in
          case mostRelevantSnapshot (rs_Key base) (ListCandidates st (rk_RequestedModel (rs_Key base))) of
            None \<Rightarrow> None
          | Some best \<Rightarrow>
              let best = normalizeRuntimeSnapshot best; matchedKey = rs_Key best;
                  best = (if sl_Enrich sel \<noteq> None then mergeRuntimeSnapshotDynamicFields best base else best);
                  key = rs_Key base;
                  key = key\<lparr>rk_ChannelID := (if rk_ChannelID key = 0 then rk_ChannelID matchedKey else rk_ChannelID key),
                    rk_RequestedModel := orElse (rk_RequestedModel key) (rk_RequestedModel matchedKey),
                    rk_UpstreamModel := orElse (rk_UpstreamModel key) (rk_UpstreamModel matchedKey),
                    rk_Group := orElse (rk_Group key) (rk_Group matchedKey),
                    rk_EndpointType := orElse (rk_EndpointType key) (rk_EndpointType matchedKey),
                    rk_CapabilityFingerprint := orElse (rk_CapabilityFingerprint key) (rk_CapabilityFingerprint matchedKey)\<rparr>
              in Some (best\<lparr>rs_Key := key, rs_MatchedRuntimeKey := matchedKey, rs_SampleSource := ''similar''\<rparr>))"

definition enriched :: "selector \<Rightarrow> smart_policy \<Rightarrow> candidate \<Rightarrow> runtime_snapshot \<Rightarrow> runtime_snapshot" where
  "enriched sel policy cand s = (case sl_Enrich sel of None \<Rightarrow> s | Some f \<Rightarrow> f cand s policy)"

definition snapshotForCandidate :: "selector \<Rightarrow> candidate \<Rightarrow> smart_policy \<Rightarrow> runtime_snapshot" where
  "snapshotForCandidate sel cand policy =
     (let base = normalizeRuntimeSnapshot (enriched sel policy cand (defaultSnapshot cand));
          stored = (\<lambda>s source.
            let s = normalizeRuntimeSnapshot s;
                s = (if sl_Enrich sel \<noteq> None then mergeRuntimeSnapshotDynamicFields s base else s)
            in s\<lparr>rs_MatchedRuntimeKey := rs_Key s, rs_SampleSource := source\<rparr>)
      in case sl_snapshotStore sel of
        None \<Rightarrow> base
      | Some st \<Rightarrow> (case store_Get st (rs_Key base) of
          Some s \<Rightarrow> stored s ''exact''
        | None \<Rightarrow>
            let legacyKey = normalizeRuntimeKey (cd_RuntimeKey cand) in
            case (if legacyKey \<noteq> rs_Key base then store_Get st legacyKey else None) of
              Some s \<Rightarrow> stored s ''legacy_exact''
            | None \<Rightarrow> (case fallbackSnapshotForCandidate sel cand of Some s \<Rightarrow> s | None \<Rightarrow> base)))"

text \<open>The snapshot a candidate is judged by: the stored one with the live fields of the enricher.\<close>

definition live_snapshot :: "selector \<Rightarrow> smart_policy \<Rightarrow> candidate \<Rightarrow> runtime_snapshot" where
  "live_snapshot sel policy cand = enriched sel policy cand (snapshotForCandidate sel cand policy)"

end
