(* ===== verification/Route_Choice.thy ===== *)
theory Route_Choice
  imports Route_Selection
begin

text \<open>
  The decisions of the selector: which candidates may be used at all, which of them the resource
  protection admits, which one scores best within the priority window, and when the cost guard or
  a sticky route changes that choice (\<^verbatim>\<open>scheduler/default_selector.go\<close>,
  \<^verbatim>\<open>scheduler/resource_protection.go\<close>).
\<close>

section \<open>Availability\<close>

definition ChannelTimeoutRecoveryReason :: string where "ChannelTimeoutRecoveryReason = ''timeout_recovery''"
definition ChannelOverloadRecoveryReason :: string where "ChannelOverloadRecoveryReason = ''overload_recovery''"

text \<open>The reason without the tracker; the balance marks are returned as their readers leave them.\<close>

definition balance_reason :: "time \<Rightarrow> candidate \<Rightarrow> runtime_identity \<Rightarrow> balance_marks \<Rightarrow> bool \<times> balance_marks" where
  "balance_reason now cand identity b =
     (if IsChannelRuntimeBalanceSkipped b identity then (True, b)
      else case (case cd_Channel cand of None \<Rightarrow> (False, b) | Some ch \<Rightarrow> IsKnownBalanceInsufficientChannel now ch b) of
        (True, b) \<Rightarrow> (True, b)
      | (False, b) \<Rightarrow> IsRuntimeBalanceInsufficientIdentity now identity b)"

definition static_reason :: "gin_context \<Rightarrow> candidate \<Rightarrow> runtime_identity \<Rightarrow> runtime_snapshot \<Rightarrow> string" where
  "static_reason c cand identity s =
     (if (case cd_Channel cand of None \<Rightarrow> False | Some ch \<Rightarrow> ch_Status ch \<noteq> 0 \<and> ch_Status ch \<noteq> 1) then ''channel_disabled''
      else if IsChannelRuntimeSelectionSkipped c identity then
        (if IsChannelRuntimeAttempted c identity then ''already_failed_in_request'' else ''routing_slot_reserved'')
      else if rs_CircuitOpen s then ''circuit_open''
      else if rs_Cooldown s then ''cooldown''
      else if rs_FailureAvoidance s then
        (if TrimSpace (rs_ProbeTriggerReason s) = ChannelTimeoutRecoveryReason then ChannelTimeoutRecoveryReason
         else if TrimSpace (rs_ProbeTriggerReason s) = ChannelOverloadRecoveryReason then ChannelOverloadRecoveryReason
         else ''failure_avoidance'')
      else [])"

definition basicUnavailableReason :: "time \<Rightarrow> candidate \<Rightarrow> runtime_snapshot \<Rightarrow> route_world \<Rightarrow> string \<times> route_world" where
  "basicUnavailableReason now cand s w =
     (let identity = serviceRuntimeIdentityFromCandidate cand s in
      if rs_ConfigErrorIsolated s then (''config_error_isolated'', w)
      else case balance_reason now cand identity (rw_balance w) of (insufficient, b) \<Rightarrow>
        (if insufficient then ChannelStatusReasonBalanceInsufficient
         else static_reason (rw_context w) cand identity s, w\<lparr>rw_balance := b\<rparr>))"

definition ask_switch :: "time \<Rightarrow> select_request \<Rightarrow> candidate \<Rightarrow> runtime_snapshot \<Rightarrow> route_world \<Rightarrow> string \<times> route_world" where
  "ask_switch now req cand s w =
     (case rw_switch w of
        None \<Rightarrow> ([], w)
      | Some t \<Rightarrow> (case AvoidanceReason now req cand s t of (reason, t) \<Rightarrow> (reason, w\<lparr>rw_switch := Some t\<rparr>)))"

definition candidateUnavailableReason ::
  "time \<Rightarrow> select_request \<Rightarrow> candidate \<Rightarrow> runtime_snapshot \<Rightarrow> route_world \<Rightarrow> string \<times> route_world" where
  "candidateUnavailableReason now req cand s w =
     (case basicUnavailableReason now cand s w of (reason, w) \<Rightarrow>
        if reason \<noteq> [] then
          (if reason = ''routing_slot_reserved''
           then case ask_switch now req cand s w of (switchReason, w) \<Rightarrow> (if switchReason \<noteq> [] then switchReason else reason, w)
           else (reason, w))
        else ask_switch now req cand s w)"

definition switchedChannelID :: "candidate \<Rightarrow> runtime_snapshot \<Rightarrow> int" where
  "switchedChannelID cand s =
     (let channelID = candidateChannelID cand in
      if channelID \<le> 0 then firstPositiveInt [rk_ChannelID (rs_Key s), rk_ChannelID (cd_RuntimeKey cand)] else channelID)"

definition markClientEmptyOutputSwitchChannelSkipped :: "candidate \<Rightarrow> runtime_snapshot \<Rightarrow> route_world \<Rightarrow> route_world" where
  "markClientEmptyOutputSwitchChannelSkipped cand s w =
     w\<lparr>rw_context := MarkChannelSelectionSkipped (rw_context w) (switchedChannelID cand s)\<rparr>"

text \<open>One candidate is judged: its reason, and the mark a switched session leaves.\<close>

definition judge :: "time \<Rightarrow> select_request \<Rightarrow> candidate \<Rightarrow> runtime_snapshot \<Rightarrow> route_world \<Rightarrow> string \<times> route_world" where
  "judge now req cand s w =
     (case candidateUnavailableReason now req cand s w of (reason, w) \<Rightarrow>
        (reason, if reason = ClientEmptyOutputSwitchReason then markClientEmptyOutputSwitchChannelSkipped cand s w else w))"

definition routingConcurrencySaturated :: "runtime_snapshot \<Rightarrow> bool" where
  "routingConcurrencySaturated s =
     (let limit = routingConcurrencyLimit s in limit > 0 \<and> rs_ActiveConcurrency s \<ge> limit)"

section \<open>Resource protection\<close>

datatype protection_role = RoleNone | RolePrimary | RoleFallback

datatype protection_phase = PhaseNone | PhasePrimaryHit | PhasePrimarySaturatedWait | PhaseFallbackAfterTimeout
  | PhasePrimaryFailureFallback | PhaseNoPrimaryFallback

record protection_decision =
  pd_Enabled :: bool
  pd_Phase :: protection_phase
  pd_Reason :: string
  pd_Role :: protection_role
  pd_PrimaryWaitTimeoutMs :: int
  pd_PrimaryQueueMaxDepth :: int
  pd_primarySet :: "int list"
  pd_fallbackSet :: "int list"

definition newResourceProtectionDecision :: "smart_policy \<Rightarrow> protection_decision" where
  "newResourceProtectionDecision policy =
     \<lparr>pd_Enabled = (gp_ResourceProtectionEnabled policy \<and> gp_PrimaryChannelIDs policy \<noteq> []),
      pd_Phase = PhaseNone, pd_Reason = [], pd_Role = RoleNone,
      pd_PrimaryWaitTimeoutMs = gp_PrimaryWaitTimeoutMs policy, pd_PrimaryQueueMaxDepth = gp_PrimaryQueueMaxDepth policy,
      pd_primarySet = filter (\<lambda>id. id > 0) (gp_PrimaryChannelIDs policy),
      pd_fallbackSet = filter (\<lambda>id. id > 0) (gp_FallbackChannelIDs policy)\<rparr>"

fun splitResourceProtectionCandidates :: "protection_decision \<Rightarrow> candidate list \<Rightarrow> candidate list \<times> candidate list" where
  "splitResourceProtectionCandidates d [] = ([], [])"
| "splitResourceProtectionCandidates d (cand # cands) =
     (case splitResourceProtectionCandidates d cands of (ps, fs) \<Rightarrow>
        let channelID = candidateChannelID cand;
            primary = channelID \<in> set (pd_primarySet d)
        in if channelID \<le> 0 then (ps, fs)
           else if pd_fallbackSet d \<noteq> [] then
             (if primary then cand # ps else ps, if channelID \<in> set (pd_fallbackSet d) then cand # fs else fs)
           else if primary then (cand # ps, fs)
           else (ps, cand # fs))"

text \<open>\<open>(available, saturated)\<close> over the candidates, judged in order.\<close>

fun resourceProtectionAvailability ::
  "selector \<Rightarrow> time \<Rightarrow> select_request \<Rightarrow> smart_policy \<Rightarrow> candidate list \<Rightarrow> route_world \<Rightarrow> (bool \<times> bool) \<times> route_world" where
  "resourceProtectionAvailability sel now req policy [] w = ((False, False), w)"
| "resourceProtectionAvailability sel now req policy (cand # cands) w =
     (let s = live_snapshot sel policy cand in
      case judge now req cand s w of (reason, w) \<Rightarrow>
      case resourceProtectionAvailability sel now req policy cands w of ((available, saturated), w) \<Rightarrow>
        if reason \<noteq> [] then ((available, saturated), w)
        else if routingConcurrencySaturated s then ((available, True), w)
        else ((True, saturated), w))"

definition admit_fallback ::
  "selector \<Rightarrow> time \<Rightarrow> select_request \<Rightarrow> smart_policy \<Rightarrow> protection_decision \<Rightarrow> candidate list \<Rightarrow> route_world
   \<Rightarrow> (candidate list option \<times> protection_decision) \<times> route_world" where
  "admit_fallback sel now req policy d fallback w =
     (case resourceProtectionAvailability sel now req policy fallback w of ((available, saturated), w) \<Rightarrow>
        ((if available \<or> saturated then Some fallback else None, d), w))"

text \<open>\<open>None\<close> is the error with status 429; otherwise the candidates that go on.\<close>

definition resourceProtectionCandidates ::
  "selector \<Rightarrow> time \<Rightarrow> select_request \<Rightarrow> smart_policy \<Rightarrow> candidate list \<Rightarrow> route_world
   \<Rightarrow> (candidate list option \<times> protection_decision) \<times> route_world" where
  "resourceProtectionCandidates sel now req policy cands w =
     (let d = newResourceProtectionDecision policy in
      if \<not> pd_Enabled d \<or> cands = [] then ((Some cands, d), w)
      else case splitResourceProtectionCandidates d cands of (primary, fallback) \<Rightarrow>
        if dr_ResourceProtectionFallback req then
          admit_fallback sel now req policy
            (d\<lparr>pd_Phase := PhaseFallbackAfterTimeout,
               pd_Reason := firstNonEmptyString [dr_ResourceProtectionReason req, ''fallback_after_primary_wait_timeout''],
               pd_Role := RoleFallback\<rparr>) fallback w
        else if primary = [] then
          admit_fallback sel now req policy
            (d\<lparr>pd_Phase := PhaseNoPrimaryFallback, pd_Reason := ''no_primary_resource_candidate'', pd_Role := RoleFallback\<rparr>) fallback w
        else case resourceProtectionAvailability sel now req policy primary w of ((available, saturated), w) \<Rightarrow>
          if available \<or> saturated then
            ((Some primary, d\<lparr>pd_Phase := PhasePrimaryHit, pd_Reason := ''primary_resource_available'', pd_Role := RolePrimary\<rparr>), w)
          else admit_fallback sel now req policy
            (d\<lparr>pd_Phase := PhasePrimaryFailureFallback, pd_Reason := ''primary_resource_failure'', pd_Role := RoleFallback\<rparr>) fallback w)"

definition primaryWaitSelected :: "protection_decision \<Rightarrow> bool \<Rightarrow> bool" where
  "primaryWaitSelected d selectedSaturated \<longleftrightarrow> pd_Enabled d \<and> pd_Role d = RolePrimary \<and> selectedSaturated"

definition selectedPhase :: "protection_decision \<Rightarrow> bool \<Rightarrow> protection_phase" where
  "selectedPhase d selectedSaturated =
     (if \<not> pd_Enabled d then PhaseNone
      else if pd_Role d = RolePrimary \<and> selectedSaturated then PhasePrimarySaturatedWait
      else pd_Phase d)"

definition protection_queueEnabled :: "protection_decision \<Rightarrow> bool \<Rightarrow> smart_policy \<Rightarrow> bool" where
  "protection_queueEnabled d selectedSaturated policy =
     (if primaryWaitSelected d selectedSaturated then True else gp_QueueEnabled policy)"

definition selectedQueueWaitMs :: "runtime_snapshot \<Rightarrow> smart_policy \<Rightarrow> bool \<Rightarrow> protection_decision \<Rightarrow> int" where
  "selectedQueueWaitMs s policy selectedSaturated d =
     (let timeout = (if rs_QueueTimeoutMs s > 0 then rs_QueueTimeoutMs s else defaultQueueTimeoutMs) in
      if \<not> selectedSaturated then 0
      else if primaryWaitSelected d selectedSaturated then
        (if pd_PrimaryWaitTimeoutMs d > 0 then pd_PrimaryWaitTimeoutMs d else timeout)
      else if \<not> gp_QueueEnabled policy then 0
      else if rs_QueueCapacity s > 0 \<and> rs_QueueDepth s \<ge> rs_QueueCapacity s then 0
      else timeout)"

definition selectedQueueCapacity :: "runtime_snapshot \<Rightarrow> protection_decision \<Rightarrow> bool \<Rightarrow> int" where
  "selectedQueueCapacity s d selectedSaturated =
     (if primaryWaitSelected d selectedSaturated \<and> pd_PrimaryQueueMaxDepth d > 0 then pd_PrimaryQueueMaxDepth d
      else rs_QueueCapacity s)"

definition queuePriorityForRetryIntent :: "int \<Rightarrow> retry_routing_intent option \<Rightarrow> int" where
  "queuePriorityForRetryIntent base intent =
     (case intent of None \<Rightarrow> base
      | Some i \<Rightarrow>
          if \<not> Active intent \<or> \<not> rri_QueuePriorityBoost i then base
          else let priority = (if rri_QueuePriority i \<le> 0 then 1000 else rri_QueuePriority i)
               in if priority > base then priority else base)"

section \<open>The best candidate\<close>

record evaluation =
  ev_candidate :: candidate
  ev_snapshot :: runtime_snapshot
  ev_score :: score_result
  ev_stickyMatched :: bool
  ev_rejectReason :: string

definition candidateChannelPriority :: "candidate \<Rightarrow> int" where
  "candidateChannelPriority cand = (case cd_Channel cand of None \<Rightarrow> 0 | Some ch \<Rightarrow> GetPriority ch)"

abbreviation routing :: "evaluation \<Rightarrow> f64" where
  "routing e \<equiv> sr_RoutingTotal (ev_score e)"

abbreviation priority :: "evaluation \<Rightarrow> int" where
  "priority e \<equiv> candidateChannelPriority (ev_candidate e)"

definition score_best :: "evaluation \<Rightarrow> evaluation list \<Rightarrow> evaluation" where
  "score_best e es =
     foldl (\<lambda>best x. if routing x > f64_add (routing best) channelPriorityTieBreakScoreEpsilon then x else best) e es"

definition in_window :: "f64 \<Rightarrow> f64 \<Rightarrow> evaluation \<Rightarrow> bool" where
  "in_window maxRoutingScore delta x \<longleftrightarrow>
     \<not> f64_sub maxRoutingScore (routing x) > f64_add delta channelPriorityTieBreakScoreEpsilon"

definition tie_break_step :: "f64 \<Rightarrow> f64 \<Rightarrow> evaluation \<Rightarrow> evaluation \<Rightarrow> evaluation" where
  "tie_break_step maxRoutingScore delta selected x =
     (if \<not> in_window maxRoutingScore delta x then selected
      else if priority x > priority selected then x
      else if priority x = priority selected
              \<and> routing x > f64_add (routing selected) channelPriorityTieBreakScoreEpsilon then x
      else selected)"

definition candidateExplanationRuntimeKey :: "candidate \<Rightarrow> runtime_snapshot \<Rightarrow> runtime_key" where
  "candidateExplanationRuntimeKey cand s =
     normalizeRuntimeKey (mergeRuntimeKeyFallback (rs_Key s) (cd_RuntimeKey cand))"

definition candidateEvaluationChannelID :: "evaluation \<Rightarrow> int" where
  "candidateEvaluationChannelID e =
     (if candidateChannelID (ev_candidate e) > 0 then candidateChannelID (ev_candidate e)
      else if rk_ChannelID (rs_Key (ev_snapshot e)) \<noteq> 0 then rk_ChannelID (rs_Key (ev_snapshot e))
      else rk_ChannelID (cd_RuntimeKey (ev_candidate e)))"

definition candidateEvaluationMatches :: "evaluation \<Rightarrow> evaluation \<Rightarrow> bool" where
  "candidateEvaluationMatches x y \<longleftrightarrow>
     candidateExplanationRuntimeKey (ev_candidate x) (ev_snapshot x) = candidateExplanationRuntimeKey (ev_candidate y) (ev_snapshot y)
     \<and> candidateEvaluationChannelID x = candidateEvaluationChannelID y"

fun selectCandidateByRoutingScoreAndChannelPriority :: "tie_break_config \<Rightarrow> evaluation list \<Rightarrow> (evaluation \<times> bool) option" where
  "selectCandidateByRoutingScoreAndChannelPriority config0 [] = None"
| "selectCandidateByRoutingScoreAndChannelPriority config0 (e # es) =
     (let best = score_best e es; config = normalized_tie_break config0 in
      if \<not> tb_Enabled config then Some (best, False)
      else let selected = foldl (tie_break_step (routing best) (tb_ScoreDelta config)) best (e # es)
           in Some (selected, \<not> candidateEvaluationMatches selected best))"

section \<open>Cost\<close>

definition stickyEscapeCost :: "runtime_snapshot \<Rightarrow> f64" where
  "stickyEscapeCost s =
     (if rs_CostRatio s \<le> 0 then 0
      else let groupRatio = (if rs_GroupPriorityRatio s \<le> 0 then 1 else rs_GroupPriorityRatio s)
           in f64_mul (rs_CostRatio s) groupRatio)"

abbreviation cost_of :: "evaluation \<Rightarrow> f64" where
  "cost_of e \<equiv> stickyEscapeCost (ev_snapshot e)"

definition stickySpeedScore :: "score_result \<Rightarrow> f64 option" where
  "stickySpeedScore r =
     (let speed = filter (\<lambda>item. it_Key item \<in> set [scoreItemTTFTLatency, scoreItemDurationLatency, scoreItemThroughput]
            \<and> \<not> (it_MissingReason item \<noteq> [] \<or> it_SampleCount item \<le> 0)) (sr_Items r)
      in if speed = [] then None
         else Some (f64_div (f64_sum (map it_Score speed)) (f64_of_int (int (length speed)))))"

definition costFirstGuardSpeedScore :: "go_math \<Rightarrow> evaluation \<Rightarrow> f64" where
  "costFirstGuardSpeedScore m e =
     (case stickySpeedScore (ev_score e) of
        Some v \<Rightarrow> v
      | None \<Rightarrow>
          let s = ev_snapshot e;
              parts = (if rs_TTFTMs s > 0 then [progressiveTTFTLatencyScore m (rs_TTFTMs s) 800 20000] else [])
                @ (if rs_DurationMs s > 0 then [inverseLatencyScore (rs_DurationMs s) 3000 90000] else [])
                @ (if rs_TokensPerSecond s > 0 then [throughputScore (rs_TokensPerSecond s) 5 80] else [])
          in if parts = [] then 0 else f64_div (f64_sum parts) (f64_of_int (int (length parts))))"

definition costFirstGuardBaselineRisk :: "runtime_snapshot \<Rightarrow> bool" where
  "costFirstGuardBaselineRisk s \<longleftrightarrow>
     rs_CircuitOpen s \<or> rs_Cooldown s \<or> rs_FailureAvoidance s \<or> rs_ConfigErrorIsolated s
     \<or> rs_FirstBytePending s > 0 \<or> rs_SlowFirstBytePending s > 0 \<or> rs_QueueDepth s > 0"

definition baselineChannelID :: "evaluation \<Rightarrow> int" where
  "baselineChannelID e =
     (case cd_Channel (ev_candidate e) of Some ch \<Rightarrow> ch_Id ch | None \<Rightarrow> rk_ChannelID (rs_Key (ev_snapshot e)))"

definition costFirstGuardBaselineCandidate :: "evaluation list \<Rightarrow> evaluation option" where
  "costFirstGuardBaselineCandidate es =
     foldl (\<lambda>best x.
       if cost_of x \<le> 0 then best
       else case best of None \<Rightarrow> Some x
         | Some b \<Rightarrow> if cost_of x < cost_of b \<or> cost_of x = cost_of b \<and> routing x > routing b then Some x else Some b)
       None es"

definition costFirstGuardAllowsExpensiveCandidate ::
  "go_math \<Rightarrow> cost_guard_config \<Rightarrow> evaluation \<Rightarrow> evaluation \<Rightarrow> retry_routing_intent option \<Rightarrow> bool" where
  "costFirstGuardAllowsExpensiveCandidate m config baseline x retryIntent =
     (if costFirstGuardBaselineRisk (ev_snapshot baseline) then True
      else let successDelta = f64_sub (rs_SuccessRate (ev_snapshot x)) (rs_SuccessRate (ev_snapshot baseline)) in
        if successDelta \<ge> cg_SuccessAdvantage config then True
        else let speedDelta = f64_sub (costFirstGuardSpeedScore m x) (costFirstGuardSpeedScore m baseline) in
          if speedDelta \<ge> cg_SpeedAdvantage config then True
          else case retryIntent of None \<Rightarrow> False
            | Some i \<Rightarrow> FirstByteRecovery retryIntent \<and> rri_FailedChannelID i = baselineChannelID baseline
                \<and> (successDelta > 0 \<or> speedDelta > 0))"

definition sameRoutingCandidate :: "candidate \<Rightarrow> candidate \<Rightarrow> bool" where
  "sameRoutingCandidate left right =
     (let id = (\<lambda>cand. case cd_Channel cand of Some ch \<Rightarrow> ch_Id ch | None \<Rightarrow> 0) in
      if id left \<noteq> id right then False
      else if cd_Group left \<noteq> [] \<and> cd_Group right \<noteq> [] \<and> cd_Group left \<noteq> cd_Group right then False
      else if rk_Group (cd_RuntimeKey left) \<noteq> [] \<and> rk_Group (cd_RuntimeKey right) \<noteq> []
              \<and> rk_Group (cd_RuntimeKey left) \<noteq> rk_Group (cd_RuntimeKey right) then False
      else True)"

record guard_result =
  gr_baseline :: evaluation
  gr_Reason :: string
  gr_Multiple :: f64
  gr_switchToBaseline :: bool

definition costFirstGuardCandidate ::
  "selector \<Rightarrow> smart_policy \<Rightarrow> evaluation \<Rightarrow> evaluation list \<Rightarrow> retry_routing_intent option \<Rightarrow> guard_result option" where
  "costFirstGuardCandidate sel policy selected es retryIntent =
     (let config = normalized_guard (sl_costGuardConfig sel) in
      if gp_Strategy policy \<noteq> StrategyCostFirst \<or> es = [] then None
      else if \<not> cg_Enabled config then None
      else if cost_of selected \<le> 0 then None
      else case costFirstGuardBaselineCandidate es of
        None \<Rightarrow> None
      | Some baseline \<Rightarrow>
          if sameRoutingCandidate (ev_candidate selected) (ev_candidate baseline) then None
          else if cost_of baseline \<le> 0 then None
          else let multiple = f64_div (cost_of selected) (cost_of baseline) in
            if multiple \<le> cg_Multiple config then None
            else if costFirstGuardAllowsExpensiveCandidate (sl_math sel) config baseline selected retryIntent
            then Some \<lparr>gr_baseline = baseline, gr_Reason = ''cost_first_guard_quality_override'',
              gr_Multiple = cg_Multiple config, gr_switchToBaseline = False\<rparr>
            else Some \<lparr>gr_baseline = baseline, gr_Reason = ''cost_first_guard_baseline_selected'',
              gr_Multiple = cg_Multiple config, gr_switchToBaseline = True\<rparr>)"

end
