(* ===== verification/Route_Select.thy ===== *)
theory Route_Select
  imports Route_Choice
begin

text \<open>
  \<^verbatim>\<open>DefaultSmartChannelSelector.Select\<close> (\<^verbatim>\<open>scheduler/default_selector.go\<close>): candidates are built,
  protected, judged and scored; the best one is chosen; the cost guard and the sticky route may
  replace it; a half-open circuit must grant a probe; the sticky router may save the route.
\<close>

section \<open>Leaving a sticky route for a cheaper channel\<close>

record sticky_decision =
  sd_Reason :: string
  sd_Decision :: string
  sd_CandidateChannelID :: int
  sd_StickyCost :: f64
  sd_CandidateCost :: f64
  sd_CostThreshold :: f64
  sd_StickySpeedScore :: f64
  sd_CandidateSpeedScore :: f64

definition stickyEscapeRetainDecision :: "string \<Rightarrow> f64 \<Rightarrow> f64 \<Rightarrow> f64 \<Rightarrow> sticky_decision" where
  "stickyEscapeRetainDecision reason stickyCost stickySpeed costThreshold =
     \<lparr>sd_Reason = reason, sd_Decision = ''retain'', sd_CandidateChannelID = 0, sd_StickyCost = stickyCost,
      sd_CandidateCost = 0, sd_CostThreshold = costThreshold, sd_StickySpeedScore = stickySpeed, sd_CandidateSpeedScore = 0\<rparr>"

definition stickyEscapeDecision :: "string \<Rightarrow> string \<Rightarrow> f64 \<Rightarrow> f64 \<Rightarrow> evaluation \<Rightarrow> f64 \<Rightarrow> f64 \<Rightarrow> f64 \<Rightarrow> sticky_decision" where
  "stickyEscapeDecision reason decision stickyCost stickySpeed x candidateCost candidateSpeed costThreshold =
     (let channelID = (case cd_Channel (ev_candidate x) of Some ch \<Rightarrow> ch_Id ch | None \<Rightarrow> 0) in
      \<lparr>sd_Reason = reason, sd_Decision = decision,
       sd_CandidateChannelID = (if channelID = 0 then rk_ChannelID (rs_Key (ev_snapshot x)) else channelID),
       sd_StickyCost = stickyCost, sd_CandidateCost = candidateCost, sd_CostThreshold = costThreshold,
       sd_StickySpeedScore = stickySpeed, sd_CandidateSpeedScore = candidateSpeed\<rparr>)"

text \<open>A retain decision with its rank and cost.\<close>

type_synonym retained = "(sticky_decision \<times> int \<times> f64) option"

definition stickyEscapePreferredRetainDecision :: "retained \<Rightarrow> int \<Rightarrow> f64 \<Rightarrow> sticky_decision \<Rightarrow> retained" where
  "stickyEscapePreferredRetainDecision current rank candidateCost decision =
     (case current of
        Some (_, currentPriority, currentCost) \<Rightarrow>
          if rank < currentPriority \<or> rank = currentPriority \<and> (currentCost \<le> 0 \<or> candidateCost \<ge> currentCost) then current
          else Some (decision, rank, candidateCost)
      | None \<Rightarrow> Some (decision, rank, candidateCost))"

text \<open>Why a candidate cannot take over the route: the rank and reason of the first check it fails, and its speed.\<close>

definition escape_obstacle :: "sticky_escape_config \<Rightarrow> f64 \<Rightarrow> f64 \<Rightarrow> runtime_snapshot \<Rightarrow> f64 \<Rightarrow> f64 \<Rightarrow> evaluation
    \<Rightarrow> (int \<times> string) option \<times> f64" where
  "escape_obstacle config costRatio speedDrop stickySnapshot stickyCost stickySpeed x =
     (if cost_of x > f64_mul stickyCost costRatio then (Some (10, ''cost_first_sticky_escape_cost_gap_insufficient''), 0)
      else if rs_SampleCount (ev_snapshot x) < es_MinSamples config
      then (Some (20, ''cost_first_sticky_escape_candidate_samples_insufficient''), 0)
      else if f64_add (rs_SuccessRate (ev_snapshot x)) (es_SuccessSlack config) < rs_SuccessRate stickySnapshot
      then (Some (30, ''cost_first_sticky_escape_success_guard_failed''), 0)
      else case stickySpeedScore (ev_score x) of
        None \<Rightarrow> (Some (40, ''cost_first_sticky_escape_candidate_speed_missing''), 0)
      | Some candidateSpeed \<Rightarrow>
          if f64_add candidateSpeed speedDrop < stickySpeed
          then (Some (50, ''cost_first_sticky_escape_speed_drop_exceeded''), candidateSpeed) else (None, candidateSpeed))"

definition escape_step :: "sticky_escape_config \<Rightarrow> f64 \<Rightarrow> f64 \<Rightarrow> evaluation \<Rightarrow> f64 \<Rightarrow> f64
    \<Rightarrow> (evaluation \<times> sticky_decision) option \<times> retained \<Rightarrow> evaluation \<Rightarrow> (evaluation \<times> sticky_decision) option \<times> retained" where
  "escape_step config costRatio speedDrop sticky stickyCost stickySpeed acc x =
     (case acc of (best, kept) \<Rightarrow>
        if sameRoutingCandidate (ev_candidate sticky) (ev_candidate x) then acc
        else if cost_of x \<le> 0 then acc
        else case escape_obstacle config costRatio speedDrop (ev_snapshot sticky) stickyCost stickySpeed x of
          (Some (rank, reason), speed) \<Rightarrow>
            (best, stickyEscapePreferredRetainDecision kept rank (cost_of x)
              (stickyEscapeDecision reason ''retain'' stickyCost stickySpeed x (cost_of x) speed costRatio))
        | (None, speed) \<Rightarrow>
            (if best = None \<or> cost_of x < (case best of Some (b, _) \<Rightarrow> cost_of b | None \<Rightarrow> 0)
             then Some (x, stickyEscapeDecision ''cost_first_cheaper_speed_acceptable'' ''switch'' stickyCost stickySpeed x (cost_of x) speed costRatio)
             else best, kept))"

definition costFirstStickyEscapeCandidate ::
  "selector \<Rightarrow> smart_policy \<Rightarrow> sticky_route \<Rightarrow> evaluation \<Rightarrow> evaluation list \<Rightarrow> evaluation option \<times> sticky_decision option" where
  "costFirstStickyEscapeCandidate sel policy route sticky es =
     (if gp_Strategy policy \<noteq> StrategyCostFirst then (None, None)
      else
        let config = normalized_escape (sl_stickyEscapeConfig sel);
            costRatio = (if sk_CacheAware route then es_CacheCostRatio config else es_CostRatio config);
            speedDrop = (if sk_CacheAware route then es_CacheSpeedDrop config else es_MaxSpeedDrop config);
            stickyCost = cost_of sticky
        in if \<not> es_Enabled config
           then (None, Some (stickyEscapeRetainDecision ''cost_first_sticky_escape_disabled'' 0 0 costRatio))
           else if stickyCost \<le> 0
           then (None, Some (stickyEscapeRetainDecision ''cost_first_sticky_escape_sticky_cost_missing'' 0 0 costRatio))
           else if rs_SampleCount (ev_snapshot sticky) < es_MinSamples config
           then (None, Some (stickyEscapeRetainDecision ''cost_first_sticky_escape_sticky_samples_insufficient'' stickyCost 0 costRatio))
           else case stickySpeedScore (ev_score sticky) of
             None \<Rightarrow> (None, Some (stickyEscapeRetainDecision ''cost_first_sticky_escape_sticky_speed_missing'' stickyCost 0 costRatio))
           | Some stickySpeed \<Rightarrow>
               (case foldl (escape_step config costRatio speedDrop sticky stickyCost stickySpeed) (None, None) es of
                  (Some (best, decision), _) \<Rightarrow> (Some best, Some decision)
                | (None, Some (kept, _, _)) \<Rightarrow> (None, Some kept)
                | (None, None) \<Rightarrow>
                    (None, Some (stickyEscapeRetainDecision ''cost_first_sticky_escape_no_candidate'' stickyCost stickySpeed costRatio))))"

section \<open>Evaluating the candidates\<close>

definition isStickyCandidate :: "candidate \<Rightarrow> sticky_route \<Rightarrow> bool" where
  "isStickyCandidate cand route =
     (case cd_Channel cand of None \<Rightarrow> False
      | Some ch \<Rightarrow>
          if sk_ChannelID route \<le> 0 then False
          else if ch_Id ch \<noteq> sk_ChannelID route then False
          else \<not> (sk_Group route \<noteq> [] \<and> cd_Group cand \<noteq> sk_Group route))"

definition zero_score :: score_result where
  "zero_score = \<lparr>sr_Total = 0, sr_Items = [], sr_RoutingTotal = 0, sr_RoutingItems = [], sr_Reason = []\<rparr>"

record prepared =
  pr_evaluations :: "evaluation list"
  pr_stickyBreak :: string
  pr_costReferenceRatio :: f64

definition lowest_reference :: "sticky_route option \<Rightarrow> runtime_snapshot \<Rightarrow> f64 \<Rightarrow> f64" where
  "lowest_reference sticky s costReferenceRatio =
     (let reference = rs_CostReferenceRatio s;
          reference = (if reference \<le> 0 \<and> \<not> (case sticky of None \<Rightarrow> False | Some r \<Rightarrow> sk_CacheAware r) then rs_CostRatio s else reference)
      in if rs_CostRatio s > 0 \<and> reference > 0 \<and> (costReferenceRatio \<le> 0 \<or> reference < costReferenceRatio)
         then reference else costReferenceRatio)"

fun prepare_candidates ::
  "selector \<Rightarrow> time \<Rightarrow> select_request \<Rightarrow> smart_policy \<Rightarrow> sticky_route option \<Rightarrow> candidate list \<Rightarrow> prepared \<Rightarrow> route_world
   \<Rightarrow> prepared \<times> route_world" where
  "prepare_candidates sel now req policy sticky [] p w = (p, w)"
| "prepare_candidates sel now req policy sticky (cand # cands) p w =
     (let s = live_snapshot sel policy cand;
          matched = (case sticky of None \<Rightarrow> False | Some r \<Rightarrow> isStickyCandidate cand r)
      in case judge now req cand s w of (reason, w) \<Rightarrow>
        prepare_candidates sel now req policy sticky cands
          \<lparr>pr_evaluations = pr_evaluations p @
             [\<lparr>ev_candidate = cand, ev_snapshot = s, ev_score = zero_score, ev_stickyMatched = matched, ev_rejectReason = reason\<rparr>],
           pr_stickyBreak = (if matched \<and> pr_stickyBreak p = [] \<and> reason \<noteq> [] then reason else pr_stickyBreak p),
           pr_costReferenceRatio = lowest_reference sticky s (pr_costReferenceRatio p)\<rparr> w)"

definition costReferenceForCandidate :: "selector \<Rightarrow> candidate \<Rightarrow> runtime_snapshot \<Rightarrow> smart_policy \<Rightarrow> f64 \<Rightarrow> f64 option" where
  "costReferenceForCandidate sel cand s policy fallbackReference =
     (let fallback = (if fallbackReference > 0 then Some fallbackReference
            else if rs_CostReferenceRatio s > 0 then Some (rs_CostReferenceRatio s) else None)
      in case sl_Baseline sel of
        None \<Rightarrow> fallback
      | Some baseline \<Rightarrow>
          if rs_CostRatio s \<le> 0 then fallback
          else
            let grp = (let g = TrimSpace (cd_Group cand) in if g = [] then TrimSpace (rk_Group (rs_Key s)) else g);
                groups = (if gp_CandidateGroups policy \<noteq> [] then gp_CandidateGroups policy else if grp \<noteq> [] then [grp] else []);
                requestedModel = TrimSpace (rk_RequestedModel (rs_Key s));
                endpointType = TrimSpace (rk_EndpointType (rs_Key s));
                best = foldl (\<lambda>best g. case baseline (requestedModel, g, endpointType) of
                  None \<Rightarrow> best | Some v \<Rightarrow> if v > 0 \<and> (best \<le> 0 \<or> v < best) then v else best) 0 groups
            in if best > 0 then Some best else fallback)"

definition scoringContextForPolicy :: "selector \<Rightarrow> smart_policy \<Rightarrow> retry_routing_intent option \<Rightarrow> scoring_context" where
  "scoringContextForPolicy sel policy retryIntent =
     \<lparr>cx_Strategy = gp_Strategy policy, cx_ScoreWeights = scoreWeightsForSelector sel, cx_ScoreBoosts = [],
      cx_RetryRoutingIntent = retryIntent\<rparr>"

text \<open>The second loop scores every candidate; the rejected ones are only explained.\<close>

definition score_evaluation :: "selector \<Rightarrow> smart_policy \<Rightarrow> retry_routing_intent option \<Rightarrow> f64 \<Rightarrow> evaluation \<Rightarrow> evaluation" where
  "score_evaluation sel policy retryIntent costReferenceRatio e =
     (let s = (case costReferenceForCandidate sel (ev_candidate e) (ev_snapshot e) policy costReferenceRatio of
            Some reference \<Rightarrow> (ev_snapshot e)\<lparr>rs_CostReferenceRatio := reference\<rparr> | None \<Rightarrow> ev_snapshot e)
      in e\<lparr>ev_snapshot := s,
           ev_score := score (sl_math sel) (ev_candidate e) s policy (scoringContextForPolicy sel policy retryIntent)\<rparr>)"

definition explain_rejected :: "time \<Rightarrow> select_request \<Rightarrow> evaluation list \<Rightarrow> route_world \<Rightarrow> route_world" where
  "explain_rejected now req es w =
     foldl (\<lambda>w e. if ev_rejectReason e = ClientEmptyOutputSwitchReason
        then snd (ask_switch now req (ev_candidate e) (ev_snapshot e) w) else w) w es"

section \<open>The selection\<close>

record chosen =
  cn_best :: evaluation
  cn_saturated :: bool
  cn_guard :: "guard_result option"
  cn_stickyBreak :: string
  cn_stickyDecision :: "sticky_decision option"

definition with_reason :: "string \<Rightarrow> evaluation \<Rightarrow> evaluation" where
  "with_reason reason e = e\<lparr>ev_score := (ev_score e)\<lparr>sr_Reason := reason\<rparr>\<rparr>"

text \<open>The guard on the best candidate, when there is no sticky route or its channel is not among the usable ones.\<close>

definition apply_guard :: "selector \<Rightarrow> smart_policy \<Rightarrow> evaluation list \<Rightarrow> retry_routing_intent option \<Rightarrow> chosen \<Rightarrow> chosen" where
  "apply_guard sel policy available retryIntent n =
     (case costFirstGuardCandidate sel policy (cn_best n) available retryIntent of
        None \<Rightarrow> n
      | Some g \<Rightarrow>
          if gr_switchToBaseline g
          then n\<lparr>cn_guard := Some g, cn_best := with_reason (gr_Reason g) (gr_baseline g), cn_saturated := False\<rparr>
          else n\<lparr>cn_guard := Some g\<rparr>)"

definition retain_sticky :: "sticky_route \<Rightarrow> evaluation \<Rightarrow> chosen \<Rightarrow> chosen" where
  "retain_sticky route sticky n =
     n\<lparr>cn_best := with_reason (sk_Source route @ ''_retained'') sticky,
       cn_saturated := routingConcurrencySaturated (ev_snapshot sticky), cn_stickyBreak := []\<rparr>"

definition apply_sticky ::
  "selector \<Rightarrow> smart_policy \<Rightarrow> sticky_route \<Rightarrow> evaluation \<Rightarrow> evaluation list \<Rightarrow> retry_routing_intent option \<Rightarrow> chosen \<Rightarrow> chosen" where
  "apply_sticky sel policy route sticky available retryIntent n =
     (let keepRatio = (if sk_KeepScoreRatio route \<le> 0 then defaultStickyKeepScoreRatio else sk_KeepScoreRatio route) in
      if routingConcurrencySaturated (ev_snapshot sticky) \<and> available \<noteq> [] then n\<lparr>cn_stickyBreak := ''concurrency_saturated''\<rparr>
      else case costFirstStickyEscapeCandidate sel policy route sticky available of
        (Some escape, decision) \<Rightarrow>
          n\<lparr>cn_best := escape, cn_saturated := False, cn_stickyBreak := ''cost_first_cheaper_speed_acceptable'',
            cn_stickyDecision := decision\<rparr>
      | (None, decision) \<Rightarrow>
          if gp_Strategy policy = StrategyCostFirst then
            let n = n\<lparr>cn_stickyDecision := decision\<rparr> in
            case costFirstGuardCandidate sel policy sticky available retryIntent of
              Some g \<Rightarrow>
                if gr_switchToBaseline g then
                  n\<lparr>cn_guard := Some g, cn_best := with_reason (gr_Reason g) (gr_baseline g), cn_saturated := False,
                    cn_stickyBreak := ''cost_first_guard_baseline_selected'',
                    cn_stickyDecision := Some (stickyEscapeDecision ''cost_first_guard_baseline_selected'' ''switch''
                      (cost_of sticky) 0 (gr_baseline g) (cost_of (gr_baseline g)) 0 (f64_div 1 (gr_Multiple g)))\<rparr>
                else retain_sticky route sticky n
            | None \<Rightarrow> retain_sticky route sticky n
          else if sr_Total (ev_score sticky) \<ge> f64_mul (sr_Total (ev_score (cn_best n))) keepRatio
          then retain_sticky route sticky n
          else if cn_stickyBreak n = [] then n\<lparr>cn_stickyBreak := ''score_below_threshold''\<rparr>
          else n)"

text \<open>The usable sticky evaluation that the loop saw last.\<close>

definition sticky_found :: "evaluation list \<Rightarrow> evaluation option" where
  "sticky_found usable = (case filter ev_stickyMatched usable of [] \<Rightarrow> None | xs \<Rightarrow> Some (last xs))"

definition settle_choice ::
  "selector \<Rightarrow> smart_policy \<Rightarrow> sticky_route option \<Rightarrow> string \<Rightarrow> retry_routing_intent option \<Rightarrow> evaluation list
   \<Rightarrow> (chosen \<times> evaluation \<times> bool) option" where
  "settle_choice sel policy sticky stickyBreak retryIntent usable =
     (let available = filter (\<lambda>e. \<not> routingConcurrencySaturated (ev_snapshot e)) usable;
          saturated = filter (\<lambda>e. routingConcurrencySaturated (ev_snapshot e)) usable
      in case selectCandidateByRoutingScoreAndChannelPriority (sl_tieBreakConfig sel)
                (if available \<noteq> [] then available else saturated) of
        None \<Rightarrow> None
      | Some (best, tieBreakUsed) \<Rightarrow>
          if cd_Channel (ev_candidate best) = None then None
          else
            let n = \<lparr>cn_best = best, cn_saturated = (available = []), cn_guard = None, cn_stickyBreak = stickyBreak,
                     cn_stickyDecision = None\<rparr>
            in Some (case sticky of
                None \<Rightarrow> apply_guard sel policy available retryIntent n
              | Some route \<Rightarrow> (case sticky_found usable of
                  None \<Rightarrow>
                    let n = apply_guard sel policy available retryIntent n in
                    if cn_stickyBreak n = [] then n\<lparr>cn_stickyBreak := ''candidate_not_found''\<rparr> else n
                | Some found \<Rightarrow> apply_sticky sel policy route found available retryIntent n), best, tieBreakUsed))"

definition own_reason :: "evaluation \<Rightarrow> bool \<Rightarrow> chosen \<Rightarrow> chosen" where
  "own_reason prioritySelected tieBreakUsed n =
     (if tieBreakUsed \<and> candidateEvaluationMatches (cn_best n) prioritySelected
         \<and> (sr_Reason (ev_score (cn_best n)) = [] \<or> sr_Reason (ev_score (cn_best n)) = ''score_items'')
      then n\<lparr>cn_best := with_reason ''channel_priority_tie_break'' (cn_best n)\<rparr> else n)"

record selected_plan = dispatch_plan +
  sp_Candidate :: candidate
  sp_ScoreTotal :: f64
  sp_RoutingScoreTotal :: f64
  sp_QueueDepth :: int
  sp_QueueCapacity :: int
  sp_QueuePriority :: int
  sp_SelectedReason :: string
  sp_StickyKeyFP :: string
  sp_StickyRetained :: bool
  sp_StickyBreak :: string
  sp_StickyDecision :: "sticky_decision option"
  sp_CostGuard :: "guard_result option"
  sp_ProtectionPhase :: protection_phase
  sp_ProtectionRole :: protection_role

definition make_plan ::
  "smart_policy \<Rightarrow> sticky_route option \<Rightarrow> retry_routing_intent option \<Rightarrow> protection_decision \<Rightarrow> chosen \<Rightarrow> selected_plan" where
  "make_plan policy sticky retryIntent d n =
     (let cand = ev_candidate (cn_best n); s = ev_snapshot (cn_best n); r = ev_score (cn_best n) in
      \<lparr>dp_Channel = map_option ch_Id (cd_Channel cand), dp_SelectedGroup = cd_Group cand, dp_RuntimeKey = rs_Key s,
       dp_QueueWaitMs = selectedQueueWaitMs s policy (cn_saturated n) d,
       dp_QueueEnabled = protection_queueEnabled d (cn_saturated n) policy,
       dp_StickySource = (case sticky of None \<Rightarrow> [] | Some route \<Rightarrow> sk_Source route),
       dp_CacheAffinity = (case sticky of None \<Rightarrow> False | Some route \<Rightarrow> sk_CacheAware route),
       dp_RetryRoutingIntent = retryIntent, dp_RetryIntentApplied = Active retryIntent,
       sp_Candidate = cand, sp_ScoreTotal = sr_Total r, sp_RoutingScoreTotal = sr_RoutingTotal r,
       sp_QueueDepth = rs_QueueDepth s, sp_QueueCapacity = selectedQueueCapacity s d (cn_saturated n),
       sp_QueuePriority = queuePriorityForRetryIntent (gp_QueuePriority policy) retryIntent,
       sp_SelectedReason = sr_Reason r,
       sp_StickyKeyFP = (case sticky of None \<Rightarrow> [] | Some route \<Rightarrow> sk_KeyFingerprint route),
       sp_StickyRetained = (sticky \<noteq> None \<and> cn_stickyBreak n = []),
       sp_StickyBreak = cn_stickyBreak n, sp_StickyDecision = cn_stickyDecision n, sp_CostGuard = cn_guard n,
       sp_ProtectionPhase = selectedPhase d (cn_saturated n), sp_ProtectionRole = pd_Role d\<rparr>)"

datatype select_outcome = NotHandled | NoFallbackResource | Selected selected_plan

definition reserve_probe :: "selector \<Rightarrow> time \<Rightarrow> runtime_snapshot \<Rightarrow> route_world \<Rightarrow> bool \<times> route_world" where
  "reserve_probe sel now s w =
     (if rs_CircuitState s = Some CircuitStateHalfOpen \<and> sl_Enrich sel \<noteq> None then
        (case rw_breaker w of
           None \<Rightarrow> (True, w)
         | Some b \<Rightarrow> (case AllowProbe b now (rs_Key s) of (granted, b) \<Rightarrow> (granted, w\<lparr>rw_breaker := Some b\<rparr>)))
      else (True, w))"

definition ask_route ::
  "time \<Rightarrow> sticky_context \<Rightarrow> select_request \<Rightarrow> smart_policy \<Rightarrow> cache_affinity_signal option \<Rightarrow> route_world
   \<Rightarrow> sticky_route option \<times> route_world" where
  "ask_route now c req policy extracted w =
     (case rw_router w of
        None \<Rightarrow> (None, w)
      | Some r \<Rightarrow> (case Route now r c (dispatch_request.truncate req) (group_smart_policy.truncate policy) extracted of
          (route, r) \<Rightarrow> (route, w\<lparr>rw_router := Some r\<rparr>)))"

definition save_route :: "time \<Rightarrow> nat \<Rightarrow> sticky_context \<Rightarrow> select_request \<Rightarrow> selected_plan \<Rightarrow> route_world \<Rightarrow> route_world" where
  "save_route now turn c req plan w =
     (case rw_router w of
        None \<Rightarrow> w
      | Some r \<Rightarrow> if tr_saveOnSelect r
          then w\<lparr>rw_router := Some (Save now turn r c (dispatch_request.truncate req) (dispatch_plan.truncate plan))\<rparr> else w)"

definition broken_reason :: "selected_plan \<Rightarrow> selected_plan" where
  "broken_reason plan =
     (if dp_StickySource plan \<noteq> [] \<and> sp_SelectedReason plan = ''score_items'' \<and> sp_StickyBreak plan \<noteq> []
      then plan\<lparr>sp_SelectedReason := ''score_items_sticky_broken''\<rparr> else plan)"

definition select_protected ::
  "selector \<Rightarrow> time \<Rightarrow> nat \<Rightarrow> sticky_context \<Rightarrow> cache_affinity_signal option \<Rightarrow> select_request \<Rightarrow> smart_policy
   \<Rightarrow> candidate list \<Rightarrow> protection_decision \<Rightarrow> route_world \<Rightarrow> select_outcome \<times> route_world" where
  "select_protected sel now turn c extracted req policy cands d w =
     (if cands = [] then (NotHandled, w)
      else case ask_route now c req policy extracted w of (sticky, w) \<Rightarrow>
      case prepare_candidates sel now req policy sticky cands
             \<lparr>pr_evaluations = [], pr_stickyBreak = [], pr_costReferenceRatio = 0\<rparr> w of (p, w) \<Rightarrow>
      let w = explain_rejected now req (pr_evaluations p) w;
          usable = map (score_evaluation sel policy (dr_RetryRoutingIntent req) (pr_costReferenceRatio p))
            (filter (\<lambda>e. ev_rejectReason e = []) (pr_evaluations p))
      in case settle_choice sel policy sticky (pr_stickyBreak p) (dr_RetryRoutingIntent req) usable of
        None \<Rightarrow> (NotHandled, w)
      | Some (n, prioritySelected, tieBreakUsed) \<Rightarrow>
          let n = own_reason prioritySelected tieBreakUsed n in
          (case reserve_probe sel now (ev_snapshot (cn_best n)) w of (granted, w) \<Rightarrow>
             if \<not> granted then (NotHandled, w)
             else let plan = make_plan policy sticky (dr_RetryRoutingIntent req) d n
                  in (Selected (broken_reason plan), save_route now turn c req plan w)))"

definition filled_policy :: "select_request \<Rightarrow> smart_policy \<Rightarrow> smart_policy" where
  "filled_policy req policy =
     policy\<lparr>gp_RequestedGroup := orElse (gp_RequestedGroup policy) (dr_RequestedGroup req),
       gp_UserGroup := orElse (gp_UserGroup policy) (dr_UserGroup req)\<rparr>"

definition Select ::
  "selector \<Rightarrow> time \<Rightarrow> nat \<Rightarrow> sticky_context \<Rightarrow> cache_affinity_signal option \<Rightarrow> select_request \<Rightarrow> smart_policy
   \<Rightarrow> route_world \<Rightarrow> select_outcome \<times> route_world" where
  "Select sel now turn c extracted req policy0 w =
     (if \<not> IsActive policy0 then (NotHandled, w)
      else
        let policy = filled_policy req policy0;
            cands = sl_Build sel req policy
        in if cands = [] then (NotHandled, w)
           else case resourceProtectionCandidates sel now req policy cands w of
             ((None, d), w) \<Rightarrow> (NoFallbackResource, w)
           | ((Some cands, d), w) \<Rightarrow> select_protected sel now turn c extracted req policy cands d w)"

end
