(* ===== verification/Route_Score_Properties.thy ===== *)
theory Route_Score_Properties
  imports Route_Score
begin

text \<open>
  What scoring guarantees: scores and totals stay in the unit interval whatever the snapshot,
  the policy and the mathematical library deliver, and more load never raises the routing score
  of a candidate. The second is proved by comparing the two item lists entry by entry.
\<close>

named_theorems score_mono "monotonicity of the parts of a score"

section \<open>Clamping and rounding\<close>

lemma clamp01_unit [simp]: "0 \<le> clamp01 v" "clamp01 v \<le> 1"
  by (simp_all add: clamp01_def)

lemma clamp01_mono [score_mono]: "v \<le> w \<Longrightarrow> clamp01 v \<le> clamp01 w"
  by (simp add: clamp01_def)

lemma math_Round_mono: "x \<le> y \<Longrightarrow> math_Round x \<le> math_Round y"
proof -
  assume xy: "x \<le> y"
  consider "0 \<le> x" | "x < 0" "0 \<le> y" | "y < 0" by linarith
  then show ?thesis
  proof cases
    case 1
    with xy show ?thesis by (simp add: math_Round_def floor_mono)
  next
    case 2
    then have "\<lceil>x - 1 / 2\<rceil> \<le> 0" "0 \<le> \<lfloor>y + 1 / 2\<rfloor>" by (simp_all add: ceiling_le_iff le_floor_iff)
    then have "(of_int \<lceil>x - 1 / 2\<rceil> :: rat) \<le> of_int \<lfloor>y + 1 / 2\<rfloor>" by (simp only: of_int_le_iff)
    with 2 show ?thesis by (simp only: math_Round_def if_True if_False not_le [symmetric])
  next
    case 3
    with xy show ?thesis by (simp add: math_Round_def ceiling_mono)
  qed
qed

lemma f64_mul_mono_left: "a \<le> b \<Longrightarrow> 0 \<le> c \<Longrightarrow> f64_mul a c \<le> f64_mul b c"
  by (simp add: f64_mul_def f64_round_mono mult_right_mono)

lemma round4_mono [score_mono]: "v \<le> w \<Longrightarrow> round4 v \<le> round4 w"
  unfolding round4_def by (intro f64_div_mono math_Round_mono f64_mul_mono_left) simp_all

lemma round4_ends [simp]: "round4 0 = 0" "round4 1 = 1"
  by code_simp+

lemma round4_unit: "0 \<le> v \<Longrightarrow> v \<le> 1 \<Longrightarrow> 0 \<le> round4 v \<and> round4 v \<le> 1"
  using round4_mono [of 0 v] round4_mono [of v 1] by simp

lemma round4_clamp01 [simp]: "0 \<le> round4 (clamp01 v)" "round4 (clamp01 v) \<le> 1"
  using round4_unit [of "clamp01 v"] by simp_all

lemma f64_sum_mono:
  "list_all2 (\<le>) xs ys \<Longrightarrow> f64_sum xs \<le> f64_sum ys"
proof -
  have "list_all2 (\<le>) xs ys \<Longrightarrow> a \<le> b \<Longrightarrow> foldl f64_add a xs \<le> foldl f64_add b ys" for a b
    by (induction xs ys arbitrary: a b rule: list_all2_induct) (simp_all add: f64_add_mono)
  then show "list_all2 (\<le>) xs ys \<Longrightarrow> f64_sum xs \<le> f64_sum ys" by (simp add: f64_sum_def)
qed

section \<open>Bounds\<close>

definition unit_item :: "score_item \<Rightarrow> bool" where
  "unit_item item \<longleftrightarrow> 0 \<le> it_Score item \<and> it_Score item \<le> 1"

lemma unit_scoreItem [simp]: "unit_item (scoreItem key v w n)"
  by (simp add: unit_item_def scoreItem_def Let_def)

lemma unit_mark_missing: "unit_item item \<Longrightarrow> unit_item (mark_missing P r item)"
  by (simp add: unit_item_def mark_missing_def)

lemma unit_boost_item: "unit_item item \<Longrightarrow> unit_item (boost_item boosts item)"
  by (simp add: unit_item_def boost_item_def Let_def)

lemma unit_retryIntent [simp]: "unit_item (retryIntentScoreItem m s ctx)"
  by (simp add: retryIntentScoreItem_def Let_def split: option.split prod.split)

lemma unit_markSampleMissing:
  "list_all unit_item items \<Longrightarrow> list_all unit_item (markSampleMissingScoreItems stats s view items)"
  by (simp add: markSampleMissingScoreItems_def markIndividualSampleMissingScoreItems_def Let_def
      list_all_iff unit_mark_missing)

lemma unit_ApplyScoreBoosts: "list_all unit_item items \<Longrightarrow> list_all unit_item (ApplyScoreBoosts items boosts)"
  by (simp add: ApplyScoreBoosts_def Let_def list_all_iff unit_boost_item)

text \<open>The three outcomes of raising one weight to the minimum.\<close>

lemma applyMinimum_cases:
  obtains "applyMinimumNormalizedScoreItemWeight items key target = items"
  | i where "i < length items" "counts (items ! i)"
      "applyMinimumNormalizedScoreItemWeight items key target = items[i := (items ! i)\<lparr>it_Weight := clamp01 target\<rparr>]"
  | i scale where "i < length items" "counts (items ! i)"
      "scale = f64_div (f64_sub 1 (clamp01 target)) (f64_sub 1 (it_Weight (items ! i)))"
      "it_Weight (items ! i) < clamp01 target" "0 < f64_sub 1 (it_Weight (items ! i))"
      "applyMinimumNormalizedScoreItemWeight items key target =
         map (\<lambda>(idx, item). if \<not> counts item then item
           else if idx = i then item\<lparr>it_Weight := clamp01 target\<rparr>
           else item\<lparr>it_Weight := f64_mul (it_Weight item) scale\<rparr>) (zip [0..<length items] items)"
proof (cases "find (\<lambda>i. it_Key (items ! i) = key \<and> counts (items ! i)) [0..<length items]")
  case None
  with that(1) show thesis by (simp add: applyMinimumNormalizedScoreItemWeight_def Let_def)
next
  case (Some i)
  then have i: "i < length items" "counts (items ! i)" by (auto simp: find_Some_iff)
  show thesis
  proof (cases "items = [] \<or> TrimSpace key = [] \<or> target \<le> 0 \<or> target \<ge> 1 \<or> it_Weight (items ! i) \<ge> clamp01 target")
    case True
    with Some that(1) show thesis by (auto simp: applyMinimumNormalizedScoreItemWeight_def Let_def)
  next
    case False
    with Some i that(2,3) show thesis
      by (cases "f64_sub 1 (it_Weight (items ! i)) \<le> 0")
        (simp_all add: applyMinimumNormalizedScoreItemWeight_def Let_def not_le)
  qed
qed

lemma applyMinimum_scores:
  "list_all2 (\<lambda>x y. it_Score x = it_Score y) (applyMinimumNormalizedScoreItemWeight items key target) items"
  by (cases rule: applyMinimum_cases [of items key target])
    (auto simp: list_all2_conv_all_nth nth_list_update)

lemma normalizeScoreItems_unit: "list_all unit_item items \<Longrightarrow> list_all unit_item (normalizeScoreItems items)"
proof -
  assume u: "list_all unit_item items"
  have step: "list_all unit_item xs \<Longrightarrow> list_all2 (\<lambda>x y. it_Score x = it_Score y) ys xs \<Longrightarrow> list_all unit_item ys" for xs ys
    by (simp add: list_all2_conv_all_nth list_all_length unit_item_def)
  have up: "list_all unit_item xs \<Longrightarrow> (\<And>x. it_Score (f x) = it_Score x) \<Longrightarrow> list_all unit_item (map f xs)" for f xs
    by (simp add: list_all_iff unit_item_def)
  show ?thesis
    unfolding normalizeScoreItems_def Let_def using u
    by (simp del: list.pred_map split del: if_split add: if_split [of "list_all unit_item"])
      (intro impI up step [OF _ applyMinimum_scores], auto)
qed

lemma BuildScoreItems_unit: "list_all unit_item (BuildScoreItems m s policy ctx routing)"
  unfolding BuildScoreItems_def Let_def
  by (intro normalizeScoreItems_unit unit_ApplyScoreBoosts)
    (auto simp: list.pred_map comp_def unit_mark_missing list_all_iff [symmetric]
      intro!: unit_markSampleMissing list.pred_mono_strong [OF unit_markSampleMissing])

lemma score_totals_unit:
  "0 \<le> sr_Total (score m cand s policy ctx)" "sr_Total (score m cand s policy ctx) \<le> 1"
  "0 \<le> sr_RoutingTotal (score m cand s policy ctx)" "sr_RoutingTotal (score m cand s policy ctx) \<le> 1"
  by (simp_all add: score_def scoreTotalFromItems_def Let_def)

section \<open>Load\<close>

text \<open>The penalty of a load ratio grows with the ratio, across the breakpoints of its three pieces.\<close>

lemma softLoadPenalty_breaks:
  "f64_mul (f64_round (30 / 100)) (f64_round (8 / 100)) \<le> f64_round (24 / 1000)"
  "f64_add (f64_round (24 / 1000)) (f64_mul (f64_sub (f64_round (70 / 100)) (f64_round (30 / 100))) (f64_round (25 / 100)))
     \<le> f64_round (124 / 1000)"
  "f64_mul (f64_sub 1 (f64_round (80 / 100))) (f64_round (15 / 10)) \<le> f64_round (30 / 100)"
  "f64_mul (f64_sub 1 (f64_round (80 / 100))) (f64_round (15 / 10)) \<le> f64_round (62 / 100)"
  by code_simp+

lemma f64_consts: "0 \<le> f64_round (15 / 10)" "0 \<le> f64_round (22 / 100)" "0 \<le> f64_round (8 / 100)"
  "0 \<le> f64_round (25 / 100)" "0 \<le> f64_round (135 / 100)" "0 \<le> f64_round (24 / 1000)" "0 \<le> f64_round (124 / 1000)"
  "0 \<le> f64_round (30 / 100)" "0 \<le> f64_round (62 / 100)"
  by (simp_all add: f64_round_nonneg)

lemma f64_add_0_consts:
  "f64_round (30 / 100) \<le> f64_add (f64_round (30 / 100)) 0"
  "f64_round (24 / 1000) \<le> f64_add (f64_round (24 / 1000)) 0"
  "f64_round (124 / 1000) \<le> f64_add (f64_round (124 / 1000)) 0"
  by code_simp+

lemma f64_sub_nonneg: "b \<le> a \<Longrightarrow> 0 \<le> f64_sub a b"
  by (simp add: f64_sub_def f64_round_nonneg)

lemma f64_add_nonneg: "0 \<le> a \<Longrightarrow> 0 \<le> b \<Longrightarrow> 0 \<le> f64_add a b"
  by (simp add: f64_add_def f64_round_nonneg)

lemma f64_mul_nonneg: "0 \<le> a \<Longrightarrow> 0 \<le> b \<Longrightarrow> 0 \<le> f64_mul a b"
  by (simp add: f64_mul_def f64_round_nonneg)

lemma linear_piece_mono: "r \<le> r' \<Longrightarrow> 0 \<le> k \<Longrightarrow> f64_mul (f64_sub r a) k \<le> f64_mul (f64_sub r' a) k"
  by (intro f64_mul_mono_left f64_sub_mono) auto

lemma affine_piece_mono: "r \<le> r' \<Longrightarrow> 0 \<le> k \<Longrightarrow> f64_add c (f64_mul (f64_sub r a) k) \<le> f64_add c (f64_mul (f64_sub r' a) k)"
  by (intro f64_add_mono linear_piece_mono) auto

lemma affine_piece_start: "c \<le> f64_add c 0 \<Longrightarrow> a \<le> r \<Longrightarrow> 0 \<le> k \<Longrightarrow> c \<le> f64_add c (f64_mul (f64_sub r a) k)"
  by (rule order_trans [OF _ f64_add_mono]) (auto intro: f64_mul_nonneg f64_sub_nonneg)

lemma soft_cost_mono:
  assumes "r \<le> r'"
  shows "softLoadPenaltyForStrategy r StrategyCostFirst \<le> softLoadPenaltyForStrategy r' StrategyCostFirst"
proof -
  define x where "x = (if r < 0 then 0 else r)"
  define y where "y = (if r' < 0 then 0 else r')"
  have xy: "x \<le> y" using assms by (simp add: x_def y_def)
  note over = affine_piece_start [OF f64_add_0_consts(1), of 1 y "f64_round (22 / 100)"]
  note piece = linear_piece_mono [of _ _ "f64_round (15 / 10)" "f64_round (80 / 100)", OF _ f64_consts(1)]
  have "softLoadPenaltyForStrategy r StrategyCostFirst =
      (if x \<le> f64_round (80 / 100) then 0
       else if x \<le> 1 then f64_mul (f64_sub x (f64_round (80 / 100))) (f64_round (15 / 10))
       else min (f64_add (f64_round (30 / 100)) (f64_mul (f64_sub x 1) (f64_round (22 / 100)))) (f64_round (62 / 100)))"
    by (simp add: softLoadPenaltyForStrategy_def x_def Let_def)
  moreover have "softLoadPenaltyForStrategy r' StrategyCostFirst =
      (if y \<le> f64_round (80 / 100) then 0
       else if y \<le> 1 then f64_mul (f64_sub y (f64_round (80 / 100))) (f64_round (15 / 10))
       else min (f64_add (f64_round (30 / 100)) (f64_mul (f64_sub y 1) (f64_round (22 / 100)))) (f64_round (62 / 100)))"
    by (simp add: softLoadPenaltyForStrategy_def y_def Let_def)
  moreover have "0 \<le> f64_add (f64_round (30 / 100)) (f64_mul (f64_sub y 1) (f64_round (22 / 100)))" if "1 < y"
    using over that f64_consts by linarith
  moreover have "0 \<le> f64_mul (f64_sub y (f64_round (80 / 100))) (f64_round (15 / 10))" if "f64_round (80 / 100) < y"
    using that f64_consts by (intro f64_mul_nonneg f64_sub_nonneg) auto
  moreover have "f64_mul (f64_sub x (f64_round (80 / 100))) (f64_round (15 / 10)) \<le> f64_round (30 / 100)
      \<and> f64_mul (f64_sub x (f64_round (80 / 100))) (f64_round (15 / 10)) \<le> f64_round (62 / 100)" if "x \<le> 1"
    using piece [OF that] softLoadPenalty_breaks(3,4) by auto
  moreover note piece [OF xy] affine_piece_mono [OF xy f64_consts(2), of "f64_round (30 / 100)" 1]
  moreover have "f64_round (30 / 100) \<le> f64_add (f64_round (30 / 100)) (f64_mul (f64_sub y 1) (f64_round (22 / 100)))" if "1 < y"
    using over that f64_consts by simp
  ultimately show ?thesis using xy f64_consts(9) by (auto intro: order_trans min.coboundedI1)
qed

lemma soft_plain_mono:
  assumes "r \<le> r'" and "st \<noteq> StrategyCostFirst"
  shows "softLoadPenaltyForStrategy r st \<le> softLoadPenaltyForStrategy r' st"
proof -
  define x where "x = clamp01 r"
  define y where "y = clamp01 r'"
  have xy: "x \<le> y" and x0: "0 \<le> x" using assms by (simp_all add: x_def y_def clamp01_mono)
  let ?a = "\<lambda>x. f64_mul x (f64_round (8 / 100))"
  let ?b = "\<lambda>x. f64_add (f64_round (24 / 1000)) (f64_mul (f64_sub x (f64_round (30 / 100))) (f64_round (25 / 100)))"
  let ?c = "\<lambda>x. f64_add (f64_round (124 / 1000)) (f64_mul (f64_sub x (f64_round (70 / 100))) (f64_round (135 / 100)))"
  have form: "softLoadPenaltyForStrategy r st =
      (if x \<le> f64_round (30 / 100) then ?a x else if x \<le> f64_round (70 / 100) then ?b x else ?c x)"
    "softLoadPenaltyForStrategy r' st =
      (if y \<le> f64_round (30 / 100) then ?a y else if y \<le> f64_round (70 / 100) then ?b y else ?c y)"
    using assms(2) by (simp_all add: softLoadPenaltyForStrategy_def x_def y_def Let_def)
  have a: "?a x \<le> ?a y" "x \<le> f64_round (30 / 100) \<Longrightarrow> ?a x \<le> f64_round (24 / 1000)"
    using xy f64_consts(3) softLoadPenalty_breaks(1)
      f64_mul_mono_left [of x "f64_round (30 / 100)" "f64_round (8 / 100)"]
    by (auto intro: f64_mul_mono_left)
  have b: "?b x \<le> ?b y" "f64_round (30 / 100) \<le> y \<Longrightarrow> f64_round (24 / 1000) \<le> ?b y"
    "x \<le> f64_round (70 / 100) \<Longrightarrow> ?b x \<le> f64_round (124 / 1000)"
    using affine_piece_mono [OF xy f64_consts(4)] affine_piece_start [OF f64_add_0_consts(2) _ f64_consts(4)]
      order_trans [OF affine_piece_mono [OF _ f64_consts(4), of x "f64_round (70 / 100)"] softLoadPenalty_breaks(2)]
    by auto
  have c: "?c x \<le> ?c y" "f64_round (70 / 100) \<le> y \<Longrightarrow> f64_round (124 / 1000) \<le> ?c y"
    using affine_piece_mono [OF xy f64_consts(5)] affine_piece_start [OF f64_add_0_consts(3) _ f64_consts(5)] by auto
  have "f64_round (24 / 1000) \<le> f64_round (124 / 1000)" by (simp add: f64_round_mono)
  then show ?thesis using a b c xy by (auto simp: form intro: order_trans)
qed

lemma softLoadPenalty_mono [score_mono]:
  "r \<le> r' \<Longrightarrow> softLoadPenaltyForStrategy r st \<le> softLoadPenaltyForStrategy r' st"
  using soft_cost_mono soft_plain_mono by (cases "st = StrategyCostFirst") auto

lemma softLoadPenalty_value: "f64_round (softLoadPenaltyForStrategy r st) = softLoadPenaltyForStrategy r st"
  by (simp add: softLoadPenaltyForStrategy_def Let_def min_def)

lemma capped_mono: "n \<le> n' \<Longrightarrow> 0 \<le> step \<Longrightarrow> capped n step most \<le> capped n' step most"
  by (simp add: capped_def min.coboundedI1 f64_mul_mono_left f64_of_int_mono f64_round_nonneg)

lemma capped_nonneg: "0 \<le> n \<Longrightarrow> 0 \<le> step \<Longrightarrow> 0 \<le> most \<Longrightarrow> 0 \<le> capped n step most"
  by (simp add: capped_def f64_mul_nonneg f64_of_int_nonneg f64_round_nonneg)

lemma wait_capped_mono: "w \<le> w' \<Longrightarrow> 0 < u \<Longrightarrow> wait_capped w u most \<le> wait_capped w' u most"
  by (simp add: wait_capped_def min.coboundedI1 f64_div_mono)

lemma wait_capped_nonneg: "0 \<le> w \<Longrightarrow> 0 < u \<Longrightarrow> 0 \<le> most \<Longrightarrow> 0 \<le> wait_capped w u most"
  by (simp add: wait_capped_def f64_div_def f64_round_nonneg)

text \<open>A penalty that is charged once a measure \<open>x\<close> passes a threshold: \<open>g\<close> is what it costs.\<close>

lemma charged_add:
  assumes "p \<le> p'" and "f64_round p' = p'" and "c \<longrightarrow> c'" and "c' \<Longrightarrow> 0 \<le> g'" and "c \<Longrightarrow> g \<le> g'"
  shows "(if c then f64_add p g else p) \<le> (if c' then f64_add p' g' else p')"
  using assms f64_add_mono [of p p' g g'] f64_add_ge [of p' g'] by auto

lemma score_charged_sub:
  assumes "p' \<le> p" and "f64_round p = p" and "c \<longrightarrow> c'" and "c' \<Longrightarrow> 0 \<le> g'" and "c \<Longrightarrow> g \<le> g'"
  shows "(if c' then f64_sub p' g' else p') \<le> (if c then f64_sub p g else p)"
  using assms f64_sub_mono [of p' p g g'] f64_sub_mono [of p' p 0 g'] f64_sub_le [of p' g']
  by (auto simp: f64_sub_def [of _ 0])

lemma charged_value:
  "f64_round p = p \<Longrightarrow> f64_round (if c then f64_add p g else p) = (if c then f64_add p g else p)"
  "f64_round p = p \<Longrightarrow> f64_round (if c then f64_sub p g else p) = (if c then f64_sub p g else p)"
  by simp_all

section \<open>Busier snapshots\<close>

text \<open>\<open>busier s t\<close>: \<open>t\<close> is \<open>s\<close> with more requests in flight, longer queues or older waits.\<close>

definition busier :: "runtime_snapshot \<Rightarrow> runtime_snapshot \<Rightarrow> bool" where
  "busier s t \<longleftrightarrow>
     t = s\<lparr>rs_ActiveConcurrency := rs_ActiveConcurrency t, rs_QueueDepth := rs_QueueDepth t,
           rs_EstimatedQueueWaitMs := rs_EstimatedQueueWaitMs t, rs_FirstBytePending := rs_FirstBytePending t,
           rs_SlowFirstBytePending := rs_SlowFirstBytePending t, rs_OldestFirstByteWaitMs := rs_OldestFirstByteWaitMs t\<rparr>
     \<and> rs_ActiveConcurrency s \<le> rs_ActiveConcurrency t \<and> rs_QueueDepth s \<le> rs_QueueDepth t
     \<and> rs_EstimatedQueueWaitMs s \<le> rs_EstimatedQueueWaitMs t \<and> rs_FirstBytePending s \<le> rs_FirstBytePending t
     \<and> rs_SlowFirstBytePending s \<le> rs_SlowFirstBytePending t \<and> rs_OldestFirstByteWaitMs s \<le> rs_OldestFirstByteWaitMs t"

lemma busier_load:
  assumes "busier s t"
  shows "rs_ActiveConcurrency s \<le> rs_ActiveConcurrency t" "rs_QueueDepth s \<le> rs_QueueDepth t"
    "rs_EstimatedQueueWaitMs s \<le> rs_EstimatedQueueWaitMs t" "rs_FirstBytePending s \<le> rs_FirstBytePending t"
    "rs_SlowFirstBytePending s \<le> rs_SlowFirstBytePending t" "rs_OldestFirstByteWaitMs s \<le> rs_OldestFirstByteWaitMs t"
  using assms unfolding busier_def by blast+

lemma busier_same:
  assumes "busier s t"
  shows "rs_Key t = rs_Key s" "rs_ScoreStats t = rs_ScoreStats s" "rs_RecentLatencySamples t = rs_RecentLatencySamples s"
    "rs_SuccessRate t = rs_SuccessRate s" "rs_TTFTMs t = rs_TTFTMs s" "rs_DurationMs t = rs_DurationMs s"
    "rs_TokensPerSecond t = rs_TokensPerSecond s" "rs_EmptyOutputRate t = rs_EmptyOutputRate s"
    "rs_MaxConcurrency t = rs_MaxConcurrency s" "rs_ConfiguredConcurrencyLimit t = rs_ConfiguredConcurrencyLimit s"
    "rs_LearnedConcurrencyLimit t = rs_LearnedConcurrencyLimit s" "rs_EffectiveConcurrencyLimit t = rs_EffectiveConcurrencyLimit s"
    "rs_CostRatio t = rs_CostRatio s" "rs_CostReferenceRatio t = rs_CostReferenceRatio s"
    "rs_GroupPriorityRatio t = rs_GroupPriorityRatio s" "rs_CircuitOpen t = rs_CircuitOpen s" "rs_Cooldown t = rs_Cooldown s"
    "rs_FailureAvoidance t = rs_FailureAvoidance s" "rs_SampleCount t = rs_SampleCount s"
proof -
  have e: "t = s\<lparr>rs_ActiveConcurrency := rs_ActiveConcurrency t, rs_QueueDepth := rs_QueueDepth t,
           rs_EstimatedQueueWaitMs := rs_EstimatedQueueWaitMs t, rs_FirstBytePending := rs_FirstBytePending t,
           rs_SlowFirstBytePending := rs_SlowFirstBytePending t, rs_OldestFirstByteWaitMs := rs_OldestFirstByteWaitMs t\<rparr>"
    using assms unfolding busier_def by (rule conjunct1)
  show "rs_Key t = rs_Key s" "rs_ScoreStats t = rs_ScoreStats s" "rs_RecentLatencySamples t = rs_RecentLatencySamples s"
    "rs_SuccessRate t = rs_SuccessRate s" "rs_TTFTMs t = rs_TTFTMs s" "rs_DurationMs t = rs_DurationMs s"
    "rs_TokensPerSecond t = rs_TokensPerSecond s" "rs_EmptyOutputRate t = rs_EmptyOutputRate s"
    "rs_MaxConcurrency t = rs_MaxConcurrency s" "rs_ConfiguredConcurrencyLimit t = rs_ConfiguredConcurrencyLimit s"
    "rs_LearnedConcurrencyLimit t = rs_LearnedConcurrencyLimit s" "rs_EffectiveConcurrencyLimit t = rs_EffectiveConcurrencyLimit s"
    "rs_CostRatio t = rs_CostRatio s" "rs_CostReferenceRatio t = rs_CostReferenceRatio s"
    "rs_GroupPriorityRatio t = rs_GroupPriorityRatio s" "rs_CircuitOpen t = rs_CircuitOpen s" "rs_Cooldown t = rs_Cooldown s"
    "rs_FailureAvoidance t = rs_FailureAvoidance s" "rs_SampleCount t = rs_SampleCount s"
    by (subst e, simp)+
qed

lemma oldest_wait_step_mono:
  assumes "rs_OldestFirstByteWaitMs s \<le> rs_OldestFirstByteWaitMs t" and "0 \<le> d" "d \<le> c" "c \<le> b" "b \<le> a"
  shows "oldest_wait_step s a b c d \<le> oldest_wait_step t a b c d" and "0 \<le> oldest_wait_step t a b c d"
proof -
  have "f64_round d \<le> f64_round c" "f64_round c \<le> f64_round b" "f64_round b \<le> f64_round a" "0 \<le> f64_round d"
    using assms by (simp_all add: f64_round_mono f64_round_nonneg)
  then show "oldest_wait_step s a b c d \<le> oldest_wait_step t a b c d" and "0 \<le> oldest_wait_step t a b c d"
    using assms(1) by (auto simp: oldest_wait_step_def)
qed

lemma limit_busier: "busier s t \<Longrightarrow> routingConcurrencyLimit t = routingConcurrencyLimit s"
  by (simp add: routingConcurrencyLimit_def busier_same)

lemma unknown_limit_load_antitone:
  assumes "busier s t"
  shows "routingConcurrencyLoadItemScoreWithoutKnownLimit t \<le> routingConcurrencyLoadItemScoreWithoutKnownLimit s"
  unfolding routingConcurrencyLoadItemScoreWithoutKnownLimit_def Let_def
  using busier_load [OF assms]
  by (intro clamp01_mono score_charged_sub charged_value)
    (auto intro: capped_mono capped_nonneg wait_capped_mono wait_capped_nonneg oldest_wait_step_mono)

lemma unknown_limit_cost_antitone:
  assumes "busier s t"
  shows "routingConcurrencyLoadItemScoreWithoutKnownLimitForCostFirst t \<le> routingConcurrencyLoadItemScoreWithoutKnownLimitForCostFirst s"
  unfolding routingConcurrencyLoadItemScoreWithoutKnownLimitForCostFirst_def Let_def
  using busier_load [OF assms]
  by (intro clamp01_mono score_charged_sub charged_value) (auto intro: capped_mono capped_nonneg wait_capped_mono wait_capped_nonneg)

lemma queuePressure_antitone:
  assumes "busier s t"
  shows "queuePressureScore t st \<le> queuePressureScore s st"
proof (cases "st = StrategyCostFirst")
  case True
  show ?thesis
    unfolding queuePressureScore_def Let_def if_P [OF True] using busier_load [OF assms]
    by (intro clamp01_mono score_charged_sub charged_value) (auto intro: capped_mono capped_nonneg wait_capped_mono wait_capped_nonneg)
next
  case False
  show ?thesis
    unfolding queuePressureScore_def Let_def if_not_P [OF False] using busier_load [OF assms]
    by (intro clamp01_mono score_charged_sub charged_value) (auto intro: capped_mono capped_nonneg wait_capped_mono wait_capped_nonneg)
qed

lemma backlogPenalty_mono:
  assumes "busier s t"
  shows "firstByteBacklogPenaltyForStrategy s st \<le> firstByteBacklogPenaltyForStrategy t st"
proof (cases "st = StrategyCostFirst \<or> rs_FirstBytePending s \<le> 0")
  case True
  then show ?thesis by (auto simp: firstByteBacklogPenaltyForStrategy_def Let_def)
next
  case False
  note load = busier_load [OF assms]
  have v: "f64_round (capped n step most) = capped n step most" for n step most
    by (simp add: capped_def min_def)
  from False load have t: "\<not> rs_FirstBytePending t \<le> 0" by linarith
  from False have st: "st \<noteq> StrategyCostFirst" and s: "\<not> rs_FirstBytePending s \<le> 0" by auto
  show ?thesis
    unfolding firstByteBacklogPenaltyForStrategy_def Let_def if_not_P [OF st] if_not_P [OF s] if_not_P [OF t]
    by (intro clamp01_mono charged_add charged_value v)
      (use load in \<open>auto intro: capped_mono capped_nonneg oldest_wait_step_mono\<close>)
qed

lemma backlogScore_antitone:
  "busier s t \<Longrightarrow> firstByteBacklogScore t st \<le> firstByteBacklogScore s st"
  by (simp add: firstByteBacklogScore_def clamp01_mono f64_sub_mono backlogPenalty_mono)

lemma routingLoad_antitone:
  assumes "busier s t"
  shows "routingConcurrencyLoadItemScoreForStrategy t st \<le> routingConcurrencyLoadItemScoreForStrategy s st"
proof (cases "rs_CircuitOpen s \<or> rs_Cooldown s \<or> rs_FailureAvoidance s \<or> routingConcurrencyLimit s \<le> 0")
  case True
  then show ?thesis
    using unknown_limit_load_antitone [OF assms] unknown_limit_cost_antitone [OF assms]
    by (auto simp: routingConcurrencyLoadItemScoreForStrategy_def Let_def busier_same [OF assms] limit_busier [OF assms])
next
  case False
  note load = busier_load [OF assms]
  have pos: "0 < f64_of_int (routingConcurrencyLimit s)" using False by (intro f64_of_int_pos) simp
  have optional: "(if 0 < x then g x else 0) \<le> (if 0 < y then g y else 0)"
    if "x \<le> y" "\<And>z. 0 < z \<Longrightarrow> 0 \<le> g z" "g x \<le> g y" for x y :: "'b :: linordered_idom" and g :: "'b \<Rightarrow> f64"
    using that by auto
  from False have no: "\<not> (rs_CircuitOpen s \<or> rs_Cooldown s \<or> rs_FailureAvoidance s)"
    and lim: "\<not> routingConcurrencyLimit s \<le> 0" by auto
  show ?thesis
    unfolding routingConcurrencyLoadItemScoreForStrategy_def Let_def busier_same [OF assms] limit_busier [OF assms]
      if_not_P [OF no] if_not_P [OF lim]
    by (intro clamp01_mono f64_sub_mono order_refl charged_add charged_value optional softLoadPenalty_mono softLoadPenalty_value f64_div_mono)
      (use load pos in \<open>auto intro: capped_mono capped_nonneg wait_capped_mono wait_capped_nonneg f64_of_int_mono\<close>)
qed

section \<open>Comparing item lists\<close>

definition item_le :: "score_item \<Rightarrow> score_item \<Rightarrow> bool" where
  "item_le x y \<longleftrightarrow> it_Key x = it_Key y \<and> it_Weight x = it_Weight y \<and> it_MissingReason x = it_MissingReason y
     \<and> it_Score x \<le> it_Score y"

lemma item_le_refl [simp]: "item_le x x"
  by (simp add: item_le_def)

lemma item_le_counts: "item_le x y \<Longrightarrow> counts x = counts y"
  by (simp add: item_le_def counts_def)

lemma item_le_scoreItem: "v \<le> w \<Longrightarrow> item_le (scoreItem key v wt n) (scoreItem key w wt k)"
  by (simp add: item_le_def scoreItem_def Let_def clamp01_mono round4_mono)

lemma item_le_mark_missing: "item_le x y \<Longrightarrow> item_le (mark_missing P r x) (mark_missing P r y)"
  by (simp add: item_le_def mark_missing_def)

lemma item_le_boost: "item_le x y \<Longrightarrow> item_le (boost_item boosts x) (boost_item boosts y)"
  by (auto simp: item_le_def boost_item_def Let_def intro!: round4_mono clamp01_mono f64_add_mono)

lemma items_map: "list_all2 item_le xs ys \<Longrightarrow> (\<And>x y. item_le x y \<Longrightarrow> item_le (f x) (f y)) \<Longrightarrow> list_all2 item_le (map f xs) (map f ys)"
  by (auto simp: list.rel_map elim: list_all2_mono)

lemma items_boosts: "list_all2 item_le xs ys \<Longrightarrow> list_all2 item_le (ApplyScoreBoosts xs b) (ApplyScoreBoosts ys b)"
  by (auto simp: ApplyScoreBoosts_def Let_def intro: items_map item_le_boost)

lemma items_missing:
  "list_all2 item_le xs ys \<Longrightarrow> busier s t \<Longrightarrow>
     list_all2 item_le (markSampleMissingScoreItems stats t view xs) (markSampleMissingScoreItems stats s view ys)"
  by (auto simp: markSampleMissingScoreItems_def markIndividualSampleMissingScoreItems_def Let_def busier_same
      intro!: items_map item_le_mark_missing)

lemma items_find:
  assumes "list_all2 item_le xs ys"
  shows "find (\<lambda>i. it_Key (xs ! i) = key \<and> counts (xs ! i)) [0..<length xs] =
    find (\<lambda>i. it_Key (ys ! i) = key \<and> counts (ys ! i)) [0..<length ys]"
  using assms by (intro find_cong) (auto simp: list_all2_conv_all_nth item_le_def counts_def)

lemma items_minimum:
  assumes "list_all2 item_le xs ys"
  shows "list_all2 item_le (applyMinimumNormalizedScoreItemWeight xs key w) (applyMinimumNormalizedScoreItemWeight ys key w)"
proof (cases "find (\<lambda>i. it_Key (ys ! i) = key \<and> counts (ys ! i)) [0..<length ys]")
  case None
  with assms items_find [OF assms, of key] show ?thesis
    by (auto simp: applyMinimumNormalizedScoreItemWeight_def Let_def)
next
  case (Some i)
  then have il: "i < length ys" by (auto simp: find_Some_iff)
  with assms have w: "it_Weight (xs ! i) = it_Weight (ys ! i)" and len: "length xs = length ys"
    by (auto simp: list_all2_conv_all_nth item_le_def)
  have empty: "(xs = []) = (ys = [])" using len by auto
  show ?thesis
    using assms Some items_find [OF assms, of key] w len il
    by (auto simp: applyMinimumNormalizedScoreItemWeight_def Let_def empty list_all2_conv_all_nth nth_list_update
        item_le_counts item_le_def [of "_\<lparr>it_Weight := _\<rparr>"] dest: spec [of _ i])
      (auto simp: item_le_def nth_list_update)
qed

lemma items_weights:
  "list_all2 item_le xs ys \<Longrightarrow> map it_Weight (filter counts xs) = map it_Weight (filter counts ys)"
  by (induction xs ys rule: list_all2_induct) (auto simp: item_le_counts item_le_def)

lemma items_normalize:
  assumes "list_all2 item_le xs ys"
  shows "list_all2 item_le (normalizeScoreItems xs) (normalizeScoreItems ys)"
  unfolding normalizeScoreItems_def Let_def items_weights [OF assms]
  using assms
  by (auto intro!: items_map items_minimum simp: item_le_counts) (auto simp: item_le_def)

lemma items_total: "list_all2 item_le xs ys \<Longrightarrow> scoreTotalFromItems xs \<le> scoreTotalFromItems ys"
proof -
  assume "list_all2 item_le xs ys"
  then have "list_all2 (\<le>) (map (\<lambda>item. f64_mul (it_Score item) (it_Weight item)) (filter counts xs))
      (map (\<lambda>item. f64_mul (it_Score item) (it_Weight item)) (filter counts ys))"
  proof (induction xs ys rule: list_all2_induct)
    case (Cons x xs y ys)
    moreover from Cons.hyps have "counts x \<Longrightarrow> f64_mul (it_Score x) (it_Weight x) \<le> f64_mul (it_Score y) (it_Weight y)"
      by (auto simp: item_le_def counts_def intro!: f64_mul_mono_left)
    ultimately show ?case by (simp add: item_le_counts)
  qed simp
  then show ?thesis by (simp add: scoreTotalFromItems_def round4_mono clamp01_mono f64_sum_mono)
qed

lemma retryIntent_le:
  assumes "busier s t"
  shows "item_le (retryIntentScoreItem m t ctx) (retryIntentScoreItem m s ctx)"
proof -
  have c: "completionRateScore t = completionRateScore s" by (simp add: completionRateScore_def busier_same [OF assms])
  have q: "0 \<le> f64_round (1 / 4)" "0 < f64_round (1 / 4)" by code_simp+
  have b: "f64_add x (f64_mul (firstByteBacklogScore t st) (f64_round (1 / 4))) \<le>
      f64_add x (f64_mul (firstByteBacklogScore s st) (f64_round (1 / 4)))" for x st
    using q backlogScore_antitone [OF assms, of st] by (intro f64_add_mono f64_mul_mono_left) auto
  show ?thesis
    by (auto simp: retryIntentScoreItem_def Let_def busier_same [OF assms] c split: option.split
        intro!: item_le_scoreItem f64_div_mono b)
qed

lemma latencyView_busier:
  assumes "busier s t"
  shows "scoreLatencyViewFromSnapshot m t stats = scoreLatencyViewFromSnapshot m s stats"
  by (simp only: scoreLatencyViewFromSnapshot_def busier_same [OF assms])

lemma BuildScoreItems_le:
  assumes "busier s t"
  shows "list_all2 item_le (BuildScoreItems m t policy ctx True) (BuildScoreItems m s policy ctx True)"
proof -
  note same = busier_same [OF assms] latencyView_busier [OF assms]
  have cost: "costScoreItemValue m t profile = costScoreItemValue m s profile" for profile
    by (simp only: costScoreItemValue_def same)
  have group: "groupPriorityItemScoreForStrategy t policy st = groupPriorityItemScoreForStrategy s policy st" for st
    by (simp only: groupPriorityItemScoreForStrategy_def costFirstGroupPriorityItemScore_def same)
  have compl: "completionRateScore t = completionRateScore s" by (simp only: completionRateScore_def same)
  show ?thesis
    unfolding BuildScoreItems_def Let_def cost group compl same if_True
    by (intro items_normalize items_boosts)
      (auto intro!: items_map items_missing [OF _ assms] item_le_mark_missing item_le_scoreItem retryIntent_le [OF assms]
        routingLoad_antitone [OF assms] queuePressure_antitone [OF assms] backlogScore_antitone [OF assms])
qed

lemma routing_score_antitone:
  assumes "busier s t"
  shows "sr_RoutingTotal (score m cand t policy ctx) \<le> sr_RoutingTotal (score m cand s policy ctx)"
  using BuildScoreItems_le [OF assms] by (simp add: score_def Let_def items_total)

end
