(* ===== verification/Route_Properties.thy ===== *)
theory Route_Properties
  imports Route_Select Route_Score_Properties
begin

text \<open>
  What a selection guarantees: the chosen candidate was judged usable, a saturated one is chosen
  only when none is free, channel priority decides within the score window, the cost guard bounds
  the price of a cost-first choice, primary resources come first, and a half-open circuit is used
  only with a probe slot of its breaker.
\<close>

section \<open>Priority within the score window\<close>

text \<open>A routing score that is a value of the type: every score the service computes is one.\<close>

definition valued :: "evaluation \<Rightarrow> bool" where
  "valued e \<longleftrightarrow> f64_round (routing e) = routing e"

lemma score_valued: "f64_round (sr_RoutingTotal (score m cand s policy ctx)) = sr_RoutingTotal (score m cand s policy ctx)"
  by (simp add: score_def scoreTotalFromItems_def round4_def Let_def)

lemma eps_nonneg: "0 \<le> channelPriorityTieBreakScoreEpsilon"
  by code_simp

lemma valued_eps: "valued e \<Longrightarrow> routing e \<le> f64_add (routing e) channelPriorityTieBreakScoreEpsilon"
  by (simp add: valued_def f64_add_ge eps_nonneg)

lemma score_best_member: "score_best e es \<in> set (e # es)"
proof -
  have "foldl (\<lambda>best x. if routing x > f64_add (routing best) eps then x else best) e es \<in> set (e # es)" for eps
    by (induction es rule: rev_induct) auto
  then show ?thesis by (simp only: score_best_def)
qed

lemma score_best_top:
  "list_all valued (e # es) \<Longrightarrow> x \<in> set (e # es) \<Longrightarrow>
     routing x \<le> f64_add (routing (score_best e es)) channelPriorityTieBreakScoreEpsilon"
proof (induction es arbitrary: x rule: rev_induct)
  case Nil
  then show ?case using valued_eps [of e] by (simp add: score_best_def)
next
  case (snoc y es)
  have y: "valued y" using snoc.prems by simp
  have old: "routing z \<le> f64_add (routing (score_best e es)) channelPriorityTieBreakScoreEpsilon" if "z \<in> set (e # es)" for z
    using snoc.IH [of z] snoc.prems that by simp
  have step: "score_best e (es @ [y]) =
      (if routing y > f64_add (routing (score_best e es)) channelPriorityTieBreakScoreEpsilon then y else score_best e es)"
    by (simp add: score_best_def)
  show ?case
    using snoc.prems(2) old [of x] valued_eps [OF y] by (auto simp: step split: if_splits intro: order_trans)
qed

text \<open>The fold over the window keeps the best by priority, then by score.\<close>

lemma tie_break_fold:
  assumes "in_window m delta e"
  defines "best \<equiv> \<lambda>xs. foldl (tie_break_step m delta) e xs"
  shows "best xs \<in> insert e (set xs) \<and> in_window m delta (best xs) \<and> priority e \<le> priority (best xs)
    \<and> (\<forall>x \<in> set xs. in_window m delta x \<longrightarrow> priority x \<le> priority (best xs))"
proof (induction xs rule: rev_induct)
  case Nil
  with assms show ?case by simp
next
  case (snoc y xs)
  have step: "best (xs @ [y]) = tie_break_step m delta (best xs) y" by (simp add: best_def)
  show ?case using snoc.IH unfolding step tie_break_step_def by (auto split: if_splits)
qed

lemma tie_break_score:
  assumes "in_window m delta e" and "list_all valued (e # xs)"
  defines "best \<equiv> \<lambda>xs. foldl (tie_break_step m delta) e xs"
  shows "\<forall>x \<in> set (e # xs). in_window m delta x \<longrightarrow> priority x = priority (best xs) \<longrightarrow>
    routing x \<le> f64_add (routing (best xs)) channelPriorityTieBreakScoreEpsilon"
  using assms(2)
proof (induction xs rule: rev_induct)
  case Nil
  then show ?case using valued_eps [of e] by (simp add: best_def)
next
  case (snoc y xs)
  have step: "best (xs @ [y]) = tie_break_step m delta (best xs) y" by (simp add: best_def)
  have low: "\<forall>x \<in> set (e # xs). in_window m delta x \<longrightarrow> priority x \<le> priority (best xs)"
    using tie_break_fold [OF assms(1), of xs] by (simp add: best_def)
  have IH: "\<forall>x \<in> set (e # xs). in_window m delta x \<longrightarrow> priority x = priority (best xs) \<longrightarrow>
      routing x \<le> f64_add (routing (best xs)) channelPriorityTieBreakScoreEpsilon"
    using snoc by simp
  have y: "routing y \<le> f64_add (routing y) channelPriorityTieBreakScoreEpsilon"
    using snoc.prems by (simp add: valued_eps)
  show ?case
  proof (intro ballI impI)
    fix x assume x: "x \<in> set (e # xs @ [y])" "in_window m delta x" "priority x = priority (best (xs @ [y]))"
    show "routing x \<le> f64_add (routing (best (xs @ [y]))) channelPriorityTieBreakScoreEpsilon"
      using x low IH y unfolding step tie_break_step_def by (fastforce split: if_splits)
  qed
qed

lemma normalized_delta_pos: "0 < tb_ScoreDelta (normalized_tie_break config)"
proof -
  have "(0 :: f64) < f64_round (5 / 100)" by code_simp
  then show ?thesis by (simp add: normalized_tie_break_def Let_def)
qed

lemma best_in_window: "in_window (routing x) (tb_ScoreDelta (normalized_tie_break config)) x"
proof -
  have "0 \<le> f64_add (tb_ScoreDelta (normalized_tie_break config)) channelPriorityTieBreakScoreEpsilon"
    using normalized_delta_pos [of config] eps_nonneg by (intro f64_add_nonneg) auto
  then show ?thesis by (simp add: in_window_def f64_sub_def)
qed

lemma select_shape:
  assumes "tb_Enabled config"
  shows "selectCandidateByRoutingScoreAndChannelPriority config (e # es) =
    (let best = score_best e es;
         selected = foldl (tie_break_step (routing best) (tb_ScoreDelta (normalized_tie_break config))) best (e # es)
     in Some (selected, \<not> candidateEvaluationMatches selected best))"
proof -
  have "tb_Enabled (normalized_tie_break config)" using assms by (simp add: normalized_tie_break_def Let_def)
  then show ?thesis by (simp add: Let_def)
qed

lemma select_member:
  "selectCandidateByRoutingScoreAndChannelPriority config es = Some (x, used) \<Longrightarrow> x \<in> set es"
proof (cases es)
  case (Cons e es')
  assume sel: "selectCandidateByRoutingScoreAndChannelPriority config es = Some (x, used)"
  note best = score_best_member [of e es']
  show ?thesis
  proof (cases "tb_Enabled config")
    case True
    note f = tie_break_fold [OF best_in_window [of "score_best e es'" config], of "e # es'"]
    have "x = foldl (tie_break_step (routing (score_best e es')) (tb_ScoreDelta (normalized_tie_break config))) (score_best e es') (e # es')"
      using sel unfolding Cons select_shape [OF True] by (simp add: Let_def)
    with f best show ?thesis unfolding Cons by auto
  next
    case False
    then have "\<not> tb_Enabled (normalized_tie_break config)" by (simp add: normalized_tie_break_def Let_def)
    with sel best show ?thesis by (simp add: Cons Let_def)
  qed
qed simp

lemma select_some: "es \<noteq> [] \<Longrightarrow> selectCandidateByRoutingScoreAndChannelPriority config es \<noteq> None"
  by (cases es) (auto simp: Let_def)

text \<open>C19: The selection takes, among the evaluations whose routing score is within the configured
  distance of the highest one, one with the highest channel priority, and among those of that
  priority one whose score no other exceeds by more than the comparison tolerance.\<close>

theorem priority_decides_within_window:
  assumes "es \<noteq> []" and "list_all valued es" and "tb_Enabled config"
  shows "\<exists>selected used m. selectCandidateByRoutingScoreAndChannelPriority config es = Some (selected, used)
    \<and> selected \<in> set es \<and> m \<in> routing ` set es
    \<and> (\<forall>x \<in> set es. routing x \<le> f64_add m channelPriorityTieBreakScoreEpsilon)
    \<and> in_window m (tb_ScoreDelta (normalized_tie_break config)) selected
    \<and> (\<forall>x \<in> set es. in_window m (tb_ScoreDelta (normalized_tie_break config)) x \<longrightarrow>
         priority x < priority selected
         \<or> priority x = priority selected \<and> routing x \<le> f64_add (routing selected) channelPriorityTieBreakScoreEpsilon)"
proof -
  obtain e xs where es: "es = e # xs" using assms(1) by (cases es) auto
  define best where "best = score_best e xs"
  define delta where "delta = tb_ScoreDelta (normalized_tie_break config)"
  define selected where "selected = foldl (tie_break_step (routing best) delta) best (e # xs)"
  have best: "best \<in> set es" using score_best_member [of e xs] by (simp add: best_def es)
  have w: "in_window (routing best) delta best" by (simp add: delta_def best_in_window)
  have v: "list_all valued (best # es)" using assms(2) best by (auto simp: list_all_iff)
  have f: "selected \<in> insert best (set es)" "in_window (routing best) delta selected"
    "\<forall>x \<in> set es. in_window (routing best) delta x \<longrightarrow> priority x \<le> priority selected"
    using tie_break_fold [OF w, of es] unfolding selected_def es by blast+
  have s: "\<forall>x \<in> set es. in_window (routing best) delta x \<longrightarrow> priority x = priority selected \<longrightarrow>
      routing x \<le> f64_add (routing selected) channelPriorityTieBreakScoreEpsilon"
    using tie_break_score [OF w v] unfolding selected_def es by simp
  have high: "\<forall>x \<in> set es. routing x \<le> f64_add (routing best) channelPriorityTieBreakScoreEpsilon"
    using score_best_top [of e xs] assms(2) unfolding es best_def by blast
  have "selectCandidateByRoutingScoreAndChannelPriority config es = Some (selected, \<not> candidateEvaluationMatches selected best)"
    unfolding es select_shape [OF assms(3)] by (simp add: Let_def selected_def best_def delta_def)
  moreover have "selected \<in> set es" using f(1) best by auto
  ultimately show ?thesis using best f(2,3) s high unfolding delta_def by (metis imageI order_le_imp_less_or_eq)
qed

section \<open>Cheapest candidates\<close>

lemma baseline_props:
  "costFirstGuardBaselineCandidate es = Some b \<Longrightarrow>
     b \<in> set es \<and> 0 < cost_of b \<and> (\<forall>x \<in> set es. 0 < cost_of x \<longrightarrow> cost_of b \<le> cost_of x)"
  "costFirstGuardBaselineCandidate es = None \<Longrightarrow> x \<in> set es \<Longrightarrow> cost_of x \<le> 0"
proof -
  have "(case costFirstGuardBaselineCandidate es of
      None \<Rightarrow> \<forall>x \<in> set es. cost_of x \<le> 0
    | Some b \<Rightarrow> b \<in> set es \<and> 0 < cost_of b \<and> (\<forall>x \<in> set es. 0 < cost_of x \<longrightarrow> cost_of b \<le> cost_of x))"
  proof (induction es rule: rev_induct)
    case Nil
    then show ?case by (simp add: costFirstGuardBaselineCandidate_def)
  next
    case (snoc y es)
    have step: "costFirstGuardBaselineCandidate (es @ [y]) =
        (if cost_of y \<le> 0 then costFirstGuardBaselineCandidate es
         else case costFirstGuardBaselineCandidate es of None \<Rightarrow> Some y
           | Some b \<Rightarrow> if cost_of y < cost_of b \<or> cost_of y = cost_of b \<and> routing y > routing b then Some y else Some b)"
      by (simp add: costFirstGuardBaselineCandidate_def)
    show ?case using snoc.IH unfolding step by (auto split: option.splits if_splits)
  qed
  then show "costFirstGuardBaselineCandidate es = Some b \<Longrightarrow>
     b \<in> set es \<and> 0 < cost_of b \<and> (\<forall>x \<in> set es. 0 < cost_of x \<longrightarrow> cost_of b \<le> cost_of x)"
    and "costFirstGuardBaselineCandidate es = None \<Longrightarrow> x \<in> set es \<Longrightarrow> cost_of x \<le> 0"
    by auto
qed

lemma guard_baseline:
  "costFirstGuardCandidate sel policy selected es intent = Some g \<Longrightarrow>
     costFirstGuardBaselineCandidate es = Some (gr_baseline g)"
  by (auto simp: costFirstGuardCandidate_def Let_def split: if_splits option.splits)

lemma escape_member:
  assumes "costFirstStickyEscapeCandidate sel policy route sticky es = (Some x, d)"
  shows "x \<in> set es"
proof -
  have "fst (foldl (escape_step config costRatio speedDrop sticky stickyCost stickySpeed) (None, None) es) = Some (x, d')
      \<Longrightarrow> x \<in> set es" for config costRatio speedDrop stickyCost stickySpeed d'
  proof (induction es arbitrary: x d' rule: rev_induct)
    case (snoc y es)
    then show ?case
      by (auto simp: escape_step_def split: prod.splits option.splits if_splits)
  qed simp
  with assms show ?thesis
    by (auto simp: costFirstStickyEscapeCandidate_def Let_def split: if_splits option.splits prod.splits)
      (metis fst_conv)+
qed

section \<open>Choices\<close>

definition free :: "evaluation list \<Rightarrow> evaluation list" where
  "free usable = filter (\<lambda>e. \<not> routingConcurrencySaturated (ev_snapshot e)) usable"

text \<open>
  The contract of a choice: the chosen candidate is one of the usable ones, its saturation is
  recorded, and it is saturated only when they all are.
\<close>

definition route_ok :: "evaluation list \<Rightarrow> chosen \<Rightarrow> bool" where
  "route_ok usable n \<longleftrightarrow>
     (\<exists>e \<in> set usable. ev_candidate (cn_best n) = ev_candidate e \<and> ev_snapshot (cn_best n) = ev_snapshot e)
     \<and> cn_saturated n = routingConcurrencySaturated (ev_snapshot (cn_best n))
     \<and> (cn_saturated n \<longrightarrow> free usable = [])"

locale choice_step =
  fixes step :: "evaluation list \<Rightarrow> chosen \<Rightarrow> chosen"
  assumes keeps: "route_ok usable n \<Longrightarrow> route_ok usable (step usable n)"
begin

lemma serves_usable:
  assumes "route_ok usable n"
  shows "\<exists>e \<in> set usable. ev_candidate (cn_best (step usable n)) = ev_candidate e \<and> ev_snapshot (cn_best (step usable n)) = ev_snapshot e"
  using keeps [OF assms] by (simp add: route_ok_def)

lemma free_is_preferred:
  assumes "route_ok usable n" and "e \<in> set usable" and "\<not> routingConcurrencySaturated (ev_snapshot e)"
  shows "\<not> cn_saturated (step usable n)"
  using keeps [OF assms(1)] assms(2,3) by (auto simp: route_ok_def free_def filter_empty_conv)

lemma repeats: "route_ok usable n \<Longrightarrow> route_ok usable ((step usable ^^ k) n)"
  by (induction k) (simp_all add: keeps)

end

lemma with_reason_fields [simp]:
  "ev_candidate (with_reason r e) = ev_candidate e" "ev_snapshot (with_reason r e) = ev_snapshot e"
  by (simp_all add: with_reason_def)

lemma route_ok_free: "e \<in> set (free usable) \<Longrightarrow> route_ok usable (n\<lparr>cn_best := with_reason r e, cn_saturated := False\<rparr>)"
  "e \<in> set (free usable) \<Longrightarrow> route_ok usable (n\<lparr>cn_best := e, cn_saturated := False\<rparr>)"
  by (auto simp: route_ok_def free_def)

lemma route_ok_other [simp]:
  "route_ok usable (n\<lparr>cn_guard := g\<rparr>) = route_ok usable n"
  "route_ok usable (n\<lparr>cn_stickyBreak := b\<rparr>) = route_ok usable n"
  "route_ok usable (n\<lparr>cn_stickyDecision := d\<rparr>) = route_ok usable n"
  by (simp_all add: route_ok_def)

lemma guard_keeps: "route_ok usable n \<Longrightarrow> route_ok usable (apply_guard sel policy (free usable) intent n)"
  by (auto simp: apply_guard_def dest!: guard_baseline baseline_props(1) split: option.splits intro: route_ok_free)

interpretation guard: choice_step "\<lambda>usable. apply_guard sel policy (free usable) intent" for sel policy intent
  by unfold_locales (rule guard_keeps)

lemma retain_keeps:
  assumes "found \<in> set usable" and "\<not> (routingConcurrencySaturated (ev_snapshot found) \<and> free usable \<noteq> [])"
  shows "route_ok usable (retain_sticky route found n)"
  using assms by (auto simp: route_ok_def retain_sticky_def)

lemma sticky_keeps:
  assumes n: "route_ok usable n" and f: "found \<in> set usable"
  shows "route_ok usable (apply_sticky sel policy route found (free usable) intent n)"
proof (cases "routingConcurrencySaturated (ev_snapshot found) \<and> free usable \<noteq> []")
  case True
  with n show ?thesis by (simp add: apply_sticky_def Let_def)
next
  case False
  note keep = retain_keeps [OF f False]
  obtain x d where e: "costFirstStickyEscapeCandidate sel policy route found (free usable) = (x, d)" by fastforce
  have esc: "x = Some y \<Longrightarrow> y \<in> set (free usable)" for y using e by (auto intro: escape_member)
  have base: "costFirstGuardCandidate sel policy found (free usable) intent = Some g \<Longrightarrow> gr_baseline g \<in> set (free usable)" for g
    by (auto dest!: guard_baseline baseline_props(1))
  show ?thesis
    using n False keep esc base unfolding apply_sticky_def Let_def e
    by (auto split: option.split intro: route_ok_free)
qed

definition sticky_step ::
  "selector \<Rightarrow> smart_policy \<Rightarrow> sticky_route \<Rightarrow> retry_routing_intent option \<Rightarrow> evaluation list \<Rightarrow> chosen \<Rightarrow> chosen" where
  "sticky_step sel policy route intent usable n =
     (case sticky_found usable of None \<Rightarrow> n | Some found \<Rightarrow> apply_sticky sel policy route found (free usable) intent n)"

lemma sticky_found_member: "sticky_found usable = Some x \<Longrightarrow> x \<in> set usable \<and> ev_stickyMatched x"
  using last_in_set [of "filter ev_stickyMatched usable"]
  by (auto simp: sticky_found_def split: list.splits if_splits)

interpretation sticky: choice_step "sticky_step sel policy route intent" for sel policy route intent
  by unfold_locales (auto simp: sticky_step_def split: option.split dest: sticky_found_member intro: sticky_keeps)

lemma own_reason_keeps: "route_ok usable n \<Longrightarrow> route_ok usable (own_reason e used n)"
  by (simp add: own_reason_def route_ok_def)

interpretation tie_break: choice_step "\<lambda>usable. own_reason e used" for e used
  by unfold_locales (rule own_reason_keeps)

text \<open>The choice the steps start from, and the whole decision.\<close>

lemma start_ok:
  assumes "selectCandidateByRoutingScoreAndChannelPriority config
      (if free usable \<noteq> [] then free usable else filter (\<lambda>e. routingConcurrencySaturated (ev_snapshot e)) usable) = Some (best, used)"
  shows "route_ok usable \<lparr>cn_best = best, cn_saturated = (free usable = []), cn_guard = g, cn_stickyBreak = b, cn_stickyDecision = d\<rparr>"
  using select_member [OF assms] by (auto simp: route_ok_def free_def split: if_splits)

lemma settle_choice_ok:
  assumes "settle_choice sel policy sticky stickyBreak intent usable = Some (n, best, used)"
  shows "route_ok usable n"
proof -
  let ?n = "\<lparr>cn_best = best, cn_saturated = (free usable = []), cn_guard = None, cn_stickyBreak = stickyBreak, cn_stickyDecision = None\<rparr>"
  from assms have sel: "selectCandidateByRoutingScoreAndChannelPriority (sl_tieBreakConfig sel)
      (if free usable \<noteq> [] then free usable else filter (\<lambda>e. routingConcurrencySaturated (ev_snapshot e)) usable) = Some (best, used)"
    and n: "n = (case sticky of None \<Rightarrow> apply_guard sel policy (free usable) intent ?n
      | Some route \<Rightarrow> (case sticky_found usable of
          None \<Rightarrow> let n = apply_guard sel policy (free usable) intent ?n in
            if cn_stickyBreak n = [] then n\<lparr>cn_stickyBreak := ''candidate_not_found''\<rparr> else n
        | Some found \<Rightarrow> apply_sticky sel policy route found (free usable) intent ?n))"
    by (auto simp: settle_choice_def free_def [symmetric] Let_def split: option.splits prod.splits if_splits)
  note start = start_ok [OF sel, of None stickyBreak None]
  show ?thesis
    using guard.keeps [OF start] sticky.keeps [OF start]
    by (auto simp: n sticky_step_def Let_def split: option.splits)
qed

section \<open>Judging\<close>

text \<open>The candidates of a pool with the snapshots they are judged by.\<close>

definition pool :: "selector \<Rightarrow> smart_policy \<Rightarrow> candidate list \<Rightarrow> (candidate \<times> runtime_snapshot) set" where
  "pool sel policy cands = (\<lambda>x. (x, live_snapshot sel policy x)) ` set cands"

text \<open>Channels of the pool the client's session is being kept away from.\<close>

definition avoided_candidate :: "time \<Rightarrow> select_request \<Rightarrow> route_world \<Rightarrow> candidate \<Rightarrow> runtime_snapshot \<Rightarrow> bool" where
  "avoided_candidate now req w cand s \<longleftrightarrow>
     (\<exists>t k. rw_switch w = Some t \<and> clientEmptyOutputSwitchKeyFromCandidate req cand s = Some k \<and> avoided t now k)"

definition switched :: "time \<Rightarrow> select_request \<Rightarrow> (candidate \<times> runtime_snapshot) set \<Rightarrow> route_world \<Rightarrow> int set" where
  "switched now req cs w = {switchedChannelID cand s |cand s. (cand, s) \<in> cs \<and> avoided_candidate now req w cand s}"

text \<open>
  Judging candidates only adds the skip marks of such channels to the request and drops expired
  balance marks; breaker, router and the answers of the tracker stay.
\<close>

definition grows ::
  "time \<Rightarrow> select_request \<Rightarrow> (candidate \<times> runtime_snapshot) set \<Rightarrow> route_world \<Rightarrow> route_world \<Rightarrow> bool" where
  "grows now req cs w v \<longleftrightarrow>
     (rw_context v)\<lparr>gc_SelectionSkipped := []\<rparr> = (rw_context w)\<lparr>gc_SelectionSkipped := []\<rparr>
     \<and> set (gc_SelectionSkipped (rw_context w)) \<subseteq> set (gc_SelectionSkipped (rw_context v))
     \<and> set (gc_SelectionSkipped (rw_context v)) \<subseteq> set (gc_SelectionSkipped (rw_context w)) \<union> switched now req cs w
     \<and> same_marks now (rw_balance w) (rw_balance v)
     \<and> avoided_candidate now req v = avoided_candidate now req w
     \<and> rw_breaker v = rw_breaker w \<and> rw_router v = rw_router w"

lemma grows_refl [simp]: "grows now req cs w w"
  by (simp add: grows_def)

lemma grows_rest:
  assumes "grows now req cs w v"
  shows "(rw_context v)\<lparr>gc_SelectionSkipped := []\<rparr> = (rw_context w)\<lparr>gc_SelectionSkipped := []\<rparr>"
    "set (gc_SelectionSkipped (rw_context w)) \<subseteq> set (gc_SelectionSkipped (rw_context v))"
    "set (gc_SelectionSkipped (rw_context v)) \<subseteq> set (gc_SelectionSkipped (rw_context w)) \<union> switched now req cs w"
    "same_marks now (rw_balance w) (rw_balance v)" "avoided_candidate now req v = avoided_candidate now req w"
    "rw_breaker v = rw_breaker w" "rw_router v = rw_router w"
  using assms unfolding grows_def by blast+

lemma grows_switched: "grows now req cs w v \<Longrightarrow> switched now req cs v = switched now req cs w"
  by (simp add: switched_def grows_rest(5))

lemma grows_trans:
  assumes "grows now req cs w v" and "grows now req cs v u"
  shows "grows now req cs w u"
proof -
  have "same_marks now (rw_balance w) (rw_balance u)"
    using grows_rest(4) [OF assms(1)] grows_rest(4) [OF assms(2)] by (rule same_marks_trans)
  moreover have "set (gc_SelectionSkipped (rw_context u)) \<subseteq> set (gc_SelectionSkipped (rw_context w)) \<union> switched now req cs w"
    using grows_rest(3) [OF assms(1)] grows_rest(3) [OF assms(2)] grows_switched [OF assms(1)] by blast
  ultimately show ?thesis
    unfolding grows_def using grows_rest [OF assms(1)] grows_rest [OF assms(2)] by simp
qed

lemma grows_mono: "grows now req cs w v \<Longrightarrow> cs \<subseteq> ds \<Longrightarrow> grows now req ds w v"
  unfolding grows_def switched_def by fast

lemma ask_switch_grows:
  assumes "zero_time \<le> now"
  shows "grows now req cs w (snd (ask_switch now req cand s w))"
proof (cases "rw_switch w")
  case (Some t)
  then show ?thesis
    using AvoidanceReason_quiet [OF assms, of req cand s t]
    by (auto simp: ask_switch_def grows_def avoided_candidate_def fun_eq_iff split: prod.split)
qed (simp add: ask_switch_def)

lemma balance_reason_quiet:
  "same_marks now b (snd (balance_reason now cand i b))"
  "same_marks now b c \<Longrightarrow> fst (balance_reason now cand i c) = fst (balance_reason now cand i b)"
proof -
  define known where "known = (\<lambda>x. case cd_Channel cand of None \<Rightarrow> (False, x) | Some ch \<Rightarrow> IsKnownBalanceInsufficientChannel now ch x)"
  have step: "balance_reason now cand i x =
      (if IsChannelRuntimeBalanceSkipped x i then (True, x)
       else if fst (known x) then (True, snd (known x))
       else IsRuntimeBalanceInsufficientIdentity now i (snd (known x)))" for x
  proof -
    obtain a y where k: "known x = (a, y)" by fastforce
    show ?thesis by (cases a) (simp_all add: balance_reason_def k k [unfolded known_def])
  qed
  have known: "same_marks now x (snd (known x))" "same_marks now b x \<Longrightarrow> fst (known x) = fst (known b)" for x
    using read_known by (auto simp: known_def split: option.split)
  show "same_marks now b (snd (balance_reason now cand i b))"
    using known(1) [of b] read_identity(1) [of now "snd (known b)" i] by (auto simp: step intro: same_marks_trans)
  assume c: "same_marks now b c"
  then have "IsChannelRuntimeBalanceSkipped c i = IsChannelRuntimeBalanceSkipped b i"
    by (simp add: IsChannelRuntimeBalanceSkipped_def IsChannelBalanceSkipped_def same_marks_def)
  moreover have "fst (IsRuntimeBalanceInsufficientIdentity now i (snd (known c))) = fst (IsRuntimeBalanceInsufficientIdentity now i (snd (known b)))"
    using read_identity(2) [of now b "snd (known c)" i] read_identity(2) [of now b "snd (known b)" i] known(1) c same_marks_trans by metis
  ultimately show "fst (balance_reason now cand i c) = fst (balance_reason now cand i b)"
    using known(2) [OF c] by (simp add: step)
qed

lemma basic_grows: "grows now req cs w (snd (basicUnavailableReason now cand s w))"
  using balance_reason_quiet(1) [of now "rw_balance w" cand "serviceRuntimeIdentityFromCandidate cand s"]
  by (auto simp: basicUnavailableReason_def grows_def avoided_candidate_def fun_eq_iff Let_def split: prod.split)

lemma mark_grows:
  "avoided_candidate now req w cand s \<Longrightarrow> (cand, s) \<in> cs \<Longrightarrow>
     grows now req cs w (markClientEmptyOutputSwitchChannelSkipped cand s w)"
  by (auto simp: markClientEmptyOutputSwitchChannelSkipped_def grows_def MarkChannelSelectionSkipped_def switched_def
      avoided_candidate_def fun_eq_iff)

lemma unavailable_grows: "zero_time \<le> now \<Longrightarrow> grows now req cs w (snd (candidateUnavailableReason now req cand s w))"
  using basic_grows [of now req cs w cand s] ask_switch_grows [of now req cs "snd (basicUnavailableReason now cand s w)" cand s]
  by (auto simp: candidateUnavailableReason_def split: prod.splits intro: grows_trans)

lemma ask_switch_exact:
  "fst (ask_switch now req cand s w) = (if avoided_candidate now req w cand s then ClientEmptyOutputSwitchReason else [])"
proof (cases "rw_switch w")
  case (Some t)
  obtain r u where a: "AvoidanceReason now req cand s t = (r, u)" by fastforce
  then show ?thesis
    using AvoidanceReason_exact [of now req cand s t] Some by (simp add: ask_switch_def avoided_candidate_def split: option.splits)
qed (simp add: ask_switch_def avoided_candidate_def)

lemma basic_not_switched: "fst (basicUnavailableReason now cand s w) \<noteq> ClientEmptyOutputSwitchReason"
  by (auto simp: basicUnavailableReason_def static_reason_def ClientEmptyOutputSwitchReason_def ChannelTimeoutRecoveryReason_def
      ChannelOverloadRecoveryReason_def ChannelStatusReasonBalanceInsufficient_def Let_def split: prod.split)

lemma switched_reason:
  assumes "candidateUnavailableReason now req cand s w = (ClientEmptyOutputSwitchReason, v)"
  shows "avoided_candidate now req w cand s"
proof -
  obtain r u where b: "basicUnavailableReason now cand s w = (r, u)" by fastforce
  have "r \<noteq> ClientEmptyOutputSwitchReason" using basic_not_switched [of now cand s w] b by simp
  with assms b have "fst (ask_switch now req cand s u) = ClientEmptyOutputSwitchReason"
    by (auto simp: candidateUnavailableReason_def split: prod.splits if_splits)
  moreover have "avoided_candidate now req u = avoided_candidate now req w"
    using grows_rest(5) [OF basic_grows [of now req "{}" w cand s]] b by simp
  ultimately show ?thesis by (simp add: ask_switch_exact ClientEmptyOutputSwitchReason_def split: if_splits)
qed

lemma judge_grows:
  assumes "zero_time \<le> now" and "(cand, s) \<in> cs"
  shows "grows now req cs w (snd (judge now req cand s w))"
proof -
  obtain r u where u: "candidateUnavailableReason now req cand s w = (r, u)" by fastforce
  have g: "grows now req cs w u" using unavailable_grows [OF assms(1), of req cs w cand s] u by simp
  show ?thesis
  proof (cases "r = ClientEmptyOutputSwitchReason")
    case True
    then have "avoided_candidate now req u cand s" using switched_reason u grows_rest(5) [OF g] by simp
    then show ?thesis using mark_grows [OF _ assms(2)] g u by (auto simp: judge_def intro: grows_trans)
  qed (simp add: judge_def u g)
qed

text \<open>What it takes to be used.\<close>

definition selectable :: "time \<Rightarrow> select_request \<Rightarrow> route_world \<Rightarrow> candidate \<Rightarrow> runtime_snapshot \<Rightarrow> bool" where
  "selectable now req w cand s \<longleftrightarrow>
     \<not> rs_ConfigErrorIsolated s \<and> \<not> rs_CircuitOpen s \<and> \<not> rs_Cooldown s \<and> \<not> rs_FailureAvoidance s
     \<and> (\<forall>ch. cd_Channel cand = Some ch \<longrightarrow> ch_Status ch = 0 \<or> ch_Status ch = 1)
     \<and> \<not> IsChannelRuntimeSelectionSkipped (rw_context w) (serviceRuntimeIdentityFromCandidate cand s)
     \<and> \<not> fst (balance_reason now cand (serviceRuntimeIdentityFromCandidate cand s) (rw_balance w))
     \<and> \<not> avoided_candidate now req w cand s"

lemma skipped_grows:
  assumes "grows now req cs w v"
  shows "IsChannelRuntimeSelectionSkipped (rw_context w) i \<Longrightarrow> IsChannelRuntimeSelectionSkipped (rw_context v) i"
    and "IsChannelRuntimeSelectionSkipped (rw_context v) i \<Longrightarrow>
      IsChannelRuntimeSelectionSkipped (rw_context w) i \<or> Valid i \<and> ri_ChannelID i \<in> switched now req cs w"
proof -
  have "gc_RuntimeSelectionSkipped (rw_context v) = gc_RuntimeSelectionSkipped ((rw_context v)\<lparr>gc_SelectionSkipped := []\<rparr>)"
    by simp
  also have "\<dots> = gc_RuntimeSelectionSkipped (rw_context w)" by (simp add: grows_rest(1) [OF assms])
  finally have r: "gc_RuntimeSelectionSkipped (rw_context v) = gc_RuntimeSelectionSkipped (rw_context w)" .
  show "IsChannelRuntimeSelectionSkipped (rw_context w) i \<Longrightarrow> IsChannelRuntimeSelectionSkipped (rw_context v) i"
    and "IsChannelRuntimeSelectionSkipped (rw_context v) i \<Longrightarrow>
      IsChannelRuntimeSelectionSkipped (rw_context w) i \<or> Valid i \<and> ri_ChannelID i \<in> switched now req cs w"
    using grows_rest(2,3) [OF assms] unfolding IsSkipped_iff r by blast+
qed

lemma selectable_grows:
  assumes g: "grows now req cs w v"
  shows "selectable now req v cand s \<Longrightarrow> selectable now req w cand s"
    and "selectable now req w cand s \<Longrightarrow> selectable now req v cand s
      \<or> ri_ChannelID (serviceRuntimeIdentityFromCandidate cand s) \<in> switched now req cs w"
proof -
  have e: "avoided_candidate now req v cand s = avoided_candidate now req w cand s"
    "fst (balance_reason now cand i (rw_balance v)) = fst (balance_reason now cand i (rw_balance w))" for i
    using grows_rest(5) [OF g] balance_reason_quiet(2) [OF grows_rest(4) [OF g]] by simp_all
  show "selectable now req v cand s \<Longrightarrow> selectable now req w cand s"
    and "selectable now req w cand s \<Longrightarrow> selectable now req v cand s
      \<or> ri_ChannelID (serviceRuntimeIdentityFromCandidate cand s) \<in> switched now req cs w"
    using skipped_grows [OF g, of "serviceRuntimeIdentityFromCandidate cand s"] unfolding selectable_def e by blast+
qed

lemma static_reason_empty:
  "static_reason c cand i s = [] \<longleftrightarrow> \<not> rs_CircuitOpen s \<and> \<not> rs_Cooldown s \<and> \<not> rs_FailureAvoidance s
     \<and> \<not> IsChannelRuntimeSelectionSkipped c i \<and> (\<forall>ch. cd_Channel cand = Some ch \<longrightarrow> ch_Status ch = 0 \<or> ch_Status ch = 1)"
  by (auto simp: static_reason_def ChannelTimeoutRecoveryReason_def ChannelOverloadRecoveryReason_def split: if_splits option.splits)

text \<open>A candidate is used exactly when no reason speaks against it.\<close>

lemma judge_selectable: "fst (judge now req cand s w) = [] \<longleftrightarrow> selectable now req w cand s"
proof -
  let ?i = "serviceRuntimeIdentityFromCandidate cand s"
  obtain r u where b: "basicUnavailableReason now cand s w = (r, u)" by fastforce
  have r: "r = [] \<longleftrightarrow> \<not> rs_ConfigErrorIsolated s \<and> \<not> fst (balance_reason now cand ?i (rw_balance w))
      \<and> static_reason (rw_context w) cand ?i s = []"
    using b by (auto simp: basicUnavailableReason_def ChannelStatusReasonBalanceInsufficient_def Let_def split: prod.splits if_splits)
  obtain q t where a: "ask_switch now req cand s u = (q, t)" by fastforce
  have "q = [] \<longleftrightarrow> \<not> avoided_candidate now req u cand s"
    using ask_switch_exact [of now req cand s u] a by (simp add: ClientEmptyOutputSwitchReason_def)
  then have q: "q = [] \<longleftrightarrow> \<not> avoided_candidate now req w cand s"
    using grows_rest(5) [OF basic_grows [of now req "{}" w cand s]] b by simp
  have "fst (judge now req cand s w) = [] \<longleftrightarrow> r = [] \<and> q = []"
    by (auto simp: judge_def candidateUnavailableReason_def a b)
  then show ?thesis unfolding r q static_reason_empty selectable_def by blast
qed

section \<open>Whole selections\<close>

definition live :: "selector \<Rightarrow> smart_policy \<Rightarrow> evaluation \<Rightarrow> bool" where
  "live sel policy e \<longleftrightarrow> ev_snapshot e = live_snapshot sel policy (ev_candidate e)"

lemma prepare_step:
  assumes "prepare_candidates sel now req policy sticky (cand # cands) p w = (p', v)"
    and "judge now req cand (live_snapshot sel policy cand) w = (r, u)"
  obtains q e where "prepare_candidates sel now req policy sticky cands q u = (p', v)"
    "pr_evaluations q = pr_evaluations p @ [e]" "ev_candidate e = cand" "live sel policy e" "ev_rejectReason e = r"
proof
  let ?q = "snd (Pair (0 :: nat) \<lparr>pr_evaluations = pr_evaluations p @
      [\<lparr>ev_candidate = cand, ev_snapshot = live_snapshot sel policy cand, ev_score = zero_score,
        ev_stickyMatched = (case sticky of None \<Rightarrow> False | Some route \<Rightarrow> isStickyCandidate cand route), ev_rejectReason = r\<rparr>],
    pr_stickyBreak = (if (case sticky of None \<Rightarrow> False | Some route \<Rightarrow> isStickyCandidate cand route)
        \<and> pr_stickyBreak p = [] \<and> r \<noteq> [] then r else pr_stickyBreak p),
    pr_costReferenceRatio = lowest_reference sticky (live_snapshot sel policy cand) (pr_costReferenceRatio p)\<rparr>)"
  show "prepare_candidates sel now req policy sticky cands ?q u = (p', v)" using assms by (simp add: Let_def)
  show "pr_evaluations ?q = pr_evaluations p @
      [\<lparr>ev_candidate = cand, ev_snapshot = live_snapshot sel policy cand, ev_score = zero_score,
        ev_stickyMatched = (case sticky of None \<Rightarrow> False | Some route \<Rightarrow> isStickyCandidate cand route), ev_rejectReason = r\<rparr>]"
    by simp
qed (simp_all add: live_def)

text \<open>
  Every candidate is evaluated with its live snapshot; one without a reject reason may be used,
  and one with a reason may not, or its channel was just marked for the switched session.
\<close>

definition rejected ::
  "time \<Rightarrow> select_request \<Rightarrow> (candidate \<times> runtime_snapshot) set \<Rightarrow> route_world \<Rightarrow> candidate \<Rightarrow> runtime_snapshot \<Rightarrow> bool" where
  "rejected now req cs w cand s \<longleftrightarrow>
     \<not> selectable now req w cand s \<or> ri_ChannelID (serviceRuntimeIdentityFromCandidate cand s) \<in> switched now req cs w"

lemma rejected_grows: "grows now req cs w v \<Longrightarrow> rejected now req cs v cand s \<Longrightarrow> rejected now req cs w cand s"
  using selectable_grows(2) [of now req cs w v cand s] by (auto simp: rejected_def grows_switched)

definition judged ::
  "time \<Rightarrow> select_request \<Rightarrow> (candidate \<times> runtime_snapshot) set \<Rightarrow> route_world \<Rightarrow> evaluation \<Rightarrow> bool" where
  "judged now req cs w e \<longleftrightarrow>
     (if ev_rejectReason e = [] then selectable now req w (ev_candidate e) (ev_snapshot e)
      else rejected now req cs w (ev_candidate e) (ev_snapshot e))"

lemma judged_grows: "grows now req cs w v \<Longrightarrow> judged now req cs v e \<Longrightarrow> judged now req cs w e"
  by (auto simp: judged_def intro: selectable_grows(1) rejected_grows)

lemma prepare_evaluations:
  assumes "prepare_candidates sel now req policy sticky cands p w = (p', v)" and "zero_time \<le> now"
    and "pool sel policy cands \<subseteq> cs"
  shows "grows now req cs w v \<and> (\<exists>es. pr_evaluations p' = pr_evaluations p @ es \<and> map ev_candidate es = cands
    \<and> list_all (live sel policy) es \<and> list_all (judged now req cs w) es)"
  using assms(1,3)
proof (induction cands arbitrary: p w)
  case Nil
  then show ?case by simp
next
  case (Cons cand cands)
  let ?s = "live_snapshot sel policy cand"
  obtain r u where j: "judge now req cand ?s w = (r, u)" by fastforce
  have g: "grows now req cs w u"
    using judge_grows [OF assms(2), of cand ?s cs req w] Cons.prems(2) j by (simp add: pool_def)
  obtain q e where q: "prepare_candidates sel now req policy sticky cands q u = (p', v)"
    and e: "pr_evaluations q = pr_evaluations p @ [e]" "ev_candidate e = cand" "live sel policy e" "ev_rejectReason e = r"
    using prepare_step [OF Cons.prems(1) j] by blast
  have "judged now req cs w e"
    using judge_selectable [of now req cand ?s w] j e by (simp add: judged_def rejected_def live_def)
  moreover obtain es where "grows now req cs u v" "pr_evaluations p' = pr_evaluations q @ es" "map ev_candidate es = cands"
      "list_all (live sel policy) es" "list_all (judged now req cs u) es"
    using Cons.IH [OF q] Cons.prems(2) by (auto simp: pool_def)
  ultimately show ?case
    using g e judged_grows [OF g] by (intro conjI exI [of _ "e # es"]) (auto intro: grows_trans simp: list_all_iff)
qed

lemma explain_grows: "zero_time \<le> now \<Longrightarrow> grows now req cs w (explain_rejected now req es w)"
proof -
  assume now: "zero_time \<le> now"
  show ?thesis
    unfolding explain_rejected_def
    by (induction es rule: rev_induct) (auto intro: grows_trans ask_switch_grows [OF now])
qed

lemma score_evaluation_fields:
  "ev_candidate (score_evaluation sel policy intent r e) = ev_candidate e"
  "ev_stickyMatched (score_evaluation sel policy intent r e) = ev_stickyMatched e"
  "\<exists>c. ev_snapshot (score_evaluation sel policy intent r e) = (ev_snapshot e)\<lparr>rs_CostReferenceRatio := c\<rparr>"
proof -
  show "\<exists>c. ev_snapshot (score_evaluation sel policy intent r e) = (ev_snapshot e)\<lparr>rs_CostReferenceRatio := c\<rparr>"
  proof (cases "costReferenceForCandidate sel (ev_candidate e) (ev_snapshot e) policy r")
    case None
    then show ?thesis by (intro exI [of _ "rs_CostReferenceRatio (ev_snapshot e)"]) (simp add: score_evaluation_def)
  qed (auto simp: score_evaluation_def Let_def)
qed (simp_all add: score_evaluation_def Let_def)

lemma score_evaluation_valued: "valued (score_evaluation sel policy intent r e)"
  by (simp add: valued_def score_evaluation_def Let_def score_valued)

text \<open>Setting the cost reference changes nothing a candidate is judged by.\<close>

lemma selectable_reference: "selectable now req w cand (s\<lparr>rs_CostReferenceRatio := c\<rparr>) = selectable now req w cand s"
proof -
  have k: "rs_Key (s\<lparr>rs_CostReferenceRatio := c\<rparr>) = rs_Key s" by simp
  have "serviceRuntimeIdentityFromCandidate cand (s\<lparr>rs_CostReferenceRatio := c\<rparr>) = serviceRuntimeIdentityFromCandidate cand s"
    "clientEmptyOutputSwitchKeyFromCandidate req cand (s\<lparr>rs_CostReferenceRatio := c\<rparr>) = clientEmptyOutputSwitchKeyFromCandidate req cand s"
    by (simp_all only: serviceRuntimeIdentityFromCandidate_def clientEmptyOutputSwitchKeyFromCandidate_def k)
  then show ?thesis by (simp add: selectable_def avoided_candidate_def)
qed

lemma saturated_reference [simp]: "routingConcurrencySaturated (s\<lparr>rs_CostReferenceRatio := c\<rparr>) = routingConcurrencySaturated s"
  by (simp add: routingConcurrencySaturated_def routingConcurrencyLimit_def)

lemma own_reason_fields [simp]:
  "ev_candidate (cn_best (own_reason b used n)) = ev_candidate (cn_best n)"
  "ev_snapshot (cn_best (own_reason b used n)) = ev_snapshot (cn_best n)" "cn_saturated (own_reason b used n) = cn_saturated n"
  "cn_guard (own_reason b used n) = cn_guard n"
  by (simp_all add: own_reason_def)

text \<open>Everything a successful selection went through.\<close>

lemma ask_route_keeps:
  assumes "ask_route now c req policy extracted w = (sticky, v)"
  shows "rw_breaker v = rw_breaker w" "selectable now req v = selectable now req w" "rejected now req cs v = rejected now req cs w"
proof -
  have v: "rw_context v = rw_context w" "rw_balance v = rw_balance w" "rw_switch v = rw_switch w" "rw_breaker v = rw_breaker w"
    using assms by (auto simp: ask_route_def split: option.splits prod.splits)
  then show "rw_breaker v = rw_breaker w" "selectable now req v = selectable now req w" "rejected now req cs v = rejected now req cs w"
    by (simp_all add: fun_eq_iff rejected_def selectable_def switched_def avoided_candidate_def)
qed

lemma select_protected_selected:
  assumes sel: "select_protected sel now turn c extracted req policy cands d w = (Selected plan, w')" and now: "zero_time \<le> now"
  obtains n usable v where "route_ok usable n"
    "plan = broken_reason (make_plan policy (fst (ask_route now c req policy extracted w)) (dr_RetryRoutingIntent req) d n)"
    "\<forall>e \<in> set usable. ev_candidate e \<in> set cands \<and> selectable now req w (ev_candidate e) (ev_snapshot e)
       \<and> (\<exists>r. ev_snapshot e = (live_snapshot sel policy (ev_candidate e))\<lparr>rs_CostReferenceRatio := r\<rparr>)"
    "reserve_probe sel now (ev_snapshot (cn_best n)) v = (True, snd (reserve_probe sel now (ev_snapshot (cn_best n)) v))"
    "rw_breaker v = rw_breaker w" "rw_breaker w' = rw_breaker (snd (reserve_probe sel now (ev_snapshot (cn_best n)) v))"
    "\<forall>x \<in> set cands. (\<exists>e \<in> set usable. \<exists>r. ev_snapshot e = (live_snapshot sel policy x)\<lparr>rs_CostReferenceRatio := r\<rparr>)
       \<or> rejected now req (pool sel policy cands) w x (live_snapshot sel policy x)"
proof -
  let ?cs = "pool sel policy cands"
  obtain sticky w1 where r: "ask_route now c req policy extracted w = (sticky, w1)" by fastforce
  obtain p w2 where p: "prepare_candidates sel now req policy sticky cands
      \<lparr>pr_evaluations = [], pr_stickyBreak = [], pr_costReferenceRatio = 0\<rparr> w1 = (p, w2)" by fastforce
  define w3 where "w3 = explain_rejected now req (pr_evaluations p) w2"
  define usable where "usable = map (score_evaluation sel policy (dr_RetryRoutingIntent req) (pr_costReferenceRatio p))
    (filter (\<lambda>e. ev_rejectReason e = []) (pr_evaluations p))"
  from sel r p obtain n0 best used where s: "settle_choice sel policy sticky (pr_stickyBreak p) (dr_RetryRoutingIntent req) usable = Some (n0, best, used)"
    by (auto simp: select_protected_def w3_def usable_def Let_def split: if_splits option.splits)
  define n where "n = own_reason best used n0"
  obtain granted w4 where g: "reserve_probe sel now (ev_snapshot (cn_best n)) w3 = (granted, w4)" by fastforce
  from sel r p s g have granted: "granted"
    and plan: "plan = broken_reason (make_plan policy sticky (dr_RetryRoutingIntent req) d n)"
    and w': "w' = save_route now turn c req (make_plan policy sticky (dr_RetryRoutingIntent req) d n) w4"
    by (auto simp: select_protected_def w3_def [symmetric] usable_def [symmetric] n_def Let_def split: if_splits)
  note w1 = ask_route_keeps [OF r]
  have prep: "grows now req ?cs w1 w2" "map ev_candidate (pr_evaluations p) = cands"
    "list_all (live sel policy) (pr_evaluations p)" "list_all (judged now req ?cs w1) (pr_evaluations p)"
    using prepare_evaluations [OF p now order_refl] by auto
  have "rw_breaker w3 = rw_breaker w"
    using grows_rest(6) [OF explain_grows [OF now, of req ?cs w2 "pr_evaluations p"]] grows_rest(6) [OF prep(1)] w1(1)
    by (simp add: w3_def)
  moreover have "\<forall>e \<in> set usable. ev_candidate e \<in> set cands \<and> selectable now req w (ev_candidate e) (ev_snapshot e)
       \<and> (\<exists>r. ev_snapshot e = (live_snapshot sel policy (ev_candidate e))\<lparr>rs_CostReferenceRatio := r\<rparr>)"
  proof
    fix e assume "e \<in> set usable"
    then obtain e0 where e: "e = score_evaluation sel policy (dr_RetryRoutingIntent req) (pr_costReferenceRatio p) e0"
      and e0: "e0 \<in> set (pr_evaluations p)" "ev_rejectReason e0 = []" by (auto simp: usable_def)
    obtain q where q: "ev_snapshot e = (ev_snapshot e0)\<lparr>rs_CostReferenceRatio := q\<rparr>"
      using score_evaluation_fields(3) unfolding e by blast
    have "ev_candidate e0 \<in> set cands" using e0(1) prep(2) by (metis imageI list.set_map)
    moreover have "live sel policy e0" "judged now req ?cs w1 e0" using e0(1) prep(3,4) by (auto simp: list_all_iff)
    ultimately show "ev_candidate e \<in> set cands \<and> selectable now req w (ev_candidate e) (ev_snapshot e)
       \<and> (\<exists>r. ev_snapshot e = (live_snapshot sel policy (ev_candidate e))\<lparr>rs_CostReferenceRatio := r\<rparr>)"
      using q e0(2) w1(2) by (auto simp: e score_evaluation_fields selectable_reference live_def judged_def)
  qed
  moreover have "\<forall>x \<in> set cands. (\<exists>e \<in> set usable. \<exists>r. ev_snapshot e = (live_snapshot sel policy x)\<lparr>rs_CostReferenceRatio := r\<rparr>)
       \<or> rejected now req ?cs w x (live_snapshot sel policy x)"
  proof
    fix x assume "x \<in> set cands"
    then obtain e where e: "e \<in> set (pr_evaluations p)" "ev_candidate e = x" by (metis imageE list.set_map prep(2))
    with prep have l: "ev_snapshot e = live_snapshot sel policy x" and j: "judged now req ?cs w1 e"
      by (auto simp: list_all_iff live_def)
    show "(\<exists>e \<in> set usable. \<exists>r. ev_snapshot e = (live_snapshot sel policy x)\<lparr>rs_CostReferenceRatio := r\<rparr>)
       \<or> rejected now req ?cs w x (live_snapshot sel policy x)"
    proof (cases "ev_rejectReason e = []")
      case True
      with e l score_evaluation_fields(3) [of sel policy "dr_RetryRoutingIntent req" "pr_costReferenceRatio p" e]
      show ?thesis by (force simp: usable_def)
    qed (use j e l w1(3) in \<open>simp add: judged_def\<close>)
  qed
  moreover have "route_ok usable n"
    unfolding n_def using settle_choice_ok [OF s] by (rule tie_break.keeps)
  moreover have "rw_breaker w' = rw_breaker w4" by (simp add: w' save_route_def split: option.split)
  ultimately show thesis using that [of usable n w3] plan granted g by (simp add: r)
qed

lemma broken_reason_fields [simp]:
  "sp_Candidate (broken_reason p) = sp_Candidate p" "dp_Channel (broken_reason p) = dp_Channel p"
  "dp_QueueWaitMs (broken_reason p) = dp_QueueWaitMs p" "dp_QueueEnabled (broken_reason p) = dp_QueueEnabled p"
  "dp_RuntimeKey (broken_reason p) = dp_RuntimeKey p" "sp_ProtectionRole (broken_reason p) = sp_ProtectionRole p"
  by (simp_all add: broken_reason_def)

lemma make_plan_fields [simp]:
  "sp_Candidate (make_plan policy sticky intent d n) = ev_candidate (cn_best n)"
  "dp_Channel (make_plan policy sticky intent d n) = map_option ch_Id (cd_Channel (ev_candidate (cn_best n)))"
  "dp_QueueWaitMs (make_plan policy sticky intent d n) = selectedQueueWaitMs (ev_snapshot (cn_best n)) policy (cn_saturated n) d"
  "dp_QueueEnabled (make_plan policy sticky intent d n) = protection_queueEnabled d (cn_saturated n) policy"
  "dp_RuntimeKey (make_plan policy sticky intent d n) = rs_Key (ev_snapshot (cn_best n))"
  "sp_ProtectionRole (make_plan policy sticky intent d n) = pd_Role d"
  by (simp_all add: make_plan_def Let_def)

text \<open>Protection hands on candidates of the pool and changes the world by judging only.\<close>

lemma availability_grows:
  "zero_time \<le> now \<Longrightarrow> pool sel policy cands \<subseteq> cs \<Longrightarrow>
     grows now req cs w (snd (resourceProtectionAvailability sel now req policy cands w))"
proof (induction cands arbitrary: w)
  case (Cons cand cands)
  let ?s = "live_snapshot sel policy cand"
  obtain r u where j: "judge now req cand ?s w = (r, u)" by fastforce
  have "grows now req cs w u" using judge_grows [OF Cons.prems(1), of cand ?s cs req w] Cons.prems(2) j by (simp add: pool_def)
  moreover have "pool sel policy cands \<subseteq> cs" using Cons.prems(2) by (simp add: pool_def)
  ultimately show ?case using Cons.IH [OF Cons.prems(1), of u]
    by (auto simp: j Let_def split: prod.splits intro: grows_trans)
qed simp

lemma split_subset:
  "set (fst (splitResourceProtectionCandidates d cands)) \<subseteq> {x \<in> set cands. candidateChannelID x \<in> set (pd_primarySet d)}"
  "set (snd (splitResourceProtectionCandidates d cands)) \<subseteq> set cands"
  by (induction cands) (auto simp: Let_def split: prod.splits if_splits)

lemma pool_mono: "set xs \<subseteq> set ys \<Longrightarrow> pool sel policy xs \<subseteq> pool sel policy ys"
  by (auto simp: pool_def)

lemma admit_grows: "zero_time \<le> now \<Longrightarrow> pool sel policy fallback \<subseteq> cs \<Longrightarrow>
    admit_fallback sel now req policy d fallback w = ((x, d'), v) \<Longrightarrow>
    grows now req cs w v \<and> (x = None \<or> x = Some fallback) \<and> d' = d"
  using availability_grows [of now sel policy fallback cs req w]
  by (auto simp: admit_fallback_def split: prod.splits)

lemma protection_grows:
  assumes "resourceProtectionCandidates sel now req policy cands w = ((Some xs, d), v)" and "zero_time \<le> now"
  shows "grows now req (pool sel policy cands) w v \<and> set xs \<subseteq> set cands"
proof -
  let ?d = "newResourceProtectionDecision policy" and ?cs = "pool sel policy cands"
  obtain ps fs where s: "splitResourceProtectionCandidates ?d cands = (ps, fs)" by fastforce
  have sub: "set ps \<subseteq> set cands" "set fs \<subseteq> set cands" using split_subset [of ?d cands] s by auto
  obtain a b u where av: "resourceProtectionAvailability sel now req policy ps w = ((a, b), u)" by (metis prod.exhaust)
  have g: "grows now req ?cs w u"
    using availability_grows [OF assms(2) pool_mono [OF sub(1), of sel policy], of req w] av by simp
  show ?thesis
    using assms(1) g sub
    by (auto simp: resourceProtectionCandidates_def Let_def s av split: if_splits
        dest!: admit_grows [OF assms(2) pool_mono [OF sub(2)]] intro: grows_trans)
qed

lemma Select_selected:
  assumes "Select sel now turn c extracted req policy0 w = (Selected plan, w')" and "zero_time \<le> now"
  defines "policy \<equiv> filled_policy req policy0"
  obtains xs d v where "resourceProtectionCandidates sel now req policy (sl_Build sel req policy) w = ((Some xs, d), v)"
    "grows now req (pool sel policy (sl_Build sel req policy)) w v" "set xs \<subseteq> set (sl_Build sel req policy)"
    "select_protected sel now turn c extracted req policy xs d v = (Selected plan, w')"
proof -
  from assms(1) obtain xs d v where
    p: "resourceProtectionCandidates sel now req policy (sl_Build sel req policy) w = ((Some xs, d), v)"
    and "select_protected sel now turn c extracted req policy xs d v = (Selected plan, w')"
    by (auto simp: Select_def policy_def Let_def split: if_splits prod.splits option.splits)
  with protection_grows [OF p assms(2)] that show thesis by blast
qed

end
