(* ===== verification/Route_Guarantees.thy ===== *)
theory Route_Guarantees
  imports Route_Properties
begin

text \<open>
  The guarantees of a whole selection and of its cost guard: who may be served, when a request
  waits, who comes first under resource protection, what a cost-first choice may cost and that a
  half-open circuit is entered with a probe slot only.
\<close>

section \<open>From the choice to the plan\<close>

lemma reference_key [simp]:
  "rs_Key (s\<lparr>rs_CostReferenceRatio := c\<rparr>) = rs_Key s" "rs_CircuitState (s\<lparr>rs_CostReferenceRatio := c\<rparr>) = rs_CircuitState s"
  by simp_all

lemma selected_from_pool:
  assumes sel: "select_protected sel now turn c extracted req policy cands d w = (Selected plan, w')" and now: "zero_time \<le> now"
  defines "s \<equiv> live_snapshot sel policy (sp_Candidate plan)"
  shows "sp_Candidate plan \<in> set cands" "selectable now req w (sp_Candidate plan) s"
    "dp_Channel plan = map_option ch_Id (cd_Channel (sp_Candidate plan))" "dp_RuntimeKey plan = rs_Key s"
    "sp_ProtectionRole plan = pd_Role d"
    "dp_QueueEnabled plan = protection_queueEnabled d (routingConcurrencySaturated s) policy"
    "\<exists>r. dp_QueueWaitMs plan = selectedQueueWaitMs (s\<lparr>rs_CostReferenceRatio := r\<rparr>) policy (routingConcurrencySaturated s) d"
    "routingConcurrencySaturated s \<Longrightarrow> x \<in> set cands \<Longrightarrow>
       routingConcurrencySaturated (live_snapshot sel policy x) \<or> rejected now req (pool sel policy cands) w x (live_snapshot sel policy x)"
    "\<exists>v. rw_breaker v = rw_breaker w \<and> fst (reserve_probe sel now s v) \<and> rw_breaker w' = rw_breaker (snd (reserve_probe sel now s v))"
proof -
  obtain n usable v where ok: "route_ok usable n"
    and plan: "plan = broken_reason (make_plan policy (fst (ask_route now c req policy extracted w)) (dr_RetryRoutingIntent req) d n)"
    and use: "\<forall>e \<in> set usable. ev_candidate e \<in> set cands \<and> selectable now req w (ev_candidate e) (ev_snapshot e)
       \<and> (\<exists>r. ev_snapshot e = (live_snapshot sel policy (ev_candidate e))\<lparr>rs_CostReferenceRatio := r\<rparr>)"
    and probe: "reserve_probe sel now (ev_snapshot (cn_best n)) v = (True, snd (reserve_probe sel now (ev_snapshot (cn_best n)) v))"
    "rw_breaker v = rw_breaker w" "rw_breaker w' = rw_breaker (snd (reserve_probe sel now (ev_snapshot (cn_best n)) v))"
    and rest: "\<forall>x \<in> set cands. (\<exists>e \<in> set usable. \<exists>r. ev_snapshot e = (live_snapshot sel policy x)\<lparr>rs_CostReferenceRatio := r\<rparr>)
       \<or> rejected now req (pool sel policy cands) w x (live_snapshot sel policy x)"
    by (rule select_protected_selected [OF sel now])
  have cand: "sp_Candidate plan = ev_candidate (cn_best n)" by (simp add: plan)
  from ok obtain e where e: "e \<in> set usable" "ev_candidate (cn_best n) = ev_candidate e" "ev_snapshot (cn_best n) = ev_snapshot e"
    unfolding route_ok_def by blast
  from use e(1) obtain r where mem: "ev_candidate e \<in> set cands" "selectable now req w (ev_candidate e) (ev_snapshot e)"
    and r: "ev_snapshot e = (live_snapshot sel policy (ev_candidate e))\<lparr>rs_CostReferenceRatio := r\<rparr>"
    by blast
  have snap: "ev_snapshot (cn_best n) = s\<lparr>rs_CostReferenceRatio := r\<rparr>" unfolding s_def cand e(2,3) by (rule r)
  have sat: "cn_saturated n = routingConcurrencySaturated s" using ok by (simp add: route_ok_def snap)
  show "sp_Candidate plan \<in> set cands" "selectable now req w (sp_Candidate plan) s"
    using mem by (simp_all add: s_def cand e(2) r selectable_reference)
  show "dp_Channel plan = map_option ch_Id (cd_Channel (sp_Candidate plan))" "dp_RuntimeKey plan = rs_Key s"
    "sp_ProtectionRole plan = pd_Role d" "dp_QueueEnabled plan = protection_queueEnabled d (routingConcurrencySaturated s) policy"
    by (simp_all add: plan snap sat)
  show "\<exists>r. dp_QueueWaitMs plan = selectedQueueWaitMs (s\<lparr>rs_CostReferenceRatio := r\<rparr>) policy (routingConcurrencySaturated s) d"
    by (auto simp: plan snap sat)
  show "routingConcurrencySaturated (live_snapshot sel policy x) \<or> rejected now req (pool sel policy cands) w x (live_snapshot sel policy x)"
    if "routingConcurrencySaturated s" "x \<in> set cands"
  proof -
    have "free usable = []" using ok that(1) by (simp add: route_ok_def sat)
    then have all: "e \<in> set usable \<Longrightarrow> routingConcurrencySaturated (ev_snapshot e)" for e by (auto simp: free_def filter_empty_conv)
    from rest that(2) consider e r where "e \<in> set usable" "ev_snapshot e = (live_snapshot sel policy x)\<lparr>rs_CostReferenceRatio := r\<rparr>"
      | "rejected now req (pool sel policy cands) w x (live_snapshot sel policy x)" by blast
    then show ?thesis
    proof cases
      case 1
      with all [OF 1(1)] show ?thesis by simp
    qed blast
  qed
  have "reserve_probe sel now (s\<lparr>rs_CostReferenceRatio := r\<rparr>) = reserve_probe sel now s"
    by (auto simp: reserve_probe_def fun_eq_iff split: option.split)
  note same = fun_cong [OF this, of v]
  have "fst (reserve_probe sel now s v)" using arg_cong [OF probe(1), of fst] by (simp only: snap same fst_conv)
  moreover have "rw_breaker w' = rw_breaker (snd (reserve_probe sel now s v))" using probe(3) by (simp only: snap same)
  ultimately show "\<exists>v. rw_breaker v = rw_breaker w \<and> fst (reserve_probe sel now s v) \<and> rw_breaker w' = rw_breaker (snd (reserve_probe sel now s v))"
    using probe(2) by blast
qed

lemma wait_needs_saturation: "\<exists>r. wait = selectedQueueWaitMs (f r) policy full d \<Longrightarrow> wait \<noteq> 0 \<Longrightarrow> full"
  by (cases full) (auto simp: selectedQueueWaitMs_def)

lemma rejected_mono:
  "rejected now req cs w x s \<Longrightarrow> cs \<subseteq> ds \<Longrightarrow> rejected now req ds w x s"
  unfolding rejected_def switched_def by fast

section \<open>Progress\<close>

lemma settle_some:
  assumes "usable \<noteq> []" and "\<forall>e \<in> set usable. cd_Channel (ev_candidate e) \<noteq> None"
  shows "settle_choice sel policy sticky stickyBreak intent usable \<noteq> None"
proof -
  let ?es = "if free usable \<noteq> [] then free usable else filter (\<lambda>e. routingConcurrencySaturated (ev_snapshot e)) usable"
  have ne: "?es \<noteq> []" using assms(1) by (cases usable) (auto simp: free_def)
  have sub: "set ?es \<subseteq> set usable" by (auto simp: free_def)
  obtain best used where s: "selectCandidateByRoutingScoreAndChannelPriority (sl_tieBreakConfig sel) ?es = Some (best, used)"
    using select_some [OF ne, of "sl_tieBreakConfig sel"] by auto
  from select_member [OF s] sub assms(2) have "cd_Channel (ev_candidate best) \<noteq> None" by blast
  with s show ?thesis by (simp add: settle_choice_def free_def [symmetric] Let_def)
qed

lemma reserve_granted: "rw_breaker v = rw_breaker w \<Longrightarrow> fst (reserve_probe sel now s v) = fst (reserve_probe sel now s w)"
  by (auto simp: reserve_probe_def split: option.split prod.split)

lemma reserve_reference: "reserve_probe sel now (s\<lparr>rs_CostReferenceRatio := r\<rparr>) = reserve_probe sel now s"
  by (auto simp: reserve_probe_def fun_eq_iff split: option.split)

text \<open>The evaluations from which the selection chooses.\<close>

lemma usable_evaluations:
  fixes intent :: "retry_routing_intent option"
  assumes p: "prepare_candidates sel now req policy sticky cands
      \<lparr>pr_evaluations = [], pr_stickyBreak = [], pr_costReferenceRatio = 0\<rparr> w = (p, v)" and now: "zero_time \<le> now"
  defines "usable \<equiv> map (score_evaluation sel policy intent (pr_costReferenceRatio p)) (filter (\<lambda>e. ev_rejectReason e = []) (pr_evaluations p))"
  shows "grows now req (pool sel policy cands) w v"
    "e \<in> set usable \<Longrightarrow> ev_candidate e \<in> set cands
      \<and> (\<exists>r. ev_snapshot e = (live_snapshot sel policy (ev_candidate e))\<lparr>rs_CostReferenceRatio := r\<rparr>)"
    "x \<in> set cands \<Longrightarrow> \<not> rejected now req (pool sel policy cands) w x (live_snapshot sel policy x) \<Longrightarrow> usable \<noteq> []"
proof -
  have prep: "grows now req (pool sel policy cands) w v" "map ev_candidate (pr_evaluations p) = cands"
    "list_all (live sel policy) (pr_evaluations p)" "list_all (judged now req (pool sel policy cands) w) (pr_evaluations p)"
    using prepare_evaluations [OF p now order_refl] by auto
  show "grows now req (pool sel policy cands) w v" by (rule prep(1))
  show "ev_candidate e \<in> set cands \<and> (\<exists>r. ev_snapshot e = (live_snapshot sel policy (ev_candidate e))\<lparr>rs_CostReferenceRatio := r\<rparr>)"
    if "e \<in> set usable"
  proof -
    from that obtain e0 where e: "e = score_evaluation sel policy intent (pr_costReferenceRatio p) e0" and e0: "e0 \<in> set (pr_evaluations p)"
      by (auto simp: usable_def)
    have "ev_candidate e0 \<in> set cands" using e0 prep(2) by (metis imageI list.set_map)
    moreover have "ev_snapshot e0 = live_snapshot sel policy (ev_candidate e0)" using e0 prep(3) by (auto simp: list_all_iff live_def)
    ultimately show ?thesis using score_evaluation_fields [of sel policy intent "pr_costReferenceRatio p" e0] by (simp add: e)
  qed
  show "usable \<noteq> []" if "x \<in> set cands" "\<not> rejected now req (pool sel policy cands) w x (live_snapshot sel policy x)"
  proof -
    from that(1) have "x \<in> ev_candidate ` set (pr_evaluations p)" by (metis list.set_map prep(2))
    then obtain e where e: "e \<in> set (pr_evaluations p)" "ev_candidate e = x" by blast
    then have "live sel policy e" "judged now req (pool sel policy cands) w e" using prep(3,4) by (simp_all add: list_all_iff)
    with e(2) that(2) have "ev_rejectReason e = []" by (simp add: live_def judged_def split: if_splits)
    with e(1) show ?thesis unfolding usable_def by (auto simp: filter_empty_conv)
  qed
qed

lemma select_protected_progress:
  assumes x: "x \<in> set cands" "\<not> rejected now req (pool sel policy cands) w x (live_snapshot sel policy x)" and now: "zero_time \<le> now"
    and ok: "\<forall>y \<in> set cands. cd_Channel y \<noteq> None \<and> fst (reserve_probe sel now (live_snapshot sel policy y) w)"
  shows "\<exists>plan w'. select_protected sel now turn c extracted req policy cands d w = (Selected plan, w')"
proof -
  obtain sticky w1 where r: "ask_route now c req policy extracted w = (sticky, w1)" by fastforce
  obtain p w2 where p: "prepare_candidates sel now req policy sticky cands
      \<lparr>pr_evaluations = [], pr_stickyBreak = [], pr_costReferenceRatio = 0\<rparr> w1 = (p, w2)" by fastforce
  define w3 where "w3 = explain_rejected now req (pr_evaluations p) w2"
  define usable where "usable = map (score_evaluation sel policy (dr_RetryRoutingIntent req) (pr_costReferenceRatio p))
    (filter (\<lambda>e. ev_rejectReason e = []) (pr_evaluations p))"
  note w1 = ask_route_keeps [OF r]
  note u = usable_evaluations(1) [OF p now]
    usable_evaluations(2,3) [OF p now, where intent = "dr_RetryRoutingIntent req", folded usable_def]
  have ne: "usable \<noteq> []" using u(3) x w1(3) by simp
  have "\<forall>e \<in> set usable. cd_Channel (ev_candidate e) \<noteq> None" using u(2) ok by blast
  with ne obtain n best used where s: "settle_choice sel policy sticky (pr_stickyBreak p) (dr_RetryRoutingIntent req) usable = Some (n, best, used)"
    using settle_some [of usable sel policy sticky "pr_stickyBreak p" "dr_RetryRoutingIntent req"] by (metis not_Some_eq prod.exhaust)
  from settle_choice_ok [OF s] obtain e where e: "e \<in> set usable" "ev_snapshot (cn_best (own_reason best used n)) = ev_snapshot e"
    by (auto simp: route_ok_def)
  obtain t where t: "ev_snapshot e = (live_snapshot sel policy (ev_candidate e))\<lparr>rs_CostReferenceRatio := t\<rparr>" using u(2) [OF e(1)] by blast
  have "rw_breaker w3 = rw_breaker w"
    using grows_rest(6) [OF explain_grows [OF now, of req "{}" w2 "pr_evaluations p"]] grows_rest(6) [OF u(1)] w1(1) by (simp add: w3_def)
  then have "fst (reserve_probe sel now (ev_snapshot (cn_best (own_reason best used n))) w3)"
    using ok u(2) [OF e(1)] reserve_granted [of w3 w] by (simp only: e(2) t reserve_reference)
  then obtain w4 where "reserve_probe sel now (ev_snapshot (cn_best (own_reason best used n))) w3 = (True, w4)"
    by (metis (full_types) prod.collapse)
  moreover have "cands \<noteq> []" using x(1) by auto
  ultimately show ?thesis
    using r p s by (simp add: select_protected_def w3_def usable_def Let_def del: own_reason_fields)
qed

section \<open>Who is served\<close>

text \<open>C17: A selection serves a candidate of the pool that the policy's builder returned. At the time of
  the call that candidate has no isolated configuration error, no open circuit, no cooldown and no
  failure avoidance, its channel is enabled and not known to lack balance, the request has not
  skipped it and the client's session is not being kept away from it; the plan names its channel
  and its runtime key, and asks for a wait only when the candidate is at its concurrency limit.\<close>

theorem select_serves_selectable:
  assumes "Select sel now turn c extracted req policy w = (Selected plan, w')" and "zero_time \<le> now"
  shows "sp_Candidate plan \<in> set (sl_Build sel req (filled_policy req policy))
    \<and> selectable now req w (sp_Candidate plan) (live_snapshot sel (filled_policy req policy) (sp_Candidate plan))
    \<and> dp_Channel plan = map_option ch_Id (cd_Channel (sp_Candidate plan))
    \<and> dp_RuntimeKey plan = rs_Key (live_snapshot sel (filled_policy req policy) (sp_Candidate plan))
    \<and> (dp_QueueWaitMs plan \<noteq> 0 \<longrightarrow> routingConcurrencySaturated (live_snapshot sel (filled_policy req policy) (sp_Candidate plan)))"
proof -
  obtain xs d v where r: "resourceProtectionCandidates sel now req (filled_policy req policy)
      (sl_Build sel req (filled_policy req policy)) w = ((Some xs, d), v)"
    and g: "grows now req (pool sel (filled_policy req policy) (sl_Build sel req (filled_policy req policy))) w v"
    and sub: "set xs \<subseteq> set (sl_Build sel req (filled_policy req policy))"
    and p: "select_protected sel now turn c extracted req (filled_policy req policy) xs d v = (Selected plan, w')"
    by (rule Select_selected [OF assms(1,2)])
  note f = selected_from_pool [OF p assms(2)]
  show ?thesis
  proof (intro conjI impI)
    show "sp_Candidate plan \<in> set (sl_Build sel req (filled_policy req policy))" using f(1) sub by blast
    show "routingConcurrencySaturated (live_snapshot sel (filled_policy req policy) (sp_Candidate plan))" if "dp_QueueWaitMs plan \<noteq> 0"
      using f(7) that by (rule wait_needs_saturation)
  qed (rule selectable_grows(1) [OF g f(2)] f(3) f(4))+
qed

text \<open>C21: Without resource protection a plan asks for a wait only when every candidate of the pool is at
  its concurrency limit or may not be used: one of the conditions against it holds, or its channel
  is marked because the session of the client is being kept away from it.\<close>

theorem select_waits_only_when_full:
  assumes "Select sel now turn c extracted req policy w = (Selected plan, w')" and "zero_time \<le> now"
    and "\<not> gp_ResourceProtectionEnabled policy" and "dp_QueueWaitMs plan \<noteq> 0"
    and "x \<in> set (sl_Build sel req (filled_policy req policy))"
  shows "routingConcurrencySaturated (live_snapshot sel (filled_policy req policy) x)
    \<or> rejected now req (pool sel (filled_policy req policy) (sl_Build sel req (filled_policy req policy))) w x
        (live_snapshot sel (filled_policy req policy) x)"
proof -
  obtain xs d v where r: "resourceProtectionCandidates sel now req (filled_policy req policy)
      (sl_Build sel req (filled_policy req policy)) w = ((Some xs, d), v)"
    and g: "grows now req (pool sel (filled_policy req policy) (sl_Build sel req (filled_policy req policy))) w v"
    and sub: "set xs \<subseteq> set (sl_Build sel req (filled_policy req policy))"
    and p: "select_protected sel now turn c extracted req (filled_policy req policy) xs d v = (Selected plan, w')"
    by (rule Select_selected [OF assms(1,2)])
  from r assms(3) have xs: "xs = sl_Build sel req (filled_policy req policy)" "v = w"
    by (auto simp: resourceProtectionCandidates_def newResourceProtectionDecision_def filled_policy_def Let_def)
  note f = selected_from_pool [OF p assms(2)]
  have "routingConcurrencySaturated (live_snapshot sel (filled_policy req policy) (sp_Candidate plan))"
    using f(7) assms(4) by (rule wait_needs_saturation)
  with f(8) [of x] assms(5) show ?thesis unfolding xs by blast
qed

section \<open>Primary resources\<close>

lemma split_primary:
  assumes "x \<in> set cands" and "0 < candidateChannelID x" and "candidateChannelID x \<in> set (pd_primarySet d)"
  shows "x \<in> set (fst (splitResourceProtectionCandidates d cands))"
  using assms by (induction cands) (auto simp: Let_def split: prod.splits)

lemma availability_found:
  assumes "zero_time \<le> now"
  shows "x \<in> set cands \<Longrightarrow> pool sel policy cands \<subseteq> cs \<Longrightarrow> \<not> rejected now req cs w x (live_snapshot sel policy x) \<Longrightarrow>
    resourceProtectionAvailability sel now req policy cands w = ((a, b), v) \<Longrightarrow> a \<or> b"
proof (induction cands arbitrary: w a b v)
  case (Cons cand cands)
  let ?s = "live_snapshot sel policy cand"
  obtain r u where j: "judge now req cand ?s w = (r, u)" by fastforce
  obtain a' b' v' where n: "resourceProtectionAvailability sel now req policy cands u = ((a', b'), v')" by (metis prod.exhaust)
  have g: "grows now req cs w u" using judge_grows [OF assms, of cand ?s cs req w] Cons.prems(2) j by (simp add: pool_def)
  have out: "(a, b) = (if r \<noteq> [] then (a', b') else if routingConcurrencySaturated ?s then (a', True) else (True, b'))"
    using Cons.prems(4) by (auto simp: j n Let_def split: if_splits)
  show ?case
  proof (cases "x = cand")
    case True
    then have "r = []" using Cons.prems(3) judge_selectable [of now req cand ?s w] j by (simp add: rejected_def)
    with out show ?thesis by (auto split: if_splits)
  next
    case False
    moreover have "pool sel policy cands \<subseteq> cs" using Cons.prems(2) by (simp add: pool_def)
    moreover have "\<not> rejected now req cs u x (live_snapshot sel policy x)" using Cons.prems(3) rejected_grows [OF g] by blast
    ultimately have "a' \<or> b'" using Cons.IH [of u a' b' v'] Cons.prems(1) n by auto
    with out show ?thesis by (auto split: if_splits)
  qed
qed simp

lemma primary_admitted:
  assumes now: "zero_time \<le> now" and on: "gp_ResourceProtectionEnabled policy" "\<not> dr_ResourceProtectionFallback req"
    and x: "x \<in> set cands" "0 < candidateChannelID x" "candidateChannelID x \<in> set (gp_PrimaryChannelIDs policy)"
    and ok: "\<not> rejected now req (pool sel policy cands) w x (live_snapshot sel policy x)"
  obtains xs d v where "resourceProtectionCandidates sel now req policy cands w = ((Some xs, d), v)" "x \<in> set xs"
    "set xs \<subseteq> {y \<in> set cands. candidateChannelID y \<in> set (gp_PrimaryChannelIDs policy)}"
    "pd_Enabled d" "pd_Role d = RolePrimary" "pd_PrimaryWaitTimeoutMs d = gp_PrimaryWaitTimeoutMs policy"
proof -
  let ?d = "newResourceProtectionDecision policy"
  let ?e = "?d\<lparr>pd_Phase := PhasePrimaryHit, pd_Reason := ''primary_resource_available'', pd_Role := RolePrimary\<rparr>"
  obtain ps fs where s: "splitResourceProtectionCandidates ?d cands = (ps, fs)" by fastforce
  obtain a b u where av: "resourceProtectionAvailability sel now req policy ps w = ((a, b), u)" by (metis prod.exhaust)
  have mem: "x \<in> set ps" using split_primary [OF x(1,2), of ?d] x(2,3) s by (simp add: newResourceProtectionDecision_def)
  have sub: "set ps \<subseteq> {y \<in> set cands. candidateChannelID y \<in> set (pd_primarySet ?d)}" using split_subset(1) [of ?d cands] s by simp
  then have "pool sel policy ps \<subseteq> pool sel policy cands" by (intro pool_mono) auto
  with availability_found [OF now mem _ ok av] have ab: "a \<or> b" .
  have en: "pd_Enabled ?d" "cands \<noteq> []" "ps \<noteq> []" using on(1) x mem by (auto simp: newResourceProtectionDecision_def)
  have "resourceProtectionCandidates sel now req policy cands w = ((Some ps, ?e), u)"
    using ab en on(2) by (auto simp: resourceProtectionCandidates_def Let_def s av)
  moreover have "set ps \<subseteq> {y \<in> set cands. candidateChannelID y \<in> set (gp_PrimaryChannelIDs policy)}"
    using sub by (auto simp: newResourceProtectionDecision_def)
  moreover have "pd_Enabled ?e" "pd_Role ?e = RolePrimary" "pd_PrimaryWaitTimeoutMs ?e = gp_PrimaryWaitTimeoutMs policy"
    using en(1) by simp_all (simp add: newResourceProtectionDecision_def)
  ultimately show thesis using mem that by blast
qed

text \<open>C20: Under resource protection, as long as one primary channel of the pool may be used, a request
  that is not already a fallback is served by a primary channel; when the channel it gets is full
  it is queued there, for the configured wait when one is set and in every case for a positive
  time, instead of falling back.\<close>

theorem primary_resources_first:
  assumes "Select sel now turn c extracted req policy w = (Selected plan, w')" and "zero_time \<le> now"
    and "gp_ResourceProtectionEnabled policy" and "\<not> dr_ResourceProtectionFallback req"
    and "x \<in> set (sl_Build sel req (filled_policy req policy))" and "0 < candidateChannelID x"
    and "candidateChannelID x \<in> set (gp_PrimaryChannelIDs policy)"
    and "\<not> rejected now req (pool sel (filled_policy req policy) (sl_Build sel req (filled_policy req policy))) w x
          (live_snapshot sel (filled_policy req policy) x)"
  shows "candidateChannelID (sp_Candidate plan) \<in> set (gp_PrimaryChannelIDs policy) \<and> sp_ProtectionRole plan = RolePrimary
    \<and> (routingConcurrencySaturated (live_snapshot sel (filled_policy req policy) (sp_Candidate plan)) \<longrightarrow>
        dp_QueueEnabled plan \<and> 0 < dp_QueueWaitMs plan
        \<and> (0 < gp_PrimaryWaitTimeoutMs policy \<longrightarrow> dp_QueueWaitMs plan = gp_PrimaryWaitTimeoutMs policy))"
proof -
  obtain xs d v where r: "resourceProtectionCandidates sel now req (filled_policy req policy)
      (sl_Build sel req (filled_policy req policy)) w = ((Some xs, d), v)"
    and g: "grows now req (pool sel (filled_policy req policy) (sl_Build sel req (filled_policy req policy))) w v"
    and sub: "set xs \<subseteq> set (sl_Build sel req (filled_policy req policy))"
    and p: "select_protected sel now turn c extracted req (filled_policy req policy) xs d v = (Selected plan, w')"
    by (rule Select_selected [OF assms(1,2)])
  have same: "gp_ResourceProtectionEnabled (filled_policy req policy)"
    "gp_PrimaryChannelIDs (filled_policy req policy) = gp_PrimaryChannelIDs policy"
    "gp_PrimaryWaitTimeoutMs (filled_policy req policy) = gp_PrimaryWaitTimeoutMs policy"
    using assms(3) by (simp_all add: filled_policy_def)
  have "set xs \<subseteq> {y \<in> set (sl_Build sel req (filled_policy req policy)). candidateChannelID y \<in> set (gp_PrimaryChannelIDs policy)}
      \<and> pd_Enabled d \<and> pd_Role d = RolePrimary \<and> pd_PrimaryWaitTimeoutMs d = gp_PrimaryWaitTimeoutMs policy"
    by (rule primary_admitted [OF assms(2) same(1) assms(4,5,6) _ assms(8)]) (use r assms(7) in \<open>simp_all add: same\<close>)
  then have a: "set xs \<subseteq> {y \<in> set (sl_Build sel req (filled_policy req policy)). candidateChannelID y \<in> set (gp_PrimaryChannelIDs policy)}"
    "pd_Enabled d" "pd_Role d = RolePrimary" "pd_PrimaryWaitTimeoutMs d = gp_PrimaryWaitTimeoutMs policy" by blast+
  note f = selected_from_pool [OF p assms(2)]
  have "dp_QueueEnabled plan \<and> 0 < dp_QueueWaitMs plan
      \<and> (0 < gp_PrimaryWaitTimeoutMs policy \<longrightarrow> dp_QueueWaitMs plan = gp_PrimaryWaitTimeoutMs policy)"
    if "routingConcurrencySaturated (live_snapshot sel (filled_policy req policy) (sp_Candidate plan))"
    using f(6,7) a that
    by (auto simp: protection_queueEnabled_def primaryWaitSelected_def selectedQueueWaitMs_def defaultQueueTimeoutMs_def Let_def)
  then show ?thesis using f(1,5) a by auto
qed

lemma Select_progress:
  fixes policy0 :: smart_policy
  assumes "IsActive policy0" and now: "zero_time \<le> now"
    and r: "resourceProtectionCandidates sel now req (filled_policy req policy0) (sl_Build sel req (filled_policy req policy0)) w = ((Some xs, d), v)"
    and x: "x \<in> set xs"
    and ok: "\<not> rejected now req (pool sel (filled_policy req policy0) (sl_Build sel req (filled_policy req policy0))) w x
          (live_snapshot sel (filled_policy req policy0) x)"
    and all: "\<forall>y \<in> set (sl_Build sel req (filled_policy req policy0)). cd_Channel y \<noteq> None
          \<and> fst (reserve_probe sel now (live_snapshot sel (filled_policy req policy0) y) w)"
  shows "\<exists>plan w'. Select sel now turn c extracted req policy0 w = (Selected plan, w')"
proof -
  let ?p = "filled_policy req policy0"
  let ?cands = "sl_Build sel req ?p"
  have g: "grows now req (pool sel ?p ?cands) w v" and sub: "set xs \<subseteq> set ?cands" using protection_grows [OF r now] by blast+
  have "\<not> rejected now req (pool sel ?p xs) v x (live_snapshot sel ?p x)"
    using ok rejected_grows [OF g] rejected_mono [OF _ pool_mono [OF sub]] by blast
  moreover have "\<forall>y \<in> set xs. cd_Channel y \<noteq> None \<and> fst (reserve_probe sel now (live_snapshot sel ?p y) v)"
    using all sub reserve_granted [OF grows_rest(6) [OF g]] by blast
  ultimately have "\<exists>plan w'. select_protected sel now turn c extracted req ?p xs d v = (Selected plan, w')"
    using x now by (intro select_protected_progress)
  moreover have "?cands \<noteq> []" using x sub by auto
  ultimately show ?thesis using assms(1) r by (simp add: Select_def Let_def)
qed


section \<open>The price of a cost-first choice\<close>


section \<open>Load and score\<close>

text \<open>C35: A routing score lies between 0 and 1, and of two states of a candidate that differ in load only
  (requests in flight, queue, estimated wait, first bytes outstanding) the busier one never gets
  the higher score, under every strategy, weighting, boost and retry intent.\<close>

theorem busier_never_preferred:
  assumes "busier s t"
  shows "0 \<le> sr_RoutingTotal (score m cand t policy ctx)
    \<and> sr_RoutingTotal (score m cand t policy ctx) \<le> sr_RoutingTotal (score m cand s policy ctx)
    \<and> sr_RoutingTotal (score m cand s policy ctx) \<le> 1"
  using routing_score_antitone [OF assms] by (simp add: score_totals_unit)

section \<open>Half-open circuits\<close>

text \<open>C22: A candidate whose circuit is half open is served only when the breaker grants one of the
  probe slots of its key at the time of the call, and the slot is taken in the breaker that is
  left behind.\<close>

theorem half_open_takes_probe_slot:
  assumes "Select sel now turn c extracted req policy w = (Selected plan, w')" and "zero_time \<le> now"
    and "sl_Enrich sel \<noteq> None" and "rw_breaker w = Some b"
    and "rs_CircuitState (live_snapshot sel (filled_policy req policy) (sp_Candidate plan)) = Some CircuitStateHalfOpen"
  shows "\<exists>b'. AllowProbe b now (dp_RuntimeKey plan) = (True, b') \<and> rw_breaker w' = Some b'"
proof -
  obtain xs d v where r: "resourceProtectionCandidates sel now req (filled_policy req policy)
      (sl_Build sel req (filled_policy req policy)) w = ((Some xs, d), v)"
    and g: "grows now req (pool sel (filled_policy req policy) (sl_Build sel req (filled_policy req policy))) w v"
    and sub: "set xs \<subseteq> set (sl_Build sel req (filled_policy req policy))"
    and p: "select_protected sel now turn c extracted req (filled_policy req policy) xs d v = (Selected plan, w')"
    by (rule Select_selected [OF assms(1,2)])
  note f = selected_from_pool(4,9) [OF p assms(2)]
  from f(2) obtain u where "rw_breaker u = Some b"
    "fst (reserve_probe sel now (live_snapshot sel (filled_policy req policy) (sp_Candidate plan)) u)"
    "rw_breaker w' = rw_breaker (snd (reserve_probe sel now (live_snapshot sel (filled_policy req policy) (sp_Candidate plan)) u))"
    using assms(4) grows_rest(6) [OF g] by auto
  then show ?thesis using assms(3,5) by (auto simp: reserve_probe_def f(1) split: prod.splits)
qed

section \<open>Examples\<close>

text \<open>Two candidates of one group whose live state is that of \<open>f\<close>, and an empty world around them.\<close>

definition example_channel :: "int \<Rightarrow> route_channel" where
  "example_channel i = \<lparr>ch_Id = i, ch_Name = ''c'', ch_Status = 1, ch_Priority = Some i, ch_SmartScoreBoosts = [],
     ch_Group = ''vip'', ch_BalanceUpdatedTime = 0, ch_Balance = 0, ch_status_reason = []\<rparr>"

definition example_candidate :: "int \<Rightarrow> candidate" where
  "example_candidate i = \<lparr>cd_Channel = Some (example_channel i),
     cd_AccountIdentity = \<lparr>ai_AccountID = [], ai_CredentialIndex = 0, ai_CredentialSubjectFingerprint = [],
       ai_CredentialFingerprint = [], ai_AccountIdentityKey = [], ai_AccountUniqueKey = []\<rparr>,
     cd_CredentialRef = \<lparr>cr_ResourceID = [], cr_AccountID = [], cr_CredentialIndex = 0, cr_CredentialSubjectFingerprint = [],
       cr_CredentialFingerprint = [], cr_Resolver = []\<rparr>,
     cd_Group = ''vip'', cd_UpstreamModel = ''m'',
     cd_RuntimeKey = zero_runtime_key\<lparr>rk_RequestedModel := ''m'', rk_ChannelID := i, rk_Group := ''vip''\<rparr>\<rparr>"

definition example_rules :: "bool \<Rightarrow> smart_policy" where
  "example_rules protect = \<lparr>gp_RequestedGroup = ''vip'', gp_CacheAffinityEnabled = False, gp_UserGroup = ''vip'', gp_Mode = ModeActive,
     gp_Strategy = StrategyBalanced, gp_CandidateGroups = [], gp_QueueEnabled = True, gp_QueuePriority = 0,
     gp_GroupPriorityRatio = [], gp_ResourceProtectionEnabled = protect, gp_PrimaryChannelIDs = [1],
     gp_PrimaryWaitTimeoutMs = 700, gp_PrimaryQueueMaxDepth = 0, gp_FallbackChannelIDs = []\<rparr>"

definition example_select_request :: select_request where
  "example_select_request = \<lparr>dr_RequestedGroup = ''vip'', dr_UserGroup = ''vip'', dr_ModelName = ''m'', dr_EndpointType = ''openai'',
     dr_Retry = 0, dr_CurrentAutoGroup = [], dr_RetryRoutingIntent = None, dr_ClientSessionKey = ''s'',
     dr_ResourceProtectionFallback = False, dr_ResourceProtectionReason = []\<rparr>"

definition example_selector :: "(runtime_snapshot \<Rightarrow> runtime_snapshot) \<Rightarrow> selector" where
  "example_selector f = \<lparr>sl_Build = (\<lambda>req policy. map example_candidate [1, 2]), sl_snapshotStore = None,
     sl_scoreWeights = DefaultScoreWeights, sl_Enrich = Some (\<lambda>cand s policy. f s), sl_Baseline = None,
     sl_stickyEscapeConfig = DefaultCostFirstStickyEscapeConfig, sl_costGuardConfig = DefaultCostFirstGuardConfig,
     sl_tieBreakConfig = DefaultChannelPriorityTieBreakConfig,
     sl_math = \<lparr>gm_Exp = (\<lambda>x. 1), gm_Log = (\<lambda>x. x), gm_Pow = (\<lambda>x y. x)\<rparr>\<rparr>"

definition example_full :: "runtime_snapshot \<Rightarrow> runtime_snapshot" where
  "example_full s = s\<lparr>rs_ActiveConcurrency := 3, rs_MaxConcurrency := 3, rs_LearnedConcurrencyLimit := 3,
     rs_EffectiveConcurrencyLimit := 3, rs_QueueDepth := 1, rs_QueueCapacity := 5, rs_QueueTimeoutMs := 900\<rparr>"

definition example_probing :: "runtime_snapshot \<Rightarrow> runtime_snapshot" where
  "example_probing s = s\<lparr>rs_CircuitState := Some CircuitStateHalfOpen\<rparr>"

definition example_world :: "circuit_breaker option \<Rightarrow> route_world" where
  "example_world b = \<lparr>rw_context = \<lparr>gc_ChannelId = 0, gc_original_model = [], gc_UsingGroup = [], gc_TokenGroup = [],
       gc_IsMultiKey = False, gc_MultiKeyIndex = 0, gc_SelectionReserved = [], gc_SelectionSkipped = [],
       gc_RuntimeSelectionSkipped = [], gc_RuntimeAttempted = [], gc_ConcurrencyLease = None\<rparr>,
     rw_balance = \<lparr>bm_ContextChannels = [], bm_ContextIdentities = [], bm_Channels = [], bm_Identities = []\<rparr>,
     rw_switch = Some (NewClientEmptyOutputSwitchTracker 0 0 0 0), rw_breaker = b, rw_router = None\<rparr>"

definition example_client :: sticky_context where
  "example_client = \<lparr>sx_TokenId = 1, sx_UserId = 1, sx_TokenKey = [], sx_signals = [], sx_use_channel = [], sx_routingDisabled = None\<rparr>"

text \<open>A breaker that has both candidates half open with one of two probe slots taken.\<close>

definition example_tripped :: circuit_breaker where
  "example_tripped = \<lparr>cb_options = \<lparr>co_FailureThreshold = 1 / 2, co_MinSamples = 1, co_OpenDuration = 30 * Second,
       co_HalfOpenProbeCount = 2, co_ErrorPolicies = []\<rparr>,
     cb_states = map (\<lambda>i. (normalizeRuntimeKey (rs_Key (live_snapshot (example_selector example_probing) (example_rules False) (example_candidate i))),
       \<lparr>st_state = CircuitStateHalfOpen, st_failureCount = 1, st_successCount = 0, st_sampleCount = 1, st_openReason = ''upstream_5xx'',
        st_errorCounts = [], st_openUntil = 30 * Second, st_halfOpenProbeMax = 2, st_halfOpenProbeIn = 1\<rparr>)) [1, 2]\<rparr>"

lemma example_filled: "filled_policy example_select_request (example_rules protect) = example_rules protect"
  by (simp add: filled_policy_def example_rules_def orElse_def)

lemma example_pool: "sl_Build (example_selector f) req policy = [example_candidate 1, example_candidate 2]"
  by (simp add: example_selector_def)

lemma example_switched: "switched (40 * Second) example_select_request cs (example_world b) = {}"
  by (simp add: switched_def avoided_candidate_def avoided_def entry_of_def example_world_def NewClientEmptyOutputSwitchTracker_def
      zero_time_def Second_def)

lemma example_live: "live_snapshot (example_selector f) policy cand = f (normalizeRuntimeSnapshot (f (defaultSnapshot cand)))"
  by (simp add: live_snapshot_def enriched_def snapshotForCandidate_def example_selector_def)

lemma normalized_flags [simp]:
  "rs_ConfigErrorIsolated (normalizeRuntimeSnapshot s) = rs_ConfigErrorIsolated s" "rs_CircuitOpen (normalizeRuntimeSnapshot s) = rs_CircuitOpen s"
  "rs_Cooldown (normalizeRuntimeSnapshot s) = rs_Cooldown s" "rs_FailureAvoidance (normalizeRuntimeSnapshot s) = rs_FailureAvoidance s"
  by (simp_all add: normalizeRuntimeSnapshot_def Let_def)

lemma default_flags [simp]:
  "\<not> rs_ConfigErrorIsolated (defaultSnapshot c)" "\<not> rs_CircuitOpen (defaultSnapshot c)" "\<not> rs_Cooldown (defaultSnapshot c)"
  "\<not> rs_FailureAvoidance (defaultSnapshot c)"
  by (simp_all add: defaultSnapshot_def zero_snapshot_def Let_def)

lemma example_selectable:
  assumes "\<not> rs_ConfigErrorIsolated s" "\<not> rs_CircuitOpen s" "\<not> rs_Cooldown s" "\<not> rs_FailureAvoidance s"
  shows "\<not> rejected (40 * Second) example_select_request cs (example_world b) (example_candidate i) s"
proof -
  let ?w = "example_world b"
  have bal: "\<not> fst (balance_reason now (example_candidate i) identity (rw_balance ?w))" for now identity
    by (simp add: balance_reason_def IsChannelRuntimeBalanceSkipped_def IsChannelBalanceSkipped_def IsKnownBalanceInsufficientChannel_def
        IsBalanceInsufficientPausedChannel_def IsConfirmedBalanceInsufficientChannel_def IsRuntimeBalanceInsufficientChannelID_def
        IsRuntimeBalanceInsufficientIdentity_def runtimeBalanceEntryActive_def Let_def example_world_def example_candidate_def
        example_channel_def)
  have skip: "\<not> IsChannelRuntimeSelectionSkipped (rw_context ?w) identity" for identity
    by (simp add: IsSkipped_iff example_world_def)
  have "\<not> avoided_candidate (40 * Second) example_select_request ?w (example_candidate i) s"
    by (simp add: avoided_candidate_def avoided_def entry_of_def example_world_def NewClientEmptyOutputSwitchTracker_def
        zero_time_def Second_def)
  with assms bal skip show ?thesis
    by (simp add: rejected_def example_switched selectable_def) (simp add: example_candidate_def example_channel_def)
qed

lemma example_live_states [simp]:
  "rs_QueueTimeoutMs (example_full s) = 900" "rs_QueueCapacity (example_full s) = 5" "rs_QueueDepth (example_full s) = 1"
  "routingConcurrencySaturated (example_full s)" "rs_CircuitState (example_probing s) = Some CircuitStateHalfOpen"
  by (simp_all add: routingConcurrencySaturated_def routingConcurrencyLimit_def example_full_def example_probing_def Let_def)

lemma example_usable:
  "\<not> rejected (40 * Second) example_select_request cs (example_world b) (example_candidate i) (live_snapshot (example_selector example_full) policy (example_candidate i))"
  "\<not> rejected (40 * Second) example_select_request cs (example_world b) (example_candidate i) (live_snapshot (example_selector example_probing) policy (example_candidate i))"
  by (rule example_selectable; simp add: example_live example_full_def example_probing_def)+

lemma example_granted:
  "i \<in> {1, 2} \<Longrightarrow> fst (reserve_probe (example_selector example_probing) now
     (live_snapshot (example_selector example_probing) (example_rules False) (example_candidate i)) (example_world (Some example_tripped)))"
  by (auto simp: reserve_probe_def AllowProbe_def stateForLocked_def advanceLocked_def example_tripped_def example_world_def Let_def)

lemma example_now: "zero_time \<le> 40 * Second"
  by (simp add: zero_time_def Second_def)

lemma example_active: "IsActive (example_rules protect)"
  by (simp add: IsActive_def example_rules_def)

text \<open>The three selections: two full channels, two full channels of which one is primary, two half-open circuits.\<close>

definition example_outcome :: "(runtime_snapshot \<Rightarrow> runtime_snapshot) \<Rightarrow> bool \<Rightarrow> circuit_breaker option \<Rightarrow> select_outcome \<times> route_world" where
  "example_outcome f protect b = Select (example_selector f) (40 * Second) 0 example_client None example_select_request
     (example_rules protect) (example_world b)"

lemma example_ids: "candidateChannelID (example_candidate i) = i" "cd_Channel (example_candidate i) = Some (example_channel i)"
  by (simp_all add: candidateChannelID_def example_candidate_def example_channel_def)

lemma example_progress:
  assumes "resourceProtectionCandidates (example_selector f) (40 * Second) example_select_request (example_rules protect)
      [example_candidate 1, example_candidate 2] (example_world b) = ((Some xs, d), v)" and "example_candidate 1 \<in> set xs"
    and "\<And>cs. \<not> rejected (40 * Second) example_select_request cs (example_world b) (example_candidate 1)
      (live_snapshot (example_selector f) (example_rules protect) (example_candidate 1))"
    and "\<And>i. i \<in> {1, 2} \<Longrightarrow> fst (reserve_probe (example_selector f) (40 * Second)
      (live_snapshot (example_selector f) (example_rules protect) (example_candidate i)) (example_world b))"
  shows "\<exists>plan w'. example_outcome f protect b = (Selected plan, w')"
  unfolding example_outcome_def
  by (rule Select_progress [OF example_active example_now, where req = example_select_request and sel = "example_selector f",
        unfolded example_filled example_pool, OF assms(1,2,3)])
    (use assms(4) in \<open>simp add: example_ids\<close>)

lemma example_unprotected:
  "resourceProtectionCandidates sel now req (example_rules False) cands w =
     ((Some cands, newResourceProtectionDecision (example_rules False)), w)"
  by (simp add: resourceProtectionCandidates_def newResourceProtectionDecision_def example_rules_def Let_def)

lemma example_rule_fields:
  "gp_ResourceProtectionEnabled (example_rules protect) = protect" "gp_PrimaryChannelIDs (example_rules protect) = [1]"
  "gp_PrimaryWaitTimeoutMs (example_rules protect) = 700" "gp_QueueEnabled (example_rules protect)"
  "\<not> dr_ResourceProtectionFallback example_select_request"
  by (simp_all add: example_rules_def example_select_request_def)

lemma example_no_breaker: "fst (reserve_probe sel now s (example_world None))"
  by (simp add: reserve_probe_def example_world_def)

lemma example_selected:
  "\<exists>plan w'. example_outcome example_full False None = (Selected plan, w')"
  "\<exists>plan w'. example_outcome example_full True None = (Selected plan, w')"
  "\<exists>plan w'. example_outcome example_probing False (Some example_tripped) = (Selected plan, w')"
proof -
  show "\<exists>plan w'. example_outcome example_full False None = (Selected plan, w')"
    by (rule example_progress [OF example_unprotected]) (simp_all add: example_usable example_no_breaker)
  show "\<exists>plan w'. example_outcome example_probing False (Some example_tripped) = (Selected plan, w')"
    by (rule example_progress [OF example_unprotected]) (use example_granted in \<open>auto simp: example_usable\<close>)
  have on: "gp_ResourceProtectionEnabled (example_rules True)" by (simp add: example_rule_fields)
  obtain xs d v where r: "resourceProtectionCandidates (example_selector example_full) (40 * Second) example_select_request (example_rules True)
      [example_candidate 1, example_candidate 2] (example_world None) = ((Some xs, d), v)" "example_candidate 1 \<in> set xs"
    by (rule primary_admitted [OF example_now on example_rule_fields(5), of "example_candidate 1" "[example_candidate 1, example_candidate 2]"
      "example_selector example_full" "example_world None"]) (simp_all add: example_ids example_rule_fields example_usable)
  show "\<exists>plan w'. example_outcome example_full True None = (Selected plan, w')"
    by (rule example_progress [OF r]) (simp_all add: example_usable example_no_breaker)
qed

lemma example_waits:
  assumes "example_outcome example_full False None = (Selected plan, w')"
  shows "dp_QueueWaitMs plan = 900"
proof -
  from assms have "select_protected (example_selector example_full) (40 * Second) 0 example_client None example_select_request (example_rules False)
      [example_candidate 1, example_candidate 2] (newResourceProtectionDecision (example_rules False)) (example_world None) = (Selected plan, w')"
    using example_active by (simp add: example_outcome_def Select_def example_filled example_pool example_unprotected Let_def)
  from selected_from_pool(7) [OF this example_now]
  show ?thesis
    by (auto simp: example_live selectedQueueWaitMs_def primaryWaitSelected_def newResourceProtectionDecision_def example_rule_fields)
qed

theorem select_serves_selectable_witness:
  "\<exists>plan w'. example_outcome example_full False None = (Selected plan, w')
    \<and> sp_Candidate plan \<in> {example_candidate 1, example_candidate 2}
    \<and> selectable (40 * Second) example_select_request (example_world None) (sp_Candidate plan)
        (live_snapshot (example_selector example_full) (example_rules False) (sp_Candidate plan))"
proof -
  obtain plan w' where o: "example_outcome example_full False None = (Selected plan, w')" using example_selected(1) by blast
  from select_serves_selectable [OF o [unfolded example_outcome_def] example_now] o
  show ?thesis by (auto simp: example_filled example_pool)
qed

theorem select_waits_only_when_full_witness:
  "\<exists>plan w'. example_outcome example_full False None = (Selected plan, w') \<and> dp_QueueWaitMs plan \<noteq> 0
    \<and> routingConcurrencySaturated (live_snapshot (example_selector example_full) (example_rules False) (example_candidate 1))"
proof -
  obtain plan w' where o: "example_outcome example_full False None = (Selected plan, w')" using example_selected(1) by blast
  have wait: "dp_QueueWaitMs plan \<noteq> 0" using example_waits [OF o] by simp
  have "routingConcurrencySaturated (live_snapshot (example_selector example_full) (example_rules False) (example_candidate 1))
      \<or> rejected (40 * Second) example_select_request (pool (example_selector example_full) (example_rules False)
          [example_candidate 1, example_candidate 2]) (example_world None) (example_candidate 1)
          (live_snapshot (example_selector example_full) (example_rules False) (example_candidate 1))"
    using select_waits_only_when_full [OF o [unfolded example_outcome_def] example_now _ wait, of "example_candidate 1"]
    by (simp add: example_filled example_pool example_rule_fields)
  with o wait example_usable(1) show ?thesis by blast
qed

theorem primary_resources_first_witness:
  "\<exists>plan w'. example_outcome example_full True None = (Selected plan, w') \<and> candidateChannelID (sp_Candidate plan) = 1
    \<and> sp_ProtectionRole plan = RolePrimary \<and> dp_QueueEnabled plan \<and> dp_QueueWaitMs plan = 700"
proof -
  obtain plan w' where o: "example_outcome example_full True None = (Selected plan, w')" using example_selected(2) by blast
  have "candidateChannelID (sp_Candidate plan) \<in> {1} \<and> sp_ProtectionRole plan = RolePrimary
    \<and> dp_QueueEnabled plan \<and> dp_QueueWaitMs plan = 700"
    using primary_resources_first [OF o [unfolded example_outcome_def] example_now, of "example_candidate 1"]
    by (simp add: example_filled example_pool example_rule_fields example_ids example_usable) (simp add: example_live)
  with o show ?thesis by auto
qed


theorem half_open_takes_probe_slot_witness:
  "\<exists>plan w' b'. example_outcome example_probing False (Some example_tripped) = (Selected plan, w')
    \<and> AllowProbe example_tripped (40 * Second) (dp_RuntimeKey plan) = (True, b') \<and> rw_breaker w' = Some b'"
proof -
  obtain plan w' where o: "example_outcome example_probing False (Some example_tripped) = (Selected plan, w')"
    using example_selected(3) by blast
  have "sl_Enrich (example_selector example_probing) \<noteq> None" "rw_breaker (example_world (Some example_tripped)) = Some example_tripped"
    by (simp_all add: example_selector_def example_world_def)
  from half_open_takes_probe_slot [OF o [unfolded example_outcome_def] example_now this] o
  show ?thesis by (simp add: example_live)
qed

definition example_evaluation :: "int \<Rightarrow> f64 \<Rightarrow> f64 \<Rightarrow> evaluation" where
  "example_evaluation i cost points = \<lparr>ev_candidate = example_candidate i, ev_snapshot = zero_snapshot\<lparr>rs_CostRatio := cost\<rparr>,
     ev_score = zero_score\<lparr>sr_RoutingTotal := points\<rparr>, ev_stickyMatched = False, ev_rejectReason = []\<rparr>"

lemma example_cost: "cost_of (example_evaluation i 1 t) = 1" "cost_of (example_evaluation i 4 t) = 4"
  by code_simp+

lemma example_idle: "\<not> routingConcurrencySaturated (ev_snapshot (example_evaluation i c t))"
  by (simp add: example_evaluation_def routingConcurrencySaturated_def routingConcurrencyLimit_def zero_snapshot_def Let_def)


theorem priority_decides_within_window_witness:
  "\<exists>selected used. selectCandidateByRoutingScoreAndChannelPriority DefaultChannelPriorityTieBreakConfig
      [example_evaluation 1 1 (1 / 2), example_evaluation 2 4 (1 / 2)] = Some (selected, used) \<and> priority selected = 2"
proof -
  let ?es = "[example_evaluation 1 1 (1 / 2), example_evaluation 2 4 (1 / 2)]"
  let ?d = "tb_ScoreDelta (normalized_tie_break DefaultChannelPriorityTieBreakConfig)"
  have v: "list_all valued ?es" by code_simp
  have r: "routing (example_evaluation i c t) = t" "priority (example_evaluation i c t) = i" for i c t
    by (simp_all add: example_evaluation_def candidateChannelPriority_def example_ids GetPriority_def example_channel_def)
  have w: "in_window (1 / 2) ?d (example_evaluation 2 4 (1 / 2))"
    using best_in_window [of "example_evaluation 2 4 (1 / 2)" DefaultChannelPriorityTieBreakConfig] by (simp only: r)
  have "tb_Enabled DefaultChannelPriorityTieBreakConfig" by (simp add: DefaultChannelPriorityTieBreakConfig_def)
  from priority_decides_within_window [OF _ v this]
  obtain selected used m where s: "selectCandidateByRoutingScoreAndChannelPriority DefaultChannelPriorityTieBreakConfig ?es = Some (selected, used)"
    and mem: "selected \<in> set ?es" and m: "m \<in> routing ` set ?es"
    and top: "\<forall>x \<in> set ?es. in_window m ?d x \<longrightarrow> priority x < priority selected \<or> priority x = priority selected"
    by blast
  have "m = 1 / 2" using m by (auto simp: r)
  with top w have low: "2 \<le> priority selected" by (auto simp: r)
  from low mem have "priority selected = 2" by (auto simp: r)
  with s show ?thesis by blast
qed

theorem busier_never_preferred_witness:
  "sr_RoutingTotal (score (sl_math (example_selector id)) (example_candidate 1) (zero_snapshot\<lparr>rs_ActiveConcurrency := 2\<rparr>) (example_rules False)
      (scoringContextForPolicy (example_selector id) (example_rules False) None))
    \<le> sr_RoutingTotal (score (sl_math (example_selector id)) (example_candidate 1) zero_snapshot (example_rules False)
      (scoringContextForPolicy (example_selector id) (example_rules False) None))"
proof -
  have "busier zero_snapshot (zero_snapshot\<lparr>rs_ActiveConcurrency := 2\<rparr>)" by (simp add: busier_def zero_snapshot_def)
  from busier_never_preferred [OF this] show ?thesis by blast
qed

end
