(* ===== verification/Spec2Isabelle.thy ===== *)
theory Spec2Isabelle
  imports Circuit_Properties Gateway_System Learning_Properties Queue_Snapshot Sticky_Properties Shop_Maintenance Task_Lifecycle
    Route_Guarantees
begin

text \<open>
  \<^bold>\<open>The scheduling, accounting and billing core of the gateway\<close>

  The program relays requests for language and media models to upstream channels. For every request it
  chooses a channel and an account on it, keeps within their concurrency limits, lets the request wait
  when they are busy, watches errors with circuit breakers, and charges the user's wallet or subscription
  and the token that made the request. This development models the parts that keep state across
  requests and on which money or capacity depends, and proves what makes them correct.

  \<^bold>\<open>Parts, theories and sources\<close> (paths under \<^verbatim>\<open>src/\<close>; \<^verbatim>\<open>scheduler/\<close> is \<^verbatim>\<open>pkg/modelgateway/scheduler/\<close>)

  \<^item> \<open>Prelude\<close>, \<open>Float64\<close>, \<open>Sha1\<close>: what the code uses of Go: 64-bit wrap-around (\<open>i64\<close>), strings as byte
    lists with \<^verbatim>\<open>TrimSpace\<close>, \<^verbatim>\<open>ToLower\<close>, \<^verbatim>\<open>Contains\<close> and so on, maps as association lists with distinct
    keys (\<open>gwf\<close>, \<open>gput\<close>, \<open>gdel\<close>), stable sorting, binary64 numbers as rationals with their rounding, SHA-1.
  \<^item> \<open>Gateway_Core\<close>: the records of \<^verbatim>\<open>pkg/modelgateway/core\<close> that the components exchange.
  \<^item> \<open>Circuit_Errors\<close>, \<open>Circuit_Breaker\<close>, \<open>Circuit_Properties\<close>: \<^verbatim>\<open>scheduler/circuit_breaker.go\<close>. The state
    of a breaker is a map from runtime keys to records; \<open>AllowProbe\<close>, \<open>Report\<close>, \<open>Snapshot\<close> and
    \<open>applySnapshot\<close> are its methods. Shown: the invariant over every sequence of calls, the probe budget
    of an open circuit, when exactly it trips and recovers, that a remote snapshot never makes it more
    permissive, and how probe slots leak.
  \<^item> \<open>Runtime_Identity\<close>, \<open>Channel_Concurrency\<close>, \<open>Concurrency_Properties\<close>: \<^verbatim>\<open>service/channel_runtime_identity.go\<close>
    and \<^verbatim>\<open>service/channel_concurrency.go\<close>: counters, leases, reservations and marks. Shown: over every
    interleaving counters equal leases, limits hold, reservations are returned.
  \<^item> \<open>Concurrency_Learning\<close>, \<open>Learning_Properties\<close>: the second half of that file: limits learned from
    upstream refusals, cooldown and recovery. Shown: the exact learned limit, and that the recovery never
    takes place.
  \<^item> \<open>Queue_Manager\<close>, \<open>Queue_Properties\<close>, \<open>Queue_Snapshot\<close>: \<^verbatim>\<open>scheduler/queue_manager.go\<close>: admission policies,
    waiting queues per channel and per pool, the waiting loops event by event, the snapshots. Shown: the
    manager refines one list of waiters per channel, turns follow the sorted order, depths are bounded,
    waits end, and a snapshot accounts for every waiter by priority, group and runtime key.
  \<^item> \<open>Gateway_System\<close>: requests that run \<^verbatim>\<open>AcquireWithOptions\<close>, wait, are granted, time out and release, as a
    step relation over manager and counters together. The properties are in this theory.
  \<^item> \<open>Sticky_Router\<close>, \<open>Sticky_Properties\<close>: \<^verbatim>\<open>scheduler/sticky_router.go\<close> on its memory store. Shown: a saved
    session is routed to its channel until it expires, and the store stays well formed and bounded.
  \<^item> \<open>Subscription_Calendar\<close>, \<open>Billing_Store\<close>, \<open>Billing_Books\<close>, \<open>Billing_Properties\<close>: \<^verbatim>\<open>model/subscription.go\<close>,
    \<^verbatim>\<open>model/user.go\<close>, \<^verbatim>\<open>model/token.go\<close>, \<^verbatim>\<open>model/utils.go\<close>: quota tables with batch stores, subscriptions with
    their pre-consume records and resets. Shown: bounds over all sequences of calls and failures, the
    choice of the subscription that pays, refunds, the end of the reset loop, flushes that conserve.
  \<^item> \<open>Billing_Session\<close>, \<open>Session_Contracts\<close>, \<open>Session_Properties\<close>, \<open>Session_Failures\<close>:
    \<^verbatim>\<open>service/funding_source.go\<close> and \<^verbatim>\<open>service/billing_session.go\<close>: wallet, subscription and split funding,
    and the session that pre-consumes, reserves, settles and refunds. Shown: exact charges and refunds,
    and that a session that can not be opened costs nothing.
  \<^item> \<open>Task_Billing\<close>, \<open>Task_Properties\<close>, \<open>Task_Polling\<close>, \<open>Task_Lifecycle\<close>: \<^verbatim>\<open>service/billing.go\<close>,
    \<^verbatim>\<open>service/pre_consume_quota.go\<close>, \<^verbatim>\<open>PostConsumeQuota\<close> of \<^verbatim>\<open>service/quota.go\<close>, \<^verbatim>\<open>service/task_billing.go\<close>,
    \<^verbatim>\<open>service/task_polling.go\<close>, \<^verbatim>\<open>model/task.go\<close> and the end of \<^verbatim>\<open>RelayTask\<close> in \<^verbatim>\<open>controller/relay.go\<close>: the
    settlement of requests and of asynchronous tasks. Shown: shares recorded in a task are what its sources paid,
    a task ends billed at most once under any number of pollers, and what a whole task costs; also two
    ways in which a user is paid back too much.
  \<^item> \<open>Subscription_Orders\<close>, \<open>Subscription_Admin\<close>, \<open>Shop_Effects\<close>, \<open>Shop_Properties\<close>, \<open>Shop_Groups\<close>,
    \<open>Shop_Maintenance\<close>: the rest of \<^verbatim>\<open>model/subscription.go\<close>, \<^verbatim>\<open>service/subscription_reset_task.go\<close>,
    \<^verbatim>\<open>controller/subscription.go\<close> and \<^verbatim>\<open>controller/subscription_payment_*.go\<close>: orders, their completion, plans,
    administration, expiry and the maintenance task. \<open>Shop_Effects\<close> specifies each operation by its effect
    on the tables, \<open>Shop_Properties\<close> refines them into an abstract machine of undivided changes. Shown: a
    subscription from an order is paid for, limits hold, failures change nothing, the group of a user
    lasts as long as a first subscription, expiry completes; also that a renewal keeps the group for good
    and that the reset loop may not end.
  \<^item> \<open>Route_Core\<close>, \<open>Route_Scoring\<close>, \<open>Route_Items\<close>, \<open>Route_Score\<close>, \<open>Route_Score_Properties\<close>: candidates with
    their snapshots, the static pool builder and the snapshot store (\<^verbatim>\<open>scheduler/candidate_builder.go\<close>,
    \<^verbatim>\<open>snapshot_store.go\<close>, \<^verbatim>\<open>runtime_identity.go\<close>), and their scores (\<^verbatim>\<open>scorer.go\<close>, \<^verbatim>\<open>scoring_service.go\<close>,
    \<^verbatim>\<open>score_boost.go\<close>, \<^verbatim>\<open>strategy_profile.go\<close>, \<^verbatim>\<open>latency_samples.go\<close>) in double precision. Shown: every item
    and total is between 0 and 1, and load never raises a routing score.
  \<^item> \<open>Empty_Output_Switch\<close>, \<open>Balance_Marks\<close>: \<^verbatim>\<open>scheduler/client_empty_output_switch.go\<close> and the balance marks of
    \<^verbatim>\<open>service/channel.go\<close> and \<^verbatim>\<open>service/channel_select.go\<close>. Shown: asking changes no later answer, the table of
    the tracker is bounded.
  \<^item> \<open>Route_Selection\<close>, \<open>Route_Choice\<close>, \<open>Route_Select\<close>, \<open>Route_Properties\<close>, \<open>Route_Guarantees\<close>:
    \<^verbatim>\<open>scheduler/default_selector.go\<close> and \<^verbatim>\<open>scheduler/resource_protection.go\<close>. \<open>Select\<close> runs on a \<open>route_world\<close>: the
    marks of the request, the balance marks, the tracker, the breaker and the sticky router. Shown: who is
    served, that a usable candidate is found, that a request waits only when all are full, the order by
    score and priority, the order of primary and fallback channels, the price limit of the cost guard, and
    that a half-open circuit costs a probe slot.
  \<^item> This theory: the properties that span components: requests, queues and counters together, and the
    cost of a request from opening to settlement.

  \<^bold>\<open>How the parts interact\<close>

  A request is identified by a runtime key (\<open>Gateway_Core\<close>). The selector judges and scores the candidates,
  asks the circuit breaker for a probe and the sticky router for the route of the session, and returns a
  plan; with its wait and its key the queue manager acquires a lease from the concurrency counters, at once or after
  waiting, and the lease is released when the request ends. Before it is sent a billing session is opened on the quota
  tables, and it is settled or refunded afterwards; for an asynchronous task the submission stores what
  was charged, and a poller settles or refunds it later.

  \<^bold>\<open>Conventions\<close>

  \<^item> Go's \<^verbatim>\<open>int\<close> is \<open>int\<close> where the values are counters, ids or times far from the bounds; arithmetic of the
    program on \<^verbatim>\<open>int64\<close> amounts goes through \<open>i64\<close>. Arithmetic done by the database is exact.
  \<^item> A method that holds a mutex is one step. Loops that wait (queues) and background work (pollers) are
    split at the points where others may run, and the step relations interleave them freely.
  \<^item> Clocks, values read through caches, random choices and the order in which Go visits a map are
    arguments. \<^verbatim>\<open>math.Exp\<close>, \<^verbatim>\<open>math.Log\<close> and \<^verbatim>\<open>math.Pow\<close> are too, as their results are not specified to the last
    bit; the interfaces a selector is built from (pool builder, snapshot enricher, cost baselines) are
    functions of its record. A failing database query is an entry of \<open>db_faults\<close>, so statements over all databases cover
    all patterns of failures; transactions undo their writes when the body or the commit fails.
  \<^item> Errors are values (\<open>billing_error\<close>, \<open>api_code\<close>). Third-party code (the JSON reader, Redis, adaptors for
    upstream services) is an argument of the definitions that call it.
  \<^item> Loops are structural recursion over the data they visit. The loops whose end is not obvious are partial
    functions in the option monad: the catching up of resets and the expiry of batches, which are proved to
    return, and the resetting of batches, which is proved not to return from some states. The retries of a
    refund are the counter of the source, three; there is no other fuel.
  \<^item> Interfaces are locales with interpretations on the model: the funding contracts
    (\<open>settling_contract\<close>, \<open>funding_contract\<close>) for wallet, subscription, split funding, their dispatch and
    tasks; \<open>shop_operation\<close> for the operations of the shop; \<open>sticky_contract\<close> for the memory store; \<open>accumulation\<close> for the loops that collect by key;
    \<open>probe_gate\<close> for half-open circuits; \<open>waiting_line\<close> and \<open>bounded_admission\<close> for queues; \<open>mark_store\<close> for
    the marks of a request; \<open>choice_step\<close> for the steps that revise a choice; \<open>strict_weak_order\<close> for the comparisons that lists are sorted by.

  \<^bold>\<open>Not modelled\<close>

  \<^item> The live state that \<^verbatim>\<open>scheduler/runtime_enricher.go\<close> collects for a snapshot, the update and merge of the score
    statistics, the index of \<^verbatim>\<open>candidateindex\<close>, the explanations the selector writes for the dashboard, the
    synchronisation of runtime state over Redis, and the hybrid sticky store.
  \<^item> Prices: \<^verbatim>\<open>service/text_quota.go\<close>, \<^verbatim>\<open>pkg/billingexpr\<close> and the like compute the quota that billing takes as an
    argument, with decimal and expression packages of third parties.
  \<^item> HTTP controllers, middleware, adaptors, protocol conversion, OAuth, persistence and the dashboards:
    input and output around the modelled state. What adaptors parse from responses is an argument.
  \<^item> Log lines and usage statistics, except as the list of effects of a task.
\<close>

section \<open>Requests, queues and counters together\<close>

text \<open>C1: Over every interleaving of requests that arrive, wait, are granted, time out and release,
  the counters equal the leases in use, the queues hold exactly the waiting requests, and once all
  requests have ended no counter, depth, group or waiter is left behind.\<close>

theorem gateway_no_leak:
  assumes "gateway_reachable g"
  shows "active (gw_counters g) r = (\<Sum>x \<leftarrow> gw_requests g. holding r x)
    \<and> mset (waiters_of (qm_channels (gw_manager g)) c) = mset (concat (map (waits_on c) (gw_requests g)))
    \<and> Depth (gw_manager g) c = int (length (concat (map (waits_on c) (gw_requests g))))
    \<and> (list_all ended (gw_requests g) \<longrightarrow>
         active (gw_counters g) r = 0 \<and> qm_channels (gw_manager g) = empty_side)"
proof -
  have ok: "gateway_ok g" using assms by (rule gateway_reachable_ok)
  then have side: "side_wf (qm_channels (gw_manager g))"
    and m: "mset (waiters_of (qm_channels (gw_manager g)) c) = mset (concat (map (waits_on c) (gw_requests g)))"
    by (auto simp: gateway_ok_def manager_wf_def)
  have "Depth (gw_manager g) c = int (length (concat (map (waits_on c) (gw_requests g))))"
    using side_depth [OF side, of c] mset_eq_length [OF m] by (simp add: Depth_def)
  with ok m show ?thesis using all_ended_empty [OF ok] by (auto simp: gateway_ok_def)
qed

theorem gateway_no_leak_witness:
  "active (gw_counters example_done) (ChannelCounter 7) = 0 \<and> qm_channels (gw_manager example_done) = empty_side
   \<and> Depth (gw_manager example_waiting) 7 = 1"
proof -
  have "length (concat (map (waits_on 7) (gw_requests example_waiting))) = 1" by code_simp
  then show ?thesis
    using gateway_no_leak [OF example_done_reachable, of "ChannelCounter 7" 7] example_shapes(7)
      gateway_no_leak [OF example_waiting_reachable, of "ChannelCounter 7" 7] by simp
qed





section \<open>The cost of a request\<close>

text \<open>C2: A request paid from the wallet costs exactly its actual quota, both the user and the token, whatever
  was pre-consumed for it: from the opening of its session to a successful settlement the funds fall
  by the actual quota, and a refund instead brings them back to where they were.\<close>

theorem wallet_request_costs:
  assumes "subs_ok db" and "map_of (db_records db) (ri_RequestId info) = None" and "0 \<le> n"
    and "NormalizeBillingPreference (ri_BillingPreference info) = ''wallet_only''" and "\<not> token_exempt info"
    and "has_user db (ri_UserId info)" and "has_token db (ri_TokenId info)"
    and "NewBillingSession off now trust rd n (info, db) = (Inr b, (i, db1))"
  shows "(session_Settle actual (b, db1) = (Inr (), (b2, db2)) \<longrightarrow>
      user_funds db2 (ri_UserId info) = user_funds db (ri_UserId info) - actual
      \<and> token_funds db2 (ri_TokenId info) = token_funds db (ri_TokenId info) - actual)
    \<and> (db_faults db1 = [] \<and> session_Refund (b, db1) = (b3, db3) \<longrightarrow>
      user_funds db3 (ri_UserId info) = user_funds db (ri_UserId info)
      \<and> token_funds db3 (ri_TokenId info) = token_funds db (ri_TokenId info))"
proof -
  have ok: "session_ok b" using outcomeD [OF NewBillingSession_ok [OF assms(1-3)] assms(8)] by simp
  obtain w where w: "wf_userId w = ri_UserId info" and paid: "paid_both w info db (bs_preConsumedQuota b) (b, db1)"
    using wallet_only_opened [OF assms(4,3,6,7,8)] by blast
  let ?f = "WalletFunding (w\<lparr>wf_consumed := bs_preConsumedQuota b\<rparr>)"
  have f: "bs_funding b = ?f" "ri_TokenId (bs_relayInfo b) = ri_TokenId info" "\<not> token_exempt (bs_relayInfo b)"
    and t1: "has_token db1 (ri_TokenId (bs_relayInfo b))"
    and funds: "user_funds db1 (ri_UserId info) = user_funds db (ri_UserId info) - bs_preConsumedQuota b"
      "token_funds db1 (ri_TokenId info) = token_funds db (ri_TokenId info) - bs_preConsumedQuota b"
    using paid w assms(5,7) by (simp_all add: paid_both_def)
  have ready: "funding_ready (bs_funding b) db1"
    using paid w f(1) assms(6) ok by (simp add: paid_both_def wallet_ready_def session_ok_def)
  have charge: "funding_charge ?f d = - user_funds d (ri_UserId info)" for d by (simp add: wallet_charge_def w)
  have settled: "user_funds db2 (ri_UserId info) = user_funds db (ri_UserId info) - actual
      \<and> token_funds db2 (ri_TokenId info) = token_funds db (ri_TokenId info) - actual"
    if "session_Settle actual (b, db1) = (Inr (), (b2, db2))"
  proof -
    have same: "\<exists>c. bs_funding b2 = WalletFunding (w\<lparr>wf_consumed := c\<rparr>)" using that f(1) ok by (rule wallet_session_settles)
    from settle_ok_session [OF ok ready _ t1 that, of 0] f funds charge same show ?thesis
      by (auto simp: wallet_charge_def w)
  qed
  have refunded: "user_funds db3 (ri_UserId info) = user_funds db (ri_UserId info)
      \<and> token_funds db3 (ri_TokenId info) = token_funds db (ri_TokenId info)"
    if "db_faults db1 = []" "session_Refund (b, db1) = (b3, db3)"
  proof (cases "NeedsRefund b")
    case True
    have "bs_tokenConsumed b = bs_preConsumedQuota b" using ok f(3) by (simp add: session_ok_def)
    with refund_ok_session [OF ok True ready _ that(1) t1, of db1] that(2) f funds charge show ?thesis
      by (auto simp: session_backed_def)
  next
    case False
    with unneeded_refund [OF ok f(3) False, of db1] that(2) funds show ?thesis by simp
  qed
  show ?thesis using settled refunded by blast
qed

definition example_wallet_opened :: "(api_error + billing_session) \<times> relay_info \<times> billing_db" where
  "example_wallet_opened = NewBillingSession 0 1500 5000 example_reads 300
     (example_info\<lparr>ri_BillingPreference := ''wallet_only''\<rparr>, example_db)"

theorem wallet_request_costs_witness:
  "\<exists>b2 db2. session_Settle 280 (projr (fst example_wallet_opened), snd (snd example_wallet_opened)) = (Inr (), (b2, db2))
     \<and> user_funds db2 5 = 720 \<and> token_funds db2 9 = 520"
proof -
  let ?i = "example_info\<lparr>ri_BillingPreference := ''wallet_only''\<rparr>"
  have e: "NewBillingSession 0 1500 5000 example_reads 300 (?i, example_db) =
      (Inr (projr (fst example_wallet_opened)), (fst (snd example_wallet_opened), snd (snd example_wallet_opened)))"
  proof -
    have "\<not> isl (fst example_wallet_opened)" by code_simp
    then show ?thesis unfolding example_wallet_opened_def by (simp add: prod_eq_iff)
  qed
  have pre: "map_of (db_records example_db) (ri_RequestId ?i) = None" "(0::int) \<le> 300"
    "NormalizeBillingPreference (ri_BillingPreference ?i) = ''wallet_only''" "\<not> token_exempt ?i"
    "has_user example_db (ri_UserId ?i)" "has_token example_db (ri_TokenId ?i)"
    by code_simp+
  have vals: "user_funds example_db 5 = 1000" "token_funds example_db 9 = 800" "ri_UserId ?i = 5" "ri_TokenId ?i = 9"
    by code_simp+
  obtain r b2 db2 where st: "session_Settle 280 (projr (fst example_wallet_opened), snd (snd example_wallet_opened)) = (r, (b2, db2))"
    by (cases "session_Settle 280 (projr (fst example_wallet_opened), snd (snd example_wallet_opened))") auto
  have "fst (session_Settle 280 (projr (fst example_wallet_opened), snd (snd example_wallet_opened))) = Inr ()" by code_simp
  then have st': "session_Settle 280 (projr (fst example_wallet_opened), snd (snd example_wallet_opened)) = (Inr (), (b2, db2))"
    using st by simp
  from wallet_request_costs [OF example_db_ok pre e, of 280 b2 db2] st' vals show ?thesis by simp
qed

end
